(* ===== verification/Js_Prelude.thy ===== *)
theory Js_Prelude
  imports Complex_Main "HOL-Library.AList" "HOL-Library.Sublist"
begin

section \<open>What the components share: the JavaScript values and containers the code computes with\<close>

text \<open>
  The TypeScript sources compute with a handful of language and standard-library values.  This
  theory models the ones they use:

  \<^item> \<^verbatim>\<open>number\<close>s that hold integers, as \<open>jsnum\<close>: \<open>NaN\<close> or an integer.  An integer that comes out of
    \<^verbatim>\<open>parseInt\<close>, \<^verbatim>\<open>Number(...)\<close> or an addition of such numbers is rounded to the nearest double
    (\<open>dbl\<close>), so precision is lost above \<open>2 ^ 53\<close> as it is in JavaScript;
  \<^item> \<^verbatim>\<open>bigint\<close>s as \<open>int\<close>, with division that truncates towards zero;
  \<^item> \<^verbatim>\<open>any\<close> values that come from JSON, as \<open>json\<close>, with truthiness, \<^verbatim>\<open>||\<close>, \<^verbatim>\<open>BigInt(...)\<close>,
    \<^verbatim>\<open>Number(...)\<close>, property access and optional chaining;
  \<^item> strings as lists of code units below 256, with \<^verbatim>\<open>split\<close>, \<^verbatim>\<open>trim\<close>, \<^verbatim>\<open>includes\<close>,
    \<^verbatim>\<open>replace\<close>, \<^verbatim>\<open>startsWith\<close> and \<^verbatim>\<open>parseInt\<close>;
  \<^item> \<^verbatim>\<open>Map\<close> as an association list in insertion order;
  \<^item> exceptions as the left of a sum, and code that mutates before it throws as a function
    from a state to an outcome and a state.

  The fact collections \<open>js_simps\<close> and \<open>outcome_splits\<close> carry the component proofs.
\<close>

named_theorems js_simps
named_theorems outcome_splits

subsection \<open>Exceptions\<close>

text \<open>
  What \<^verbatim>\<open>catch (err: any)\<close> can look at: \<^verbatim>\<open>err.name\<close>, \<^verbatim>\<open>err.message\<close> (absent when the thrown value is
  not an \<^verbatim>\<open>Error\<close>) and \<^verbatim>\<open>err.code\<close>.
\<close>

record js_error =
  errName :: string
  errMessage :: "string option"
  errCode :: "string option"

definition mk_error :: "string \<Rightarrow> js_error" where
  "mk_error msg = \<lparr>errName = ''Error'', errMessage = Some msg, errCode = None\<rparr>"

definition type_error :: "string \<Rightarrow> js_error" where
  "type_error msg = \<lparr>errName = ''TypeError'', errMessage = Some msg, errCode = None\<rparr>"

definition syntax_error :: "string \<Rightarrow> js_error" where
  "syntax_error msg = \<lparr>errName = ''SyntaxError'', errMessage = Some msg, errCode = None\<rparr>"

definition plain_range_error :: "string \<Rightarrow> js_error" where
  "plain_range_error msg = \<lparr>errName = ''RangeError'', errMessage = Some msg, errCode = None\<rparr>"

text \<open>The errors of Node carry a code.\<close>

definition range_error :: "string \<Rightarrow> js_error" where
  "range_error msg = \<lparr>errName = ''RangeError'', errMessage = Some msg, errCode = Some ''ERR_OUT_OF_RANGE''\<rparr>"

type_synonym 'a outcome = "js_error + 'a"

text \<open>\<open>e_bind\<close> runs the rest of a function unless the first part threw.\<close>

definition e_bind :: "'a outcome \<Rightarrow> ('a \<Rightarrow> 'b outcome) \<Rightarrow> 'b outcome" where
  "e_bind m f = (case m of Inl e \<Rightarrow> Inl e | Inr a \<Rightarrow> f a)"

lemma e_bind_simps [simp]:
  "e_bind (Inl e) f = Inl e"
  "e_bind (Inr a) f = f a"
  by (simp_all add: e_bind_def)

lemma e_bind_Inr_iff: "e_bind m f = Inr b \<longleftrightarrow> (\<exists>a. m = Inr a \<and> f a = Inr b)"
  by (cases m) auto

lemma e_bind_Inl_iff: "e_bind m f = Inl e \<longleftrightarrow> m = Inl e \<or> (\<exists>a. m = Inr a \<and> f a = Inl e)"
  by (cases m) auto

text \<open>\<^verbatim>\<open>xs.map(f)\<close> where \<open>f\<close> may throw: the first throw ends it.\<close>

fun e_map :: "('a \<Rightarrow> 'b outcome) \<Rightarrow> 'a list \<Rightarrow> 'b list outcome" where
  "e_map f [] = Inr []"
| "e_map f (x # xs) = e_bind (f x) (\<lambda>y. e_bind (e_map f xs) (\<lambda>ys. Inr (y # ys)))"

lemma e_map_cong [fundef_cong]:
  "xs = ys \<Longrightarrow> (\<And>x. x \<in> set ys \<Longrightarrow> f x = g x) \<Longrightarrow> e_map f xs = e_map g ys"
  by (induction ys arbitrary: xs) auto

lemma e_map_Inr: "(\<And>x. x \<in> set xs \<Longrightarrow> f (g x) = Inr x) \<Longrightarrow> e_map f (map g xs) = Inr xs"
  by (induction xs) auto

text \<open>
  Code that changes an object before it may throw: the state is returned with the exception too,
  so that what was already written stays written.
\<close>

type_synonym ('s, 'a) stateful = "'s \<Rightarrow> 'a outcome \<times> 's"

definition s_bind :: "('s, 'a) stateful \<Rightarrow> ('a \<Rightarrow> ('s, 'b) stateful) \<Rightarrow> ('s, 'b) stateful" where
  "s_bind m f s = (case m s of (Inl e, s') \<Rightarrow> (Inl e, s') | (Inr a, s') \<Rightarrow> f a s')"

definition s_return :: "'a \<Rightarrow> ('s, 'a) stateful" where
  "s_return a s = (Inr a, s)"

definition s_throw :: "js_error \<Rightarrow> ('s, 'a) stateful" where
  "s_throw e s = (Inl e, s)"

definition s_modify :: "('s \<Rightarrow> 's) \<Rightarrow> ('s, unit) stateful" where
  "s_modify f s = (Inr (), f s)"

definition s_get :: "('s \<Rightarrow> 'a) \<Rightarrow> ('s, 'a) stateful" where
  "s_get f s = (Inr (f s), s)"

definition s_lift :: "'a outcome \<Rightarrow> ('s, 'a) stateful" where
  "s_lift r s = (r, s)"

lemmas stateful_defs [js_simps] =
  s_return_def s_throw_def s_modify_def s_get_def s_lift_def

lemma s_bind_simps [simp]:
  "m s = (Inl e, s') \<Longrightarrow> s_bind m f s = (Inl e, s')"
  "m s = (Inr a, s') \<Longrightarrow> s_bind m f s = f a s'"
  by (simp_all add: s_bind_def)

lemma s_bind_ops [simp]:
  "s_bind (s_return a) f s = f a s"
  "s_bind (s_throw e) f s = (Inl e, s)"
  "s_bind (s_modify g) h s = h () (g s)"
  "s_bind (s_get k) f s = f (k s) s"
  "s_bind (s_lift (Inr a)) f s = f a s"
  "s_bind (s_lift (Inl e)) f s = (Inl e, s)"
  by (simp_all add: s_bind_def stateful_defs)

lemma s_bind_split:
  "s_bind m f s = (r, s') \<longleftrightarrow>
     (\<exists>e. m s = (Inl e, s') \<and> r = Inl e) \<or> (\<exists>a t. m s = (Inr a, t) \<and> f a t = (r, s'))"
  by (auto simp: s_bind_def split: prod.splits sum.splits)

lemmas [outcome_splits] = sum.splits option.splits prod.splits if_splits

text \<open>A loop whose body may throw stops at the first throw, with what was written so far.\<close>

fun s_for :: "('x \<Rightarrow> ('s, unit) stateful) \<Rightarrow> 'x list \<Rightarrow> ('s, unit) stateful" where
  "s_for body [] s = (Inr (), s)"
| "s_for body (x # xs) s =
     (case body x s of (Inl e, s') \<Rightarrow> (Inl e, s') | (Inr _, s') \<Rightarrow> s_for body xs s')"

lemma s_for_invariant:
  assumes "\<And>x s r s'. x \<in> set xs \<Longrightarrow> I s \<Longrightarrow> body x s = (r, s') \<Longrightarrow> I s'"
    and "I s" and "s_for body xs s = (r, s')"
  shows "I s'"
  using assms
proof (induction xs arbitrary: s)
  case Nil
  then show ?case by simp
next
  case (Cons x xs)
  obtain r1 s1 where b: "body x s = (r1, s1)" by (cases "body x s")
  with Cons.prems(1)[of x s r1 s1] Cons.prems(2) have I1: "I s1" by simp
  show ?case
  proof (cases r1)
    case (Inl e)
    with b Cons.prems(3) I1 show ?thesis by simp
  next
    case (Inr u)
    with b Cons.prems(3) have rest: "s_for body xs s1 = (r, s')" by simp
    show ?thesis
    proof (rule Cons.IH[OF _ I1 rest])
      fix x' t r' t'
      assume "x' \<in> set xs" "I t" "body x' t = (r', t')"
      then show "I t'" using Cons.prems(1) by (meson list.set_intros(2))
    qed
  qed
qed


subsection \<open>Numbers\<close>

text \<open>
  \<open>dbl n\<close> is the double nearest to the integer \<open>n\<close>, ties to the even mantissa: the identity up to
  \<open>2 ^ 53\<close>, and above it \<open>n\<close> with all but the 53 leading bits rounded away.
\<close>

fun bit_length :: "nat \<Rightarrow> nat" where
  "bit_length n = (if n = 0 then 0 else Suc (bit_length (n div 2)))"

declare bit_length.simps [simp del]

definition round_mantissa :: "nat \<Rightarrow> nat" where
  "round_mantissa n =
     (let e = bit_length n - 53; q = n div 2 ^ e; r = n mod 2 ^ e
      in (if 2 * r > 2 ^ e \<or> (2 * r = 2 ^ e \<and> odd q) then q + 1 else q) * 2 ^ e)"

definition max_safe :: int where
  "max_safe = 9007199254740992"

definition dbl :: "int \<Rightarrow> int" where
  "dbl n = (if \<bar>n\<bar> \<le> max_safe then n else sgn n * int (round_mantissa (nat \<bar>n\<bar>)))"

lemma dbl_safe [simp]: "\<bar>n\<bar> \<le> max_safe \<Longrightarrow> dbl n = n"
  by (simp add: dbl_def)

lemma dbl_nonneg: "0 \<le> n \<Longrightarrow> 0 \<le> dbl n"
  by (auto simp: dbl_def max_safe_def)

lemma dbl_minus: "dbl (- n) = - dbl n"
  by (simp add: dbl_def)

datatype jsnum = NaN | Num int

text \<open>Comparisons with \<^verbatim>\<open>NaN\<close> are false, \<^verbatim>\<open>===\<close> included.\<close>

fun num_le :: "jsnum \<Rightarrow> jsnum \<Rightarrow> bool" where
  "num_le (Num a) (Num b) = (a \<le> b)"
| "num_le _ _ = False"

fun num_lt :: "jsnum \<Rightarrow> jsnum \<Rightarrow> bool" where
  "num_lt (Num a) (Num b) = (a < b)"
| "num_lt _ _ = False"

fun num_eq :: "jsnum \<Rightarrow> jsnum \<Rightarrow> bool" where
  "num_eq (Num a) (Num b) = (a = b)"
| "num_eq _ _ = False"

fun num_add :: "jsnum \<Rightarrow> jsnum \<Rightarrow> jsnum" where
  "num_add (Num a) (Num b) = Num (dbl (a + b))"
| "num_add _ _ = NaN"

fun num_sub :: "jsnum \<Rightarrow> jsnum \<Rightarrow> jsnum" where
  "num_sub (Num a) (Num b) = Num (dbl (a - b))"
| "num_sub _ _ = NaN"

lemma num_eq_Num [simp]: "num_eq x (Num a) \<longleftrightarrow> x = Num a"
  by (cases x) auto

lemma num_le_iff: "num_le x y \<longleftrightarrow> (\<exists>a b. x = Num a \<and> y = Num b \<and> a \<le> b)"
  by (cases x; cases y) auto

lemma num_lt_iff: "num_lt x y \<longleftrightarrow> (\<exists>a b. x = Num a \<and> y = Num b \<and> a < b)"
  by (cases x; cases y) auto

text \<open>\<^verbatim>\<open>bigint\<close> division truncates towards zero.\<close>

definition big_div :: "int \<Rightarrow> int \<Rightarrow> int" where
  "big_div a b = sgn a * sgn b * (\<bar>a\<bar> div \<bar>b\<bar>)"

lemma big_div_nonneg: "0 \<le> a \<Longrightarrow> 0 < b \<Longrightarrow> big_div a b = a div b"
  by (cases "a = 0") (simp_all add: big_div_def)

lemma big_div_minus: "big_div (- a) b = - big_div a b"
  by (simp add: big_div_def)

subsection \<open>Strings\<close>

text \<open>White space of \<^verbatim>\<open>trim\<close> and \<^verbatim>\<open>parseInt\<close>, among the code units below 256.\<close>

definition is_ws :: "char \<Rightarrow> bool" where
  "is_ws c \<longleftrightarrow> c \<in> set [CHR 0x09, CHR 0x0A, CHR 0x0B, CHR 0x0C, CHR 0x0D, CHR 0x20, CHR 0xA0]"

definition trim :: "string \<Rightarrow> string" where
  "trim s = rev (dropWhile is_ws (rev (dropWhile is_ws s)))"

fun split_on :: "char \<Rightarrow> string \<Rightarrow> string list" where
  "split_on c [] = [[]]"
| "split_on c (x # xs) =
     (if x = c then [] # split_on c xs
      else case split_on c xs of [] \<Rightarrow> [[x]] | y # ys \<Rightarrow> (x # y) # ys)"

lemma split_on_nonempty [simp]: "split_on c s \<noteq> []"
  by (induction s) (auto split: list.splits)

definition starts_with :: "string \<Rightarrow> string \<Rightarrow> bool" where
  "starts_with p s \<longleftrightarrow> take (length p) s = p"

fun str_includes :: "string \<Rightarrow> string \<Rightarrow> bool" where
  "str_includes p [] = (p = [])"
| "str_includes p (x # xs) = (starts_with p (x # xs) \<or> str_includes p xs)"

fun replace_first :: "string \<Rightarrow> string \<Rightarrow> string \<Rightarrow> string" where
  "replace_first p r [] = (if p = [] then r else [])"
| "replace_first p r (x # xs) =
     (if starts_with p (x # xs) then r @ drop (length p) (x # xs) else x # replace_first p r xs)"

text \<open>The digits of a radix up to 16, case-insensitive.\<close>

definition hex_digits :: string where
  "hex_digits = ''0123456789abcdef''"

fun index_of :: "'a \<Rightarrow> 'a list \<Rightarrow> nat option" where
  "index_of x [] = None"
| "index_of x (y # ys) = (if x = y then Some 0 else map_option Suc (index_of x ys))"

definition to_lower :: "char \<Rightarrow> char" where
  "to_lower c =
     (if c = CHR ''A'' then CHR ''a'' else if c = CHR ''B'' then CHR ''b''
      else if c = CHR ''C'' then CHR ''c'' else if c = CHR ''D'' then CHR ''d''
      else if c = CHR ''E'' then CHR ''e'' else if c = CHR ''F'' then CHR ''f'' else c)"

definition digit_val :: "nat \<Rightarrow> char \<Rightarrow> nat option" where
  "digit_val radix c =
     (case index_of (to_lower c) hex_digits of
        None \<Rightarrow> None
      | Some d \<Rightarrow> if d < radix then Some d else None)"

fun digits_prefix :: "nat \<Rightarrow> nat \<Rightarrow> string \<Rightarrow> nat" where
  "digits_prefix radix acc [] = acc"
| "digits_prefix radix acc (c # cs) =
     (case digit_val radix c of
        None \<Rightarrow> acc
      | Some d \<Rightarrow> digits_prefix radix (acc * radix + d) cs)"

text \<open>
  \<^verbatim>\<open>parseInt(s)\<close> with no radix: leading white space, a sign, \<^verbatim>\<open>0x\<close> for hexadecimal, then the longest
  run of digits; \<^verbatim>\<open>NaN\<close> when there is none.
\<close>

definition parse_unsigned :: "string \<Rightarrow> nat option" where
  "parse_unsigned s =
     (let hex = starts_with ''0x'' s \<or> starts_with ''0X'' s;
          radix = (if hex then 16 else 10);
          ds = (if hex then drop 2 s else s)
      in case ds of
           [] \<Rightarrow> None
         | c # _ \<Rightarrow> if digit_val radix c = None then None else Some (digits_prefix radix 0 ds))"

definition parse_int :: "string \<Rightarrow> jsnum" where
  "parse_int s =
     (let t = dropWhile is_ws s;
          neg = starts_with ''-'' t;
          body = (if neg \<or> starts_with ''+'' t then drop 1 t else t)
      in case parse_unsigned body of
           None \<Rightarrow> NaN
         | Some n \<Rightarrow> Num (dbl (if neg then - int n else int n)))"

text \<open>
  The integer literals that \<^verbatim>\<open>BigInt(string)\<close> and \<^verbatim>\<open>Number(string)\<close> accept: surrounding white space,
  the empty string as 0, a sign before decimal digits, or \<^verbatim>\<open>0x\<close> with hexadecimal digits.
\<close>

definition all_digits :: "nat \<Rightarrow> string \<Rightarrow> bool" where
  "all_digits radix s \<longleftrightarrow> s \<noteq> [] \<and> list_all (\<lambda>c. digit_val radix c \<noteq> None) s"

definition int_literal :: "string \<Rightarrow> int option" where
  "int_literal s =
     (let t = trim s
      in if t = [] then Some 0
         else if starts_with ''0x'' t \<or> starts_with ''0X'' t
         then (if all_digits 16 (drop 2 t) then Some (int (digits_prefix 16 0 (drop 2 t))) else None)
         else if starts_with ''-'' t
         then (if all_digits 10 (drop 1 t) then Some (- int (digits_prefix 10 0 (drop 1 t))) else None)
         else if starts_with ''+'' t
         then (if all_digits 10 (drop 1 t) then Some (int (digits_prefix 10 0 (drop 1 t))) else None)
         else if all_digits 10 t then Some (int (digits_prefix 10 0 t)) else None)"

text \<open>\<^verbatim>\<open>toString()\<close> of an integer, decimal or in another radix up to 16.\<close>

fun show_radix :: "nat \<Rightarrow> nat \<Rightarrow> string" where
  "show_radix radix n =
     (if radix < 2 \<or> n < radix then [hex_digits ! (n mod 16)]
      else show_radix radix (n div radix) @ [hex_digits ! (n mod radix)])"

declare show_radix.simps [simp del]

definition show_nat :: "nat \<Rightarrow> string" where
  "show_nat n = show_radix 10 n"

definition show_int :: "int \<Rightarrow> string" where
  "show_int i = (if i < 0 then ''-'' @ show_nat (nat (- i)) else show_nat (nat i))"

text \<open>\<^verbatim>\<open>s.padStart(n, c)\<close>\<close>

definition pad_start :: "nat \<Rightarrow> char \<Rightarrow> string \<Rightarrow> string" where
  "pad_start n c s = replicate (n - length s) c @ s"

fun show_num :: "jsnum \<Rightarrow> string" where
  "show_num NaN = ''NaN''"
| "show_num (Num i) = show_int i"


text \<open>Printing and reading agree: what \<^verbatim>\<open>toString\<close> prints, the readers give back.\<close>

lemma index_of_nth: "distinct xs \<Longrightarrow> i < length xs \<Longrightarrow> index_of (xs ! i) xs = Some i"
proof (induction xs arbitrary: i)
  case Nil
  then show ?case by simp
next
  case (Cons x xs)
  then show ?case by (cases i) (auto simp: nth_mem)
qed

lemma to_lower_hex_digits: "c \<in> set hex_digits \<Longrightarrow> to_lower c = c"
  by (auto simp: to_lower_def hex_digits_def)

lemma digit_val_hex_digit:
  assumes "d < radix" and "radix \<le> 16"
  shows "digit_val radix (hex_digits ! d) = Some d"
proof -
  have len: "length hex_digits = 16" and dist: "distinct hex_digits"
    by (simp_all add: hex_digits_def)
  from assms len have d: "d < length hex_digits" by simp
  have "to_lower (hex_digits ! d) = hex_digits ! d"
    using nth_mem[OF d] by (rule to_lower_hex_digits)
  with index_of_nth[OF dist d] assms(1) show ?thesis by (simp add: digit_val_def)
qed

lemma digits_prefix_append:
  "list_all (\<lambda>c. digit_val radix c \<noteq> None) xs \<Longrightarrow>
     digits_prefix radix acc (xs @ ys) = digits_prefix radix (digits_prefix radix acc xs) ys"
  by (induction xs arbitrary: acc) (auto split: option.splits)

lemma show_radix_digits:
  assumes "2 \<le> radix" and "radix \<le> 16"
  shows "list_all (\<lambda>c. digit_val radix c \<noteq> None) (show_radix radix n)
     \<and> digits_prefix radix 0 (show_radix radix n) = n"
  using assms
proof (induction radix n rule: show_radix.induct)
  case (1 radix n)
  show ?case
  proof (cases "n < radix")
    case True
    with "1.prems" have eq: "show_radix radix n = [hex_digits ! n]"
      by (simp add: show_radix.simps[of radix n])
    show ?thesis using True "1.prems" by (simp add: eq digit_val_hex_digit)
  next
    case False
    with "1.prems" have eq: "show_radix radix n = show_radix radix (n div radix) @ [hex_digits ! (n mod radix)]"
      by (simp add: show_radix.simps[of radix n])
    have d: "digit_val radix (hex_digits ! (n mod radix)) = Some (n mod radix)"
      using "1.prems" by (intro digit_val_hex_digit) auto
    from False "1.prems" "1.IH" show ?thesis
      by (simp add: eq d digits_prefix_append)
  qed
qed

lemma show_radix_nonempty [simp]: "show_radix radix n \<noteq> []"
  by (simp add: show_radix.simps[of radix n])

lemma show_nat_all_digits: "all_digits 10 (show_nat n)"
  using show_radix_digits[of 10 n] by (simp add: all_digits_def show_nat_def)

lemma digits_prefix_show_nat: "digits_prefix 10 0 (show_nat n) = n"
  using show_radix_digits[of 10 n] by (simp add: show_nat_def)

lemma digit_not_special:
  "digit_val 10 c \<noteq> None \<Longrightarrow> \<not> is_ws c \<and> c \<noteq> CHR ''-'' \<and> c \<noteq> CHR ''+'' \<and> c \<noteq> CHR ''x'' \<and> c \<noteq> CHR ''X''"
  by (auto simp: digit_val_def is_ws_def to_lower_def hex_digits_def)

lemma dropWhile_ws_digits: "list_all (\<lambda>c. digit_val 10 c \<noteq> None) s \<Longrightarrow> dropWhile is_ws s = s"
  using digit_not_special by (cases s) simp_all

lemma trim_digits: "all_digits 10 s \<Longrightarrow> trim s = s"
proof -
  assume "all_digits 10 s"
  then have l: "list_all (\<lambda>c. digit_val 10 c \<noteq> None) s" by (simp add: all_digits_def)
  then have "list_all (\<lambda>c. digit_val 10 c \<noteq> None) (rev s)" by simp
  with l show ?thesis by (simp add: trim_def dropWhile_ws_digits)
qed

lemma digits_no_prefix:
  assumes "all_digits 10 s"
  shows "\<not> starts_with ''0x'' s" "\<not> starts_with ''0X'' s" "\<not> starts_with ''-'' s" "\<not> starts_with ''+'' s"
proof -
  have in_s: "c \<noteq> CHR ''-'' \<and> c \<noteq> CHR ''+'' \<and> c \<noteq> CHR ''x'' \<and> c \<noteq> CHR ''X''" if "c \<in> set s" for c
    using assms that digit_not_special[of c] by (simp add: all_digits_def list_all_iff)
  have start: "p = [] \<or> last p \<in> set s" if "starts_with p s" for p
    using that set_take_subset[of "length p" s] last_in_set[of p] by (metis starts_with_def subsetD)
  show "\<not> starts_with ''0x'' s" "\<not> starts_with ''0X'' s" "\<not> starts_with ''-'' s" "\<not> starts_with ''+'' s"
    using in_s start[of "''0x''"] start[of "''0X''"] start[of "''-''"] start[of "''+''"] by force+
qed

lemma trim_minus_digits: "all_digits 10 s \<Longrightarrow> trim (CHR ''-'' # s) = CHR ''-'' # s"
proof -
  assume a: "all_digits 10 s"
  then have "s \<noteq> []" and "list_all (\<lambda>c. digit_val 10 c \<noteq> None) s" by (auto simp: all_digits_def)
  then obtain c cs where r: "rev s = c # cs" and "digit_val 10 c \<noteq> None"
    by (cases "rev s") (auto simp: list_all_iff dest!: arg_cong[of "rev s" _ set])
  then have "\<not> is_ws c" by (simp add: digit_not_special)
  then have "dropWhile is_ws (rev s @ [CHR ''-'']) = rev s @ [CHR ''-'']" by (simp add: r)
  moreover have "\<not> is_ws (CHR ''-'')" by (simp add: is_ws_def)
  ultimately show ?thesis by (simp add: trim_def)
qed

theorem int_literal_show_int: "int_literal (show_int i) = Some i"
proof (cases "i < 0")
  case True
  let ?s = "show_nat (nat (- i))"
  have d: "all_digits 10 ?s" by (rule show_nat_all_digits)
  have t: "trim (CHR ''-'' # ?s) = CHR ''-'' # ?s" using d by (rule trim_minus_digits)
  show ?thesis using True d
    by (simp add: show_int_def int_literal_def t starts_with_def digits_prefix_show_nat)
next
  case False
  let ?s = "show_nat (nat i)"
  have d: "all_digits 10 ?s" by (rule show_nat_all_digits)
  then have "?s \<noteq> []" by (simp add: all_digits_def)
  with False d show ?thesis
    by (simp add: show_int_def int_literal_def trim_digits digits_no_prefix digits_prefix_show_nat)
qed

lemma parse_int_show_nat: "parse_int (show_nat n) = Num (dbl (int n))"
proof -
  let ?s = "show_nat n"
  have d: "all_digits 10 ?s" by (rule show_nat_all_digits)
  then have l: "list_all (\<lambda>c. digit_val 10 c \<noteq> None) ?s" by (simp add: all_digits_def)
  then obtain c cs where s: "?s = c # cs" and c: "digit_val 10 c \<noteq> None"
    using d by (cases ?s) (auto simp: all_digits_def)
  have "parse_unsigned ?s = Some n"
    using digits_no_prefix[OF d] c digits_prefix_show_nat[of n]
    by (simp add: parse_unsigned_def Let_def s)
  moreover have "dropWhile is_ws ?s = ?s" using l by (rule dropWhile_ws_digits)
  ultimately show ?thesis
    using digits_no_prefix[OF d] by (simp add: parse_int_def Let_def)
qed

subsection \<open>JSON values\<close>

text \<open>Values of type \<^verbatim>\<open>any\<close> that were parsed from JSON; \<open>JUndef\<close> is \<^verbatim>\<open>undefined\<close>.\<close>

datatype json =
    JUndef
  | JNull
  | JBool bool
  | JNum int
  | JStr string
  | JArr "json list"
  | JObj "(string \<times> json) list"

fun truthy :: "json \<Rightarrow> bool" where
  "truthy JUndef = False"
| "truthy JNull = False"
| "truthy (JBool b) = b"
| "truthy (JNum n) = (n \<noteq> 0)"
| "truthy (JStr s) = (s \<noteq> [])"
| "truthy (JArr xs) = True"
| "truthy (JObj ps) = True"

definition js_or :: "json \<Rightarrow> json \<Rightarrow> json" where
  "js_or a b = (if truthy a then a else b)"

text \<open>Property access: on \<^verbatim>\<open>undefined\<close> and \<^verbatim>\<open>null\<close> it throws, with \<^verbatim>\<open>?.\<close> it gives \<^verbatim>\<open>undefined\<close>.\<close>

fun own_prop :: "string \<Rightarrow> json \<Rightarrow> json" where
  "own_prop k (JObj ps) = (case map_of ps k of None \<Rightarrow> JUndef | Some v \<Rightarrow> v)"
| "own_prop k v = JUndef"

fun nullish :: "json \<Rightarrow> bool" where
  "nullish JUndef = True"
| "nullish JNull = True"
| "nullish v = False"

definition get_prop :: "string \<Rightarrow> json \<Rightarrow> json outcome" where
  "get_prop k v =
     (if nullish v then Inl (type_error (''Cannot read properties of undefined or null'')) else Inr (own_prop k v))"

definition opt_prop :: "string \<Rightarrow> json \<Rightarrow> json" where
  "opt_prop k v = (if nullish v then JUndef else own_prop k v)"

fun opt_index :: "nat \<Rightarrow> json \<Rightarrow> json" where
  "opt_index i (JArr xs) = (if i < length xs then xs ! i else JUndef)"
| "opt_index i (JStr s) = (if i < length s then JStr [s ! i] else JUndef)"
| "opt_index i v = own_prop (show_nat i) v"

text \<open>\<^verbatim>\<open>String(v)\<close>, as the conversions to numbers see an array or an object.\<close>

fun intercalate :: "string \<Rightarrow> string list \<Rightarrow> string" where
  "intercalate sep [] = []"
| "intercalate sep [x] = x"
| "intercalate sep (x # y # zs) = x @ sep @ intercalate sep (y # zs)"

fun js_string :: "json \<Rightarrow> string" where
  "js_string JUndef = ''undefined''"
| "js_string JNull = ''null''"
| "js_string (JBool b) = (if b then ''true'' else ''false'')"
| "js_string (JNum n) = show_int n"
| "js_string (JStr s) = s"
| "js_string (JArr xs) = intercalate '','' (map (\<lambda>x. if nullish x then [] else js_string x) xs)"
| "js_string (JObj ps) = ''[object Object]''"

fun big_int :: "json \<Rightarrow> int outcome" where
  "big_int JUndef = Inl (type_error ''Cannot convert undefined to a BigInt'')"
| "big_int JNull = Inl (type_error ''Cannot convert null to a BigInt'')"
| "big_int (JBool b) = Inr (if b then 1 else 0)"
| "big_int (JNum n) = Inr n"
| "big_int v =
     (case int_literal (js_string v) of
        None \<Rightarrow> Inl (syntax_error (''Cannot convert '' @ js_string v @ '' to a BigInt''))
      | Some n \<Rightarrow> Inr n)"

fun to_number :: "json \<Rightarrow> jsnum" where
  "to_number JUndef = NaN"
| "to_number JNull = Num 0"
| "to_number (JBool b) = Num (if b then 1 else 0)"
| "to_number (JNum n) = Num n"
| "to_number v = (case int_literal (js_string v) of None \<Rightarrow> NaN | Some n \<Rightarrow> Num (dbl n))"

lemma js_or_simps [simp]:
  "truthy a \<Longrightarrow> js_or a b = a"
  "\<not> truthy a \<Longrightarrow> js_or a b = b"
  by (simp_all add: js_or_def)

lemma show_int_nonempty [simp]: "show_int i \<noteq> []"
  by (simp add: show_int_def show_nat_def)

lemma big_int_show [simp]: "big_int (JStr (show_int i)) = Inr i"
  by (simp add: int_literal_show_int)

lemma to_number_show [simp]: "to_number (JStr (show_int i)) = Num (dbl i)"
  by (simp add: int_literal_show_int)

subsection \<open>Maps in insertion order\<close>

text \<open>
  \<^verbatim>\<open>Map\<close>: \<^verbatim>\<open>set\<close> of a present key keeps its place, of a new key appends it; iteration follows the
  insertion order.  The interface is the locale \<open>js_map\<close>: what \<^verbatim>\<open>get\<close> returns after each
  operation, and the keys in order.
\<close>

type_synonym ('k, 'v) js_map_t = "('k \<times> 'v) list"

definition map_get :: "('k, 'v) js_map_t \<Rightarrow> 'k \<Rightarrow> 'v option" where
  "map_get m k = map_of m k"

definition map_has :: "('k, 'v) js_map_t \<Rightarrow> 'k \<Rightarrow> bool" where
  "map_has m k \<longleftrightarrow> map_of m k \<noteq> None"

definition map_set :: "'k \<Rightarrow> 'v \<Rightarrow> ('k, 'v) js_map_t \<Rightarrow> ('k, 'v) js_map_t" where
  "map_set k v m = AList.update k v m"

definition map_delete :: "'k \<Rightarrow> ('k, 'v) js_map_t \<Rightarrow> ('k, 'v) js_map_t" where
  "map_delete k m = AList.delete k m"

definition map_keys :: "('k, 'v) js_map_t \<Rightarrow> 'k list" where
  "map_keys m = map fst m"

definition map_values :: "('k, 'v) js_map_t \<Rightarrow> 'v list" where
  "map_values m = map snd m"

definition map_wf :: "('k, 'v) js_map_t \<Rightarrow> bool" where
  "map_wf m \<longleftrightarrow> distinct (map fst m)"

locale js_map =
  fixes get :: "'m \<Rightarrow> 'k \<Rightarrow> 'v option"
    and put :: "'k \<Rightarrow> 'v \<Rightarrow> 'm \<Rightarrow> 'm"
    and del :: "'k \<Rightarrow> 'm \<Rightarrow> 'm"
    and keys :: "'m \<Rightarrow> 'k list"
    and wf :: "'m \<Rightarrow> bool"
  assumes get_put: "get (put k v m) k' = (if k' = k then Some v else get m k')"
    and get_del: "get (del k m) k' = (if k' = k then None else get m k')"
    and keys_get: "k \<in> set (keys m) \<longleftrightarrow> get m k \<noteq> None"
    and keys_put: "keys (put k v m) = (if get m k = None then keys m @ [k] else keys m)"
    and keys_del: "keys (del k m) = filter (\<lambda>k'. k' \<noteq> k) (keys m)"
    and wf_put: "wf m \<Longrightarrow> wf (put k v m)"
    and wf_del: "wf m \<Longrightarrow> wf (del k m)"
    and wf_keys: "wf m \<Longrightarrow> distinct (keys m)"
begin

text \<open>The loop that adds the missing keys, as the registry code runs it.\<close>

lemma get_ensure:
  "get (fold (\<lambda>k m. if get m k = None then put k (d k) m else m) ks m) k =
     (case get m k of Some v \<Rightarrow> Some v | None \<Rightarrow> if k \<in> set ks then Some (d k) else None)"
  by (induction ks arbitrary: m) (auto simp: get_put split: option.splits)

lemma keys_ensure:
  "set (keys (fold (\<lambda>k m. if get m k = None then put k (d k) m else m) ks m)) = set (keys m) \<union> set ks"
  by (auto simp: keys_get get_ensure split: option.splits if_splits)

lemma wf_ensure: "wf m \<Longrightarrow> wf (fold (\<lambda>k m. if get m k = None then put k (d k) m else m) ks m)"
  by (induction ks arbitrary: m) (auto intro: wf_put)

lemma keys_prefix_ensure:
  "\<exists>new. keys (fold (\<lambda>k m. if get m k = None then put k (d k) m else m) ks m) = keys m @ new"
proof (induction ks arbitrary: m)
  case Nil
  then show ?case by simp
next
  case (Cons k ks)
  show ?case
  proof (cases "get m k")
    case None
    with Cons.IH[of "put k (d k) m"] show ?thesis by (auto simp: keys_put)
  next
    case (Some v)
    with Cons.IH[of m] show ?thesis by simp
  qed
qed

end

interpretation js_alist: js_map map_get map_set map_delete map_keys map_wf
proof unfold_locales
  fix k k' :: 'k and v :: 'v and m :: "('k, 'v) js_map_t"
  show "map_get (map_set k v m) k' = (if k' = k then Some v else map_get m k')"
    by (simp add: map_get_def map_set_def update_conv')
  show "map_get (map_delete k m) k' = (if k' = k then None else map_get m k')"
    by (simp add: map_get_def map_delete_def delete_conv')
  show "k \<in> set (map_keys m) \<longleftrightarrow> map_get m k \<noteq> None"
    by (simp add: map_keys_def map_get_def map_of_eq_None_iff)
  show "map_keys (map_set k v m) = (if map_get m k = None then map_keys m @ [k] else map_keys m)"
    by (induction m) (auto simp: map_keys_def map_set_def map_get_def)
  show "map_keys (map_delete k m) = filter (\<lambda>k'. k' \<noteq> k) (map_keys m)"
    by (induction m) (auto simp: map_keys_def map_delete_def AList.delete_eq)
  show "map_wf m \<Longrightarrow> map_wf (map_set k v m)"
    by (simp add: map_wf_def map_set_def distinct_update)
  show "map_wf m \<Longrightarrow> map_wf (map_delete k m)"
    by (simp add: map_wf_def map_delete_def distinct_delete)
  show "map_wf m \<Longrightarrow> distinct (map_keys m)"
    by (simp add: map_wf_def map_keys_def)
qed

lemmas js_map_simps [simp] = js_alist.get_put js_alist.get_del

lemma map_get_Nil [simp]: "map_get [] k = None"
  by (simp add: map_get_def)

lemma map_has_get: "map_has m k \<longleftrightarrow> map_get m k \<noteq> None"
  by (simp add: map_has_def map_get_def)

lemma map_get_in: "map_get m k = Some v \<Longrightarrow> (k, v) \<in> set m"
  by (simp add: map_get_def map_of_SomeD)

lemma map_get_wf: "map_wf m \<Longrightarrow> (k, v) \<in> set m \<longleftrightarrow> map_get m k = Some v"
  by (simp add: map_wf_def map_get_def)

subsection \<open>Sets in insertion order\<close>

text \<open>\<^verbatim>\<open>Set\<close> as the list of its members; \<open>set_add\<close> is \<^verbatim>\<open>add\<close>.\<close>

definition set_add :: "'a \<Rightarrow> 'a list \<Rightarrow> 'a list" where
  "set_add v xs = (if v \<in> set xs then xs else xs @ [v])"

lemma set_set_add [simp]: "set (set_add v xs) = insert v (set xs)"
  by (auto simp: set_add_def)

lemma set_fold_add [simp]: "set (fold set_add vs xs) = set vs \<union> set xs"
  by (induction vs arbitrary: xs) auto

lemma distinct_set_add [simp]: "distinct xs \<Longrightarrow> distinct (set_add v xs)"
  by (simp add: set_add_def)

end
