(* ===== verification/Buffers.thy ===== *)
theory Buffers
  imports Js_Prelude "HOL-Library.Word"
begin

section \<open>Bytes, hexadecimal and big-endian integers\<close>

text \<open>
  What the sources use of Node's \<^verbatim>\<open>Buffer\<close> and of \<^verbatim>\<open>Uint8Array\<close>: bytes are \<open>8 word\<close>s, a buffer is a list of
  them.  A read past the end throws a \<^verbatim>\<open>RangeError\<close>; \<^verbatim>\<open>subarray\<close> and \<^verbatim>\<open>slice\<close> with non-negative bounds clamp them to
  the length.
\<close>

type_synonym byte = "8 word"
type_synonym bytes = "byte list"

subsection \<open>Hexadecimal\<close>

text \<open>\<^verbatim>\<open>Buffer.from(s, "hex")\<close> stops at the first pair that is not hexadecimal; an odd last digit is dropped.\<close>

fun from_hex :: "string \<Rightarrow> bytes" where
  "from_hex (a # b # cs) =
     (case (digit_val 16 a, digit_val 16 b) of
        (Some h, Some l) \<Rightarrow> word_of_nat (16 * h + l) # from_hex cs
      | _ \<Rightarrow> [])"
| "from_hex _ = []"

definition hex_of_byte :: "byte \<Rightarrow> string" where
  "hex_of_byte b = [hex_digits ! (unat b div 16), hex_digits ! (unat b mod 16)]"

definition to_hex :: "bytes \<Rightarrow> string" where
  "to_hex bs = concat (map hex_of_byte bs)"

lemma unat_byte_less: "unat (b :: byte) < 256"
  using unsigned_less[of b] by simp

lemma word_of_nat_unat [simp]: "word_of_nat (unat (w :: 'a::len word)) = w"
  by simp

lemma from_hex_to_hex [simp]: "from_hex (to_hex bs) = bs"
proof (induction bs)
  case Nil
  then show ?case by (simp add: to_hex_def)
next
  case (Cons b bs)
  have "unat b div 16 < 16" using unat_byte_less[of b] by (simp add: less_mult_imp_div_less)
  then have "digit_val 16 (hex_digits ! (unat b div 16)) = Some (unat b div 16)"
    and "digit_val 16 (hex_digits ! (unat b mod 16)) = Some (unat b mod 16)"
    by (simp_all add: digit_val_hex_digit)
  moreover have "16 * (unat b div 16) + unat b mod 16 = unat b" by simp
  ultimately have "from_hex (to_hex (b # bs)) = word_of_nat (unat b) # from_hex (to_hex bs)"
    by (simp add: to_hex_def hex_of_byte_def)
  with Cons.IH show ?case by simp
qed

lemma length_to_hex [simp]: "length (to_hex bs) = 2 * length bs"
  by (induction bs) (simp_all add: to_hex_def hex_of_byte_def)

subsection \<open>Big-endian integers\<close>

fun be_encode :: "nat \<Rightarrow> nat \<Rightarrow> bytes" where
  "be_encode 0 x = []"
| "be_encode (Suc n) x = be_encode n (x div 256) @ [word_of_nat (x mod 256)]"

definition be_decode :: "bytes \<Rightarrow> nat" where
  "be_decode bs = foldl (\<lambda>acc b. acc * 256 + unat b) 0 bs"

lemma length_be_encode [simp]: "length (be_encode n x) = n"
  by (induction n arbitrary: x) simp_all

lemma be_decode_snoc [simp]: "be_decode (bs @ [b]) = be_decode bs * 256 + unat b"
  by (simp add: be_decode_def)

lemma be_decode_Nil [simp]: "be_decode [] = 0"
  by (simp add: be_decode_def)

lemma unat_byte_of_nat: "unat (word_of_nat k :: byte) = k mod 256"
  by (simp add: unat_of_nat)

lemma be_decode_encode: "be_decode (be_encode n x) = x mod 256 ^ n"
proof (induction n arbitrary: x)
  case 0
  then show ?case by simp
next
  case (Suc n)
  have "be_decode (be_encode (Suc n) x) = (x div 256 mod 256 ^ n) * 256 + x mod 256"
    by (simp add: Suc.IH unat_byte_of_nat)
  also have "\<dots> = x mod 256 ^ Suc n"
    by (simp add: mod_mult2_eq mult.commute)
  finally show ?case .
qed

lemma be_decode_bound: "be_decode bs < 256 ^ length bs"
proof (induction bs rule: rev_induct)
  case Nil
  then show ?case by simp
next
  case (snoc b bs)
  have "be_decode bs * 256 + unat b < (be_decode bs + 1) * 256"
    using unat_byte_less[of b] by simp
  also have "\<dots> \<le> 256 ^ length bs * 256"
    using snoc.IH by (intro mult_right_mono) auto
  finally show ?case by (simp add: mult.commute)
qed

lemma be_encode_decode: "be_encode (length bs) (be_decode bs) = bs"
proof (induction bs rule: rev_induct)
  case Nil
  then show ?case by simp
next
  case (snoc b bs)
  have "(be_decode bs * 256 + unat b) div 256 = be_decode bs" "(be_decode bs * 256 + unat b) mod 256 = unat b"
    using unat_byte_less[of b] by simp_all
  with snoc.IH show ?case by simp
qed

subsection \<open>Reading a buffer\<close>

definition out_of_range :: js_error where
  "out_of_range = range_error ''Attempt to access memory outside buffer bounds''"

text \<open>\<^verbatim>\<open>readUint8\<close>, \<^verbatim>\<open>readUint16BE\<close>, \<^verbatim>\<open>readUint32BE\<close>, \<^verbatim>\<open>readBigUint64BE\<close> at an offset.\<close>

definition read_be :: "nat \<Rightarrow> bytes \<Rightarrow> nat \<Rightarrow> nat outcome" where
  "read_be n buf off =
     (if off + n \<le> length buf then Inr (be_decode (take n (drop off buf))) else Inl out_of_range)"

definition subarray :: "bytes \<Rightarrow> nat \<Rightarrow> nat \<Rightarrow> bytes" where
  "subarray buf from to = take (to - from) (drop from buf)"

lemma length_subarray: "length (subarray buf from to) = min (to - from) (length buf - from)"
  by (simp add: subarray_def)

lemma read_be_at:
  "read_be n (pre @ be_encode n x @ post) (length pre) = Inr (x mod 256 ^ n)"
  by (simp add: read_be_def be_decode_encode)

lemma subarray_at: "subarray (pre @ mid @ post) (length pre) (length pre + length mid) = mid"
  by (simp add: subarray_def)

end
