(* ===== verification/Js_Float.thy ===== *)
theory Js_Float
  imports Js_Prelude
begin

section \<open>Floating-point numbers\<close>

text \<open>
  A \<^verbatim>\<open>number\<close> that is not an integer: a rational that is the rounding, to 53 significant bits and ties to even, of the
  exact result of the operation.  \<open>None\<close> stands for a result that is not finite.  The exponent is not
  bounded, so overflow and subnormal numbers are outside the model.
\<close>

type_synonym jsfloat = "rat option"

subsection \<open>Rounding\<close>

definition pow2 :: "int \<Rightarrow> rat" where
  "pow2 e = (if 0 \<le> e then 2 ^ nat e else 1 / 2 ^ nat (- e))"

definition fexp :: "rat \<Rightarrow> int" where
  "fexp x =
     (let pq = quotient_of \<bar>x\<bar>; e = int (bit_length (nat (fst pq))) - int (bit_length (nat (snd pq)))
      in if pow2 e \<le> \<bar>x\<bar> then e else e - 1)"

definition round_even :: "rat \<Rightarrow> int" where
  "round_even x =
     (let f = \<lfloor>x\<rfloor>; d = x - of_int f
      in if d < 1 / 2 then f else if d > 1 / 2 then f + 1 else if even f then f else f + 1)"

definition fl :: "rat \<Rightarrow> rat" where
  "fl x = (if x = 0 then 0 else let u = pow2 (fexp x - 52) in of_int (round_even (x / u)) * u)"

lemma pow2_pos [simp]: "0 < pow2 e"
  by (simp add: pow2_def)

lemma pow2_nonzero [simp]: "pow2 e \<noteq> 0"
  using pow2_pos[of e] by linarith

lemma abs_pow2 [simp]: "\<bar>pow2 e\<bar> = pow2 e"
  using pow2_pos[of e] by linarith

lemma pow2_add: "pow2 (a + b) = pow2 a * pow2 b"
proof -
  have p: "pow2 e = 2 powi e" for e
    by (auto simp: pow2_def power_int_def field_simps)
  show ?thesis by (simp add: p power_int_add)
qed

lemma pow2_nat: "pow2 (int n) = 2 ^ n"
  by (simp add: pow2_def)

lemma bit_length_bounds: "0 < n \<Longrightarrow> 2 ^ bit_length n \<le> 2 * n \<and> n < 2 ^ bit_length n"
proof (induction n rule: bit_length.induct)
  case (1 n)
  show ?case
  proof (cases "n div 2 = 0")
    case True
    with "1.prems" have "n = 1" by simp
    then show ?thesis by (simp add: bit_length.simps)
  next
    case False
    with "1.prems" "1.IH" have "2 ^ bit_length (n div 2) \<le> 2 * (n div 2) \<and> n div 2 < 2 ^ bit_length (n div 2)" by simp
    moreover have "bit_length n = Suc (bit_length (n div 2))" using "1.prems" by (simp add: bit_length.simps[of n])
    ultimately show ?thesis by auto
  qed
qed

lemma bit_length_rat:
  assumes "0 < z"
  shows "2 ^ bit_length (nat z) \<le> 2 * (of_int z :: rat)" "(of_int z :: rat) < 2 ^ bit_length (nat z)"
proof -
  obtain n where z: "z = int n" "0 < n" using assms by (auto dest: zero_less_imp_eq_int)
  have "(of_nat (2 ^ bit_length n) :: rat) \<le> of_nat (2 * n)" "(of_nat n :: rat) < of_nat (2 ^ bit_length n)"
    using bit_length_bounds[OF z(2)] by (simp_all only: of_nat_le_iff of_nat_less_iff)
  then show "2 ^ bit_length (nat z) \<le> 2 * (of_int z :: rat)" "(of_int z :: rat) < 2 ^ bit_length (nat z)"
    by (simp_all add: z(1))
qed

lemma fexp_bounds:
  assumes "x \<noteq> 0"
  shows "pow2 (fexp x) \<le> \<bar>x\<bar> \<and> \<bar>x\<bar> < pow2 (fexp x + 1)"
proof -
  obtain p q where pq: "quotient_of \<bar>x\<bar> = (p, q)" by fastforce
  then have q: "0 < q" and x: "\<bar>x\<bar> = of_int p / of_int q" by (auto simp: quotient_of_denom_pos quotient_of_div)
  have p: "0 < p" using assms x q by (metis of_int_0_less_iff zero_less_abs_iff zero_less_divide_iff not_less_iff_gr_or_eq)
  let ?bp = "bit_length (nat p)" and ?bq = "bit_length (nat q)"
  let ?e = "int ?bp - int ?bq"
  note bp = bit_length_rat[OF p] and bq = bit_length_rat[OF q]
  have pe: "pow2 ?e * 2 ^ ?bq = 2 ^ ?bp" using pow2_add[of ?e "int ?bq"] by (simp add: pow2_nat)
  have up: "\<bar>x\<bar> < pow2 (?e + 1)"
  proof -
    have "of_int p < pow2 ?e * 2 ^ ?bq" using bp(2) pe by simp
    also have "\<dots> \<le> pow2 ?e * (2 * of_int q)" using bq(1) by (intro mult_left_mono) (auto simp: less_imp_le)
    finally have "of_int p < pow2 (?e + 1) * of_int q" using pow2_add[of ?e 1] pow2_nat[of 1] by simp
    then show ?thesis using q by (simp add: x divide_less_eq)
  qed
  have lo: "pow2 (?e - 1) \<le> \<bar>x\<bar>"
  proof -
    have "pow2 ?e * of_int q \<le> pow2 ?e * 2 ^ ?bq" using bq(2) by (intro mult_left_mono) (auto simp: less_imp_le)
    also have "\<dots> \<le> 2 * of_int p" using bp(1) pe by simp
    finally show ?thesis using q pow2_add[of "?e - 1" 1] by (simp add: x pow2_nat[of 1, simplified] le_divide_eq algebra_simps)
  qed
  show ?thesis using up lo by (auto simp: fexp_def pq Let_def)
qed

lemma round_even_near: "\<bar>of_int (round_even x) - x\<bar> \<le> 1 / 2"
proof -
  have "0 \<le> x - of_int \<lfloor>x\<rfloor>" "x - of_int \<lfloor>x\<rfloor> < 1" by linarith+
  then show ?thesis by (auto simp: round_even_def Let_def)
qed

text \<open>The rounding changes a number by at most \<open>2 ^ -53\<close> of its size.\<close>

lemma fl_error: "\<bar>fl x - x\<bar> \<le> \<bar>x\<bar> / 2 ^ 53"
proof (cases "x = 0")
  case True
  then show ?thesis by (simp add: fl_def)
next
  case False
  let ?u = "pow2 (fexp x - 52)"
  have "fl x - x = (of_int (round_even (x / ?u)) - x / ?u) * ?u" using False by (simp add: fl_def Let_def field_simps)
  then have "\<bar>fl x - x\<bar> = \<bar>of_int (round_even (x / ?u)) - x / ?u\<bar> * ?u" by (simp add: abs_mult)
  also have "\<dots> \<le> 1 / 2 * ?u" by (intro mult_right_mono round_even_near) (simp add: less_imp_le)
  also have "\<dots> \<le> \<bar>x\<bar> / 2 ^ 53"
  proof -
    have "?u * 2 ^ 52 = pow2 (fexp x)" using pow2_add[of "fexp x - 52" 52] pow2_nat[of 52] by simp
    with fexp_bounds[OF False] show ?thesis by simp
  qed
  finally show ?thesis .
qed

lemma fl_nonneg: "0 \<le> x \<Longrightarrow> 0 \<le> fl x"
proof -
  assume x: "0 \<le> x"
  have "\<bar>x\<bar> / 2 ^ 53 \<le> \<bar>x\<bar>" by (simp add: field_simps)
  with fl_error[of x] x show ?thesis by linarith
qed

lemma fl_upper: "0 \<le> x \<Longrightarrow> fl x \<le> x * (1 + 1 / 2 ^ 53)"
proof -
  assume "0 \<le> x"
  with fl_error[of x] have "fl x \<le> x + x / 2 ^ 53" by linarith
  then show ?thesis by (simp add: distrib_left)
qed

text \<open>Numbers with at most 53 significant bits are kept, the integers up to \<open>2 ^ 53\<close> among them.\<close>

lemma round_even_int: "round_even (of_int n) = n"
  by (simp add: round_even_def)

lemma fl_exact:
  assumes x: "x = of_int n * pow2 k" and n: "\<bar>n\<bar> < 2 ^ 53"
  shows "fl x = x"
proof (cases "x = 0")
  case True
  then show ?thesis by (simp add: fl_def)
next
  case False
  let ?u = "fexp x - 52"
  have ax: "\<bar>x\<bar> = of_int \<bar>n\<bar> * pow2 k" by (simp add: x abs_mult)
  have "?u \<le> k"
  proof (rule ccontr)
    assume "\<not> ?u \<le> k"
    then have d_ex: "\<exists>m. fexp x = int m + (53 + k)" by (intro exI[of _ "nat (fexp x - 53 - k)"]) simp
    then obtain m where d: "fexp x = int m + (53 + k)" by blast
    have "pow2 (53 + k) \<le> pow2 (fexp x)"
      unfolding d pow2_add[of "int m"] pow2_nat using mult_right_mono[of 1 "2 ^ m" "pow2 (53 + k)"] by (simp add: less_imp_le)
    also have "\<dots> \<le> of_int \<bar>n\<bar> * pow2 k" using fexp_bounds[OF False] ax by simp
    finally have "2 ^ 53 \<le> (of_int \<bar>n\<bar> :: rat)" using pow2_add[of 53 k] pow2_nat[of 53] by simp
    then have "2 ^ 53 \<le> \<bar>n\<bar>" by (metis of_int_le_iff of_int_numeral of_int_power)
    with n show False by simp
  qed
  then have "pow2 k = 2 ^ nat (k - ?u) * pow2 ?u" using pow2_add[of "k - ?u" ?u] by (simp add: pow2_def)
  then have "x = of_int (n * 2 ^ nat (k - ?u)) * pow2 ?u" by (subst x) simp
  then obtain m where m: "x = of_int m * pow2 ?u" by blast
  then have "x / pow2 ?u = of_int m" by (metis nonzero_mult_div_cancel_right pow2_nonzero)
  with False m show ?thesis by (simp add: fl_def Let_def round_even_int)
qed

lemma fl_of_int: "\<bar>n\<bar> < 2 ^ 53 \<Longrightarrow> fl (of_int n) = of_int n"
  using fl_exact[of "of_int n" n 0] by (simp add: pow2_def)

text \<open>A rounding is determined by the exponent and the nearest mantissa, which makes concrete ones easy to evaluate.\<close>

lemma pow2_less_iff: "pow2 a < pow2 b \<longleftrightarrow> a < b"
proof -
  have mono: "pow2 a < pow2 b" if "a < b" for a b
  proof -
    have "\<exists>d. b = int (Suc d) + a" using that by (intro exI[of _ "nat (b - a - 1)"]) simp
    then obtain d where "b = int (Suc d) + a" by blast
    moreover have "(1 :: rat) < 2 ^ Suc d" by (rule one_less_power) auto
    ultimately show ?thesis using mult_strict_right_mono[of 1 "2 ^ Suc d" "pow2 a"] by (simp only: pow2_add pow2_nat pow2_pos) simp
  qed
  show ?thesis using mono[of a b] mono[of b a] by (cases a b rule: linorder_cases) auto
qed

lemma fexp_unique:
  assumes "pow2 e \<le> \<bar>x\<bar>" and "\<bar>x\<bar> < pow2 (e + 1)"
  shows "fexp x = e"
proof -
  have "x \<noteq> 0" using assms(1) pow2_pos[of e] by (metis abs_zero less_le_not_le)
  with fexp_bounds have b: "pow2 (fexp x) \<le> \<bar>x\<bar>" "\<bar>x\<bar> < pow2 (fexp x + 1)" by auto
  from assms(1) b(2) have "pow2 e < pow2 (fexp x + 1)" by simp
  moreover from b(1) assms(2) have "pow2 (fexp x) < pow2 (e + 1)" by simp
  ultimately show ?thesis by (simp add: pow2_less_iff)
qed

lemma round_even_unique:
  assumes "\<bar>of_int m - x\<bar> < 1 / 2"
  shows "round_even x = m"
proof -
  have "\<bar>of_int (round_even x) - (of_int m :: rat)\<bar> < 1" using assms round_even_near[of x] by linarith
  then have "\<bar>round_even x - m\<bar> < 1" by linarith
  then show ?thesis by simp
qed

lemma fl_eval:
  assumes "pow2 e \<le> \<bar>x\<bar>" and "\<bar>x\<bar> < pow2 (e + 1)" and "\<bar>of_int m - x / pow2 (e - 52)\<bar> < 1 / 2"
  shows "fl x = of_int m * pow2 (e - 52)"
proof -
  have "x \<noteq> 0" using assms(1) pow2_pos[of e] by (metis abs_zero less_le_not_le)
  then show ?thesis by (simp add: fl_def Let_def fexp_unique[OF assms(1,2)] round_even_unique[OF assms(3)])
qed

text \<open>Rounding keeps the order of numbers that are not negative.\<close>

lemma round_even_mono: "x \<le> y \<Longrightarrow> round_even x \<le> round_even y"
proof -
  assume le: "x \<le> y"
  have b: "\<lfloor>z\<rfloor> \<le> round_even z \<and> round_even z \<le> \<lfloor>z\<rfloor> + 1" for z by (simp add: round_even_def Let_def)
  have "\<lfloor>x\<rfloor> \<le> \<lfloor>y\<rfloor>" using le by (rule floor_mono)
  then consider "\<lfloor>x\<rfloor> = \<lfloor>y\<rfloor>" | "\<lfloor>x\<rfloor> + 1 \<le> \<lfloor>y\<rfloor>" by linarith
  then show ?thesis
  proof cases
    case 1
    with le show ?thesis by (simp add: round_even_def Let_def)
  next
    case 2
    with b[of x] b[of y] show ?thesis by linarith
  qed
qed

lemma fl_between:
  assumes "0 < x"
  shows "pow2 (fexp x) \<le> fl x \<and> fl x \<le> pow2 (fexp x + 1)"
proof -
  let ?u = "pow2 (fexp x - 52)"
  have b: "pow2 (fexp x) \<le> x" "x < pow2 (fexp x + 1)" using fexp_bounds[of x] assms by auto
  have e: "pow2 (fexp x) = of_int (2 ^ 52) * ?u" "pow2 (fexp x + 1) = of_int (2 ^ 53) * ?u"
    using pow2_add[of "fexp x - 52" 52] pow2_add[of "fexp x - 52" 53] pow2_nat[of 52] pow2_nat[of 53] by (simp_all add: algebra_simps)
  have "of_int (2 ^ 52) \<le> x / ?u" using b(1) unfolding e by (simp add: pos_le_divide_eq)
  then have lo: "2 ^ 52 \<le> round_even (x / ?u)" using round_even_mono[of "of_int (2 ^ 52)"] by (simp only: round_even_int)
  have "x / ?u \<le> of_int (2 ^ 53)" using b(2) unfolding e by (simp add: pos_divide_le_eq)
  then have hi: "round_even (x / ?u) \<le> 2 ^ 53" using round_even_mono[of _ "of_int (2 ^ 53)"] by (simp only: round_even_int)
  have f: "fl x = of_int (round_even (x / ?u)) * ?u" using assms by (simp add: fl_def Let_def)
  show ?thesis unfolding f e using lo hi by (intro conjI mult_right_mono) (simp_all only: of_int_le_iff pow2_pos less_imp_le)
qed

lemma fl_mono:
  assumes "0 \<le> x" and "x \<le> y"
  shows "fl x \<le> fl y"
proof (cases "x = 0")
  case True
  then show ?thesis using fl_nonneg[of y] assms(2) by (simp add: fl_def)
next
  case False
  with assms have p: "0 < x" "0 < y" by auto
  with fexp_bounds[of x] fexp_bounds[of y] assms(2) have "pow2 (fexp x) < pow2 (fexp y + 1)" by auto
  then have "fexp x \<le> fexp y" by (simp add: pow2_less_iff)
  then consider "fexp x = fexp y" | "fexp x + 1 \<le> fexp y" by linarith
  then show ?thesis
  proof cases
    case 1
    have "round_even (x / pow2 (fexp y - 52)) \<le> round_even (y / pow2 (fexp y - 52))"
      by (intro round_even_mono divide_right_mono assms(2)) (simp add: less_imp_le)
    with p 1 show ?thesis by (simp add: fl_def Let_def mult_right_mono less_imp_le)
  next
    case 2
    then have "pow2 (fexp x + 1) \<le> pow2 (fexp y)" using pow2_less_iff[of "fexp y" "fexp x + 1"] by linarith
    with fl_between[OF p(1)] fl_between[OF p(2)] show ?thesis by linarith
  qed
qed

text \<open>A rounded number is rounded to itself, and a number that is one already bounds the rounding of a larger one.\<close>

lemma fl_form: "0 \<le> x \<Longrightarrow> \<exists>n k. fl x = of_int n * pow2 k \<and> 0 \<le> n \<and> n < 2 ^ 53"
proof (cases "x = 0")
  case False
  assume "0 \<le> x"
  with False have x: "0 < x" by simp
  let ?u = "fexp x - 52"
  let ?n = "round_even (x / pow2 ?u)"
  have f: "fl x = of_int ?n * pow2 ?u" using x by (simp add: fl_def Let_def)
  have top: "pow2 (fexp x + 1) = of_int (2 ^ 53) * pow2 ?u" using pow2_add[of 53 ?u] pow2_nat[of 53] by (simp add: add.commute)
  have "of_int ?n \<le> (of_int (2 ^ 53) :: rat)" using fl_between[OF x] unfolding f top by simp
  then have n: "?n \<le> 2 ^ 53" by (simp only: of_int_le_iff)
  have "0 \<le> of_int ?n * pow2 ?u" using fl_nonneg[of x] x f by simp
  then have n0: "0 \<le> ?n" using pow2_pos[of ?u] by (simp add: zero_le_mult_iff)
  show ?thesis
  proof (cases "?n = 2 ^ 53")
    case True
    have "fl x = of_int 1 * pow2 (53 + ?u)" unfolding f True pow2_add using pow2_nat[of 53] by simp
    then show ?thesis by (intro exI[of _ 1] exI[of _ "53 + ?u"]) simp
  next
    case False
    with n n0 show ?thesis using f by (intro exI[of _ ?n] exI[of _ ?u]) simp
  qed
qed (auto simp: fl_def)

lemma fl_idem: "0 \<le> x \<Longrightarrow> fl (fl x) = fl x"
  using fl_form[of x] fl_exact[of "fl x"] by auto

lemma fl_ceiling: "0 \<le> x \<Longrightarrow> fl (of_int \<lceil>fl x\<rceil>) = of_int \<lceil>fl x\<rceil>"
proof -
  assume x: "0 \<le> x"
  from fl_form[OF this] obtain n k where f: "fl x = of_int n * pow2 k" "0 \<le> n" "n < 2 ^ 53" by blast
  show ?thesis
  proof (cases "0 \<le> k")
    case True
    then have "fl x = of_int (n * 2 ^ nat k)" using f(1) by (simp add: pow2_def)
    then have "of_int \<lceil>fl x\<rceil> = fl x" by (metis ceiling_of_int)
    then show ?thesis by (simp only: fl_idem[OF x])
  next
    case False
    then have "pow2 k \<le> 1" using pow2_less_iff[of 0 k] by (simp add: pow2_def[of 0])
    then have "fl x \<le> of_int n" unfolding f(1) using f(2) mult_left_mono[of "pow2 k" 1 "of_int n"] by simp
    then have "\<lceil>fl x\<rceil> \<le> n" by (simp add: ceiling_le_iff)
    moreover have "0 \<le> \<lceil>fl x\<rceil>" using fl_nonneg[OF x] by linarith
    ultimately have "\<bar>\<lceil>fl x\<rceil>\<bar> < 2 ^ 53" using f(3) by linarith
    then show ?thesis by (rule fl_of_int)
  qed
qed

lemma fl_above: "fl a = a \<Longrightarrow> 0 \<le> a \<Longrightarrow> a \<le> x \<Longrightarrow> a \<le> fl x"
  using fl_mono[of a x] by simp

subsection \<open>Operations\<close>

text \<open>The operators of the source; a comparison with a number that is not finite is false.\<close>

definition f_int :: "int \<Rightarrow> jsfloat" where
  "f_int n = Some (fl (of_int n))"

fun f_lift :: "(rat \<Rightarrow> rat \<Rightarrow> rat) \<Rightarrow> jsfloat \<Rightarrow> jsfloat \<Rightarrow> jsfloat" where
  "f_lift g (Some a) (Some b) = Some (fl (g a b))"
| "f_lift g _ _ = None"

definition f_add :: "jsfloat \<Rightarrow> jsfloat \<Rightarrow> jsfloat" where
  "f_add = f_lift (+)"

definition f_sub :: "jsfloat \<Rightarrow> jsfloat \<Rightarrow> jsfloat" where
  "f_sub = f_lift (-)"

definition f_mul :: "jsfloat \<Rightarrow> jsfloat \<Rightarrow> jsfloat" where
  "f_mul = f_lift (*)"

definition f_div :: "jsfloat \<Rightarrow> jsfloat \<Rightarrow> jsfloat" where
  "f_div a b = (if b = Some 0 then None else f_lift (/) a b)"

fun f_less :: "jsfloat \<Rightarrow> jsfloat \<Rightarrow> bool" where
  "f_less (Some a) (Some b) = (a < b)"
| "f_less _ _ = False"

fun f_le :: "jsfloat \<Rightarrow> jsfloat \<Rightarrow> bool" where
  "f_le (Some a) (Some b) = (a \<le> b)"
| "f_le _ _ = False"

text \<open>\<^verbatim>\<open>Math.max(0, x)\<close>\<close>

fun f_max0 :: "jsfloat \<Rightarrow> jsfloat" where
  "f_max0 (Some a) = Some (max 0 a)"
| "f_max0 None = None"

text \<open>\<^verbatim>\<open>Math.min(x, y)\<close> and \<^verbatim>\<open>Math.abs(x)\<close>\<close>

fun f_abs :: "jsfloat \<Rightarrow> jsfloat" where
  "f_abs (Some a) = Some \<bar>a\<bar>"
| "f_abs None = None"

fun f_min :: "jsfloat \<Rightarrow> jsfloat \<Rightarrow> jsfloat" where
  "f_min (Some a) (Some b) = Some (min a b)"
| "f_min _ _ = None"

text \<open>
  \<^verbatim>\<open>x.toFixed(d)\<close> below \<open>10 ^ 21\<close>: the nearest multiple of \<open>10 ^ -d\<close>, the larger one of two; the sign is written first.
\<close>

definition to_fixed_digits :: "nat \<Rightarrow> rat \<Rightarrow> string" where
  "to_fixed_digits d x =
     (let n = nat \<lfloor>\<bar>x\<bar> * 10 ^ d + 1 / 2\<rfloor>
      in (if x < 0 then ''-'' else []) @ show_nat (n div 10 ^ d) @ (if d = 0 then [] else ''.'' @ pad_start d CHR ''0'' (show_nat (n mod 10 ^ d))))"

fun f_to_fixed :: "nat \<Rightarrow> jsfloat \<Rightarrow> string" where
  "f_to_fixed d (Some x) = to_fixed_digits d x"
| "f_to_fixed d None = ''NaN''"

text \<open>\<^verbatim>\<open>BigInt(Math.floor(x))\<close>\<close>

fun big_floor :: "jsfloat \<Rightarrow> int outcome" where
  "big_floor (Some a) = Inr \<lfloor>a\<rfloor>"
| "big_floor None = Inl (range_error ''The number cannot be converted to a BigInt because it is not an integer'')"

text \<open>
  \<^verbatim>\<open>parseFloat(s)\<close> and \<^verbatim>\<open>Number(s)\<close> of a decimal: digits, a point, digits; an exponent part is not read
  here (number inputs and the node's integers do not produce one).  \<open>frac_val\<close> reads the digits after the point.
\<close>

fun frac_val :: "rat \<Rightarrow> string \<Rightarrow> rat" where
  "frac_val w [] = 0"
| "frac_val w (c # cs) = (case digit_val 10 c of None \<Rightarrow> 0 | Some d \<Rightarrow> of_nat d * w + frac_val (w / 10) cs)"

definition is_digit :: "char \<Rightarrow> bool" where
  "is_digit c \<longleftrightarrow> digit_val 10 c \<noteq> None"

definition decimal_val :: "string \<Rightarrow> rat option" where
  "decimal_val s =
     (let t = dropWhile is_ws s;
          neg = starts_with ''-'' t;
          body = (if neg \<or> starts_with ''+'' t then drop 1 t else t);
          ip = takeWhile is_digit body;
          rest = dropWhile is_digit body;
          fp = (if starts_with ''.'' rest then takeWhile is_digit (drop 1 rest) else []);
          v = of_nat (digits_prefix 10 0 ip) + frac_val (1 / 10) fp
      in if ip = [] \<and> fp = [] then None else Some (if neg then - v else v))"

definition parseFloat :: "string \<Rightarrow> jsfloat" where
  "parseFloat s = map_option fl (decimal_val s)"

text \<open>\<^verbatim>\<open>Number(v)\<close> of a JSON value, and \<^verbatim>\<open>10 ** v\<close> as the double nearest to the power.\<close>

definition json_float :: "json \<Rightarrow> jsfloat" where
  "json_float v = (case to_number v of NaN \<Rightarrow> None | Num i \<Rightarrow> Some (of_int i))"

definition f_pow10 :: "json \<Rightarrow> jsfloat" where
  "f_pow10 v =
     (case to_number v of
        NaN \<Rightarrow> None
      | Num e \<Rightarrow> Some (fl (if 0 \<le> e then 10 ^ nat e else 1 / 10 ^ nat (- e))))"

lemma fl_diff_bound:
  assumes "\<bar>x\<bar> \<le> 2 ^ k" and "k \<le> 53"
  shows "\<bar>fl x - x\<bar> \<le> 1 / 2 ^ (53 - k)"
proof -
  have "\<bar>x\<bar> / 2 ^ 53 \<le> 2 ^ k / (2 ^ 53 :: rat)" using assms(1) by (intro divide_right_mono) auto
  also have "\<dots> = 1 / 2 ^ (53 - k)" using assms(2) by (simp add: power_diff)
  finally show ?thesis using fl_error[of x] by linarith
qed

end
