(* ===== verification/Rpc_Client.thy ===== *)
theory Rpc_Client
  imports Js_Float
begin

section \<open>The resilient RPC client: \<^verbatim>\<open>apps/keeper/src/rpc-client.ts\<close>\<close>

text \<open>
  The pool of RPC endpoints with its health records, the choice of the next endpoint, the retry
  loop \<^verbatim>\<open>execute\<close> and the background health checks.

  An endpoint object is the entry of the \<^verbatim>\<open>endpoints\<close> array at its index: the array is built once
  and never changes length, so a reference that is held across an \<^verbatim>\<open>await\<close> is an index.  A
  \<^verbatim>\<open>SuiClient\<close> is third-party code; the model is polymorphic in its type \<open>'c\<close>, and \<open>mkClient\<close> stands for
  \<^verbatim>\<open>createClient\<close>.  Clock readings, the random number of the jitter and the behaviour of the remote call
  come from an environment, one record per attempt.  What other tasks do to the pool while a call
  is awaited or the loop sleeps is a function of that record, so nothing proved here assumes that
  \<^verbatim>\<open>execute\<close> runs alone unless it says so.  The rolling average is computed
  in doubles; no decision of the code reads it.
\<close>

record RpcEndpoint =
  rpcUrl :: string
  rpcWeight :: jsnum

record RpcClientConfig =
  cfgEndpoints :: "RpcEndpoint list"
  requestTimeoutMs :: jsnum
  maxRetries :: jsnum
  baseRetryDelayMs :: jsnum
  maxRetryDelayMs :: jsnum
  healthCheckIntervalMs :: jsnum

record EndpointHealth =
  epUrl :: string
  epWeight :: jsnum
  healthy :: bool
  consecutiveFailures :: nat
  lastFailureAt :: int
  lastSuccessAt :: int
  avgResponseMs :: rat

definition UNHEALTHY_THRESHOLD :: nat where
  "UNHEALTHY_THRESHOLD = 3"

definition RECOVERY_COOLDOWN_MS :: int where
  "RECOVERY_COOLDOWN_MS = 30000"

record 'c ResilientRpcClient =
  endpoints :: "EndpointHealth list"
  clients :: "(string, 'c) js_map_t"
  rpcConfig :: RpcClientConfig
  healthCheckTimer :: bool
  currentIndex :: nat

subsection \<open>Construction\<close>

definition fresh_endpoint :: "RpcEndpoint \<Rightarrow> EndpointHealth" where
  "fresh_endpoint ep =
     \<lparr>epUrl = rpcUrl ep, epWeight = rpcWeight ep, healthy = True, consecutiveFailures = 0,
      lastFailureAt = 0, lastSuccessAt = 0, avgResponseMs = 0\<rparr>"

definition rpc_client_new :: "(string \<Rightarrow> 'c) \<Rightarrow> RpcClientConfig \<Rightarrow> 'c ResilientRpcClient" where
  "rpc_client_new mkClient config =
     (let eps = map fresh_endpoint (cfgEndpoints config)
      in \<lparr>endpoints = eps,
          clients = fold (\<lambda>ep m. map_set (epUrl ep) (mkClient (epUrl ep)) m) eps [],
          rpcConfig = config, healthCheckTimer = True, currentIndex = 0\<rparr>)"

definition rpc_stop :: "'c ResilientRpcClient \<Rightarrow> 'c ResilientRpcClient" where
  "rpc_stop c = (if healthCheckTimer c then c\<lparr>healthCheckTimer := False\<rparr> else c)"

subsection \<open>Choosing an endpoint\<close>

definition recover_endpoint :: "int \<Rightarrow> EndpointHealth \<Rightarrow> EndpointHealth" where
  "recover_endpoint now ep =
     (if \<not> healthy ep \<and> now - lastFailureAt ep > RECOVERY_COOLDOWN_MS
      then ep\<lparr>healthy := True, consecutiveFailures := 0\<rparr> else ep)"

text \<open>The round-robin scan: offset \<open>i\<close> from \<open>currentIndex\<close>, \<open>k\<close> offsets left.\<close>

fun scan_healthy :: "EndpointHealth list \<Rightarrow> nat \<Rightarrow> nat \<Rightarrow> nat \<Rightarrow> nat option" where
  "scan_healthy eps cur i 0 = None"
| "scan_healthy eps cur i (Suc k) =
     (let idx = (cur + i) mod length eps
      in if healthy (eps ! idx) then Some idx else scan_healthy eps cur (Suc i) k)"

text \<open>\<^verbatim>\<open>endpoints.reduce((a, b) => (a.weight >= b.weight ? a : b))\<close>, as an index.\<close>

definition heavier :: "EndpointHealth list \<Rightarrow> nat \<Rightarrow> nat \<Rightarrow> nat" where
  "heavier eps a b = (if num_le (epWeight (eps ! b)) (epWeight (eps ! a)) then a else b)"

definition heaviest_index :: "EndpointHealth list \<Rightarrow> nat" where
  "heaviest_index eps = foldl (heavier eps) 0 [1..<length eps]"

definition getBestEndpoint :: "int \<Rightarrow> ('c ResilientRpcClient, nat) stateful" where
  "getBestEndpoint now c =
     (let eps = map (recover_endpoint now) (endpoints c); c1 = c\<lparr>endpoints := eps\<rparr>
      in case scan_healthy eps (currentIndex c) 0 (length eps) of
           Some idx \<Rightarrow> (Inr idx, c1)
         | None \<Rightarrow>
             if eps = [] then (Inl (type_error ''Reduce of empty array with no initial value''), c1)
             else (let best = heaviest_index eps
                   in (Inr best,
                       c1\<lparr>endpoints := eps[best := (eps ! best)\<lparr>healthy := True, consecutiveFailures := 0\<rparr>],
                          currentIndex := best\<rparr>)))"

text \<open>\<^verbatim>\<open>this.clients.get(ep.url)!\<close>; \<open>None\<close> is \<^verbatim>\<open>undefined\<close>.\<close>

definition client_of :: "'c ResilientRpcClient \<Rightarrow> nat \<Rightarrow> 'c option" where
  "client_of c i = map_get (clients c) (epUrl (endpoints c ! i))"

definition getClient :: "int \<Rightarrow> ('c ResilientRpcClient, 'c option) stateful" where
  "getClient now = s_bind (getBestEndpoint now) (\<lambda>i. s_get (\<lambda>c. client_of c i))"

definition rotateEndpoint :: "'c ResilientRpcClient \<Rightarrow> 'c ResilientRpcClient" where
  "rotateEndpoint c = c\<lparr>currentIndex := (currentIndex c + 1) mod length (endpoints c)\<rparr>"

subsection \<open>Recording outcomes\<close>

definition rolling_average :: "rat \<Rightarrow> rat \<Rightarrow> rat" where
  "rolling_average avg ms = (if avg = 0 then ms else fl (fl (avg * fl (7 / 10)) + fl (ms * fl (3 / 10))))"

definition mark_success :: "int \<Rightarrow> int \<Rightarrow> EndpointHealth \<Rightarrow> EndpointHealth" where
  "mark_success now responseMs ep =
     ep\<lparr>healthy := True, consecutiveFailures := 0, lastSuccessAt := now,
        avgResponseMs := rolling_average (avgResponseMs ep) (of_int responseMs)\<rparr>"

definition mark_failure :: "int \<Rightarrow> EndpointHealth \<Rightarrow> EndpointHealth" where
  "mark_failure now ep =
     (let ep1 = ep\<lparr>consecutiveFailures := consecutiveFailures ep + 1, lastFailureAt := now\<rparr>
      in if consecutiveFailures ep1 \<ge> UNHEALTHY_THRESHOLD then ep1\<lparr>healthy := False\<rparr> else ep1)"

definition on_endpoint ::
  "(EndpointHealth \<Rightarrow> EndpointHealth) \<Rightarrow> nat \<Rightarrow> 'c ResilientRpcClient \<Rightarrow> 'c ResilientRpcClient" where
  "on_endpoint f i c = c\<lparr>endpoints := (endpoints c)[i := f (endpoints c ! i)]\<rparr>"

definition recordSuccess :: "int \<Rightarrow> int \<Rightarrow> nat \<Rightarrow> 'c ResilientRpcClient \<Rightarrow> 'c ResilientRpcClient" where
  "recordSuccess now responseMs i = on_endpoint (mark_success now responseMs) i"

definition recordFailure :: "int \<Rightarrow> nat \<Rightarrow> 'c ResilientRpcClient \<Rightarrow> 'c ResilientRpcClient" where
  "recordFailure now i = on_endpoint (mark_failure now) i"

subsection \<open>Backoff, timers and timeouts\<close>

definition calculateBackoff :: "RpcClientConfig \<Rightarrow> nat \<Rightarrow> rat \<Rightarrow> jsnum" where
  "calculateBackoff config attempt random =
     (case (baseRetryDelayMs config, maxRetryDelayMs config) of
        (Num base, Num cap) \<Rightarrow> Num \<lfloor>random * of_int (min (base * 2 ^ (attempt - 1)) cap)\<rfloor>
      | _ \<Rightarrow> NaN)"

text \<open>The delay of Node's \<^verbatim>\<open>setTimeout\<close>: 1 for \<^verbatim>\<open>NaN\<close> and outside 1 to \<open>2 ^ 31 - 1\<close>.\<close>

fun timer_ms :: "jsnum \<Rightarrow> nat" where
  "timer_ms NaN = 1"
| "timer_ms (Num n) = (if 1 \<le> n \<and> n \<le> 2147483647 then nat n else 1)"

text \<open>How a promise settles: after some milliseconds, or never.\<close>

datatype 'a settle = Resolves nat 'a | Rejects nat js_error | Pending

definition timeout_error :: "jsnum \<Rightarrow> js_error" where
  "timeout_error ms = mk_error (''RPC request timed out after '' @ show_num ms @ ''ms'')"

fun withTimeout :: "'a settle \<Rightarrow> jsnum \<Rightarrow> 'a outcome" where
  "withTimeout (Resolves d a) ms = (if d < timer_ms ms then Inr a else Inl (timeout_error ms))"
| "withTimeout (Rejects d e) ms = (if d < timer_ms ms then Inl e else Inl (timeout_error ms))"
| "withTimeout Pending ms = Inl (timeout_error ms)"

subsection \<open>The retry loop\<close>

text \<open>\<^verbatim>\<open>/5\d{2}/\<close>\<close>

fun has_5xx :: "string \<Rightarrow> bool" where
  "has_5xx (a # b # c # cs) =
     ((a = CHR ''5'' \<and> digit_val 10 b \<noteq> None \<and> digit_val 10 c \<noteq> None) \<or> has_5xx (b # c # cs))"
| "has_5xx _ = False"

definition isTimeout :: "js_error \<Rightarrow> bool" where
  "isTimeout e \<longleftrightarrow>
     errName e = ''AbortError'' \<or>
     (case errMessage e of None \<Rightarrow> False
      | Some m \<Rightarrow> str_includes ''timeout'' m \<or> str_includes ''timed out'' m)"

definition isNetworkError :: "js_error \<Rightarrow> bool" where
  "isNetworkError e \<longleftrightarrow>
     isTimeout e \<or> (case errMessage e of None \<Rightarrow> False | Some m \<Rightarrow> has_5xx m) \<or>
     errCode e = Some ''ECONNREFUSED'' \<or> errCode e = Some ''ENOTFOUND''"

text \<open>What one attempt reads from its environment.\<close>

record 'c attempt_env =
  tBest :: int
  tStart :: int
  tEnd :: int
  tRecord :: int
  random :: rat
  duringCall :: "'c ResilientRpcClient \<Rightarrow> 'c ResilientRpcClient"
  duringSleep :: "'c ResilientRpcClient \<Rightarrow> 'c ResilientRpcClient"

record attempt_log =
  logEndpoint :: nat
  logDelay :: "jsnum option"

text \<open>
  \<open>execute_loop op env timeout left attempt lastError c\<close>: \<open>left\<close> attempts remain and the next one is number
  \<open>attempt\<close>.  The third component of the result lists the attempts made: the endpoint
  of each and the delay slept after it.  \<open>op client attempt\<close> is how the operation settles.
\<close>

fun execute_loop ::
  "('c option \<Rightarrow> nat \<Rightarrow> 'a settle) \<Rightarrow> (nat \<Rightarrow> 'c attempt_env) \<Rightarrow> jsnum \<Rightarrow> nat \<Rightarrow> nat \<Rightarrow> js_error option
     \<Rightarrow> 'c ResilientRpcClient \<Rightarrow> 'a outcome \<times> 'c ResilientRpcClient \<times> attempt_log list" where
  "execute_loop op env timeout 0 attempt lastError c =
     (Inl (case lastError of
             Some e \<Rightarrow> e
           | None \<Rightarrow> mk_error (''RPC operation failed after '' @ show_num (maxRetries (rpcConfig c)) @ '' attempts'')),
      c, [])"
| "execute_loop op env timeout (Suc left) attempt lastError c =
     (let ev = env attempt in
      case getBestEndpoint (tBest ev) c of
        (Inl e, c1) \<Rightarrow> (Inl e, c1, [])
      | (Inr ep, c1) \<Rightarrow>
          (let settled = withTimeout (op (client_of c1 ep) attempt) timeout;
               c2 = duringCall ev c1
           in case settled of
                Inr a \<Rightarrow>
                  (Inr a, recordSuccess (tRecord ev) (tEnd ev - tStart ev) ep c2,
                   [\<lparr>logEndpoint = ep, logDelay = None\<rparr>])
              | Inl err \<Rightarrow>
                  (let c3 = recordFailure (tRecord ev) ep c2;
                       c4 = (if isNetworkError err then rotateEndpoint c3 else c3)
                   in if left > 0
                      then (let delay = calculateBackoff (rpcConfig c4) attempt (random ev)
                            in case execute_loop op env timeout left (Suc attempt) (Some err) (duringSleep ev c4) of
                                 (r, c5, lg) \<Rightarrow> (r, c5, \<lparr>logEndpoint = ep, logDelay = Some delay\<rparr> # lg))
                      else (case execute_loop op env timeout left (Suc attempt) (Some err) c4 of
                              (r, c5, lg) \<Rightarrow> (r, c5, \<lparr>logEndpoint = ep, logDelay = None\<rparr> # lg)))))"

text \<open>\<^verbatim>\<open>for (let attempt = 1; attempt <= this.config.maxRetries; attempt++)\<close> runs this often.\<close>

fun attempt_count :: "jsnum \<Rightarrow> nat" where
  "attempt_count NaN = 0"
| "attempt_count (Num m) = nat m"

definition execute ::
  "('c option \<Rightarrow> nat \<Rightarrow> 'a settle) \<Rightarrow> jsnum option \<Rightarrow> (nat \<Rightarrow> 'c attempt_env)
     \<Rightarrow> 'c ResilientRpcClient \<Rightarrow> 'a outcome \<times> 'c ResilientRpcClient \<times> attempt_log list" where
  "execute op timeoutMs env c =
     (let effectiveTimeout = (case timeoutMs of Some t \<Rightarrow> t | None \<Rightarrow> requestTimeoutMs (rpcConfig c))
      in execute_loop op env effectiveTimeout (attempt_count (maxRetries (rpcConfig c))) 1 None c)"

subsection \<open>Background health checks\<close>

record 'c check_env =
  chkNow :: int
  chkStart :: int
  chkEnd :: int
  chkRecord :: int
  duringCheck :: "'c ResilientRpcClient \<Rightarrow> 'c ResilientRpcClient"

text \<open>One turn of the loop over the endpoints; \<open>ping\<close> is \<^verbatim>\<open>client.getLatestSuiSystemState()\<close>.\<close>

definition check_endpoint ::
  "('c option \<Rightarrow> nat \<Rightarrow> unit settle) \<Rightarrow> (nat \<Rightarrow> 'c check_env) \<Rightarrow> nat \<Rightarrow> 'c ResilientRpcClient \<Rightarrow> 'c ResilientRpcClient" where
  "check_endpoint ping env i c =
     (let ep = endpoints c ! i; ev = env i
      in if healthy ep then c
         else if chkNow ev - lastFailureAt ep < RECOVERY_COOLDOWN_MS then c
         else (case withTimeout (ping (client_of c i) i) (Num 10000) of
                 Inr _ \<Rightarrow> recordSuccess (chkRecord ev) (chkEnd ev - chkStart ev) i (duringCheck ev c)
               | Inl _ \<Rightarrow> on_endpoint (\<lambda>ep. ep\<lparr>lastFailureAt := chkNow ev\<rparr>) i (duringCheck ev c)))"

definition runHealthChecks ::
  "('c option \<Rightarrow> nat \<Rightarrow> unit settle) \<Rightarrow> (nat \<Rightarrow> 'c check_env) \<Rightarrow> 'c ResilientRpcClient \<Rightarrow> 'c ResilientRpcClient" where
  "runHealthChecks ping env c = fold (check_endpoint ping env) [0..<length (endpoints c)] c"

subsection \<open>The steps of the pool under any interleaving\<close>

text \<open>
  Between two \<^verbatim>\<open>await\<close>s the code runs to completion.  These are the pieces that touch the pool:
  whatever the scheduler does, the pool moves by them.
\<close>

inductive rpc_step :: "'c ResilientRpcClient \<Rightarrow> 'c ResilientRpcClient \<Rightarrow> bool" where
  pick: "getBestEndpoint now c = (r, c') \<Longrightarrow> rpc_step c c'"
| succeeded: "i < length (endpoints c) \<Longrightarrow> rpc_step c (recordSuccess now ms i c)"
| failed: "i < length (endpoints c) \<Longrightarrow> rpc_step c (recordFailure now i c)"
| rotated: "endpoints c \<noteq> [] \<Longrightarrow> rpc_step c (rotateEndpoint c)"
| check_failed: "i < length (endpoints c) \<Longrightarrow> rpc_step c (on_endpoint (\<lambda>ep. ep\<lparr>lastFailureAt := now\<rparr>) i c)"
| stopped: "rpc_step c (rpc_stop c)"

inductive rpc_reachable :: "(string \<Rightarrow> 'c) \<Rightarrow> RpcClientConfig \<Rightarrow> 'c ResilientRpcClient \<Rightarrow> bool"
  for mkClient config where
  start: "rpc_reachable mkClient config (rpc_client_new mkClient config)"
| step: "rpc_reachable mkClient config c \<Longrightarrow> rpc_step c c' \<Longrightarrow> rpc_reachable mkClient config c'"

text \<open>The well-formedness of a health record and of the pool.\<close>

definition endpoint_ok :: "EndpointHealth \<Rightarrow> bool" where
  "endpoint_ok ep \<longleftrightarrow> (healthy ep \<longleftrightarrow> consecutiveFailures ep < UNHEALTHY_THRESHOLD)"

definition rpc_inv :: "(string \<Rightarrow> 'c) \<Rightarrow> RpcClientConfig \<Rightarrow> 'c ResilientRpcClient \<Rightarrow> bool" where
  "rpc_inv mkClient config c \<longleftrightarrow>
     map (\<lambda>ep. (epUrl ep, epWeight ep)) (endpoints c) = map (\<lambda>ep. (rpcUrl ep, rpcWeight ep)) (cfgEndpoints config)
     \<and> rpcConfig c = config
     \<and> (endpoints c \<noteq> [] \<longrightarrow> currentIndex c < length (endpoints c))
     \<and> list_all endpoint_ok (endpoints c)
     \<and> (\<forall>ep \<in> set (endpoints c). map_get (clients c) (epUrl ep) = Some (mkClient (epUrl ep)))"

subsection \<open>Lemmas on the choice of an endpoint\<close>

lemma scan_healthy_Some:
  assumes "scan_healthy eps cur i k = Some idx"
  shows "\<exists>j. i \<le> j \<and> j < i + k \<and> idx = (cur + j) mod length eps \<and> healthy (eps ! idx)
      \<and> (\<forall>j'. i \<le> j' \<and> j' < j \<longrightarrow> \<not> healthy (eps ! ((cur + j') mod length eps)))"
  using assms
proof (induction k arbitrary: i)
  case 0
  then show ?case by simp
next
  case (Suc k)
  show ?case
  proof (cases "healthy (eps ! ((cur + i) mod length eps))")
    case True
    with Suc.prems have "idx = (cur + i) mod length eps" by simp
    with True show ?thesis by (intro exI[of _ i]) auto
  next
    case False
    with Suc.prems have "scan_healthy eps cur (Suc i) k = Some idx" by simp
    from Suc.IH[OF this] obtain j where j: "Suc i \<le> j" "j < Suc i + k" "idx = (cur + j) mod length eps"
      "healthy (eps ! idx)" "\<forall>j'. Suc i \<le> j' \<and> j' < j \<longrightarrow> \<not> healthy (eps ! ((cur + j') mod length eps))"
      by blast
    have "\<not> healthy (eps ! ((cur + j') mod length eps))" if "i \<le> j'" "j' < j" for j'
      using that j(5) False by (cases "j' = i") auto
    with j show ?thesis by (intro exI[of _ j]) auto
  qed
qed

lemma scan_healthy_None:
  "scan_healthy eps cur i k = None \<Longrightarrow> i \<le> j \<Longrightarrow> j < i + k \<Longrightarrow> \<not> healthy (eps ! ((cur + j) mod length eps))"
proof (induction k arbitrary: i)
  case 0
  then show ?case by simp
next
  case (Suc k)
  then show ?case by (cases "j = i") (auto simp: Let_def split: if_splits)
qed

text \<open>Every index is an offset from \<open>currentIndex\<close>.\<close>

lemma circular_offset:
  assumes "idx < (n::nat)"
  obtains j where "j < n" "(cur + j) mod n = idx"
proof
  let ?j = "(idx + (n - cur mod n)) mod n"
  show "?j < n" using assms by simp
  have "(cur + ?j) mod n = (cur mod n + (idx + (n - cur mod n))) mod n"
    by (simp add: mod_simps)
  also have "cur mod n + (idx + (n - cur mod n)) = idx + n"
    using assms mod_less_divisor[of n cur] by linarith
  finally show "(cur + ?j) mod n = idx" using assms by simp
qed

lemma scan_all_unhealthy:
  assumes "scan_healthy eps cur 0 (length eps) = None" and "idx < length eps"
  shows "\<not> healthy (eps ! idx)"
proof -
  obtain j where "j < length eps" "(cur + j) mod length eps = idx"
    using assms(2) by (rule circular_offset)
  with scan_healthy_None[OF assms(1), of j] show ?thesis by simp
qed

lemma heavier_cases: "heavier eps a b = a \<or> heavier eps a b = b"
  by (simp add: heavier_def)

lemma heaviest_foldl_bound:
  "a < n \<Longrightarrow> \<forall>i\<in>set is. i < n \<Longrightarrow> foldl (heavier eps) a is < n"
proof (induction "is" arbitrary: a)
  case Nil
  then show ?case by simp
next
  case (Cons i "is")
  then show ?case using heavier_cases[of eps a i] by auto
qed

lemma heaviest_index_bound: "eps \<noteq> [] \<Longrightarrow> heaviest_index eps < length eps"
  unfolding heaviest_index_def by (rule heaviest_foldl_bound) auto

lemma getBestEndpoint_cases:
  assumes "getBestEndpoint now c = (r, c')" and "endpoints c \<noteq> []"
  obtains (healthy) idx where "r = Inr idx" "c' = c\<lparr>endpoints := map (recover_endpoint now) (endpoints c)\<rparr>"
      "scan_healthy (map (recover_endpoint now) (endpoints c)) (currentIndex c) 0 (length (endpoints c)) = Some idx"
    | (reset) best where "r = Inr best" "best = heaviest_index (map (recover_endpoint now) (endpoints c))"
      "best < length (endpoints c)"
      "c' = c\<lparr>endpoints := (map (recover_endpoint now) (endpoints c))
               [best := (recover_endpoint now (endpoints c ! best))\<lparr>healthy := True, consecutiveFailures := 0\<rparr>],
             currentIndex := best\<rparr>"
      "scan_healthy (map (recover_endpoint now) (endpoints c)) (currentIndex c) 0 (length (endpoints c)) = None"
proof -
  let ?eps = "map (recover_endpoint now) (endpoints c)"
  have b: "heaviest_index ?eps < length (endpoints c)"
    using heaviest_index_bound[of ?eps] assms(2) by simp
  show thesis
  proof (cases "scan_healthy ?eps (currentIndex c) 0 (length (endpoints c))")
    case None
    with assms b show thesis
      by (intro reset[of "heaviest_index ?eps"]) (auto simp: getBestEndpoint_def Let_def nth_map)
  next
    case (Some idx)
    with assms show thesis
      by (intro healthy[of idx]) (auto simp: getBestEndpoint_def Let_def)
  qed
qed

lemma scan_healthy_bound:
  "scan_healthy eps cur i k = Some idx \<Longrightarrow> eps \<noteq> [] \<Longrightarrow> idx < length eps"
  using scan_healthy_Some[of eps cur i k idx] by auto

lemma getBestEndpoint_returns:
  assumes "endpoints c \<noteq> []"
  shows "\<exists>idx c'. getBestEndpoint now c = (Inr idx, c') \<and> idx < length (endpoints c)
      \<and> length (endpoints c') = length (endpoints c) \<and> healthy (endpoints c' ! idx)"
proof -
  obtain r c' where g: "getBestEndpoint now c = (r, c')" by (cases "getBestEndpoint now c")
  from g assms show ?thesis
  proof (cases rule: getBestEndpoint_cases)
    case (healthy idx)
    then have "idx < length (endpoints c)" using scan_healthy_bound[OF healthy(3)] assms by simp
    with healthy g scan_healthy_Some[OF healthy(3)] show ?thesis by auto
  next
    case (reset best)
    with g show ?thesis by auto
  qed
qed

lemma getBestEndpoint_empty:
  "endpoints c = [] \<Longrightarrow> getBestEndpoint now c =
     (Inl (type_error ''Reduce of empty array with no initial value''), c)"
  by (simp add: getBestEndpoint_def)

subsection \<open>The invariant\<close>

lemma endpoint_ok_intros [intro]:
  "endpoint_ok (fresh_endpoint e)"
  "endpoint_ok ep \<Longrightarrow> endpoint_ok (recover_endpoint now ep)"
  "endpoint_ok ep \<Longrightarrow> endpoint_ok (ep\<lparr>healthy := True, consecutiveFailures := 0\<rparr>)"
  "endpoint_ok (mark_success now ms ep)"
  "endpoint_ok ep \<Longrightarrow> endpoint_ok (mark_failure now ep)"
  "endpoint_ok ep \<Longrightarrow> endpoint_ok (ep\<lparr>lastFailureAt := now\<rparr>)"
  by (auto simp: endpoint_ok_def fresh_endpoint_def recover_endpoint_def mark_success_def
      mark_failure_def UNHEALTHY_THRESHOLD_def Let_def)

lemma endpoint_frame [simp]:
  "epUrl (recover_endpoint now ep) = epUrl ep" "epWeight (recover_endpoint now ep) = epWeight ep"
  "epUrl (mark_success now ms ep) = epUrl ep" "epWeight (mark_success now ms ep) = epWeight ep"
  "epUrl (mark_failure now ep) = epUrl ep" "epWeight (mark_failure now ep) = epWeight ep"
  by (auto simp: recover_endpoint_def mark_success_def mark_failure_def Let_def)

lemma map_list_update_same:
  "i < length xs \<Longrightarrow> f y = f (xs ! i) \<Longrightarrow> map f (xs[i := y]) = map f xs"
  by (simp add: map_update list_update_same_conv)

lemma rpc_inv_replace:
  assumes "rpc_inv mkClient config c" and "i < length (endpoints c)"
    and "epUrl ep = epUrl (endpoints c ! i)" "epWeight ep = epWeight (endpoints c ! i)" "endpoint_ok ep"
  shows "rpc_inv mkClient config (c\<lparr>endpoints := (endpoints c)[i := ep]\<rparr>)"
proof -
  have "\<forall>e \<in> set ((endpoints c)[i := ep]). map_get (clients c) (epUrl e) = Some (mkClient (epUrl e))"
    using assms set_update_subset_insert[of "endpoints c" i ep] by (auto simp: rpc_inv_def)
  moreover have "list_all endpoint_ok ((endpoints c)[i := ep])"
    using assms set_update_subset_insert[of "endpoints c" i ep] by (auto simp: rpc_inv_def list_all_iff)
  moreover have "map (\<lambda>ep. (epUrl ep, epWeight ep)) ((endpoints c)[i := ep]) = map (\<lambda>ep. (epUrl ep, epWeight ep)) (endpoints c)"
    using assms by (intro map_list_update_same) auto
  ultimately show ?thesis using assms(1) by (auto simp: rpc_inv_def)
qed

lemma rpc_inv_on_endpoint:
  assumes "rpc_inv mkClient config c" and "i < length (endpoints c)"
    and "\<And>ep. epUrl (f ep) = epUrl ep" "\<And>ep. epWeight (f ep) = epWeight ep"
    and "\<And>ep. endpoint_ok ep \<Longrightarrow> endpoint_ok (f ep)"
  shows "rpc_inv mkClient config (on_endpoint f i c)"
  unfolding on_endpoint_def
proof (rule rpc_inv_replace[OF assms(1,2)])
  have "endpoint_ok (endpoints c ! i)"
    using assms(1,2) by (auto simp: rpc_inv_def list_all_iff)
  then show "endpoint_ok (f (endpoints c ! i))" by (rule assms(5))
qed (simp_all add: assms)

lemma rpc_inv_recover:
  "rpc_inv mkClient config c \<Longrightarrow> rpc_inv mkClient config (c\<lparr>endpoints := map (recover_endpoint now) (endpoints c)\<rparr>)"
  by (auto simp: rpc_inv_def list_all_iff comp_def)

lemma rpc_inv_index:
  "rpc_inv mkClient config c \<Longrightarrow> i < length (endpoints c) \<Longrightarrow> rpc_inv mkClient config (c\<lparr>currentIndex := i\<rparr>)"
  by (simp add: rpc_inv_def)

lemma rpc_inv_getBestEndpoint:
  assumes inv: "rpc_inv mkClient config c" and g: "getBestEndpoint now c = (r, c')"
  shows "rpc_inv mkClient config c'"
proof (cases "endpoints c = []")
  case True
  with g getBestEndpoint_empty[OF True, of now] inv show ?thesis by simp
next
  case False
  let ?c1 = "c\<lparr>endpoints := map (recover_endpoint now) (endpoints c)\<rparr>"
  have inv1: "rpc_inv mkClient config ?c1" using inv by (rule rpc_inv_recover)
  from g False show ?thesis
  proof (cases rule: getBestEndpoint_cases)
    case (healthy idx)
    with inv1 show ?thesis by simp
  next
    case (reset best)
    have ok: "endpoint_ok ((recover_endpoint now (endpoints c ! best))\<lparr>healthy := True, consecutiveFailures := 0\<rparr>)"
      by (simp add: endpoint_ok_def UNHEALTHY_THRESHOLD_def)
    have "rpc_inv mkClient config (?c1\<lparr>endpoints := (endpoints ?c1)[best :=
        (recover_endpoint now (endpoints c ! best))\<lparr>healthy := True, consecutiveFailures := 0\<rparr>]\<rparr>)"
      using reset(3) ok by (intro rpc_inv_replace[OF inv1]) (simp_all add: nth_map)
    from rpc_inv_index[OF this, of best] reset show ?thesis by simp
  qed
qed

lemma clients_fold:
  "map_get (fold (\<lambda>ep m. map_set (epUrl ep) (mk (epUrl ep)) m) eps m) u =
     (if u \<in> epUrl ` set eps then Some (mk u) else map_get m u)"
  by (induction eps arbitrary: m) auto

lemma rpc_inv_new: "rpc_inv mkClient config (rpc_client_new mkClient config)"
  by (auto simp: rpc_inv_def rpc_client_new_def Let_def fresh_endpoint_def clients_fold list_all_iff
      endpoint_ok_def UNHEALTHY_THRESHOLD_def image_image)

lemma rpc_inv_step: "rpc_step c c' \<Longrightarrow> rpc_inv mkClient config c \<Longrightarrow> rpc_inv mkClient config c'"
proof (induction rule: rpc_step.induct)
  case (pick now c r c')
  then show ?case by (blast intro: rpc_inv_getBestEndpoint)
next
  case (succeeded i c now ms)
  then show ?case unfolding recordSuccess_def by (intro rpc_inv_on_endpoint) auto
next
  case (failed i c now)
  then show ?case unfolding recordFailure_def by (intro rpc_inv_on_endpoint) auto
next
  case (rotated c)
  then show ?case by (simp add: rotateEndpoint_def rpc_inv_index)
next
  case (check_failed i c now)
  then show ?case by (intro rpc_inv_on_endpoint) auto
next
  case (stopped c)
  then show ?case by (simp add: rpc_stop_def rpc_inv_def)
qed

lemma rpc_reachable_inv: "rpc_reachable mkClient config c \<Longrightarrow> rpc_inv mkClient config c"
  by (induction rule: rpc_reachable.induct) (auto intro: rpc_inv_new rpc_inv_step)

subsection \<open>What \<^verbatim>\<open>execute\<close> does to the pool\<close>

lemma rpc_step_length: "rpc_step c c' \<Longrightarrow> length (endpoints c') = length (endpoints c)"
proof (induction rule: rpc_step.induct)
  case (pick now c r c')
  then show ?case
  proof (cases "endpoints c = []")
    case True
    with pick getBestEndpoint_empty[OF True, of now] show ?thesis by simp
  next
    case False
    with pick show ?thesis by (elim getBestEndpoint_cases) auto
  qed
qed (simp_all add: recordSuccess_def recordFailure_def on_endpoint_def rotateEndpoint_def rpc_stop_def)

lemma rpc_steps_length: "rpc_step\<^sup>*\<^sup>* c c' \<Longrightarrow> length (endpoints c') = length (endpoints c)"
  by (induction rule: rtranclp_induct) (auto dest: rpc_step_length)

text \<open>Interference that moves the pool only by its own steps.\<close>

definition polite :: "(nat \<Rightarrow> 'c attempt_env) \<Rightarrow> bool" where
  "polite env \<longleftrightarrow>
     (\<forall>k c. rpc_step\<^sup>*\<^sup>* c (duringCall (env k) c) \<and> rpc_step\<^sup>*\<^sup>* c (duringSleep (env k) c))"

lemma politeD:
  assumes "polite env"
  shows "rpc_step\<^sup>*\<^sup>* c (duringCall (env k) c)" "rpc_step\<^sup>*\<^sup>* c (duringSleep (env k) c)"
    "length (endpoints (duringCall (env k) c)) = length (endpoints c)"
    "length (endpoints (duringSleep (env k) c)) = length (endpoints c)"
  using assms by (auto simp: polite_def dest: rpc_steps_length)

text \<open>
  One attempt: it picks an endpoint, the call settles, and the loop returns or goes on.  Every
  property of the loop is an induction over this case analysis.
\<close>

definition after_failure ::
  "'c attempt_env \<Rightarrow> nat \<Rightarrow> js_error \<Rightarrow> 'c ResilientRpcClient \<Rightarrow> 'c ResilientRpcClient" where
  "after_failure ev ep err c1 =
     (let c3 = recordFailure (tRecord ev) ep (duringCall ev c1)
      in if isNetworkError err then rotateEndpoint c3 else c3)"

definition after_sleep ::
  "'c attempt_env \<Rightarrow> nat \<Rightarrow> js_error \<Rightarrow> nat \<Rightarrow> 'c ResilientRpcClient \<Rightarrow> 'c ResilientRpcClient" where
  "after_sleep ev ep err left c1 =
     (if left > 0 then duringSleep ev (after_failure ev ep err c1) else after_failure ev ep err c1)"

lemma execute_loop_cases:
  assumes run: "execute_loop op env timeout (Suc left) attempt lastError c = (r, c', lg)"
    and ne: "endpoints c \<noteq> []"
  obtains (returned) ep c1 a where
      "getBestEndpoint (tBest (env attempt)) c = (Inr ep, c1)" "ep < length (endpoints c)"
      "withTimeout (op (client_of c1 ep) attempt) timeout = Inr a" "r = Inr a"
      "c' = recordSuccess (tRecord (env attempt)) (tEnd (env attempt) - tStart (env attempt)) ep (duringCall (env attempt) c1)"
      "lg = [\<lparr>logEndpoint = ep, logDelay = None\<rparr>]"
    | (failed) ep c1 err delay lg' where
      "getBestEndpoint (tBest (env attempt)) c = (Inr ep, c1)" "ep < length (endpoints c)"
      "withTimeout (op (client_of c1 ep) attempt) timeout = Inl err"
      "execute_loop op env timeout left (Suc attempt) (Some err) (after_sleep (env attempt) ep err left c1) = (r, c', lg')"
      "lg = \<lparr>logEndpoint = ep, logDelay = delay\<rparr> # lg'"
      "delay = (if left > 0 then Some (calculateBackoff (rpcConfig (after_failure (env attempt) ep err c1)) attempt
                  (random (env attempt))) else None)"
proof -
  obtain ep c1 where g: "getBestEndpoint (tBest (env attempt)) c = (Inr ep, c1)" and b: "ep < length (endpoints c)"
    using getBestEndpoint_returns[OF ne, of "tBest (env attempt)"] by blast
  show thesis
  proof (cases "withTimeout (op (client_of c1 ep) attempt) timeout")
    case (Inl err)
    obtain r5 c5 lg5 where rest: "execute_loop op env timeout left (Suc attempt) (Some err)
        (after_sleep (env attempt) ep err left c1) = (r5, c5, lg5)"
      by (cases "execute_loop op env timeout left (Suc attempt) (Some err) (after_sleep (env attempt) ep err left c1)")
    show thesis
    proof (rule failed[OF g b Inl])
      show "execute_loop op env timeout left (Suc attempt) (Some err) (after_sleep (env attempt) ep err left c1) = (r, c', lg5)"
        using run rest g Inl
        by (auto simp: Let_def after_sleep_def after_failure_def split: if_splits prod.splits)
      show "lg = \<lparr>logEndpoint = ep, logDelay = (if left > 0 then Some (calculateBackoff
            (rpcConfig (after_failure (env attempt) ep err c1)) attempt (random (env attempt))) else None)\<rparr> # lg5"
        using run rest g Inl
        by (auto simp: Let_def after_sleep_def after_failure_def split: if_splits prod.splits)
    qed simp
  next
    case (Inr a)
    with run g b show thesis by (intro returned[of ep c1 a]) (auto simp: Let_def)
  qed
qed

lemma getBestEndpoint_length:
  "getBestEndpoint now c = (r, c') \<Longrightarrow> length (endpoints c') = length (endpoints c)"
  by (rule rpc_step_length) (rule rpc_step.pick)

lemma after_failure_steps:
  assumes "polite env" and "ep < length (endpoints c1)"
  shows "rpc_step\<^sup>*\<^sup>* c1 (after_failure (env k) ep err c1)"
proof -
  let ?c2 = "duringCall (env k) c1"
  let ?c3 = "recordFailure (tRecord (env k)) ep ?c2"
  have l: "ep < length (endpoints ?c2)" using assms by (simp add: politeD)
  have "rpc_step ?c2 ?c3" using l by (rule rpc_step.failed)
  then have to3: "rpc_step\<^sup>*\<^sup>* c1 ?c3" using politeD(1)[OF assms(1), of c1 k] by simp
  have "endpoints ?c3 \<noteq> []" using l by (auto simp: recordFailure_def on_endpoint_def)
  then have "rpc_step ?c3 (rotateEndpoint ?c3)" by (rule rpc_step.rotated)
  with to3 show ?thesis by (auto simp: after_failure_def Let_def intro: rtranclp.rtrancl_into_rtrancl)
qed

lemma after_sleep_steps:
  assumes "polite env" and "ep < length (endpoints c1)"
  shows "rpc_step\<^sup>*\<^sup>* c1 (after_sleep (env k) ep err left c1)"
  using after_failure_steps[OF assms, of k err] politeD(2)[OF assms(1)]
  by (auto simp: after_sleep_def intro: rtranclp_trans)

lemma execute_loop_steps:
  assumes "polite env" and "endpoints c \<noteq> []"
    and "execute_loop op env timeout left attempt lastError c = (r, c', lg)"
  shows "rpc_step\<^sup>*\<^sup>* c c'"
  using assms(2,3)
proof (induction left arbitrary: attempt lastError c lg)
  case 0
  then show ?case by simp
next
  case (Suc left)
  from Suc.prems(2,1) show ?case
  proof (cases rule: execute_loop_cases)
    case (returned ep c1 a)
    have s1: "rpc_step c c1" using returned(1) by (rule rpc_step.pick)
    have "ep < length (endpoints (duringCall (env attempt) c1))"
      using returned(2) rpc_step_length[OF s1] politeD(3)[OF assms(1)] by simp
    then have "rpc_step (duringCall (env attempt) c1) c'" unfolding returned(5) by (rule rpc_step.succeeded)
    with s1 politeD(1)[OF assms(1), of c1 attempt] show ?thesis
      by (meson converse_rtranclp_into_rtranclp rtranclp.rtrancl_into_rtrancl)
  next
    case (failed ep c1 err delay lg')
    have s1: "rpc_step c c1" using failed(1) by (rule rpc_step.pick)
    have st: "rpc_step\<^sup>*\<^sup>* c1 (after_sleep (env attempt) ep err left c1)"
      using failed(2) rpc_step_length[OF s1] by (intro after_sleep_steps[OF assms(1)]) simp
    have ne: "endpoints (after_sleep (env attempt) ep err left c1) \<noteq> []"
      using Suc.prems(1) rpc_steps_length[OF st] rpc_step_length[OF s1] by auto
    from Suc.IH[OF ne failed(4)] s1 st show ?thesis by (meson converse_rtranclp_into_rtranclp rtranclp_trans)
  qed
qed

subsection \<open>What \<^verbatim>\<open>execute\<close> returns\<close>

definition attempt_ok :: "('c option \<Rightarrow> nat \<Rightarrow> 'a settle) \<Rightarrow> jsnum \<Rightarrow> nat \<Rightarrow> 'a \<Rightarrow> bool" where
  "attempt_ok op timeout k a \<longleftrightarrow> (\<exists>cl. withTimeout (op cl k) timeout = Inr a)"

definition attempt_err :: "('c option \<Rightarrow> nat \<Rightarrow> 'a settle) \<Rightarrow> jsnum \<Rightarrow> nat \<Rightarrow> js_error \<Rightarrow> bool" where
  "attempt_err op timeout k e \<longleftrightarrow> (\<exists>cl. withTimeout (op cl k) timeout = Inl e)"

lemma execute_loop_result:
  assumes "polite env" and "endpoints c \<noteq> []"
    and "execute_loop op env timeout left attempt lastError c = (r, c', lg)"
  shows "(\<forall>a. r = Inr a \<longrightarrow> lg \<noteq> [] \<and> length lg \<le> left \<and> attempt_ok op timeout (attempt + length lg - 1) a)
     \<and> (\<forall>e. r = Inl e \<longrightarrow> length lg = left
          \<and> (left > 0 \<longrightarrow> attempt_err op timeout (attempt + left - 1) e))
     \<and> (\<forall>k. attempt \<le> k \<and> k < attempt + length lg - 1 \<longrightarrow> (\<exists>e. attempt_err op timeout k e))"
  using assms(2,3)
proof (induction left arbitrary: attempt lastError c lg)
  case 0
  then show ?case by auto
next
  case (Suc left)
  from Suc.prems(2,1) show ?case
  proof (cases rule: execute_loop_cases)
    case (returned ep c1 a)
    then show ?thesis by (auto simp: attempt_ok_def)
  next
    case (failed ep c1 err delay lg')
    have s1: "rpc_step c c1" using failed(1) by (rule rpc_step.pick)
    have st: "rpc_step\<^sup>*\<^sup>* c1 (after_sleep (env attempt) ep err left c1)"
      using failed(2) rpc_step_length[OF s1] by (intro after_sleep_steps[OF assms(1)]) simp
    have ne: "endpoints (after_sleep (env attempt) ep err left c1) \<noteq> []"
      using Suc.prems(1) rpc_steps_length[OF st] rpc_step_length[OF s1] by auto
    have here: "attempt_err op timeout attempt err" using failed(3) by (auto simp: attempt_err_def)
    note IH = Suc.IH[OF ne failed(4)]
    have exhausted: "e = err" if "left = 0" "r = Inl e" for e
      using failed(4) that by auto
    have earlier: "\<exists>e. attempt_err op timeout k e" if "attempt \<le> k" "k < attempt + length lg - 1" for k
      using that here IH failed(5) by (cases "k = attempt") auto
    show ?thesis using IH here exhausted earlier by (cases "left = 0") (auto simp: failed(5))
  qed
qed

lemma backoff_bounds:
  assumes "0 \<le> rnd" "rnd < 1" and "baseRetryDelayMs config = Num base" "maxRetryDelayMs config = Num cap"
    and "0 \<le> base" "0 \<le> cap"
  shows "\<exists>d. calculateBackoff config k rnd = Num d \<and> 0 \<le> d \<and> d \<le> min (base * 2 ^ (k - 1)) cap"
proof -
  let ?m = "min (base * 2 ^ (k - 1)) cap"
  have m: "0 \<le> ?m" using assms(5,6) by simp
  then have "rnd * of_int ?m \<le> of_int ?m"
    using assms(1,2) by (intro mult_left_le_one_le) auto
  then have "\<lfloor>rnd * of_int ?m\<rfloor> \<le> ?m" by linarith
  moreover have "0 \<le> \<lfloor>rnd * of_int ?m\<rfloor>" using assms(1) m by simp
  ultimately show ?thesis using assms(3,4) by (simp add: calculateBackoff_def)
qed

subsection \<open>Failing over\<close>

text \<open>With no interference the loop walks round the pool: it reaches a working endpoint.\<close>

definition quiet :: "(nat \<Rightarrow> 'c attempt_env) \<Rightarrow> bool" where
  "quiet env \<longleftrightarrow> (\<forall>k c. duringCall (env k) c = c \<and> duringSleep (env k) c = c)"

lemma quiet_polite: "quiet env \<Longrightarrow> polite env"
  by (simp add: quiet_def polite_def)

lemma getBestEndpoint_current:
  assumes "endpoints c \<noteq> []" "currentIndex c < length (endpoints c)"
    and "healthy (endpoints c ! currentIndex c)"
  shows "getBestEndpoint now c = (Inr (currentIndex c), c\<lparr>endpoints := map (recover_endpoint now) (endpoints c)\<rparr>)"
proof -
  let ?eps = "map (recover_endpoint now) (endpoints c)"
  have h: "healthy (?eps ! currentIndex c)"
    using assms by (simp add: nth_map recover_endpoint_def)
  obtain k where k: "length ?eps = Suc k" using assms(1) by (cases "length ?eps") auto
  have "scan_healthy ?eps (currentIndex c) 0 (Suc k) = Some (currentIndex c)"
    using h assms(2) by (simp add: Let_def)
  then show ?thesis unfolding k[symmetric] by (simp add: getBestEndpoint_def Let_def)
qed






subsection \<open>Properties\<close>

text \<open>
  C5.  In every state the pool can reach, under any interleaving of calls, retries, rotations and
  health checks, an endpoint is marked healthy exactly while it has fewer than three consecutive
  failures, the index is in range, and every endpoint keeps its configured address and has its client.
\<close>

theorem pool_invariant:
  assumes "rpc_reachable mkClient config c" and "i < length (cfgEndpoints config)"
  shows "length (endpoints c) = length (cfgEndpoints config)
    \<and> (healthy (endpoints c ! i) \<longleftrightarrow> consecutiveFailures (endpoints c ! i) < 3)
    \<and> currentIndex c < length (endpoints c)
    \<and> epUrl (endpoints c ! i) = rpcUrl (cfgEndpoints config ! i)
    \<and> client_of c i = Some (mkClient (rpcUrl (cfgEndpoints config ! i)))"
proof -
  from assms(1) have inv: "rpc_inv mkClient config c" by (rule rpc_reachable_inv)
  then have m: "map (\<lambda>ep. (epUrl ep, epWeight ep)) (endpoints c) = map (\<lambda>ep. (rpcUrl ep, rpcWeight ep)) (cfgEndpoints config)"
    by (simp add: rpc_inv_def)
  have len: "length (endpoints c) = length (cfgEndpoints config)" using arg_cong[OF m, of length] by simp
  have "(epUrl (endpoints c ! i), epWeight (endpoints c ! i)) = (rpcUrl (cfgEndpoints config ! i), rpcWeight (cfgEndpoints config ! i))"
    using arg_cong[OF m, of "\<lambda>l. l ! i"] assms(2) len by (simp add: nth_map)
  moreover have "endpoints c ! i \<in> set (endpoints c)" using assms(2) len by simp
  moreover have "endpoints c \<noteq> []" using assms(2) len by auto
  ultimately show ?thesis using inv len
    by (auto simp: rpc_inv_def list_all_iff endpoint_ok_def UNHEALTHY_THRESHOLD_def client_of_def)
qed

definition demo_config :: RpcClientConfig where
  "demo_config = \<lparr>cfgEndpoints = [\<lparr>rpcUrl = ''a'', rpcWeight = Num 10\<rparr>, \<lparr>rpcUrl = ''b'', rpcWeight = Num 5\<rparr>],
     requestTimeoutMs = Num 30000, maxRetries = Num 5, baseRetryDelayMs = Num 1000,
     maxRetryDelayMs = Num 30000, healthCheckIntervalMs = Num 60000\<rparr>"

definition demo_client :: "string ResilientRpcClient" where
  "demo_client = rpc_client_new (\<lambda>u. u) demo_config"

theorem pool_invariant_witness:
  "rpc_reachable (\<lambda>u. u) demo_config (recordFailure 7 1 demo_client)
   \<and> consecutiveFailures (endpoints (recordFailure 7 1 demo_client) ! 1) = 1
   \<and> healthy (endpoints (recordFailure 7 1 demo_client) ! 1)"
proof -
  have r: "rpc_reachable (\<lambda>u. u) demo_config (recordFailure 7 1 demo_client)"
    unfolding demo_client_def
    by (rule rpc_reachable.step[OF rpc_reachable.start rpc_step.failed])
       (simp add: rpc_client_new_def demo_config_def Let_def)
  have l: "1 < length (cfgEndpoints demo_config)" by (simp add: demo_config_def)
  have f: "consecutiveFailures (endpoints (recordFailure 7 1 demo_client) ! 1) = 1"
    by (simp add: recordFailure_def on_endpoint_def mark_failure_def demo_client_def demo_config_def
        rpc_client_new_def Let_def fresh_endpoint_def UNHEALTHY_THRESHOLD_def)
  show ?thesis using r f pool_invariant[OF r l] by simp
qed

lemma heavier_foldl_map:
  assumes "\<And>ep. epWeight (f ep) = epWeight ep"
  shows "a < length eps \<Longrightarrow> \<forall>i\<in>set is. i < length eps \<Longrightarrow>
     foldl (heavier (map f eps)) a is = foldl (heavier eps) a is"
proof (induction "is" arbitrary: a)
  case Nil
  then show ?case by simp
next
  case (Cons i "is")
  have eq: "heavier (map f eps) a i = heavier eps a i"
    using Cons.prems by (simp add: heavier_def assms nth_map)
  have "heavier eps a i < length eps" using heavier_cases[of eps a i] Cons.prems by auto
  with Cons eq show ?case by simp
qed

lemma heaviest_index_map: "heaviest_index (map (recover_endpoint now) eps) = heaviest_index eps"
  by (cases "eps = []") (auto simp: heaviest_index_def intro!: heavier_foldl_map)

text \<open>
  The choice of an endpoint is total on a non-empty pool: it returns the first endpoint, going
  round from the current index, that is healthy once the endpoints past their cooldown are
  recovered; when none is, it resets the endpoint of greatest weight and moves the index to it.
\<close>

theorem getBestEndpoint_spec:
  assumes ne: "endpoints c \<noteq> []"
  shows "\<exists>i c'. getBestEndpoint now c = (Inr i, c') \<and> i < length (endpoints c) \<and> healthy (endpoints c' ! i)
    \<and> (if \<exists>k < length (endpoints c). healthy (recover_endpoint now (endpoints c ! k))
       then currentIndex c' = currentIndex c
         \<and> (\<exists>j < length (endpoints c). i = (currentIndex c + j) mod length (endpoints c)
              \<and> (\<forall>j' < j. \<not> healthy (recover_endpoint now (endpoints c ! ((currentIndex c + j') mod length (endpoints c))))))
       else i = heaviest_index (endpoints c) \<and> currentIndex c' = i)"
proof -
  obtain i c' where g: "getBestEndpoint now c = (Inr i, c')" and i: "i < length (endpoints c)" "healthy (endpoints c' ! i)"
    using getBestEndpoint_returns[OF ne, of now] by blast
  let ?n = "length (endpoints c)" and ?eps = "map (recover_endpoint now) (endpoints c)"
  from g ne show ?thesis
  proof (cases rule: getBestEndpoint_cases)
    case (healthy idx)
    have some: "\<exists>k < ?n. healthy (recover_endpoint now (endpoints c ! k))"
      using healthy(1,2) i by (auto simp: nth_map)
    obtain j where j: "j < ?n" "idx = (currentIndex c + j) mod length ?eps"
      "\<forall>j'. 0 \<le> j' \<and> j' < j \<longrightarrow> \<not> EndpointHealth.healthy (?eps ! ((currentIndex c + j') mod length ?eps))"
      using scan_healthy_Some[OF healthy(3)] by auto
    have "\<forall>j' < j. \<not> EndpointHealth.healthy (recover_endpoint now (endpoints c ! ((currentIndex c + j') mod ?n)))"
      using j(3) ne by (simp add: nth_map)
    with g i healthy j some show ?thesis by auto
  next
    case (reset best)
    have none: "\<not> (\<exists>k < ?n. healthy (recover_endpoint now (endpoints c ! k)))"
      using scan_all_unhealthy[of ?eps "currentIndex c"] reset(5) by (auto simp: nth_map)
    have "best = heaviest_index (endpoints c)"
      using reset(2) by (simp add: heaviest_index_map)
    with g i reset none show ?thesis by auto
  qed
qed

theorem getBestEndpoint_spec_witness:
  "endpoints demo_client \<noteq> [] \<and> (\<exists>i c'. getBestEndpoint 5 demo_client = (Inr i, c') \<and> i < 2)"
proof -
  have ne: "endpoints demo_client \<noteq> []" and l: "length (endpoints demo_client) = 2"
    by (simp_all add: demo_client_def demo_config_def rpc_client_new_def Let_def)
  show ?thesis using ne getBestEndpoint_spec[OF ne, of 5] unfolding l by blast
qed

text \<open>
  C28.  \<^verbatim>\<open>execute\<close> makes at most \<^verbatim>\<open>maxRetries\<close> attempts.  When it returns, it returns what the operation
  resolved with in its last attempt, and every earlier attempt failed; when it throws, it has made
  all \<^verbatim>\<open>maxRetries\<close> attempts, all failed, and it throws the error of the last.  Other tasks
  may use the pool at every \<^verbatim>\<open>await\<close>.
\<close>

theorem execute_result:
  assumes "polite env" and "endpoints c \<noteq> []" and "maxRetries (rpcConfig c) = Num m" and "1 \<le> m"
    and "execute op (Some timeout) env c = (r, c', lg)"
  shows "length lg \<le> nat m \<and> lg \<noteq> []
    \<and> (\<forall>k. 1 \<le> k \<and> k < length lg \<longrightarrow> (\<exists>e. attempt_err op timeout k e))
    \<and> (case r of Inr a \<Rightarrow> attempt_ok op timeout (length lg) a
       | Inl e \<Rightarrow> length lg = nat m \<and> attempt_err op timeout (nat m) e)"
proof -
  have run: "execute_loop op env timeout (nat m) 1 None c = (r, c', lg)"
    using assms(3,5) by (simp add: execute_def)
  have "0 < nat m" using assms(4) by simp
  with execute_loop_result[OF assms(1,2) run] show ?thesis by (auto split: sum.split)
qed

definition demo_env :: "nat \<Rightarrow> 'c attempt_env" where
  "demo_env k = \<lparr>tBest = 0, tStart = 0, tEnd = 20, tRecord = 20, random = 1 / 2, duringCall = (\<lambda>c. c), duringSleep = (\<lambda>c. c)\<rparr>"

definition demo_op :: "string option \<Rightarrow> nat \<Rightarrow> nat settle" where
  "demo_op cl k = (if cl = Some ''b'' then Resolves 20 k else Pending)"

lemma demo_env_quiet: "quiet demo_env"
  by (simp add: quiet_def demo_env_def)

theorem execute_result_witness:
  "\<exists>r c' lg. execute demo_op (Some (Num 100)) demo_env demo_client = (r, c', lg) \<and> length lg \<le> 5 \<and> lg \<noteq> []"
proof -
  obtain r c' lg where run: "execute demo_op (Some (Num 100)) demo_env demo_client = (r, c', lg)"
    by (cases "execute demo_op (Some (Num 100)) demo_env demo_client")
  have ne: "endpoints demo_client \<noteq> []" and m: "maxRetries (rpcConfig demo_client) = Num 5"
    by (simp_all add: demo_client_def demo_config_def rpc_client_new_def Let_def)
  show ?thesis
    using run execute_result[OF quiet_polite[OF demo_env_quiet] ne m _ run] by auto
qed



text \<open>The configuration and the length of the pool never change.\<close>

lemma rpc_step_config: "rpc_step c c' \<Longrightarrow> rpcConfig c' = rpcConfig c"
proof (induction rule: rpc_step.induct)
  case (pick now c r c')
  then show ?case
  proof (cases "endpoints c = []")
    case True
    with pick getBestEndpoint_empty[OF True, of now] show ?thesis by simp
  next
    case False
    with pick show ?thesis by (elim getBestEndpoint_cases) auto
  qed
qed (simp_all add: recordSuccess_def recordFailure_def on_endpoint_def rotateEndpoint_def rpc_stop_def)

lemma rpc_steps_config: "rpc_step\<^sup>*\<^sup>* c c' \<Longrightarrow> rpcConfig c' = rpcConfig c"
  by (induction rule: rtranclp_induct) (auto dest: rpc_step_config)

definition delay_ok :: "int \<Rightarrow> int \<Rightarrow> nat \<Rightarrow> attempt_log \<Rightarrow> bool" where
  "delay_ok base cap k entry \<longleftrightarrow>
     (case logDelay entry of None \<Rightarrow> True
      | Some d \<Rightarrow> \<exists>n. d = Num n \<and> 0 \<le> n \<and> n \<le> min (base * 2 ^ (k - 1)) cap)"

lemma execute_loop_delays:
  assumes "polite env" and "endpoints c \<noteq> []"
    and "execute_loop op env timeout left attempt lastError c = (r, c', lg)"
    and "\<forall>k. 0 \<le> random (env k) \<and> random (env k) < 1"
    and "baseRetryDelayMs (rpcConfig c) = Num base" "maxRetryDelayMs (rpcConfig c) = Num cap" "0 \<le> base" "0 \<le> cap"
  shows "\<forall>i < length lg. delay_ok base cap (attempt + i) (lg ! i)"
  using assms(2,3,5,6)
proof (induction left arbitrary: attempt lastError c lg)
  case 0
  then show ?case by simp
next
  case (Suc left)
  from Suc.prems(2,1) show ?case
  proof (cases rule: execute_loop_cases)
    case (returned ep c1 a)
    then show ?thesis by (simp add: delay_ok_def)
  next
    case (failed ep c1 err delay lg')
    have s1: "rpc_step c c1" using failed(1) by (rule rpc_step.pick)
    have l1: "ep < length (endpoints c1)" using failed(2) rpc_step_length[OF s1] by simp
    have cfg: "rpcConfig (after_failure (env attempt) ep err c1) = rpcConfig c"
      using rpc_steps_config[OF after_failure_steps[OF assms(1) l1]] rpc_step_config[OF s1] by simp
    note st = after_sleep_steps[OF assms(1) l1, of attempt err left]
    have ne: "endpoints (after_sleep (env attempt) ep err left c1) \<noteq> []"
      using Suc.prems(1) rpc_steps_length[OF st] rpc_step_length[OF s1] by auto
    have cfg2: "rpcConfig (after_sleep (env attempt) ep err left c1) = rpcConfig c"
      using rpc_steps_config[OF st] rpc_step_config[OF s1] by simp
    have rest: "\<forall>i < length lg'. delay_ok base cap (Suc attempt + i) (lg' ! i)"
      using Suc.IH[OF ne failed(4)] Suc.prems(3,4) cfg2 by simp
    have first: "delay_ok base cap attempt \<lparr>logEndpoint = ep, logDelay = delay\<rparr>"
      using backoff_bounds[of "random (env attempt)" "rpcConfig c" base cap attempt] assms(4,7,8) Suc.prems(3,4)
      by (simp add: delay_ok_def failed(6) cfg)
    show ?thesis
    proof (intro allI impI)
      fix i assume "i < length lg"
      then show "delay_ok base cap (attempt + i) (lg ! i)"
        using first rest by (cases i) (auto simp: failed(5))
    qed
  qed
qed

text \<open>
  Between attempts \<^verbatim>\<open>execute\<close> sleeps between 0 and \<^verbatim>\<open>baseRetryDelayMs * 2^(attempt-1)\<close> milliseconds, never more
  than \<^verbatim>\<open>maxRetryDelayMs\<close>, whatever the random numbers and whatever else uses the pool.
\<close>

theorem execute_backoff_bounded:
  assumes "polite env" and "endpoints c \<noteq> []" and "\<forall>k. 0 \<le> random (env k) \<and> random (env k) < 1"
    and "baseRetryDelayMs (rpcConfig c) = Num base" "maxRetryDelayMs (rpcConfig c) = Num cap" "0 \<le> base" "0 \<le> cap"
    and "execute op timeoutMs env c = (r, c', lg)"
  shows "\<forall>i < length lg. case logDelay (lg ! i) of None \<Rightarrow> True
     | Some d \<Rightarrow> \<exists>n. d = Num n \<and> 0 \<le> n \<and> n \<le> base * 2 ^ i \<and> n \<le> cap"
proof -
  obtain t where run: "execute_loop op env t (attempt_count (maxRetries (rpcConfig c))) 1 None c = (r, c', lg)"
    using assms(8) by (auto simp: execute_def Let_def)
  from execute_loop_delays[OF assms(1,2) run assms(3,4,5,6,7)] show ?thesis
    by (auto simp: delay_ok_def split: option.splits)
qed

theorem execute_backoff_bounded_witness:
  "\<exists>r c' lg. execute demo_op (Some (Num 100)) demo_env demo_client = (r, c', lg)
     \<and> (\<forall>i < length lg. case logDelay (lg ! i) of None \<Rightarrow> True
         | Some d \<Rightarrow> \<exists>n. d = Num n \<and> 0 \<le> n \<and> n \<le> 1000 * 2 ^ i \<and> n \<le> 30000)"
proof -
  obtain r c' lg where run: "execute demo_op (Some (Num 100)) demo_env demo_client = (r, c', lg)"
    by (cases "execute demo_op (Some (Num 100)) demo_env demo_client")
  have ne: "endpoints demo_client \<noteq> []" and b: "baseRetryDelayMs (rpcConfig demo_client) = Num 1000"
    "maxRetryDelayMs (rpcConfig demo_client) = Num 30000"
    by (simp_all add: demo_client_def demo_config_def rpc_client_new_def Let_def)
  have r: "\<forall>k. 0 \<le> random (demo_env k) \<and> random (demo_env k) < 1" by (simp add: demo_env_def)
  show ?thesis
    using run execute_backoff_bounded[OF quiet_polite[OF demo_env_quiet] ne r b _ _ run] by auto
qed

text \<open>
  The rotation moves the index by one from where it was, not from the endpoint that failed.  While
  the endpoint at the index is unhealthy and cooling down, a network failure of the endpoint after
  it is followed by another attempt on that same endpoint, even when others are healthy, until it
  has failed three times.
\<close>

theorem rotation_reselects_failed_endpoint:
  assumes "1 < length (endpoints c)" and cur: "currentIndex c < length (endpoints c)"
    and nxt: "nxt = (currentIndex c + 1) mod length (endpoints c)"
    and "\<not> healthy (endpoints c ! currentIndex c)" "now - lastFailureAt (endpoints c ! currentIndex c) \<le> 30000"
    and "healthy (endpoints c ! nxt)" "consecutiveFailures (endpoints c ! nxt) < 2"
  shows "\<exists>c1 c2. getBestEndpoint now c = (Inr nxt, c1)
     \<and> getBestEndpoint now' (rotateEndpoint (recordFailure now nxt c1)) = (Inr nxt, c2)"
proof -
  let ?n = "length (endpoints c)" and ?eps = "map (recover_endpoint now) (endpoints c)"
  let ?c1 = "c\<lparr>endpoints := ?eps\<rparr>"
  have ne: "endpoints c \<noteq> []" using assms(1) by auto
  have b: "nxt < ?n" using ne nxt by simp
  have sick: "\<not> healthy (?eps ! currentIndex c)"
    using assms(4,5) cur by (simp add: nth_map recover_endpoint_def RECOVERY_COOLDOWN_MS_def)
  have well: "?eps ! nxt = endpoints c ! nxt" using assms(6) b by (simp add: nth_map recover_endpoint_def)
  obtain k where k: "?n = Suc (Suc k)" using less_imp_Suc_add[OF assms(1)] by auto
  have s0: "(currentIndex c + 0) mod length ?eps = currentIndex c" using cur by simp
  have s1: "(currentIndex c + Suc 0) mod length ?eps = nxt" using nxt by simp
  have "scan_healthy ?eps (currentIndex c) 0 (Suc (Suc k)) = Some nxt"
    unfolding scan_healthy.simps Let_def s0 s1 using sick well assms(6) by simp
  then have g: "getBestEndpoint now c = (Inr nxt, ?c1)"
    unfolding k[symmetric] by (simp add: getBestEndpoint_def Let_def)
  let ?c3 = "rotateEndpoint (recordFailure now nxt ?c1)"
  have e3: "endpoints ?c3 = ?eps[nxt := mark_failure now (endpoints c ! nxt)]" and i3: "currentIndex ?c3 = nxt"
    using well nxt by (simp_all add: rotateEndpoint_def recordFailure_def on_endpoint_def)
  have "healthy (mark_failure now (endpoints c ! nxt))"
    using assms(6,7) by (simp add: mark_failure_def UNHEALTHY_THRESHOLD_def Let_def)
  then have "getBestEndpoint now' ?c3 = (Inr (currentIndex ?c3), ?c3\<lparr>endpoints := map (recover_endpoint now') (endpoints ?c3)\<rparr>)"
    using b by (intro getBestEndpoint_current) (auto simp: e3 i3)
  with g show ?thesis by (auto simp: i3)
qed

theorem rotation_reselects_failed_endpoint_witness:
  "\<exists>c1 c2. getBestEndpoint 100 (recordFailure 90 0 (recordFailure 80 0 (recordFailure 70 0 demo_client))) = (Inr 1, c1)
     \<and> getBestEndpoint 200 (rotateEndpoint (recordFailure 100 1 c1)) = (Inr 1, c2)"
proof -
  let ?c = "recordFailure 90 0 (recordFailure 80 0 (recordFailure 70 0 demo_client))"
  have eps: "endpoints ?c = [(endpoints demo_client ! 0)\<lparr>consecutiveFailures := 3, healthy := False, lastFailureAt := 90\<rparr>, endpoints demo_client ! 1]"
    by (simp add: recordFailure_def on_endpoint_def mark_failure_def demo_client_def demo_config_def
        rpc_client_new_def Let_def fresh_endpoint_def UNHEALTHY_THRESHOLD_def)
  have w: "healthy (endpoints demo_client ! 1)" "consecutiveFailures (endpoints demo_client ! 1) = 0"
    and i: "currentIndex ?c = 0"
    by (simp_all add: demo_client_def demo_config_def rpc_client_new_def Let_def fresh_endpoint_def
        recordFailure_def on_endpoint_def)
  show ?thesis
    by (rule rotation_reselects_failed_endpoint) (simp_all add: eps i w[unfolded One_nat_def])
qed

subsection \<open>The interface the transaction code relies on\<close>

text \<open>
  What a caller of \<^verbatim>\<open>execute\<close> may count on: a value comes from the operation's own last attempt, within
  the timeout; the attempts are bounded; and the pool is ready for the next call.
\<close>

locale rpc_executor =
  fixes run :: "('c option \<Rightarrow> nat \<Rightarrow> 'a settle) \<Rightarrow> jsnum option \<Rightarrow> 'e \<Rightarrow> 'p \<Rightarrow> 'a outcome \<times> 'p \<times> attempt_log list"
    and ready :: "'p \<Rightarrow> bool"
    and fair :: "'e \<Rightarrow> bool"
    and limit :: "'p \<Rightarrow> nat"
  assumes run_value: "ready p \<Longrightarrow> fair e \<Longrightarrow> run op (Some t) e p = (Inr a, p', lg) \<Longrightarrow> lg \<noteq> [] \<and> attempt_ok op t (length lg) a"
    and run_bound: "ready p \<Longrightarrow> fair e \<Longrightarrow> run op to e p = (r, p', lg) \<Longrightarrow> length lg \<le> limit p"
    and run_ready: "ready p \<Longrightarrow> fair e \<Longrightarrow> run op to e p = (r, p', lg) \<Longrightarrow> ready p' \<and> limit p' = limit p"
begin

lemma value_from_op:
  assumes "ready p" and "fair e" and "run op (Some t) e p = (Inr a, p', lg)"
  obtains cl d where "op cl (length lg) = Resolves d a" and "1 \<le> length lg" and "length lg \<le> limit p"
proof -
  from run_value[OF assms] obtain cl where lg: "lg \<noteq> []" and w: "withTimeout (op cl (length lg)) t = Inr a"
    by (auto simp: attempt_ok_def)
  then obtain d where "op cl (length lg) = Resolves d a"
    by (cases "op cl (length lg)") (auto split: if_splits)
  with lg run_bound[OF assms] show thesis by (intro that) (auto simp: Suc_le_eq)
qed

text \<open>An operation that never resolves makes the call fail.\<close>

lemma hopeless:
  assumes "ready p" and "fair e" and "\<And>cl k d a. op cl k \<noteq> Resolves d a"
  shows "\<exists>err p' lg. run op (Some t) e p = (Inl err, p', lg)"
proof -
  obtain r p' lg where run: "run op (Some t) e p = (r, p', lg)" by (cases "run op (Some t) e p")
  have "r \<noteq> Inr a" for a
  proof
    assume "r = Inr a"
    with run have run': "run op (Some t) e p = (Inr a, p', lg)" by simp
    show False using value_from_op[OF assms(1,2) run'] assms(3) by metis
  qed
  with run show ?thesis by (cases r) auto
qed

end

definition pool_ready :: "'c ResilientRpcClient \<Rightarrow> bool" where
  "pool_ready c \<longleftrightarrow> endpoints c \<noteq> []"

definition pool_limit :: "'c ResilientRpcClient \<Rightarrow> nat" where
  "pool_limit c = attempt_count (maxRetries (rpcConfig c))"

lemma execute_unfold:
  "execute op t env c =
     execute_loop op env (case t of Some t \<Rightarrow> t | None \<Rightarrow> requestTimeoutMs (rpcConfig c)) (pool_limit c) 1 None c"
  by (simp add: execute_def pool_limit_def)

interpretation pool: rpc_executor
  "execute :: ('c option \<Rightarrow> nat \<Rightarrow> 'a settle) \<Rightarrow> jsnum option \<Rightarrow> (nat \<Rightarrow> 'c attempt_env) \<Rightarrow> 'c ResilientRpcClient
     \<Rightarrow> 'a outcome \<times> 'c ResilientRpcClient \<times> attempt_log list"
  pool_ready polite pool_limit
proof unfold_locales
  fix p p' :: "'c ResilientRpcClient" and e :: "nat \<Rightarrow> 'c attempt_env" and op :: "'c option \<Rightarrow> nat \<Rightarrow> 'a settle" and t a lg
    and to :: "jsnum option" and r :: "'a outcome"
  assume rd: "pool_ready p" and pol: "polite e"
  note ne = rd[unfolded pool_ready_def]
  show "lg \<noteq> [] \<and> attempt_ok op t (length lg) a" if "execute op (Some t) e p = (Inr a, p', lg)"
    using execute_loop_result[OF pol ne that[unfolded execute_unfold]] by simp
  show "length lg \<le> pool_limit p" if "execute op to e p = (r, p', lg)"
    using execute_loop_result[OF pol ne that[unfolded execute_unfold]] by (cases r) auto
  show "pool_ready p' \<and> pool_limit p' = pool_limit p" if "execute op to e p = (r, p', lg)"
  proof -
    have st: "rpc_step\<^sup>*\<^sup>* p p'" using execute_loop_steps[OF pol ne that[unfolded execute_unfold]] .
    show ?thesis using rpc_steps_length[OF st] rpc_steps_config[OF st] ne by (auto simp: pool_ready_def pool_limit_def)
  qed
qed

end
