(* ===== verification/Keeper_Types.thy ===== *)
theory Keeper_Types
  imports Js_Prelude
begin

section \<open>The keeper's shared types: \<^verbatim>\<open>apps/keeper/src/types.ts\<close>\<close>

text \<open>
  A \<^verbatim>\<open>number\<close> field is a \<open>jsnum\<close> and a \<^verbatim>\<open>bigint\<close> field an \<open>int\<close>.  \<^verbatim>\<open>sender\<close> and \<^verbatim>\<open>receiver\<close> are declared as strings
  but assigned from untyped JSON, so they are \<open>json\<close>.  The liquidation status is a number in the
  code, with the three constants below; so is the hedge direction.
\<close>

definition STATUS_HEALTHY :: jsnum where
  "STATUS_HEALTHY = Num 0"

definition STATUS_TWAP_ACTIVE :: jsnum where
  "STATUS_TWAP_ACTIVE = Num 1"

definition STATUS_FULLY_HEDGED :: jsnum where
  "STATUS_FULLY_HEDGED = Num 2"

lemmas status_defs = STATUS_HEALTHY_def STATUS_TWAP_ACTIVE_def STATUS_FULLY_HEDGED_def

record StreamState =
  streamId :: string
  sender :: json
  receiver :: json
  totalAmount :: int
  strikePrice :: int
  hedgeDirection :: jsnum
  startTime :: jsnum
  endTime :: jsnum
  twapTranches :: jsnum
  twapIntervalMs :: jsnum
  liquidationStatus :: jsnum
  tranchesExecuted :: jsnum
  lastTrancheTimestamp :: jsnum
  totalSuiAtHedgeStart :: int
  suiBalance :: int
  usdcBalance :: int

record KeeperMetrics =
  startedAt :: int
  activeStreams :: nat
  hedgesTriggered :: nat
  tranchesExecutedTotal :: nat
  fallbacksExecuted :: nat
  autoClaimsExecuted :: nat
  rpcErrors :: nat
  lastExecutionTimestamp :: int
  lastPriceUpdateTimestamp :: jsnum
  walletBalanceSui :: int
  metricPrice :: int

record QueueEntry =
  qStreamId :: string
  tranchesRemaining :: jsnum
  nextTrancheAt :: jsnum
  usdcAccumulated :: int
  suiRemaining :: int

end
