(* ===== verification/Keeper_Config.thy ===== *)
theory Keeper_Config
  imports Rpc_Client
begin

section \<open>The keeper's configuration: \<^verbatim>\<open>apps/keeper/src/config.ts\<close>\<close>

text \<open>
  \<^verbatim>\<open>loadConfig\<close> reads \<^verbatim>\<open>process.env\<close>, here a partial map from names to strings.  It throws at the first
  required variable that is missing or empty, in the order in which the code asks for them.
\<close>

record KeeperConfig =
  suiRpcUrl :: string
  rpcEndpoints :: "RpcEndpoint list"
  keeperRpcConfig :: RpcClientConfig
  keeperPrivateKey :: string
  peachPackageId :: string
  keeperCapObjectId :: string
  peachRegistryId :: string
  deepbookPoolId :: string
  pythHermesUrl :: string
  pythSuiUsdFeedId :: string
  pythPriceInfoObjectId :: string
  pythStateId :: string
  wormholeStateId :: string
  usdcType :: string
  pricePollIntervalMs :: jsnum
  minOutputGuardSlippageBps :: jsnum
  gasBudget :: jsnum
  lowBalanceAlertSui :: jsnum
  dashboardPort :: jsnum

type_synonym environ = "string \<Rightarrow> string option"

definition env_required :: "environ \<Rightarrow> string \<Rightarrow> string outcome" where
  "env_required env key =
     (case env key of
        None \<Rightarrow> Inl (mk_error (''Missing required env var: '' @ key))
      | Some v \<Rightarrow> if v = [] then Inl (mk_error (''Missing required env var: '' @ key)) else Inr v)"

definition env_optional :: "environ \<Rightarrow> string \<Rightarrow> string \<Rightarrow> string" where
  "env_optional env key fallback =
     (case env key of None \<Rightarrow> fallback | Some v \<Rightarrow> if v = [] then fallback else v)"

definition parse_endpoint_entry :: "string \<Rightarrow> RpcEndpoint" where
  "parse_endpoint_entry entry =
     (let parts = split_on (CHR ''|'') (trim entry)
      in \<lparr>rpcUrl = trim (hd parts),
          rpcWeight = (if length parts > 1 \<and> parts ! 1 \<noteq> [] then parse_int (parts ! 1) else Num 5)\<rparr>)"

definition parse_endpoints :: "string \<Rightarrow> string \<Rightarrow> RpcEndpoint list" where
  "parse_endpoints primaryRpc endpointsRaw =
     (if endpointsRaw \<noteq> [] then map parse_endpoint_entry (split_on (CHR '','') endpointsRaw)
      else [\<lparr>rpcUrl = primaryRpc, rpcWeight = Num 10\<rparr>,
            \<lparr>rpcUrl = ''https://fullnode.testnet.sui.io:443'', rpcWeight = Num 5\<rparr>])"

definition loadConfig :: "environ \<Rightarrow> KeeperConfig outcome" where
  "loadConfig env =
     e_bind (env_required env ''SUI_RPC_URL'') (\<lambda>primaryRpc.
     let eps = parse_endpoints primaryRpc (env_optional env ''SUI_RPC_ENDPOINTS'' []);
         rpc = \<lparr>cfgEndpoints = eps,
                requestTimeoutMs = parse_int (env_optional env ''RPC_REQUEST_TIMEOUT_MS'' ''30000''),
                maxRetries = parse_int (env_optional env ''RPC_MAX_RETRIES'' ''5''),
                baseRetryDelayMs = parse_int (env_optional env ''RPC_BASE_RETRY_DELAY_MS'' ''1000''),
                maxRetryDelayMs = parse_int (env_optional env ''RPC_MAX_RETRY_DELAY_MS'' ''30000''),
                healthCheckIntervalMs = parse_int (env_optional env ''RPC_HEALTH_CHECK_INTERVAL_MS'' ''60000'')\<rparr>
     in e_bind (env_required env ''KEEPER_PRIVATE_KEY'') (\<lambda>key.
        e_bind (env_required env ''PEACH_PACKAGE_ID'') (\<lambda>package.
        e_bind (env_required env ''KEEPER_CAP_OBJECT_ID'') (\<lambda>cap.
        e_bind (env_required env ''PEACH_REGISTRY_ID'') (\<lambda>registry.
        e_bind (env_required env ''DEEPBOOK_SUI_USDC_POOL_ID'') (\<lambda>pool.
        e_bind (env_required env ''PYTH_SUI_USD_FEED_ID'') (\<lambda>feed.
        e_bind (env_required env ''PYTH_PRICE_INFO_OBJECT_ID'') (\<lambda>priceInfo.
        e_bind (env_required env ''PYTH_STATE_ID'') (\<lambda>pythState.
        e_bind (env_required env ''WORMHOLE_STATE_ID'') (\<lambda>wormholeState.
        e_bind (env_required env ''USDC_TYPE'') (\<lambda>usdc.
        Inr \<lparr>suiRpcUrl = primaryRpc, rpcEndpoints = eps, keeperRpcConfig = rpc, keeperPrivateKey = key,
             peachPackageId = package, keeperCapObjectId = cap, peachRegistryId = registry,
             deepbookPoolId = pool,
             pythHermesUrl = env_optional env ''PYTH_HERMES_URL'' ''https://hermes.pyth.network'',
             pythSuiUsdFeedId = feed, pythPriceInfoObjectId = priceInfo, pythStateId = pythState,
             wormholeStateId = wormholeState, usdcType = usdc,
             pricePollIntervalMs = parse_int (env_optional env ''PRICE_POLL_INTERVAL_MS'' ''10000''),
             minOutputGuardSlippageBps = parse_int (env_optional env ''MIN_OUTPUT_GUARD_SLIPPAGE_BPS'' ''50''),
             gasBudget = parse_int (env_optional env ''GAS_BUDGET'' ''100000000''),
             lowBalanceAlertSui = parse_int (env_optional env ''LOW_BALANCE_ALERT_SUI'' ''1000000000''),
             dashboardPort = parse_int (env_optional env ''DASHBOARD_PORT''
                               (env_optional env ''PORT'' ''3001''))\<rparr>)))))))))))"

subsection \<open>The endpoint list\<close>

text \<open>The notation the code reads: addresses with a weight after a bar, separated by commas.\<close>

definition render_endpoint :: "string \<times> nat \<Rightarrow> string" where
  "render_endpoint e = fst e @ ''|'' @ show_nat (snd e)"

definition render_endpoints :: "(string \<times> nat) list \<Rightarrow> string" where
  "render_endpoints es = intercalate '','' (map render_endpoint es)"

definition plain_url :: "string \<Rightarrow> bool" where
  "plain_url u \<longleftrightarrow> u \<noteq> [] \<and> list_all (\<lambda>c. \<not> is_ws c \<and> c \<noteq> CHR '','' \<and> c \<noteq> CHR ''|'') u"

lemma split_on_no_sep: "c \<notin> set s \<Longrightarrow> split_on c s = [s]"
  by (induction s) auto

lemma split_on_append_sep: "c \<notin> set s \<Longrightarrow> split_on c (s @ c # t) = s # split_on c t"
  by (induction s) auto

lemma split_on_intercalate:
  "\<forall>x\<in>set xs. c \<notin> set x \<Longrightarrow> xs \<noteq> [] \<Longrightarrow> split_on c (intercalate [c] xs) = xs"
proof (induction "[c]" xs rule: intercalate.induct)
  case 1
  then show ?case by simp
next
  case (2 x)
  then show ?case by (simp add: split_on_no_sep)
next
  case (3 x y zs)
  then show ?case by (simp add: split_on_append_sep)
qed

lemma dropWhile_not_first: "xs \<noteq> [] \<Longrightarrow> \<not> P (hd xs) \<Longrightarrow> dropWhile P xs = xs"
  by (cases xs) auto

lemma trim_no_ws: "list_all (\<lambda>c. \<not> is_ws c) s \<Longrightarrow> trim s = s"
proof (cases "s = []")
  case True
  then show ?thesis by (simp add: trim_def)
next
  case False
  assume a: "list_all (\<lambda>c. \<not> is_ws c) s"
  then have "dropWhile is_ws s = s" "dropWhile is_ws (rev s) = rev s"
    using False by (auto intro!: dropWhile_not_first simp: list_all_iff hd_rev)
  then show ?thesis by (simp add: trim_def)
qed

lemma show_nat_chars: "c \<in> set (show_nat n) \<Longrightarrow> digit_val 10 c \<noteq> None"
  using show_nat_all_digits[of n] by (auto simp: all_digits_def list_all_iff)

lemma digit_not_sep: "digit_val 10 c \<noteq> None \<Longrightarrow> c \<noteq> CHR '','' \<and> c \<noteq> CHR ''|''"
  by (auto simp: digit_val_def hex_digits_def to_lower_def)

lemma parse_render_endpoint:
  assumes "plain_url u"
  shows "parse_endpoint_entry (render_endpoint (u, w)) = \<lparr>rpcUrl = u, rpcWeight = Num (dbl (int w))\<rparr>"
proof -
  have "list_all (\<lambda>c. \<not> is_ws c) (u @ CHR ''|'' # show_nat w)"
    using assms show_nat_chars[of _ w] digit_not_special
    by (auto simp: plain_url_def list_all_iff is_ws_def)
  then have t: "trim (u @ CHR ''|'' # show_nat w) = u @ CHR ''|'' # show_nat w" by (rule trim_no_ws)
  have u: "trim u = u" using assms by (intro trim_no_ws) (auto simp: plain_url_def list_all_iff)
  have "CHR ''|'' \<notin> set (show_nat w)" using show_nat_chars[of "CHR ''|''" w] digit_not_sep by blast
  moreover have "CHR ''|'' \<notin> set u" using assms by (auto simp: plain_url_def list_all_iff)
  ultimately have "split_on (CHR ''|'') (u @ CHR ''|'' # show_nat w) = [u, show_nat w]"
    by (simp add: split_on_append_sep split_on_no_sep)
  moreover have "show_nat w \<noteq> []" using show_nat_all_digits[of w] by (auto simp: all_digits_def)
  ultimately show ?thesis
    by (simp add: parse_endpoint_entry_def render_endpoint_def Let_def t u parse_int_show_nat)
qed

lemma render_endpoint_no_comma: "plain_url (fst e) \<Longrightarrow> CHR '','' \<notin> set (render_endpoint e)"
  using show_nat_chars[of "CHR '',''" "snd e"] digit_not_sep
  by (auto simp: render_endpoint_def plain_url_def list_all_iff)

text \<open>
  Reading the endpoint list gives back the addresses and the weights that were written in it, in
  order, when the notation is the one the code splits on: a bar before the weight, commas between.
\<close>

theorem endpoint_list_roundtrip:
  assumes "es \<noteq> []" and "\<forall>e \<in> set es. plain_url (fst e) \<and> int (snd e) \<le> max_safe"
  shows "parse_endpoints primary (render_endpoints es) =
     map (\<lambda>e. \<lparr>rpcUrl = fst e, rpcWeight = Num (int (snd e))\<rparr>) es"
proof -
  have nosep: "\<forall>x \<in> set (map render_endpoint es). CHR '','' \<notin> set x"
    using assms(2) render_endpoint_no_comma by simp
  have split: "split_on (CHR '','') (render_endpoints es) = map render_endpoint es"
    unfolding render_endpoints_def using nosep assms(1) by (intro split_on_intercalate) auto
  have "render_endpoints es \<noteq> []"
  proof
    assume e: "render_endpoints es = []"
    from split have "map render_endpoint es = [[]]" by (simp add: e)
    then show False by (auto simp: render_endpoint_def)
  qed
  moreover have "parse_endpoint_entry (render_endpoint e) = \<lparr>rpcUrl = fst e, rpcWeight = Num (int (snd e))\<rparr>"
    if "e \<in> set es" for e
    using parse_render_endpoint[of "fst e" "snd e"] assms(2) that by simp
  ultimately show ?thesis by (simp add: parse_endpoints_def split)
qed

theorem endpoint_list_roundtrip_witness:
  "parse_endpoints ''p'' (render_endpoints [(''https://a:443'', 10), (''https://b'', 8)]) =
     [\<lparr>rpcUrl = ''https://a:443'', rpcWeight = Num 10\<rparr>, \<lparr>rpcUrl = ''https://b'', rpcWeight = Num 8\<rparr>]"
  using endpoint_list_roundtrip[of "[(''https://a:443'', 10), (''https://b'', 8)]" "''p''"]
  by (simp add: plain_url_def is_ws_def max_safe_def)

subsection \<open>Required variables\<close>

definition required_keys :: "string list" where
  "required_keys = [''SUI_RPC_URL'', ''KEEPER_PRIVATE_KEY'', ''PEACH_PACKAGE_ID'', ''KEEPER_CAP_OBJECT_ID'',
     ''PEACH_REGISTRY_ID'', ''DEEPBOOK_SUI_USDC_POOL_ID'', ''PYTH_SUI_USD_FEED_ID'', ''PYTH_PRICE_INFO_OBJECT_ID'',
     ''PYTH_STATE_ID'', ''WORMHOLE_STATE_ID'', ''USDC_TYPE'']"

definition env_missing :: "environ \<Rightarrow> string \<Rightarrow> bool" where
  "env_missing env key \<longleftrightarrow> env key = None \<or> env key = Some []"

lemma env_required_cases:
  "env_required env key = (if env_missing env key then Inl (mk_error (''Missing required env var: '' @ key)) else Inr (the (env key)))"
  by (auto simp: env_required_def env_missing_def split: option.splits)

lemma env_present: "\<not> env_missing env key \<Longrightarrow> Some (the (env key)) = env key"
  by (auto simp: env_missing_def)

lemma parse_endpoints_nonempty: "parse_endpoints primary raw \<noteq> []"
  by (simp add: parse_endpoints_def)

text \<open>
  C40.  Loading the configuration fails exactly when a required variable is missing or empty, and the
  error names the first one that is, in the order of the code; otherwise the configuration holds
  the values of the environment.
\<close>

theorem loadConfig_spec:
  "case filter (env_missing env) required_keys of
     key # _ \<Rightarrow> loadConfig env = Inl (mk_error (''Missing required env var: '' @ key))
   | [] \<Rightarrow> (case loadConfig env of
        Inl _ \<Rightarrow> False
      | Inr cfg \<Rightarrow>
          map Some [suiRpcUrl cfg, keeperPrivateKey cfg, peachPackageId cfg, keeperCapObjectId cfg,
            peachRegistryId cfg, deepbookPoolId cfg, pythSuiUsdFeedId cfg, pythPriceInfoObjectId cfg,
            pythStateId cfg, wormholeStateId cfg, usdcType cfg] = map env required_keys
          \<and> rpcEndpoints cfg \<noteq> [] \<and> cfgEndpoints (keeperRpcConfig cfg) = rpcEndpoints cfg)"
  by (simp add: loadConfig_def env_required_cases required_keys_def Let_def parse_endpoints_nonempty
      env_present)

end
