(* ===== verification/Price_Monitor.thy ===== *)
theory Price_Monitor
  imports Keeper_Config Keeper_Types Buffers
begin

section \<open>The price monitor: \<^verbatim>\<open>apps/keeper/src/price-monitor.ts\<close>\<close>

text \<open>
  The latest price and update payload, how a Hermes response becomes a price with eight decimals,
  and which streams are in breach of their strike.  The HTTP client is a parameter: a
  function from the address to what \<^verbatim>\<open>fetch\<close> does.  The streams are objects of the indexer's store
  that other code holds references to, so a breach carries the reference, and \<open>deref\<close> reads the object.
\<close>

record PriceData =
  price :: int
  publishTime :: jsnum
  confidence :: int

datatype hedge_action = Initiate | ExecuteTranche

record 'r BreachDetection =
  breachStream :: 'r
  currentPrice :: int
  action :: hedge_action

record PriceMonitor =
  monitorConfig :: KeeperConfig
  latestPrice :: "PriceData option"
  latestVaaPayload :: "bytes list option"
  pollInterval :: bool

definition price_monitor_new :: "KeeperConfig \<Rightarrow> PriceMonitor" where
  "price_monitor_new config =
     \<lparr>monitorConfig = config, latestPrice = None, latestVaaPayload = None, pollInterval = False\<rparr>"

definition getLatestPrice :: "PriceMonitor \<Rightarrow> PriceData option" where
  "getLatestPrice m = latestPrice m"

definition getLatestVaaPayload :: "PriceMonitor \<Rightarrow> bytes list option" where
  "getLatestVaaPayload m = latestVaaPayload m"

definition monitor_stop :: "PriceMonitor \<Rightarrow> PriceMonitor" where
  "monitor_stop m = (if pollInterval m then m\<lparr>pollInterval := False\<rparr> else m)"

subsection \<open>Breaches\<close>

definition isInBreach :: "StreamState \<Rightarrow> int \<Rightarrow> bool" where
  "isInBreach stream p =
     (if num_eq (hedgeDirection stream) (Num 0) then p < strikePrice stream
      else if num_eq (hedgeDirection stream) (Num 1) then p > strikePrice stream
      else False)"

text \<open>One turn of the loop over the streams: the action for this stream, if any.\<close>

definition breach_action :: "int \<Rightarrow> int \<Rightarrow> StreamState \<Rightarrow> hedge_action option" where
  "breach_action now p stream =
     (if num_eq (hedgeDirection stream) (Num 2) \<or> strikePrice stream = 0 then None
      else (let inBreach = isInBreach stream p
            in if num_eq (liquidationStatus stream) STATUS_HEALTHY \<and> inBreach then Some Initiate
               else if num_eq (liquidationStatus stream) STATUS_TWAP_ACTIVE \<and> inBreach
               then (let nextTrancheAt = num_add (lastTrancheTimestamp stream) (twapIntervalMs stream)
                     in if num_le nextTrancheAt (Num now) \<and> num_lt (tranchesExecuted stream) (twapTranches stream)
                        then Some ExecuteTranche else None)
               else None))"

fun collect_breaches :: "int \<Rightarrow> int \<Rightarrow> ('r \<Rightarrow> StreamState) \<Rightarrow> 'r list \<Rightarrow> 'r BreachDetection list" where
  "collect_breaches now p deref [] = []"
| "collect_breaches now p deref (r # rs) =
     (case breach_action now p (deref r) of
        None \<Rightarrow> collect_breaches now p deref rs
      | Some a \<Rightarrow> \<lparr>breachStream = r, currentPrice = p, action = a\<rparr> # collect_breaches now p deref rs)"

definition detectBreaches ::
  "int \<Rightarrow> ('r \<Rightarrow> StreamState) \<Rightarrow> (string, 'r) js_map_t \<Rightarrow> PriceMonitor \<Rightarrow> 'r BreachDetection list" where
  "detectBreaches now deref streams m =
     (case latestPrice m of
        None \<Rightarrow> []
      | Some pd \<Rightarrow> collect_breaches now (price pd) deref (map_values streams))"

subsection \<open>Fetching\<close>

text \<open>
  \<^verbatim>\<open>fetch\<close> may reject; a response has a status and a body whose parsing may fail too.
\<close>

record http_response =
  respOk :: bool
  respBody :: "json outcome"

text \<open>
  \<^verbatim>\<open>BigInt(10 ** k)\<close> for an integer or \<^verbatim>\<open>NaN\<close> exponent \<open>k \<ge> 0\<close>: the power is a double, infinite above \<open>10 ^ 308\<close>,
  and \<^verbatim>\<open>BigInt\<close> rejects what is not an integer.
\<close>

fun big_pow10 :: "jsnum \<Rightarrow> int outcome" where
  "big_pow10 NaN = Inl (range_error ''The number NaN cannot be converted to a BigInt because it is not an integer'')"
| "big_pow10 (Num k) =
     (if k \<le> 308 then Inr (dbl (10 ^ nat k))
      else Inl (range_error ''The number Infinity cannot be converted to a BigInt because it is not an integer''))"

fun num_abs :: "jsnum \<Rightarrow> jsnum" where
  "num_abs NaN = NaN"
| "num_abs (Num n) = Num \<bar>n\<bar>"

definition normalize_price :: "int \<Rightarrow> jsnum \<Rightarrow> int outcome" where
  "normalize_price priceVal expo =
     (let targetDecimals = Num 8; sourceDecimals = num_abs expo
      in if num_le sourceDecimals targetDecimals
         then e_bind (big_pow10 (num_sub targetDecimals sourceDecimals)) (\<lambda>f. Inr (priceVal * f))
         else e_bind (big_pow10 (num_sub sourceDecimals targetDecimals)) (\<lambda>f. Inr (big_div priceVal f)))"

text \<open>
  \<^verbatim>\<open>Buffer.from(v, "hex")\<close> on what the JSON holds: the declared type is a string, an array or an
  array-like object gives its elements as bytes, anything else throws.
\<close>

definition byte_of_json :: "json \<Rightarrow> byte" where
  "byte_of_json v = (case to_number v of NaN \<Rightarrow> 0 | Num n \<Rightarrow> word_of_int n)"

fun buffer_from :: "json \<Rightarrow> bytes outcome" where
  "buffer_from (JStr s) = Inr (from_hex s)"
| "buffer_from (JArr xs) = Inr (map byte_of_json xs)"
| "buffer_from (JObj ps) =
     (case own_prop ''length'' (JObj ps) of
        JUndef \<Rightarrow>
          (case (own_prop ''type'' (JObj ps), own_prop ''data'' (JObj ps)) of
             (JStr t, JArr xs) \<Rightarrow>
               if t = ''Buffer'' then Inr (map byte_of_json xs)
               else Inl (type_error ''The first argument must be of type string'')
           | _ \<Rightarrow> Inl (type_error ''The first argument must be of type string''))
      | JNum n \<Rightarrow> Inr (map (\<lambda>i. byte_of_json (opt_index i (JObj ps))) [0..<nat n])
      | _ \<Rightarrow> Inr [])"
| "buffer_from _ = Inl (type_error ''The first argument must be of type string'')"

definition hermes_url :: "KeeperConfig \<Rightarrow> string" where
  "hermes_url config =
     pythHermesUrl config @ ''/v2/updates/price/latest?ids[]='' @ pythSuiUsdFeedId config @ ''&parsed=true''"

text \<open>The body of the \<^verbatim>\<open>try\<close> once the JSON is there.\<close>

definition keep_payload :: "json \<Rightarrow> (PriceMonitor, unit) stateful" where
  "keep_payload binaryData =
     (case binaryData of
        JArr xs \<Rightarrow>
          s_bind (s_lift (e_map buffer_from xs)) (\<lambda>bufs. s_modify (\<lambda>m. m\<lparr>latestVaaPayload := Some bufs\<rparr>))
      | _ \<Rightarrow> s_return ())"

definition keep_update :: "json \<Rightarrow> (PriceMonitor, unit) stateful" where
  "keep_update data =
     (let parsed = opt_index 0 (opt_prop ''parsed'' data); pr = opt_prop ''price'' parsed
      in if \<not> truthy pr then s_return ()
         else
           s_bind (s_lift (big_int (own_prop ''price'' pr))) (\<lambda>priceVal.
           let expo = to_number (own_prop ''expo'' pr) in
           s_bind (s_lift (big_int (own_prop ''conf'' pr))) (\<lambda>conf.
           s_bind (s_lift (normalize_price priceVal expo)) (\<lambda>normalizedPrice.
           s_bind (s_modify (\<lambda>m. m\<lparr>latestPrice :=
              Some \<lparr>price = normalizedPrice, publishTime = to_number (own_prop ''publish_time'' pr),
                    confidence = conf\<rparr>\<rparr>)) (\<lambda>_.
           keep_payload (opt_prop ''data'' (opt_prop ''binary'' data)))))))"

definition fetchPrice :: "(string \<Rightarrow> http_response outcome) \<Rightarrow> PriceMonitor \<Rightarrow> PriceMonitor" where
  "fetchPrice fetch m =
     snd (s_bind (s_lift (fetch (hermes_url (monitorConfig m)))) (\<lambda>response.
          if \<not> respOk response then s_return ()
          else s_bind (s_lift (respBody response)) keep_update) m)"

text \<open>\<^verbatim>\<open>start\<close> arms the interval and fetches at once; the fetch's continuation runs later, so it is the caller's next step.\<close>

definition monitor_start :: "PriceMonitor \<Rightarrow> PriceMonitor" where
  "monitor_start m = m\<lparr>pollInterval := True\<rparr>"

subsection \<open>What a breach is\<close>

text \<open>
  The contract of the stream: a floor is breached below its strike and a ceiling above it, a stream
  without a strike is not hedged.  A healthy stream in breach starts a hedge; an active one executes
  a tranche when the interval since the last one has passed and tranches are left.
\<close>

fun strike_crossed :: "int \<Rightarrow> StreamState \<Rightarrow> bool" where
  "strike_crossed p s \<longleftrightarrow>
     strikePrice s \<noteq> 0 \<and>
     ((hedgeDirection s = Num 0 \<and> p < strikePrice s) \<or> (hedgeDirection s = Num 1 \<and> strikePrice s < p))"

fun due :: "int \<Rightarrow> StreamState \<Rightarrow> hedge_action \<Rightarrow> bool" where
  "due now s Initiate \<longleftrightarrow> liquidationStatus s = Num 0"
| "due now s ExecuteTranche \<longleftrightarrow>
     liquidationStatus s = Num 1 \<and>
     (case (lastTrancheTimestamp s, twapIntervalMs s) of (Num l, Num i) \<Rightarrow> dbl (l + i) \<le> now | _ \<Rightarrow> False) \<and>
     (case (tranchesExecuted s, twapTranches s) of (Num e, Num t) \<Rightarrow> e < t | _ \<Rightarrow> False)"

declare strike_crossed.simps [simp del] and due.simps [simp del]

lemma isInBreach_iff: "strikePrice s \<noteq> 0 \<Longrightarrow> isInBreach s p \<longleftrightarrow> strike_crossed p s"
  by (auto simp: isInBreach_def strike_crossed.simps)

lemma due_tranche_iff:
  "due now s ExecuteTranche \<longleftrightarrow> liquidationStatus s = Num 1 \<and>
     num_le (num_add (lastTrancheTimestamp s) (twapIntervalMs s)) (Num now) \<and>
     num_lt (tranchesExecuted s) (twapTranches s)"
  by (auto simp: due.simps num_lt_iff num_le_iff split: jsnum.splits)

lemma breach_action_iff: "breach_action now p s = Some a \<longleftrightarrow> strike_crossed p s \<and> due now s a"
proof (cases "hedgeDirection s = Num 2 \<or> strikePrice s = 0")
  case True
  then show ?thesis by (auto simp: breach_action_def strike_crossed.simps)
next
  case False
  then have "isInBreach s p \<longleftrightarrow> strike_crossed p s" by (simp add: isInBreach_iff)
  with False show ?thesis
    by (cases a) (auto simp: breach_action_def Let_def status_defs due.simps(1) due_tranche_iff)
qed

lemma breach_actions:
  "filter (\<lambda>a. strike_crossed p s \<and> due now s a) [Initiate, ExecuteTranche] =
     (case breach_action now p s of None \<Rightarrow> [] | Some a \<Rightarrow> [a])"
proof (cases "breach_action now p s")
  case None
  then have "\<not> (strike_crossed p s \<and> due now s a)" for a
    using breach_action_iff[of now p s a] by simp
  with None show ?thesis by simp
next
  case (Some a)
  with breach_action_iff[of now p s] have d: "strike_crossed p s" "due now s a' \<longleftrightarrow> a' = a" for a'
    by (metis option.inject)+
  with Some show ?thesis by (cases a) simp_all
qed

lemma collect_breaches_filter:
  "collect_breaches now p deref rs =
     concat (map (\<lambda>r. map (\<lambda>a. \<lparr>breachStream = r, currentPrice = p, action = a\<rparr>)
        (filter (\<lambda>a. strike_crossed p (deref r) \<and> due now (deref r) a) [Initiate, ExecuteTranche])) rs)"
  unfolding breach_actions by (induction rs) (simp_all split: option.splits)

text \<open>
  C27.  Breach detection reports nothing without a price; with one it goes through the streams in
  their order and reports exactly those whose strike is crossed and for which an action is due, each
  with that action and the price it was judged by.
\<close>

theorem detectBreaches_spec:
  "detectBreaches now deref streams m =
     (case latestPrice m of
        None \<Rightarrow> []
      | Some pd \<Rightarrow>
          concat (map (\<lambda>r. map (\<lambda>a. \<lparr>breachStream = r, currentPrice = price pd, action = a\<rparr>)
            (filter (\<lambda>a. strike_crossed (price pd) (deref r) \<and> due now (deref r) a) [Initiate, ExecuteTranche]))
            (map_values streams)))"
  by (simp only: detectBreaches_def collect_breaches_filter)

subsection \<open>Normalisation to eight decimals\<close>

text \<open>The price a Hermes entry stands for, in units of \<open>10 ^ -8\<close>.\<close>

definition scaled_price :: "int \<Rightarrow> int \<Rightarrow> rat" where
  "scaled_price p e = of_int p * (if e \<ge> 0 then 10 ^ nat e else 1 / 10 ^ nat (- e)) * 10 ^ 8"

lemma pow10_safe: "k \<le> 15 \<Longrightarrow> dbl (10 ^ k) = 10 ^ k"
proof -
  assume "k \<le> 15"
  then have "(10::int) ^ k \<le> 10 ^ 15" by (intro power_increasing) auto
  then show ?thesis by (simp add: max_safe_def)
qed

lemma cancel_power: "a * b = (c :: rat) \<Longrightarrow> a \<noteq> 0 \<Longrightarrow> of_int p / a * c = of_int p * b"
  by auto

lemma big_div_bounds:
  assumes "0 < d"
  shows "\<bar>big_div n d\<bar> * d \<le> \<bar>n\<bar>" and "\<bar>n\<bar> < (\<bar>big_div n d\<bar> + 1) * d"
    and "big_div n d = 0 \<or> sgn (big_div n d) = sgn n"
proof -
  have a: "\<bar>big_div n d\<bar> = \<bar>n\<bar> div d"
    using assms by (cases "n = 0") (simp_all add: big_div_def abs_mult abs_sgn_eq pos_imp_zdiv_nonneg_iff)
  have e: "\<bar>n\<bar> = d * (\<bar>n\<bar> div d) + \<bar>n\<bar> mod d" by simp
  have m: "0 \<le> \<bar>n\<bar> mod d" "\<bar>n\<bar> mod d < d" using assms by simp_all
  show "\<bar>big_div n d\<bar> * d \<le> \<bar>n\<bar>" unfolding a using e m by (metis add.commute le_add_same_cancel2 mult.commute)
  show "\<bar>n\<bar> < (\<bar>big_div n d\<bar> + 1) * d"
  proof -
    have "\<bar>n\<bar> < d * (\<bar>n\<bar> div d) + d" using e m by linarith
    then show ?thesis by (simp add: a algebra_simps)
  qed
  have "0 \<le> \<bar>n\<bar> div d" using assms by (simp add: pos_imp_zdiv_nonneg_iff)
  then show "big_div n d = 0 \<or> sgn (big_div n d) = sgn n"
    using assms by (cases "\<bar>n\<bar> div d = 0") (simp_all add: big_div_def sgn_mult)
qed

text \<open>
  C36.  For the exponents Hermes sends (negative, here down to \<open>-23\<close>, so that every power of ten the code
  forms is a safe integer) normalisation succeeds.  With up to eight source decimals the result is
  exact; with more it is the exact value cut off towards zero, less than one unit away.
\<close>

theorem normalize_price_accurate:
  assumes "-23 \<le> e" and "e \<le> 0"
  shows "\<exists>v. normalize_price p (Num e) = Inr v
     \<and> (-8 \<le> e \<longrightarrow> of_int v = scaled_price p e)
     \<and> \<bar>of_int v\<bar> \<le> \<bar>scaled_price p e\<bar> \<and> \<bar>of_int v - scaled_price p e\<bar> < 1"
proof (cases "-8 \<le> e")
  case True
  define k where "k = nat (8 + e)"
  have "normalize_price p (Num e) = Inr (p * 10 ^ k)"
    using assms True by (simp add: normalize_price_def Let_def max_safe_def pow10_safe k_def)
  moreover have "scaled_price p e = of_int (p * 10 ^ k)"
  proof -
    have "(10::rat) ^ 8 = 10 ^ nat (- e) * 10 ^ k"
      unfolding power_add[symmetric] k_def using assms True by (intro arg_cong[where f = "power 10"]) linarith
    from cancel_power[OF this[symmetric], of p]
    have "of_int p / 10 ^ nat (- e) * (10::rat) ^ 8 = of_int (p * 10 ^ k)" by simp
    then show ?thesis using assms by (cases "e = 0") (simp_all add: scaled_price_def)
  qed
  ultimately show ?thesis by simp
next
  case False
  define k where "k = nat (- e - 8)"
  define v where "v = big_div p (10 ^ k)"
  have k: "k \<le> 15" using assms by (simp add: k_def)
  have n: "normalize_price p (Num e) = Inr v"
    using assms False k by (simp add: normalize_price_def Let_def max_safe_def pow10_safe k_def v_def)
  have "(10::rat) ^ nat (- e) = 10 ^ k * 10 ^ 8"
    unfolding power_add[symmetric] k_def using False by (intro arg_cong[where f = "power 10"]) linarith
  then have s: "scaled_price p e = of_int p / 10 ^ k" using False by (simp add: scaled_price_def)
  have pos: "(0::int) < 10 ^ k" by simp
  note b = big_div_bounds[OF pos, of p, folded v_def]
  have lo: "\<bar>of_int v\<bar> \<le> \<bar>scaled_price p e\<bar>"
  proof -
    have "of_int (\<bar>v\<bar> * 10 ^ k) \<le> (of_int \<bar>p\<bar> :: rat)" using b(1) by (simp only: of_int_le_iff)
    then show ?thesis by (simp add: s abs_divide le_divide_eq)
  qed
  have hi: "\<bar>scaled_price p e\<bar> < \<bar>of_int v\<bar> + 1"
  proof -
    have "(of_int \<bar>p\<bar> :: rat) < of_int ((\<bar>v\<bar> + 1) * 10 ^ k)" using b(2) by (simp only: of_int_less_iff)
    then show ?thesis by (simp add: s abs_divide divide_less_eq)
  qed
  have sg: "v = 0 \<or> (0 < v \<and> 0 \<le> p) \<or> (v < 0 \<and> p \<le> 0)"
    using b(3) by (auto simp: sgn_if split: if_splits)
  then have "v = 0 \<or> (0 < v \<and> 0 \<le> scaled_price p e) \<or> (v < 0 \<and> scaled_price p e \<le> 0)"
    by (auto simp: s divide_le_0_iff zero_le_divide_iff)
  then have "\<bar>of_int v - scaled_price p e\<bar> < 1" using lo hi by auto
  with n lo False show ?thesis by blast
qed

theorem normalize_price_accurate_witness:
  "\<exists>v. normalize_price 34567890123 (Num (- 10)) = Inr v \<and> \<bar>of_int v - scaled_price 34567890123 (- 10)\<bar> < 1"
  using normalize_price_accurate[of "- 10" 34567890123] by auto

text \<open>
  The code scales by the absolute value of the exponent, so a positive exponent is treated as
  its negative: the result is the price divided where it should be multiplied.  With exponent 2 the
  normalised price is ten thousand times too small.
\<close>

theorem normalize_price_ignores_sign:
  "normalize_price p (Num (- e)) = normalize_price p (Num e)
   \<and> normalize_price 5 (Num 2) = Inr 5000000 \<and> scaled_price 5 2 = 10000 * 5000000"
  by (simp add: normalize_price_def scaled_price_def Let_def max_safe_def)

subsection \<open>What a fetch stores\<close>

text \<open>The JSON Hermes answers with for one feed: numbers that may be large are decimal strings.\<close>

definition hermes_body :: "int \<Rightarrow> int \<Rightarrow> int \<Rightarrow> int \<Rightarrow> bytes list \<Rightarrow> json" where
  "hermes_body p conf e t bufs =
     JObj [(''binary'', JObj [(''encoding'', JStr ''hex''), (''data'', JArr (map (\<lambda>b. JStr (to_hex b)) bufs))]),
           (''parsed'', JArr [JObj [(''price'', JObj [(''price'', JStr (show_int p)), (''conf'', JStr (show_int conf)),
                                                 (''expo'', JNum e), (''publish_time'', JNum t)])]])]"

lemma fetch_stores:
  assumes "fetch (hermes_url (monitorConfig m)) = Inr \<lparr>respOk = True, respBody = Inr (hermes_body p conf e t bufs)\<rparr>"
    and "normalize_price p (Num e) = Inr v"
  shows "fetchPrice fetch m =
     m\<lparr>latestPrice := Some \<lparr>price = v, publishTime = Num t, confidence = conf\<rparr>, latestVaaPayload := Some bufs\<rparr>"
proof -
  have "e_map buffer_from (map (\<lambda>b. JStr (to_hex b)) bufs) = Inr bufs"
    by (rule e_map_Inr) simp
  with assms show ?thesis
    by (simp add: fetchPrice_def keep_update_def keep_payload_def hermes_body_def opt_prop_def s_modify_def Let_def
        del: big_int.simps)
qed

text \<open>
  A good answer is stored whole: the price it carries, normalised, with its confidence and
  time, and the update payload byte for byte.
\<close>

theorem fetchPrice_stores:
  assumes "fetch (hermes_url (monitorConfig m)) = Inr \<lparr>respOk = True, respBody = Inr (hermes_body p conf e t bufs)\<rparr>"
    and "normalize_price p (Num e) = Inr v"
  shows "fetchPrice fetch m =
     m\<lparr>latestPrice := Some \<lparr>price = v, publishTime = Num t, confidence = conf\<rparr>, latestVaaPayload := Some bufs\<rparr>"
  using assms by (rule fetch_stores)

definition demo_keeper_config :: KeeperConfig where
  "demo_keeper_config =
     \<lparr>suiRpcUrl = ''https://rpc'', rpcEndpoints = [], keeperRpcConfig = demo_config, keeperPrivateKey = ''00'',
      peachPackageId = ''0xpeach'', keeperCapObjectId = ''0xcap'', peachRegistryId = ''0xreg'', deepbookPoolId = ''0xpool'',
      pythHermesUrl = ''https://hermes'', pythSuiUsdFeedId = ''0xfeed'', pythPriceInfoObjectId = ''0xinfo'',
      pythStateId = ''0xpyth'', wormholeStateId = ''0xworm'', usdcType = ''0xusdc'', pricePollIntervalMs = Num 10000,
      minOutputGuardSlippageBps = Num 50, gasBudget = Num 100000000, lowBalanceAlertSui = Num 1000000000,
      dashboardPort = Num 3001\<rparr>"

definition demo_monitor :: PriceMonitor where
  "demo_monitor = price_monitor_new demo_keeper_config"

theorem fetchPrice_stores_witness:
  "latestPrice (fetchPrice (\<lambda>_. Inr \<lparr>respOk = True, respBody = Inr (hermes_body 350000000 90000 (- 8) 1700000000 [[1, 255]])\<rparr>) demo_monitor)
     = Some \<lparr>price = 350000000, publishTime = Num 1700000000, confidence = 90000\<rparr>"
  using fetchPrice_stores[of "\<lambda>_. Inr \<lparr>respOk = True, respBody = Inr (hermes_body 350000000 90000 (- 8) 1700000000 [[1, 255]])\<rparr>"
      demo_monitor 350000000 90000 "- 8" 1700000000 "[[1, 255]]" 350000000]
  by (simp add: normalize_price_def Let_def max_safe_def)

lemma keep_payload_cases:
  "snd (keep_payload d m) = m \<or> (\<exists>bufs. snd (keep_payload d m) = m\<lparr>latestVaaPayload := Some bufs\<rparr>)"
  by (cases d; cases "case d of JArr xs \<Rightarrow> e_map buffer_from xs | _ \<Rightarrow> Inr []")
    (auto simp: keep_payload_def s_return_def s_modify_def)

lemma keep_update_cases:
  defines "pr data \<equiv> opt_prop ''price'' (opt_index 0 (opt_prop ''parsed'' data))"
  shows "snd (keep_update data m) = m \<or>
    (truthy (pr data) \<and> (\<exists>pd. snd (keep_update data m) = m\<lparr>latestPrice := Some pd\<rparr> \<or>
       (\<exists>bufs. snd (keep_update data m) = m\<lparr>latestPrice := Some pd, latestVaaPayload := Some bufs\<rparr>)))"
proof -
  let ?price = "big_int (own_prop ''price'' (pr data))" and ?conf = "big_int (own_prop ''conf'' (pr data))"
  let ?norm = "\<lambda>pv. normalize_price pv (to_number (own_prop ''expo'' (pr data)))"
  show ?thesis
  proof (cases "truthy (pr data) \<and> (\<exists>pv c v. ?price = Inr pv \<and> ?conf = Inr c \<and> ?norm pv = Inr v)")
    case True
    then obtain pv c v where v: "?price = Inr pv" "?conf = Inr c" "?norm pv = Inr v" by blast
    define pd where "pd = \<lparr>price = v, publishTime = to_number (own_prop ''publish_time'' (pr data)), confidence = c\<rparr>"
    define d where "d = opt_prop ''data'' (opt_prop ''binary'' data)"
    have "snd (keep_update data m) = snd (keep_payload d (m\<lparr>latestPrice := Some pd\<rparr>))"
      using True v unfolding keep_update_def Let_def pr_def[symmetric] d_def pd_def by simp
    with keep_payload_cases[of d "m\<lparr>latestPrice := Some pd\<rparr>"] True show ?thesis by metis
  next
    case False
    then have "snd (keep_update data m) = m"
      unfolding keep_update_def Let_def pr_def[symmetric]
      by (cases ?price; cases ?conf; cases "?norm (projr ?price)") (auto simp: s_return_def)
    then show ?thesis by simp
  qed
qed

text \<open>
  A fetch never loses what is stored: a request that fails, a response that is not OK and a
  body without a usable price leave the monitor as it was.  When the price is replaced, the payload
  is either replaced from the same answer or kept, and nothing else of the monitor changes.
\<close>

theorem fetchPrice_keeps:
  "fetchPrice fetch m = m \<or>
   (\<exists>resp data pd. fetch (hermes_url (monitorConfig m)) = Inr resp \<and> respOk resp \<and> respBody resp = Inr data
      \<and> truthy (opt_prop ''price'' (opt_index 0 (opt_prop ''parsed'' data)))
      \<and> (fetchPrice fetch m = m\<lparr>latestPrice := Some pd\<rparr> \<or>
         (\<exists>bufs. fetchPrice fetch m = m\<lparr>latestPrice := Some pd, latestVaaPayload := Some bufs\<rparr>)))"
proof (cases "fetch (hermes_url (monitorConfig m))")
  case (Inl e)
  then show ?thesis by (simp add: fetchPrice_def)
next
  case (Inr resp)
  show ?thesis
  proof (cases "\<exists>data. respOk resp \<and> respBody resp = Inr data")
    case False
    then show ?thesis using Inr by (cases "respBody resp") (auto simp: fetchPrice_def s_return_def)
  next
    case True
    then obtain data where d: "respOk resp" "respBody resp = Inr data" by blast
    with Inr have f: "fetchPrice fetch m = snd (keep_update data m)" by (simp add: fetchPrice_def)
    from keep_update_cases[of data m] Inr d show ?thesis unfolding f by blast
  qed
qed

end
