(* ===== verification/Indexer.thy ===== *)
theory Indexer
  imports Price_Monitor
begin

section \<open>The stream registry: \<^verbatim>\<open>apps/keeper/src/indexer.ts\<close>\<close>

text \<open>
  The map of monitored streams, its file on disk and the refresh from the chain.

  Other parts of the keeper hold \<^verbatim>\<open>StreamState\<close> objects across an \<^verbatim>\<open>await\<close> while the indexer writes to
  them, so the objects live in an explicit store: \<open>streams\<close> maps an identifier to a reference, and a
  reference is an index of \<open>store\<close>.  Objects are never freed; an object that left the map can still be held.

  The Sui client is third-party code.  Its answers are parameters, with the types its interface
  declares (\<open>object_response\<close>, \<open>event_page\<close>) and JSON where the code casts to \<^verbatim>\<open>any\<close>; a request may reject.  What other tasks do
  to the indexer while a request is pending is a parameter too.
\<close>

datatype registry_file =
    Absent
  | Unreadable
  | NotArray
  | Ids "string list"

record EventIndexer =
  idxConfig :: KeeperConfig
  streams :: "(string, nat) js_map_t"
  store :: "StreamState list"
  registryFile :: registry_file

definition indexer_new :: "KeeperConfig \<Rightarrow> registry_file \<Rightarrow> EventIndexer" where
  "indexer_new config file = \<lparr>idxConfig = config, streams = [], store = [], registryFile = file\<rparr>"

definition emptyStreamState :: "string \<Rightarrow> StreamState" where
  "emptyStreamState sid =
     \<lparr>streamId = sid, sender = JStr [], receiver = JStr [], totalAmount = 0, strikePrice = 0,
      hedgeDirection = Num 0, startTime = Num 0, endTime = Num 0, twapTranches = Num 5,
      twapIntervalMs = Num 720000, liquidationStatus = STATUS_HEALTHY, tranchesExecuted = Num 0,
      lastTrancheTimestamp = Num 0, totalSuiAtHedgeStart = 0, suiBalance = 0, usdcBalance = 0\<rparr>"

text \<open>\<^verbatim>\<open>this.streams.set(id, this.emptyStreamState(id))\<close> allocates the object.\<close>

definition add_placeholder :: "string \<Rightarrow> EventIndexer \<Rightarrow> EventIndexer" where
  "add_placeholder sid x =
     x\<lparr>streams := map_set sid (length (store x)) (streams x), store := store x @ [emptyStreamState sid]\<rparr>"

definition add_missing :: "string list \<Rightarrow> EventIndexer \<Rightarrow> EventIndexer" where
  "add_missing ids x = fold (\<lambda>sid x. if \<not> map_has (streams x) sid then add_placeholder sid x else x) ids x"

subsection \<open>Queries and local updates\<close>

definition stream_objects :: "EventIndexer \<Rightarrow> nat list" where
  "stream_objects x = map_values (streams x)"

definition object_at :: "EventIndexer \<Rightarrow> nat \<Rightarrow> StreamState" where
  "object_at x r = store x ! r"

definition getHealthyStreams :: "EventIndexer \<Rightarrow> nat list" where
  "getHealthyStreams x =
     filter (\<lambda>r. num_eq (liquidationStatus (object_at x r)) STATUS_HEALTHY) (stream_objects x)"

definition getTWAPActiveStreams :: "EventIndexer \<Rightarrow> nat list" where
  "getTWAPActiveStreams x =
     filter (\<lambda>r. num_eq (liquidationStatus (object_at x r)) STATUS_TWAP_ACTIVE) (stream_objects x)"

definition getMaturedStreams :: "int \<Rightarrow> EventIndexer \<Rightarrow> nat list" where
  "getMaturedStreams now x =
     filter (\<lambda>r. num_le (endTime (object_at x r)) (Num now) \<and>
               (suiBalance (object_at x r) > 0 \<or> usdcBalance (object_at x r) > 0)) (stream_objects x)"

definition write_object :: "nat \<Rightarrow> StreamState \<Rightarrow> EventIndexer \<Rightarrow> EventIndexer" where
  "write_object r s x = x\<lparr>store := (store x)[r := s]\<rparr>"

text \<open>\<^verbatim>\<open>Object.assign(stream, updates)\<close>: \<open>updates\<close> maps the old object to the new.\<close>

definition updateStreamState :: "string \<Rightarrow> (StreamState \<Rightarrow> StreamState) \<Rightarrow> EventIndexer \<Rightarrow> EventIndexer" where
  "updateStreamState sid updates x =
     (case map_get (streams x) sid of
        None \<Rightarrow> x
      | Some r \<Rightarrow> write_object r (updates (object_at x r)) x)"

subsection \<open>The registry file\<close>

fun loadRegistry :: "registry_file \<Rightarrow> string list" where
  "loadRegistry Absent = []"
| "loadRegistry Unreadable = []"
| "loadRegistry NotArray = []"
| "loadRegistry (Ids ids) = ids"

text \<open>A write that fails is logged and leaves the file as it was.\<close>

definition persistRegistry :: "bool \<Rightarrow> EventIndexer \<Rightarrow> EventIndexer" where
  "persistRegistry diskOk x = (if diskOk then x\<lparr>registryFile := Ids (map_keys (streams x))\<rparr> else x)"

definition removeStream :: "bool \<Rightarrow> string \<Rightarrow> EventIndexer \<Rightarrow> EventIndexer" where
  "removeStream diskOk sid x = persistRegistry diskOk (x\<lparr>streams := map_delete sid (streams x)\<rparr>)"

subsection \<open>Refreshing from the chain\<close>

record object_content =
  dataType :: string
  moveFields :: json

record object_data =
  objectId :: string
  content :: "object_content option"

record object_response =
  objData :: "object_data option"

definition field_big :: "string \<Rightarrow> json \<Rightarrow> int outcome" where
  "field_big k fs = big_int (js_or (own_prop k fs) (JNum 0))"

definition field_num :: "string \<Rightarrow> int \<Rightarrow> json \<Rightarrow> jsnum" where
  "field_num k d fs = to_number (js_or (own_prop k fs) (JNum d))"

text \<open>The writes to one object, in order; a \<^verbatim>\<open>BigInt\<close> that throws leaves the earlier writes in place.\<close>

definition hydrate :: "json \<Rightarrow> (StreamState, unit) stateful" where
  "hydrate fs =
     s_bind (s_modify (\<lambda>s. s\<lparr>sender := js_or (own_prop ''sender'' fs) (sender s)\<rparr>)) (\<lambda>_.
     s_bind (s_modify (\<lambda>s. s\<lparr>receiver := js_or (own_prop ''receiver'' fs) (receiver s)\<rparr>)) (\<lambda>_.
     s_bind (s_lift (field_big ''total_amount'' fs)) (\<lambda>v. s_bind (s_modify (\<lambda>s. s\<lparr>totalAmount := v\<rparr>)) (\<lambda>_.
     s_bind (s_lift (field_big ''strike_price'' fs)) (\<lambda>v. s_bind (s_modify (\<lambda>s. s\<lparr>strikePrice := v\<rparr>)) (\<lambda>_.
     s_bind (s_modify (\<lambda>s. s\<lparr>hedgeDirection := field_num ''hedge_direction'' 0 fs\<rparr>)) (\<lambda>_.
     s_bind (s_modify (\<lambda>s. s\<lparr>startTime := field_num ''start_time'' 0 fs\<rparr>)) (\<lambda>_.
     s_bind (s_modify (\<lambda>s. s\<lparr>endTime := field_num ''end_time'' 0 fs\<rparr>)) (\<lambda>_.
     s_bind (s_modify (\<lambda>s. s\<lparr>liquidationStatus := field_num ''liquidation_status'' 0 fs\<rparr>)) (\<lambda>_.
     s_bind (s_modify (\<lambda>s. s\<lparr>tranchesExecuted := field_num ''tranches_executed'' 0 fs\<rparr>)) (\<lambda>_.
     s_bind (s_modify (\<lambda>s. s\<lparr>lastTrancheTimestamp := field_num ''last_tranche_timestamp'' 0 fs\<rparr>)) (\<lambda>_.
     s_bind (s_modify (\<lambda>s. s\<lparr>twapTranches := field_num ''twap_tranches'' 5 fs\<rparr>)) (\<lambda>_.
     s_bind (s_modify (\<lambda>s. s\<lparr>twapIntervalMs := field_num ''twap_interval_ms'' 720000 fs\<rparr>)) (\<lambda>_.
     s_bind (s_lift (field_big ''total_sui_at_hedge_start'' fs)) (\<lambda>v. s_bind (s_modify (\<lambda>s. s\<lparr>totalSuiAtHedgeStart := v\<rparr>)) (\<lambda>_.
     s_bind (s_lift (field_big ''balance'' fs)) (\<lambda>v. s_bind (s_modify (\<lambda>s. s\<lparr>suiBalance := v\<rparr>)) (\<lambda>_.
     s_bind (s_lift (field_big ''usdc_balance'' fs)) (\<lambda>v. s_modify (\<lambda>s. s\<lparr>usdcBalance := v\<rparr>))))))))))))))))))))"

definition refresh_object :: "object_response \<Rightarrow> (EventIndexer, unit) stateful" where
  "refresh_object obj x =
     (case objData obj of
        None \<Rightarrow> (Inr (), x)
      | Some d \<Rightarrow>
          if objectId d = [] then (Inr (), x)
          else
            (case content d of
               None \<Rightarrow> (Inr (), x\<lparr>streams := map_delete (objectId d) (streams x)\<rparr>)
             | Some ct \<Rightarrow>
                 if dataType ct \<noteq> ''moveObject'' then (Inr (), x\<lparr>streams := map_delete (objectId d) (streams x)\<rparr>)
                 else if \<not> truthy (moveFields ct) then (Inr (), x)
                 else
                   (case map_get (streams x) (objectId d) of
                      None \<Rightarrow> (Inr (), x)
                    | Some r \<Rightarrow>
                        (case hydrate (moveFields ct) (object_at x r) of
                           (Inl e, s) \<Rightarrow> (Inl e, write_object r s x)
                         | (Inr _, s) \<Rightarrow>
                             (let x' = write_object r s x
                              in (Inr (), if suiBalance s = 0 \<and> usdcBalance s = 0
                                          then x'\<lparr>streams := map_delete (objectId d) (streams x')\<rparr> else x'))))))"

text \<open>What runs when the answer of \<^verbatim>\<open>multiGetObjects\<close> is there; errors are caught and logged.\<close>

definition apply_batch :: "object_response list outcome \<Rightarrow> EventIndexer \<Rightarrow> EventIndexer" where
  "apply_batch answer x = (case answer of Inl _ \<Rightarrow> x | Inr objs \<Rightarrow> snd (s_for refresh_object objs x))"

record event_page =
  pageStreamIds :: "string option list"
  hasNextPage :: bool
  nextCursor :: json

record idx_env =
  queryEvents :: "nat \<Rightarrow> json \<Rightarrow> event_page outcome"
  multiGetObjects :: "string list \<Rightarrow> object_response list outcome"
  duringEvents :: "EventIndexer \<Rightarrow> EventIndexer"
  duringBatch :: "nat \<Rightarrow> EventIndexer \<Rightarrow> EventIndexer"
  diskOk :: bool

definition refreshStreamsBatch :: "idx_env \<Rightarrow> nat \<Rightarrow> string list \<Rightarrow> EventIndexer \<Rightarrow> EventIndexer" where
  "refreshStreamsBatch env k ids x =
     (if ids = [] then x else apply_batch (multiGetObjects env ids) (duringBatch env k x))"

text \<open>
  Paging through the creation events.  \<open>queryEvents k cursor\<close> is the answer to the \<open>k\<close>-th request; a page lists the
  \<^verbatim>\<open>stream_id\<close> of each event that has one.  The loop ends when a page says so or a request fails;
  nothing else bounds it, so its result is an option.
\<close>

definition add_page :: "event_page \<Rightarrow> string list \<Rightarrow> string list" where
  "add_page page acc =
     fold (\<lambda>o' acc. case o' of None \<Rightarrow> acc | Some sid \<Rightarrow> if sid = [] then acc else set_add sid acc)
       (pageStreamIds page) acc"

partial_function (option) discover_loop ::
  "(nat \<Rightarrow> json \<Rightarrow> event_page outcome) \<Rightarrow> nat \<Rightarrow> json \<Rightarrow> string list \<Rightarrow> string list option" where
  "discover_loop query k cursor acc =
     (case query k cursor of
        Inl e \<Rightarrow> Some acc
      | Inr page \<Rightarrow>
          if hasNextPage page then discover_loop query (Suc k) (nextCursor page) (add_page page acc)
          else Some (add_page page acc))"

definition discoverStreamsFromEvents :: "(nat \<Rightarrow> json \<Rightarrow> event_page outcome) \<Rightarrow> string list option" where
  "discoverStreamsFromEvents query = discover_loop query 0 JNull []"

text \<open>\<^verbatim>\<open>slice(i, i + 50)\<close> for \<open>i = 0, 50, ...\<close>\<close>

fun chunks :: "nat \<Rightarrow> 'a list \<Rightarrow> 'a list list" where
  "chunks n xs = (if xs = [] \<or> n = 0 then [] else take n xs # chunks n (drop n xs))"

declare chunks.simps [simp del]

fun refresh_chunks :: "idx_env \<Rightarrow> nat \<Rightarrow> string list list \<Rightarrow> EventIndexer \<Rightarrow> EventIndexer" where
  "refresh_chunks env k [] x = x"
| "refresh_chunks env k (c # cs) x = refresh_chunks env (Suc k) cs (refreshStreamsBatch env k c x)"

definition refreshAll :: "idx_env \<Rightarrow> EventIndexer \<Rightarrow> EventIndexer option" where
  "refreshAll env x =
     (case discoverStreamsFromEvents (queryEvents env) of
        None \<Rightarrow> None
      | Some eventIds \<Rightarrow>
          (let x1 = add_missing eventIds (duringEvents env x);
               allIds = map_keys (streams x1)
           in Some (persistRegistry (diskOk env) (refresh_chunks env 0 (chunks 50 allIds) x1))))"

definition indexer_start :: "idx_env \<Rightarrow> idx_env \<Rightarrow> EventIndexer \<Rightarrow> EventIndexer option" where
  "indexer_start env0 env x =
     (let x1 = add_missing (loadRegistry (registryFile x)) x
      in case discoverStreamsFromEvents (queryEvents env0) of
           None \<Rightarrow> None
         | Some eventIds \<Rightarrow> refreshAll env (add_missing eventIds (duringEvents env0 x1)))"

definition registerStream :: "idx_env \<Rightarrow> string \<Rightarrow> EventIndexer \<Rightarrow> bool \<times> EventIndexer" where
  "registerStream env sid x =
     (if map_has (streams x) sid then (True, x)
      else (let x1 = persistRegistry (diskOk env) (add_placeholder sid x);
                x2 = refreshStreamsBatch env 0 [sid] x1
            in if \<not> map_has (streams x2) sid then (False, persistRegistry (diskOk env) x2) else (True, x2)))"

subsection \<open>The invariant of the registry\<close>

text \<open>
  Every identifier occurs once, refers to an object of the store that carries this identifier, and no two
  identifiers share an object.
\<close>

definition idx_inv :: "EventIndexer \<Rightarrow> bool" where
  "idx_inv x \<longleftrightarrow>
     map_wf (streams x)
     \<and> (\<forall>sid r. map_get (streams x) sid = Some r \<longrightarrow> r < length (store x) \<and> streamId (store x ! r) = sid)"

lemma idx_invI:
  assumes "map_wf (streams x)"
    and "\<And>sid r. map_get (streams x) sid = Some r \<Longrightarrow> r < length (store x) \<and> streamId (store x ! r) = sid"
  shows "idx_inv x"
  using assms by (simp add: idx_inv_def)

lemma idx_invD:
  assumes "idx_inv x" and "map_get (streams x) sid = Some r"
  shows "r < length (store x)" "streamId (store x ! r) = sid"
  using assms by (auto simp: idx_inv_def)

lemma idx_inv_wf: "idx_inv x \<Longrightarrow> map_wf (streams x)"
  by (simp add: idx_inv_def)

lemma idx_inv_unshared:
  assumes "idx_inv x" and "map_get (streams x) a = Some r" and "map_get (streams x) b = Some r"
  shows "a = b"
  using idx_invD(2)[OF assms(1,2)] idx_invD(2)[OF assms(1,3)] by simp

lemma idx_inv_new: "idx_inv (indexer_new config file)"
  by (simp add: idx_inv_def indexer_new_def map_wf_def)

lemma idx_inv_add_placeholder: "idx_inv x \<Longrightarrow> idx_inv (add_placeholder sid x)"
  by (rule idx_invI)
    (auto simp: add_placeholder_def nth_append emptyStreamState_def js_alist.wf_put idx_inv_wf
      dest: idx_invD split: if_splits)

lemma idx_inv_delete: "idx_inv x \<Longrightarrow> idx_inv (x\<lparr>streams := map_delete sid (streams x)\<rparr>)"
  by (rule idx_invI) (auto simp: js_alist.wf_del idx_inv_wf dest: idx_invD split: if_splits)

lemma streamId_list_update:
  "streamId s = streamId (xs ! r) \<Longrightarrow> r' < length xs \<Longrightarrow> streamId (xs[r := s] ! r') = streamId (xs ! r')"
  by (cases "r' = r") simp_all

lemma idx_inv_write:
  "idx_inv x \<Longrightarrow> streamId s = streamId (store x ! r) \<Longrightarrow> idx_inv (write_object r s x)"
  by (rule idx_invI) (auto simp: write_object_def idx_inv_wf streamId_list_update idx_invD)

lemma idx_inv_persist: "idx_inv x \<Longrightarrow> idx_inv (persistRegistry ok x)"
  by (simp add: persistRegistry_def idx_inv_def)

lemma idx_inv_add_missing: "idx_inv x \<Longrightarrow> idx_inv (add_missing ids x)"
  unfolding add_missing_def by (induction ids arbitrary: x) (auto intro: idx_inv_add_placeholder)

lemma idx_inv_update:
  "idx_inv x \<Longrightarrow> (\<And>s. streamId (f s) = streamId s) \<Longrightarrow> idx_inv (updateStreamState sid f x)"
  by (auto simp: updateStreamState_def object_at_def split: option.splits intro!: idx_inv_write)

lemma s_bind_invariant:
  assumes "s_bind m f s = (r, s')" and "I s" and "\<And>r s'. m s = (r, s') \<Longrightarrow> I s'"
    and "\<And>a t r s'. I t \<Longrightarrow> f a t = (r, s') \<Longrightarrow> I s'"
  shows "I s'"
  using assms by (auto simp: s_bind_split)

lemma hydrate_streamId: "streamId (snd (hydrate fs s)) = streamId s"
  by (cases "field_big ''total_amount'' fs"; cases "field_big ''strike_price'' fs";
      cases "field_big ''total_sui_at_hedge_start'' fs"; cases "field_big ''balance'' fs";
      cases "field_big ''usdc_balance'' fs") (simp_all add: hydrate_def s_modify_def)

lemma idx_inv_refresh_object:
  assumes "idx_inv x" and "refresh_object obj x = (res, x')"
  shows "idx_inv x'"
proof -
  have w: "idx_inv (write_object r s x)" if "hydrate fs (object_at x r) = (q, s)" for fs r q s
    using hydrate_streamId[of fs "object_at x r"] that assms(1) by (intro idx_inv_write) (simp_all add: object_at_def)
  show ?thesis using assms
    by (auto simp: refresh_object_def Let_def split: option.splits if_splits prod.splits sum.splits
        intro: idx_inv_delete w)
qed

lemma idx_inv_apply_batch: "idx_inv x \<Longrightarrow> idx_inv (apply_batch answer x)"
  by (cases answer; cases "s_for refresh_object (projr answer) x")
    (auto simp: apply_batch_def intro: s_for_invariant[where I = idx_inv] idx_inv_refresh_object)

lemma idx_inv_batch:
  "idx_inv x \<Longrightarrow> (\<And>y. idx_inv y \<Longrightarrow> idx_inv (duringBatch env k y)) \<Longrightarrow> idx_inv (refreshStreamsBatch env k ids x)"
  by (simp add: refreshStreamsBatch_def idx_inv_apply_batch)

lemma idx_inv_chunks:
  "idx_inv x \<Longrightarrow> (\<And>k y. idx_inv y \<Longrightarrow> idx_inv (duringBatch env k y)) \<Longrightarrow> idx_inv (refresh_chunks env k cs x)"
  by (induction cs arbitrary: k x) (simp_all add: idx_inv_batch)

lemma idx_inv_refreshAll:
  assumes "idx_inv x" and "refreshAll env x = Some x'"
    and "\<And>y. idx_inv y \<Longrightarrow> idx_inv (duringEvents env y)" and "\<And>k y. idx_inv y \<Longrightarrow> idx_inv (duringBatch env k y)"
  shows "idx_inv x'"
  using assms
  by (auto simp: refreshAll_def Let_def split: option.splits
      intro!: idx_inv_persist idx_inv_chunks idx_inv_add_missing)

subsection \<open>The registry as a map from identifiers to states\<close>

text \<open>
  The abstract view: what the map holds for an identifier.  The locale is the interface the keeper
  and the dashboard rely on.
\<close>

definition look :: "EventIndexer \<Rightarrow> string \<Rightarrow> StreamState option" where
  "look x sid = map_option (object_at x) (map_get (streams x) sid)"

definition drop_stream :: "string \<Rightarrow> EventIndexer \<Rightarrow> EventIndexer" where
  "drop_stream sid x = x\<lparr>streams := map_delete sid (streams x)\<rparr>"

definition stream_ids :: "EventIndexer \<Rightarrow> string list" where
  "stream_ids x = map_keys (streams x)"

locale stream_registry =
  fixes inv :: "'x \<Rightarrow> bool"
    and get :: "'x \<Rightarrow> string \<Rightarrow> StreamState option"
    and add :: "string \<Rightarrow> 'x \<Rightarrow> 'x"
    and upd :: "string \<Rightarrow> (StreamState \<Rightarrow> StreamState) \<Rightarrow> 'x \<Rightarrow> 'x"
    and del :: "string \<Rightarrow> 'x \<Rightarrow> 'x"
    and ids :: "'x \<Rightarrow> string list"
  assumes get_id: "inv x \<Longrightarrow> get x sid = Some s \<Longrightarrow> streamId s = sid"
    and get_add: "inv x \<Longrightarrow> get (add sid x) sid' = (if sid' = sid then Some (emptyStreamState sid) else get x sid')"
    and get_upd: "inv x \<Longrightarrow> get (upd sid f x) sid' = (if sid' = sid then map_option f (get x sid) else get x sid')"
    and get_del: "inv x \<Longrightarrow> get (del sid x) sid' = (if sid' = sid then None else get x sid')"
    and ids_get: "inv x \<Longrightarrow> sid \<in> set (ids x) \<longleftrightarrow> get x sid \<noteq> None"
    and ids_distinct: "inv x \<Longrightarrow> distinct (ids x)"
    and inv_add: "inv x \<Longrightarrow> inv (add sid x)"
    and inv_upd: "inv x \<Longrightarrow> (\<And>s. streamId (f s) = streamId s) \<Longrightarrow> inv (upd sid f x)"
    and inv_del: "inv x \<Longrightarrow> inv (del sid x)"
begin

lemma get_add_missing:
  assumes "inv x"
  shows "inv (fold (\<lambda>sid x. if get x sid = None then add sid x else x) is x)
     \<and> get (fold (\<lambda>sid x. if get x sid = None then add sid x else x) is x) sid =
       (case get x sid of Some s \<Rightarrow> Some s | None \<Rightarrow> if sid \<in> set is then Some (emptyStreamState sid) else None)"
  using assms
proof (induction "is" arbitrary: x)
  case Nil
  then show ?case by (simp split: option.splits)
next
  case (Cons i "is")
  show ?case
  proof (cases "get x i")
    case None
    with Cons.IH[of "add i x"] Cons.prems show ?thesis
      by (auto simp: get_add inv_add split: option.splits)
  next
    case (Some s)
    with Cons.IH[of x] Cons.prems show ?thesis by (auto split: option.splits)
  qed
qed

text \<open>Updates of different streams commute, so the order in which tasks settle does not matter across streams.\<close>

lemma upd_commute:
  assumes "inv x" and "a \<noteq> b" and "\<And>s. streamId (f s) = streamId s" and "\<And>s. streamId (g s) = streamId s"
  shows "get (upd a f (upd b g x)) sid = get (upd b g (upd a f x)) sid"
  using assms by (simp add: get_upd inv_upd)

end

lemma object_at_frame [simp]:
  "object_at (x\<lparr>streams := m\<rparr>) = object_at x"
  "object_at (x\<lparr>registryFile := f\<rparr>) = object_at x"
  by (simp_all add: object_at_def fun_eq_iff)

lemma look_write:
  assumes "idx_inv x" and "map_get (streams x) sid = Some r"
  shows "look (write_object r s x) sid' = (if sid' = sid then Some s else look x sid')"
proof -
  have "r < length (store x)" using assms by (rule idx_invD)
  moreover have "r' \<noteq> r" if "map_get (streams x) sid' = Some r'" "sid' \<noteq> sid" for r'
    using idx_inv_unshared[OF assms(1)] assms(2) that by blast
  ultimately show ?thesis
    using assms(2) by (cases "map_get (streams x) sid'") (auto simp: look_def write_object_def object_at_def)
qed

lemma look_delete: "look (x\<lparr>streams := map_delete sid (streams x)\<rparr>) sid' = (if sid' = sid then None else look x sid')"
  by (simp add: look_def)

interpretation reg: stream_registry idx_inv look add_placeholder updateStreamState drop_stream stream_ids
proof unfold_locales
  fix x sid sid' s f
  assume i: "idx_inv x"
  show "streamId s = sid" if "look x sid = Some s"
    using that i by (auto simp: look_def object_at_def idx_invD)
  show "look (add_placeholder sid x) sid' = (if sid' = sid then Some (emptyStreamState sid) else look x sid')"
    using i by (auto simp: look_def add_placeholder_def object_at_def nth_append fun_eq_iff idx_invD
        intro!: map_option_cong)
  show "look (updateStreamState sid f x) sid' = (if sid' = sid then map_option f (look x sid) else look x sid')"
    using i by (cases "map_get (streams x) sid") (auto simp: updateStreamState_def look_write, auto simp: look_def)
  show "look (drop_stream sid x) sid' = (if sid' = sid then None else look x sid')"
    by (simp add: drop_stream_def look_delete)
  show "sid \<in> set (stream_ids x) \<longleftrightarrow> look x sid \<noteq> None"
    by (simp add: stream_ids_def look_def js_alist.keys_get)
  show "distinct (stream_ids x)" using i by (simp add: stream_ids_def js_alist.wf_keys idx_inv_wf)
  show "idx_inv (add_placeholder sid x)" using i by (rule idx_inv_add_placeholder)
  show "idx_inv (updateStreamState sid f x)" if "\<And>s. streamId (f s) = streamId s"
    using i that by (rule idx_inv_update)
  show "idx_inv (drop_stream sid x)" unfolding drop_stream_def using i by (rule idx_inv_delete)
qed

lemma map_has_look: "map_has (streams x) sid \<longleftrightarrow> look x sid \<noteq> None"
  by (simp add: map_has_get look_def)

lemma look_add_missing:
  assumes "idx_inv x"
  shows "look (add_missing ids x) sid =
    (case look x sid of Some s \<Rightarrow> Some s | None \<Rightarrow> if sid \<in> set ids then Some (emptyStreamState sid) else None)"
  using reg.get_add_missing[OF assms, of ids sid] by (simp add: add_missing_def map_has_look)

lemma look_persist [simp]: "look (persistRegistry ok x) sid = look x sid"
  by (simp add: look_def persistRegistry_def)

subsection \<open>What a refresh computes\<close>

text \<open>
  The chain's stream object, with the widths of the Move struct, and how the RPC renders it: 64-bit integers and
  balances as decimal strings, bytes as numbers.
\<close>

record OnChainStream =
  ocSender :: string
  ocReceiver :: string
  ocTotalAmount :: nat
  ocStrikePrice :: nat
  ocHedgeDirection :: nat
  ocStartTime :: nat
  ocEndTime :: nat
  ocLiquidationStatus :: nat
  ocTranchesExecuted :: nat
  ocLastTranche :: nat
  ocTwapTranches :: nat
  ocTwapInterval :: nat
  ocHedgeStart :: nat
  ocSui :: nat
  ocUsdc :: nat

definition u64_json :: "nat \<Rightarrow> json" where
  "u64_json n = JStr (show_int (int n))"

definition render_fields :: "OnChainStream \<Rightarrow> json" where
  "render_fields oc =
     JObj [(''sender'', JStr (ocSender oc)), (''receiver'', JStr (ocReceiver oc)),
           (''total_amount'', u64_json (ocTotalAmount oc)), (''strike_price'', u64_json (ocStrikePrice oc)),
           (''hedge_direction'', JNum (int (ocHedgeDirection oc))), (''start_time'', u64_json (ocStartTime oc)),
           (''end_time'', u64_json (ocEndTime oc)), (''liquidation_status'', JNum (int (ocLiquidationStatus oc))),
           (''tranches_executed'', JNum (int (ocTranchesExecuted oc))),
           (''last_tranche_timestamp'', u64_json (ocLastTranche oc)),
           (''twap_tranches'', JNum (int (ocTwapTranches oc))), (''twap_interval_ms'', u64_json (ocTwapInterval oc)),
           (''total_sui_at_hedge_start'', u64_json (ocHedgeStart oc)), (''balance'', u64_json (ocSui oc)),
           (''usdc_balance'', u64_json (ocUsdc oc))]"

text \<open>The local state that mirrors it.  A tranche count of zero is read as the default five.\<close>

definition mirror :: "string \<Rightarrow> OnChainStream \<Rightarrow> StreamState" where
  "mirror sid oc =
     \<lparr>streamId = sid, sender = JStr (ocSender oc), receiver = JStr (ocReceiver oc),
      totalAmount = int (ocTotalAmount oc), strikePrice = int (ocStrikePrice oc),
      hedgeDirection = Num (int (ocHedgeDirection oc)), startTime = Num (dbl (int (ocStartTime oc))),
      endTime = Num (dbl (int (ocEndTime oc))),
      twapTranches = Num (if ocTwapTranches oc = 0 then 5 else int (ocTwapTranches oc)),
      twapIntervalMs = Num (dbl (int (ocTwapInterval oc))),
      liquidationStatus = Num (int (ocLiquidationStatus oc)), tranchesExecuted = Num (int (ocTranchesExecuted oc)),
      lastTrancheTimestamp = Num (dbl (int (ocLastTranche oc))),
      totalSuiAtHedgeStart = int (ocHedgeStart oc), suiBalance = int (ocSui oc), usdcBalance = int (ocUsdc oc)\<rparr>"

definition respond :: "(string \<Rightarrow> OnChainStream option) \<Rightarrow> string \<Rightarrow> object_response" where
  "respond chain sid =
     \<lparr>objData = (case chain sid of
        None \<Rightarrow> None
      | Some oc \<Rightarrow> Some \<lparr>objectId = sid, content = Some \<lparr>dataType = ''moveObject'', moveFields = render_fields oc\<rparr>\<rparr>)\<rparr>"

definition chain_ok :: "(string \<Rightarrow> OnChainStream option) \<Rightarrow> bool" where
  "chain_ok chain \<longleftrightarrow>
     chain [] = None \<and> (\<forall>sid oc. chain sid = Some oc \<longrightarrow> ocSender oc \<noteq> [] \<and> ocReceiver oc \<noteq> [])"

text \<open>What a refresh makes of an entry: gone when the chain's balances are empty, a mirror of the chain otherwise; an
  object the chain does not know is left alone.\<close>

definition reconcile :: "(string \<Rightarrow> OnChainStream option) \<Rightarrow> string \<Rightarrow> StreamState option \<Rightarrow> StreamState option" where
  "reconcile chain sid e =
     (case (e, chain sid) of
        (Some s, Some oc) \<Rightarrow> if ocSui oc = 0 \<and> ocUsdc oc = 0 then None else Some (mirror sid oc)
      | _ \<Rightarrow> e)"

lemma u64_json_conv [simp]:
  "truthy (u64_json n)" "big_int (u64_json n) = Inr (int n)" "to_number (u64_json n) = Num (dbl (int n))"
  by (simp_all add: u64_json_def int_literal_show_int)

lemma to_number_or: "to_number (js_or (JNum n) (JNum d)) = Num (if n = 0 then d else n)"
  by (simp add: js_or_def)

lemma render_fields_big:
  "field_big ''total_amount'' (render_fields oc) = Inr (int (ocTotalAmount oc))"
  "field_big ''strike_price'' (render_fields oc) = Inr (int (ocStrikePrice oc))"
  "field_big ''total_sui_at_hedge_start'' (render_fields oc) = Inr (int (ocHedgeStart oc))"
  "field_big ''balance'' (render_fields oc) = Inr (int (ocSui oc))"
  "field_big ''usdc_balance'' (render_fields oc) = Inr (int (ocUsdc oc))"
  by (simp_all add: field_big_def render_fields_def)

lemma render_fields_num:
  "field_num ''hedge_direction'' 0 (render_fields oc) = Num (int (ocHedgeDirection oc))"
  "field_num ''start_time'' 0 (render_fields oc) = Num (dbl (int (ocStartTime oc)))"
  "field_num ''end_time'' 0 (render_fields oc) = Num (dbl (int (ocEndTime oc)))"
  "field_num ''liquidation_status'' 0 (render_fields oc) = Num (int (ocLiquidationStatus oc))"
  "field_num ''tranches_executed'' 0 (render_fields oc) = Num (int (ocTranchesExecuted oc))"
  "field_num ''last_tranche_timestamp'' 0 (render_fields oc) = Num (dbl (int (ocLastTranche oc)))"
  "field_num ''twap_tranches'' 5 (render_fields oc) = Num (if ocTwapTranches oc = 0 then 5 else int (ocTwapTranches oc))"
  "field_num ''twap_interval_ms'' 720000 (render_fields oc) = Num (dbl (int (ocTwapInterval oc)))"
  by (simp_all add: field_num_def render_fields_def to_number_or)

lemma render_fields_names:
  "own_prop ''sender'' (render_fields oc) = JStr (ocSender oc)"
  "own_prop ''receiver'' (render_fields oc) = JStr (ocReceiver oc)"
  by (simp_all add: render_fields_def)

lemma hydrate_render:
  assumes "ocSender oc \<noteq> []" and "ocReceiver oc \<noteq> []" and "streamId s = sid"
  shows "hydrate (render_fields oc) s = (Inr (), mirror sid oc)"
  using assms
  by (simp add: hydrate_def s_modify_def render_fields_big render_fields_num render_fields_names mirror_def)

lemma mirror_sel [simp]:
  "streamId (mirror sid oc) = sid" "suiBalance (mirror sid oc) = int (ocSui oc)"
  "usdcBalance (mirror sid oc) = int (ocUsdc oc)"
  by (simp_all add: mirror_def)

lemma refresh_respond:
  assumes i: "idx_inv x" and c: "chain_ok chain"
  shows "\<exists>x'. refresh_object (respond chain sid) x = (Inr (), x') \<and> idx_inv x'
     \<and> look x' = (look x)(sid := reconcile chain sid (look x sid))"
proof (cases "chain sid")
  case None
  then show ?thesis using i
    by (auto simp: refresh_object_def respond_def reconcile_def split: option.splits)
next
  case (Some oc)
  with c have n: "sid \<noteq> []" "ocSender oc \<noteq> []" "ocReceiver oc \<noteq> []" by (auto simp: chain_ok_def)
  have t: "truthy (render_fields oc)" by (simp add: render_fields_def)
  show ?thesis
  proof (cases "map_get (streams x) sid")
    case None
    with Some n t i show ?thesis
      by (auto simp: refresh_object_def respond_def reconcile_def look_def fun_eq_iff split: option.splits)
  next
    case (Some r)
    have sid: "streamId (object_at x r) = sid" using idx_invD[OF i Some] by (simp add: object_at_def)
    have h: "hydrate (render_fields oc) (object_at x r) = (Inr (), mirror sid oc)"
      using n sid by (simp add: hydrate_render)
    define x' where "x' = write_object r (mirror sid oc) x"
    have i': "idx_inv x'" unfolding x'_def using i sid by (intro idx_inv_write) (simp_all add: object_at_def)
    have l: "look x' = (look x)(sid := Some (mirror sid oc))"
      by (simp add: x'_def fun_eq_iff look_write[OF i Some])
    have e: "refresh_object (respond chain sid) x =
        (Inr (), if ocSui oc = 0 \<and> ocUsdc oc = 0 then x'\<lparr>streams := map_delete sid (streams x')\<rparr> else x')"
      using \<open>chain sid = Some oc\<close> n t Some h
      by (simp add: refresh_object_def respond_def Let_def x'_def)
    have "look x sid = Some (object_at x r)" using Some by (simp add: look_def)
    with \<open>chain sid = Some oc\<close> have "reconcile chain sid (look x sid) =
        (if ocSui oc = 0 \<and> ocUsdc oc = 0 then None else Some (mirror sid oc))"
      by (simp add: reconcile_def)
    then show ?thesis
      unfolding e using i' by (auto simp: idx_inv_delete look_delete l fun_eq_iff)
  qed
qed

lemma reconcile_idem [simp]: "reconcile chain sid (reconcile chain sid e) = reconcile chain sid e"
  by (auto simp: reconcile_def split: option.splits)

lemma reconcile_twice:
  "(\<lambda>s. if s \<in> set (i # is) then reconcile chain s (m s) else m s) =
   (\<lambda>s. let m' = m(i := reconcile chain i (m i)) in if s \<in> set is then reconcile chain s (m' s) else m' s)"
  by (auto simp: fun_eq_iff Let_def)

lemma apply_respond:
  assumes "idx_inv x" and "chain_ok chain"
  shows "\<exists>x'. s_for refresh_object (map (respond chain) ids) x = (Inr (), x') \<and> idx_inv x'
     \<and> look x' = (\<lambda>sid. if sid \<in> set ids then reconcile chain sid (look x sid) else look x sid)"
  using assms(1)
proof (induction ids arbitrary: x)
  case Nil
  then show ?case by simp
next
  case (Cons i ids)
  from refresh_respond[OF Cons.prems assms(2), of i] obtain x1 where
    x1: "refresh_object (respond chain i) x = (Inr (), x1)" "idx_inv x1"
      "look x1 = (look x)(i := reconcile chain i (look x i))" by blast
  from Cons.IH[OF x1(2)] show ?case
    by (simp only: list.map s_for.simps x1 prod.case sum.case reconcile_twice Let_def)
qed

text \<open>An environment in which nothing else runs and the client answers from \<open>chain\<close>.\<close>

definition faithful_env :: "(string \<Rightarrow> OnChainStream option) \<Rightarrow> idx_env \<Rightarrow> bool" where
  "faithful_env chain env \<longleftrightarrow>
     multiGetObjects env = (\<lambda>ids. Inr (map (respond chain) ids)) \<and> duringEvents env = id \<and> duringBatch env = (\<lambda>_. id)"

lemma batch_respond:
  assumes "idx_inv x" and "chain_ok chain" and "faithful_env chain env"
  shows "idx_inv (refreshStreamsBatch env k ids x)
     \<and> look (refreshStreamsBatch env k ids x) = (\<lambda>sid. if sid \<in> set ids then reconcile chain sid (look x sid) else look x sid)"
  using apply_respond[OF assms(1,2), of ids] assms
  by (auto simp: refreshStreamsBatch_def faithful_env_def apply_batch_def)

lemma chunks_respond:
  assumes "idx_inv x" and "chain_ok chain" and "faithful_env chain env"
  shows "idx_inv (refresh_chunks env k cs x)
     \<and> look (refresh_chunks env k cs x) =
        (\<lambda>sid. if sid \<in> set (concat cs) then reconcile chain sid (look x sid) else look x sid)"
  using assms(1)
proof (induction cs arbitrary: k x)
  case Nil
  then show ?case by simp
next
  case (Cons c cs)
  note b = batch_respond[OF Cons.prems assms(2,3), of k c]
  with Cons.IH[of "refreshStreamsBatch env k c x" "Suc k"] show ?case by (auto simp: fun_eq_iff)
qed

lemma concat_chunks: "0 < n \<Longrightarrow> concat (chunks n xs) = xs"
  by (induction n xs rule: chunks.induct) (simp add: chunks.simps)

lemma refreshAll_reconciles:
  assumes "idx_inv x" and "chain_ok chain" and "faithful_env chain env"
    and "discoverStreamsFromEvents (queryEvents env) = Some evs"
  shows "\<exists>x'. refreshAll env x = Some x' \<and> idx_inv x'
     \<and> (\<forall>sid. look x' sid =
          (case look x sid of
             Some s \<Rightarrow> reconcile chain sid (Some s)
           | None \<Rightarrow> if sid \<in> set evs then reconcile chain sid (Some (emptyStreamState sid)) else None))
     \<and> (diskOk env \<longrightarrow> registryFile x' = Ids (stream_ids x'))"
proof -
  define x1 where "x1 = add_missing evs x"
  have i1: "idx_inv x1" unfolding x1_def using assms(1) by (rule idx_inv_add_missing)
  define x2 where "x2 = refresh_chunks env 0 (chunks 50 (map_keys (streams x1))) x1"
  have x2: "idx_inv x2" "look x2 = (\<lambda>sid. if sid \<in> set (stream_ids x1) then reconcile chain sid (look x1 sid) else look x1 sid)"
    using chunks_respond[OF i1 assms(2,3), of 0 "chunks 50 (map_keys (streams x1))"]
    by (simp_all only: x2_def concat_chunks stream_ids_def zero_less_numeral)
  have r: "refreshAll env x = Some (persistRegistry (diskOk env) x2)"
    using assms(3,4) by (simp add: refreshAll_def faithful_env_def Let_def x1_def x2_def)
  have "look x2 sid = (case look x sid of
             Some s \<Rightarrow> reconcile chain sid (Some s)
           | None \<Rightarrow> if sid \<in> set evs then reconcile chain sid (Some (emptyStreamState sid)) else None)" for sid
    using assms(1) i1 by (auto simp: x2 reg.ids_get x1_def look_add_missing split: option.splits)
  with r x2(1) show ?thesis by (simp add: idx_inv_persist) (simp add: persistRegistry_def stream_ids_def)
qed

text \<open>
  C6.  A refresh brings every monitored stream and every stream found in the events up to date, and
  no other: when the client answers from the chain and nothing runs in between, an entry is afterwards the mirror of
  the chain's object, or gone when its balances are empty; an identifier without an object keeps what it
  had, the empty placeholder when it is new.  No identifier falls between two chunks of fifty.  The file on disk lists
  the identifiers that remain.
\<close>

theorem refreshAll_mirrors_chain:
  assumes "idx_inv x" and "chain_ok chain" and "faithful_env chain env"
    and "discoverStreamsFromEvents (queryEvents env) = Some evs"
  shows "\<exists>x'. refreshAll env x = Some x' \<and> idx_inv x'
     \<and> (\<forall>sid. look x' sid =
          (case look x sid of
             Some s \<Rightarrow> reconcile chain sid (Some s)
           | None \<Rightarrow> if sid \<in> set evs then reconcile chain sid (Some (emptyStreamState sid)) else None))
     \<and> (diskOk env \<longrightarrow> registryFile x' = Ids (stream_ids x'))"
  using assms by (rule refreshAll_reconciles)

definition demo_on_chain :: OnChainStream where
  "demo_on_chain =
     \<lparr>ocSender = ''0xa'', ocReceiver = ''0xb'', ocTotalAmount = 1000, ocStrikePrice = 350000000, ocHedgeDirection = 0,
      ocStartTime = 0, ocEndTime = 5000, ocLiquidationStatus = 0, ocTranchesExecuted = 0, ocLastTranche = 0,
      ocTwapTranches = 4, ocTwapInterval = 60000, ocHedgeStart = 0, ocSui = 700, ocUsdc = 0\<rparr>"

definition demo_chain :: "string \<Rightarrow> OnChainStream option" where
  "demo_chain sid = (if sid = ''s1'' then Some demo_on_chain else if sid = ''s2'' then Some (demo_on_chain\<lparr>ocSui := 0\<rparr>) else None)"

definition demo_idx_env :: idx_env where
  "demo_idx_env =
     \<lparr>queryEvents = (\<lambda>_ _. Inr \<lparr>pageStreamIds = [Some ''s1'', None, Some ''s2'', Some ''s1''], hasNextPage = False, nextCursor = JNull\<rparr>),
      multiGetObjects = (\<lambda>ids. Inr (map (respond demo_chain) ids)), duringEvents = id, duringBatch = (\<lambda>_. id), diskOk = True\<rparr>"

definition demo_indexer :: EventIndexer where
  "demo_indexer = indexer_new demo_keeper_config Absent"

lemma demo_indexer_facts:
  "idx_inv demo_indexer" "look demo_indexer sid = None" "stream_ids demo_indexer = []"
  "chain_ok demo_chain" "faithful_env demo_chain demo_idx_env"
proof -
  show "chain_ok demo_chain" by (auto simp: chain_ok_def demo_chain_def demo_on_chain_def split: if_splits)
  show "idx_inv demo_indexer" by (simp add: demo_indexer_def idx_inv_new)
qed (simp_all add: demo_indexer_def look_def indexer_new_def stream_ids_def map_keys_def faithful_env_def demo_idx_env_def)

lemma demo_discover: "discoverStreamsFromEvents (queryEvents demo_idx_env) = Some [''s1'', ''s2'']"
  by (simp add: discoverStreamsFromEvents_def discover_loop.simps demo_idx_env_def add_page_def set_add_def)

theorem refreshAll_mirrors_chain_witness:
  "\<exists>x'. refreshAll demo_idx_env demo_indexer = Some x' \<and> look x' ''s1'' = Some (mirror ''s1'' demo_on_chain)
     \<and> look x' ''s2'' = None"
proof -
  from refreshAll_mirrors_chain[OF demo_indexer_facts(1,4,5) demo_discover] obtain x' where
    "refreshAll demo_idx_env demo_indexer = Some x'"
    "look x' ''s1'' = reconcile demo_chain ''s1'' (Some (emptyStreamState ''s1''))"
    "look x' ''s2'' = reconcile demo_chain ''s2'' (Some (emptyStreamState ''s2''))"
    by (auto simp: demo_indexer_facts)
  then show ?thesis by (simp add: reconcile_def demo_chain_def) (simp add: demo_on_chain_def)
qed

subsection \<open>Discovery ends and is complete\<close>

lemma set_add_simps [simp]: "set (set_add v xs) = insert v (set xs)" "distinct (set_add v xs) \<longleftrightarrow> distinct xs"
  by (auto simp: set_add_def)

lemma add_page_set:
  "distinct (add_page p acc) = distinct acc \<and>
   set (add_page p acc) = set acc \<union> {sid. sid \<noteq> [] \<and> Some sid \<in> set (pageStreamIds p)}"
proof -
  have "distinct (fold (\<lambda>o' acc. case o' of None \<Rightarrow> acc | Some sid \<Rightarrow> if sid = [] then acc else set_add sid acc) os acc) = distinct acc \<and>
    set (fold (\<lambda>o' acc. case o' of None \<Rightarrow> acc | Some sid \<Rightarrow> if sid = [] then acc else set_add sid acc) os acc) =
      set acc \<union> {sid. sid \<noteq> [] \<and> Some sid \<in> set os}" for os
    by (induction os arbitrary: acc) (auto split: option.splits)
  then show ?thesis by (simp add: add_page_def)
qed

lemma add_pages_set:
  "distinct (fold add_page ps acc) = distinct acc \<and>
   set (fold add_page ps acc) = set acc \<union> {sid. sid \<noteq> [] \<and> (\<exists>p \<in> set ps. Some sid \<in> set (pageStreamIds p))}"
  by (induction ps arbitrary: acc) (auto simp: add_page_set)

definition cursor_at :: "event_page list \<Rightarrow> nat \<Rightarrow> json" where
  "cursor_at ps k = (if k = 0 then JNull else nextCursor (ps ! (k - 1)))"

lemma discover_loop_pages:
  assumes "\<And>k. k < length ps \<Longrightarrow> query k (cursor_at ps k) = Inr (ps ! k)"
    and "\<And>k. k < length ps \<Longrightarrow> hasNextPage (ps ! k) \<longleftrightarrow> Suc k < length ps"
    and "k < length ps"
  shows "discover_loop query k (cursor_at ps k) acc = Some (fold add_page (drop k ps) acc)"
  using assms(3)
proof (induction "length ps - k" arbitrary: k acc)
  case 0
  then show ?case by simp
next
  case (Suc n)
  have d: "drop k ps = ps ! k # drop (Suc k) ps" using Suc.prems by (simp add: Cons_nth_drop_Suc)
  show ?case
  proof (cases "Suc k < length ps")
    case True
    have "nextCursor (ps ! k) = cursor_at ps (Suc k)" by (simp add: cursor_at_def)
    with Suc True assms(1,2) show ?thesis by (simp add: discover_loop.simps[of query k] d)
  next
    case False
    with Suc.prems assms(1,2) show ?thesis by (simp add: discover_loop.simps[of query k] d)
  qed
qed

text \<open>
  C33.  When the node pages through its events (each request returns the next page, only the last says that
  no page follows) discovery returns, and finds each stream of every page once.
\<close>

theorem discover_complete:
  assumes "ps \<noteq> []"
    and "\<forall>k < length ps. query k (cursor_at ps k) = Inr (ps ! k) \<and> (hasNextPage (ps ! k) \<longleftrightarrow> Suc k < length ps)"
  shows "\<exists>ids. discoverStreamsFromEvents query = Some ids \<and> distinct ids
     \<and> set ids = {sid. sid \<noteq> [] \<and> (\<exists>p \<in> set ps. Some sid \<in> set (pageStreamIds p))}"
proof -
  have "discover_loop query 0 (cursor_at ps 0) [] = Some (fold add_page (drop 0 ps) [])"
    using assms by (intro discover_loop_pages) auto
  then show ?thesis
    using add_pages_set[of ps "[]"] by (simp add: discoverStreamsFromEvents_def cursor_at_def)
qed

definition demo_page :: "string \<Rightarrow> bool \<Rightarrow> event_page" where
  "demo_page sid next = \<lparr>pageStreamIds = [Some sid], hasNextPage = next, nextCursor = JStr sid\<rparr>"

theorem discover_complete_witness:
  "\<exists>ids. discoverStreamsFromEvents (\<lambda>k _. Inr (demo_page (show_nat k) (k < 2))) = Some ids
     \<and> set ids = {''0'', ''1'', ''2''}"
proof -
  let ?ps = "[demo_page ''0'' True, demo_page ''1'' True, demo_page ''2'' False]"
  have s: "show_nat 0 = ''0''" "show_nat (Suc 0) = ''1''" "show_nat 2 = ''2''"
    by (simp_all add: show_nat_def show_radix.simps hex_digits_def)
  have "\<exists>ids. discoverStreamsFromEvents (\<lambda>k _. Inr (demo_page (show_nat k) (k < 2))) = Some ids \<and> distinct ids
     \<and> set ids = {sid. sid \<noteq> [] \<and> (\<exists>p \<in> set ?ps. Some sid \<in> set (pageStreamIds p))}"
  proof (rule discover_complete)
    have "k = 0 \<or> k = 1 \<or> k = 2" if "k < length ?ps" for k using that by auto
    then show "\<forall>k < length ?ps. Inr (demo_page (show_nat k) (k < 2)) = Inr (?ps ! k) \<and> (hasNextPage (?ps ! k) \<longleftrightarrow> Suc k < length ?ps)"
      by (fastforce simp: s demo_page_def)
  qed simp
  moreover have "{sid. sid \<noteq> [] \<and> (\<exists>p \<in> set ?ps. Some sid \<in> set (pageStreamIds p))} = {''0'', ''1'', ''2''}"
    by (auto simp: demo_page_def)
  ultimately show ?thesis by auto
qed

subsection \<open>Registration\<close>

definition calm :: "idx_env \<Rightarrow> bool" where
  "calm env \<longleftrightarrow> (\<forall>y. idx_inv y \<longrightarrow> idx_inv (duringEvents env y)) \<and> (\<forall>k y. idx_inv y \<longrightarrow> idx_inv (duringBatch env k y))"

lemma idx_inv_register: "idx_inv x \<Longrightarrow> calm env \<Longrightarrow> idx_inv (snd (registerStream env sid x))"
  by (auto simp: registerStream_def Let_def calm_def
      intro!: idx_inv_persist idx_inv_batch idx_inv_add_placeholder)

text \<open>
  The registry's operations keep its invariant, whatever the client answers and whatever other
  tasks do meanwhile, as long as those keep it too: each identifier once, each with its own object, each object under
  its own identifier.
\<close>

theorem registry_invariant:
  assumes "idx_inv x" and "calm env" and "calm env0"
  shows "(case refreshAll env x of None \<Rightarrow> True | Some x' \<Rightarrow> idx_inv x')
     \<and> (case indexer_start env0 env x of None \<Rightarrow> True | Some x' \<Rightarrow> idx_inv x')
     \<and> idx_inv (snd (registerStream env sid x)) \<and> idx_inv (removeStream ok sid x)"
proof -
  have r: "idx_inv y'" if "refreshAll env y = Some y'" "idx_inv y" for y y'
    using idx_inv_refreshAll[OF that(2,1)] assms(2) by (simp add: calm_def)
  have "idx_inv x'" if st: "indexer_start env0 env x = Some x'" for x'
  proof -
    obtain evs where "refreshAll env (add_missing evs (duringEvents env0 (add_missing (loadRegistry (registryFile x)) x))) = Some x'"
      using st by (auto simp: indexer_start_def Let_def split: option.splits)
    then show ?thesis by (rule r) (use assms(1,3) in \<open>simp add: calm_def idx_inv_add_missing\<close>)
  qed
  moreover have "idx_inv (removeStream ok sid x)"
    unfolding removeStream_def using assms(1) by (intro idx_inv_persist idx_inv_delete)
  moreover have "idx_inv (snd (registerStream env sid x))" using assms(1,2) by (rule idx_inv_register)
  moreover have "idx_inv x'" if "refreshAll env x = Some x'" for x' using r[OF that assms(1)] .
  ultimately show ?thesis by (simp split: option.split)
qed

theorem registry_invariant_witness:
  "idx_inv (snd (registerStream demo_idx_env ''s1'' demo_indexer))"
  using registry_invariant[of demo_indexer demo_idx_env demo_idx_env "''s1''" True]
  by (simp add: demo_indexer_facts calm_def demo_idx_env_def)

text \<open>
  The answer of a registration tells whether the stream is monitored afterwards, and a
  refused stream is not left in the file.
\<close>

theorem registerStream_result:
  assumes "registerStream env sid x = (ok, x')"
  shows "(ok \<longleftrightarrow> look x' sid \<noteq> None)
     \<and> (\<not> ok \<and> diskOk env \<longrightarrow> (case registryFile x' of Ids ids \<Rightarrow> sid \<notin> set ids | _ \<Rightarrow> False))"
  using assms
  by (auto simp: registerStream_def Let_def map_has_look persistRegistry_def js_alist.keys_get look_def
      split: if_splits)

theorem registerStream_result_witness:
  "\<exists>x'. registerStream demo_idx_env ''s2'' demo_indexer = (False, x') \<and> look x' ''s2'' = None"
proof -
  let ?r = "registerStream demo_idx_env ''s2'' demo_indexer"
  have i: "idx_inv (add_placeholder ''s2'' demo_indexer)"
    by (simp add: demo_indexer_facts idx_inv_add_placeholder)
  have "look (add_placeholder ''s2'' demo_indexer) ''s2'' = Some (emptyStreamState ''s2'')"
    by (simp add: reg.get_add demo_indexer_facts)
  moreover have "reconcile demo_chain ''s2'' (Some s) = None" for s
    by (simp add: reconcile_def demo_chain_def demo_on_chain_def)
  ultimately have "look (refreshStreamsBatch demo_idx_env 0 [''s2''] (persistRegistry ok (add_placeholder ''s2'' demo_indexer))) ''s2'' = None" for ok
    using batch_respond[OF idx_inv_persist[OF i] demo_indexer_facts(4,5), of 0 "[''s2'']" ok] by simp
  then have "\<not> fst ?r" by (simp add: registerStream_def Let_def map_has_look demo_indexer_facts)
  then show ?thesis using registerStream_result[of demo_idx_env "''s2''" demo_indexer "fst ?r" "snd ?r"]
    by (cases ?r) auto
qed

text \<open>
  Registering an identifier that no object on the chain has succeeds: the client answers such an
  identifier with an entry that has no data, the batch skips it, and the placeholder stays in the map and in
  the file.  The branch that should remove it is not reached.
\<close>

theorem registerStream_accepts_unknown:
  assumes "look x sid = None" and "multiGetObjects env [sid] = Inr [\<lparr>objData = None\<rparr>]"
    and "duringBatch env 0 = id" and "diskOk env" and "idx_inv x"
  shows "\<exists>x'. registerStream env sid x = (True, x') \<and> look x' sid = Some (emptyStreamState sid)
     \<and> registryFile x' = Ids (stream_ids x @ [sid])"
proof -
  let ?x = "persistRegistry True (add_placeholder sid x)"
  have n: "map_get (streams x) sid = None" using assms(1) by (simp add: look_def)
  have l: "look ?x sid = Some (emptyStreamState sid)" using assms(5) by (simp add: reg.get_add)
  have "refreshStreamsBatch env 0 [sid] ?x = ?x"
    using assms(2,3) by (simp add: refreshStreamsBatch_def apply_batch_def refresh_object_def)
  then have "registerStream env sid x = (True, ?x)"
    using assms(1,4) l by (simp add: registerStream_def Let_def map_has_look)
  moreover have "registryFile ?x = Ids (stream_ids x @ [sid])"
    using n by (simp add: persistRegistry_def add_placeholder_def stream_ids_def js_alist.keys_put)
  ultimately show ?thesis using l by blast
qed

theorem registerStream_accepts_unknown_witness:
  "\<exists>x'. registerStream demo_idx_env ''nowhere'' demo_indexer = (True, x') \<and> registryFile x' = Ids [''nowhere'']"
  using registerStream_accepts_unknown[of demo_indexer "''nowhere''" demo_idx_env]
  by (auto simp: demo_indexer_facts demo_idx_env_def respond_def demo_chain_def)

end
