(* ===== verification/Keeper_Loop.thy ===== *)
theory Keeper_Loop
  imports Indexer
begin

section \<open>The orchestrator: \<^verbatim>\<open>apps/keeper/src/keeper.ts\<close>\<close>

text \<open>
  The control loop: a timer starts a \<^verbatim>\<open>tick\<close> every ten seconds whether or not the previous one has ended, so ticks
  overlap.  A tick runs without interruption between two \<^verbatim>\<open>await\<close>s; a suspended tick is a \<open>tick_task\<close>, waiting for the
  transaction of a breach or of a claim.  The steps of \<open>keeper_step\<close> are those uninterrupted pieces, and
  the pieces of the other tasks that touch the same objects: the refresh and registration of streams, the price fetch,
  the release timers, starting and stopping.  Any order of them is a run.

  \<^verbatim>\<open>executeHedge\<close> and \<^verbatim>\<open>executeAutoClaim\<close> never reject, so the \<^verbatim>\<open>catch\<close> of the tick is not reached; how a transaction
  ended is the \<open>digest\<close> a step is given.
\<close>

definition EXECUTION_LOOP_INTERVAL_MS :: nat where
  "EXECUTION_LOOP_INTERVAL_MS = 10000"

definition STATE_REFRESH_INTERVAL_MS :: nat where
  "STATE_REFRESH_INTERVAL_MS = 30000"

datatype tick_task =
    HedgeWait "bytes list" "nat BreachDetection" "nat BreachDetection list"
  | ClaimWait "bytes list" nat "nat list"

record Keeper =
  kConfig :: KeeperConfig
  kIndexer :: EventIndexer
  kMonitor :: PriceMonitor
  kMetrics :: KeeperMetrics
  executionLoop :: bool
  refreshLoop :: bool
  running :: bool
  autoClaimInFlight :: "string list"
  releaseTimers :: "string list"
  ticks :: "tick_task list"

definition keeper_new :: "KeeperConfig \<Rightarrow> registry_file \<Rightarrow> int \<Rightarrow> Keeper" where
  "keeper_new config file now =
     \<lparr>kConfig = config, kIndexer = indexer_new config file, kMonitor = price_monitor_new config,
      kMetrics = \<lparr>startedAt = now, activeStreams = 0, hedgesTriggered = 0, tranchesExecutedTotal = 0, fallbacksExecuted = 0,
                  autoClaimsExecuted = 0, rpcErrors = 0, lastExecutionTimestamp = 0, lastPriceUpdateTimestamp = Num 0,
                  walletBalanceSui = 0, metricPrice = 0\<rparr>,
      executionLoop = False, refreshLoop = False, running = False, autoClaimInFlight = [], releaseTimers = [], ticks = []\<rparr>"

text \<open>\<^verbatim>\<open>start\<close> after the indexer and the balance are there, and \<^verbatim>\<open>stop\<close>.\<close>

definition keeper_started :: "int \<Rightarrow> Keeper \<Rightarrow> Keeper" where
  "keeper_started balance k =
     k\<lparr>kMonitor := monitor_start (kMonitor k), kMetrics := (kMetrics k)\<lparr>walletBalanceSui := balance\<rparr>,
       running := True, executionLoop := True, refreshLoop := True\<rparr>"

definition keeper_stop :: "Keeper \<Rightarrow> Keeper" where
  "keeper_stop k =
     k\<lparr>running := False, executionLoop := False, refreshLoop := False, kMonitor := monitor_stop (kMonitor k)\<rparr>"

definition getMetrics :: "Keeper \<Rightarrow> KeeperMetrics \<times> Keeper" where
  "getMetrics k =
     (let p = getLatestPrice (kMonitor k);
          m = (kMetrics k)
            \<lparr>activeStreams := length (streams (kIndexer k)),
             metricPrice := (case p of None \<Rightarrow> 0 | Some pd \<Rightarrow> price pd),
             lastPriceUpdateTimestamp :=
               (case p of None \<Rightarrow> Num 0
                | Some pd \<Rightarrow> (case publishTime pd of NaN \<Rightarrow> Num 0 | Num t \<Rightarrow> if t = 0 then Num 0 else Num (dbl (t * 1000))))\<rparr>
      in (m, k\<lparr>kMetrics := m\<rparr>))"

subsection \<open>The tick\<close>

text \<open>\<^verbatim>\<open>if (digest)\<close>\<close>

definition succeeded :: "json option \<Rightarrow> bool" where
  "succeeded digest = (case digest of None \<Rightarrow> False | Some d \<Rightarrow> truthy d)"

definition stream_id_of :: "Keeper \<Rightarrow> nat \<Rightarrow> string" where
  "stream_id_of k r = streamId (object_at (kIndexer k) r)"

text \<open>The loop over the matured streams, up to the next \<^verbatim>\<open>await\<close>.\<close>

fun run_claims :: "bytes list \<Rightarrow> nat list \<Rightarrow> Keeper \<Rightarrow> tick_task option \<times> Keeper" where
  "run_claims vaa [] k = (None, k)"
| "run_claims vaa (r # rs) k =
     (if stream_id_of k r \<in> set (autoClaimInFlight k) then run_claims vaa rs k
      else (Some (ClaimWait vaa r rs), k\<lparr>autoClaimInFlight := set_add (stream_id_of k r) (autoClaimInFlight k)\<rparr>))"

text \<open>The loop over the breaches, and the claims after it.\<close>

definition run_hedges :: "int \<Rightarrow> bytes list \<Rightarrow> nat BreachDetection list \<Rightarrow> Keeper \<Rightarrow> tick_task option \<times> Keeper" where
  "run_hedges now vaa breaches k =
     (case breaches of
        b # bs \<Rightarrow> (Some (HedgeWait vaa b bs), k)
      | [] \<Rightarrow> run_claims vaa (getMaturedStreams now (kIndexer k)) k)"

definition tick :: "int \<Rightarrow> Keeper \<Rightarrow> tick_task option \<times> Keeper" where
  "tick now k =
     (if \<not> running k then (None, k)
      else (case getLatestVaaPayload (kMonitor k) of
              None \<Rightarrow> (None, k)
            | Some vaa \<Rightarrow>
                if vaa = [] then (None, k)
                else run_hedges now vaa (detectBreaches now (object_at (kIndexer k)) (streams (kIndexer k)) (kMonitor k)) k))"

text \<open>What runs when the transaction of a breach has settled; each \<open>t\<close> is a reading of the clock.\<close>

definition initiated :: "int \<Rightarrow> int \<Rightarrow> StreamState \<Rightarrow> StreamState" where
  "initiated t balance s =
     s\<lparr>liquidationStatus := STATUS_TWAP_ACTIVE, tranchesExecuted := Num 1, lastTrancheTimestamp := Num t,
       totalSuiAtHedgeStart := balance\<rparr>"

definition tranche_done :: "int \<Rightarrow> jsnum \<Rightarrow> jsnum \<Rightarrow> StreamState \<Rightarrow> StreamState" where
  "tranche_done t newTranches tranches s =
     s\<lparr>tranchesExecuted := newTranches, lastTrancheTimestamp := Num t,
       liquidationStatus := (if num_le tranches newTranches then STATUS_FULLY_HEDGED else STATUS_TWAP_ACTIVE)\<rparr>"

definition hedge_settled :: "int \<Rightarrow> int \<Rightarrow> json option \<Rightarrow> nat BreachDetection \<Rightarrow> Keeper \<Rightarrow> Keeper" where
  "hedge_settled t1 t2 digest b k =
     (let s = object_at (kIndexer k) (breachStream b); m = kMetrics k
      in if succeeded digest then
           (case action b of
              Initiate \<Rightarrow>
                k\<lparr>kMetrics := m\<lparr>lastExecutionTimestamp := t1, hedgesTriggered := hedgesTriggered m + 1\<rparr>,
                  kIndexer := updateStreamState (streamId s) (initiated t2 (suiBalance s)) (kIndexer k)\<rparr>
            | ExecuteTranche \<Rightarrow>
                (let newTranches = num_add (tranchesExecuted s) (Num 1)
                 in k\<lparr>kMetrics := m\<lparr>lastExecutionTimestamp := t1, tranchesExecutedTotal := tranchesExecutedTotal m + 1\<rparr>,
                      kIndexer := updateStreamState (streamId s) (tranche_done t2 newTranches (twapTranches s)) (kIndexer k)\<rparr>))
         else k\<lparr>kMetrics := m\<lparr>rpcErrors := rpcErrors m + 1\<rparr>\<rparr>)"

text \<open>What runs when a claim has settled.\<close>

definition claimed :: "StreamState \<Rightarrow> StreamState" where
  "claimed s = s\<lparr>suiBalance := 0, usdcBalance := 0\<rparr>"

definition set_delete :: "'a \<Rightarrow> 'a list \<Rightarrow> 'a list" where
  "set_delete v xs = filter (\<lambda>x. x \<noteq> v) xs"

definition claim_settled :: "int \<Rightarrow> json option \<Rightarrow> nat \<Rightarrow> Keeper \<Rightarrow> Keeper" where
  "claim_settled t digest r k =
     (let sid = stream_id_of k r; m = kMetrics k
      in if succeeded digest then
           k\<lparr>kMetrics := m\<lparr>autoClaimsExecuted := autoClaimsExecuted m + 1, lastExecutionTimestamp := t\<rparr>,
             kIndexer := updateStreamState sid claimed (kIndexer k),
             autoClaimInFlight := set_delete sid (autoClaimInFlight k)\<rparr>
         else
           k\<lparr>kMetrics := m\<lparr>rpcErrors := rpcErrors m + 1\<rparr>, releaseTimers := releaseTimers k @ [sid]\<rparr>)"

definition release_fired :: "string \<Rightarrow> Keeper \<Rightarrow> Keeper" where
  "release_fired sid k = k\<lparr>autoClaimInFlight := set_delete sid (autoClaimInFlight k)\<rparr>"

subsection \<open>Runs\<close>

text \<open>The uninterrupted pieces of \<^verbatim>\<open>refreshAll\<close>, \<^verbatim>\<open>registerStream\<close>, \<^verbatim>\<open>removeStream\<close> and \<^verbatim>\<open>start\<close>.\<close>

inductive idx_segment :: "EventIndexer \<Rightarrow> EventIndexer \<Rightarrow> bool" where
  missing: "idx_segment x (add_missing ids x)"
| placeholder: "idx_segment x (add_placeholder sid x)"
| batch: "idx_segment x (apply_batch answer x)"
| persisted: "idx_segment x (persistRegistry ok x)"
| dropped: "idx_segment x (drop_stream sid x)"

definition waiting :: "tick_task option \<Rightarrow> tick_task list" where
  "waiting ot = (case ot of None \<Rightarrow> [] | Some t \<Rightarrow> [t])"

inductive keeper_step :: "Keeper \<Rightarrow> Keeper \<Rightarrow> bool" where
  ticked: "tick now k = (ot, k') \<Longrightarrow> keeper_step k (k'\<lparr>ticks := ticks k @ waiting ot\<rparr>)"
| hedged: "ticks k = pre @ HedgeWait vaa b bs # post \<Longrightarrow>
     run_hedges t3 vaa bs (hedge_settled t1 t2 digest b k) = (ot, k') \<Longrightarrow>
     keeper_step k (k'\<lparr>ticks := pre @ waiting ot @ post\<rparr>)"
| claimed: "ticks k = pre @ ClaimWait vaa r rs # post \<Longrightarrow>
     run_claims vaa rs (claim_settled t digest r k) = (ot, k') \<Longrightarrow>
     keeper_step k (k'\<lparr>ticks := pre @ waiting ot @ post\<rparr>)"
| released: "releaseTimers k = pre @ sid # post \<Longrightarrow>
     keeper_step k ((release_fired sid k)\<lparr>releaseTimers := pre @ post\<rparr>)"
| indexed: "idx_segment (kIndexer k) x \<Longrightarrow> keeper_step k (k\<lparr>kIndexer := x\<rparr>)"
| priced: "keeper_step k (k\<lparr>kMonitor := fetchPrice fetch (kMonitor k)\<rparr>)"
| balanced: "keeper_step k (k\<lparr>kMetrics := (kMetrics k)\<lparr>walletBalanceSui := bal\<rparr>\<rparr>)"
| reported: "keeper_step k (snd (getMetrics k))"
| started: "keeper_step k (keeper_started bal k)"
| stopped: "keeper_step k (keeper_stop k)"

inductive keeper_reachable :: "KeeperConfig \<Rightarrow> Keeper \<Rightarrow> bool" for config where
  new: "keeper_reachable config (keeper_new config file now)"
| step: "keeper_reachable config k \<Longrightarrow> keeper_step k k' \<Longrightarrow> keeper_reachable config k'"

text \<open>
  \<^verbatim>\<open>refreshState\<close> and \<^verbatim>\<open>start\<close> as a whole, for a given behaviour of the client (\<open>env\<close>) and of the balance query; \<open>None\<close> when discovery does
  not return.  \<^verbatim>\<open>BigInt(this.config.lowBalanceAlertSui)\<close> throws on \<^verbatim>\<open>NaN\<close>; in the refresh that is caught, in \<^verbatim>\<open>start\<close> it rejects before the loops are started.
\<close>

definition big_of_num :: "jsnum \<Rightarrow> int outcome" where
  "big_of_num n =
     (case n of
        NaN \<Rightarrow> Inl (range_error ''The number NaN cannot be converted to a BigInt because it is not an integer'')
      | Num i \<Rightarrow> Inr i)"

definition refreshState :: "idx_env \<Rightarrow> int outcome \<Rightarrow> Keeper \<Rightarrow> Keeper option" where
  "refreshState env balance k =
     (case refreshAll env (kIndexer k) of
        None \<Rightarrow> None
      | Some x \<Rightarrow>
          Some (case balance of
                  Inl _ \<Rightarrow> k\<lparr>kIndexer := x\<rparr>
                | Inr bal \<Rightarrow> k\<lparr>kIndexer := x, kMetrics := (kMetrics k)\<lparr>walletBalanceSui := bal\<rparr>\<rparr>))"

definition keeper_start :: "idx_env \<Rightarrow> idx_env \<Rightarrow> int outcome \<Rightarrow> Keeper \<Rightarrow> (unit outcome \<times> Keeper) option" where
  "keeper_start env0 env balance k =
     (case indexer_start env0 env (kIndexer k) of
        None \<Rightarrow> None
      | Some x \<Rightarrow>
          (let k1 = k\<lparr>kIndexer := x, kMonitor := monitor_start (kMonitor k)\<rparr>
           in Some (case balance of
                Inl e \<Rightarrow> (Inl e, k1)
              | Inr bal \<Rightarrow>
                  (let k2 = k1\<lparr>kMetrics := (kMetrics k1)\<lparr>walletBalanceSui := bal\<rparr>\<rparr>
                   in case big_of_num (lowBalanceAlertSui (kConfig k)) of
                        Inl e \<Rightarrow> (Inl e, k2)
                      | Inr _ \<Rightarrow> (Inr (), k2\<lparr>running := True, executionLoop := True, refreshLoop := True\<rparr>)))))"

subsection \<open>The invariant\<close>

text \<open>
  Claims being executed for a stream, and release timers pending for it: together one exactly when the stream is locked.
\<close>

definition claiming :: "Keeper \<Rightarrow> string \<Rightarrow> tick_task \<Rightarrow> bool" where
  "claiming k sid t = (case t of ClaimWait _ r _ \<Rightarrow> stream_id_of k r = sid | HedgeWait _ _ _ \<Rightarrow> False)"

definition lock_count :: "Keeper \<Rightarrow> string \<Rightarrow> nat" where
  "lock_count k sid = length (filter (claiming k sid) (ticks k)) + count_list (releaseTimers k) sid"

fun task_refs :: "tick_task \<Rightarrow> nat set" where
  "task_refs (HedgeWait vaa b bs) = insert (breachStream b) (breachStream ` set bs)"
| "task_refs (ClaimWait vaa r rs) = insert r (set rs)"

definition keeper_inv :: "Keeper \<Rightarrow> bool" where
  "keeper_inv k \<longleftrightarrow>
     idx_inv (kIndexer k)
     \<and> (\<forall>t \<in> set (ticks k). \<forall>r \<in> task_refs t. r < length (store (kIndexer k)))
     \<and> (\<forall>sid. lock_count k sid = (if sid \<in> set (autoClaimInFlight k) then 1 else 0))"

subsection \<open>Objects keep their identity\<close>

definition grows :: "EventIndexer \<Rightarrow> EventIndexer \<Rightarrow> bool" where
  "grows x x' \<longleftrightarrow>
     length (store x) \<le> length (store x') \<and> (\<forall>r < length (store x). streamId (store x' ! r) = streamId (store x ! r))"

lemma grows_refl [simp]: "grows x x"
  by (simp add: grows_def)

lemma grows_trans: "grows x y \<Longrightarrow> grows y z \<Longrightarrow> grows x z"
  by (auto simp: grows_def)

lemma grows_store: "store x' = store x \<Longrightarrow> grows x x'"
  by (simp add: grows_def)

lemma grows_write: "streamId s = streamId (store x ! r) \<Longrightarrow> grows x (write_object r s x)"
  by (simp add: grows_def write_object_def streamId_list_update)

lemma grows_placeholder: "grows x (add_placeholder sid x)"
  by (simp add: grows_def add_placeholder_def nth_append)

lemma grows_add_missing: "grows x (add_missing ids x)"
  unfolding add_missing_def
proof (induction ids arbitrary: x)
  case Nil
  then show ?case by simp
next
  case (Cons i ids)
  show ?case using Cons.IH[of "add_placeholder i x"] Cons.IH[of x] grows_trans[OF grows_placeholder] by simp
qed

lemma grows_update: "(\<And>s. streamId (f s) = streamId s) \<Longrightarrow> grows x (updateStreamState sid f x)"
  by (auto simp: updateStreamState_def object_at_def split: option.splits intro!: grows_write)

lemma grows_refresh_object: "refresh_object obj x = (r, x') \<Longrightarrow> grows x x'"
proof -
  assume a: "refresh_object obj x = (r, x')"
  have w: "grows x (write_object i s x)" if "hydrate fs (object_at x i) = (q, s)" for fs i q s
    using hydrate_streamId[of fs "object_at x i"] that by (intro grows_write) (simp add: object_at_def)
  show ?thesis using a
    by (auto simp: refresh_object_def Let_def split: option.splits if_splits prod.splits sum.splits
        intro: w grows_store grows_trans[OF w grows_store])
qed

lemma grows_apply_batch: "grows x (apply_batch answer x)"
proof (cases answer)
  case (Inl e)
  then show ?thesis by (simp add: apply_batch_def)
next
  case (Inr objs)
  obtain r x' where run: "s_for refresh_object objs x = (r, x')" by (cases "s_for refresh_object objs x")
  have "grows x x'"
    using s_for_invariant[where I = "grows x", OF _ grows_refl run] grows_refresh_object grows_trans by blast
  with run Inr show ?thesis by (simp add: apply_batch_def)
qed

lemma idx_segment_keeps:
  assumes "idx_segment x x'"
  shows "grows x x'" and "idx_inv x \<Longrightarrow> idx_inv x'"
  using assms
  by (cases; simp add: grows_add_missing grows_placeholder grows_apply_batch grows_store persistRegistry_def drop_stream_def)
    (cases rule: idx_segment.cases[OF assms];
      simp add: idx_inv_add_missing idx_inv_add_placeholder idx_inv_apply_batch idx_inv_persist reg.inv_del)

subsection \<open>Every step keeps the invariant\<close>

lemma keeper_invI:
  assumes "idx_inv (kIndexer k)" and "\<And>t r. t \<in> set (ticks k) \<Longrightarrow> r \<in> task_refs t \<Longrightarrow> r < length (store (kIndexer k))"
    and "\<And>sid. lock_count k sid = (if sid \<in> set (autoClaimInFlight k) then 1 else 0)"
  shows "keeper_inv k"
  using assms by (simp add: keeper_inv_def)

lemma keeper_invD:
  assumes "keeper_inv k"
  shows "idx_inv (kIndexer k)" "t \<in> set (ticks k) \<Longrightarrow> r \<in> task_refs t \<Longrightarrow> r < length (store (kIndexer k))"
    "lock_count k sid = (if sid \<in> set (autoClaimInFlight k) then 1 else 0)"
  using assms by (auto simp: keeper_inv_def)

lemma keeper_inv_cong:
  assumes "keeper_inv k" and "kIndexer k' = kIndexer k" "ticks k' = ticks k" "releaseTimers k' = releaseTimers k"
    "autoClaimInFlight k' = autoClaimInFlight k"
  shows "keeper_inv k'"
proof -
  have "claiming k' = claiming k" using assms(2) by (simp add: claiming_def stream_id_of_def fun_eq_iff cong: tick_task.case_cong)
  with assms show ?thesis by (simp add: keeper_inv_def lock_count_def)
qed

lemma keeper_inv_indexer:
  assumes "keeper_inv k" and "grows (kIndexer k) x" and "idx_inv x"
  shows "keeper_inv (k\<lparr>kIndexer := x\<rparr>)"
proof (rule keeper_invI)
  have g: "length (store (kIndexer k)) \<le> length (store x)"
    "\<And>r. r < length (store (kIndexer k)) \<Longrightarrow> streamId (store x ! r) = streamId (store (kIndexer k) ! r)"
    using assms(2) by (auto simp: grows_def)
  show "idx_inv (kIndexer (k\<lparr>kIndexer := x\<rparr>))" using assms(3) by simp
  show "r < length (store (kIndexer (k\<lparr>kIndexer := x\<rparr>)))" if "t \<in> set (ticks (k\<lparr>kIndexer := x\<rparr>))" "r \<in> task_refs t" for t r
    using keeper_invD(2)[OF assms(1)] that g(1) by fastforce
  have "claiming (k\<lparr>kIndexer := x\<rparr>) sid t = claiming k sid t" if "t \<in> set (ticks k)" for sid t
    using keeper_invD(2)[OF assms(1) that] g(2)
    by (cases t) (auto simp: claiming_def stream_id_of_def object_at_def)
  then have "filter (claiming (k\<lparr>kIndexer := x\<rparr>) sid) (ticks k) = filter (claiming k sid) (ticks k)" for sid
    by (intro filter_cong) auto
  then show "lock_count (k\<lparr>kIndexer := x\<rparr>) sid = (if sid \<in> set (autoClaimInFlight (k\<lparr>kIndexer := x\<rparr>)) then 1 else 0)" for sid
    using keeper_invD(3)[OF assms(1)] by (simp add: lock_count_def)
qed

lemma claiming_frame [simp]:
  "claiming (k\<lparr>ticks := ts\<rparr>) = claiming k" "claiming (k\<lparr>autoClaimInFlight := f\<rparr>) = claiming k"
  "claiming (k\<lparr>releaseTimers := tm\<rparr>) = claiming k" "claiming (k\<lparr>kMetrics := m\<rparr>) = claiming k"
  by (auto simp: claiming_def stream_id_of_def fun_eq_iff split: tick_task.splits)

lemma claiming_task [simp]:
  "claiming k sid (HedgeWait vaa b bs) = False" "claiming k sid (ClaimWait vaa r rs) = (stream_id_of k r = sid)"
  by (simp_all add: claiming_def)

lemma run_claims_cases:
  assumes "run_claims vaa rs k = (ot, k')"
  obtains "ot = None" "k' = k"
  | r rs' where "ot = Some (ClaimWait vaa r rs')" "r \<in> set rs" "set rs' \<subseteq> set rs" "stream_id_of k r \<notin> set (autoClaimInFlight k)"
      "k' = k\<lparr>autoClaimInFlight := autoClaimInFlight k @ [stream_id_of k r]\<rparr>"
proof -
  have "(ot = None \<and> k' = k) \<or> (\<exists>r rs'. ot = Some (ClaimWait vaa r rs') \<and> r \<in> set rs \<and> set rs' \<subseteq> set rs
      \<and> stream_id_of k r \<notin> set (autoClaimInFlight k) \<and> k' = k\<lparr>autoClaimInFlight := autoClaimInFlight k @ [stream_id_of k r]\<rparr>)"
    using assms
  proof (induction rs)
    case Nil
    then show ?case by simp
  next
    case (Cons r rs)
    then show ?case by (cases "stream_id_of k r \<in> set (autoClaimInFlight k)") (auto simp: set_add_def)
  qed
  then show thesis using that by blast
qed

lemma keeper_inv_run_claims:
  assumes "keeper_inv (k\<lparr>ticks := pre @ post\<rparr>)" and "\<forall>r \<in> set rs. r < length (store (kIndexer k))"
    and "run_claims vaa rs k = (ot, k')"
  shows "keeper_inv (k'\<lparr>ticks := pre @ waiting ot @ post\<rparr>)"
  using assms(3)
proof (cases rule: run_claims_cases)
  case 1
  then show ?thesis using assms(1) by (simp add: waiting_def)
next
  case (2 r rs')
  show ?thesis
  proof (rule keeper_invI)
    show "idx_inv (kIndexer (k'\<lparr>ticks := pre @ waiting ot @ post\<rparr>))" using keeper_invD(1)[OF assms(1)] 2 by simp
    show "i < length (store (kIndexer (k'\<lparr>ticks := pre @ waiting ot @ post\<rparr>)))"
      if "t \<in> set (ticks (k'\<lparr>ticks := pre @ waiting ot @ post\<rparr>))" "i \<in> task_refs t" for t i
      using that keeper_invD(2)[OF assms(1), of t i] assms(2) 2 by (auto simp: waiting_def subset_iff)
    show "lock_count (k'\<lparr>ticks := pre @ waiting ot @ post\<rparr>) sid =
        (if sid \<in> set (autoClaimInFlight (k'\<lparr>ticks := pre @ waiting ot @ post\<rparr>)) then 1 else 0)" for sid
      using keeper_invD(3)[OF assms(1), of sid] 2 by (auto simp: lock_count_def waiting_def split: if_splits)
  qed
qed

lemma stream_refs:
  assumes "idx_inv x" and "r \<in> set (map_values (streams x))"
  shows "r < length (store x)"
proof -
  from assms(2) obtain sid where "(sid, r) \<in> set (streams x)" by (auto simp: map_values_def)
  then have "map_get (streams x) sid = Some r" using map_get_wf[OF idx_inv_wf[OF assms(1)]] by blast
  with assms(1) show ?thesis by (rule idx_invD)
qed

lemma matured_refs: "idx_inv x \<Longrightarrow> \<forall>r \<in> set (getMaturedStreams now x). r < length (store x)"
  using stream_refs by (auto simp: getMaturedStreams_def stream_objects_def)

lemma breach_refs:
  assumes "idx_inv x"
  shows "\<forall>b \<in> set (detectBreaches now (object_at x) (streams x) m). breachStream b < length (store x)"
proof -
  have "\<forall>b \<in> set (collect_breaches now p (object_at x) rs). breachStream b \<in> set rs" for p rs
    by (induction rs) (auto split: option.splits)
  then show ?thesis using stream_refs[OF assms] by (auto simp: detectBreaches_def split: option.splits)
qed

lemma keeper_inv_run_hedges:
  assumes "keeper_inv (k\<lparr>ticks := pre @ post\<rparr>)" and "\<forall>b \<in> set bs. breachStream b < length (store (kIndexer k))"
    and "run_hedges now vaa bs k = (ot, k')"
  shows "keeper_inv (k'\<lparr>ticks := pre @ waiting ot @ post\<rparr>)"
proof (cases bs)
  case Nil
  have "\<forall>r \<in> set (getMaturedStreams now (kIndexer k)). r < length (store (kIndexer k))"
    using keeper_invD(1)[OF assms(1)] by (intro matured_refs) simp
  with assms(1,3) Nil show ?thesis by (intro keeper_inv_run_claims) (auto simp: run_hedges_def)
next
  case (Cons b bs')
  with assms(3) have e: "ot = Some (HedgeWait vaa b bs')" "k' = k" by (simp_all add: run_hedges_def)
  show ?thesis unfolding e
    using keeper_invD[OF assms(1)] assms(2) Cons
    by (intro keeper_invI) (auto simp: waiting_def lock_count_def)
qed

lemma updates_keep_id [simp]:
  "streamId (initiated t b s) = streamId s" "streamId (tranche_done t n m s) = streamId s" "streamId (claimed s) = streamId s"
  by (simp_all add: initiated_def tranche_done_def claimed_def)

lemma keeper_inv_update:
  assumes "keeper_inv k" and "\<And>s. streamId (f s) = streamId s"
  shows "keeper_inv (k\<lparr>kIndexer := updateStreamState sid f (kIndexer k)\<rparr>)"
  using assms keeper_invD(1)[OF assms(1)] by (intro keeper_inv_indexer grows_update idx_inv_update) auto

lemma keeper_inv_hedge_settled:
  assumes "keeper_inv k"
  shows "keeper_inv (hedge_settled t1 t2 digest b k)"
proof -
  have m: "keeper_inv (k'\<lparr>kMetrics := m\<rparr>)" if "keeper_inv k'" for k' m using that by (rule keeper_inv_cong) simp_all
  have u: "keeper_inv (k\<lparr>kMetrics := m, kIndexer := updateStreamState sid f (kIndexer k)\<rparr>)"
    if "\<And>s. streamId (f s) = streamId s" for m sid f
    using keeper_inv_update[OF m[OF assms, of m] that, of sid] by simp
  show ?thesis by (cases "action b") (auto simp: hedge_settled_def Let_def intro!: u m[OF assms])
qed

lemma hedge_settled_frame [simp]:
  "ticks (hedge_settled t1 t2 digest b k) = ticks k"
  "length (store (kIndexer (hedge_settled t1 t2 digest b k))) = length (store (kIndexer k))"
  by (auto simp: hedge_settled_def Let_def updateStreamState_def write_object_def split: hedge_action.splits option.splits)

lemma keeper_inv_drop_hedge:
  assumes "keeper_inv k" and "ticks k = pre @ HedgeWait vaa b bs # post"
  shows "keeper_inv (k\<lparr>ticks := pre @ post\<rparr>)"
proof (rule keeper_invI)
  fix t r sid
  show "idx_inv (kIndexer (k\<lparr>ticks := pre @ post\<rparr>))" using keeper_invD(1)[OF assms(1)] by simp
  show "t \<in> set (ticks (k\<lparr>ticks := pre @ post\<rparr>)) \<Longrightarrow> r \<in> task_refs t \<Longrightarrow> r < length (store (kIndexer (k\<lparr>ticks := pre @ post\<rparr>)))"
    using keeper_invD(2)[OF assms(1), of t r] assms(2) by auto
  show "lock_count (k\<lparr>ticks := pre @ post\<rparr>) sid = (if sid \<in> set (autoClaimInFlight (k\<lparr>ticks := pre @ post\<rparr>)) then 1 else 0)"
    using keeper_invD(3)[OF assms(1), of sid] assms(2) by (simp add: lock_count_def)
qed

lemma keeper_inv_claim_settled:
  assumes "keeper_inv k" and "ticks k = pre @ ClaimWait vaa r rs # post"
  shows "keeper_inv ((claim_settled t digest r k)\<lparr>ticks := pre @ post\<rparr>)"
proof -
  let ?sid = "stream_id_of k r"
  let ?tm = "if succeeded digest then releaseTimers k else releaseTimers k @ [?sid]"
  let ?lk = "if succeeded digest then set_delete ?sid (autoClaimInFlight k) else autoClaimInFlight k"
  let ?k = "k\<lparr>ticks := pre @ post, releaseTimers := ?tm, autoClaimInFlight := ?lk\<rparr>"
  have k: "keeper_inv ?k"
  proof (rule keeper_invI)
    fix t' i sid
    show "idx_inv (kIndexer ?k)" using keeper_invD(1)[OF assms(1)] by simp
    show "t' \<in> set (ticks ?k) \<Longrightarrow> i \<in> task_refs t' \<Longrightarrow> i < length (store (kIndexer ?k))"
      using keeper_invD(2)[OF assms(1), of t' i] assms(2) by auto
    show "lock_count ?k sid = (if sid \<in> set (autoClaimInFlight ?k) then 1 else 0)"
      using keeper_invD(3)[OF assms(1), of sid] assms(2)
      by (cases "sid = ?sid") (auto simp: lock_count_def set_delete_def split: if_splits)
  qed
  show ?thesis
  proof (cases "succeeded digest")
    case True
    have "keeper_inv (?k\<lparr>kIndexer := updateStreamState ?sid claimed (kIndexer ?k)\<rparr>)"
      using k by (rule keeper_inv_update) simp
    then show ?thesis by (rule keeper_inv_cong) (use True in \<open>simp_all add: claim_settled_def Let_def\<close>)
  next
    case False
    show ?thesis using k by (rule keeper_inv_cong) (use False in \<open>simp_all add: claim_settled_def Let_def\<close>)
  qed
qed

lemma claim_settled_length [simp]:
  "length (store (kIndexer (claim_settled t digest r k))) = length (store (kIndexer k))"
  by (auto simp: claim_settled_def Let_def updateStreamState_def write_object_def split: option.splits)

lemma keeper_inv_release:
  assumes "keeper_inv k" and "releaseTimers k = pre @ sid # post"
  shows "keeper_inv ((release_fired sid k)\<lparr>releaseTimers := pre @ post\<rparr>)"
proof (rule keeper_invI)
  let ?k = "(release_fired sid k)\<lparr>releaseTimers := pre @ post\<rparr>"
  fix t r s
  show "idx_inv (kIndexer ?k)" using keeper_invD(1)[OF assms(1)] by (simp add: release_fired_def)
  show "t \<in> set (ticks ?k) \<Longrightarrow> r \<in> task_refs t \<Longrightarrow> r < length (store (kIndexer ?k))"
    using keeper_invD(2)[OF assms(1), of t r] by (simp add: release_fired_def)
  show "lock_count ?k s = (if s \<in> set (autoClaimInFlight ?k) then 1 else 0)"
    using keeper_invD(3)[OF assms(1), of s] assms(2)
    by (cases "s = sid") (auto simp: lock_count_def release_fired_def set_delete_def split: if_splits)
qed

lemma keeper_inv_new: "keeper_inv (keeper_new config file now)"
  by (simp add: keeper_inv_def keeper_new_def idx_inv_new lock_count_def)

lemma ticks_self: "k\<lparr>ticks := ticks k\<rparr> = k"
  by simp

lemma keeper_inv_step:
  assumes "keeper_step k k'" and i: "keeper_inv k"
  shows "keeper_inv k'"
  using assms(1)
proof cases
  case (ticked now ot k1)
  show ?thesis
  proof (cases "ot = None \<and> k1 = k")
    case True
    with i ticked show ?thesis by (simp add: waiting_def)
  next
    case False
    with ticked(2) obtain vaa where
      "run_hedges now vaa (detectBreaches now (object_at (kIndexer k)) (streams (kIndexer k)) (kMonitor k)) k = (ot, k1)"
      by (auto simp: tick_def split: if_splits option.splits)
    from keeper_inv_run_hedges[where pre = "ticks k" and post = "[]", OF _ breach_refs[OF keeper_invD(1)[OF i]] this] i ticked(1)
    show ?thesis by simp
  qed
next
  case (hedged pre vaa b bs post t3 t1 t2 digest ot k1)
  let ?h = "hedge_settled t1 t2 digest b k"
  have "keeper_inv (?h\<lparr>ticks := pre @ post\<rparr>)"
    using keeper_inv_drop_hedge[OF keeper_inv_hedge_settled[OF i]] hedged(2) by simp
  moreover have "\<forall>b \<in> set bs. breachStream b < length (store (kIndexer ?h))"
    using keeper_invD(2)[OF i, of "HedgeWait vaa b bs"] hedged(2) by simp
  ultimately show ?thesis unfolding hedged(1) using hedged(3) by (intro keeper_inv_run_hedges)
next
  case (claimed pre vaa r rs post t digest ot k1)
  have "\<forall>r \<in> set rs. r < length (store (kIndexer (claim_settled t digest r k)))"
    using keeper_invD(2)[OF i, of "ClaimWait vaa r rs"] claimed(2) by simp
  with keeper_inv_claim_settled[OF i claimed(2)] show ?thesis
    unfolding claimed(1) using claimed(3) keeper_inv_run_claims by (metis keeper_invD(2)[OF i] claim_settled_length claimed(2) in_set_conv_decomp insertCI task_refs.simps(2))
next
  case (released pre sid post)
  with keeper_inv_release[OF i] show ?thesis by simp
next
  case (indexed x)
  with i idx_segment_keeps[OF indexed(2)] keeper_invD(1)[OF i] show ?thesis by (simp add: keeper_inv_indexer)
qed (use i in \<open>auto intro!: keeper_inv_cong[OF i] simp: getMetrics_def Let_def keeper_started_def keeper_stop_def\<close>)

lemma keeper_reachable_inv: "keeper_reachable config k \<Longrightarrow> keeper_inv k"
  by (induction rule: keeper_reachable.induct) (auto intro: keeper_inv_new keeper_inv_step)

text \<open>
  C1.  However ticks, refreshes, registrations, timers and price updates interleave, a stream is locked exactly
  while one claim for it is being executed or one release timer for it is pending, never both and never two: two
  ticks cannot claim the same stream at the same time, and a lock is never lost or left behind.
\<close>

theorem auto_claim_mutual_exclusion:
  assumes "keeper_reachable config k"
  shows "length (filter (claiming k sid) (ticks k)) + count_list (releaseTimers k) sid =
     (if sid \<in> set (autoClaimInFlight k) then 1 else 0)"
  using keeper_invD(3)[OF keeper_reachable_inv[OF assms], of sid] by (simp add: lock_count_def)

lemma run_claims_indexer: "run_claims vaa rs k = (ot, k') \<Longrightarrow> kIndexer k' = kIndexer k"
  by (erule run_claims_cases) simp_all

lemma run_hedges_indexer: "run_hedges now vaa bs k = (ot, k') \<Longrightarrow> kIndexer k' = kIndexer k"
  by (auto simp: run_hedges_def split: list.splits dest: run_claims_indexer)

lemma tick_indexer: "tick now k = (ot, k') \<Longrightarrow> kIndexer k' = kIndexer k"
  by (auto simp: tick_def split: if_splits option.splits dest: run_hedges_indexer)

lemma settled_grows:
  "grows (kIndexer k) (kIndexer (hedge_settled t1 t2 digest b k))"
  "grows (kIndexer k) (kIndexer (claim_settled t digest r k))"
  by (auto simp: hedge_settled_def claim_settled_def Let_def split: hedge_action.split intro!: grows_update)

lemma keeper_step_grows: "keeper_step k k' \<Longrightarrow> grows (kIndexer k) (kIndexer k')"
  by (induction rule: keeper_step.induct)
    (auto simp: getMetrics_def Let_def keeper_started_def keeper_stop_def release_fired_def
      dest: tick_indexer run_hedges_indexer run_claims_indexer idx_segment_keeps(1) simp: settled_grows)

text \<open>
  C7.  In every reachable state the registry is well-formed, the objects that suspended ticks hold exist,
  and no step changes which stream an object belongs to, also when the stream has left the registry meanwhile.
\<close>

theorem keeper_registry_invariant:
  assumes "keeper_reachable config k"
  shows "idx_inv (kIndexer k) \<and> (\<forall>t \<in> set (ticks k). \<forall>r \<in> task_refs t. r < length (store (kIndexer k)))
     \<and> (\<forall>k' r. keeper_step k k' \<and> r < length (store (kIndexer k)) \<longrightarrow> stream_id_of k' r = stream_id_of k r)"
  using keeper_invD[OF keeper_reachable_inv[OF assms]] keeper_step_grows[of k]
  by (auto simp: grows_def stream_id_of_def object_at_def)

subsection \<open>What a settled hedge does\<close>

text \<open>
  A hedge that succeeded moves the stream's local state one step on: an initiated stream is active with one
  tranche done, a further tranche is counted, and the stream is fully hedged exactly when the count reaches the
  configured number.  The time of the tranche is recorded, no other stream changes, and exactly one counter goes up by one.
  A hedge that failed changes no stream and counts one error.
\<close>

theorem hedge_settled_spec:
  assumes "keeper_inv k" and "map_get (streams (kIndexer k)) sid = Some (breachStream b)"
    and "object_at (kIndexer k) (breachStream b) = s" and "tranchesExecuted s = Num e" and "twapTranches s = Num n" and "\<bar>e\<bar> < max_safe"
  shows "look (kIndexer (hedge_settled t1 t2 digest b k)) sid' =
      (if sid' = sid \<and> succeeded digest then
         Some (case action b of
                 Initiate \<Rightarrow> s\<lparr>liquidationStatus := Num 1, tranchesExecuted := Num 1, lastTrancheTimestamp := Num t2, totalSuiAtHedgeStart := suiBalance s\<rparr>
               | ExecuteTranche \<Rightarrow> s\<lparr>liquidationStatus := Num (if n \<le> e + 1 then 2 else 1), tranchesExecuted := Num (e + 1), lastTrancheTimestamp := Num t2\<rparr>)
       else look (kIndexer k) sid')
    \<and> (let m = kMetrics k; m' = kMetrics (hedge_settled t1 t2 digest b k)
      in hedgesTriggered m' + tranchesExecutedTotal m' + rpcErrors m' = hedgesTriggered m + tranchesExecutedTotal m + rpcErrors m + 1
         \<and> autoClaimsExecuted m' = autoClaimsExecuted m)"
proof -
  note i = keeper_invD(1)[OF assms(1)]
  have l: "look (kIndexer k) sid = Some s" using assms(2,3) by (simp add: look_def)
  have id: "streamId s = sid" using reg.get_id[OF i l] .
  have d: "dbl (e + 1) = e + 1" using assms(6) by (simp add: max_safe_def)
  show ?thesis
    using i l id assms(3-5) d
    by (cases "action b") (auto simp: hedge_settled_def Let_def reg.get_upd initiated_def tranche_done_def status_defs)
qed

subsection \<open>Runs with overlapping ticks\<close>

text \<open>A running keeper with a price and two streams as the chain has them.\<close>

definition demo_feed :: "int \<Rightarrow> string \<Rightarrow> http_response outcome" where
  "demo_feed p url = Inr \<lparr>respOk = True, respBody = Inr (hermes_body p 90000 (- 8) 1700000000 [[1]])\<rparr>"

definition demo_keeper :: "int \<Rightarrow> Keeper" where
  "demo_keeper p =
     (keeper_started 0 (keeper_new demo_keeper_config Absent 0))
       \<lparr>kMonitor := \<lparr>monitorConfig = demo_keeper_config,
                     latestPrice = Some \<lparr>price = p, publishTime = Num 1700000000, confidence = 90000\<rparr>,
                     latestVaaPayload = Some [[1]], pollInterval = True\<rparr>,
        kIndexer := \<lparr>idxConfig = demo_keeper_config, streams = [(''s1'', 0), (''s2'', 1)],
                     store = [mirror ''s1'' demo_on_chain, mirror ''s2'' demo_on_chain], registryFile = Absent\<rparr>\<rparr>"

lemma demo_fetch:
  "fetchPrice (demo_feed p) (monitor_start (price_monitor_new demo_keeper_config)) =
     \<lparr>monitorConfig = demo_keeper_config, latestPrice = Some \<lparr>price = p, publishTime = Num 1700000000, confidence = 90000\<rparr>,
      latestVaaPayload = Some [[1]], pollInterval = True\<rparr>"
proof -
  have "normalize_price p (Num (- 8)) = Inr p" by (simp add: normalize_price_def Let_def max_safe_def)
  then show ?thesis
    by (subst fetch_stores[of "demo_feed p" _ p 90000 "- 8" 1700000000 "[[1]]" p])
      (simp_all add: demo_feed_def monitor_start_def price_monitor_new_def)
qed

lemma demo_batch:
  "apply_batch (Inr (map (respond (\<lambda>_. Some demo_on_chain)) [''s1'', ''s2'']))
     (add_missing [''s1'', ''s2''] (indexer_new demo_keeper_config Absent)) =
   \<lparr>idxConfig = demo_keeper_config, streams = [(''s1'', 0), (''s2'', 1)],
    store = [mirror ''s1'' demo_on_chain, mirror ''s2'' demo_on_chain], registryFile = Absent\<rparr>"
proof -
  have h: "hydrate (render_fields demo_on_chain) (emptyStreamState sid) = (Inr (), mirror sid demo_on_chain)" for sid
    by (rule hydrate_render) (simp_all add: demo_on_chain_def emptyStreamState_def)
  have t: "truthy (render_fields demo_on_chain)" by (simp add: render_fields_def)
  have "ocSui demo_on_chain \<noteq> 0" by (simp add: demo_on_chain_def)
  with h t show ?thesis
    by (simp add: apply_batch_def add_missing_def add_placeholder_def indexer_new_def map_has_def map_set_def map_get_def
        refresh_object_def respond_def object_at_def write_object_def Let_def)
qed

lemma demo_keeper_reachable: "keeper_reachable demo_keeper_config (demo_keeper p)"
proof -
  let ?k0 = "keeper_started 0 (keeper_new demo_keeper_config Absent 0)"
  let ?k1 = "?k0\<lparr>kMonitor := fetchPrice (demo_feed p) (kMonitor ?k0)\<rparr>"
  let ?k2 = "?k1\<lparr>kIndexer := add_missing [''s1'', ''s2''] (kIndexer ?k1)\<rparr>"
  let ?k3 = "?k2\<lparr>kIndexer := apply_batch (Inr (map (respond (\<lambda>_. Some demo_on_chain)) [''s1'', ''s2''])) (kIndexer ?k2)\<rparr>"
  have "keeper_reachable demo_keeper_config ?k3"
    by (intro keeper_reachable.step[OF keeper_reachable.step[OF keeper_reachable.step[OF keeper_reachable.step[OF keeper_reachable.new
      keeper_step.started] keeper_step.priced] keeper_step.indexed[OF idx_segment.missing]] keeper_step.indexed[OF idx_segment.batch]])
  moreover have "?k3 = demo_keeper p"
    unfolding demo_keeper_def using demo_fetch[of p] demo_batch by (simp add: keeper_started_def keeper_new_def)
  ultimately show ?thesis by simp
qed

definition do_tick :: "int \<Rightarrow> Keeper \<Rightarrow> Keeper" where
  "do_tick now k = (snd (tick now k))\<lparr>ticks := ticks k @ waiting (fst (tick now k))\<rparr>"

lemma do_tick_reachable: "keeper_reachable config k \<Longrightarrow> keeper_reachable config (do_tick now k)"
  unfolding do_tick_def by (rule keeper_reachable.step, assumption, rule keeper_step.ticked) simp

lemma demo_sel [simp]:
  "running (demo_keeper p)" "getLatestVaaPayload (kMonitor (demo_keeper p)) = Some [[1]]"
  "streams (kIndexer (demo_keeper p)) = [(''s1'', 0), (''s2'', 1)]" "ticks (demo_keeper p) = []"
  "releaseTimers (demo_keeper p) = []" "autoClaimInFlight (demo_keeper p) = []"
  "latestPrice (kMonitor (demo_keeper p)) = Some \<lparr>price = p, publishTime = Num 1700000000, confidence = 90000\<rparr>"
  "object_at (kIndexer (demo_keeper p)) 0 = mirror ''s1'' demo_on_chain"
  "object_at (kIndexer (demo_keeper p)) (Suc 0) = mirror ''s2'' demo_on_chain"
  by (simp_all add: demo_keeper_def keeper_started_def keeper_new_def getLatestVaaPayload_def object_at_def)

lemma demo_mirror_sel [simp]:
  "hedgeDirection (mirror sid demo_on_chain) = Num 0" "strikePrice (mirror sid demo_on_chain) = 350000000"
  "liquidationStatus (mirror sid demo_on_chain) = Num 0" "tranchesExecuted (mirror sid demo_on_chain) = Num 0"
  "twapTranches (mirror sid demo_on_chain) = Num 4" "endTime (mirror sid demo_on_chain) = Num 5000"
  "ocSui demo_on_chain = 700" "ocUsdc demo_on_chain = 0"
  by (simp_all add: mirror_def demo_on_chain_def max_safe_def)

definition demo_start_hedge :: "int \<Rightarrow> nat \<Rightarrow> nat BreachDetection" where
  "demo_start_hedge p r = \<lparr>breachStream = r, currentPrice = p, action = Initiate\<rparr>"

lemma demo_breaches:
  "detectBreaches now (object_at (kIndexer (demo_keeper 300000000))) [(''s1'', 0), (''s2'', 1)] (kMonitor (demo_keeper 300000000)) =
     [demo_start_hedge 300000000 0, demo_start_hedge 300000000 1]"
  "detectBreaches now (object_at (kIndexer (demo_keeper 400000000))) [(''s1'', 0), (''s2'', 1)] (kMonitor (demo_keeper 400000000)) = []"
  by (simp_all add: detectBreaches_def map_values_def breach_action_def isInBreach_def Let_def status_defs demo_start_hedge_def)

text \<open>
  The loop starts a tick while the previous one still waits for its transaction, and nothing marks a stream whose
  hedge is under way: two ticks in a row submit the same hedge twice.  Claims are guarded against this, hedges are not.
\<close>

theorem overlapping_ticks_hedge_twice:
  "\<exists>k. keeper_reachable demo_keeper_config k
     \<and> ticks k = [HedgeWait [[1]] (demo_start_hedge 300000000 0) [demo_start_hedge 300000000 1],
                  HedgeWait [[1]] (demo_start_hedge 300000000 0) [demo_start_hedge 300000000 1]]"
proof -
  let ?k = "demo_keeper 300000000"
  have t: "tick 0 ?k = (Some (HedgeWait [[1]] (demo_start_hedge 300000000 0) [demo_start_hedge 300000000 1]), ?k)"
    by (simp add: tick_def run_hedges_def demo_breaches[simplified])
  let ?k1 = "?k\<lparr>ticks := [HedgeWait [[1]] (demo_start_hedge 300000000 0) [demo_start_hedge 300000000 1]]\<rparr>"
  have "tick 10000 ?k1 = (Some (HedgeWait [[1]] (demo_start_hedge 300000000 0) [demo_start_hedge 300000000 1]), ?k1)"
    by (simp add: tick_def run_hedges_def demo_breaches[simplified])
  then have "ticks (do_tick 10000 (do_tick 0 ?k)) =
      [HedgeWait [[1]] (demo_start_hedge 300000000 0) [demo_start_hedge 300000000 1],
       HedgeWait [[1]] (demo_start_hedge 300000000 0) [demo_start_hedge 300000000 1]]"
    by (simp add: do_tick_def t waiting_def)
  then show ?thesis using do_tick_reachable[OF do_tick_reachable[OF demo_keeper_reachable]] by blast
qed

text \<open>The witnesses of the two invariants use the same run.\<close>

theorem auto_claim_mutual_exclusion_witness:
  "length (filter (claiming (do_tick 6000 (demo_keeper 400000000)) ''s1'') (ticks (do_tick 6000 (demo_keeper 400000000))))
     + count_list (releaseTimers (do_tick 6000 (demo_keeper 400000000))) ''s1'' =
   (if ''s1'' \<in> set (autoClaimInFlight (do_tick 6000 (demo_keeper 400000000))) then 1 else 0)"
  by (rule auto_claim_mutual_exclusion[OF do_tick_reachable[OF demo_keeper_reachable]])

theorem keeper_registry_invariant_witness: "idx_inv (kIndexer (do_tick 6000 (demo_keeper 400000000)))"
  using keeper_registry_invariant[OF do_tick_reachable[OF demo_keeper_reachable]] by blast

theorem hedge_settled_spec_witness:
  "look (kIndexer (hedge_settled 1 2 (Some (JStr ''D'')) (demo_start_hedge 300000000 0) (demo_keeper 300000000))) ''s1'' =
     Some ((mirror ''s1'' demo_on_chain)\<lparr>liquidationStatus := Num 1, tranchesExecuted := Num 1, lastTrancheTimestamp := Num 2,
           totalSuiAtHedgeStart := 700\<rparr>)"
  using hedge_settled_spec[OF keeper_reachable_inv[OF demo_keeper_reachable[of 300000000]], of "''s1''" "demo_start_hedge 300000000 0"
      "mirror ''s1'' demo_on_chain" 0 4 1 2 "Some (JStr ''D'')" "''s1''"]
  by (simp add: demo_start_hedge_def map_get_def succeeded_def max_safe_def)

subsection \<open>A refresh between submission and settlement\<close>

text \<open>
  The tick adds one to the tranche count it finds in the object after its transaction has settled.  When a refresh
  has already written the chain's new count there, the tranche is counted twice: the local count is one ahead of the chain, and a stream with one
  tranche left is taken for fully hedged until the next refresh.
\<close>

theorem refresh_race_counts_twice:
  assumes "keeper_inv k" and "look (kIndexer k) sid = Some s0" and "chain_ok chain" and "chain sid = Some oc"
    and "map_get (streams (kIndexer k)) sid = Some (breachStream b)" and "action b = ExecuteTranche"
    and "ocSui oc > 0" and "ocTwapTranches oc = ocTranchesExecuted oc + 1" and "ocTranchesExecuted oc < 255" and "succeeded digest"
  shows "\<exists>s. look (kIndexer (hedge_settled t1 t2 digest b (k\<lparr>kIndexer := apply_batch (Inr [respond chain sid]) (kIndexer k)\<rparr>))) sid = Some s
     \<and> tranchesExecuted s = Num (int (ocTranchesExecuted oc) + 1) \<and> liquidationStatus s = STATUS_FULLY_HEDGED"
proof -
  let ?x = "apply_batch (Inr [respond chain sid]) (kIndexer k)"
  let ?k = "k\<lparr>kIndexer := ?x\<rparr>"
  note i = keeper_invD(1)[OF assms(1)]
  obtain x' where x': "refresh_object (respond chain sid) (kIndexer k) = (Inr (), x')" "idx_inv x'"
    "look x' = (look (kIndexer k))(sid := reconcile chain sid (look (kIndexer k) sid))"
    using refresh_respond[OF i assms(3)] by blast
  then have x: "?x = x'" by (simp add: apply_batch_def)
  have l: "look ?x sid = Some (mirror sid oc)"
    unfolding x x'(3) using assms(2,4,7) by (simp add: reconcile_def)
  have "chain_ok chain" "sid \<noteq> []" using assms(3,4) by (auto simp: chain_ok_def)
  have "streams x' = streams (kIndexer k)"
    using x'(1) assms(3,4,5,7) idx_invD[OF i assms(5)]
    by (auto simp: refresh_object_def respond_def chain_ok_def render_fields_def[symmetric] hydrate_render object_at_def Let_def write_object_def
        split: if_splits prod.splits sum.splits)
  then have m: "map_get (streams ?x) sid = Some (breachStream b)" using assms(5) x by simp
  then have o: "object_at ?x (breachStream b) = mirror sid oc" using l by (simp add: look_def)
  have d: "dbl (int (ocTranchesExecuted oc) + 1) = int (ocTranchesExecuted oc) + 1" using assms(9) by (simp add: max_safe_def)
  show ?thesis
    using x'(2) x l o d assms(6,8,10)
    by (simp add: hedge_settled_def Let_def reg.get_upd tranche_done_def mirror_def)
qed

theorem refresh_race_counts_twice_witness:
  "\<exists>s. look (kIndexer (hedge_settled 1 2 (Some (JStr ''D'')) \<lparr>breachStream = 0, currentPrice = 1, action = ExecuteTranche\<rparr>
        ((demo_keeper 300000000)\<lparr>kIndexer := apply_batch (Inr [respond (\<lambda>sid. if sid = ''s1'' then Some (demo_on_chain\<lparr>ocTranchesExecuted := 3\<rparr>) else None) ''s1''])
           (kIndexer (demo_keeper 300000000))\<rparr>))) ''s1'' = Some s
     \<and> tranchesExecuted s = Num 4 \<and> liquidationStatus s = STATUS_FULLY_HEDGED"
proof -
  let ?chain = "\<lambda>sid. if sid = ''s1'' then Some (demo_on_chain\<lparr>ocTranchesExecuted := 3\<rparr>) else None"
  have c: "chain_ok ?chain" by (auto simp: chain_ok_def demo_on_chain_def)
  have l: "look (kIndexer (demo_keeper 300000000)) ''s1'' = Some (mirror ''s1'' demo_on_chain)"
    "map_get (streams (kIndexer (demo_keeper 300000000))) ''s1'' = Some 0"
    by (simp_all add: look_def map_get_def)
  show ?thesis
    using refresh_race_counts_twice[OF keeper_reachable_inv[OF demo_keeper_reachable] l(1) c,
        of "demo_on_chain\<lparr>ocTranchesExecuted := 3\<rparr>" "\<lparr>breachStream = 0, currentPrice = 1, action = ExecuteTranche\<rparr>" "Some (JStr ''D'')" 1 2] l(2)
    by (simp add: succeeded_def) (simp add: demo_on_chain_def)
qed

subsection \<open>A claim for a stream that was just claimed\<close>

text \<open>
  A tick goes through the list of matured streams it took at its start.  A stream that another tick claims and releases
  in the meantime is still on that list, is no longer locked, and its balances are not looked at again: it is
  claimed a second time although its balances are known to be zero.
\<close>

theorem stale_snapshot_claims_again:
  "\<exists>k r. keeper_reachable demo_keeper_config k \<and> ticks k = [ClaimWait [[1]] r []] \<and> autoClaimsExecuted (kMetrics k) = 2
     \<and> suiBalance (object_at (kIndexer k) r) = 0 \<and> usdcBalance (object_at (kIndexer k) r) = 0"
proof -
  let ?k = "demo_keeper 400000000" and ?d = "Some (JStr ''D'')"
  have ids: "stream_id_of ?k 0 = ''s1''" "stream_id_of ?k (Suc 0) = ''s2''" by (simp_all add: stream_id_of_def)
  have mat: "getMaturedStreams 6000 (kIndexer ?k) = [0, Suc 0]"
    by (simp add: getMaturedStreams_def stream_objects_def map_values_def)
  define k1 where "k1 = ?k\<lparr>autoClaimInFlight := [''s1''], ticks := [ClaimWait [[1]] 0 [Suc 0]]\<rparr>"
  define k2 where "k2 = ?k\<lparr>autoClaimInFlight := [''s1'', ''s2''], ticks := [ClaimWait [[1]] 0 [Suc 0], ClaimWait [[1]] (Suc 0) []]\<rparr>"
  have t1: "do_tick 6000 ?k = k1"
    by (simp add: do_tick_def tick_def run_hedges_def demo_breaches[simplified] mat ids set_add_def waiting_def k1_def)
  have "stream_id_of k1 = stream_id_of ?k" by (simp add: k1_def stream_id_of_def fun_eq_iff)
  then have t2: "do_tick 6000 k1 = k2"
    by (simp add: do_tick_def tick_def run_hedges_def demo_breaches[simplified] mat ids set_add_def waiting_def k1_def k2_def)
  have r2: "keeper_reachable demo_keeper_config k2"
    using do_tick_reachable[OF do_tick_reachable[OF demo_keeper_reachable]] t1 t2 by metis
  define k3 where "k3 = (claim_settled 1 ?d (Suc 0) k2)\<lparr>ticks := [ClaimWait [[1]] 0 [Suc 0]]\<rparr>"
  have r3: "keeper_reachable demo_keeper_config k3"
    using keeper_reachable.step[OF r2 keeper_step.claimed[of k2 "[ClaimWait [[1]] 0 [Suc 0]]" "[[1]]" "Suc 0" "[]" "[]" 1 ?d None]]
    by (simp add: k2_def k3_def waiting_def)
  define k4 where "k4 = claim_settled 2 ?d 0 k3"
  have x: "kIndexer ?k = \<lparr>idxConfig = demo_keeper_config, streams = [(''s1'', 0), (''s2'', 1)],
      store = [mirror ''s1'' demo_on_chain, mirror ''s2'' demo_on_chain], registryFile = Absent\<rparr>"
    by (simp add: demo_keeper_def)
  have x3: "kIndexer k3 = (kIndexer ?k)\<lparr>store := [mirror ''s1'' demo_on_chain, claimed (mirror ''s2'' demo_on_chain)]\<rparr>"
    "autoClaimInFlight k3 = [''s1'']" "ticks k3 = [ClaimWait [[1]] 0 [Suc 0]]"
    "autoClaimsExecuted (kMetrics k3) = autoClaimsExecuted (kMetrics ?k) + 1"
    by (simp_all add: k3_def claim_settled_def Let_def k2_def succeeded_def stream_id_of_def set_delete_def x object_at_def
        updateStreamState_def map_get_def write_object_def)
  have x4: "kIndexer k4 = (kIndexer ?k)\<lparr>store := [claimed (mirror ''s1'' demo_on_chain), claimed (mirror ''s2'' demo_on_chain)]\<rparr>"
    "autoClaimInFlight k4 = []" "autoClaimsExecuted (kMetrics k4) = autoClaimsExecuted (kMetrics ?k) + 2"
    using x3 by (simp_all add: k4_def claim_settled_def Let_def succeeded_def stream_id_of_def set_delete_def x object_at_def
        updateStreamState_def map_get_def write_object_def)
  have "run_claims [[1]] [Suc 0] k4 = (Some (ClaimWait [[1]] (Suc 0) []), k4\<lparr>autoClaimInFlight := [''s2'']\<rparr>)"
    using x4 by (simp add: stream_id_of_def x object_at_def set_add_def)
  then have "keeper_step k3 (k4\<lparr>autoClaimInFlight := [''s2''], ticks := [ClaimWait [[1]] (Suc 0) []]\<rparr>)"
    using keeper_step.claimed[of k3 "[]" "[[1]]" 0 "[Suc 0]" "[]" 2 ?d "Some (ClaimWait [[1]] (Suc 0) [])"] x3(3)
    by (simp add: k4_def waiting_def)
  then have "keeper_reachable demo_keeper_config (k4\<lparr>autoClaimInFlight := [''s2''], ticks := [ClaimWait [[1]] (Suc 0) []]\<rparr>)"
    by (rule keeper_reachable.step[OF r3])
  moreover have "autoClaimsExecuted (kMetrics ?k) = 0" by (simp add: demo_keeper_def keeper_started_def keeper_new_def)
  ultimately show ?thesis
    using x4 by (intro exI[of _ "k4\<lparr>autoClaimInFlight := [''s2''], ticks := [ClaimWait [[1]] (Suc 0) []]\<rparr>"] exI[of _ "Suc 0"])
      (simp add: object_at_def claimed_def)
qed

subsection \<open>A refresh is a sequence of steps\<close>

lemma indexed_steps: "idx_segment\<^sup>*\<^sup>* x x' \<Longrightarrow> keeper_step\<^sup>*\<^sup>* (k\<lparr>kIndexer := x\<rparr>) (k\<lparr>kIndexer := x'\<rparr>)"
proof (induction rule: rtranclp_induct)
  case base
  then show ?case by simp
next
  case (step y z)
  have "keeper_step (k\<lparr>kIndexer := y\<rparr>) ((k\<lparr>kIndexer := y\<rparr>)\<lparr>kIndexer := z\<rparr>)" by (rule keeper_step.indexed) (simp add: step(2))
  with step(3) show ?case by (simp add: rtranclp.rtrancl_into_rtrancl)
qed

lemma refresh_chunks_segments: "duringBatch env = (\<lambda>_. id) \<Longrightarrow> idx_segment\<^sup>*\<^sup>* x (refresh_chunks env j cs x)"
proof (induction cs arbitrary: j x)
  case Nil
  then show ?case by simp
next
  case (Cons c cs)
  have "idx_segment\<^sup>*\<^sup>* x (refreshStreamsBatch env j c x)"
    using Cons.prems by (auto simp: refreshStreamsBatch_def intro: idx_segment.batch)
  with Cons.IH[OF Cons.prems, of "refreshStreamsBatch env j c x" "Suc j"] show ?case by (simp add: rtranclp_trans)
qed

text \<open>
  The periodic refresh, when nothing runs in between, is a sequence of the steps the invariants are proved for,
  so every state it produces is covered by them.
\<close>

theorem refreshState_is_steps:
  assumes "duringEvents env = id" and "duringBatch env = (\<lambda>_. id)" and "refreshState env balance k = Some k'"
  shows "keeper_step\<^sup>*\<^sup>* k k'"
proof -
  from assms(3) obtain x where x: "refreshAll env (kIndexer k) = Some x"
    and k': "k' = (case balance of Inl _ \<Rightarrow> k\<lparr>kIndexer := x\<rparr> | Inr bal \<Rightarrow> (k\<lparr>kIndexer := x\<rparr>)\<lparr>kMetrics := (kMetrics k)\<lparr>walletBalanceSui := bal\<rparr>\<rparr>)"
    by (auto simp: refreshState_def split: option.splits sum.splits)
  from x assms(1) obtain evs where
    "x = persistRegistry (diskOk env) (refresh_chunks env 0 (chunks 50 (map_keys (streams (add_missing evs (kIndexer k))))) (add_missing evs (kIndexer k)))"
    by (auto simp: refreshAll_def Let_def split: option.splits)
  then have "idx_segment\<^sup>*\<^sup>* (kIndexer k) x"
    using refresh_chunks_segments[OF assms(2)] idx_segment.missing idx_segment.persisted
    by (metis converse_rtranclp_into_rtranclp rtranclp.rtrancl_into_rtrancl)
  from indexed_steps[OF this, of k] have s: "keeper_step\<^sup>*\<^sup>* k (k\<lparr>kIndexer := x\<rparr>)" by simp
  show ?thesis
  proof (cases balance)
    case (Inl e)
    with s k' show ?thesis by simp
  next
    case (Inr bal)
    have "keeper_step (k\<lparr>kIndexer := x\<rparr>) k'" unfolding k' Inr sum.case
      using keeper_step.balanced[of "k\<lparr>kIndexer := x\<rparr>" bal] by simp
    with s show ?thesis by (rule rtranclp.rtrancl_into_rtrancl)
  qed
qed

theorem refreshState_is_steps_witness:
  "\<exists>k'. refreshState demo_idx_env (Inr 7) (demo_keeper 1) = Some k' \<and> keeper_step\<^sup>*\<^sup>* (demo_keeper 1) k'"
proof -
  obtain k' where r: "refreshState demo_idx_env (Inr 7) (demo_keeper 1) = Some k'"
    by (simp add: refreshState_def refreshAll_def demo_discover Let_def)
  have "keeper_step\<^sup>*\<^sup>* (demo_keeper 1) k'"
    by (rule refreshState_is_steps[OF _ _ r]) (simp_all add: demo_idx_env_def)
  with r show ?thesis by blast
qed

end
