(* ===== verification/Pyth_Accumulator.thy ===== *)
theory Pyth_Accumulator
  imports Buffers
begin

section \<open>Accumulator messages: \<^verbatim>\<open>price_service/sdk/js/src/AccumulatorUpdateData.ts\<close>\<close>

text \<open>
  The binary format of Hermes price updates: a header, the wormhole VAA and a list of updates, each a message with
  its Merkle proof.  The parsers walk a cursor over the buffer, as here.  \<^verbatim>\<open>BN\<close> is third-party code: the
  message parser takes \<^verbatim>\<open>new BN(bytes, "be")\<close> as the parameter \<open>bn\<close>.
\<close>

definition ACCUMULATOR_MAGIC :: string where
  "ACCUMULATOR_MAGIC = ''504e4155''"

definition KECCAK160_HASH_SIZE :: nat where
  "KECCAK160_HASH_SIZE = 20"

record accumulator_update =
  message :: bytes
  proof_path :: "bytes list"

record AccumulatorUpdateData =
  accVaa :: bytes
  accUpdates :: "accumulator_update list"

record 'bn PriceFeedMessage =
  msgFeedId :: bytes
  msgPrice :: 'bn
  msgConfidence :: 'bn
  msgExponent :: int
  msgPublishTime :: 'bn
  msgPrevPublishTime :: 'bn
  msgEmaPrice :: 'bn
  msgEmaConf :: 'bn

definition isAccumulatorUpdateData :: "bytes \<Rightarrow> bool" where
  "isAccumulatorUpdateData updateBytes \<longleftrightarrow>
     take 8 (to_hex updateBytes) = ACCUMULATOR_MAGIC
     \<and> length updateBytes > 4 \<and> updateBytes ! 4 = 1
     \<and> length updateBytes > 5 \<and> updateBytes ! 5 = 0"

text \<open>\<^verbatim>\<open>readInt32BE\<close>\<close>

definition read_int32 :: "bytes \<Rightarrow> nat \<Rightarrow> int outcome" where
  "read_int32 buf off = e_bind (read_be 4 buf off) (\<lambda>n. Inr (sint (word_of_nat n :: 32 word)))"

definition parsePriceFeedMessage :: "(bytes \<Rightarrow> 'bn) \<Rightarrow> bytes \<Rightarrow> 'bn PriceFeedMessage outcome" where
  "parsePriceFeedMessage bn msg =
     e_bind (read_be 1 msg 0) (\<lambda>variant.
     if variant \<noteq> 0 then Inl (mk_error ''Not a price feed message'')
     else e_bind (read_int32 msg 49) (\<lambda>exponent.
       Inr \<lparr>msgFeedId = subarray msg 1 33, msgPrice = bn (subarray msg 33 41), msgConfidence = bn (subarray msg 41 49),
            msgExponent = exponent, msgPublishTime = bn (subarray msg 53 61), msgPrevPublishTime = bn (subarray msg 61 69),
            msgEmaPrice = bn (subarray msg 69 77), msgEmaConf = bn (subarray msg 77 85)\<rparr>))"

text \<open>\<^verbatim>\<open>xs.slice(start, end)\<close> with optional and possibly negative bounds.\<close>

definition relative_index :: "int \<Rightarrow> nat \<Rightarrow> nat" where
  "relative_index i len = (if i < 0 then nat (max 0 (int len + i)) else nat (min i (int len)))"

definition js_slice :: "int option \<Rightarrow> int option \<Rightarrow> 'a list \<Rightarrow> 'a list" where
  "js_slice from to xs =
     (let a = (case from of None \<Rightarrow> 0 | Some i \<Rightarrow> relative_index i (length xs));
          b = (case to of None \<Rightarrow> length xs | Some i \<Rightarrow> relative_index i (length xs))
      in take (b - a) (drop a xs))"

text \<open>The loop of \<^verbatim>\<open>sliceAccumulatorUpdateData\<close>: the raw bytes of each update.\<close>

fun slice_updates :: "nat \<Rightarrow> bytes \<Rightarrow> nat \<Rightarrow> (bytes list \<times> nat) outcome" where
  "slice_updates 0 data cursor = Inr ([], cursor)"
| "slice_updates (Suc n) data cursor =
     e_bind (read_be 2 data cursor) (\<lambda>messageSize.
     let c1 = cursor + 2 + messageSize in
     e_bind (read_be 1 data c1) (\<lambda>numProofs.
     let c2 = c1 + 1 + KECCAK160_HASH_SIZE * numProofs in
     e_bind (slice_updates n data c2) (\<lambda>r. Inr (subarray data cursor c2 # fst r, snd r))))"

definition sliceAccumulatorUpdateData :: "bytes \<Rightarrow> int option \<Rightarrow> int option \<Rightarrow> bytes outcome" where
  "sliceAccumulatorUpdateData data from to =
     (if \<not> isAccumulatorUpdateData data then Inl (mk_error ''Invalid accumulator message'')
      else
        e_bind (read_be 1 data 6) (\<lambda>trailingPayloadSize.
        let c1 = 6 + 1 + trailingPayloadSize + 1 in
        e_bind (read_be 2 data c1) (\<lambda>vaaSize.
        let endOfVaa = c1 + 2 + vaaSize in
        e_bind (read_be 1 data endOfVaa) (\<lambda>numUpdates.
        e_bind (slice_updates numUpdates data (endOfVaa + 1)) (\<lambda>r.
        if snd r \<noteq> length data then Inl (mk_error ''Didn't reach the end of the message'')
        else (let sliceUpdates = js_slice from to (fst r)
              in Inr (subarray data 0 endOfVaa @ [word_of_nat (length sliceUpdates)] @ concat (js_slice from to (fst r)))))))))"

fun read_proof :: "nat \<Rightarrow> bytes \<Rightarrow> nat \<Rightarrow> bytes list" where
  "read_proof 0 data cursor = []"
| "read_proof (Suc n) data cursor =
     subarray data cursor (cursor + KECCAK160_HASH_SIZE) # read_proof n data (cursor + KECCAK160_HASH_SIZE)"

fun parse_updates :: "nat \<Rightarrow> bytes \<Rightarrow> nat \<Rightarrow> (accumulator_update list \<times> nat) outcome" where
  "parse_updates 0 data cursor = Inr ([], cursor)"
| "parse_updates (Suc n) data cursor =
     e_bind (read_be 2 data cursor) (\<lambda>messageSize.
     let c1 = cursor + 2; msg = subarray data c1 (c1 + messageSize); c2 = c1 + messageSize in
     e_bind (read_be 1 data c2) (\<lambda>numProofs.
     let c3 = c2 + 1; prf = read_proof numProofs data c3; c4 = c3 + KECCAK160_HASH_SIZE * numProofs in
     e_bind (parse_updates n data c4) (\<lambda>r. Inr (\<lparr>message = msg, proof_path = prf\<rparr> # fst r, snd r))))"

definition parseAccumulatorUpdateData :: "bytes \<Rightarrow> AccumulatorUpdateData outcome" where
  "parseAccumulatorUpdateData data =
     (if \<not> isAccumulatorUpdateData data then Inl (mk_error ''Invalid accumulator message'')
      else
        e_bind (read_be 1 data 6) (\<lambda>trailingPayloadSize.
        let c1 = 6 + 1 + trailingPayloadSize + 1 in
        e_bind (read_be 2 data c1) (\<lambda>vaaSize.
        let c2 = c1 + 2; vaa = subarray data c2 (c2 + vaaSize); c3 = c2 + vaaSize in
        e_bind (read_be 1 data c3) (\<lambda>numUpdates.
        e_bind (parse_updates numUpdates data (c3 + 1)) (\<lambda>r.
        if snd r \<noteq> length data then Inl (mk_error ''Didn't reach the end of the message'')
        else Inr \<lparr>accVaa = vaa, accUpdates = fst r\<rparr>)))))"

subsection \<open>The format\<close>

text \<open>The encoder the format stands for; the code has only decoders.\<close>

definition encode_update :: "accumulator_update \<Rightarrow> bytes" where
  "encode_update u =
     be_encode 2 (length (message u)) @ message u @ be_encode 1 (length (proof_path u)) @ concat (proof_path u)"

definition encode_prefix :: "bytes \<Rightarrow> byte \<Rightarrow> bytes \<Rightarrow> bytes" where
  "encode_prefix trailing proofType vaa =
     [0x50, 0x4e, 0x41, 0x55, 1, 0] @ be_encode 1 (length trailing) @ trailing @ [proofType] @ be_encode 2 (length vaa) @ vaa"

definition encode_accumulator :: "bytes \<Rightarrow> byte \<Rightarrow> AccumulatorUpdateData \<Rightarrow> bytes" where
  "encode_accumulator trailing proofType a =
     encode_prefix trailing proofType (accVaa a) @ be_encode 1 (length (accUpdates a)) @ concat (map encode_update (accUpdates a))"

definition update_ok :: "accumulator_update \<Rightarrow> bool" where
  "update_ok u \<longleftrightarrow> length (message u) < 65536 \<and> length (proof_path u) < 256 \<and> list_all (\<lambda>p. length p = 20) (proof_path u)"

definition accumulator_ok :: "bytes \<Rightarrow> AccumulatorUpdateData \<Rightarrow> bool" where
  "accumulator_ok trailing a \<longleftrightarrow>
     length trailing < 256 \<and> length (accVaa a) < 65536 \<and> length (accUpdates a) < 256 \<and> list_all update_ok (accUpdates a)"

lemma read_be_append:
  "cursor = length pre \<Longrightarrow> x < 256 ^ n \<Longrightarrow> read_be n (pre @ be_encode n x @ post) cursor = Inr x"
  using read_be_at[of n pre x post] by simp

lemma subarray_append:
  "a = length pre \<Longrightarrow> b = length pre + length mid \<Longrightarrow> subarray (pre @ mid @ post) a b = mid"
  using subarray_at[of pre mid post] by simp

lemma read_proof_append:
  "list_all (\<lambda>p. length p = 20) ps \<Longrightarrow> cursor = length pre \<Longrightarrow>
     read_proof (length ps) (pre @ concat ps @ post) cursor = ps"
proof (induction ps arbitrary: pre cursor)
  case Nil
  then show ?case by simp
next
  case (Cons p ps)
  then have "read_proof (length ps) ((pre @ p) @ concat ps @ post) (cursor + 20) = ps"
    by (intro Cons.IH) auto
  moreover have "subarray (pre @ p @ concat ps @ post) cursor (cursor + 20) = p"
    using Cons.prems by (intro subarray_append) auto
  ultimately show ?case by (simp add: KECCAK160_HASH_SIZE_def)
qed

lemma length_concat_proof: "list_all (\<lambda>p. length p = 20) ps \<Longrightarrow> length (concat ps) = 20 * length ps"
  by (induction ps) auto

subsection \<open>Parsing what was encoded\<close>

lemma parse_updates_append:
  assumes "list_all update_ok us" and "cursor = length pre"
  shows "parse_updates (length us) (pre @ concat (map encode_update us) @ post) cursor =
     Inr (us, cursor + length (concat (map encode_update us)))"
  using assms
proof (induction us arbitrary: pre cursor)
  case Nil
  then show ?case by simp
next
  case (Cons u us)
  define rest where "rest = concat (map encode_update us) @ post"
  define data where "data = pre @ encode_update u @ rest"
  let ?m = "message u" and ?p = "proof_path u"
  from Cons.prems have ok: "length ?m < 65536" "length ?p < 256" "list_all (\<lambda>p. length p = 20) ?p"
    by (auto simp: update_ok_def)
  note cur = \<open>cursor = length pre\<close>
  have r1: "read_be 2 data cursor = Inr (length ?m)"
    unfolding data_def encode_update_def append_assoc using ok cur by (intro read_be_append) auto
  have e1: "data = (pre @ be_encode 2 (length ?m)) @ ?m @ be_encode 1 (length ?p) @ concat ?p @ rest"
    by (simp add: data_def encode_update_def)
  have r2: "subarray data (cursor + 2) (cursor + 2 + length ?m) = ?m"
    unfolding e1 using cur by (intro subarray_append) auto
  have e2: "data = (pre @ be_encode 2 (length ?m) @ ?m) @ be_encode 1 (length ?p) @ concat ?p @ rest"
    by (simp add: e1)
  have r3: "read_be 1 data (cursor + 2 + length ?m) = Inr (length ?p)"
    unfolding e2 using ok cur by (intro read_be_append) auto
  have e3: "data = (pre @ be_encode 2 (length ?m) @ ?m @ be_encode 1 (length ?p)) @ concat ?p @ rest"
    by (simp add: e1)
  have r4: "read_proof (length ?p) data (cursor + 2 + length ?m + 1) = ?p"
    unfolding e3 using ok cur by (intro read_proof_append) auto
  have len: "length (encode_update u) = 2 + length ?m + 1 + 20 * length ?p"
    using ok by (simp add: encode_update_def length_concat_proof[simplified])
  have "parse_updates (length us) data (cursor + 2 + length ?m + 1 + 20 * length ?p) =
      Inr (us, cursor + 2 + length ?m + 1 + 20 * length ?p + length (concat (map encode_update us)))"
    using Cons.IH[of "cursor + 2 + length ?m + 1 + 20 * length ?p" "pre @ encode_update u"] Cons.prems len cur
    by (simp add: data_def rest_def)
  with r1 r2 r3 r4 len have "parse_updates (Suc (length us)) data cursor =
      Inr (u # us, cursor + length (encode_update u) + length (concat (map encode_update us)))"
    by (simp add: Let_def KECCAK160_HASH_SIZE_def)
  then show ?case by (simp add: data_def rest_def)
qed

lemma is_accumulator_prefix: "isAccumulatorUpdateData (encode_prefix t pt v @ rest)"
  by (simp add: isAccumulatorUpdateData_def encode_prefix_def to_hex_def hex_of_byte_def hex_digits_def ACCUMULATOR_MAGIC_def)

lemma length_encode_prefix: "length (encode_prefix t pt v) = 10 + length t + length v"
  by (simp add: encode_prefix_def)

lemma header_reads:
  assumes "length t < 256" and "length v < 65536"
  shows "read_be 1 (encode_prefix t pt v @ rest) 6 = Inr (length t)"
    and "read_be 2 (encode_prefix t pt v @ rest) (8 + length t) = Inr (length v)"
    and "subarray (encode_prefix t pt v @ rest) (10 + length t) (10 + length t + length v) = v"
proof -
  let ?h = "[0x50, 0x4e, 0x41, 0x55, 1, 0] :: bytes"
  let ?d = "encode_prefix t pt v @ rest"
  have "?d = ?h @ be_encode 1 (length t) @ (t @ [pt] @ be_encode 2 (length v) @ v @ rest)" by (simp add: encode_prefix_def)
  then show "read_be 1 ?d 6 = Inr (length t)" using assms by (simp only:) (intro read_be_append, auto)
  have "?d = (?h @ be_encode 1 (length t) @ t @ [pt]) @ be_encode 2 (length v) @ (v @ rest)" by (simp add: encode_prefix_def)
  then show "read_be 2 ?d (8 + length t) = Inr (length v)" using assms by (simp only:) (intro read_be_append, auto)
  have "?d = (?h @ be_encode 1 (length t) @ t @ [pt] @ be_encode 2 (length v)) @ v @ rest" by (simp add: encode_prefix_def)
  then show "subarray ?d (10 + length t) (10 + length t + length v) = v" by (simp only:) (intro subarray_append, auto)
qed

lemma parse_encoded:
  assumes "accumulator_ok trailing a"
  shows "parseAccumulatorUpdateData (encode_accumulator trailing pt a) = Inr a"
proof -
  let ?us = "accUpdates a" and ?v = "accVaa a"
  let ?pre = "encode_prefix trailing pt ?v"
  let ?d = "encode_accumulator trailing pt a"
  from assms have ok: "length trailing < 256" "length ?v < 65536" "length ?us < 256" "list_all update_ok ?us"
    by (auto simp: accumulator_ok_def)
  have d: "?d = ?pre @ be_encode 1 (length ?us) @ concat (map encode_update ?us)" by (simp add: encode_accumulator_def)
  note h = header_reads[OF ok(1,2), of pt "be_encode 1 (length ?us) @ concat (map encode_update ?us)", folded d]
  have n: "read_be 1 ?d (10 + length trailing + length ?v) = Inr (length ?us)"
    unfolding d using ok length_encode_prefix[of trailing pt ?v] by (intro read_be_append) auto
  have u: "parse_updates (length ?us) ?d (11 + length trailing + length ?v) = Inr (?us, length ?d)"
    using parse_updates_append[OF ok(4), of "11 + length trailing + length ?v" "?pre @ be_encode 1 (length ?us)" "[]"] length_encode_prefix[of trailing pt ?v]
    by (simp add: d)
  have "isAccumulatorUpdateData ?d" unfolding d by (rule is_accumulator_prefix)
  with h n u show ?thesis by (simp add: parseAccumulatorUpdateData_def Let_def add.commute add.left_commute)
qed

text \<open>
  The parser gives back every well-formed accumulator message: the VAA and each update with its
  proof, whatever the trailing header bytes and the proof type are.
\<close>

theorem parse_encode_accumulator:
  assumes "accumulator_ok trailing a"
  shows "parseAccumulatorUpdateData (encode_accumulator trailing pt a) = Inr a"
  using assms by (rule parse_encoded)

definition demo_accumulator :: AccumulatorUpdateData where
  "demo_accumulator =
     \<lparr>accVaa = [1, 2, 3], accUpdates = [\<lparr>message = [0, 9], proof_path = [replicate 20 7]\<rparr>, \<lparr>message = [], proof_path = []\<rparr>]\<rparr>"

theorem parse_encode_accumulator_witness:
  "parseAccumulatorUpdateData (encode_accumulator [5] 0 demo_accumulator) = Inr demo_accumulator"
  using parse_encode_accumulator[of "[5]" demo_accumulator 0]
  by (simp add: accumulator_ok_def update_ok_def demo_accumulator_def)

subsection \<open>Only encodings are accepted\<close>

lemma subarray_join: "a \<le> b \<Longrightarrow> b \<le> c \<Longrightarrow> subarray d a b @ subarray d b c = subarray d a c"
proof -
  assume le: "a \<le> b" "b \<le> c"
  have "take (c - a) (drop a d) = take (b - a) (drop a d) @ take (c - b) (drop (b - a) (drop a d))"
    using le take_add[of "b - a" "c - b" "drop a d"] by simp
  with le show ?thesis by (simp add: subarray_def)
qed

lemma read_be_sound:
  assumes "read_be n d off = Inr v"
  shows "off + n \<le> length d" "subarray d off (off + n) = be_encode n v" "v < 256 ^ n"
proof -
  from assms show l: "off + n \<le> length d" by (auto simp: read_be_def split: if_splits)
  have v: "v = be_decode (take n (drop off d))" using assms l by (simp add: read_be_def)
  have len: "length (take n (drop off d)) = n" using l by simp
  show "subarray d off (off + n) = be_encode n v"
    using be_encode_decode[of "take n (drop off d)"] unfolding len v by (simp add: subarray_def)
  show "v < 256 ^ n" using be_decode_bound[of "take n (drop off d)"] unfolding len v .
qed

lemma read_proof_sound:
  "c + 20 * n \<le> length d \<Longrightarrow>
     length (read_proof n d c) = n \<and> list_all (\<lambda>p. length p = 20) (read_proof n d c)
     \<and> concat (read_proof n d c) = subarray d c (c + 20 * n)"
proof (induction n arbitrary: c)
  case 0
  then show ?case by (simp add: subarray_def)
next
  case (Suc n)
  then have "subarray d c (c + 20) @ subarray d (c + 20) (c + 20 + 20 * n) = subarray d c (c + 20 * Suc n)"
    by (simp add: subarray_join add.assoc)
  with Suc.IH[of "c + 20"] Suc.prems show ?case by (simp add: KECCAK160_HASH_SIZE_def length_subarray)
qed

lemma parse_updates_sound:
  assumes "parse_updates n d c = Inr (us, e)" and "e \<le> length d"
  shows "c \<le> e \<and> length us = n \<and> list_all update_ok us \<and> subarray d c e = concat (map encode_update us)
     \<and> slice_updates n d c = Inr (map encode_update us, e)"
  using assms
proof (induction n arbitrary: c us)
  case 0
  then show ?case by (simp add: subarray_def)
next
  case (Suc n)
  from Suc.prems(1) obtain m k vs where
    m: "read_be 2 d c = Inr m" and k: "read_be 1 d (c + 2 + m) = Inr k"
    and vs: "parse_updates n d (c + 2 + m + 1 + 20 * k) = Inr (vs, e)"
    and us: "us = \<lparr>message = subarray d (c + 2) (c + 2 + m), proof_path = read_proof k d (c + 2 + m + 1)\<rparr> # vs"
    by (auto simp: e_bind_Inr_iff Let_def KECCAK160_HASH_SIZE_def)
  define c' where "c' = c + 2 + m + 1 + 20 * k"
  define u where "u = \<lparr>message = subarray d (c + 2) (c + 2 + m), proof_path = read_proof k d (c + 2 + m + 1)\<rparr>"
  note IH = Suc.IH[OF vs[folded c'_def] Suc.prems(2)]
  have c': "c' \<le> length d" using IH Suc.prems(2) by simp
  have pr: "length (proof_path u) = k" "list_all (\<lambda>p. length p = 20) (proof_path u)"
    "concat (proof_path u) = subarray d (c + 2 + m + 1) c'"
    using read_proof_sound[of "c + 2 + m + 1" k d] c' by (simp_all add: u_def c'_def)
  have ml: "length (message u) = m" using c' by (simp add: u_def c'_def length_subarray)
  have ok: "update_ok u" using pr ml read_be_sound(3)[OF m] read_be_sound(3)[OF k] by (simp add: update_ok_def)
  have "encode_update u = subarray d c (c + 2) @ subarray d (c + 2) (c + 2 + m) @ subarray d (c + 2 + m) (c + 2 + m + 1)
      @ subarray d (c + 2 + m + 1) c'"
    using read_be_sound(2)[OF m] read_be_sound(2)[OF k] pr ml by (simp add: encode_update_def) (simp add: u_def)
  also have "\<dots> = subarray d c c'" by (simp add: subarray_join c'_def)
  finally have enc: "encode_update u = subarray d c c'" .
  have c_le: "c \<le> c'" by (simp add: c'_def)
  have "subarray d c e = concat (map encode_update us)"
    using IH subarray_join[of c c' e d] unfolding us u_def[symmetric] by (simp add: enc c_le)
  moreover have "slice_updates (Suc n) d c = Inr (map encode_update us, e)"
    using IH m k unfolding us u_def[symmetric] by (simp add: Let_def KECCAK160_HASH_SIZE_def enc) (simp add: c'_def)
  ultimately show ?case using IH ok c_le unfolding us u_def[symmetric] by simp
qed

lemma is_accumulator_magic:
  assumes "isAccumulatorUpdateData d"
  shows "subarray d 0 6 = [0x50, 0x4e, 0x41, 0x55, 1, 0]"
proof -
  from assms have l: "5 < length d" and h: "take 8 (to_hex d) = ''504e4155''" and v: "d ! 4 = 1" "d ! 5 = 0"
    by (auto simp: isAccumulatorUpdateData_def ACCUMULATOR_MAGIC_def)
  obtain a b c e f g rest where d: "d = a # b # c # e # f # g # rest"
  proof -
    have "Suc (Suc (Suc (Suc (Suc (Suc 0))))) \<le> length d" using l by simp
    then show thesis unfolding Suc_le_length_iff using that by blast
  qed
  have "to_hex [a, b, c, e] = ''504e4155''" using h by (simp add: d to_hex_def hex_of_byte_def)
  then have "[a, b, c, e] = from_hex ''504e4155''" using from_hex_to_hex[of "[a, b, c, e]"] by simp
  also have "\<dots> = [0x50, 0x4e, 0x41, 0x55]" by (simp add: digit_val_def hex_digits_def to_lower_def)
  finally show ?thesis using v by (simp add: subarray_def d)
qed

lemma parse_accumulator_sound:
  assumes "parseAccumulatorUpdateData d = Inr a"
  shows "\<exists>trailing pt. accumulator_ok trailing a \<and> d = encode_accumulator trailing pt a
     \<and> subarray d 0 (10 + length trailing + length (accVaa a)) = encode_prefix trailing pt (accVaa a)
     \<and> read_be 1 d 6 = Inr (length trailing) \<and> read_be 2 d (8 + length trailing) = Inr (length (accVaa a))
     \<and> read_be 1 d (10 + length trailing + length (accVaa a)) = Inr (length (accUpdates a))
     \<and> slice_updates (length (accUpdates a)) d (11 + length trailing + length (accVaa a)) = Inr (map encode_update (accUpdates a), length d)"
proof -
  from assms obtain t v n us where
    mg: "isAccumulatorUpdateData d" and t: "read_be 1 d 6 = Inr t" and v: "read_be 2 d (8 + t) = Inr v"
    and n: "read_be 1 d (10 + t + v) = Inr n" and us: "parse_updates n d (11 + t + v) = Inr (us, length d)"
    and a: "a = \<lparr>accVaa = subarray d (10 + t) (10 + t + v), accUpdates = us\<rparr>"
    by (auto simp: parseAccumulatorUpdateData_def e_bind_Inr_iff Let_def add.assoc add.commute add.left_commute split: if_splits)
  note u = parse_updates_sound[OF us order_refl]
  have ln: "11 + t + v \<le> length d" using read_be_sound(1)[OF n] by simp
  define trailing where "trailing = subarray d 7 (7 + t)"
  have tl: "length trailing = t" using ln by (simp add: trailing_def length_subarray)
  have vl: "length (accVaa a) = v" using ln by (simp add: a length_subarray)
  define pt where "pt = d ! (7 + t)"
  have pt: "subarray d (7 + t) (8 + t) = [pt]" using ln by (simp add: subarray_def pt_def take_Suc_conv_app_nth)
  have "encode_prefix trailing pt (accVaa a) = subarray d 0 6 @ subarray d 6 7 @ trailing @ subarray d (7 + t) (8 + t)
      @ subarray d (8 + t) (10 + t) @ subarray d (10 + t) (10 + t + v)"
    using is_accumulator_magic[OF mg] read_be_sound(2)[OF t] read_be_sound(2)[OF v] tl vl pt
    by (simp add: encode_prefix_def) (simp add: a add.commute)
  also have "\<dots> = subarray d 0 (10 + t + v)" by (simp add: trailing_def subarray_join)
  finally have p: "subarray d 0 (10 + t + v) = encode_prefix trailing pt (accVaa a)" by simp
  have "10 + t + v + 1 = 11 + t + v" by simp
  then have n2: "subarray d (10 + t + v) (11 + t + v) = be_encode 1 n" using read_be_sound(2)[OF n] by (simp only:)
  have "encode_accumulator trailing pt a = subarray d 0 (10 + t + v) @ subarray d (10 + t + v) (11 + t + v)
      @ subarray d (11 + t + v) (length d)"
    using p u n2 by (simp add: encode_accumulator_def a)
  also have "\<dots> = subarray d 0 (length d)" using ln by (simp add: subarray_join)
  finally have "d = encode_accumulator trailing pt a" by (simp add: subarray_def)
  moreover have "accumulator_ok trailing a"
    using read_be_sound(3)[OF t] read_be_sound(3)[OF v] read_be_sound(3)[OF n] tl vl u by (simp add: accumulator_ok_def a)
  moreover have "length (accUpdates a) = n" using u by (simp add: a)
  ultimately show ?thesis using p t v n u tl vl by (intro exI[of _ trailing] exI[of _ pt]) (simp add: a)
qed

text \<open>
  The parser accepts nothing but encodings: whatever it returns, the buffer it read is the
  encoding of that, to the last byte.  No truncated VAA, message or proof gets through.
\<close>

theorem parse_accumulator_exact:
  assumes "parseAccumulatorUpdateData d = Inr a"
  shows "\<exists>trailing pt. accumulator_ok trailing a \<and> d = encode_accumulator trailing pt a"
  using parse_accumulator_sound[OF assms] by blast

theorem parse_accumulator_exact_witness:
  "\<exists>trailing pt. accumulator_ok trailing demo_accumulator
     \<and> encode_accumulator [5] 0 demo_accumulator = encode_accumulator trailing pt demo_accumulator"
proof (rule parse_accumulator_exact)
  show "parseAccumulatorUpdateData (encode_accumulator [5] 0 demo_accumulator) = Inr demo_accumulator"
    by code_simp
qed

lemma js_slice_map: "js_slice s e (map f xs) = map f (js_slice s e xs)"
  by (cases s; cases e) (simp_all add: js_slice_def Let_def take_map drop_map)

lemma set_js_slice: "set (js_slice s e xs) \<subseteq> set xs"
  by (auto simp: js_slice_def Let_def dest!: in_set_takeD in_set_dropD)

lemma length_js_slice: "length (js_slice s e xs) \<le> length xs"
  by (simp add: js_slice_def Let_def)

text \<open>
  Slicing a message keeps its VAA and exactly the updates of the slice, proofs included: the
  result parses to them, for every choice of bounds, negative and absent ones too.
\<close>

theorem slice_then_parse:
  assumes "parseAccumulatorUpdateData d = Inr a"
  shows "\<exists>d'. sliceAccumulatorUpdateData d from to = Inr d'
     \<and> parseAccumulatorUpdateData d' = Inr (a\<lparr>accUpdates := js_slice from to (accUpdates a)\<rparr>)"
proof -
  let ?a' = "a\<lparr>accUpdates := js_slice from to (accUpdates a)\<rparr>"
  from parse_accumulator_sound[OF assms] obtain trailing pt where
    ok: "accumulator_ok trailing a" and d: "d = encode_accumulator trailing pt a"
    and r: "subarray d 0 (10 + length trailing + length (accVaa a)) = encode_prefix trailing pt (accVaa a)"
      "read_be 1 d 6 = Inr (length trailing)" "read_be 2 d (8 + length trailing) = Inr (length (accVaa a))"
      "read_be 1 d (10 + length trailing + length (accVaa a)) = Inr (length (accUpdates a))"
      "slice_updates (length (accUpdates a)) d (11 + length trailing + length (accVaa a)) = Inr (map encode_update (accUpdates a), length d)"
    by blast
  have m: "isAccumulatorUpdateData d" unfolding d encode_accumulator_def by (rule is_accumulator_prefix)
  have one: "be_encode 1 k = [word_of_nat (k mod 256)]" for k by simp
  have k: "length (js_slice from to (accUpdates a)) < 256"
    using ok length_js_slice[of "from" to "accUpdates a"] by (simp add: accumulator_ok_def)
  have "sliceAccumulatorUpdateData d from to = Inr (encode_accumulator trailing pt ?a')"
    using m r k
    by (simp add: sliceAccumulatorUpdateData_def Let_def js_slice_map encode_accumulator_def one add.assoc add.commute add.left_commute)
  moreover have "accumulator_ok trailing ?a'"
    using ok k set_js_slice[of "from" to "accUpdates a"] by (auto simp: accumulator_ok_def list_all_iff)
  ultimately show ?thesis using parse_encoded by blast
qed

theorem slice_then_parse_witness:
  "\<exists>d'. sliceAccumulatorUpdateData (encode_accumulator [5] 0 demo_accumulator) (Some (- 1)) None = Inr d'
     \<and> parseAccumulatorUpdateData d' = Inr (demo_accumulator\<lparr>accUpdates := [\<lparr>message = [], proof_path = []\<rparr>]\<rparr>)"
proof -
  have "parseAccumulatorUpdateData (encode_accumulator [5] 0 demo_accumulator) = Inr demo_accumulator"
    by code_simp
  from slice_then_parse[OF this, of "Some (- 1)" None] show ?thesis
    by (simp add: demo_accumulator_def js_slice_def relative_index_def)
qed

subsection \<open>Price messages\<close>

definition encode_price_message :: "bytes \<Rightarrow> int \<Rightarrow> nat \<Rightarrow> int \<Rightarrow> nat \<Rightarrow> nat \<Rightarrow> int \<Rightarrow> nat \<Rightarrow> bytes" where
  "encode_price_message feed p conf e t pt ema emaConf =
     [0] @ feed @ be_encode 8 (unat (word_of_int p :: 64 word)) @ be_encode 8 conf
       @ be_encode 4 (unat (word_of_int e :: 32 word)) @ be_encode 8 t @ be_encode 8 pt
       @ be_encode 8 (unat (word_of_int ema :: 64 word)) @ be_encode 8 emaConf"

lemma subarray_bounds_append:
  "length pre \<le> a \<Longrightarrow> subarray (pre @ d) a b = subarray d (a - length pre) (b - length pre)"
  by (simp add: subarray_def)

lemma subarray_prefix: "length d = b \<Longrightarrow> subarray (d @ post) 0 b = d"
  by (simp add: subarray_def)

lemma subarray_full: "length d = b \<Longrightarrow> subarray d 0 b = d"
  by (simp add: subarray_def)

lemma read_be_bounds_append: "length pre \<le> a \<Longrightarrow> read_be n (pre @ d) a = read_be n d (a - length pre)"
  by (auto simp: read_be_def)

lemma read_be_prefix: "x < 256 ^ n \<Longrightarrow> read_be n (be_encode n x @ post) 0 = Inr x"
  using read_be_append[of 0 "[]" x n post] by simp

text \<open>
  The message parser finds every field of an encoded price message at its place, reads the
  exponent with its sign, and hands each 64-bit field to \<open>bn\<close> as its eight bytes.  A price or an average below
  zero is handed over as its two's complement: with an unsigned big-endian \<open>bn\<close> it comes out \<open>2 ^ 64\<close> too large.
\<close>

theorem parse_price_message:
  assumes "length feed = 32" and "-(2 ^ 31) \<le> e" and "e < 2 ^ 31"
  shows "parsePriceFeedMessage bn (encode_price_message feed p conf e t pt ema emaConf) =
     Inr \<lparr>msgFeedId = feed, msgPrice = bn (be_encode 8 (unat (word_of_int p :: 64 word))), msgConfidence = bn (be_encode 8 conf),
          msgExponent = e, msgPublishTime = bn (be_encode 8 t), msgPrevPublishTime = bn (be_encode 8 pt),
          msgEmaPrice = bn (be_encode 8 (unat (word_of_int ema :: 64 word))), msgEmaConf = bn (be_encode 8 emaConf)\<rparr>
   \<and> (-(2 ^ 63) \<le> p \<and> p < 0 \<longrightarrow> int (be_decode (be_encode 8 (unat (word_of_int p :: 64 word)))) = p + 2 ^ 64)"
proof -
  let ?e = "word_of_int e :: 32 word"
  have u: "unat ?e < 256 ^ 4" using unsigned_less[of ?e] by simp
  have "sint ?e = e" using assms by (simp add: sint_sbintrunc' signed_take_bit_int_eq_self_iff)
  then have ex: "read_int32 (encode_price_message feed p conf e t pt ema emaConf) 49 = Inr e"
    using assms(1) read_be_prefix[OF u]
    by (simp add: read_int32_def encode_price_message_def read_be_bounds_append del: append.simps be_encode.simps)
  have v: "read_be 1 (encode_price_message feed p conf e t pt ema emaConf) 0 = Inr 0"
    by (simp add: read_be_def encode_price_message_def be_decode_def)
  have neg: "int (be_decode (be_encode 8 (unat (word_of_int p :: 64 word)))) = p + 2 ^ 64" if "-(2 ^ 63) \<le> p" "p < 0"
  proof -
    have "unat (word_of_int p :: 64 word) < 256 ^ 8" using unsigned_less[of "word_of_int p :: 64 word"] by simp
    then have "int (be_decode (be_encode 8 (unat (word_of_int p :: 64 word)))) = uint (word_of_int p :: 64 word)"
      by (simp only: be_decode_encode mod_less) simp
    also have "\<dots> = p mod 2 ^ 64" by (simp add: uint_word_of_int)
    also have "\<dots> = p + 2 ^ 64" using that by (subst mod_add_self2[symmetric], subst mod_pos_pos_trivial) simp_all
    finally show ?thesis .
  qed
  have "parsePriceFeedMessage bn (encode_price_message feed p conf e t pt ema emaConf) =
     Inr \<lparr>msgFeedId = feed, msgPrice = bn (be_encode 8 (unat (word_of_int p :: 64 word))), msgConfidence = bn (be_encode 8 conf),
          msgExponent = e, msgPublishTime = bn (be_encode 8 t), msgPrevPublishTime = bn (be_encode 8 pt),
          msgEmaPrice = bn (be_encode 8 (unat (word_of_int ema :: 64 word))), msgEmaConf = bn (be_encode 8 emaConf)\<rparr>"
    using v ex assms(1)
    by (simp add: parsePriceFeedMessage_def)
      (simp add: encode_price_message_def subarray_bounds_append subarray_prefix subarray_full del: append.simps be_encode.simps)
  then show ?thesis using neg by blast
qed

theorem parse_price_message_witness:
  "\<exists>m. parsePriceFeedMessage be_decode (encode_price_message (replicate 32 7) (- 5) 2 (- 8) 100 99 (- 5) 3) = Inr m
     \<and> msgExponent m = - 8 \<and> msgPublishTime m = 100"
  using parse_price_message[of "replicate 32 7" "- 8" be_decode "- 5" 2 100 99 "- 5" 3]
  by (auto simp: be_decode_encode)

end
