(* ===== verification/Sui_Pyth.thy ===== *)
theory Sui_Pyth
  imports Pyth_Accumulator "HOL-Library.Multiset"
begin

section \<open>The Pyth client for Sui: \<^verbatim>\<open>target_chains/sui/sdk/js/src/client.ts\<close>\<close>

text \<open>
  \<^verbatim>\<open>SuiPythClient\<close> looks up the Pyth and Wormhole packages, caches what it found and appends the commands of a price
  update to a transaction.

  The transaction builder is third-party code; what matters of it is which calls the client makes on it, so a
  transaction is the list of commands added, and the result of a command is its index.  The RPC provider is a
  parameter: a function from the requests made so far and the new request to an answer in JSON, so that two
  equal requests may be answered differently.  \<^verbatim>\<open>bcs.ser("vector<u8>", bytes, { maxSize })\<close> is the
  parameter \<open>ser\<close>, which may throw.
\<close>

datatype tx_arg =
    ObjectArg string
  | PureBytes bytes
  | PureJson json
  | GasCoin
  | ClockObject
  | Result nat nat
  | CommandResult nat
  | PureU64 int
  | PureU8 int
  | PureAddress string

datatype tx_command =
    MoveCall (target: string) (type_args: "string list") (call_args: "tx_arg list")
  | SplitCoins tx_arg "tx_arg list"

type_synonym transaction = "tx_command list"

datatype rpc_request =
    GetObject string
  | GetDynamicField string string json

type_synonym provider = "rpc_request list \<Rightarrow> rpc_request \<Rightarrow> json outcome"

record SuiPythClient =
  pythPackageId :: json
  wormholePackageId :: json
  priceTableInfo :: "(json \<times> string) option"
  priceFeedObjectIdCache :: "(string, json) js_map_t"
  baseUpdateFee :: json
  pyStateId :: string
  wormStateId :: string
  requests :: "rpc_request list"

definition pyth_client_new :: "string \<Rightarrow> string \<Rightarrow> SuiPythClient" where
  "pyth_client_new stateId wormId =
     \<lparr>pythPackageId = JUndef, wormholePackageId = JUndef, priceTableInfo = None, priceFeedObjectIdCache = [],
      baseUpdateFee = JUndef, pyStateId = stateId, wormStateId = wormId, requests = []\<rparr>"

definition ask :: "provider \<Rightarrow> rpc_request \<Rightarrow> (SuiPythClient, json) stateful" where
  "ask prov req c = (prov (requests c) req, c\<lparr>requests := requests c @ [req]\<rparr>)"

text \<open>\<^verbatim>\<open>v == "..."\<close> and \<^verbatim>\<open>v === "..."\<close> on JSON, and \<^verbatim>\<open>k in v\<close>.\<close>

fun loose_eq_str :: "json \<Rightarrow> string \<Rightarrow> bool" where
  "loose_eq_str (JStr s) t = (s = t)"
| "loose_eq_str (JArr xs) t = (js_string (JArr xs) = t)"
| "loose_eq_str (JObj ps) t = (js_string (JObj ps) = t)"
| "loose_eq_str v t = False"

fun key_in :: "string \<Rightarrow> json \<Rightarrow> bool outcome" where
  "key_in k (JObj ps) = Inr (map_of ps k \<noteq> None)"
| "key_in k (JArr xs) = Inr False"
| "key_in k v = Inl (type_error ''Cannot use 'in' operator to search for a key in a primitive'')"

definition getBaseUpdateFee :: "provider \<Rightarrow> (SuiPythClient, json) stateful" where
  "getBaseUpdateFee prov =
     s_bind (s_get baseUpdateFee) (\<lambda>fee.
     if fee \<noteq> JUndef then s_return fee
     else
       s_bind (s_get pyStateId) (\<lambda>sid.
       s_bind (ask prov (GetObject sid)) (\<lambda>result.
       s_bind (s_lift (get_prop ''data'' result)) (\<lambda>d.
       let ct = opt_prop ''content'' d in
       if \<not> truthy d \<or> \<not> truthy ct \<or> opt_prop ''dataType'' ct \<noteq> JStr ''moveObject''
       then s_throw (mk_error ''Unable to fetch pyth state object'')
       else
         s_bind (s_lift (get_prop ''base_update_fee'' (own_prop ''fields'' ct))) (\<lambda>v.
         s_bind (s_modify (\<lambda>c. c\<lparr>baseUpdateFee := v\<rparr>)) (\<lambda>_. s_return v))))))"

definition getPackageId :: "provider \<Rightarrow> string \<Rightarrow> (SuiPythClient, json) stateful" where
  "getPackageId prov oid =
     s_bind (ask prov (GetObject oid)) (\<lambda>result.
     s_bind (s_lift (get_prop ''data'' result)) (\<lambda>d.
     let ct = opt_prop ''content'' d in
     if \<not> loose_eq_str (opt_prop ''dataType'' ct) ''moveObject''
     then s_throw (mk_error (''Cannot fetch package id for object '' @ oid))
     else
       (let state = own_prop ''fields'' ct in
        s_bind (s_lift (key_in ''upgrade_cap'' state)) (\<lambda>b.
        if b then
          s_bind (s_lift (get_prop ''fields'' (own_prop ''upgrade_cap'' state))) (\<lambda>fs.
          s_lift (get_prop ''package'' fs))
        else s_throw (mk_error ''upgrade_cap not found'')))))"

definition getWormholePackageId :: "provider \<Rightarrow> (SuiPythClient, json) stateful" where
  "getWormholePackageId prov =
     s_bind (s_get wormholePackageId) (\<lambda>p.
     if truthy p then s_return p
     else s_bind (s_get wormStateId) (\<lambda>sid. s_bind (getPackageId prov sid) (\<lambda>p'.
          s_bind (s_modify (\<lambda>c. c\<lparr>wormholePackageId := p'\<rparr>)) (\<lambda>_. s_return p'))))"

definition getPythPackageId :: "provider \<Rightarrow> (SuiPythClient, json) stateful" where
  "getPythPackageId prov =
     s_bind (s_get pythPackageId) (\<lambda>p.
     if truthy p then s_return p
     else s_bind (s_get pyStateId) (\<lambda>sid. s_bind (getPackageId prov sid) (\<lambda>p'.
          s_bind (s_modify (\<lambda>c. c\<lparr>pythPackageId := p'\<rparr>)) (\<lambda>_. s_return p'))))"

definition getPriceTableInfo :: "provider \<Rightarrow> (SuiPythClient, json \<times> string) stateful" where
  "getPriceTableInfo prov =
     s_bind (s_get priceTableInfo) (\<lambda>info.
     case info of
       Some i \<Rightarrow> s_return i
     | None \<Rightarrow>
         s_bind (s_get pyStateId) (\<lambda>sid.
         s_bind (ask prov (GetDynamicField sid ''vector<u8>'' (JStr ''price_info''))) (\<lambda>result.
         s_bind (s_lift (get_prop ''data'' result)) (\<lambda>d.
         if \<not> truthy d \<or> \<not> truthy (own_prop ''type'' d)
         then s_throw (mk_error ''Price Table not found, contract may not be initialized'')
         else
           (case own_prop ''type'' d of
              JStr ty \<Rightarrow>
                (let ty1 = replace_first ''0x2::table::Table<'' [] ty;
                     ty2 = replace_first ''::price_identifier::PriceIdentifier, 0x2::object::ID>'' [] ty1;
                     i = (own_prop ''objectId'' d, ty2)
                 in s_bind (s_modify (\<lambda>c. c\<lparr>priceTableInfo := Some i\<rparr>)) (\<lambda>_. s_return i))
            | _ \<Rightarrow> s_throw (type_error ''result.data.type.replace is not a function''))))))"

definition getPriceFeedObjectId :: "provider \<Rightarrow> string \<Rightarrow> (SuiPythClient, json) stateful" where
  "getPriceFeedObjectId prov feedId =
     (let normalizedFeedId = replace_first ''0x'' [] feedId in
      s_bind (s_get (\<lambda>c. map_get (priceFeedObjectIdCache c) normalizedFeedId)) (\<lambda>hit.
      case hit of
        Some oid \<Rightarrow> s_return oid
      | None \<Rightarrow>
          s_bind (getPriceTableInfo prov) (\<lambda>(tableId, fieldType).
          s_bind (ask prov (GetDynamicField (js_string tableId) (fieldType @ ''::price_identifier::PriceIdentifier'')
                    (JObj [(''bytes'', JArr (map (\<lambda>b. JNum (uint b)) (from_hex normalizedFeedId)))]))) (\<lambda>result.
          s_bind (s_lift (get_prop ''data'' result)) (\<lambda>d.
          if \<not> truthy d \<or> \<not> truthy (own_prop ''content'' d) then s_return JUndef
          else if own_prop ''dataType'' (own_prop ''content'' d) \<noteq> JStr ''moveObject''
          then s_throw (mk_error ''Price feed type mismatch'')
          else
            s_bind (s_lift (get_prop ''value'' (own_prop ''fields'' (own_prop ''content'' d)))) (\<lambda>v.
            s_bind (s_modify (\<lambda>c. c\<lparr>priceFeedObjectIdCache := map_set normalizedFeedId v (priceFeedObjectIdCache c)\<rparr>)) (\<lambda>_.
            s_return v)))))))"

definition extractVaaBytesFromAccumulatorMessage :: "bytes \<Rightarrow> bytes outcome" where
  "extractVaaBytesFromAccumulatorMessage accumulatorMessage =
     e_bind (read_be 1 accumulatorMessage 6) (\<lambda>trailingPayloadSize.
     let vaaSizeOffset = 7 + trailingPayloadSize + 1 in
     e_bind (read_be 2 accumulatorMessage vaaSizeOffset) (\<lambda>vaaSize.
     let vaaOffset = vaaSizeOffset + 2 in
     Inr (subarray accumulatorMessage vaaOffset (vaaOffset + vaaSize))))"

subsection \<open>Building a price update\<close>

text \<open>The client and the transaction it writes to; \<open>on_client\<close> runs an operation on the client alone.\<close>

type_synonym pyth_run = "SuiPythClient \<times> transaction"

definition on_client :: "(SuiPythClient, 'a) stateful \<Rightarrow> (pyth_run, 'a) stateful" where
  "on_client m s = (case m (fst s) of (r, c) \<Rightarrow> (r, (c, snd s)))"

definition emit :: "tx_command \<Rightarrow> (pyth_run, nat) stateful" where
  "emit cmd s = (Inr (length (snd s)), (fst s, snd s @ [cmd]))"

text \<open>\<open>ClockObject\<close> is \<^verbatim>\<open>tx.object(SUI_CLOCK_OBJECT_ID)\<close>, a constant of the Sui library.\<close>

definition MAX_ARGUMENT_SIZE :: nat where
  "MAX_ARGUMENT_SIZE = 16 * 1024"

fun verify_loop :: "(nat \<Rightarrow> bytes \<Rightarrow> bytes outcome) \<Rightarrow> json \<Rightarrow> bytes list \<Rightarrow> (pyth_run, tx_arg list) stateful" where
  "verify_loop ser pkg [] s = (Inr [], s)"
| "verify_loop ser pkg (vaa # vaas) s =
     s_bind (s_lift (ser MAX_ARGUMENT_SIZE vaa)) (\<lambda>arg.
     s_bind (s_get (\<lambda>s. wormStateId (fst s))) (\<lambda>worm.
     s_bind (emit (MoveCall (js_string pkg @ ''::vaa::parse_and_verify'') []
                [ObjectArg worm, PureBytes arg, ClockObject])) (\<lambda>k.
     s_bind (verify_loop ser pkg vaas) (\<lambda>rs. s_return (Result k 0 # rs))))) s"

definition verifyVaas :: "provider \<Rightarrow> (nat \<Rightarrow> bytes \<Rightarrow> bytes outcome) \<Rightarrow> bytes list \<Rightarrow> (pyth_run, tx_arg list) stateful" where
  "verifyVaas prov ser vaas =
     s_bind (on_client (getWormholePackageId prov)) (\<lambda>pkg. verify_loop ser pkg vaas)"

fun feed_loop :: "provider \<Rightarrow> json \<Rightarrow> nat \<Rightarrow> string list \<Rightarrow> nat \<Rightarrow> tx_arg \<Rightarrow> (pyth_run, json list \<times> tx_arg) stateful" where
  "feed_loop prov pkg coins [] coinId potato s = (Inr ([], potato), s)"
| "feed_loop prov pkg coins (feedId # feedIds) coinId potato s =
     s_bind (on_client (getPriceFeedObjectId prov feedId)) (\<lambda>oid.
     if \<not> truthy oid then s_throw (mk_error (''Price feed '' @ feedId @ '' not found, please create it first''))
     else
       s_bind (s_get (\<lambda>s. pyStateId (fst s))) (\<lambda>sid.
       s_bind (emit (MoveCall (js_string pkg @ ''::pyth::update_single_price_feed'') []
                 [ObjectArg sid, potato, ObjectArg (js_string oid), Result coins coinId, ClockObject])) (\<lambda>k.
       s_bind (feed_loop prov pkg coins feedIds (Suc coinId) (Result k 0)) (\<lambda>(oids, p). s_return (oid # oids, p))))) s"

definition first_update :: "bytes list \<Rightarrow> bytes outcome" where
  "first_update updates =
     (case updates of
        [] \<Rightarrow> Inl (type_error ''Cannot read properties of undefined (reading 'readUint8')'')
      | u # _ \<Rightarrow> Inr u)"

definition too_many_updates :: js_error where
  "too_many_updates = mk_error ''SDK does not support sending multiple accumulator messages in a single transaction''"

definition updatePriceFeeds ::
  "provider \<Rightarrow> (nat \<Rightarrow> bytes \<Rightarrow> bytes outcome) \<Rightarrow> bytes list \<Rightarrow> string list \<Rightarrow> (pyth_run, json list) stateful" where
  "updatePriceFeeds prov ser updates feedIds =
     s_bind (on_client (getPythPackageId prov)) (\<lambda>pkg.
     if length updates > 1 then s_throw too_many_updates
     else
       s_bind (s_lift (first_update updates)) (\<lambda>u.
       s_bind (s_lift (extractVaaBytesFromAccumulatorMessage u)) (\<lambda>vaa.
       s_bind (verifyVaas prov ser [vaa]) (\<lambda>verified.
       s_bind (s_lift (ser MAX_ARGUMENT_SIZE u)) (\<lambda>arg.
       s_bind (s_get (\<lambda>s. pyStateId (fst s))) (\<lambda>sid.
       s_bind (emit (MoveCall (js_string pkg @ ''::pyth::create_authenticated_price_infos_using_accumulator'') []
                 [ObjectArg sid, PureBytes arg, hd verified, ClockObject])) (\<lambda>k.
       s_bind (on_client (getBaseUpdateFee prov)) (\<lambda>fee.
       s_bind (emit (SplitCoins GasCoin (map (\<lambda>_. PureJson fee) feedIds))) (\<lambda>coins.
       s_bind (feed_loop prov pkg coins feedIds 0 (Result k 0)) (\<lambda>(oids, potato).
       s_bind (emit (MoveCall (js_string pkg @ ''::hot_potato_vector::destroy'') [js_string pkg @ ''::price_info::PriceInfo''] [potato])) (\<lambda>_.
       s_return oids)))))))))))"

definition createPriceFeed :: "provider \<Rightarrow> (nat \<Rightarrow> bytes \<Rightarrow> bytes outcome) \<Rightarrow> bytes list \<Rightarrow> (pyth_run, unit) stateful" where
  "createPriceFeed prov ser updates =
     s_bind (on_client (getPythPackageId prov)) (\<lambda>pkg.
     if length updates > 1 then s_throw too_many_updates
     else
       s_bind (s_lift (first_update updates)) (\<lambda>u.
       s_bind (s_lift (extractVaaBytesFromAccumulatorMessage u)) (\<lambda>vaa.
       s_bind (verifyVaas prov ser [vaa]) (\<lambda>verified.
       s_bind (s_lift (ser MAX_ARGUMENT_SIZE u)) (\<lambda>arg.
       s_bind (s_get (\<lambda>s. pyStateId (fst s))) (\<lambda>sid.
       s_bind (emit (MoveCall (js_string pkg @ ''::pyth::create_price_feeds_using_accumulator'') []
                 [ObjectArg sid, PureBytes arg, hd verified, ClockObject])) (\<lambda>_.
       s_return ())))))))"

subsection \<open>Values that must be consumed\<close>

text \<open>
  A Move value without the ability to be dropped must be consumed in the transaction that makes it: the verified VAA, the vector of price infos (a hot potato) and
  coins.  For each function that the transactions call, the table gives the positions of the parameters that take such a value and the number of such
  values it returns, as its Move declaration has them; \<^verbatim>\<open>0x2::coin::zero\<close> returns a coin.
\<close>

definition is_call :: "string \<Rightarrow> tx_command \<Rightarrow> bool" where
  "is_call name cmd \<longleftrightarrow> (case cmd of MoveCall t _ _ \<Rightarrow> suffix name t | SplitCoins _ _ \<Rightarrow> False)"

definition move_signatures :: "(string \<times> nat list \<times> nat) list" where
  "move_signatures =
     [(''::vaa::parse_and_verify'', [], 1),
      (''::pyth::create_authenticated_price_infos_using_accumulator'', [2], 1),
      (''::pyth::create_price_feeds_using_accumulator'', [2], 0),
      (''::pyth::update_single_price_feed'', [1, 3], 1),
      (''::hot_potato_vector::destroy'', [0], 0),
      (''::coin::zero'', [], 1),
      (''::peach_stream::create_stream'', [7], 0),
      (''::peach_stream::initiate_hedge'', [4], 0),
      (''::peach_stream::execute_tranche'', [4], 0),
      (''::peach_stream::claim_stream'', [3], 0),
      (''::peach_stream::cancel_stream'', [3], 0)]"

definition signature_of :: "string \<Rightarrow> nat list \<times> nat" where
  "signature_of t = (case find (\<lambda>e. suffix (fst e) t) move_signatures of None \<Rightarrow> ([], 0) | Some e \<Rightarrow> snd e)"

text \<open>The whole result of a command with one result is its first result.\<close>

fun whole_result :: "tx_arg \<Rightarrow> tx_arg" where
  "whole_result (CommandResult k) = Result k 0"
| "whole_result a = a"

definition linear_args :: "tx_command \<Rightarrow> tx_arg list" where
  "linear_args cmd =
     (case cmd of
        MoveCall t _ as \<Rightarrow> concat (map (\<lambda>i. map whole_result (take 1 (drop i as))) (fst (signature_of t)))
      | SplitCoins _ _ \<Rightarrow> [])"

definition linear_results :: "nat \<Rightarrow> tx_command \<Rightarrow> tx_arg list" where
  "linear_results n cmd =
     map (Result n) [0..<(case cmd of MoveCall t _ _ \<Rightarrow> snd (signature_of t) | SplitCoins _ amounts \<Rightarrow> length amounts)]"

text \<open>
  The chain runs the commands in order: the first has index \<open>n\<close>, and \<open>live\<close> are the values not yet consumed.  A command that takes a value which is not live,
  because it was not made before or was taken already, stops the transaction.  A transaction is balanced when it runs and leaves nothing.
\<close>

fun linear_run :: "nat \<Rightarrow> tx_arg multiset \<Rightarrow> transaction \<Rightarrow> tx_arg multiset option" where
  "linear_run n live [] = Some live"
| "linear_run n live (cmd # cmds) =
     (if mset (linear_args cmd) \<subseteq># live
      then linear_run (Suc n) (live - mset (linear_args cmd) + mset (linear_results n cmd)) cmds else None)"

definition balanced :: "transaction \<Rightarrow> bool" where
  "balanced tx \<longleftrightarrow> linear_run 0 {#} tx = Some {#}"

lemma linear_run_append:
  "linear_run n live (xs @ ys) = Option.bind (linear_run n live xs) (\<lambda>l. linear_run (n + length xs) l ys)"
  by (induction xs arbitrary: n live) simp_all

text \<open>Values that other commands will take do not matter.\<close>

lemma linear_run_frame: "linear_run n live cmds = Some l \<Longrightarrow> linear_run n (live + extra) cmds = Some (l + extra)"
proof (induction cmds arbitrary: n live)
  case (Cons cmd cmds)
  then have sub: "mset (linear_args cmd) \<subseteq># live"
    and rest: "linear_run (Suc n) (live - mset (linear_args cmd) + mset (linear_results n cmd)) cmds = Some l"
    by (auto split: if_splits)
  have "live + extra - mset (linear_args cmd) + mset (linear_results n cmd) = live - mset (linear_args cmd) + mset (linear_results n cmd) + extra"
    using multiset_diff_union_assoc[OF sub, of extra] by (simp add: ac_simps)
  moreover have "mset (linear_args cmd) \<subseteq># live + extra" using sub by (simp add: subset_mset.add_increasing2)
  ultimately show ?case using Cons.IH[OF rest] by simp
qed simp

lemma linear_run_closed: "linear_run n {#} cmds = Some {#} \<Longrightarrow> linear_run n live cmds = Some live"
  using linear_run_frame[of n "{#}" cmds "{#}" live] by simp

lemma balanced_append: "linear_run (length xs) {#} ys = Some {#} \<Longrightarrow> balanced (xs @ ys) \<longleftrightarrow> balanced xs"
  by (cases "linear_run 0 {#} xs") (auto simp: balanced_def linear_run_append linear_run_closed)

lemma suffix_rev: "suffix xs ys \<longleftrightarrow> prefix (rev xs) (rev ys)"
  by (metis suffix_to_prefix)

lemma signatures [simp]:
  "signature_of (p @ ''::vaa::parse_and_verify'') = ([], 1)"
  "signature_of (p @ ''::pyth::create_authenticated_price_infos_using_accumulator'') = ([2], 1)"
  "signature_of (p @ ''::pyth::create_price_feeds_using_accumulator'') = ([2], 0)"
  "signature_of (p @ ''::pyth::update_single_price_feed'') = ([1, 3], 1)"
  "signature_of (p @ ''::hot_potato_vector::destroy'') = ([0], 0)"
  "signature_of (p @ ''::coin::zero'') = ([], 1)"
  "signature_of (p @ ''::peach_stream::create_stream'') = ([7], 0)"
  "signature_of (p @ ''::peach_stream::initiate_hedge'') = ([4], 0)"
  "signature_of (p @ ''::peach_stream::execute_tranche'') = ([4], 0)"
  "signature_of (p @ ''::peach_stream::claim_stream'') = ([3], 0)"
  "signature_of (p @ ''::peach_stream::cancel_stream'') = ([3], 0)"
  by (simp_all add: signature_of_def move_signatures_def suffix_rev)

text \<open>The objects that the feed updates of a transaction write to, in order.\<close>

definition updated_objects :: "transaction \<Rightarrow> tx_arg list" where
  "updated_objects cmds = concat (map (\<lambda>c. if is_call ''::pyth::update_single_price_feed'' c then take 1 (drop 2 (call_args c)) else []) cmds)"

lemma update_calls [simp]:
  "is_call ''::pyth::update_single_price_feed'' (MoveCall (p @ ''::vaa::parse_and_verify'') ts as) \<longleftrightarrow> False"
  "is_call ''::pyth::update_single_price_feed'' (MoveCall (p @ ''::pyth::create_authenticated_price_infos_using_accumulator'') ts as) \<longleftrightarrow> False"
  "is_call ''::pyth::update_single_price_feed'' (MoveCall (p @ ''::pyth::update_single_price_feed'') ts as) \<longleftrightarrow> True"
  "is_call ''::pyth::update_single_price_feed'' (MoveCall (p @ ''::hot_potato_vector::destroy'') ts as) \<longleftrightarrow> False"
  "is_call ''::pyth::update_single_price_feed'' (MoveCall (p @ ''::coin::zero'') ts as) \<longleftrightarrow> False"
  "is_call ''::pyth::update_single_price_feed'' (MoveCall (p @ ''::peach_stream::claim_stream'') ts as) \<longleftrightarrow> False"
  "is_call ''::pyth::update_single_price_feed'' (MoveCall (p @ ''::peach_stream::cancel_stream'') ts as) \<longleftrightarrow> False"
  "is_call ''::pyth::update_single_price_feed'' (SplitCoins c cs) \<longleftrightarrow> False"
  by (simp_all add: is_call_def suffix_rev)

lemma updated_objects_simps [simp]:
  "updated_objects [] = []"
  "updated_objects (c # cs) = (if is_call ''::pyth::update_single_price_feed'' c then take 1 (drop 2 (call_args c)) else []) @ updated_objects cs"
  "updated_objects (xs @ ys) = updated_objects xs @ updated_objects ys"
  by (simp_all add: updated_objects_def)

lemma on_client_split: "on_client m s = (r, s') \<longleftrightarrow> (\<exists>c'. m (fst s) = (r, c') \<and> s' = (c', snd s))"
  by (auto simp: on_client_def split: prod.splits)

lemma emit_split: "emit cmd s = (r, s') \<longleftrightarrow> r = Inr (length (snd s)) \<and> s' = (fst s, snd s @ [cmd])"
  by (auto simp: emit_def)

lemmas run_splits = s_bind_split on_client_split emit_split s_get_def s_return_def s_throw_def s_lift_def s_modify_def

subsection \<open>Which objects are updated\<close>

lemma ask_cache: "ask prov req c = (r, c') \<Longrightarrow> priceFeedObjectIdCache c' = priceFeedObjectIdCache c \<and> priceTableInfo c' = priceTableInfo c"
  by (auto simp: ask_def)

lemma getPackageId_cache:
  "getPackageId prov oid c = (r, c') \<Longrightarrow> priceFeedObjectIdCache c' = priceFeedObjectIdCache c \<and> priceTableInfo c' = priceTableInfo c"
  by (auto simp: getPackageId_def run_splits Let_def dest!: ask_cache split: if_splits)

lemma lookup_cache:
  "getPythPackageId prov c = (r, c') \<Longrightarrow> priceFeedObjectIdCache c' = priceFeedObjectIdCache c \<and> priceTableInfo c' = priceTableInfo c"
  "getWormholePackageId prov c = (r, c') \<Longrightarrow> priceFeedObjectIdCache c' = priceFeedObjectIdCache c \<and> priceTableInfo c' = priceTableInfo c"
  "getBaseUpdateFee prov c = (r, c') \<Longrightarrow> priceFeedObjectIdCache c' = priceFeedObjectIdCache c \<and> priceTableInfo c' = priceTableInfo c"
  by (auto simp: getPythPackageId_def getWormholePackageId_def getBaseUpdateFee_def run_splits Let_def
      dest!: ask_cache getPackageId_cache split: if_splits)

lemma verifyVaas_cache:
  "verifyVaas prov ser [vaa] (c, tx) = (r, (c', tx')) \<Longrightarrow> priceFeedObjectIdCache c' = priceFeedObjectIdCache c \<and> priceTableInfo c' = priceTableInfo c"
  by (auto simp: verifyVaas_def run_splits dest!: lookup_cache)

text \<open>
  What the object of a feed is: what the client has cached under the identifier without \<^verbatim>\<open>0x\<close>, or what the node shows under its bytes in the price table of Pyth, once the
  client knows that table.
\<close>

definition feed_key :: "string \<Rightarrow> json" where
  "feed_key f = JObj [(''bytes'', JArr (map (\<lambda>b. JNum (uint b)) (from_hex (replace_first ''0x'' [] f))))]"

definition shown_object :: "json \<Rightarrow> json" where
  "shown_object result = own_prop ''value'' (own_prop ''fields'' (own_prop ''content'' (own_prop ''data'' result)))"

definition object_of_feed :: "provider \<Rightarrow> SuiPythClient \<Rightarrow> SuiPythClient \<Rightarrow> string \<Rightarrow> json \<Rightarrow> bool" where
  "object_of_feed prov c c' f oid \<longleftrightarrow>
     map_get (priceFeedObjectIdCache c) (replace_first ''0x'' [] f) = Some oid \<or>
     (\<exists>tableId fieldType h result. priceTableInfo c' = Some (tableId, fieldType) \<and>
        prov h (GetDynamicField (js_string tableId) (fieldType @ ''::price_identifier::PriceIdentifier'') (feed_key f)) = Inr result \<and> oid = shown_object result)"

definition table_kept :: "SuiPythClient \<Rightarrow> SuiPythClient \<Rightarrow> bool" where
  "table_kept c c' \<longleftrightarrow> (\<forall>t. priceTableInfo c = Some t \<longrightarrow> priceTableInfo c' = Some t)"

lemma table_info:
  assumes "getPriceTableInfo prov c = (Inr info, c')"
  shows "priceTableInfo c' = Some info" "priceFeedObjectIdCache c' = priceFeedObjectIdCache c" "table_kept c c'"
  using assms
  by (auto simp: getPriceTableInfo_def run_splits Let_def table_kept_def dest!: ask_cache split: option.splits if_splits json.splits)

lemma find_object:
  assumes "getPriceFeedObjectId prov f c = (Inr oid, c')" "truthy oid"
  shows "object_of_feed prov c c' f oid \<and> table_kept c c' \<and>
    (\<forall>g. map_get (priceFeedObjectIdCache c') g = (if g = replace_first ''0x'' [] f then Some oid else map_get (priceFeedObjectIdCache c) g))"
proof (cases "map_get (priceFeedObjectIdCache c) (replace_first ''0x'' [] f)")
  case (Some v)
  then have "oid = v" "c' = c" using assms(1) by (auto simp: getPriceFeedObjectId_def run_splits Let_def)
  then show ?thesis using Some by (auto simp: object_of_feed_def table_kept_def)
next
  case None
  let ?n = "replace_first ''0x'' [] f"
  obtain tableId fieldType c1 result where info: "getPriceTableInfo prov c = (Inr (tableId, fieldType), c1)"
    and r: "prov (requests c1) (GetDynamicField (js_string tableId) (fieldType @ ''::price_identifier::PriceIdentifier'') (feed_key f)) = Inr result"
    and f: "priceTableInfo c' = priceTableInfo c1" "priceFeedObjectIdCache c' = map_set ?n oid (priceFeedObjectIdCache c1)"
    and oid: "oid = shown_object result"
    using assms None
    by (auto simp: getPriceFeedObjectId_def run_splits Let_def ask_def feed_key_def shown_object_def get_prop_def split: if_splits prod.splits)
  note t = table_info[OF info]
  have "object_of_feed prov c c' f oid" using r oid t(1) f(1) unfolding object_of_feed_def by auto
  moreover have "table_kept c c'" using t(3) f(1) by (simp add: table_kept_def)
  ultimately show ?thesis using f(2) t(2) by simp
qed

lemma object_of_feed_mono: "object_of_feed prov c c1 f oid \<Longrightarrow> table_kept c1 c' \<Longrightarrow> object_of_feed prov c c' f oid"
  unfolding object_of_feed_def table_kept_def by blast

lemma object_of_feed_later:
  assumes "object_of_feed prov c1 c' f oid" "object_of_feed prov c c1 g v" "table_kept c1 c'"
    "\<And>k. map_get (priceFeedObjectIdCache c1) k = (if k = replace_first ''0x'' [] g then Some v else map_get (priceFeedObjectIdCache c) k)"
  shows "object_of_feed prov c c' f oid"
proof (cases "replace_first ''0x'' [] f = replace_first ''0x'' [] g")
  case True
  have "object_of_feed prov c c' g v" by (rule object_of_feed_mono[OF assms(2,3)])
  then have "object_of_feed prov c c' f v" by (simp add: object_of_feed_def feed_key_def True)
  moreover have "oid = v" if "map_get (priceFeedObjectIdCache c1) (replace_first ''0x'' [] f) = Some oid" using that assms(4) True by simp
  ultimately show ?thesis using assms(1) unfolding object_of_feed_def by blast
next
  case False
  then show ?thesis using assms(1,4) unfolding object_of_feed_def by simp
qed

lemma feed_loop_linear:
  assumes "feed_loop prov pkg coins fs k potato s = (Inr (oids, p), s')"
  shows "\<exists>cmds. snd s' = snd s @ cmds \<and> updated_objects cmds = map (\<lambda>oid. ObjectArg (js_string oid)) oids \<and>
     linear_run (length (snd s)) (add_mset (whole_result potato) (mset (map (Result coins) [k..<k + length fs]))) cmds = Some {#whole_result p#} \<and>
     list_all2 (\<lambda>f oid. truthy oid \<and> object_of_feed prov (fst s) (fst s') f oid) fs oids \<and> table_kept (fst s) (fst s')"
  using assms
proof (induction fs arbitrary: k potato s oids)
  case Nil
  then show ?case by (auto simp: table_kept_def)
next
  case (Cons f fs)
  let ?cmd = "\<lambda>oid c. MoveCall (js_string pkg @ ''::pyth::update_single_price_feed'') []
      [ObjectArg (pyStateId c), potato, ObjectArg (js_string oid), Result coins k, ClockObject]"
  from Cons.prems obtain oid c oids' where
    find: "getPriceFeedObjectId prov f (fst s) = (Inr oid, c)" and t: "truthy oid" and o: "oids = oid # oids'" and
    rest: "feed_loop prov pkg coins fs (Suc k) (Result (length (snd s)) 0) (c, snd s @ [?cmd oid c]) = (Inr (oids', p), s')"
    by (auto simp: run_splits split: if_splits prod.splits)
  from Cons.IH[OF rest] obtain cmds where cmds: "snd s' = snd s @ [?cmd oid c] @ cmds"
    "updated_objects cmds = map (\<lambda>oid. ObjectArg (js_string oid)) oids'"
    "linear_run (Suc (length (snd s))) (add_mset (Result (length (snd s)) 0) (mset (map (Result coins) [Suc k..<Suc k + length fs]))) cmds = Some {#whole_result p#}"
    "list_all2 (\<lambda>f oid. truthy oid \<and> object_of_feed prov c (fst s') f oid) fs oids'" "table_kept c (fst s')" by auto
  from find_object[OF find t] have found: "object_of_feed prov (fst s) c f oid" "table_kept (fst s) c"
    "\<And>g. map_get (priceFeedObjectIdCache c) g = (if g = replace_first ''0x'' [] f then Some oid else map_get (priceFeedObjectIdCache (fst s)) g)" by auto
  have range: "[k..<k + length (f # fs)] = k # [Suc k..<Suc k + length fs]" by (simp add: upt_conv_Cons del: upt_Suc)
  have "linear_run (length (snd s)) (add_mset (whole_result potato) (mset (map (Result coins) [k..<k + length (f # fs)]))) (?cmd oid c # cmds) = Some {#whole_result p#}"
    unfolding range using cmds(3) by (simp add: linear_args_def linear_results_def numeral_3_eq_3 del: upt_Suc)
  moreover have "list_all2 (\<lambda>f oid. truthy oid \<and> object_of_feed prov (fst s) (fst s') f oid) fs oids'"
    using cmds(4) by (rule list_all2_mono) (use object_of_feed_later[OF _ found(1) cmds(5) found(3)] in blast)
  moreover have "object_of_feed prov (fst s) (fst s') f oid" by (rule object_of_feed_mono[OF found(1) cmds(5)])
  moreover have "table_kept (fst s) (fst s')" using found(2) cmds(5) by (simp add: table_kept_def)
  ultimately show ?case
    using t o cmds(1,2) by (intro exI[of _ "?cmd oid c # cmds"]) simp
qed

lemma verify_one:
  assumes "verifyVaas prov ser [vaa] s = (Inr vs, s')"
  shows "\<exists>p as. snd s' = snd s @ [MoveCall (p @ ''::vaa::parse_and_verify'') [] as] \<and> vs = [Result (length (snd s)) 0]"
  using assms by (auto simp: verifyVaas_def run_splits)

lemma updatePriceFeeds_commands:
  assumes "updatePriceFeeds prov ser updates feedIds (c, tx) = (Inr oids, (c', tx'))"
  shows "\<exists>cmds. tx' = tx @ cmds \<and> linear_run (length tx) {#} cmds = Some {#} \<and> updated_objects cmds = map (\<lambda>oid. ObjectArg (js_string oid)) oids \<and>
     list_all2 (\<lambda>f oid. truthy oid \<and> object_of_feed prov c c' f oid) feedIds oids"
proof -
  from assms obtain pkg c1 u vaa vs s2 sid arg s3 fee c4 k s4 p where
    c1: "getPythPackageId prov c = (Inr pkg, c1)" and v: "verifyVaas prov ser [vaa] (c1, tx) = (Inr vs, s2)"
    and k: "k = length (snd s2)" and s3: "s3 = (fst s2, snd s2 @ [MoveCall (js_string pkg @ ''::pyth::create_authenticated_price_infos_using_accumulator'') []
                 [ObjectArg sid, PureBytes arg, hd vs, ClockObject]])" and c4: "getBaseUpdateFee prov (fst s3) = (Inr fee, c4)"
    and fl: "feed_loop prov pkg (length (snd s3)) feedIds 0 (Result k 0) (c4, snd s3 @ [SplitCoins GasCoin (map (\<lambda>_. PureJson fee) feedIds)]) = (Inr (oids, p), s4)"
    and fin: "c' = fst s4" "tx' = snd s4 @ [MoveCall (js_string pkg @ ''::hot_potato_vector::destroy'') [js_string pkg @ ''::price_info::PriceInfo''] [p]]"
    by (fastforce simp: updatePriceFeeds_def run_splits split: if_splits prod.splits)
  from verify_one[OF v] obtain w as where s2: "snd s2 = tx @ [MoveCall (w @ ''::vaa::parse_and_verify'') [] as]" and vs: "vs = [Result (length tx) 0]" by auto
  from feed_loop_linear[OF fl] obtain cmds where
    f: "snd s4 = snd s3 @ [SplitCoins GasCoin (map (\<lambda>_. PureJson fee) feedIds)] @ cmds"
      "updated_objects cmds = map (\<lambda>oid. ObjectArg (js_string oid)) oids"
      "linear_run (Suc (length (snd s3))) (add_mset (Result k 0) (mset (map (Result (length (snd s3))) [0..<length feedIds]))) cmds = Some {#whole_result p#}"
      "list_all2 (\<lambda>f oid. truthy oid \<and> object_of_feed prov c4 c' f oid) feedIds oids" by (auto simp: fin(1))
  have cache: "priceFeedObjectIdCache c4 = priceFeedObjectIdCache c"
    using lookup_cache(1)[OF c1] verifyVaas_cache[of prov ser vaa c1 tx _ "fst s2" "snd s2"] v lookup_cache(3)[OF c4] s3 by simp
  let ?pre = "[MoveCall (w @ ''::vaa::parse_and_verify'') [] as,
      MoveCall (js_string pkg @ ''::pyth::create_authenticated_price_infos_using_accumulator'') [] [ObjectArg sid, PureBytes arg, Result (length tx) 0, ClockObject],
      SplitCoins GasCoin (map (\<lambda>_. PureJson fee) feedIds)]"
  let ?post = "[MoveCall (js_string pkg @ ''::hot_potato_vector::destroy'') [js_string pkg @ ''::price_info::PriceInfo''] [p]]"
  have l: "length (snd s3) = length tx + 2" "k = Suc (length tx)" by (simp_all add: s3 s2 k)
  have "linear_run (length tx) {#} ?pre = Some (add_mset (Result k 0) (mset (map (Result (length (snd s3))) [0..<length feedIds])))"
    by (simp add: linear_args_def linear_results_def l)
  moreover have "linear_run n {#whole_result p#} ?post = Some {#}" for n
    by (simp add: linear_args_def linear_results_def)
  moreover have "length tx + length ?pre = Suc (length (snd s3))" by (simp add: l)
  ultimately have "linear_run (length tx) {#} (?pre @ cmds @ ?post) = Some {#}"
    using f(3) by (simp only: linear_run_append bind.simps)
  moreover have "tx' = tx @ ?pre @ cmds @ ?post" by (simp add: fin(2) f(1) s3 s2 vs)
  moreover have "updated_objects (?pre @ cmds @ ?post) = map (\<lambda>oid. ObjectArg (js_string oid)) oids" using f(2) by simp
  moreover have "list_all2 (\<lambda>f oid. truthy oid \<and> object_of_feed prov c c' f oid) feedIds oids"
    using f(4) by (simp add: object_of_feed_def cache)
  ultimately show ?thesis by blast
qed

text \<open>
  C23.  When the client reports success then, for every provider and serialiser, the commands it appended run in their order with nothing left over: the verified VAA, every
  vector of price infos and every fee coin is taken by exactly one command, after the one that makes it.  They update one object per requested feed, in
  order, namely the objects that are returned; and each of these is the object of its feed, from the cache or from the price table of Pyth.
\<close>

theorem updatePriceFeeds_linear:
  assumes "updatePriceFeeds prov ser updates feedIds (c, tx) = (Inr oids, (c', tx'))"
  shows "\<exists>cmds. tx' = tx @ cmds \<and> linear_run (length tx) {#} cmds = Some {#} \<and> updated_objects cmds = map (\<lambda>oid. ObjectArg (js_string oid)) oids \<and>
     list_all2 (\<lambda>f oid. truthy oid \<and> object_of_feed prov c c' f oid) feedIds oids"
  using assms by (rule updatePriceFeeds_commands)

text \<open>The same for the transaction that creates feeds: it consumes the VAA.\<close>

lemma createPriceFeed_balanced:
  assumes "createPriceFeed prov ser updates (c, tx) = (Inr (), (c', tx'))"
  shows "\<exists>cmds. tx' = tx @ cmds \<and> linear_run (length tx) {#} cmds = Some {#}"
proof -
  from assms obtain pkg u vaa vs s1 s2 sid arg where v: "verifyVaas prov ser [vaa] s1 = (Inr vs, s2)" and s1: "snd s1 = tx"
    and tx': "tx' = snd s2 @ [MoveCall (js_string pkg @ ''::pyth::create_price_feeds_using_accumulator'') [] [ObjectArg sid, PureBytes arg, hd vs, ClockObject]]"
    by (fastforce simp: createPriceFeed_def run_splits split: if_splits prod.splits)
  from verify_one[OF v] s1 obtain w as where "snd s2 = tx @ [MoveCall (w @ ''::vaa::parse_and_verify'') [] as]" "vs = [Result (length tx) 0]" by auto
  then show ?thesis
    by (intro exI[of _ "[MoveCall (w @ ''::vaa::parse_and_verify'') [] as,
      MoveCall (js_string pkg @ ''::pyth::create_price_feeds_using_accumulator'') [] [ObjectArg sid, PureBytes arg, Result (length tx) 0, ClockObject]]"])
      (simp add: tx' linear_args_def linear_results_def)
qed

subsection \<open>A deployed Pyth is updated\<close>

text \<open>The state object of a package as the node renders it.\<close>

definition state_object :: "string \<Rightarrow> json \<Rightarrow> json" where
  "state_object pkg fee =
     JObj [(''data'', JObj [(''content'', JObj [(''dataType'', JStr ''moveObject''),
        (''fields'', JObj [(''upgrade_cap'', JObj [(''fields'', JObj [(''package'', JStr pkg)])]), (''base_update_fee'', fee)])])])]"

definition deployed :: "provider \<Rightarrow> SuiPythClient \<Rightarrow> string \<Rightarrow> string \<Rightarrow> json \<Rightarrow> bool" where
  "deployed prov c pkg wpkg fee \<longleftrightarrow>
     (\<forall>h. prov h (GetObject (pyStateId c)) = Inr (state_object pkg fee)) \<and>
     (\<forall>h. prov h (GetObject (wormStateId c)) = Inr (state_object wpkg fee))"

definition cached :: "SuiPythClient \<Rightarrow> string \<Rightarrow> json" where
  "cached c f = the (map_get (priceFeedObjectIdCache c) (replace_first ''0x'' [] f))"

definition feeds_cached :: "SuiPythClient \<Rightarrow> string list \<Rightarrow> bool" where
  "feeds_cached c fs \<longleftrightarrow>
     list_all (\<lambda>f. case map_get (priceFeedObjectIdCache c) (replace_first ''0x'' [] f) of None \<Rightarrow> False | Some v \<Rightarrow> truthy v) fs"

lemma feed_loop_cached:
  assumes "feeds_cached c fs"
  shows "\<exists>p tx'. feed_loop prov pkg coins fs k potato (c, tx) = (Inr (map (cached c) fs, p), (c, tx'))"
  using assms
proof (induction fs arbitrary: k potato tx)
  case Nil
  then show ?case by simp
next
  case (Cons f fs)
  then obtain v where v: "map_get (priceFeedObjectIdCache c) (replace_first ''0x'' [] f) = Some v" "truthy v" "feeds_cached c fs"
    by (auto simp: feeds_cached_def split: option.splits)
  then have g: "on_client (getPriceFeedObjectId prov f) (c, tx') = (Inr v, (c, tx'))" for tx'
    by (simp add: on_client_def getPriceFeedObjectId_def Let_def s_return_def)
  let ?cmd = "MoveCall (js_string pkg @ ''::pyth::update_single_price_feed'') []
      [ObjectArg (pyStateId c), potato, ObjectArg (js_string v), Result coins k, ClockObject]"
  from Cons.IH[OF v(3), of "Suc k" "Result (length tx) 0" "tx @ [?cmd]"] obtain p tx' where
    "feed_loop prov pkg coins fs (Suc k) (Result (length tx) 0) (c, tx @ [?cmd]) = (Inr (map (cached c) fs, p), (c, tx'))" by blast
  then show ?case using v g by (simp add: emit_def s_return_def cached_def)
qed

text \<open>A client whose caches are empty or agree with the deployment.\<close>

definition in_sync :: "provider \<Rightarrow> string \<Rightarrow> string \<Rightarrow> json \<Rightarrow> SuiPythClient \<Rightarrow> bool" where
  "in_sync prov pkg wpkg fee c \<longleftrightarrow>
     deployed prov c pkg wpkg fee \<and> pkg \<noteq> [] \<and> wpkg \<noteq> [] \<and> fee \<noteq> JUndef
     \<and> pythPackageId c \<in> {JUndef, JStr pkg} \<and> wormholePackageId c \<in> {JUndef, JStr wpkg} \<and> baseUpdateFee c \<in> {JUndef, fee}"

lemma deployed_lookups:
  assumes "in_sync prov pkg wpkg fee c"
  shows "\<exists>c'. getPythPackageId prov c = (Inr (JStr pkg), c') \<and> in_sync prov pkg wpkg fee c'
      \<and> priceFeedObjectIdCache c' = priceFeedObjectIdCache c"
    and "\<exists>c'. getWormholePackageId prov c = (Inr (JStr wpkg), c') \<and> in_sync prov pkg wpkg fee c'
      \<and> priceFeedObjectIdCache c' = priceFeedObjectIdCache c"
    and "\<exists>c'. getBaseUpdateFee prov c = (Inr fee, c') \<and> in_sync prov pkg wpkg fee c'
      \<and> priceFeedObjectIdCache c' = priceFeedObjectIdCache c"
  using assms
  by (auto simp: in_sync_def getPythPackageId_def getWormholePackageId_def getBaseUpdateFee_def getPackageId_def ask_def s_bind_def
      deployed_def state_object_def get_prop_def opt_prop_def Let_def stateful_defs)

lemma update_succeeds:
  assumes "in_sync prov pkg wpkg fee c" and "feeds_cached c feedIds"
    and "extractVaaBytesFromAccumulatorMessage u = Inr vaa"
    and "ser MAX_ARGUMENT_SIZE vaa = Inr sv" and "ser MAX_ARGUMENT_SIZE u = Inr su"
  shows "\<exists>c' tx'. updatePriceFeeds prov ser [u] feedIds (c, tx) = (Inr (map (cached c) feedIds), (c', tx'))"
proof -
  obtain c1 where c1: "getPythPackageId prov c = (Inr (JStr pkg), c1)" "in_sync prov pkg wpkg fee c1"
    "priceFeedObjectIdCache c1 = priceFeedObjectIdCache c" using deployed_lookups(1)[OF assms(1)] by blast
  obtain c2 where c2: "getWormholePackageId prov c1 = (Inr (JStr wpkg), c2)" "in_sync prov pkg wpkg fee c2"
    "priceFeedObjectIdCache c2 = priceFeedObjectIdCache c" using deployed_lookups(2)[OF c1(2)] c1(3) by auto
  obtain c3 where c3: "getBaseUpdateFee prov c2 = (Inr fee, c3)"
    "priceFeedObjectIdCache c3 = priceFeedObjectIdCache c" using deployed_lookups(3)[OF c2(2)] c2(3) by auto
  have "feeds_cached c3 feedIds" and ca: "cached c3 = cached c"
    using assms(2) c3(2) by (simp_all add: feeds_cached_def cached_def fun_eq_iff)
  note fl = feed_loop_cached[OF this(1), unfolded ca]
  show ?thesis
    using assms(3-5) c1(1) c2(1) c3(1) fl[of prov "JStr pkg"]
    by (fastforce simp: updatePriceFeeds_def verifyVaas_def first_update_def run_splits)
qed

text \<open>
  On a deployment the node can show, with the feeds' objects cached, an update of one
  accumulator message succeeds and returns the cached objects.
\<close>

theorem updatePriceFeeds_succeeds:
  assumes "in_sync prov pkg wpkg fee c" and "feeds_cached c feedIds"
    and "extractVaaBytesFromAccumulatorMessage u = Inr vaa"
    and "ser MAX_ARGUMENT_SIZE vaa = Inr sv" and "ser MAX_ARGUMENT_SIZE u = Inr su"
  shows "\<exists>c' tx'. updatePriceFeeds prov ser [u] feedIds (c, tx) = (Inr (map (cached c) feedIds), (c', tx'))"
  using assms by (rule update_succeeds)

definition demo_provider :: provider where
  "demo_provider h req = (case req of GetObject _ \<Rightarrow> Inr (state_object ''0xp'' (JStr ''1'')) | _ \<Rightarrow> Inr JNull)"

definition demo_pyth :: SuiPythClient where
  "demo_pyth = (pyth_client_new ''0xpyth'' ''0xworm'')\<lparr>priceFeedObjectIdCache := [(''feed'', JStr ''0xinfo'')]\<rparr>"

definition demo_ser :: "nat \<Rightarrow> bytes \<Rightarrow> bytes outcome" where
  "demo_ser maxSize bs = (if length bs \<le> maxSize then Inr bs else Inl (mk_error ''too large''))"

definition demo_message :: bytes where
  "demo_message = encode_accumulator [5] 0 demo_accumulator"

lemma demo_pyth_facts:
  "in_sync demo_provider ''0xp'' ''0xp'' (JStr ''1'') demo_pyth" "feeds_cached demo_pyth [''0xfeed'']"
  "cached demo_pyth ''0xfeed'' = JStr ''0xinfo''"
  "extractVaaBytesFromAccumulatorMessage demo_message = Inr [1, 2, 3]"
  "demo_ser MAX_ARGUMENT_SIZE [1, 2, 3] = Inr [1, 2, 3]" "demo_ser MAX_ARGUMENT_SIZE demo_message = Inr demo_message"
  by (simp_all add: in_sync_def deployed_def demo_provider_def demo_pyth_def pyth_client_new_def feeds_cached_def cached_def
      starts_with_def map_get_def demo_ser_def MAX_ARGUMENT_SIZE_def) code_simp+

theorem updatePriceFeeds_succeeds_witness:
  "\<exists>c' tx'. updatePriceFeeds demo_provider demo_ser [demo_message] [''0xfeed''] (demo_pyth, []) = (Inr [JStr ''0xinfo''], (c', tx'))"
  using updatePriceFeeds_succeeds[where ser = demo_ser, OF demo_pyth_facts(1,2,4,5,6), of "[]"] demo_pyth_facts(3) by simp

theorem updatePriceFeeds_linear_witness:
  "\<exists>cmds. linear_run 0 {#} cmds = Some {#} \<and> updated_objects cmds = [ObjectArg ''0xinfo'']"
proof -
  obtain c' tx' where
    "updatePriceFeeds demo_provider demo_ser [demo_message] [''0xfeed''] (demo_pyth, []) = (Inr (map (cached demo_pyth) [''0xfeed'']), (c', tx'))"
    using update_succeeds[where ser = demo_ser, OF demo_pyth_facts(1,2,4,5,6), of "[]"] by blast
  from updatePriceFeeds_linear[OF this] show ?thesis by (auto simp: demo_pyth_facts(3))
qed

text \<open>
  The client takes the same VAA out of an accumulator message as the full parser does.
\<close>

theorem extractVaa_agrees:
  assumes "parseAccumulatorUpdateData d = Inr a"
  shows "extractVaaBytesFromAccumulatorMessage d = Inr (accVaa a)"
proof -
  from parse_accumulator_sound[OF assms] obtain trailing pt where
    ok: "accumulator_ok trailing a" and d: "d = encode_accumulator trailing pt a" by blast
  have l: "length trailing < 256" "length (accVaa a) < 65536" using ok by (auto simp: accumulator_ok_def)
  show ?thesis
    using header_reads[OF l, of pt "be_encode 1 (length (accUpdates a)) @ concat (map encode_update (accUpdates a))"]
    by (simp add: extractVaaBytesFromAccumulatorMessage_def d encode_accumulator_def Let_def add.commute add.left_commute)
qed

theorem extractVaa_agrees_witness:
  "extractVaaBytesFromAccumulatorMessage (encode_accumulator [5] 0 demo_accumulator) = Inr [1, 2, 3]"
proof -
  have "parseAccumulatorUpdateData (encode_accumulator [5] 0 demo_accumulator) = Inr demo_accumulator"
    by code_simp
  from extractVaa_agrees[OF this] show ?thesis by (simp add: demo_accumulator_def)
qed

end
