(* ===== verification/Tx_Builder.thy ===== *)
theory Tx_Builder
  imports Indexer Sui_Pyth
begin

section \<open>Building and submitting transactions: \<^verbatim>\<open>apps/keeper/src/tx-builder.ts\<close>\<close>

text \<open>
  The transactions of a hedge and of a claim, and the pipeline that builds and signs one through the RPC pool and then
  submits the signed bytes through the pool.  Signing, submitting and waiting are third-party code: parameters, one
  record per attempt, that may throw.  \<open>signed\<close> is the pair of transaction bytes and signature.
\<close>

type_synonym signed = "string \<times> string"

record ptb_env =
  ptbProvider :: provider
  ptbSer :: "nat \<Rightarrow> bytes \<Rightarrow> bytes outcome"
  ptbSign :: "string \<Rightarrow> jsnum \<Rightarrow> transaction \<Rightarrow> signed outcome"
  ptbSubmit :: "signed \<Rightarrow> json outcome"
  ptbWait :: "json \<Rightarrow> unit outcome"
  ptbMs :: "nat option"

record tx_builder_config =
  txConfig :: KeeperConfig
  txAddress :: string

definition SUI_CLOCK :: string where
  "SUI_CLOCK = ''0x6''"

definition BUILD_TIMEOUT_MS :: jsnum where
  "BUILD_TIMEOUT_MS = Num 90000"

definition EXECUTE_TIMEOUT_MS :: jsnum where
  "EXECUTE_TIMEOUT_MS = Num 30000"

definition DEEP_TYPE :: string where
  "DEEP_TYPE = ''0xdeeb7a4662eec9f2f3def03fb937a663dddaa2e215b8078a284d026b7946c270::deep::DEEP''"

subsection \<open>The price update\<close>

definition js_first :: "json list \<Rightarrow> json" where
  "js_first xs = (case xs of [] \<Rightarrow> JUndef | x # _ \<Rightarrow> x)"

definition inject_price_info :: "KeeperConfig \<Rightarrow> string \<Rightarrow> SuiPythClient \<Rightarrow> SuiPythClient" where
  "inject_price_info config feedId pc =
     (if pythPriceInfoObjectId config \<noteq> []
      then pc\<lparr>priceFeedObjectIdCache := map_set feedId (JStr (pythPriceInfoObjectId config)) (priceFeedObjectIdCache pc)\<rparr>
      else pc)"

text \<open>
  What building works on: the commands of the transaction so far, and the signed transactions that were handed to the node meanwhile.
\<close>

type_synonym ptb_state = "transaction \<times> signed list"

text \<open>
  The \<^verbatim>\<open>catch\<close> branch: create the feed in a transaction of its own, submit it, wait, and try the update
  again, on the same client and on the same transaction \<open>tx\<close> the first try wrote to.
\<close>

definition create_feed_and_retry ::
  "tx_builder_config \<Rightarrow> ptb_env \<Rightarrow> bytes list \<Rightarrow> string \<Rightarrow> SuiPythClient \<Rightarrow> (ptb_state, json list) stateful" where
  "create_feed_and_retry b env updates feedId pc s =
     (case createPriceFeed (ptbProvider env) (ptbSer env) updates (pc, []) of
        (Inl e, _) \<Rightarrow> (Inl e, s)
      | (Inr _, pc1, createTx) \<Rightarrow>
          (case ptbSign env (txAddress b) (gasBudget (txConfig b)) createTx of
             Inl e \<Rightarrow> (Inl e, s)
           | Inr sg \<Rightarrow>
               (case e_bind (ptbSubmit env sg) (\<lambda>res. e_bind (get_prop ''digest'' res) (ptbWait env)) of
                  Inl e \<Rightarrow> (Inl e, (fst s, snd s @ [sg]))
                | Inr _ \<Rightarrow>
                    (case updatePriceFeeds (ptbProvider env) (ptbSer env) updates [feedId]
                            (inject_price_info (txConfig b) feedId pc1, fst s) of
                       (r, _, tx') \<Rightarrow> (r, (tx', snd s @ [sg]))))))"

definition preparePythUpdate :: "tx_builder_config \<Rightarrow> ptb_env \<Rightarrow> bytes list \<Rightarrow> (ptb_state, json) stateful" where
  "preparePythUpdate b env bufferUpdates s =
     (let config = txConfig b;
          feedId = replace_first ''0x'' [] (pythSuiUsdFeedId config);
          pc = inject_price_info config feedId (pyth_client_new (pythStateId config) (wormholeStateId config))
      in case updatePriceFeeds (ptbProvider env) (ptbSer env) bufferUpdates [feedId] (pc, fst s) of
           (Inr oids, _, tx1) \<Rightarrow> (Inr (js_first oids), (tx1, snd s))
         | (Inl e, pc1, tx1) \<Rightarrow>
             s_bind (create_feed_and_retry b env bufferUpdates feedId pc1) (\<lambda>oids. s_return (js_first oids)) (tx1, snd s))"

subsection \<open>The transactions\<close>

definition move_call :: "string \<Rightarrow> string list \<Rightarrow> tx_arg list \<Rightarrow> (transaction, nat) stateful" where
  "move_call t tys args tx = (Inr (length tx), tx @ [MoveCall t tys args])"

definition ptb_call :: "string \<Rightarrow> string list \<Rightarrow> tx_arg list \<Rightarrow> (ptb_state, nat) stateful" where
  "ptb_call t tys args s = (case move_call t tys args (fst s) of (r, tx) \<Rightarrow> (r, (tx, snd s)))"

definition calculateMinOutput :: "nat BreachDetection \<Rightarrow> int" where
  "calculateMinOutput breach = 0"

definition hedge_target :: "KeeperConfig \<Rightarrow> hedge_action \<Rightarrow> string" where
  "hedge_target config a =
     (case a of
        Initiate \<Rightarrow> peachPackageId config @ ''::peach_stream::initiate_hedge''
      | ExecuteTranche \<Rightarrow> peachPackageId config @ ''::peach_stream::execute_tranche'')"

text \<open>\<open>sid\<close> is \<^verbatim>\<open>breach.stream.streamId\<close>, which no code changes.\<close>

definition buildHedgePTB ::
  "tx_builder_config \<Rightarrow> ptb_env \<Rightarrow> nat BreachDetection \<Rightarrow> string \<Rightarrow> bytes list \<Rightarrow> (ptb_state, unit) stateful" where
  "buildHedgePTB b env breach sid vaaPayload =
     (let config = txConfig b in
      s_bind (preparePythUpdate b env vaaPayload) (\<lambda>priceInfo.
      s_bind (ptb_call ''0x2::coin::zero'' [DEEP_TYPE] []) (\<lambda>deepCoin.
      s_bind (ptb_call (hedge_target config (action breach)) [usdcType config]
                [ObjectArg (keeperCapObjectId config), ObjectArg sid, ObjectArg (js_string priceInfo),
                 ObjectArg (deepbookPoolId config), CommandResult deepCoin, PureU64 (calculateMinOutput breach), ObjectArg SUI_CLOCK]) (\<lambda>_.
      s_return ()))))"

definition buildClaimPTB ::
  "tx_builder_config \<Rightarrow> ptb_env \<Rightarrow> string \<Rightarrow> bytes list \<Rightarrow> (ptb_state, unit) stateful" where
  "buildClaimPTB b env sid vaaPayload =
     (let config = txConfig b in
      s_bind (preparePythUpdate b env vaaPayload) (\<lambda>priceInfo.
      s_bind (ptb_call ''0x2::coin::zero'' [DEEP_TYPE] []) (\<lambda>deepCoin.
      s_bind (ptb_call (peachPackageId config @ ''::peach_stream::claim_stream'') [usdcType config]
                [ObjectArg sid, ObjectArg (js_string priceInfo), ObjectArg (deepbookPoolId config),
                 CommandResult deepCoin, ObjectArg (peachRegistryId config), ObjectArg SUI_CLOCK]) (\<lambda>_.
      s_return ()))))"

subsection \<open>Build, sign, execute\<close>

text \<open>
  The operation of the first \<^verbatim>\<open>rpc.execute\<close>: a new transaction per attempt, built and signed.  Its result comes with what the attempt handed to the node
  itself.  \<open>ptbMs\<close> is how long the attempt takes, \<open>None\<close> when it never settles; a timeout does not stop what an attempt has begun.
\<close>

definition settle_after :: "nat option \<Rightarrow> 'a outcome \<Rightarrow> 'a settle" where
  "settle_after ms r =
     (case ms of None \<Rightarrow> Pending | Some d \<Rightarrow> (case r of Inl e \<Rightarrow> Rejects d e | Inr a \<Rightarrow> Resolves d a))"

definition build_run ::
  "tx_builder_config \<Rightarrow> (ptb_env \<Rightarrow> (ptb_state, unit) stateful) \<Rightarrow> ptb_env \<Rightarrow> signed outcome \<times> signed list" where
  "build_run b buildFn env =
     (case buildFn env ([], []) of
        (Inl e, (_, submitted)) \<Rightarrow> (Inl e, submitted)
      | (Inr _, (tx, submitted)) \<Rightarrow> (ptbSign env (txAddress b) (gasBudget (txConfig b)) tx, submitted))"

definition build_op ::
  "tx_builder_config \<Rightarrow> (ptb_env \<Rightarrow> (ptb_state, unit) stateful) \<Rightarrow> ('c option \<Rightarrow> nat \<Rightarrow> ptb_env) \<Rightarrow> 'c option \<Rightarrow> nat \<Rightarrow> signed settle" where
  "build_op b buildFn penv client k = settle_after (ptbMs (penv client k)) (fst (build_run b buildFn (penv client k)))"

record 'c pipeline_env =
  buildEnv :: "'c option \<Rightarrow> nat \<Rightarrow> ptb_env"
  buildPool :: "nat \<Rightarrow> 'c attempt_env"
  submitOp :: "signed \<Rightarrow> 'c option \<Rightarrow> nat \<Rightarrow> json settle"
  submitPool :: "nat \<Rightarrow> 'c attempt_env"

definition tx_status :: "json \<Rightarrow> json" where
  "tx_status result = opt_prop ''status'' (opt_prop ''status'' (own_prop ''effects'' result))"

definition tx_failed :: "json \<Rightarrow> js_error" where
  "tx_failed result =
     (let err = opt_prop ''error'' (opt_prop ''status'' (own_prop ''effects'' result))
      in mk_error (''Transaction failed on-chain: '' @ js_string (js_or err (JStr ''unknown''))))"

text \<open>The operation of the second \<^verbatim>\<open>rpc.execute\<close>: how it settles, and what it hands to the node.\<close>

definition execute_block :: "'c pipeline_env \<Rightarrow> signed \<Rightarrow> 'c option \<Rightarrow> nat \<Rightarrow> json settle \<times> signed list" where
  "execute_block env sg client k = (submitOp env sg client k, [sg])"

text \<open>
  The attempts of a call, as the pool logged them: the client of the endpoint, and the number.  The third component of the result of \<^verbatim>\<open>buildSignExecute\<close> lists every
  signed transaction that was handed to a node, in order.
\<close>

definition attempts_of :: "'c ResilientRpcClient \<Rightarrow> attempt_log list \<Rightarrow> ('c option \<times> nat) list" where
  "attempts_of c lg = map (\<lambda>(k, e). (client_of c (logEndpoint e), k)) (enumerate 1 lg)"

definition buildSignExecute ::
  "tx_builder_config \<Rightarrow> (ptb_env \<Rightarrow> (ptb_state, unit) stateful) \<Rightarrow> 'c pipeline_env \<Rightarrow> 'c ResilientRpcClient
     \<Rightarrow> json outcome \<times> 'c ResilientRpcClient \<times> signed list" where
  "buildSignExecute b buildFn env c =
     (case execute (build_op b buildFn (buildEnv env)) (Some BUILD_TIMEOUT_MS) (buildPool env) c of
        (r1, c1, lg1) \<Rightarrow>
          (let created = concat (map (\<lambda>(cl, k). snd (build_run b buildFn (buildEnv env cl k))) (attempts_of c lg1))
           in case r1 of
                Inl e \<Rightarrow> (Inl e, c1, created)
              | Inr sg \<Rightarrow>
                  (case execute (\<lambda>cl k. fst (execute_block env sg cl k)) (Some EXECUTE_TIMEOUT_MS) (submitPool env) c1 of
                     (r2, c2, lg2) \<Rightarrow>
                       (let sent = created @ concat (map (\<lambda>(cl, k). snd (execute_block env sg cl k)) (attempts_of c1 lg2))
                        in case r2 of
                             Inl e \<Rightarrow> (Inl e, c2, sent)
                           | Inr result \<Rightarrow>
                               (if nullish result then Inl (type_error ''Cannot read properties of undefined or null'')
                                else if tx_status result \<noteq> JStr ''success'' then Inl (tx_failed result)
                                else Inr (own_prop ''digest'' result),
                                c2, sent)))))"

text \<open>The two public operations catch everything; \<open>None\<close> is \<^verbatim>\<open>null\<close>.\<close>

definition caught :: "'a outcome \<Rightarrow> 'a option" where
  "caught r = (case r of Inl _ \<Rightarrow> None | Inr a \<Rightarrow> Some a)"


definition executeAutoClaim ::
  "tx_builder_config \<Rightarrow> string \<Rightarrow> bytes list \<Rightarrow> 'c pipeline_env \<Rightarrow> 'c ResilientRpcClient
     \<Rightarrow> json option \<times> 'c ResilientRpcClient \<times> signed list" where
  "executeAutoClaim b sid vaaPayload env c =
     (case buildSignExecute b (\<lambda>e. buildClaimPTB b e sid vaaPayload) env c of
        (r, c', sent) \<Rightarrow> (caught r, c', sent))"

text \<open>\<^verbatim>\<open>getBalance\<close> answers with JSON; the result is \<^verbatim>\<open>BigInt(balance.totalBalance)\<close>.\<close>

definition getWalletBalance ::
  "('c option \<Rightarrow> nat \<Rightarrow> json settle) \<Rightarrow> (nat \<Rightarrow> 'c attempt_env) \<Rightarrow> 'c ResilientRpcClient \<Rightarrow> int outcome \<times> 'c ResilientRpcClient" where
  "getWalletBalance getBalance env c =
     (case execute getBalance None env c of
        (r, c', _) \<Rightarrow> (e_bind r (\<lambda>balance. e_bind (get_prop ''totalBalance'' balance) big_int), c'))"

subsection \<open>The configured price object is the one that is used\<close>

lemma updatePriceFeeds_cached:
  assumes "map_get (priceFeedObjectIdCache c) (replace_first ''0x'' [] f) = Some v"
    and "updatePriceFeeds prov ser updates [f] (c, tx) = (Inr oids, (c', tx'))"
  shows "oids = [v]"
proof -
  have hit: "getPriceFeedObjectId prov f c2 = (Inr v, c2)"
    if "priceFeedObjectIdCache c2 = priceFeedObjectIdCache c" for c2
    using assms(1) that by (simp add: getPriceFeedObjectId_def Let_def s_return_def)
  from assms(2) show ?thesis
    by (fastforce simp: updatePriceFeeds_def run_splits hit split: if_splits prod.splits dest!: lookup_cache verifyVaas_cache)
qed

definition feed_of :: "KeeperConfig \<Rightarrow> string" where
  "feed_of config = replace_first ''0x'' [] (pythSuiUsdFeedId config)"

definition keeper_pyth :: "KeeperConfig \<Rightarrow> SuiPythClient" where
  "keeper_pyth config = inject_price_info config (feed_of config) (pyth_client_new (pythStateId config) (wormholeStateId config))"

abbreviation first_try :: "tx_builder_config \<Rightarrow> ptb_env \<Rightarrow> bytes list \<Rightarrow> transaction \<Rightarrow> json list outcome \<times> pyth_run" where
  "first_try b env ups tx \<equiv> updatePriceFeeds (ptbProvider env) (ptbSer env) ups [feed_of (txConfig b)] (keeper_pyth (txConfig b), tx)"

lemma prepare_cases:
  assumes "preparePythUpdate b env ups s = (Inr oid, s')"
  obtains (first) oids c' where "first_try b env ups (fst s) = (Inr oids, (c', fst s'))" "snd s' = snd s" "oid = js_first oids"
    | (retry) e pc1 tx1 pc2 oids c' where
      "first_try b env ups (fst s) = (Inl e, (pc1, tx1))"
      "updatePriceFeeds (ptbProvider env) (ptbSer env) ups [feed_of (txConfig b)]
         (inject_price_info (txConfig b) (feed_of (txConfig b)) pc2, tx1) = (Inr oids, (c', fst s'))"
      "oid = js_first oids"
  using assms
  by (auto simp: preparePythUpdate_def create_feed_and_retry_def Let_def feed_of_def[symmetric] keeper_pyth_def[symmetric] s_bind_def s_return_def
      split: prod.splits sum.splits)



text \<open>The feed identifier has no second \<^verbatim>\<open>0x\<close> inside and the object is configured.\<close>

definition feed_configured :: "KeeperConfig \<Rightarrow> bool" where
  "feed_configured config \<longleftrightarrow> pythPriceInfoObjectId config \<noteq> [] \<and> replace_first ''0x'' [] (feed_of config) = feed_of config"

lemma inject_cached:
  "feed_configured config \<Longrightarrow>
     map_get (priceFeedObjectIdCache (inject_price_info config (feed_of config) pc)) (replace_first ''0x'' [] (feed_of config)) =
       Some (JStr (pythPriceInfoObjectId config))"
  by (simp add: inject_price_info_def feed_configured_def)

lemma prepare_result:
  assumes "feed_configured (txConfig b)" and "preparePythUpdate b env ups s = (Inr oid, s')"
  shows "oid = JStr (pythPriceInfoObjectId (txConfig b))"
  using assms(2)
proof (cases rule: prepare_cases)
  case (first oids c')
  have "oids = [JStr (pythPriceInfoObjectId (txConfig b))]"
    using updatePriceFeeds_cached[OF _ first(1)] inject_cached[OF assms(1)] unfolding keeper_pyth_def by blast
  with first(3) show ?thesis by (simp add: js_first_def)
next
  case (retry e pc1 tx1 pc2 oids c')
  have "oids = [JStr (pythPriceInfoObjectId (txConfig b))]"
    using updatePriceFeeds_cached[OF _ retry(2)] inject_cached[OF assms(1)] by blast
  with retry(3) show ?thesis by (simp add: js_first_def)
qed

subsection \<open>What a hedge transaction leaves behind\<close>

text \<open>What the first try of the update wrote before it failed; nothing when it did not fail.\<close>

definition left_over :: "tx_builder_config \<Rightarrow> ptb_env \<Rightarrow> bytes list \<Rightarrow> transaction" where
  "left_over b env ups = (case first_try b env ups [] of (Inr _, _) \<Rightarrow> [] | (Inl _, (_, tx1)) \<Rightarrow> tx1)"

lemma prepare_commands:
  assumes "feed_configured (txConfig b)" "preparePythUpdate b env ups ([], []) = (Inr oid, (tx, submitted))"
  shows "\<exists>cmds. tx = left_over b env ups @ cmds \<and> linear_run (length (left_over b env ups)) {#} cmds = Some {#} \<and>
    updated_objects cmds = [ObjectArg (pythPriceInfoObjectId (txConfig b))]"
  using assms(2)
proof (cases rule: prepare_cases)
  case (first oids c')
  have "oids = [JStr (pythPriceInfoObjectId (txConfig b))]"
    using updatePriceFeeds_cached[OF _ first(1)] inject_cached[OF assms(1)] unfolding keeper_pyth_def by blast
  moreover have "left_over b env ups = []" using first(1) by (simp add: left_over_def)
  ultimately show ?thesis using updatePriceFeeds_commands[OF first(1)] by auto
next
  case (retry e pc1 tx1 pc2 oids c')
  have "oids = [JStr (pythPriceInfoObjectId (txConfig b))]"
    using updatePriceFeeds_cached[OF _ retry(2)] inject_cached[OF assms(1)] by blast
  moreover have "left_over b env ups = tx1" using retry(1) by (simp add: left_over_def)
  ultimately show ?thesis using updatePriceFeeds_commands[OF retry(2)] by auto
qed

text \<open>The two commands behind the price update, with the index of the first.\<close>

definition hedge_calls :: "tx_builder_config \<Rightarrow> nat BreachDetection \<Rightarrow> string \<Rightarrow> nat \<Rightarrow> transaction" where
  "hedge_calls b breach sid k =
     [MoveCall ''0x2::coin::zero'' [DEEP_TYPE] [],
      MoveCall (hedge_target (txConfig b) (action breach)) [usdcType (txConfig b)]
        [ObjectArg (keeperCapObjectId (txConfig b)), ObjectArg sid, ObjectArg (pythPriceInfoObjectId (txConfig b)),
         ObjectArg (deepbookPoolId (txConfig b)), CommandResult k, PureU64 0, ObjectArg SUI_CLOCK]]"

lemma hedge_calls_closed: "linear_run k {#} (hedge_calls b breach sid k) = Some {#}"
proof -
  have z: "signature_of ''0x2::coin::zero'' = ([], 1)" using signatures(6)[of "''0x2''"] by simp
  show ?thesis
    by (cases "action breach") (simp_all add: hedge_calls_def hedge_target_def linear_args_def linear_results_def z numeral_eq_Suc)
qed

lemma hedge_transaction:
  assumes "feed_configured (txConfig b)" "buildHedgePTB b env breach sid ups ([], []) = (Inr (), (tx, submitted))"
  obtains upd where "preparePythUpdate b env ups ([], []) = (Inr (JStr (pythPriceInfoObjectId (txConfig b))), (upd, submitted))"
    "tx = upd @ hedge_calls b breach sid (length upd)"
proof -
  from assms(2) obtain oid upd where p: "preparePythUpdate b env ups ([], []) = (Inr oid, (upd, submitted))"
    and t: "tx = upd @ [MoveCall ''0x2::coin::zero'' [DEEP_TYPE] [],
          MoveCall (hedge_target (txConfig b) (action breach)) [usdcType (txConfig b)]
            [ObjectArg (keeperCapObjectId (txConfig b)), ObjectArg sid, ObjectArg (js_string oid),
             ObjectArg (deepbookPoolId (txConfig b)), CommandResult (length upd), PureU64 0, ObjectArg SUI_CLOCK]]"
    by (auto simp: buildHedgePTB_def Let_def s_bind_split ptb_call_def move_call_def s_return_def calculateMinOutput_def)
  show thesis using prepare_result[OF assms(1) p] p t by (intro that[of upd]) (simp_all add: hedge_calls_def)
qed

text \<open>
  C25.  A hedge transaction that could be built updates the configured price object and then calls the hedge of the breach's action on the breach's stream with that
  object and with a zero coin that the call takes.  The chain accepts its flow of values, the verified VAA, the price vectors and the coins included, exactly when
  the first try of the price update succeeded or failed before it had made anything: the retry writes behind what a failed try left in the transaction.
\<close>

theorem hedge_transaction_balanced:
  assumes "feed_configured (txConfig b)" "buildHedgePTB b env breach sid ups ([], []) = (Inr (), (tx, submitted))"
  shows "\<exists>cmds. tx = left_over b env ups @ cmds @ hedge_calls b breach sid (length (left_over b env ups @ cmds)) \<and>
    updated_objects cmds = [ObjectArg (pythPriceInfoObjectId (txConfig b))] \<and> (balanced tx \<longleftrightarrow> balanced (left_over b env ups))"
proof -
  obtain upd where u: "preparePythUpdate b env ups ([], []) = (Inr (JStr (pythPriceInfoObjectId (txConfig b))), (upd, submitted))"
    "tx = upd @ hedge_calls b breach sid (length upd)" by (rule hedge_transaction[OF assms])
  obtain cmds where c: "upd = left_over b env ups @ cmds" "linear_run (length (left_over b env ups)) {#} cmds = Some {#}"
    "updated_objects cmds = [ObjectArg (pythPriceInfoObjectId (txConfig b))]" using prepare_commands[OF assms(1) u(1)] by blast
  have "balanced tx \<longleftrightarrow> balanced upd" unfolding u(2) by (rule balanced_append[OF hedge_calls_closed])
  also have "\<dots> \<longleftrightarrow> balanced (left_over b env ups)" unfolding c(1) by (rule balanced_append[OF c(2)])
  finally show ?thesis using u(2) c by auto
qed

text \<open>A node that answers all requests but the third, so that the first try stops after authenticating.\<close>

definition demo_builder :: tx_builder_config where
  "demo_builder = \<lparr>txConfig = demo_keeper_config, txAddress = ''0xme''\<rparr>"

definition flaky_provider :: "nat \<Rightarrow> provider" where
  "flaky_provider n h req = (if length h = n then Inl (mk_error ''503'') else Inr (state_object ''0xp'' (JStr ''1'')))"

definition demo_ptb :: "nat \<Rightarrow> ptb_env" where
  "demo_ptb n =
     \<lparr>ptbProvider = flaky_provider n, ptbSer = demo_ser, ptbSign = (\<lambda>_ _ _. Inr (''tx'', ''sig'')),
      ptbSubmit = (\<lambda>_. Inr (JObj [(''digest'', JStr ''D'')])), ptbWait = (\<lambda>_. Inr ()), ptbMs = Some 10\<rparr>"

definition small_message :: bytes where
  "small_message = encode_accumulator [] 0 \<lparr>accVaa = [], accUpdates = []\<rparr>"

lemma small_message_vaa: "extractVaaBytesFromAccumulatorMessage small_message = Inr []"
  by (simp add: extractVaaBytesFromAccumulatorMessage_def small_message_def encode_accumulator_def encode_prefix_def
      read_be_def be_decode_def subarray_def numeral_2_eq_2)

lemma small_message_ser: "demo_ser MAX_ARGUMENT_SIZE [] = Inr []" "demo_ser MAX_ARGUMENT_SIZE small_message = Inr small_message"
  by (simp_all add: demo_ser_def MAX_ARGUMENT_SIZE_def small_message_def encode_accumulator_def encode_prefix_def)

lemma demo_keeper_pyth:
  "keeper_pyth demo_keeper_config = (pyth_client_new ''0xpyth'' ''0xworm'')\<lparr>priceFeedObjectIdCache := [(''feed'', JStr ''0xinfo'')]\<rparr>"
  "feed_of demo_keeper_config = ''feed''" "feed_configured demo_keeper_config"
  by (simp_all add: keeper_pyth_def feed_of_def demo_keeper_config_def inject_price_info_def starts_with_def pyth_client_new_def
      map_set_def feed_configured_def)

lemma demo_info: "pythPriceInfoObjectId demo_keeper_config = ''0xinfo''"
  by (simp add: demo_keeper_config_def)

lemma flaky_simps:
  "length h \<noteq> n \<Longrightarrow> flaky_provider n h req = Inr (state_object ''0xp'' (JStr ''1''))"
  "length h = n \<Longrightarrow> flaky_provider n h req = Inl (mk_error ''503'')"
  by (simp_all add: flaky_provider_def)

lemmas pyth_run_defs = updatePriceFeeds_def createPriceFeed_def verifyVaas_def getPythPackageId_def getWormholePackageId_def getBaseUpdateFee_def
  getPackageId_def getPriceFeedObjectId_def ask_def on_client_def emit_def first_update_def state_object_def get_prop_def opt_prop_def
  pyth_client_new_def map_get_def starts_with_def

lemma demo_first_try:
  "updatePriceFeeds (flaky_provider 2) demo_ser [small_message] [''feed''] (keeper_pyth demo_keeper_config, []) =
     (Inl (mk_error ''503''),
      \<lparr>pythPackageId = JStr ''0xp'', wormholePackageId = JStr ''0xp'', priceTableInfo = None,
       priceFeedObjectIdCache = [(''feed'', JStr ''0xinfo'')], baseUpdateFee = JUndef, pyStateId = ''0xpyth'', wormStateId = ''0xworm'',
       requests = [GetObject ''0xpyth'', GetObject ''0xworm'', GetObject ''0xpyth'']\<rparr>,
      [MoveCall (''0xp'' @ ''::vaa::parse_and_verify'') [] [ObjectArg ''0xworm'', PureBytes [], ClockObject],
       MoveCall (''0xp'' @ ''::pyth::create_authenticated_price_infos_using_accumulator'') []
         [ObjectArg ''0xpyth'', PureBytes small_message, Result 0 0, ClockObject]])"
  by (simp add: pyth_run_defs small_message_vaa small_message_ser demo_keeper_pyth s_bind_def stateful_defs Let_def flaky_simps)

lemma demo_prepare:
  "n = 2 \<or> n = 9 \<Longrightarrow> \<exists>tx submitted. preparePythUpdate demo_builder (demo_ptb n) [small_message] ([], []) = (Inr (JStr ''0xinfo''), (tx, submitted))"
  by (elim disjE)
    (simp_all add: preparePythUpdate_def create_feed_and_retry_def Let_def demo_builder_def demo_ptb_def
      feed_of_def[symmetric] keeper_pyth_def[symmetric] inject_price_info_def map_set_def js_first_def
      pyth_run_defs small_message_vaa small_message_ser demo_keeper_pyth s_bind_def stateful_defs flaky_simps
      demo_info)

definition demo_breach :: "nat BreachDetection" where
  "demo_breach = \<lparr>breachStream = 0, currentPrice = 340000000, action = Initiate\<rparr>"

lemma demo_build:
  "n = 2 \<or> n = 9 \<Longrightarrow> \<exists>tx submitted. buildHedgePTB demo_builder (demo_ptb n) demo_breach ''s1'' [small_message] ([], []) = (Inr (), (tx, submitted))"
  using demo_prepare[of n] by (auto simp: buildHedgePTB_def Let_def s_bind_split ptb_call_def move_call_def s_return_def)

lemma demo_left_over: "\<not> balanced (left_over demo_builder (demo_ptb 2) [small_message])"
proof -
  have sg: "signature_of ''0xp::vaa::parse_and_verify'' = ([], 1)"
    "signature_of ''0xp::pyth::create_authenticated_price_infos_using_accumulator'' = ([2], 1)"
    using signatures(1,2)[of "''0xp''"] by simp_all
  have "left_over demo_builder (demo_ptb 2) [small_message] =
      [MoveCall (''0xp'' @ ''::vaa::parse_and_verify'') [] [ObjectArg ''0xworm'', PureBytes [], ClockObject],
       MoveCall (''0xp'' @ ''::pyth::create_authenticated_price_infos_using_accumulator'') []
         [ObjectArg ''0xpyth'', PureBytes small_message, Result 0 0, ClockObject]]"
    unfolding left_over_def demo_ptb_def demo_builder_def ptb_env.simps tx_builder_config.simps demo_keeper_pyth(2) demo_first_try by simp
  then show ?thesis by (simp add: balanced_def linear_args_def linear_results_def sg)
qed

lemma demo_configured: "feed_configured (txConfig demo_builder)"
  by (simp add: demo_builder_def demo_keeper_pyth)

text \<open>
  A retry keeps what the failed try left: with a node that fails once after the update was authenticated the builder reports a transaction as ready that makes a
  vector no command takes.
\<close>

lemma retry_keeps_dangling_vector:
  "\<exists>tx submitted. buildHedgePTB demo_builder (demo_ptb 2) demo_breach ''s1'' [small_message] ([], []) = (Inr (), (tx, submitted)) \<and> \<not> balanced tx"
proof -
  obtain tx submitted where t: "buildHedgePTB demo_builder (demo_ptb 2) demo_breach ''s1'' [small_message] ([], []) = (Inr (), (tx, submitted))"
    using demo_build[of 2] by auto
  obtain upd where u: "preparePythUpdate demo_builder (demo_ptb 2) [small_message] ([], []) = (Inr (JStr (pythPriceInfoObjectId (txConfig demo_builder))), (upd, submitted))"
    "tx = upd @ hedge_calls demo_builder demo_breach ''s1'' (length upd)" by (rule hedge_transaction[OF demo_configured t])
  have "balanced tx \<longleftrightarrow> balanced upd" unfolding u(2) by (rule balanced_append[OF hedge_calls_closed])
  then show ?thesis using prepare_commands[OF demo_configured u(1)] balanced_append demo_left_over t by blast
qed

theorem hedge_transaction_balanced_witness:
  "\<exists>tx submitted cmds. buildHedgePTB demo_builder (demo_ptb 9) demo_breach ''s1'' [small_message] ([], []) = (Inr (), (tx, submitted)) \<and>
     tx = cmds @ hedge_calls demo_builder demo_breach ''s1'' (length cmds) \<and> updated_objects cmds = [ObjectArg ''0xinfo''] \<and> balanced tx"
proof -
  obtain tx submitted where t: "buildHedgePTB demo_builder (demo_ptb 9) demo_breach ''s1'' [small_message] ([], []) = (Inr (), (tx, submitted))"
    using demo_build[of 9] by auto
  have "\<exists>oids c' tx1. first_try demo_builder (demo_ptb 9) [small_message] [] = (Inr oids, (c', tx1))"
    by (simp add: demo_builder_def demo_ptb_def pyth_run_defs small_message_vaa small_message_ser demo_keeper_pyth s_bind_def stateful_defs flaky_simps Let_def)
  then have "left_over demo_builder (demo_ptb 9) [small_message] = []" by (auto simp: left_over_def)
  then show ?thesis
    using hedge_transaction_balanced[OF demo_configured t] t by (auto simp: demo_builder_def demo_info balanced_def)
qed

subsection \<open>The pipeline\<close>








end
