(* ===== verification/Dashboard_Api.thy ===== *)
theory Dashboard_Api
  imports Keeper_Loop
begin

section \<open>The dashboard: \<^verbatim>\<open>apps/keeper/src/dashboard.ts\<close>\<close>

text \<open>
  The route handlers.  The HTTP server is third-party code; a handler returns a value that the server turns into JSON, and
  \<open>serialize\<close> is what \<^verbatim>\<open>JSON.stringify\<close> does with it: \<^verbatim>\<open>NaN\<close> becomes \<^verbatim>\<open>null\<close> and a \<^verbatim>\<open>bigint\<close> anywhere in the value throws.
\<close>

datatype js_value =
    VStr string
  | VNum jsnum
  | VBig int
  | VJson json
  | VArr "js_value list"
  | VObj "(string \<times> js_value) list"

fun serialize :: "js_value \<Rightarrow> json outcome" where
  "serialize (VStr s) = Inr (JStr s)"
| "serialize (VNum n) = Inr (case n of NaN \<Rightarrow> JNull | Num i \<Rightarrow> JNum i)"
| "serialize (VBig n) = Inl (type_error ''Do not know how to serialize a BigInt'')"
| "serialize (VJson j) = Inr j"
| "serialize (VArr vs) = e_bind (e_map serialize vs) (\<lambda>js. Inr (JArr js))"
| "serialize (VObj ps) =
     e_bind (e_map (\<lambda>p. e_bind (serialize (snd p)) (\<lambda>j. Inr (fst p, j))) ps) (\<lambda>js. Inr (JObj js))"

text \<open>The CORS hook: a preflight request is answered at once, any other goes on to its route.\<close>

definition cors_headers :: "(string \<times> string) list" where
  "cors_headers =
     [(''Access-Control-Allow-Origin'', ''*''), (''Access-Control-Allow-Methods'', ''POST, GET, OPTIONS''),
      (''Access-Control-Allow-Headers'', ''Content-Type'')]"

definition on_request :: "string \<Rightarrow> (string \<times> string) list \<times> bool" where
  "on_request httpMethod = (cors_headers, httpMethod \<noteq> ''OPTIONS'')"

definition get_health :: "int \<Rightarrow> Keeper \<Rightarrow> js_value \<times> Keeper" where
  "get_health now k =
     (case getMetrics k of (m, k') \<Rightarrow>
       (VObj [(''status'', VStr ''ok''), (''uptime_ms'', VNum (Num (now - startedAt m))),
              (''wallet_balance_sui'', VStr (show_int (walletBalanceSui m))),
              (''last_price_update_ms'', VNum (lastPriceUpdateTimestamp m)),
              (''connected_streams'', VNum (Num (int (activeStreams m)))),
              (''current_price'', VStr (show_int (metricPrice m)))], k'))"

definition metric_lines :: "string \<Rightarrow> string \<Rightarrow> string \<Rightarrow> string \<Rightarrow> string list" where
  "metric_lines name help kind v =
     [''# HELP peach_keeper_'' @ name @ '' '' @ help, ''# TYPE peach_keeper_'' @ name @ '' '' @ kind, ''peach_keeper_'' @ name @ '' '' @ v]"

definition get_metrics_text :: "Keeper \<Rightarrow> string \<times> Keeper" where
  "get_metrics_text k =
     (case getMetrics k of (m, k') \<Rightarrow>
       (intercalate [CHR 0x0A]
         (metric_lines ''active_streams'' ''Number of actively monitored streams'' ''gauge'' (show_nat (activeStreams m))
          @ metric_lines ''hedges_triggered_total'' ''Total hedges initiated'' ''counter'' (show_nat (hedgesTriggered m))
          @ metric_lines ''tranches_executed_total'' ''Total TWAP tranches executed'' ''counter'' (show_nat (tranchesExecutedTotal m))
          @ metric_lines ''rpc_errors_total'' ''Total RPC/transaction errors'' ''counter'' (show_nat (rpcErrors m))
          @ metric_lines ''wallet_balance_sui'' ''Wallet SUI balance in MIST'' ''gauge'' (show_int (walletBalanceSui m))
          @ metric_lines ''last_execution_timestamp'' ''Last successful hedge timestamp'' ''gauge'' (show_int (lastExecutionTimestamp m))
          @ metric_lines ''current_price'' ''Current SUI/USD price (8dp)'' ''gauge'' (show_int (metricPrice m)))
        @ [CHR 0x0A], k'))"

definition queue_entry :: "StreamState \<Rightarrow> QueueEntry" where
  "queue_entry s =
     \<lparr>qStreamId = streamId s, tranchesRemaining = num_sub (twapTranches s) (tranchesExecuted s),
      nextTrancheAt = num_add (lastTrancheTimestamp s) (twapIntervalMs s), usdcAccumulated = usdcBalance s, suiRemaining = suiBalance s\<rparr>"

definition queue_value :: "QueueEntry \<Rightarrow> js_value" where
  "queue_value q =
     VObj [(''streamId'', VStr (qStreamId q)), (''tranchesRemaining'', VNum (tranchesRemaining q)), (''nextTrancheAt'', VNum (nextTrancheAt q)),
           (''usdcAccumulated'', VBig (usdcAccumulated q)), (''suiRemaining'', VBig (suiRemaining q))]"

definition get_queue :: "EventIndexer \<Rightarrow> js_value" where
  "get_queue x =
     (let queue = map (\<lambda>r. queue_entry (object_at x r)) (getTWAPActiveStreams x)
      in VObj [(''count'', VNum (Num (int (length queue)))), (''queue'', VArr (map queue_value queue))])"

definition status_label :: "StreamState \<Rightarrow> string" where
  "status_label s =
     (if num_eq (liquidationStatus s) STATUS_HEALTHY then ''HEALTHY''
      else if num_eq (liquidationStatus s) STATUS_TWAP_ACTIVE then ''TWAP_ACTIVE'' else ''FULLY_HEDGED'')"

definition stream_value :: "StreamState \<Rightarrow> js_value" where
  "stream_value s =
     VObj [(''streamId'', VStr (streamId s)), (''sender'', VJson (sender s)), (''receiver'', VJson (receiver s)),
           (''totalAmount'', VStr (show_int (totalAmount s))), (''strikePrice'', VStr (show_int (strikePrice s))),
           (''hedgeDirection'', VNum (hedgeDirection s)), (''liquidationStatus'', VNum (liquidationStatus s)),
           (''statusLabel'', VStr (status_label s)), (''tranchesExecuted'', VNum (tranchesExecuted s)),
           (''twapTranches'', VNum (twapTranches s)), (''suiBalance'', VStr (show_int (suiBalance s))),
           (''usdcBalance'', VStr (show_int (usdcBalance s)))]"

definition get_streams :: "EventIndexer \<Rightarrow> js_value" where
  "get_streams x =
     (let ss = map (\<lambda>r. stream_value (object_at x r)) (stream_objects x)
      in VObj [(''count'', VNum (Num (int (length ss)))), (''streams'', VArr ss)])"

text \<open>\<^verbatim>\<open>POST /register-stream\<close>: the status code, the reply and the indexer afterwards.\<close>

definition post_register_stream :: "idx_env \<Rightarrow> json \<Rightarrow> EventIndexer \<Rightarrow> (nat \<times> js_value) \<times> EventIndexer" where
  "post_register_stream env body x =
     (case opt_prop ''streamId'' body of
        JStr sid \<Rightarrow>
          if sid = [] then ((400, VObj [(''error'', VStr ''Missing or invalid 'streamId' in request body'')]), x)
          else (case registerStream env sid x of
                  (True, x') \<Rightarrow> ((200, VObj [(''status'', VStr ''registered''), (''streamId'', VStr sid)]), x')
                | (False, x') \<Rightarrow> ((404, VObj [(''error'', VStr ''Stream not found on-chain''), (''streamId'', VStr sid)]), x'))
      | _ \<Rightarrow> ((400, VObj [(''error'', VStr ''Missing or invalid 'streamId' in request body'')]), x))"

subsection \<open>Properties\<close>

lemma queue_value_fails: "serialize (queue_value q) = Inl (type_error ''Do not know how to serialize a BigInt'')"
  by (simp add: queue_value_def)

text \<open>
  The queue route cannot report a queue: its entries carry the balances as \<^verbatim>\<open>bigint\<close>s, so its reply is serialised only
  when no stream is being hedged, and throws as soon as there is one.  The streams route converts its
  amounts to strings and is always serialised, with one entry per monitored stream.
\<close>

theorem queue_reply_serializes_iff_empty:
  "(case serialize (get_queue x) of Inr _ \<Rightarrow> getTWAPActiveStreams x = [] | Inl _ \<Rightarrow> getTWAPActiveStreams x \<noteq> [])
   \<and> (\<exists>js. serialize (get_streams x) = Inr (JObj [(''count'', JNum (int (length (streams x)))), (''streams'', JArr js)])
          \<and> length js = length (streams x))"
proof -
  have "\<exists>js. e_map serialize (map (\<lambda>r. stream_value (f r)) rs) = Inr js \<and> length js = length rs" for f and rs :: "nat list"
    by (induction rs) (auto simp: stream_value_def)
  from this[of "object_at x" "stream_objects x"]
  have "\<exists>js. serialize (get_streams x) = Inr (JObj [(''count'', JNum (int (length (streams x)))), (''streams'', JArr js)])
          \<and> length js = length (streams x)"
    by (auto simp: get_streams_def Let_def stream_objects_def map_values_def)
  moreover have "case serialize (get_queue x) of Inr _ \<Rightarrow> getTWAPActiveStreams x = [] | Inl _ \<Rightarrow> getTWAPActiveStreams x \<noteq> []"
    by (cases "getTWAPActiveStreams x") (simp_all add: get_queue_def Let_def queue_value_fails)
  ultimately show ?thesis by blast
qed

text \<open>
  The registration route changes nothing for a body without a non-empty string \<^verbatim>\<open>streamId\<close> and answers 400; for one with such a
  string it answers 200 when the stream is monitored afterwards and 404 when it is not.
\<close>

theorem register_route_status:
  "case post_register_stream env body x of ((status, _), x') \<Rightarrow>
     (status = 400 \<and> x' = x \<and> opt_prop ''streamId'' body \<notin> {JStr sid | sid. sid \<noteq> []})
     \<or> (\<exists>sid. opt_prop ''streamId'' body = JStr sid \<and> sid \<noteq> [] \<and> status = (if look x' sid = None then 404 else 200))"
proof (cases "\<exists>sid. opt_prop ''streamId'' body = JStr sid \<and> sid \<noteq> []")
  case True
  then obtain sid where s: "opt_prop ''streamId'' body = JStr sid" "sid \<noteq> []" by blast
  obtain ok x' where r: "registerStream env sid x = (ok, x')" by (cases "registerStream env sid x")
  have "ok \<longleftrightarrow> look x' sid \<noteq> None"
    using r by (auto simp: registerStream_def Let_def map_has_look split: if_splits)
  with s r show ?thesis by (cases ok) (auto simp: post_register_stream_def)
next
  case False
  then show ?thesis by (auto simp: post_register_stream_def split: json.splits)
qed

end
