(* ===== verification/Query_Binary.thy ===== *)
theory Query_Binary
  imports Buffers
begin

section \<open>Binary readers and writers of cross-chain queries: \<^verbatim>\<open>sdk/js-query/src/query\<close>\<close>

text \<open>
  \<^verbatim>\<open>BinaryWriter\<close> with its growing buffer, \<^verbatim>\<open>BinaryReader\<close>, and the hexadecimal helpers of \<^verbatim>\<open>utils.ts\<close>.  A \<^verbatim>\<open>number\<close> is an
  integer here.  A method that throws leaves a writer that nobody uses again, so a write returns the new writer or the
  exception.

  The writer is used through the interface \<open>byte_sink\<close>: what it holds grows by exactly what is
  written.  Readers are specified by \<open>decodes\<close>: an operation that reads certain bytes and returns a certain value wherever
  they stand; its rules compose along the code.
\<close>

subsection \<open>Hexadecimal helpers\<close>

definition is_hex :: "char \<Rightarrow> bool" where
  "is_hex c \<longleftrightarrow> digit_val 16 c \<noteq> None"

definition isValidHexString :: "string \<Rightarrow> bool" where
  "isValidHexString s =
     (let body = (if starts_with ''0x'' s then drop 2 s else s) in body \<noteq> [] \<and> list_all is_hex body)"

text \<open>The padded string \<^verbatim>\<open>s.padStart(...)\<close> returns is not used, so an odd string loses its last digit.\<close>

definition hexToUint8Array :: "string \<Rightarrow> bytes outcome" where
  "hexToUint8Array s =
     (if \<not> isValidHexString s then Inl (mk_error (s @ '' is not hex''))
      else Inr (from_hex (if starts_with ''0x'' s then drop 2 s else s)))"

definition uint8ArrayToHex :: "bytes \<Rightarrow> string" where
  "uint8ArrayToHex b = ''0x'' @ to_hex b"

lemma from_hex_odd: "even (length s) \<Longrightarrow> from_hex (s @ [c]) = from_hex s"
  by (induction s rule: from_hex.induct) (auto split: option.splits)

text \<open>
  \<^verbatim>\<open>hexToUint8Array\<close> of a hexadecimal string with an odd number of digits is the value of the string without its last digit:
  the call of \<^verbatim>\<open>padStart\<close>, which would put a zero in front, has no effect.
\<close>

theorem odd_hex_loses_digit:
  assumes "isValidHexString (''0x'' @ s @ [c])" and "s \<noteq> []" and "even (length s)"
  shows "hexToUint8Array (''0x'' @ s @ [c]) = hexToUint8Array (''0x'' @ s)"
  using assms from_hex_odd[OF assms(3), of c] by (simp add: hexToUint8Array_def isValidHexString_def starts_with_def)

theorem odd_hex_loses_digit_witness:
  "hexToUint8Array (''0x'' @ ''12'' @ ''3'') = hexToUint8Array (''0x'' @ ''12'') \<and> hexToUint8Array ''0x12'' = Inr [0x12]
     \<and> isValidHexString (''0x'' @ ''12'' @ ''3'')"
  using odd_hex_loses_digit[of "''12''" "CHR ''3''"] by code_simp

datatype hex_or_bytes = HexInput string | BytesInput bytes

fun coalesceUint8Array :: "hex_or_bytes \<Rightarrow> bytes outcome" where
  "coalesceUint8Array (HexInput s) = hexToUint8Array s"
| "coalesceUint8Array (BytesInput b) = Inr b"

definition bigIntWithDef :: "int option \<Rightarrow> int" where
  "bigIntWithDef val = (case val of Some v \<Rightarrow> v | None \<Rightarrow> 0)"

text \<open>\<^verbatim>\<open>Buffer.from(s)\<close>, that is UTF-8, on code units below 256; a decoded byte above 127 stands for a character no caller accepts.\<close>

definition byte_of_char :: "char \<Rightarrow> byte" where
  "byte_of_char c = word_of_nat (of_char c)"

definition utf8_encode :: "string \<Rightarrow> bytes" where
  "utf8_encode s =
     concat (map (\<lambda>c. let n = of_char c :: nat in
        if n < 128 then [word_of_nat n] else [word_of_nat (192 + n div 64), word_of_nat (128 + n mod 64)]) s)"

definition utf8_decode :: "bytes \<Rightarrow> string" where
  "utf8_decode bs = map (\<lambda>b. char_of (unat b)) bs"

definition ascii :: "string \<Rightarrow> bool" where
  "ascii s \<longleftrightarrow> list_all (\<lambda>c. (of_char c :: nat) < 128) s"

subsection \<open>The writer\<close>

text \<open>\<^verbatim>\<open>xs.forEach(x => ...)\<close> over a writer.\<close>

fun e_fold :: "('a \<Rightarrow> 'w \<Rightarrow> 'w outcome) \<Rightarrow> 'a list \<Rightarrow> 'w \<Rightarrow> 'w outcome" where
  "e_fold f [] w = Inr w"
| "e_fold f (x # xs) w = e_bind (f x w) (e_fold f xs)"

record BinaryWriter =
  wBuffer :: bytes
  wOffset :: nat

definition writer_new :: "int \<Rightarrow> BinaryWriter outcome" where
  "writer_new initialSize =
     (if initialSize < 0 then Inl (mk_error ''Initial size must be non-negative'')
      else Inr \<lparr>wBuffer = replicate (nat initialSize) 0, wOffset = 0\<rparr>)"

definition w_ensure :: "nat \<Rightarrow> BinaryWriter \<Rightarrow> BinaryWriter" where
  "w_ensure sz w =
     (let remaining = length (wBuffer w) - wOffset w
      in if remaining < sz
         then (let newSize = length (wBuffer w) * 2 + sz
               in w\<lparr>wBuffer := wBuffer w @ replicate (newSize - length (wBuffer w)) 0\<rparr>)
         else w)"

text \<open>Bytes put at the offset, as \<^verbatim>\<open>buffer.set\<close> and the \<^verbatim>\<open>writeUint...BE\<close> methods do when there is room.\<close>

definition w_put :: "bytes \<Rightarrow> BinaryWriter \<Rightarrow> BinaryWriter" where
  "w_put bs w =
     w\<lparr>wBuffer := take (wOffset w) (wBuffer w) @ bs @ drop (wOffset w + length bs) (wBuffer w), wOffset := wOffset w + length bs\<rparr>"

definition writeUint8Array :: "bytes \<Rightarrow> BinaryWriter \<Rightarrow> BinaryWriter outcome" where
  "writeUint8Array value w = Inr (w_put value (w_ensure (length value) w))"

definition writeUint8 :: "int \<Rightarrow> BinaryWriter \<Rightarrow> BinaryWriter outcome" where
  "writeUint8 value w =
     (if value < 0 \<or> value > 255 then Inl (mk_error ''Invalid value'')
      else Inr (w_put (be_encode 1 (nat value)) (w_ensure 1 w)))"

definition writeUint16 :: "int \<Rightarrow> BinaryWriter \<Rightarrow> BinaryWriter outcome" where
  "writeUint16 value w =
     (if value < 0 \<or> value > 65535 then Inl (mk_error ''Invalid value'')
      else Inr (w_put (be_encode 2 (nat value)) (w_ensure 2 w)))"

definition writeUint32 :: "int \<Rightarrow> BinaryWriter \<Rightarrow> BinaryWriter outcome" where
  "writeUint32 value w =
     (if value < 0 \<or> value > 4294967295 then Inl (mk_error ''Invalid value'')
      else Inr (w_put (be_encode 4 (nat value)) (w_ensure 4 w)))"

text \<open>
  The bound in the source is a \<^verbatim>\<open>number\<close> literal, which is \<open>2 ^ 64\<close> after rounding: that one value passes the check and is
  rejected by the buffer instead.
\<close>

definition writeUint64 :: "int \<Rightarrow> BinaryWriter \<Rightarrow> BinaryWriter outcome" where
  "writeUint64 value w =
     (if value < 0 \<or> value > dbl 18446744073709551615 then Inl (mk_error ''Invalid value'')
      else if value \<ge> 2 ^ 64 then Inl out_of_range
      else Inr (w_put (be_encode 8 (nat value)) (w_ensure 8 w)))"

definition w_data :: "BinaryWriter \<Rightarrow> bytes" where
  "w_data w = take (wOffset w) (wBuffer w)"

definition w_inv :: "BinaryWriter \<Rightarrow> bool" where
  "w_inv w \<longleftrightarrow> wOffset w \<le> length (wBuffer w)"

lemma writer_new_ok: "writer_new 1024 = Inr w \<Longrightarrow> w_inv w \<and> w_data w = []"
  by (auto simp: writer_new_def w_inv_def w_data_def split: if_splits)

lemma w_ensure_ok:
  "w_inv w \<Longrightarrow> w_inv (w_ensure n w) \<and> w_data (w_ensure n w) = w_data w \<and> wOffset (w_ensure n w) = wOffset w
     \<and> wOffset w + n \<le> length (wBuffer (w_ensure n w))"
  by (auto simp: w_ensure_def w_inv_def w_data_def Let_def)

lemma w_put_ok:
  assumes "w_inv w" and "wOffset w + length bs \<le> length (wBuffer w)"
  shows "w_inv (w_put bs w) \<and> w_data (w_put bs w) = w_data w @ bs"
  using assms by (simp add: w_put_def w_inv_def w_data_def)

lemma w_put_ensure:
  assumes "w_inv w"
  shows "w_inv (w_put bs (w_ensure (length bs) w))" "w_data (w_put bs (w_ensure (length bs) w)) = w_data w @ bs"
  using w_ensure_ok[OF assms, of "length bs"] w_put_ok[of "w_ensure (length bs) w" bs] by auto

text \<open>The interface of a writer: each operation appends its encoding or throws, and the bounds say when.\<close>

locale byte_sink =
  fixes inv :: "'w \<Rightarrow> bool"
    and content :: "'w \<Rightarrow> bytes"
    and u8 u16 u32 u64 :: "int \<Rightarrow> 'w \<Rightarrow> 'w outcome"
    and arr :: "bytes \<Rightarrow> 'w \<Rightarrow> 'w outcome"
  assumes u8_app: "inv w \<Longrightarrow> 0 \<le> v \<Longrightarrow> v < 2 ^ 8 \<Longrightarrow> \<exists>w'. u8 v w = Inr w' \<and> inv w' \<and> content w' = content w @ be_encode 1 (nat v)"
    and u16_app: "inv w \<Longrightarrow> 0 \<le> v \<Longrightarrow> v < 2 ^ 16 \<Longrightarrow> \<exists>w'. u16 v w = Inr w' \<and> inv w' \<and> content w' = content w @ be_encode 2 (nat v)"
    and u32_app: "inv w \<Longrightarrow> 0 \<le> v \<Longrightarrow> v < 2 ^ 32 \<Longrightarrow> \<exists>w'. u32 v w = Inr w' \<and> inv w' \<and> content w' = content w @ be_encode 4 (nat v)"
    and u64_app: "inv w \<Longrightarrow> 0 \<le> v \<Longrightarrow> v < 2 ^ 64 \<Longrightarrow> \<exists>w'. u64 v w = Inr w' \<and> inv w' \<and> content w' = content w @ be_encode 8 (nat v)"
    and arr_app: "inv w \<Longrightarrow> \<exists>w'. arr bs w = Inr w' \<and> inv w' \<and> content w' = content w @ bs"
    and bounds: "v < 0 \<or> v \<ge> 2 ^ 8 \<Longrightarrow> \<exists>e. u8 v w = Inl e" "v < 0 \<or> v \<ge> 2 ^ 16 \<Longrightarrow> \<exists>e. u16 v w = Inl e"
      "v < 0 \<or> v \<ge> 2 ^ 32 \<Longrightarrow> \<exists>e. u32 v w = Inl e" "v < 0 \<or> v \<ge> 2 ^ 64 \<Longrightarrow> \<exists>e. u64 v w = Inl e"
begin

text \<open>\<open>emits f bs\<close>: in every state \<open>f\<close> appends \<open>bs\<close> and succeeds.\<close>

definition emits :: "('w \<Rightarrow> 'w outcome) \<Rightarrow> bytes \<Rightarrow> bool" where
  "emits f bs \<longleftrightarrow> (\<forall>w. inv w \<longrightarrow> (\<exists>w'. f w = Inr w' \<and> inv w' \<and> content w' = content w @ bs))"

lemma emits_then:
  assumes "emits f as" and "emits g bs"
  shows "emits (\<lambda>w. e_bind (f w) g) (as @ bs)"
proof -
  have "\<exists>w'. e_bind (f w) g = Inr w' \<and> inv w' \<and> content w' = content w @ as @ bs" if "inv w" for w
  proof -
    from assms(1) that obtain w1 where 1: "f w = Inr w1" "inv w1" "content w1 = content w @ as" unfolding emits_def by blast
    from assms(2) 1(2) obtain w2 where "g w1 = Inr w2" "inv w2" "content w2 = content w1 @ bs" unfolding emits_def by blast
    with 1 show ?thesis by simp
  qed
  then show ?thesis by (simp add: emits_def)
qed

lemma emits_basic:
  "0 \<le> v \<Longrightarrow> v < 2 ^ 8 \<Longrightarrow> emits (u8 v) (be_encode 1 (nat v))"
  "0 \<le> v \<Longrightarrow> v < 2 ^ 16 \<Longrightarrow> emits (u16 v) (be_encode 2 (nat v))"
  "0 \<le> v \<Longrightarrow> v < 2 ^ 32 \<Longrightarrow> emits (u32 v) (be_encode 4 (nat v))"
  "0 \<le> v \<Longrightarrow> v < 2 ^ 64 \<Longrightarrow> emits (u64 v) (be_encode 8 (nat v))"
  "emits (arr bs) bs"
  unfolding emits_def using u8_app u16_app u32_app u64_app arr_app by blast+

lemma emits_done: "emits Inr []"
  by (simp add: emits_def)

lemma emits_each: "(\<And>x. x \<in> set xs \<Longrightarrow> emits (f x) (enc x)) \<Longrightarrow> emits (e_fold f xs) (concat (map enc xs))"
proof (induction xs)
  case Nil
  then show ?case by (simp add: emits_def)
next
  case (Cons x xs)
  then have "emits (\<lambda>w. e_bind (f x w) (e_fold f xs)) (enc x @ concat (map enc xs))" by (intro emits_then) auto
  then show ?case by (simp add: emits_def)
qed

end

interpretation sink: byte_sink w_inv w_data writeUint8 writeUint16 writeUint32 writeUint64 writeUint8Array
proof unfold_locales
  fix w :: BinaryWriter and v :: int and bs :: bytes
  have len: "length (be_encode n k) = n" for n k by simp
  note p = w_put_ensure[of w "be_encode n (nat v)" for n, unfolded len]
  show "w_inv w \<Longrightarrow> 0 \<le> v \<Longrightarrow> v < 2 ^ 8 \<Longrightarrow> \<exists>w'. writeUint8 v w = Inr w' \<and> w_inv w' \<and> w_data w' = w_data w @ be_encode 1 (nat v)"
    using p[of 1] by (auto simp: writeUint8_def)
  show "w_inv w \<Longrightarrow> 0 \<le> v \<Longrightarrow> v < 2 ^ 16 \<Longrightarrow> \<exists>w'. writeUint16 v w = Inr w' \<and> w_inv w' \<and> w_data w' = w_data w @ be_encode 2 (nat v)"
    using p[of 2] by (auto simp: writeUint16_def)
  show "w_inv w \<Longrightarrow> 0 \<le> v \<Longrightarrow> v < 2 ^ 32 \<Longrightarrow> \<exists>w'. writeUint32 v w = Inr w' \<and> w_inv w' \<and> w_data w' = w_data w @ be_encode 4 (nat v)"
    using p[of 4] by (auto simp: writeUint32_def)
  have d: "dbl 18446744073709551615 = 18446744073709551616"
    by (simp add: dbl_def max_safe_def round_mantissa_def bit_length.simps Let_def)
  show "w_inv w \<Longrightarrow> 0 \<le> v \<Longrightarrow> v < 2 ^ 64 \<Longrightarrow> \<exists>w'. writeUint64 v w = Inr w' \<and> w_inv w' \<and> w_data w' = w_data w @ be_encode 8 (nat v)"
    using p[of 8] by (auto simp: writeUint64_def d)
  show "w_inv w \<Longrightarrow> \<exists>w'. writeUint8Array bs w = Inr w' \<and> w_inv w' \<and> w_data w' = w_data w @ bs"
    using w_put_ensure[of w bs] by (auto simp: writeUint8Array_def)
  show "v < 0 \<or> 2 ^ 8 \<le> v \<Longrightarrow> \<exists>e. writeUint8 v w = Inl e" by (auto simp: writeUint8_def)
  show "v < 0 \<or> 2 ^ 16 \<le> v \<Longrightarrow> \<exists>e. writeUint16 v w = Inl e" by (auto simp: writeUint16_def)
  show "v < 0 \<or> 2 ^ 32 \<le> v \<Longrightarrow> \<exists>e. writeUint32 v w = Inl e" by (auto simp: writeUint32_def)
  show "v < 0 \<or> 2 ^ 64 \<le> v \<Longrightarrow> \<exists>e. writeUint64 v w = Inl e" by (auto simp: writeUint64_def)
qed

text \<open>Any sequence of calls on a writer.\<close>

datatype write_op = W8 int | W16 int | W32 int | W64 int | WArray bytes

fun run_op :: "write_op \<Rightarrow> BinaryWriter \<Rightarrow> BinaryWriter outcome" where
  "run_op (W8 v) = writeUint8 v"
| "run_op (W16 v) = writeUint16 v"
| "run_op (W32 v) = writeUint32 v"
| "run_op (W64 v) = writeUint64 v"
| "run_op (WArray bs) = writeUint8Array bs"

fun op_fits :: "write_op \<Rightarrow> bool" where
  "op_fits (W8 v) = (0 \<le> v \<and> v < 2 ^ 8)"
| "op_fits (W16 v) = (0 \<le> v \<and> v < 2 ^ 16)"
| "op_fits (W32 v) = (0 \<le> v \<and> v < 2 ^ 32)"
| "op_fits (W64 v) = (0 \<le> v \<and> v < 2 ^ 64)"
| "op_fits (WArray bs) = True"

fun op_bytes :: "write_op \<Rightarrow> bytes" where
  "op_bytes (W8 v) = be_encode 1 (nat v)"
| "op_bytes (W16 v) = be_encode 2 (nat v)"
| "op_bytes (W32 v) = be_encode 4 (nat v)"
| "op_bytes (W64 v) = be_encode 8 (nat v)"
| "op_bytes (WArray bs) = bs"

lemma run_op_emits: "op_fits op \<Longrightarrow> sink.emits (run_op op) (op_bytes op)"
  by (cases op) (simp_all only: op_fits.simps run_op.simps op_bytes.simps sink.emits_basic)

lemma run_op_rejects: "\<not> op_fits op \<Longrightarrow> \<exists>e. run_op op w = Inl e"
proof (cases op)
  case (W8 v)
  then show "\<not> op_fits op \<Longrightarrow> ?thesis" using sink.bounds(1)[of v w] by auto
next
  case (W16 v)
  then show "\<not> op_fits op \<Longrightarrow> ?thesis" using sink.bounds(2)[of v w] by auto
next
  case (W32 v)
  then show "\<not> op_fits op \<Longrightarrow> ?thesis" using sink.bounds(3)[of v w] by auto
next
  case (W64 v)
  then show "\<not> op_fits op \<Longrightarrow> ?thesis" using sink.bounds(4)[of v w] by auto
qed simp

lemma run_ops_rejects: "w_inv w \<Longrightarrow> \<not> list_all op_fits ops \<Longrightarrow> \<exists>e. e_fold run_op ops w = Inl e"
proof (induction ops arbitrary: w)
  case (Cons op ops)
  show ?case
  proof (cases "op_fits op")
    case True
    with Cons.prems(1) obtain w' where "run_op op w = Inr w'" "w_inv w'"
      using run_op_emits[of op] unfolding sink.emits_def by blast
    with Cons True show ?thesis by simp
  next
    case False
    then show ?thesis using run_op_rejects[of op w] by auto
  qed
qed simp

text \<open>
  C32.  A \<^verbatim>\<open>BinaryWriter\<close>, whatever its initial size and however often its buffer has to grow, holds after any sequence of writes
  exactly the concatenation of the big-endian encodings of what was written; a sequence with a value that does not fit
  its width throws.
\<close>

theorem writer_appends:
  "(let out = e_bind (writer_new (int n)) (\<lambda>w. e_bind (e_fold run_op ops w) (\<lambda>w'. Inr (w_data w')))
    in if list_all op_fits ops then out = Inr (concat (map op_bytes ops)) else (\<exists>e. out = Inl e))"
proof -
  obtain w where w: "writer_new (int n) = Inr w" "w_inv w" "w_data w = []" by (simp add: writer_new_def w_inv_def w_data_def)
  show ?thesis
  proof (cases "list_all op_fits ops")
    case True
    then have "sink.emits (e_fold run_op ops) (concat (map op_bytes ops))"
      by (intro sink.emits_each run_op_emits) (simp add: list_all_iff)
    with w True show ?thesis unfolding sink.emits_def by fastforce
  next
    case False
    with w run_ops_rejects[of w ops] show ?thesis by auto
  qed
qed

text \<open>A whole serialisation: a new writer of the default size, the writes, and the bytes written.\<close>

definition with_writer :: "(BinaryWriter \<Rightarrow> BinaryWriter outcome) \<Rightarrow> bytes outcome" where
  "with_writer f = e_bind (writer_new 1024) (\<lambda>w. e_bind (f w) (\<lambda>w'. Inr (w_data w')))"

lemma with_writer_emits:
  assumes "sink.emits f bs"
  shows "with_writer f = Inr bs"
proof -
  obtain w where w: "writer_new 1024 = Inr w" by (simp add: writer_new_def)
  with writer_new_ok have "w_inv w" "w_data w = []" by auto
  with assms obtain w' where "f w = Inr w'" "w_data w' = bs" unfolding sink.emits_def by fastforce
  with w show ?thesis by (simp add: with_writer_def)
qed

subsection \<open>The reader\<close>

record BinaryReader =
  rBuffer :: bytes
  rOffset :: nat

definition reader_new :: "bytes \<Rightarrow> BinaryReader" where
  "reader_new bs = \<lparr>rBuffer = bs, rOffset = 0\<rparr>"

text \<open>A number of \<open>n\<close> bytes; the offset moves only when the read succeeded.\<close>

definition read_uint :: "nat \<Rightarrow> (BinaryReader, int) stateful" where
  "read_uint n r =
     (case read_be n (rBuffer r) (rOffset r) of
        Inl e \<Rightarrow> (Inl e, r)
      | Inr v \<Rightarrow> (Inr (int v), r\<lparr>rOffset := rOffset r + n\<rparr>))"

definition readUint8 :: "(BinaryReader, int) stateful" where
  "readUint8 = read_uint 1"

definition readUint16 :: "(BinaryReader, int) stateful" where
  "readUint16 = read_uint 2"

definition readUint32 :: "(BinaryReader, int) stateful" where
  "readUint32 = read_uint 4"

definition readUint64 :: "(BinaryReader, int) stateful" where
  "readUint64 = read_uint 8"

text \<open>\<^verbatim>\<open>subarray\<close> clamps: past the end these return fewer bytes and move the offset all the same.\<close>

definition readUint8Array :: "int \<Rightarrow> (BinaryReader, bytes) stateful" where
  "readUint8Array len r =
     (Inr (subarray (rBuffer r) (rOffset r) (rOffset r + nat len)), r\<lparr>rOffset := rOffset r + nat len\<rparr>)"

definition readHex :: "int \<Rightarrow> (BinaryReader, string) stateful" where
  "readHex len = s_bind (readUint8Array len) (\<lambda>bs. s_return (uint8ArrayToHex bs))"

definition readString :: "int \<Rightarrow> (BinaryReader, string) stateful" where
  "readString len r =
     (Inr (utf8_decode (subarray (rBuffer r) (rOffset r) (rOffset r + nat len))), r\<lparr>rOffset := rOffset r + nat len\<rparr>)"

text \<open>\<^verbatim>\<open>for (let idx = 0; idx < n; idx++) xs.push(d())\<close>\<close>

fun read_list :: "(BinaryReader, 'a) stateful \<Rightarrow> nat \<Rightarrow> (BinaryReader, 'a list) stateful" where
  "read_list d 0 = s_return []"
| "read_list d (Suc n) = s_bind d (\<lambda>x. s_bind (read_list d n) (\<lambda>xs. s_return (x # xs)))"

subsection \<open>Reading back\<close>

definition decodes :: "(BinaryReader, 'a) stateful \<Rightarrow> bytes \<Rightarrow> 'a \<Rightarrow> bool" where
  "decodes d bs a \<longleftrightarrow>
     (\<forall>pre post. d \<lparr>rBuffer = pre @ bs @ post, rOffset = length pre\<rparr> =
        (Inr a, \<lparr>rBuffer = pre @ bs @ post, rOffset = length pre + length bs\<rparr>))"

lemma decodes_bind:
  assumes "decodes m as a" and "decodes (f a) bs b"
  shows "decodes (s_bind m f) (as @ bs) b"
  unfolding decodes_def
proof (intro allI)
  fix pre post
  have 1: "m \<lparr>rBuffer = pre @ (as @ bs) @ post, rOffset = length pre\<rparr> =
      (Inr a, \<lparr>rBuffer = pre @ (as @ bs) @ post, rOffset = length pre + length as\<rparr>)"
    using assms(1)[unfolded decodes_def, rule_format, of pre "bs @ post"] by simp
  have 2: "f a \<lparr>rBuffer = pre @ (as @ bs) @ post, rOffset = length pre + length as\<rparr> =
      (Inr b, \<lparr>rBuffer = pre @ (as @ bs) @ post, rOffset = length pre + length as + length bs\<rparr>)"
    using assms(2)[unfolded decodes_def, rule_format, of "pre @ as" post] by simp
  show "s_bind m f \<lparr>rBuffer = pre @ (as @ bs) @ post, rOffset = length pre\<rparr> =
      (Inr b, \<lparr>rBuffer = pre @ (as @ bs) @ post, rOffset = length pre + length (as @ bs)\<rparr>)"
    using 1 2 by (simp add: add.assoc)
qed

lemma decodes_return: "decodes (s_return a) [] a"
  by (simp add: decodes_def s_return_def)

lemma decodes_uint: "0 \<le> v \<Longrightarrow> v < 256 ^ n \<Longrightarrow> decodes (read_uint n) (be_encode n (nat v)) v"
  by (simp add: decodes_def read_uint_def read_be_at nat_less_iff)

lemma decodes_basic:
  "0 \<le> v \<Longrightarrow> v < 2 ^ 8 \<Longrightarrow> decodes readUint8 (be_encode 1 (nat v)) v"
  "0 \<le> v \<Longrightarrow> v < 2 ^ 16 \<Longrightarrow> decodes readUint16 (be_encode 2 (nat v)) v"
  "0 \<le> v \<Longrightarrow> v < 2 ^ 32 \<Longrightarrow> decodes readUint32 (be_encode 4 (nat v)) v"
  "0 \<le> v \<Longrightarrow> v < 2 ^ 64 \<Longrightarrow> decodes readUint64 (be_encode 8 (nat v)) v"
  unfolding readUint8_def readUint16_def readUint32_def readUint64_def by (intro decodes_uint; simp)+

lemma decodes_array: "n = int (length bs) \<Longrightarrow> decodes (readUint8Array n) bs bs"
  by (simp add: decodes_def readUint8Array_def subarray_at)

lemma decodes_hex: "n = int (length bs) \<Longrightarrow> decodes (readHex n) bs (uint8ArrayToHex bs)"
  using decodes_bind[OF decodes_array decodes_return, of n bs "\<lambda>bs. uint8ArrayToHex bs"] by (simp add: readHex_def)

lemma decodes_list:
  "(\<And>x. x \<in> set xs \<Longrightarrow> decodes d (enc x) x) \<Longrightarrow> decodes (read_list d (length xs)) (concat (map enc xs)) xs"
proof (induction xs)
  case Nil
  then show ?case by (simp add: decodes_return)
next
  case (Cons x xs)
  have "decodes (s_bind (read_list d (length xs)) (\<lambda>xs. s_return (x # xs))) (concat (map enc xs) @ []) (x # xs)"
    using Cons by (intro decodes_bind) (auto intro: decodes_return)
  with Cons.prems have "decodes (read_list d (Suc (length xs))) (enc x @ concat (map enc xs)) (x # xs)"
    by (simp only: read_list.simps) (intro decodes_bind, auto)
  then show ?case by simp
qed

text \<open>
  The interface of a message format: what was encoded is read back wherever it stands.  Then encodings are
  unambiguous: no encoding is a prefix of another one's continuation.
\<close>

locale codec =
  fixes enc :: "'a \<Rightarrow> bytes"
    and dec :: "(BinaryReader, 'a) stateful"
    and ok :: "'a \<Rightarrow> bool"
  assumes dec_enc: "ok a \<Longrightarrow> decodes dec (enc a) a"
begin

lemma prefix_free: "ok a \<Longrightarrow> ok b \<Longrightarrow> enc a @ x = enc b @ y \<Longrightarrow> a = b"
  using dec_enc[of a] dec_enc[of b] unfolding decodes_def by (metis append_Nil list.size(3) prod.inject sum.inject(2))

lemma enc_inj: "ok a \<Longrightarrow> ok b \<Longrightarrow> enc a = enc b \<Longrightarrow> a = b"
  using prefix_free[of a b "[]" "[]"] by simp

lemma dec_list: "list_all ok xs \<Longrightarrow> decodes (read_list dec (length xs)) (concat (map enc xs)) xs"
  by (intro decodes_list dec_enc) (simp add: list_all_iff)

lemma from_start: "ok a \<Longrightarrow> fst (dec (reader_new (enc a))) = Inr a"
  using dec_enc[of a, unfolded decodes_def, rule_format, of "[]" "[]"] by (simp add: reader_new_def)

end

end
