(* ===== verification/Query_Eth.thy ===== *)
theory Query_Eth
  imports Query_Binary
begin

section \<open>Queries to EVM chains: \<^verbatim>\<open>ethCall.ts\<close>, \<^verbatim>\<open>ethCallByTimestamp.ts\<close>, \<^verbatim>\<open>ethCallWithFinality.ts\<close>\<close>

text \<open>
  The three kinds of EVM query with their responses: constructors with their checks, \<^verbatim>\<open>serialize\<close> and \<^verbatim>\<open>fromReader\<close>.
  For each there is the byte format (\<open>enc_...\<close>), the well-formed values (\<open>..._ok\<close>), the fact that \<^verbatim>\<open>serialize\<close>
  produces the format, and an interpretation of \<open>codec\<close> that says \<^verbatim>\<open>fromReader\<close> reads it back.
\<close>

subsection \<open>Shared parts\<close>

record EthCallData =
  callTo :: string
  callInput :: string

datatype BlockTag = TagNum int | TagStr string

definition with_0x :: "string \<Rightarrow> string" where
  "with_0x s = (if starts_with ''0x'' s then s else ''0x'' @ s)"

definition num_tag :: "int \<Rightarrow> string outcome" where
  "num_tag n = (if n < 0 then Inl (mk_error ''block tag must be positive'') else Inr (''0x'' @ show_radix 16 (nat n)))"

definition str_tag :: "string \<Rightarrow> string outcome" where
  "str_tag s = (if isValidHexString s then Inr (with_0x s) else Inl (mk_error (''Invalid block tag: '' @ s)))"

fun parseBlockId :: "BlockTag \<Rightarrow> string outcome" where
  "parseBlockId (TagNum n) = (if n = 0 then Inl (mk_error ''block tag is required'') else num_tag n)"
| "parseBlockId (TagStr s) = (if s = [] then Inl (mk_error ''block tag is required'') else str_tag s)"

fun parseBlockHint :: "BlockTag \<Rightarrow> string outcome" where
  "parseBlockHint (TagNum n) = num_tag n"
| "parseBlockHint (TagStr s) = (if s = [] then Inr [] else str_tag s)"

definition write_string :: "string \<Rightarrow> BinaryWriter \<Rightarrow> BinaryWriter outcome" where
  "write_string s w = e_bind (writeUint32 (int (length s)) w) (writeUint8Array (utf8_encode s))"

definition write_hex :: "string \<Rightarrow> BinaryWriter \<Rightarrow> BinaryWriter outcome" where
  "write_hex s w = e_bind (hexToUint8Array s) (\<lambda>bs. writeUint8Array bs w)"

definition write_call_data :: "EthCallData \<Rightarrow> BinaryWriter \<Rightarrow> BinaryWriter outcome" where
  "write_call_data cd w =
     e_bind (hexToUint8Array (callInput cd)) (\<lambda>dataArray.
     e_bind (write_hex (callTo cd) w) (\<lambda>w.
     e_bind (writeUint32 (int (length dataArray)) w) (writeUint8Array dataArray)))"

definition write_result :: "string \<Rightarrow> BinaryWriter \<Rightarrow> BinaryWriter outcome" where
  "write_result s w = e_bind (hexToUint8Array s) (\<lambda>arr. e_bind (writeUint32 (int (length arr)) w) (writeUint8Array arr))"

definition read_string :: "(BinaryReader, string) stateful" where
  "read_string = s_bind readUint32 readString"

definition read_call_data :: "(BinaryReader, EthCallData) stateful" where
  "read_call_data =
     s_bind (readHex 20) (\<lambda>to. s_bind readUint32 (\<lambda>n. s_bind (readHex n) (\<lambda>d. s_return \<lparr>callTo = to, callInput = d\<rparr>)))"

definition read_calls :: "(BinaryReader, EthCallData list) stateful" where
  "read_calls = s_bind readUint8 (\<lambda>n. read_list read_call_data (nat n))"

definition read_result :: "(BinaryReader, string) stateful" where
  "read_result = s_bind readUint32 readHex"

definition read_results :: "(BinaryReader, string list) stateful" where
  "read_results = s_bind readUint8 (\<lambda>n. read_list read_result (nat n))"

text \<open>Hexadecimal strings as the reader writes them: prefixed, lower case, an even and non-zero number of digits.\<close>

definition hexbytes :: "string \<Rightarrow> bytes" where
  "hexbytes s = from_hex (drop 2 s)"

definition hex_canon :: "string \<Rightarrow> bool" where
  "hex_canon s \<longleftrightarrow> s = uint8ArrayToHex (hexbytes s) \<and> hexbytes s \<noteq> []"

lemma is_hex_digits: "list_all is_hex (to_hex bs)"
proof -
  have "is_hex (hex_digits ! d)" if "d < 16" for d using digit_val_hex_digit[of d 16] that by (simp add: is_hex_def)
  moreover have "unat b div 16 < 16" for b :: byte using unat_byte_less[of b] by (simp add: less_mult_imp_div_less)
  ultimately show ?thesis by (induction bs) (simp_all add: to_hex_def hex_of_byte_def)
qed

lemma hexToUint8Array_hex: "bs \<noteq> [] \<Longrightarrow> hexToUint8Array (uint8ArrayToHex bs) = Inr bs"
proof -
  assume ne: "bs \<noteq> []"
  then have "to_hex bs \<noteq> []" using length_to_hex[of bs] by (metis length_0_conv mult_is_0 zero_neq_numeral)
  then show ?thesis
    using is_hex_digits[of bs]
    by (simp add: hexToUint8Array_def isValidHexString_def uint8ArrayToHex_def starts_with_def)
qed

lemma hexToUint8Array_canon: "hex_canon s \<Longrightarrow> hexToUint8Array s = Inr (hexbytes s)"
  using hexToUint8Array_hex[of "hexbytes s"] by (simp add: hex_canon_def)

lemma is_hex_ascii: "is_hex c \<Longrightarrow> (of_char c :: nat) < 128"
proof -
  assume "is_hex c"
  then have "index_of (to_lower c) hex_digits \<noteq> None" by (auto simp: is_hex_def digit_val_def split: option.splits)
  then have "to_lower c \<in> set hex_digits" by (auto simp: hex_digits_def split: if_splits)
  then have "c \<in> set ''0123456789abcdefABCDEF''" by (auto simp: to_lower_def hex_digits_def split: if_splits)
  then show ?thesis by auto
qed

lemma valid_hex_ascii: "isValidHexString s \<Longrightarrow> ascii s"
proof -
  assume v: "isValidHexString s"
  have h: "list_all is_hex t \<Longrightarrow> ascii t" for t by (auto simp: ascii_def list_all_iff is_hex_ascii)
  show ?thesis
  proof (cases "starts_with ''0x'' s")
    case True
    then have e: "s = ''0x'' @ drop 2 s" unfolding starts_with_def
      by (metis append_take_drop_id length_Cons list.size(3) numeral_2_eq_2)
    have "ascii (drop 2 s)" using v True h by (simp add: isValidHexString_def Let_def)
    then have "ascii (''0x'' @ drop 2 s)" by (simp add: ascii_def)
    with e show ?thesis by simp
  next
    case False
    with v h show ?thesis by (simp add: isValidHexString_def Let_def)
  qed
qed

lemma utf8_ascii: "ascii s \<Longrightarrow> utf8_encode s = map byte_of_char s"
  by (induction s) (auto simp: utf8_encode_def ascii_def byte_of_char_def)

lemma utf8_roundtrip: "ascii s \<Longrightarrow> utf8_decode (utf8_encode s) = s \<and> length (utf8_encode s) = length s"
proof -
  assume a: "ascii s"
  have "char_of (unat (byte_of_char c)) = c" if "(of_char c :: nat) < 128" for c
    using that by (simp add: byte_of_char_def unat_byte_of_nat)
  then have "map (\<lambda>c. char_of (unat (byte_of_char c))) s = s"
    using a by (intro map_idI) (auto simp: ascii_def list_all_iff)
  with a show ?thesis by (simp add: utf8_ascii utf8_decode_def comp_def)
qed

subsection \<open>The formats of the shared parts\<close>

definition enc_string :: "string \<Rightarrow> bytes" where
  "enc_string s = be_encode 4 (length s) @ utf8_encode s"

definition string_ok :: "string \<Rightarrow> bool" where
  "string_ok s \<longleftrightarrow> ascii s \<and> length s < 2 ^ 32"

definition enc_result :: "string \<Rightarrow> bytes" where
  "enc_result s = be_encode 4 (length (hexbytes s)) @ hexbytes s"

definition result_ok :: "string \<Rightarrow> bool" where
  "result_ok s \<longleftrightarrow> hex_canon s \<and> length (hexbytes s) < 2 ^ 32"

definition enc_call :: "EthCallData \<Rightarrow> bytes" where
  "enc_call cd = hexbytes (callTo cd) @ enc_result (callInput cd)"

definition call_ok :: "EthCallData \<Rightarrow> bool" where
  "call_ok cd \<longleftrightarrow> hex_canon (callTo cd) \<and> length (hexbytes (callTo cd)) = 20 \<and> result_ok (callInput cd)"

definition enc_counted :: "('a \<Rightarrow> bytes) \<Rightarrow> 'a list \<Rightarrow> bytes" where
  "enc_counted enc xs = be_encode 1 (length xs) @ concat (map enc xs)"

definition counted_ok :: "('a \<Rightarrow> bool) \<Rightarrow> 'a list \<Rightarrow> bool" where
  "counted_ok ok xs \<longleftrightarrow> length xs < 256 \<and> list_all ok xs"

definition u64_ok :: "int \<Rightarrow> bool" where
  "u64_ok v \<longleftrightarrow> 0 \<le> v \<and> v < 2 ^ 64"

lemma emits_string: "string_ok s \<Longrightarrow> sink.emits (write_string s) (enc_string s)"
proof -
  assume "string_ok s"
  then have "sink.emits (writeUint32 (int (length s))) (be_encode 4 (nat (int (length s))))"
    by (intro sink.emits_basic(3)) (auto simp: string_ok_def)
  from sink.emits_then[OF this sink.emits_basic(5)[of "utf8_encode s"]] show ?thesis
    by (simp add: write_string_def[abs_def] enc_string_def)
qed

lemma emits_hex: "hex_canon s \<Longrightarrow> sink.emits (write_hex s) (hexbytes s)"
  using sink.emits_basic(5)[of "hexbytes s"] by (simp add: write_hex_def[abs_def] hexToUint8Array_canon)

lemma emits_sized: "length bs < 2 ^ 32 \<Longrightarrow>
    sink.emits (\<lambda>w. e_bind (writeUint32 (int (length bs)) w) (writeUint8Array bs)) (be_encode 4 (length bs) @ bs)"
  using sink.emits_then[OF sink.emits_basic(3)[of "int (length bs)"] sink.emits_basic(5)[of bs]] by simp

lemma emits_result: "result_ok s \<Longrightarrow> sink.emits (write_result s) (enc_result s)"
  using emits_sized[of "hexbytes s"] by (simp add: result_ok_def write_result_def[abs_def] enc_result_def hexToUint8Array_canon)

lemma emits_call: "call_ok cd \<Longrightarrow> sink.emits (write_call_data cd) (enc_call cd)"
  using sink.emits_then[OF emits_hex[of "callTo cd"] emits_sized[of "hexbytes (callInput cd)"]]
  by (simp add: call_ok_def result_ok_def write_call_data_def[abs_def] enc_call_def enc_result_def hexToUint8Array_canon)

lemma emits_counted:
  assumes "counted_ok ok xs" and "\<And>x. ok x \<Longrightarrow> sink.emits (f x) (enc x)"
  shows "sink.emits (\<lambda>w. e_bind (writeUint8 (int (length xs)) w) (e_fold f xs)) (enc_counted enc xs)"
proof -
  have "sink.emits (e_fold f xs) (concat (map enc xs))"
    using assms by (intro sink.emits_each) (auto simp: counted_ok_def list_all_iff)
  from sink.emits_then[OF sink.emits_basic(1)[of "int (length xs)"] this] assms(1) show ?thesis
    by (simp add: counted_ok_def enc_counted_def)
qed

lemma decodes_utf8: "ascii s \<Longrightarrow> n = int (length s) \<Longrightarrow> decodes (readString n) (utf8_encode s) s"
  using utf8_roundtrip[of s] by (auto simp: decodes_def readString_def subarray_def)

lemma decodes_string: "string_ok s \<Longrightarrow> decodes read_string (enc_string s) s"
  unfolding read_string_def enc_string_def
  using decodes_bind[where f = readString, OF decodes_basic(3)[of "int (length s)"] decodes_utf8[of s "int (length s)"]] by (simp add: string_ok_def)

lemma decodes_sized_hex:
  "length bs < 2 ^ 32 \<Longrightarrow> decodes read_result (be_encode 4 (length bs) @ bs) (uint8ArrayToHex bs)"
  unfolding read_result_def
  using decodes_bind[where f = readHex, OF decodes_basic(3)[of "int (length bs)"] decodes_hex[of "int (length bs)" bs]] by simp

lemma decodes_result: "result_ok s \<Longrightarrow> decodes read_result (enc_result s) s"
  using decodes_sized_hex[of "hexbytes s"] by (simp add: enc_result_def result_ok_def hex_canon_def)

lemma read_call_data_alt:
  "read_call_data = s_bind (readHex 20) (\<lambda>to. s_bind read_result (\<lambda>d. s_return \<lparr>callTo = to, callInput = d\<rparr>))"
  unfolding read_call_data_def read_result_def by (simp add: s_bind_def fun_eq_iff split: prod.splits sum.splits)

lemma decodes_call: "call_ok cd \<Longrightarrow> decodes read_call_data (enc_call cd) cd"
proof -
  assume ok: "call_ok cd"
  let ?to = "callTo cd" and ?d = "callInput cd"
  have "decodes (readHex 20) (hexbytes ?to) (uint8ArrayToHex (hexbytes ?to))"
    using ok by (intro decodes_hex) (simp add: call_ok_def)
  then have 1: "decodes (readHex 20) (hexbytes ?to) ?to" using ok by (simp add: call_ok_def hex_canon_def)
  have "decodes (s_bind read_result (\<lambda>d. s_return \<lparr>callTo = ?to, callInput = d\<rparr>)) (enc_result ?d @ []) \<lparr>callTo = ?to, callInput = ?d\<rparr>"
    using ok by (intro decodes_bind[where a = ?d]) (auto simp: call_ok_def intro: decodes_return decodes_result)
  then show ?thesis
    unfolding read_call_data_alt enc_call_def by (intro decodes_bind[where a = ?to, OF 1]) (cases cd, simp)
qed

interpretation result_codec: codec enc_result read_result result_ok
  by unfold_locales (rule decodes_result)

interpretation call_codec: codec enc_call read_call_data call_ok
  by unfold_locales (rule decodes_call)

lemma decodes_counted:
  assumes "counted_ok ok xs" and "\<And>x. ok x \<Longrightarrow> decodes d (enc x) x"
  shows "decodes (s_bind readUint8 (\<lambda>n. read_list d (nat n))) (enc_counted enc xs) xs"
proof -
  have "decodes (read_list d (length xs)) (concat (map enc xs)) xs"
    using assms by (intro decodes_list) (auto simp: counted_ok_def list_all_iff)
  from decodes_bind[OF decodes_basic(1)[of "int (length xs)"], of "\<lambda>n. read_list d (nat n)", simplified, OF _ this] assms(1)
  show ?thesis by (simp add: enc_counted_def counted_ok_def)
qed

lemma decodes_lift: "decodes (s_lift (Inr a)) [] a"
  by (simp add: decodes_def s_lift_def)

subsection \<open>\<^verbatim>\<open>EthCallQueryRequest\<close> and \<^verbatim>\<open>EthCallQueryResponse\<close>\<close>

record EthCallQueryRequest =
  ecBlockTag :: string
  ecCallData :: "EthCallData list"

definition eth_call_new :: "BlockTag \<Rightarrow> EthCallData list \<Rightarrow> EthCallQueryRequest outcome" where
  "eth_call_new tag cds = e_bind (parseBlockId tag) (\<lambda>t. Inr \<lparr>ecBlockTag = t, ecCallData = cds\<rparr>)"

definition eth_call_serialize :: "EthCallQueryRequest \<Rightarrow> bytes outcome" where
  "eth_call_serialize q =
     with_writer (\<lambda>w.
       e_bind (write_string (ecBlockTag q) w) (\<lambda>w.
       e_bind (writeUint8 (int (length (ecCallData q))) w) (e_fold write_call_data (ecCallData q))))"

definition eth_call_from_reader :: "(BinaryReader, EthCallQueryRequest) stateful" where
  "eth_call_from_reader =
     s_bind read_string (\<lambda>blockTag. s_bind read_calls (\<lambda>callData. s_lift (eth_call_new (TagStr blockTag) callData)))"

definition enc_eth_call :: "EthCallQueryRequest \<Rightarrow> bytes" where
  "enc_eth_call q = enc_string (ecBlockTag q) @ enc_counted enc_call (ecCallData q)"

definition tag_ok :: "string \<Rightarrow> bool" where
  "tag_ok t \<longleftrightarrow> isValidHexString t \<and> starts_with ''0x'' t \<and> length t < 2 ^ 32"

definition eth_call_ok :: "EthCallQueryRequest \<Rightarrow> bool" where
  "eth_call_ok q \<longleftrightarrow> tag_ok (ecBlockTag q) \<and> counted_ok call_ok (ecCallData q)"

lemma tag_ok_string: "tag_ok t \<Longrightarrow> string_ok t"
  by (simp add: tag_ok_def string_ok_def valid_hex_ascii)

lemma tag_ok_parse: "tag_ok t \<Longrightarrow> parseBlockId (TagStr t) = Inr t \<and> parseBlockHint (TagStr t) = Inr t"
  by (auto simp: tag_ok_def str_tag_def with_0x_def isValidHexString_def starts_with_def)

lemma eth_call_serialize_ok: "eth_call_ok q \<Longrightarrow> eth_call_serialize q = Inr (enc_eth_call q)"
  unfolding eth_call_serialize_def enc_eth_call_def eth_call_ok_def
  by (intro with_writer_emits sink.emits_then emits_string tag_ok_string emits_counted[where ok = call_ok]) (auto intro: emits_call)

lemma eth_call_decodes: "eth_call_ok q \<Longrightarrow> decodes eth_call_from_reader (enc_eth_call q) q"
proof -
  assume ok: "eth_call_ok q"
  have "decodes (s_lift (eth_call_new (TagStr (ecBlockTag q)) (ecCallData q))) [] q"
    using ok tag_ok_parse[of "ecBlockTag q"] by (cases q) (simp add: eth_call_ok_def eth_call_new_def decodes_lift)
  then have "decodes (s_bind read_calls (\<lambda>callData. s_lift (eth_call_new (TagStr (ecBlockTag q)) callData)))
      (enc_counted enc_call (ecCallData q) @ []) q"
    unfolding read_calls_def using ok
    by (intro decodes_bind[where a = "ecCallData q"] decodes_counted[where ok = call_ok] decodes_call) (auto simp: eth_call_ok_def)
  then show ?thesis
    unfolding eth_call_from_reader_def enc_eth_call_def
    using ok by (intro decodes_bind[where a = "ecBlockTag q"] decodes_string tag_ok_string) (auto simp: eth_call_ok_def)
qed

interpretation eth_call_codec: codec enc_eth_call eth_call_from_reader eth_call_ok
  by unfold_locales (rule eth_call_decodes)

record EthCallQueryResponse =
  erBlockNumber :: int
  erBlockHash :: string
  erBlockTime :: int
  erResults :: "string list"

definition write_results :: "string list \<Rightarrow> BinaryWriter \<Rightarrow> BinaryWriter outcome" where
  "write_results rs w = e_bind (writeUint8 (int (length rs)) w) (e_fold write_result rs)"

definition eth_resp_serialize :: "EthCallQueryResponse \<Rightarrow> bytes outcome" where
  "eth_resp_serialize q =
     with_writer (\<lambda>w.
       e_bind (writeUint64 (erBlockNumber q) w) (\<lambda>w.
       e_bind (write_hex (erBlockHash q) w) (\<lambda>w.
       e_bind (writeUint64 (erBlockTime q) w) (write_results (erResults q)))))"

definition eth_resp_from_reader :: "(BinaryReader, EthCallQueryResponse) stateful" where
  "eth_resp_from_reader =
     s_bind readUint64 (\<lambda>n. s_bind (readHex 32) (\<lambda>h. s_bind readUint64 (\<lambda>t. s_bind read_results (\<lambda>rs.
       s_return \<lparr>erBlockNumber = n, erBlockHash = h, erBlockTime = t, erResults = rs\<rparr>))))"

definition hash_ok :: "string \<Rightarrow> bool" where
  "hash_ok s \<longleftrightarrow> hex_canon s \<and> length (hexbytes s) = 32"

definition enc_u64 :: "int \<Rightarrow> bytes" where
  "enc_u64 v = be_encode 8 (nat v)"

definition enc_eth_resp :: "EthCallQueryResponse \<Rightarrow> bytes" where
  "enc_eth_resp q =
     enc_u64 (erBlockNumber q) @ hexbytes (erBlockHash q) @ enc_u64 (erBlockTime q) @ enc_counted enc_result (erResults q)"

definition eth_resp_ok :: "EthCallQueryResponse \<Rightarrow> bool" where
  "eth_resp_ok q \<longleftrightarrow> u64_ok (erBlockNumber q) \<and> hash_ok (erBlockHash q) \<and> u64_ok (erBlockTime q) \<and> counted_ok result_ok (erResults q)"

lemma emits_u64: "u64_ok v \<Longrightarrow> sink.emits (writeUint64 v) (enc_u64 v)"
  unfolding u64_ok_def enc_u64_def by (intro sink.emits_basic(4)) auto

lemma emits_hash: "hash_ok s \<Longrightarrow> sink.emits (write_hex s) (hexbytes s)"
  by (simp add: hash_ok_def emits_hex)

lemma emits_results: "counted_ok result_ok rs \<Longrightarrow> sink.emits (write_results rs) (enc_counted enc_result rs)"
  using emits_counted[of result_ok rs write_result enc_result] by (simp add: write_results_def[abs_def] emits_result)

lemma decodes_u64: "u64_ok v \<Longrightarrow> decodes readUint64 (enc_u64 v) v"
  unfolding u64_ok_def enc_u64_def by (intro decodes_basic(4)) auto

lemma decodes_hash: "hash_ok s \<Longrightarrow> decodes (readHex 32) (hexbytes s) s"
  using decodes_hex[of 32 "hexbytes s"] by (simp add: hash_ok_def hex_canon_def)

lemma decodes_results: "counted_ok result_ok rs \<Longrightarrow> decodes read_results (enc_counted enc_result rs) rs"
  unfolding read_results_def by (rule decodes_counted[where ok = result_ok]) (auto intro: decodes_result)

lemma decodes_calls: "counted_ok call_ok cds \<Longrightarrow> decodes read_calls (enc_counted enc_call cds) cds"
  unfolding read_calls_def by (rule decodes_counted[where ok = call_ok]) (auto intro: decodes_call)

lemma emits_calls:
  "counted_ok call_ok cds \<Longrightarrow>
     sink.emits (\<lambda>w. e_bind (writeUint8 (int (length cds)) w) (e_fold write_call_data cds)) (enc_counted enc_call cds)"
  by (rule emits_counted[where ok = call_ok]) (auto intro: emits_call)

lemma decodes_last:
  assumes "decodes m bs a" and "decodes (f a) [] b"
  shows "decodes (s_bind m f) bs b"
  using decodes_bind[where f = f, OF assms] by simp

lemma eth_resp_serialize_ok: "eth_resp_ok q \<Longrightarrow> eth_resp_serialize q = Inr (enc_eth_resp q)"
  unfolding eth_resp_serialize_def enc_eth_resp_def eth_resp_ok_def
  by (intro with_writer_emits sink.emits_then emits_u64 emits_hash emits_results) auto

lemma eth_resp_decodes: "eth_resp_ok q \<Longrightarrow> decodes eth_resp_from_reader (enc_eth_resp q) q"
  unfolding eth_resp_from_reader_def enc_eth_resp_def eth_resp_ok_def
  by (rule decodes_bind, rule decodes_u64, simp, rule decodes_bind, rule decodes_hash, simp, rule decodes_bind, rule decodes_u64, simp,
      rule decodes_last, rule decodes_results, simp) (cases q, simp add: decodes_return)

interpretation eth_resp_codec: codec enc_eth_resp eth_resp_from_reader eth_resp_ok
  by unfold_locales (rule eth_resp_decodes)

subsection \<open>\<^verbatim>\<open>EthCallByTimestampQueryRequest\<close> and \<^verbatim>\<open>EthCallByTimestampQueryResponse\<close>\<close>

record EthCallByTimestampQueryRequest =
  etTargetTimestamp :: int
  etTargetBlockHint :: string
  etFollowingBlockHint :: string
  etCallData :: "EthCallData list"

definition eth_ts_new :: "int \<Rightarrow> BlockTag \<Rightarrow> BlockTag \<Rightarrow> EthCallData list \<Rightarrow> EthCallByTimestampQueryRequest outcome" where
  "eth_ts_new ts target following cds =
     e_bind (parseBlockHint target) (\<lambda>t. e_bind (parseBlockHint following) (\<lambda>f.
       Inr \<lparr>etTargetTimestamp = ts, etTargetBlockHint = t, etFollowingBlockHint = f, etCallData = cds\<rparr>))"

definition eth_ts_serialize :: "EthCallByTimestampQueryRequest \<Rightarrow> bytes outcome" where
  "eth_ts_serialize q =
     with_writer (\<lambda>w.
       e_bind (writeUint64 (etTargetTimestamp q) w) (\<lambda>w.
       e_bind (write_string (etTargetBlockHint q) w) (\<lambda>w.
       e_bind (write_string (etFollowingBlockHint q) w) (\<lambda>w.
       e_bind (writeUint8 (int (length (etCallData q))) w) (e_fold write_call_data (etCallData q))))))"

definition eth_ts_from_reader :: "(BinaryReader, EthCallByTimestampQueryRequest) stateful" where
  "eth_ts_from_reader =
     s_bind readUint64 (\<lambda>ts. s_bind read_string (\<lambda>target. s_bind read_string (\<lambda>following. s_bind read_calls (\<lambda>callData.
       s_lift (eth_ts_new ts (TagStr target) (TagStr following) callData)))))"

definition enc_eth_ts :: "EthCallByTimestampQueryRequest \<Rightarrow> bytes" where
  "enc_eth_ts q =
     enc_u64 (etTargetTimestamp q) @ enc_string (etTargetBlockHint q) @ enc_string (etFollowingBlockHint q)
       @ enc_counted enc_call (etCallData q)"

definition hint_ok :: "string \<Rightarrow> bool" where
  "hint_ok t \<longleftrightarrow> t = [] \<or> tag_ok t"

definition eth_ts_ok :: "EthCallByTimestampQueryRequest \<Rightarrow> bool" where
  "eth_ts_ok q \<longleftrightarrow> u64_ok (etTargetTimestamp q) \<and> hint_ok (etTargetBlockHint q) \<and> hint_ok (etFollowingBlockHint q)
     \<and> counted_ok call_ok (etCallData q)"

lemma hint_ok_string: "hint_ok t \<Longrightarrow> string_ok t"
  by (auto simp: hint_ok_def tag_ok_string) (simp add: string_ok_def ascii_def)

lemma hint_ok_parse: "hint_ok t \<Longrightarrow> parseBlockHint (TagStr t) = Inr t"
  using tag_ok_parse[of t] by (cases "t = []") (simp_all add: hint_ok_def)

lemma eth_ts_serialize_ok: "eth_ts_ok q \<Longrightarrow> eth_ts_serialize q = Inr (enc_eth_ts q)"
  unfolding eth_ts_serialize_def enc_eth_ts_def eth_ts_ok_def
  by (intro with_writer_emits sink.emits_then emits_u64 emits_string hint_ok_string emits_calls) auto

lemma eth_ts_decodes: "eth_ts_ok q \<Longrightarrow> decodes eth_ts_from_reader (enc_eth_ts q) q"
  unfolding eth_ts_from_reader_def enc_eth_ts_def eth_ts_ok_def
  by (rule decodes_bind, rule decodes_u64, simp, rule decodes_bind, rule decodes_string, simp add: hint_ok_string,
      rule decodes_bind, rule decodes_string, simp add: hint_ok_string, rule decodes_last, rule decodes_calls, simp)
     (cases q, simp add: eth_ts_new_def hint_ok_parse decodes_lift del: parseBlockHint.simps)

interpretation eth_ts_codec: codec enc_eth_ts eth_ts_from_reader eth_ts_ok
  by unfold_locales (rule eth_ts_decodes)

record EthCallByTimestampQueryResponse =
  trTargetBlockNumber :: int
  trTargetBlockHash :: string
  trTargetBlockTime :: int
  trFollowingBlockNumber :: int
  trFollowingBlockHash :: string
  trFollowingBlockTime :: int
  trResults :: "string list"

definition eth_ts_resp_serialize :: "EthCallByTimestampQueryResponse \<Rightarrow> bytes outcome" where
  "eth_ts_resp_serialize q =
     with_writer (\<lambda>w.
       e_bind (writeUint64 (trTargetBlockNumber q) w) (\<lambda>w.
       e_bind (write_hex (trTargetBlockHash q) w) (\<lambda>w.
       e_bind (writeUint64 (trTargetBlockTime q) w) (\<lambda>w.
       e_bind (writeUint64 (trFollowingBlockNumber q) w) (\<lambda>w.
       e_bind (write_hex (trFollowingBlockHash q) w) (\<lambda>w.
       e_bind (writeUint64 (trFollowingBlockTime q) w) (write_results (trResults q))))))))"

definition eth_ts_resp_from_reader :: "(BinaryReader, EthCallByTimestampQueryResponse) stateful" where
  "eth_ts_resp_from_reader =
     s_bind readUint64 (\<lambda>tn. s_bind (readHex 32) (\<lambda>th. s_bind readUint64 (\<lambda>tt.
     s_bind readUint64 (\<lambda>fn. s_bind (readHex 32) (\<lambda>fh. s_bind readUint64 (\<lambda>ft. s_bind read_results (\<lambda>rs.
       s_return \<lparr>trTargetBlockNumber = tn, trTargetBlockHash = th, trTargetBlockTime = tt, trFollowingBlockNumber = fn,
         trFollowingBlockHash = fh, trFollowingBlockTime = ft, trResults = rs\<rparr>)))))))"

definition enc_eth_ts_resp :: "EthCallByTimestampQueryResponse \<Rightarrow> bytes" where
  "enc_eth_ts_resp q =
     enc_u64 (trTargetBlockNumber q) @ hexbytes (trTargetBlockHash q) @ enc_u64 (trTargetBlockTime q)
       @ enc_u64 (trFollowingBlockNumber q) @ hexbytes (trFollowingBlockHash q) @ enc_u64 (trFollowingBlockTime q)
       @ enc_counted enc_result (trResults q)"

definition eth_ts_resp_ok :: "EthCallByTimestampQueryResponse \<Rightarrow> bool" where
  "eth_ts_resp_ok q \<longleftrightarrow> u64_ok (trTargetBlockNumber q) \<and> hash_ok (trTargetBlockHash q) \<and> u64_ok (trTargetBlockTime q)
     \<and> u64_ok (trFollowingBlockNumber q) \<and> hash_ok (trFollowingBlockHash q) \<and> u64_ok (trFollowingBlockTime q)
     \<and> counted_ok result_ok (trResults q)"

lemma eth_ts_resp_serialize_ok: "eth_ts_resp_ok q \<Longrightarrow> eth_ts_resp_serialize q = Inr (enc_eth_ts_resp q)"
  unfolding eth_ts_resp_serialize_def enc_eth_ts_resp_def eth_ts_resp_ok_def
  by (intro with_writer_emits sink.emits_then emits_u64 emits_hash emits_results) auto

text \<open>The header of a block in a response: its number, hash and time, read back in front of anything.\<close>

lemma decodes_block:
  assumes "u64_ok n" and "hash_ok h" and "u64_ok t" and "decodes (f n h t) bs a"
  shows "decodes (s_bind readUint64 (\<lambda>n. s_bind (readHex 32) (\<lambda>h. s_bind readUint64 (\<lambda>t. f n h t))))
    (enc_u64 n @ hexbytes h @ enc_u64 t @ bs) a"
  using assms(4) by (intro decodes_bind[where f = "\<lambda>n. s_bind (readHex 32) (\<lambda>h. s_bind readUint64 (\<lambda>t. f n h t))", OF decodes_u64[OF assms(1)]]
    decodes_bind[where f = "\<lambda>h. s_bind readUint64 (\<lambda>t. f n h t)", OF decodes_hash[OF assms(2)]]
    decodes_bind[where f = "\<lambda>t. f n h t", OF decodes_u64[OF assms(3)]])

lemma eth_ts_resp_decodes: "eth_ts_resp_ok q \<Longrightarrow> decodes eth_ts_resp_from_reader (enc_eth_ts_resp q) q"
  unfolding eth_ts_resp_from_reader_def enc_eth_ts_resp_def eth_ts_resp_ok_def
  by (rule decodes_block, simp, simp, simp, rule decodes_block, simp, simp, simp, rule decodes_last, rule decodes_results, simp)
     (cases q, simp add: decodes_return)

interpretation eth_ts_resp_codec: codec enc_eth_ts_resp eth_ts_resp_from_reader eth_ts_resp_ok
  by unfold_locales (rule eth_ts_resp_decodes)

subsection \<open>\<^verbatim>\<open>EthCallWithFinalityQueryRequest\<close> and \<^verbatim>\<open>EthCallWithFinalityQueryResponse\<close>\<close>

text \<open>The finality is a string in the object: the type \<^verbatim>\<open>"safe" | "finalized"\<close> is not checked when the program runs.\<close>

record EthCallWithFinalityQueryRequest =
  efBlockId :: string
  efFinality :: string
  efCallData :: "EthCallData list"

definition eth_fin_new :: "BlockTag \<Rightarrow> string \<Rightarrow> EthCallData list \<Rightarrow> EthCallWithFinalityQueryRequest outcome" where
  "eth_fin_new tag fin cds = e_bind (parseBlockId tag) (\<lambda>t. Inr \<lparr>efBlockId = t, efFinality = fin, efCallData = cds\<rparr>)"

definition eth_fin_serialize :: "EthCallWithFinalityQueryRequest \<Rightarrow> bytes outcome" where
  "eth_fin_serialize q =
     with_writer (\<lambda>w.
       e_bind (write_string (efBlockId q) w) (\<lambda>w.
       e_bind (write_string (efFinality q) w) (\<lambda>w.
       e_bind (writeUint8 (int (length (efCallData q))) w) (e_fold write_call_data (efCallData q)))))"

definition eth_fin_from_reader :: "(BinaryReader, EthCallWithFinalityQueryRequest) stateful" where
  "eth_fin_from_reader =
     s_bind read_string (\<lambda>blockTag. s_bind read_string (\<lambda>finality.
       if finality \<noteq> ''finalized'' \<and> finality \<noteq> ''safe'' then s_throw (mk_error (''Unsupported finality: '' @ finality))
       else s_bind read_calls (\<lambda>callData. s_lift (eth_fin_new (TagStr blockTag) finality callData))))"

definition enc_eth_fin :: "EthCallWithFinalityQueryRequest \<Rightarrow> bytes" where
  "enc_eth_fin q = enc_string (efBlockId q) @ enc_string (efFinality q) @ enc_counted enc_call (efCallData q)"

definition finality_ok :: "string \<Rightarrow> bool" where
  "finality_ok s \<longleftrightarrow> s = ''finalized'' \<or> s = ''safe''"

definition eth_fin_ok :: "EthCallWithFinalityQueryRequest \<Rightarrow> bool" where
  "eth_fin_ok q \<longleftrightarrow> tag_ok (efBlockId q) \<and> finality_ok (efFinality q) \<and> counted_ok call_ok (efCallData q)"

lemma finality_string: "finality_ok s \<Longrightarrow> string_ok s"
  by (auto simp: finality_ok_def string_ok_def ascii_def)

lemma eth_fin_serialize_ok: "eth_fin_ok q \<Longrightarrow> eth_fin_serialize q = Inr (enc_eth_fin q)"
  unfolding eth_fin_serialize_def enc_eth_fin_def eth_fin_ok_def
  by (intro with_writer_emits sink.emits_then emits_string finality_string tag_ok_string emits_calls) auto

lemma eth_fin_decodes: "eth_fin_ok q \<Longrightarrow> decodes eth_fin_from_reader (enc_eth_fin q) q"
proof -
  assume ok: "eth_fin_ok q"
  let ?k = "\<lambda>tag fin. s_bind read_calls (\<lambda>callData. s_lift (eth_fin_new (TagStr tag) fin callData))"
  have "decodes (?k (efBlockId q) (efFinality q)) (enc_counted enc_call (efCallData q)) q"
    using ok by (intro decodes_last[OF decodes_calls])
      (simp add: eth_fin_ok_def, cases q,
       simp add: eth_fin_ok_def eth_fin_new_def tag_ok_parse decodes_lift del: parseBlockId.simps)
  then show ?thesis
    unfolding eth_fin_from_reader_def enc_eth_fin_def
    using ok by (intro decodes_bind[where a = "efBlockId q"] decodes_bind[where a = "efFinality q"] decodes_string)
      (auto simp: eth_fin_ok_def tag_ok_string finality_string, auto simp: finality_ok_def)
qed

interpretation eth_fin_codec: codec enc_eth_fin eth_fin_from_reader eth_fin_ok
  by unfold_locales (rule eth_fin_decodes)

text \<open>The response has the fields and the format of \<^verbatim>\<open>EthCallQueryResponse\<close>, which the class extends.\<close>

type_synonym EthCallWithFinalityQueryResponse = EthCallQueryResponse

definition eth_fin_resp_from_reader :: "(BinaryReader, EthCallWithFinalityQueryResponse) stateful" where
  "eth_fin_resp_from_reader =
     s_bind eth_resp_from_reader (\<lambda>q.
       s_return \<lparr>erBlockNumber = erBlockNumber q, erBlockHash = erBlockHash q, erBlockTime = erBlockTime q, erResults = erResults q\<rparr>)"

lemma eth_fin_resp_decodes: "eth_resp_ok q \<Longrightarrow> decodes eth_fin_resp_from_reader (enc_eth_resp q) q"
  unfolding eth_fin_resp_from_reader_def by (rule decodes_last[OF eth_resp_decodes]) (simp, cases q, simp add: decodes_return)

interpretation eth_fin_resp_codec: codec enc_eth_resp eth_fin_resp_from_reader eth_resp_ok
  by unfold_locales (rule eth_fin_resp_decodes)

end
