(* ===== verification/Query_Solana.thy ===== *)
theory Query_Solana
  imports Query_Eth
begin

section \<open>Queries to Solana: \<^verbatim>\<open>solanaAccount.ts\<close>, \<^verbatim>\<open>solanaPda.ts\<close>\<close>

text \<open>
  Account and program-derived-address queries with their responses.  \<^verbatim>\<open>base58.decode\<close> of the package \<^verbatim>\<open>bs58\<close> is the parameter
  \<open>base58\<close>.  As for the EVM queries, each class comes with its byte format and an interpretation of \<open>codec\<close>.
\<close>

subsection \<open>Shared parts\<close>

text \<open>A \<^verbatim>\<open>Uint8Array\<close> in a template string: its bytes in decimal, with commas.\<close>

definition bytes_text :: "bytes \<Rightarrow> string" where
  "bytes_text bs = intercalate '','' (map (\<lambda>b. show_nat (unat b)) bs)"

definition write_sized :: "bytes \<Rightarrow> BinaryWriter \<Rightarrow> BinaryWriter outcome" where
  "write_sized bs w = e_bind (writeUint32 (int (length bs)) w) (writeUint8Array bs)"

definition read_sized :: "(BinaryReader, bytes) stateful" where
  "read_sized = s_bind readUint32 readUint8Array"

definition enc_sized :: "bytes \<Rightarrow> bytes" where
  "enc_sized bs = be_encode 4 (length bs) @ bs"

definition sized_ok :: "bytes \<Rightarrow> bool" where
  "sized_ok bs \<longleftrightarrow> length bs < 2 ^ 32"

lemma emits_sized_bytes: "sized_ok bs \<Longrightarrow> sink.emits (write_sized bs) (enc_sized bs)"
  using emits_sized[of bs] by (simp add: sized_ok_def write_sized_def[abs_def] enc_sized_def)

lemma decodes_sized: "sized_ok bs \<Longrightarrow> decodes read_sized (enc_sized bs) bs"
  unfolding read_sized_def enc_sized_def
  using decodes_bind[where f = readUint8Array, OF decodes_basic(3)[of "int (length bs)"] decodes_array[of "int (length bs)" bs]]
  by (simp add: sized_ok_def)

interpretation sized_codec: codec enc_sized read_sized sized_ok
  by unfold_locales (rule decodes_sized)

definition key_ok :: "bytes \<Rightarrow> bool" where
  "key_ok bs \<longleftrightarrow> length bs = 32"

lemma decodes_key: "key_ok bs \<Longrightarrow> decodes (readUint8Array 32) bs bs"
  by (rule decodes_array) (simp add: key_ok_def)

definition read_bool :: "(BinaryReader, bool) stateful" where
  "read_bool = s_bind readUint8 (\<lambda>n. s_return (n \<noteq> 0))"

definition write_bool :: "bool \<Rightarrow> BinaryWriter \<Rightarrow> BinaryWriter outcome" where
  "write_bool b = writeUint8 (if b then 1 else 0)"

definition enc_bool :: "bool \<Rightarrow> bytes" where
  "enc_bool b = be_encode 1 (if b then 1 else 0)"

lemma emits_bool: "sink.emits (write_bool b) (enc_bool b)"
  using sink.emits_basic(1)[of 0] sink.emits_basic(1)[of 1] by (simp add: write_bool_def enc_bool_def)

lemma decodes_bool: "decodes read_bool (enc_bool b) b"
  unfolding read_bool_def
  using decodes_last[where f = "\<lambda>n. s_return (n \<noteq> 0)", OF decodes_basic(1)[of "if b then 1 else 0"] decodes_return] by (cases b) (simp_all add: enc_bool_def)

definition u8_ok :: "int \<Rightarrow> bool" where
  "u8_ok v \<longleftrightarrow> 0 \<le> v \<and> v < 2 ^ 8"

lemma emits_u8: "u8_ok v \<Longrightarrow> sink.emits (writeUint8 v) (be_encode 1 (nat v))"
  unfolding u8_ok_def by (intro sink.emits_basic(1)) auto

lemma decodes_u8: "u8_ok v \<Longrightarrow> decodes readUint8 (be_encode 1 (nat v)) v"
  unfolding u8_ok_def by (intro decodes_basic(1)) auto

text \<open>The commitment and the three optional numbers both requests start with.\<close>

record SolanaScope =
  commitment :: string
  minContextSlot :: int
  dataSliceOffset :: int
  dataSliceLength :: int

definition scope_new :: "string \<Rightarrow> int option \<Rightarrow> int option \<Rightarrow> int option \<Rightarrow> SolanaScope" where
  "scope_new c slot off len =
     \<lparr>commitment = c, minContextSlot = bigIntWithDef slot, dataSliceOffset = bigIntWithDef off, dataSliceLength = bigIntWithDef len\<rparr>"

definition write_scope :: "SolanaScope \<Rightarrow> BinaryWriter \<Rightarrow> BinaryWriter outcome" where
  "write_scope sc w =
     e_bind (write_string (commitment sc) w) (\<lambda>w.
     e_bind (writeUint64 (minContextSlot sc) w) (\<lambda>w.
     e_bind (writeUint64 (dataSliceOffset sc) w) (writeUint64 (dataSliceLength sc))))"

definition read_scope :: "(BinaryReader, SolanaScope) stateful" where
  "read_scope =
     s_bind read_string (\<lambda>c.
       if c \<noteq> ''finalized'' then s_throw (mk_error (''Invalid commitment: '' @ c))
       else s_bind readUint64 (\<lambda>slot. s_bind readUint64 (\<lambda>off. s_bind readUint64 (\<lambda>len.
         s_return (scope_new c (Some slot) (Some off) (Some len))))))"

definition enc_scope :: "SolanaScope \<Rightarrow> bytes" where
  "enc_scope sc = enc_string (commitment sc) @ enc_u64 (minContextSlot sc) @ enc_u64 (dataSliceOffset sc) @ enc_u64 (dataSliceLength sc)"

definition scope_ok :: "SolanaScope \<Rightarrow> bool" where
  "scope_ok sc \<longleftrightarrow> commitment sc = ''finalized'' \<and> u64_ok (minContextSlot sc) \<and> u64_ok (dataSliceOffset sc) \<and> u64_ok (dataSliceLength sc)"

lemma finalized_ok: "string_ok ''finalized''"
  by (rule finality_string) (simp add: finality_ok_def)

lemma emits_scope: "scope_ok sc \<Longrightarrow> sink.emits (write_scope sc) (enc_scope sc)"
  unfolding write_scope_def[abs_def] enc_scope_def scope_ok_def
  by (intro sink.emits_then emits_string emits_u64) (auto simp: finalized_ok)

lemma decodes_scope: "scope_ok sc \<Longrightarrow> decodes read_scope (enc_scope sc) sc"
proof -
  assume ok: "scope_ok sc"
  let ?k = "\<lambda>c. s_bind readUint64 (\<lambda>slot. s_bind readUint64 (\<lambda>off. s_bind readUint64 (\<lambda>len.
         s_return (scope_new c (Some slot) (Some off) (Some len)))))"
  have "decodes (?k (commitment sc)) (enc_u64 (minContextSlot sc) @ enc_u64 (dataSliceOffset sc) @ enc_u64 (dataSliceLength sc)) sc"
    using ok unfolding scope_ok_def
    by (intro decodes_bind[OF decodes_u64[of "minContextSlot sc"]] decodes_bind[OF decodes_u64[of "dataSliceOffset sc"]]
        decodes_last[OF decodes_u64[of "dataSliceLength sc"]])
      (simp, simp, simp, cases sc, simp add: scope_new_def bigIntWithDef_def decodes_return)
  then show ?thesis
    unfolding read_scope_def enc_scope_def
    using ok by (intro decodes_bind[where a = "commitment sc"] decodes_string) (auto simp: scope_ok_def finalized_ok)
qed

interpretation scope_codec: codec enc_scope read_scope scope_ok
  by unfold_locales (rule decodes_scope)

subsection \<open>\<^verbatim>\<open>SolanaAccountQueryRequest\<close>\<close>

record SolanaAccountQueryRequest =
  saScope :: SolanaScope
  saAccounts :: "bytes list"

definition account_bytes :: "(string \<Rightarrow> bytes outcome) \<Rightarrow> string \<Rightarrow> bytes outcome" where
  "account_bytes base58 account =
     (if starts_with ''0x'' account
      then if length account \<noteq> 66 then Inl (mk_error (''Invalid account, must be 32 bytes: '' @ account))
           else Inr (from_hex (drop 2 account))
      else base58 account)"

definition sol_account_new ::
    "(string \<Rightarrow> bytes outcome) \<Rightarrow> string \<Rightarrow> string list \<Rightarrow> int option \<Rightarrow> int option \<Rightarrow> int option \<Rightarrow> SolanaAccountQueryRequest outcome" where
  "sol_account_new base58 c accounts slot off len =
     e_bind (e_map (account_bytes base58) accounts) (\<lambda>as. Inr \<lparr>saScope = scope_new c slot off len, saAccounts = as\<rparr>)"

definition sol_account_serialize :: "SolanaAccountQueryRequest \<Rightarrow> bytes outcome" where
  "sol_account_serialize q =
     with_writer (\<lambda>w.
       e_bind (write_scope (saScope q) w) (\<lambda>w.
       e_bind (writeUint8 (int (length (saAccounts q))) w) (e_fold writeUint8Array (saAccounts q))))"

definition read_account :: "(BinaryReader, string) stateful" where
  "read_account = s_bind (readUint8Array 32) (\<lambda>a. s_return (''0x'' @ to_hex a))"

definition sol_account_from_reader :: "(string \<Rightarrow> bytes outcome) \<Rightarrow> (BinaryReader, SolanaAccountQueryRequest) stateful" where
  "sol_account_from_reader base58 =
     s_bind read_scope (\<lambda>sc. s_bind readUint8 (\<lambda>n. s_bind (read_list read_account (nat n)) (\<lambda>accounts.
       s_lift (sol_account_new base58 (commitment sc) accounts
         (Some (minContextSlot sc)) (Some (dataSliceOffset sc)) (Some (dataSliceLength sc))))))"

definition enc_sol_account :: "SolanaAccountQueryRequest \<Rightarrow> bytes" where
  "enc_sol_account q = enc_scope (saScope q) @ enc_counted id (saAccounts q)"

definition sol_account_ok :: "SolanaAccountQueryRequest \<Rightarrow> bool" where
  "sol_account_ok q \<longleftrightarrow> scope_ok (saScope q) \<and> counted_ok key_ok (saAccounts q)"

lemma sol_account_serialize_ok: "sol_account_ok q \<Longrightarrow> sol_account_serialize q = Inr (enc_sol_account q)"
  unfolding sol_account_serialize_def enc_sol_account_def sol_account_ok_def
  by (intro with_writer_emits sink.emits_then emits_scope emits_counted[where ok = key_ok])
     (auto simp: sink.emits_basic(5))

lemma read_accounts_decodes:
  "list_all key_ok as \<Longrightarrow> decodes (read_list read_account (length as)) (concat (map id as)) (map (\<lambda>a. ''0x'' @ to_hex a) as)"
proof (induction as)
  case Nil
  then show ?case by (simp add: decodes_return)
next
  case (Cons a as)
  let ?t = "\<lambda>a. ''0x'' @ to_hex a"
  have 1: "decodes read_account a (?t a)"
    unfolding read_account_def using Cons.prems by (intro decodes_last[OF decodes_key]) (auto intro: decodes_return)
  have "decodes (s_bind (read_list read_account (length as)) (\<lambda>xs. s_return (?t a # xs))) (concat (map id as)) (?t a # map ?t as)"
    using Cons by (intro decodes_last) (auto intro: decodes_return)
  from decodes_bind[where f = "\<lambda>x. s_bind (read_list read_account (length as)) (\<lambda>xs. s_return (x # xs))", OF 1 this]
  show ?case by simp
qed

lemma accounts_parsed: "list_all key_ok as \<Longrightarrow> e_map (account_bytes base58) (map (\<lambda>a. ''0x'' @ to_hex a) as) = Inr as"
  by (induction as) (simp_all add: account_bytes_def starts_with_def key_ok_def)

lemma scope_rebuild:
  "scope_new (commitment sc) (Some (minContextSlot sc)) (Some (dataSliceOffset sc)) (Some (dataSliceLength sc)) = sc"
  by (cases sc) (simp add: scope_new_def bigIntWithDef_def)

lemma sol_account_decodes: "sol_account_ok q \<Longrightarrow> decodes (sol_account_from_reader base58) (enc_sol_account q) q"
proof -
  assume ok: "sol_account_ok q"
  let ?as = "saAccounts q" and ?sc = "saScope q"
  let ?new = "\<lambda>sc accounts. s_lift (sol_account_new base58 (commitment sc) accounts
         (Some (minContextSlot sc)) (Some (dataSliceOffset sc)) (Some (dataSliceLength sc)))"
  have len: "u8_ok (int (length ?as))" using ok by (simp add: sol_account_ok_def counted_ok_def u8_ok_def)
  have all: "list_all key_ok ?as" using ok by (simp add: sol_account_ok_def counted_ok_def)
  have "\<lparr>saScope = ?sc, saAccounts = ?as\<rparr> = q" by simp
  then have "decodes (?new ?sc (map (\<lambda>a. ''0x'' @ to_hex a) ?as)) [] q"
    using decodes_lift[of q] by (simp only: sol_account_new_def accounts_parsed[OF all] scope_rebuild e_bind_simps)
  then have "decodes (s_bind (read_list read_account (length ?as)) (?new ?sc)) (concat (map id ?as)) q"
    by (rule decodes_last[OF read_accounts_decodes[OF all]])
  then have "decodes (s_bind readUint8 (\<lambda>n. s_bind (read_list read_account (nat n)) (?new ?sc)))
      (be_encode 1 (nat (int (length ?as))) @ concat (map id ?as)) q"
    by (intro decodes_bind[OF decodes_u8[OF len]]) simp
  then show ?thesis
    unfolding sol_account_from_reader_def enc_sol_account_def
    using ok by (intro decodes_bind[OF decodes_scope[of ?sc]]) (simp_all add: sol_account_ok_def enc_counted_def)
qed

interpretation sol_account_codec: codec enc_sol_account "sol_account_from_reader base58" sol_account_ok for base58
  by unfold_locales (rule sol_account_decodes)

subsection \<open>\<^verbatim>\<open>SolanaAccountQueryResponse\<close>\<close>

record SolanaAccountResult =
  lamports :: int
  rentEpoch :: int
  executable :: bool
  owner :: bytes
  accountData :: bytes

text \<open>The part of a result that both kinds of response write.\<close>

definition write_sol_account :: "SolanaAccountResult \<Rightarrow> BinaryWriter \<Rightarrow> BinaryWriter outcome" where
  "write_sol_account r w =
     e_bind (writeUint64 (lamports r) w) (\<lambda>w.
     e_bind (writeUint64 (rentEpoch r) w) (\<lambda>w.
     e_bind (write_bool (executable r) w) (\<lambda>w.
     e_bind (writeUint8Array (owner r) w) (write_sized (accountData r)))))"

definition read_sol_account :: "(BinaryReader, SolanaAccountResult) stateful" where
  "read_sol_account =
     s_bind readUint64 (\<lambda>l. s_bind readUint64 (\<lambda>e. s_bind read_bool (\<lambda>x. s_bind (readUint8Array 32) (\<lambda>ow. s_bind read_sized (\<lambda>d.
       s_return \<lparr>lamports = l, rentEpoch = e, executable = x, owner = ow, accountData = d\<rparr>)))))"

definition enc_sol_result :: "SolanaAccountResult \<Rightarrow> bytes" where
  "enc_sol_result r = enc_u64 (lamports r) @ enc_u64 (rentEpoch r) @ enc_bool (executable r) @ owner r @ enc_sized (accountData r)"

definition sol_result_ok :: "SolanaAccountResult \<Rightarrow> bool" where
  "sol_result_ok r \<longleftrightarrow> u64_ok (lamports r) \<and> u64_ok (rentEpoch r) \<and> key_ok (owner r) \<and> sized_ok (accountData r)"

lemma emits_sol_account: "sol_result_ok r \<Longrightarrow> sink.emits (write_sol_account r) (enc_sol_result r)"
  unfolding write_sol_account_def[abs_def] enc_sol_result_def sol_result_ok_def
  by (intro sink.emits_then emits_u64 emits_bool sink.emits_basic(5) emits_sized_bytes) auto

lemma decodes_sol_account: "sol_result_ok r \<Longrightarrow> decodes read_sol_account (enc_sol_result r) r"
  unfolding read_sol_account_def enc_sol_result_def sol_result_ok_def
  by (rule decodes_bind, rule decodes_u64, simp, rule decodes_bind, rule decodes_u64, simp, rule decodes_bind, rule decodes_bool,
      rule decodes_bind, rule decodes_key, simp, rule decodes_last, rule decodes_sized, simp) (cases r, simp add: decodes_return)

interpretation sol_result_codec: codec enc_sol_result read_sol_account sol_result_ok
  by unfold_locales (rule decodes_sol_account)

record SolanaAccountQueryResponse =
  sarSlotNumber :: int
  sarBlockTime :: int
  sarBlockHash :: bytes
  sarResults :: "SolanaAccountResult list"

text \<open>The checks of the constructors: each passes or is the exception.\<close>

definition check_block_hash :: "bytes \<Rightarrow> unit outcome" where
  "check_block_hash h = (if length h \<noteq> 32 then Inl (mk_error (''Invalid block hash, should be 32 bytes long: '' @ bytes_text h)) else Inr ())"

definition check_owner :: "SolanaAccountResult \<Rightarrow> unit outcome" where
  "check_owner r = (if length (owner r) \<noteq> 32 then Inl (mk_error (''Invalid owner, should be 32 bytes long: '' @ bytes_text (owner r))) else Inr ())"

definition sol_account_resp_new :: "int \<Rightarrow> int \<Rightarrow> bytes \<Rightarrow> SolanaAccountResult list \<Rightarrow> SolanaAccountQueryResponse outcome" where
  "sol_account_resp_new slot t h rs =
     e_bind (check_block_hash h) (\<lambda>_. e_bind (e_map check_owner rs) (\<lambda>_.
       Inr \<lparr>sarSlotNumber = slot, sarBlockTime = t, sarBlockHash = h, sarResults = rs\<rparr>))"

definition sol_account_resp_serialize :: "SolanaAccountQueryResponse \<Rightarrow> bytes outcome" where
  "sol_account_resp_serialize q =
     with_writer (\<lambda>w.
       e_bind (writeUint64 (sarSlotNumber q) w) (\<lambda>w.
       e_bind (writeUint64 (sarBlockTime q) w) (\<lambda>w.
       e_bind (writeUint8Array (sarBlockHash q) w) (\<lambda>w.
       e_bind (writeUint8 (int (length (sarResults q))) w) (e_fold write_sol_account (sarResults q))))))"

definition sol_account_resp_from_reader :: "(BinaryReader, SolanaAccountQueryResponse) stateful" where
  "sol_account_resp_from_reader =
     s_bind readUint64 (\<lambda>slot. s_bind readUint64 (\<lambda>t. s_bind (readUint8Array 32) (\<lambda>h.
     s_bind (s_bind readUint8 (\<lambda>n. read_list read_sol_account (nat n))) (\<lambda>rs. s_lift (sol_account_resp_new slot t h rs)))))"

definition enc_sol_account_resp :: "SolanaAccountQueryResponse \<Rightarrow> bytes" where
  "enc_sol_account_resp q =
     enc_u64 (sarSlotNumber q) @ enc_u64 (sarBlockTime q) @ sarBlockHash q @ enc_counted enc_sol_result (sarResults q)"

definition sol_account_resp_ok :: "SolanaAccountQueryResponse \<Rightarrow> bool" where
  "sol_account_resp_ok q \<longleftrightarrow> u64_ok (sarSlotNumber q) \<and> u64_ok (sarBlockTime q) \<and> key_ok (sarBlockHash q)
     \<and> counted_ok sol_result_ok (sarResults q)"

lemma sol_account_resp_serialize_ok: "sol_account_resp_ok q \<Longrightarrow> sol_account_resp_serialize q = Inr (enc_sol_account_resp q)"
  unfolding sol_account_resp_serialize_def enc_sol_account_resp_def sol_account_resp_ok_def
  by (intro with_writer_emits sink.emits_then emits_u64 sink.emits_basic(5) emits_counted[where ok = sol_result_ok])
     (auto simp: emits_sol_account)

lemma e_map_units: "(\<And>x. x \<in> set xs \<Longrightarrow> f x = Inr ()) \<Longrightarrow> e_map f xs = Inr (replicate (length xs) ())"
  by (induction xs) simp_all

lemma sol_account_resp_new_ok: "sol_account_resp_ok q \<Longrightarrow>
    sol_account_resp_new (sarSlotNumber q) (sarBlockTime q) (sarBlockHash q) (sarResults q) = Inr q"
proof -
  assume ok: "sol_account_resp_ok q"
  then have "e_map check_owner (sarResults q) = Inr (replicate (length (sarResults q)) ())"
    by (intro e_map_units) (auto simp: sol_account_resp_ok_def counted_ok_def list_all_iff sol_result_ok_def key_ok_def check_owner_def)
  with ok show ?thesis by (simp add: sol_account_resp_new_def check_block_hash_def sol_account_resp_ok_def key_ok_def)
qed

lemma sol_account_resp_decodes: "sol_account_resp_ok q \<Longrightarrow> decodes sol_account_resp_from_reader (enc_sol_account_resp q) q"
  using sol_account_resp_new_ok[of q] decodes_lift[of q]
  unfolding sol_account_resp_from_reader_def enc_sol_account_resp_def sol_account_resp_ok_def
  by (intro decodes_bind[OF decodes_u64[of "sarSlotNumber q"]] decodes_bind[OF decodes_u64[of "sarBlockTime q"]]
      decodes_bind[OF decodes_key[of "sarBlockHash q"]] decodes_last[OF decodes_counted[where ok = sol_result_ok and xs = "sarResults q"]])
    (simp_all add: decodes_sol_account)

interpretation sol_account_resp_codec: codec enc_sol_account_resp sol_account_resp_from_reader sol_account_resp_ok
  by unfold_locales (rule sol_account_resp_decodes)

subsection \<open>\<^verbatim>\<open>SolanaPdaQueryRequest\<close>\<close>

record SolanaPdaEntry =
  programAddress :: bytes
  seeds :: "bytes list"

definition SolanaMaxSeeds :: nat where
  "SolanaMaxSeeds = 16"

definition SolanaMaxSeedLen :: nat where
  "SolanaMaxSeedLen = 32"

definition check_seed :: "bytes \<Rightarrow> bytes \<Rightarrow> unit outcome" where
  "check_seed program seed =
     (if length seed = 0 then Inl (mk_error (''Invalid pda, seed is null: '' @ to_hex program))
      else if length seed > SolanaMaxSeedLen then Inl (mk_error (''Invalid pda, seed is too long: '' @ to_hex program))
      else Inr ())"

definition check_pda :: "SolanaPdaEntry \<Rightarrow> unit outcome" where
  "check_pda pda =
     (if length (programAddress pda) \<noteq> 32
      then Inl (mk_error (''Invalid program address, must be 32 bytes: '' @ bytes_text (programAddress pda)))
      else if length (seeds pda) = 0 then Inl (mk_error (''Invalid pda, has no seeds: '' @ to_hex (programAddress pda)))
      else if length (seeds pda) > SolanaMaxSeeds
      then Inl (mk_error (''Invalid pda, has too many seeds: '' @ to_hex (programAddress pda)))
      else e_bind (e_map (check_seed (programAddress pda)) (seeds pda)) (\<lambda>_. Inr ()))"

record SolanaPdaQueryRequest =
  spScope :: SolanaScope
  spPdas :: "SolanaPdaEntry list"

definition sol_pda_new :: "string \<Rightarrow> SolanaPdaEntry list \<Rightarrow> int option \<Rightarrow> int option \<Rightarrow> int option \<Rightarrow> SolanaPdaQueryRequest outcome" where
  "sol_pda_new c pdas slot off len =
     e_bind (e_map check_pda pdas) (\<lambda>_. Inr \<lparr>spScope = scope_new c slot off len, spPdas = pdas\<rparr>)"

definition write_pda :: "SolanaPdaEntry \<Rightarrow> BinaryWriter \<Rightarrow> BinaryWriter outcome" where
  "write_pda pda w =
     e_bind (writeUint8Array (programAddress pda) w) (\<lambda>w.
     e_bind (writeUint8 (int (length (seeds pda))) w) (e_fold write_sized (seeds pda)))"

definition sol_pda_serialize :: "SolanaPdaQueryRequest \<Rightarrow> bytes outcome" where
  "sol_pda_serialize q =
     with_writer (\<lambda>w.
       e_bind (write_scope (spScope q) w) (\<lambda>w.
       e_bind (writeUint8 (int (length (spPdas q))) w) (e_fold write_pda (spPdas q))))"

definition read_pda :: "(BinaryReader, SolanaPdaEntry) stateful" where
  "read_pda =
     s_bind (readUint8Array 32) (\<lambda>addr. s_bind (s_bind readUint8 (\<lambda>n. read_list read_sized (nat n))) (\<lambda>ss.
       s_return \<lparr>programAddress = addr, seeds = ss\<rparr>))"

definition sol_pda_from_reader :: "(BinaryReader, SolanaPdaQueryRequest) stateful" where
  "sol_pda_from_reader =
     s_bind read_scope (\<lambda>sc. s_bind (s_bind readUint8 (\<lambda>n. read_list read_pda (nat n))) (\<lambda>pdas.
       s_lift (sol_pda_new (commitment sc) pdas
         (Some (minContextSlot sc)) (Some (dataSliceOffset sc)) (Some (dataSliceLength sc)))))"

definition enc_pda :: "SolanaPdaEntry \<Rightarrow> bytes" where
  "enc_pda pda = programAddress pda @ enc_counted enc_sized (seeds pda)"

definition seed_ok :: "bytes \<Rightarrow> bool" where
  "seed_ok s \<longleftrightarrow> s \<noteq> [] \<and> length s \<le> SolanaMaxSeedLen"

definition pda_ok :: "SolanaPdaEntry \<Rightarrow> bool" where
  "pda_ok pda \<longleftrightarrow> key_ok (programAddress pda) \<and> seeds pda \<noteq> [] \<and> length (seeds pda) \<le> SolanaMaxSeeds \<and> list_all seed_ok (seeds pda)"

definition enc_sol_pda :: "SolanaPdaQueryRequest \<Rightarrow> bytes" where
  "enc_sol_pda q = enc_scope (spScope q) @ enc_counted enc_pda (spPdas q)"

definition sol_pda_ok :: "SolanaPdaQueryRequest \<Rightarrow> bool" where
  "sol_pda_ok q \<longleftrightarrow> scope_ok (spScope q) \<and> counted_ok pda_ok (spPdas q)"

lemma seeds_counted: "pda_ok pda \<Longrightarrow> counted_ok sized_ok (seeds pda)"
  by (auto simp: pda_ok_def counted_ok_def list_all_iff seed_ok_def sized_ok_def SolanaMaxSeeds_def SolanaMaxSeedLen_def)

lemma emits_pda: "pda_ok pda \<Longrightarrow> sink.emits (write_pda pda) (enc_pda pda)"
  unfolding write_pda_def[abs_def] enc_pda_def
  by (intro sink.emits_then sink.emits_basic(5) emits_counted[where ok = sized_ok] seeds_counted emits_sized_bytes)

lemma decodes_pda: "pda_ok pda \<Longrightarrow> decodes read_pda (enc_pda pda) pda"
  unfolding read_pda_def enc_pda_def
  using seeds_counted[of pda]
  by (intro decodes_bind[OF decodes_key[of "programAddress pda"]] decodes_last[OF decodes_counted[where ok = sized_ok and xs = "seeds pda"]])
    (simp add: pda_ok_def, simp, simp add: decodes_sized, cases pda, simp add: decodes_return)

interpretation pda_codec: codec enc_pda read_pda pda_ok
  by unfold_locales (rule decodes_pda)

text \<open>The constructor accepts exactly the well-formed entries.\<close>

lemma check_pda_iff: "check_pda pda = Inr () \<longleftrightarrow> pda_ok pda"
proof -
  have "check_seed p s = Inr () \<longleftrightarrow> seed_ok s" for p s by (auto simp: check_seed_def seed_ok_def)
  moreover have "(e_bind (e_map f xs) (\<lambda>_. Inr ()) = Inr ()) \<longleftrightarrow> (\<forall>x \<in> set xs. f x = Inr ())" for f :: "bytes \<Rightarrow> unit outcome" and xs
    by (induction xs) (auto simp: e_bind_def split: sum.splits)
  ultimately show ?thesis by (auto simp: check_pda_def pda_ok_def key_ok_def list_all_iff)
qed

lemma sol_pda_serialize_ok: "sol_pda_ok q \<Longrightarrow> sol_pda_serialize q = Inr (enc_sol_pda q)"
  unfolding sol_pda_serialize_def enc_sol_pda_def sol_pda_ok_def
  by (intro with_writer_emits sink.emits_then emits_scope emits_counted[where ok = pda_ok] emits_pda) auto

lemma sol_pda_new_ok: "sol_pda_ok q \<Longrightarrow>
    sol_pda_new (commitment (spScope q)) (spPdas q) (Some (minContextSlot (spScope q)))
      (Some (dataSliceOffset (spScope q))) (Some (dataSliceLength (spScope q))) = Inr q"
  using e_map_units[of "spPdas q" check_pda]
  by (simp add: sol_pda_new_def sol_pda_ok_def counted_ok_def list_all_iff check_pda_iff scope_rebuild)

lemma sol_pda_decodes: "sol_pda_ok q \<Longrightarrow> decodes sol_pda_from_reader (enc_sol_pda q) q"
  using sol_pda_new_ok[of q] decodes_lift[of q]
  unfolding sol_pda_from_reader_def enc_sol_pda_def sol_pda_ok_def
  by (intro decodes_bind[OF decodes_scope[of "spScope q"]] decodes_last[OF decodes_counted[where ok = pda_ok and xs = "spPdas q"]])
    (simp_all add: decodes_pda)

interpretation sol_pda_codec: codec enc_sol_pda sol_pda_from_reader sol_pda_ok
  by unfold_locales (rule sol_pda_decodes)

lemma e_map_checked: "(\<exists>us. e_map f xs = Inr us) \<longleftrightarrow> (\<forall>x \<in> set xs. f x = Inr ())" for f :: "'a \<Rightarrow> unit outcome"
  by (induction xs) (auto simp: e_bind_Inr_iff)

text \<open>
  The constructor of \<^verbatim>\<open>SolanaPdaQueryRequest\<close> accepts a list of entries exactly when every entry has a program address of 32 bytes and
  between 1 and 16 seeds of 1 to 32 bytes each; it throws otherwise.
\<close>

theorem sol_pda_new_accepts:
  "(\<exists>q. sol_pda_new c pdas slot off len = Inr q \<and> spPdas q = pdas) \<longleftrightarrow>
     list_all (\<lambda>p. length (programAddress p) = 32 \<and> length (seeds p) \<in> {1..16} \<and> list_all (\<lambda>s. length s \<in> {1..32}) (seeds p)) pdas"
proof -
  have "(\<exists>q. sol_pda_new c pdas slot off len = Inr q \<and> spPdas q = pdas) \<longleftrightarrow> list_all pda_ok pdas"
    using e_map_checked[of check_pda pdas] by (auto simp: sol_pda_new_def check_pda_iff e_bind_Inr_iff list_all_iff)
  moreover have "pda_ok p \<longleftrightarrow> length (programAddress p) = 32 \<and> length (seeds p) \<in> {1..16} \<and> list_all (\<lambda>s. length s \<in> {1..32}) (seeds p)" for p
    by (auto simp: pda_ok_def key_ok_def seed_ok_def list_all_iff SolanaMaxSeeds_def SolanaMaxSeedLen_def Suc_le_eq)
  ultimately show ?thesis by (simp add: list_all_iff)
qed

subsection \<open>\<^verbatim>\<open>SolanaPdaQueryResponse\<close>\<close>

record SolanaPdaResult =
  pdaAccount :: bytes
  bump :: int
  pdaState :: SolanaAccountResult

record SolanaPdaQueryResponse =
  sprSlotNumber :: int
  sprBlockTime :: int
  sprBlockHash :: bytes
  sprResults :: "SolanaPdaResult list"

definition check_pda_result :: "SolanaPdaResult \<Rightarrow> unit outcome" where
  "check_pda_result r =
     (if length (pdaAccount r) \<noteq> 32 then Inl (mk_error (''Invalid account, should be 32 bytes long: '' @ bytes_text (pdaAccount r)))
      else check_owner (pdaState r))"

definition sol_pda_resp_new :: "int \<Rightarrow> int \<Rightarrow> bytes \<Rightarrow> SolanaPdaResult list \<Rightarrow> SolanaPdaQueryResponse outcome" where
  "sol_pda_resp_new slot t h rs =
     e_bind (check_block_hash h) (\<lambda>_. e_bind (e_map check_pda_result rs) (\<lambda>_.
       Inr \<lparr>sprSlotNumber = slot, sprBlockTime = t, sprBlockHash = h, sprResults = rs\<rparr>))"

definition write_pda_result :: "SolanaPdaResult \<Rightarrow> BinaryWriter \<Rightarrow> BinaryWriter outcome" where
  "write_pda_result r w =
     e_bind (writeUint8Array (pdaAccount r) w) (\<lambda>w. e_bind (writeUint8 (bump r) w) (write_sol_account (pdaState r)))"

definition sol_pda_resp_serialize :: "SolanaPdaQueryResponse \<Rightarrow> bytes outcome" where
  "sol_pda_resp_serialize q =
     with_writer (\<lambda>w.
       e_bind (writeUint64 (sprSlotNumber q) w) (\<lambda>w.
       e_bind (writeUint64 (sprBlockTime q) w) (\<lambda>w.
       e_bind (writeUint8Array (sprBlockHash q) w) (\<lambda>w.
       e_bind (writeUint8 (int (length (sprResults q))) w) (e_fold write_pda_result (sprResults q))))))"

definition read_pda_result :: "(BinaryReader, SolanaPdaResult) stateful" where
  "read_pda_result =
     s_bind (readUint8Array 32) (\<lambda>a. s_bind readUint8 (\<lambda>b. s_bind read_sol_account (\<lambda>st.
       s_return \<lparr>pdaAccount = a, bump = b, pdaState = st\<rparr>)))"

definition sol_pda_resp_from_reader :: "(BinaryReader, SolanaPdaQueryResponse) stateful" where
  "sol_pda_resp_from_reader =
     s_bind readUint64 (\<lambda>slot. s_bind readUint64 (\<lambda>t. s_bind (readUint8Array 32) (\<lambda>h.
     s_bind (s_bind readUint8 (\<lambda>n. read_list read_pda_result (nat n))) (\<lambda>rs. s_lift (sol_pda_resp_new slot t h rs)))))"

definition enc_pda_result :: "SolanaPdaResult \<Rightarrow> bytes" where
  "enc_pda_result r = pdaAccount r @ be_encode 1 (nat (bump r)) @ enc_sol_result (pdaState r)"

definition pda_result_ok :: "SolanaPdaResult \<Rightarrow> bool" where
  "pda_result_ok r \<longleftrightarrow> key_ok (pdaAccount r) \<and> u8_ok (bump r) \<and> sol_result_ok (pdaState r)"

definition enc_sol_pda_resp :: "SolanaPdaQueryResponse \<Rightarrow> bytes" where
  "enc_sol_pda_resp q =
     enc_u64 (sprSlotNumber q) @ enc_u64 (sprBlockTime q) @ sprBlockHash q @ enc_counted enc_pda_result (sprResults q)"

definition sol_pda_resp_ok :: "SolanaPdaQueryResponse \<Rightarrow> bool" where
  "sol_pda_resp_ok q \<longleftrightarrow> u64_ok (sprSlotNumber q) \<and> u64_ok (sprBlockTime q) \<and> key_ok (sprBlockHash q)
     \<and> counted_ok pda_result_ok (sprResults q)"

lemma emits_pda_result: "pda_result_ok r \<Longrightarrow> sink.emits (write_pda_result r) (enc_pda_result r)"
  unfolding write_pda_result_def[abs_def] enc_pda_result_def pda_result_ok_def
  by (intro sink.emits_then sink.emits_basic(5) emits_u8 emits_sol_account) auto

lemma decodes_pda_result: "pda_result_ok r \<Longrightarrow> decodes read_pda_result (enc_pda_result r) r"
  unfolding read_pda_result_def enc_pda_result_def pda_result_ok_def
  by (rule decodes_bind, rule decodes_key, simp, rule decodes_bind, rule decodes_u8, simp, rule decodes_last,
      rule decodes_sol_account, simp) (cases r, simp add: decodes_return)

lemma sol_pda_resp_serialize_ok: "sol_pda_resp_ok q \<Longrightarrow> sol_pda_resp_serialize q = Inr (enc_sol_pda_resp q)"
  unfolding sol_pda_resp_serialize_def enc_sol_pda_resp_def sol_pda_resp_ok_def
  by (intro with_writer_emits sink.emits_then emits_u64 sink.emits_basic(5) emits_counted[where ok = pda_result_ok])
     (auto simp: emits_pda_result)

lemma sol_pda_resp_new_ok: "sol_pda_resp_ok q \<Longrightarrow>
    sol_pda_resp_new (sprSlotNumber q) (sprBlockTime q) (sprBlockHash q) (sprResults q) = Inr q"
proof -
  assume ok: "sol_pda_resp_ok q"
  then have "e_map check_pda_result (sprResults q) = Inr (replicate (length (sprResults q)) ())"
    by (intro e_map_units)
      (auto simp: sol_pda_resp_ok_def counted_ok_def list_all_iff pda_result_ok_def sol_result_ok_def key_ok_def check_pda_result_def check_owner_def)
  with ok show ?thesis by (simp add: sol_pda_resp_new_def check_block_hash_def sol_pda_resp_ok_def key_ok_def)
qed

lemma sol_pda_resp_decodes: "sol_pda_resp_ok q \<Longrightarrow> decodes sol_pda_resp_from_reader (enc_sol_pda_resp q) q"
  using sol_pda_resp_new_ok[of q] decodes_lift[of q]
  unfolding sol_pda_resp_from_reader_def enc_sol_pda_resp_def sol_pda_resp_ok_def
  by (intro decodes_bind[OF decodes_u64[of "sprSlotNumber q"]] decodes_bind[OF decodes_u64[of "sprBlockTime q"]]
      decodes_bind[OF decodes_key[of "sprBlockHash q"]] decodes_last[OF decodes_counted[where ok = pda_result_ok and xs = "sprResults q"]])
    (simp_all add: decodes_pda_result)

interpretation sol_pda_resp_codec: codec enc_sol_pda_resp sol_pda_resp_from_reader sol_pda_resp_ok
  by unfold_locales (rule sol_pda_resp_decodes)

end
