(* ===== verification/Query_Envelope.thy ===== *)
theory Query_Envelope
  imports Query_Solana
begin

section \<open>Query requests and responses: \<^verbatim>\<open>request.ts\<close>, \<^verbatim>\<open>response.ts\<close>, \<^verbatim>\<open>utils.ts\<close>\<close>

text \<open>
  The messages that carry the chain-specific queries, their digests and the signature helpers.  \<^verbatim>\<open>keccak256\<close> and the
  elliptic-curve signature are parameters.  The classes that implement \<^verbatim>\<open>ChainSpecificQuery\<close> and \<^verbatim>\<open>ChainSpecificResponse\<close>
  are the constructors of two datatypes.
\<close>

subsection \<open>Requests\<close>

datatype ChainSpecificQuery =
    EthCallQuery EthCallQueryRequest
  | EthCallByTimestampQuery EthCallByTimestampQueryRequest
  | EthCallWithFinalityQuery EthCallWithFinalityQueryRequest
  | SolanaAccountQuery SolanaAccountQueryRequest
  | SolanaPdaQuery SolanaPdaQueryRequest

fun query_type :: "ChainSpecificQuery \<Rightarrow> int" where
  "query_type (EthCallQuery q) = 1"
| "query_type (EthCallByTimestampQuery q) = 2"
| "query_type (EthCallWithFinalityQuery q) = 3"
| "query_type (SolanaAccountQuery q) = 4"
| "query_type (SolanaPdaQuery q) = 5"

fun query_serialize :: "ChainSpecificQuery \<Rightarrow> bytes outcome" where
  "query_serialize (EthCallQuery q) = eth_call_serialize q"
| "query_serialize (EthCallByTimestampQuery q) = eth_ts_serialize q"
| "query_serialize (EthCallWithFinalityQuery q) = eth_fin_serialize q"
| "query_serialize (SolanaAccountQuery q) = sol_account_serialize q"
| "query_serialize (SolanaPdaQuery q) = sol_pda_serialize q"

record PerChainQueryRequest =
  pcChainId :: int
  pcQuery :: ChainSpecificQuery

definition per_chain_serialize :: "PerChainQueryRequest \<Rightarrow> bytes outcome" where
  "per_chain_serialize p =
     with_writer (\<lambda>w.
       e_bind (writeUint16 (pcChainId p) w) (\<lambda>w.
       e_bind (writeUint8 (query_type (pcQuery p)) w) (\<lambda>w.
       e_bind (query_serialize (pcQuery p)) (\<lambda>queryData. write_sized queryData w))))"

definition query_from_reader :: "(string \<Rightarrow> bytes outcome) \<Rightarrow> int \<Rightarrow> (BinaryReader, ChainSpecificQuery) stateful" where
  "query_from_reader base58 queryType =
     (if queryType = 1 then s_bind eth_call_from_reader (\<lambda>q. s_return (EthCallQuery q))
      else if queryType = 2 then s_bind eth_ts_from_reader (\<lambda>q. s_return (EthCallByTimestampQuery q))
      else if queryType = 3 then s_bind eth_fin_from_reader (\<lambda>q. s_return (EthCallWithFinalityQuery q))
      else if queryType = 4 then s_bind (sol_account_from_reader base58) (\<lambda>q. s_return (SolanaAccountQuery q))
      else if queryType = 5 then s_bind sol_pda_from_reader (\<lambda>q. s_return (SolanaPdaQuery q))
      else s_throw (mk_error (''Unsupported query type: '' @ show_int queryType)))"

definition per_chain_from_reader :: "(string \<Rightarrow> bytes outcome) \<Rightarrow> (BinaryReader, PerChainQueryRequest) stateful" where
  "per_chain_from_reader base58 =
     s_bind readUint16 (\<lambda>chainId. s_bind readUint8 (\<lambda>queryType. s_bind readUint32 (\<lambda>_.
     s_bind (query_from_reader base58 queryType) (\<lambda>query. s_return \<lparr>pcChainId = chainId, pcQuery = query\<rparr>))))"

definition REQUEST_VERSION :: int where
  "REQUEST_VERSION = 1"

record QueryRequest =
  nonce :: int
  requests :: "PerChainQueryRequest list"
  version :: int

definition write_serialized :: "('a \<Rightarrow> bytes outcome) \<Rightarrow> 'a \<Rightarrow> BinaryWriter \<Rightarrow> BinaryWriter outcome" where
  "write_serialized ser x w = e_bind (ser x) (\<lambda>bs. writeUint8Array bs w)"

definition request_serialize :: "QueryRequest \<Rightarrow> bytes outcome" where
  "request_serialize q =
     with_writer (\<lambda>w.
       e_bind (writeUint8 (version q) w) (\<lambda>w.
       e_bind (writeUint32 (nonce q) w) (\<lambda>w.
       e_bind (writeUint8 (int (length (requests q))) w) (e_fold (write_serialized per_chain_serialize) (requests q)))))"

definition request_from_reader :: "(string \<Rightarrow> bytes outcome) \<Rightarrow> (BinaryReader, QueryRequest) stateful" where
  "request_from_reader base58 =
     s_bind readUint8 (\<lambda>v.
       if v \<noteq> REQUEST_VERSION then s_throw (mk_error (''Unsupported message version: '' @ show_int v))
       else s_bind readUint32 (\<lambda>n. s_bind (s_bind readUint8 (\<lambda>k. read_list (per_chain_from_reader base58) (nat k))) (\<lambda>rs.
         s_return \<lparr>nonce = n, requests = rs, version = REQUEST_VERSION\<rparr>)))"

text \<open>\<^verbatim>\<open>from(bytes)\<close>, the same for every class: the argument may be a hexadecimal string.\<close>

definition from_bytes :: "(BinaryReader, 'a) stateful \<Rightarrow> hex_or_bytes \<Rightarrow> 'a outcome" where
  "from_bytes d input = e_bind (coalesceUint8Array input) (\<lambda>bs. fst (d (reader_new bs)))"

definition request_from :: "(string \<Rightarrow> bytes outcome) \<Rightarrow> hex_or_bytes \<Rightarrow> QueryRequest outcome" where
  "request_from base58 = from_bytes (request_from_reader base58)"

datatype Network = MAINNET | TESTNET | DEVNET

definition getPrefix :: "Network \<Rightarrow> string" where
  "getPrefix network =
     (if network = MAINNET then ''mainnet_query_request_000000000000|''
      else if network = TESTNET then ''testnet_query_request_000000000000|''
      else ''devnet_query_request_0000000000000|'')"

definition request_digest :: "(bytes \<Rightarrow> string) \<Rightarrow> Network \<Rightarrow> bytes \<Rightarrow> bytes outcome" where
  "request_digest keccak256 network bs = hexToUint8Array (drop 2 (keccak256 (utf8_encode (getPrefix network) @ bs)))"

subsection \<open>Responses\<close>

datatype ChainSpecificResponse =
    EthCallResponse EthCallQueryResponse
  | EthCallByTimestampResponse EthCallByTimestampQueryResponse
  | EthCallWithFinalityResponse EthCallWithFinalityQueryResponse
  | SolanaAccountResponse SolanaAccountQueryResponse
  | SolanaPdaResponse SolanaPdaQueryResponse

fun response_type :: "ChainSpecificResponse \<Rightarrow> int" where
  "response_type (EthCallResponse q) = 1"
| "response_type (EthCallByTimestampResponse q) = 2"
| "response_type (EthCallWithFinalityResponse q) = 3"
| "response_type (SolanaAccountResponse q) = 4"
| "response_type (SolanaPdaResponse q) = 5"

fun chain_response_serialize :: "ChainSpecificResponse \<Rightarrow> bytes outcome" where
  "chain_response_serialize (EthCallResponse q) = eth_resp_serialize q"
| "chain_response_serialize (EthCallByTimestampResponse q) = eth_ts_resp_serialize q"
| "chain_response_serialize (EthCallWithFinalityResponse q) = eth_resp_serialize q"
| "chain_response_serialize (SolanaAccountResponse q) = sol_account_resp_serialize q"
| "chain_response_serialize (SolanaPdaResponse q) = sol_pda_resp_serialize q"

record PerChainQueryResponse =
  prChainId :: int
  prResponse :: ChainSpecificResponse

definition per_chain_resp_serialize :: "PerChainQueryResponse \<Rightarrow> bytes outcome" where
  "per_chain_resp_serialize p =
     with_writer (\<lambda>w.
       e_bind (writeUint16 (prChainId p) w) (\<lambda>w.
       e_bind (writeUint8 (response_type (prResponse p)) w) (\<lambda>w.
       e_bind (chain_response_serialize (prResponse p)) (\<lambda>queryResponse. write_sized queryResponse w))))"

definition chain_response_from_reader :: "int \<Rightarrow> (BinaryReader, ChainSpecificResponse) stateful" where
  "chain_response_from_reader queryType =
     (if queryType = 1 then s_bind eth_resp_from_reader (\<lambda>q. s_return (EthCallResponse q))
      else if queryType = 2 then s_bind eth_ts_resp_from_reader (\<lambda>q. s_return (EthCallByTimestampResponse q))
      else if queryType = 3 then s_bind eth_fin_resp_from_reader (\<lambda>q. s_return (EthCallWithFinalityResponse q))
      else if queryType = 4 then s_bind sol_account_resp_from_reader (\<lambda>q. s_return (SolanaAccountResponse q))
      else if queryType = 5 then s_bind sol_pda_resp_from_reader (\<lambda>q. s_return (SolanaPdaResponse q))
      else s_throw (mk_error (''Unsupported response type: '' @ show_int queryType)))"

definition per_chain_resp_from_reader :: "(BinaryReader, PerChainQueryResponse) stateful" where
  "per_chain_resp_from_reader =
     s_bind readUint16 (\<lambda>chainId. s_bind readUint8 (\<lambda>queryType. s_bind readUint32 (\<lambda>_.
     s_bind (chain_response_from_reader queryType) (\<lambda>r. s_return \<lparr>prChainId = chainId, prResponse = r\<rparr>))))"

definition RESPONSE_VERSION :: int where
  "RESPONSE_VERSION = 1"

definition QUERY_RESPONSE_PREFIX :: string where
  "QUERY_RESPONSE_PREFIX = ''query_response_0000000000000000000|''"

record QueryResponse =
  requestChainId :: int
  requestId :: string
  request :: QueryRequest
  responses :: "PerChainQueryResponse list"
  respVersion :: int

definition response_serialize :: "QueryResponse \<Rightarrow> bytes outcome" where
  "response_serialize q =
     e_bind (request_serialize (request q)) (\<lambda>serializedRequest.
     with_writer (\<lambda>w.
       e_bind (writeUint8 (respVersion q) w) (\<lambda>w.
       e_bind (writeUint16 (requestChainId q) w) (\<lambda>w.
       e_bind (write_hex (requestId q) w) (\<lambda>w.
       e_bind (write_sized serializedRequest w) (\<lambda>w.
       e_bind (writeUint8 (int (length (responses q))) w) (e_fold (write_serialized per_chain_resp_serialize) (responses q))))))))"

definition response_from_reader :: "(string \<Rightarrow> bytes outcome) \<Rightarrow> (BinaryReader, QueryResponse) stateful" where
  "response_from_reader base58 =
     s_bind readUint8 (\<lambda>v.
       if v \<noteq> RESPONSE_VERSION then s_throw (mk_error (''Unsupported message version: '' @ show_int v))
       else s_bind readUint16 (\<lambda>chain.
         if chain \<noteq> 0 then s_throw (mk_error (''Unsupported request chain: '' @ show_int chain))
         else s_bind (readHex 65) (\<lambda>rid. s_bind readUint32 (\<lambda>_. s_bind (request_from_reader base58) (\<lambda>req.
           s_bind (s_bind readUint8 (\<lambda>k. read_list per_chain_resp_from_reader (nat k))) (\<lambda>rs.
             s_return \<lparr>requestChainId = chain, requestId = rid, request = req, responses = rs, respVersion = RESPONSE_VERSION\<rparr>))))))"

definition response_from :: "(string \<Rightarrow> bytes outcome) \<Rightarrow> hex_or_bytes \<Rightarrow> QueryResponse outcome" where
  "response_from base58 = from_bytes (response_from_reader base58)"

definition response_digest :: "(bytes \<Rightarrow> string) \<Rightarrow> bytes \<Rightarrow> bytes outcome" where
  "response_digest keccak256 bs =
     e_bind (hexToUint8Array (keccak256 bs)) (\<lambda>h. hexToUint8Array (keccak256 (utf8_encode QUERY_RESPONSE_PREFIX @ h)))"

subsection \<open>Signatures\<close>

record EvmSignature =
  sigR :: string
  sigS :: string
  sigV :: string
  sigGuardianIndex :: string

text \<open>\<^verbatim>\<open>parseInt(s, 16)\<close>\<close>

definition parse_hex_int :: "string \<Rightarrow> jsnum" where
  "parse_hex_int s =
     (let t = dropWhile is_ws s;
          neg = starts_with ''-'' t;
          body = (if neg \<or> starts_with ''+'' t then drop 1 t else t);
          ds = (if starts_with ''0x'' body \<or> starts_with ''0X'' body then drop 2 body else body)
      in case ds of
           [] \<Rightarrow> NaN
         | c # _ \<Rightarrow> if digit_val 16 c = None then NaN
                     else Num (dbl (if neg then - int (digits_prefix 16 0 ds) else int (digits_prefix 16 0 ds))))"

fun show_hex_num :: "jsnum \<Rightarrow> string" where
  "show_hex_num NaN = ''NaN''"
| "show_hex_num (Num i) = (if i < 0 then ''-'' @ show_radix 16 (nat (- i)) else show_radix 16 (nat i))"

fun plus_27 :: "jsnum \<Rightarrow> jsnum" where
  "plus_27 NaN = NaN"
| "plus_27 (Num i) = Num (dbl (i + 27))"

definition substring :: "string \<Rightarrow> nat \<Rightarrow> nat \<Rightarrow> string" where
  "substring s from to = take (to - from) (drop from s)"

definition signaturesToEvmStruct :: "string list \<Rightarrow> EvmSignature list" where
  "signaturesToEvmStruct signatures =
     map (\<lambda>s. \<lparr>sigR = ''0x'' @ substring s 0 64,
                sigS = ''0x'' @ substring s 64 128,
                sigV = ''0x'' @ show_hex_num (plus_27 (parse_hex_int (substring s 128 130))),
                sigGuardianIndex = ''0x'' @ substring s 130 132\<rparr>) signatures"

text \<open>
  \<^verbatim>\<open>keyPair.sign(data, { canonical: true })\<close> of the package \<^verbatim>\<open>elliptic\<close> is \<open>ec_sign\<close>: the two numbers in hexadecimal, as
  \<^verbatim>\<open>toString("hex")\<close> prints them, and the recovery parameter if there is one.
\<close>

definition sign :: "(string \<Rightarrow> bytes \<Rightarrow> string \<times> string \<times> int option) \<Rightarrow> string \<Rightarrow> bytes \<Rightarrow> string" where
  "sign ec_sign key data =
     (case ec_sign key data of (r, s, rec) \<Rightarrow>
        pad_start 64 CHR ''0'' r @ pad_start 64 CHR ''0'' s @ to_hex [word_of_int (case rec of Some p \<Rightarrow> p | None \<Rightarrow> 0)])"

subsection \<open>The formats of the messages\<close>

fun enc_query :: "ChainSpecificQuery \<Rightarrow> bytes" where
  "enc_query (EthCallQuery q) = enc_eth_call q"
| "enc_query (EthCallByTimestampQuery q) = enc_eth_ts q"
| "enc_query (EthCallWithFinalityQuery q) = enc_eth_fin q"
| "enc_query (SolanaAccountQuery q) = enc_sol_account q"
| "enc_query (SolanaPdaQuery q) = enc_sol_pda q"

fun query_ok :: "ChainSpecificQuery \<Rightarrow> bool" where
  "query_ok (EthCallQuery q) = eth_call_ok q"
| "query_ok (EthCallByTimestampQuery q) = eth_ts_ok q"
| "query_ok (EthCallWithFinalityQuery q) = eth_fin_ok q"
| "query_ok (SolanaAccountQuery q) = sol_account_ok q"
| "query_ok (SolanaPdaQuery q) = sol_pda_ok q"

fun enc_response :: "ChainSpecificResponse \<Rightarrow> bytes" where
  "enc_response (EthCallResponse q) = enc_eth_resp q"
| "enc_response (EthCallByTimestampResponse q) = enc_eth_ts_resp q"
| "enc_response (EthCallWithFinalityResponse q) = enc_eth_resp q"
| "enc_response (SolanaAccountResponse q) = enc_sol_account_resp q"
| "enc_response (SolanaPdaResponse q) = enc_sol_pda_resp q"

fun response_ok :: "ChainSpecificResponse \<Rightarrow> bool" where
  "response_ok (EthCallResponse q) = eth_resp_ok q"
| "response_ok (EthCallByTimestampResponse q) = eth_ts_resp_ok q"
| "response_ok (EthCallWithFinalityResponse q) = eth_resp_ok q"
| "response_ok (SolanaAccountResponse q) = sol_account_resp_ok q"
| "response_ok (SolanaPdaResponse q) = sol_pda_resp_ok q"

definition u16_ok :: "int \<Rightarrow> bool" where
  "u16_ok v \<longleftrightarrow> 0 \<le> v \<and> v < 2 ^ 16"

definition u32_ok :: "int \<Rightarrow> bool" where
  "u32_ok v \<longleftrightarrow> 0 \<le> v \<and> v < 2 ^ 32"

text \<open>A chain, a type tag and a payload with its size, as both kinds of message have them.\<close>

definition enc_tagged :: "int \<Rightarrow> int \<Rightarrow> bytes \<Rightarrow> bytes" where
  "enc_tagged chain t payload = be_encode 2 (nat chain) @ be_encode 1 (nat t) @ enc_sized payload"

definition enc_per_chain :: "PerChainQueryRequest \<Rightarrow> bytes" where
  "enc_per_chain p = enc_tagged (pcChainId p) (query_type (pcQuery p)) (enc_query (pcQuery p))"

definition per_chain_ok :: "PerChainQueryRequest \<Rightarrow> bool" where
  "per_chain_ok p \<longleftrightarrow> u16_ok (pcChainId p) \<and> query_ok (pcQuery p) \<and> sized_ok (enc_query (pcQuery p))"

definition enc_request :: "QueryRequest \<Rightarrow> bytes" where
  "enc_request q = be_encode 1 (nat (version q)) @ be_encode 4 (nat (nonce q)) @ enc_counted enc_per_chain (requests q)"

definition request_ok :: "QueryRequest \<Rightarrow> bool" where
  "request_ok q \<longleftrightarrow> version q = REQUEST_VERSION \<and> u32_ok (nonce q) \<and> counted_ok per_chain_ok (requests q)"

definition enc_per_chain_resp :: "PerChainQueryResponse \<Rightarrow> bytes" where
  "enc_per_chain_resp p = enc_tagged (prChainId p) (response_type (prResponse p)) (enc_response (prResponse p))"

definition per_chain_resp_ok :: "PerChainQueryResponse \<Rightarrow> bool" where
  "per_chain_resp_ok p \<longleftrightarrow> u16_ok (prChainId p) \<and> response_ok (prResponse p) \<and> sized_ok (enc_response (prResponse p))"

definition enc_full_response :: "QueryResponse \<Rightarrow> bytes" where
  "enc_full_response q =
     be_encode 1 (nat (respVersion q)) @ be_encode 2 (nat (requestChainId q)) @ hexbytes (requestId q)
       @ enc_sized (enc_request (request q)) @ enc_counted enc_per_chain_resp (responses q)"

definition request_id_ok :: "string \<Rightarrow> bool" where
  "request_id_ok s \<longleftrightarrow> hex_canon s \<and> length (hexbytes s) = 65"

definition full_response_ok :: "QueryResponse \<Rightarrow> bool" where
  "full_response_ok q \<longleftrightarrow> respVersion q = RESPONSE_VERSION \<and> requestChainId q = 0 \<and> request_id_ok (requestId q)
     \<and> request_ok (request q) \<and> sized_ok (enc_request (request q)) \<and> counted_ok per_chain_resp_ok (responses q)"

subsection \<open>Serialisation produces the formats\<close>

lemma query_serialize_ok: "query_ok q \<Longrightarrow> query_serialize q = Inr (enc_query q)"
  by (cases q) (simp_all add: eth_call_serialize_ok eth_ts_serialize_ok eth_fin_serialize_ok sol_account_serialize_ok sol_pda_serialize_ok)

lemma chain_response_serialize_ok: "response_ok q \<Longrightarrow> chain_response_serialize q = Inr (enc_response q)"
  by (cases q) (simp_all add: eth_resp_serialize_ok eth_ts_resp_serialize_ok sol_account_resp_serialize_ok sol_pda_resp_serialize_ok)

lemma type_u8: "u8_ok (query_type q)" "u8_ok (response_type r)"
  by (cases q; simp add: u8_ok_def) (cases r; simp add: u8_ok_def)

lemma emits_tagged:
  assumes "u16_ok chain" and "u8_ok t" and "sized_ok payload"
  shows "sink.emits (\<lambda>w. e_bind (writeUint16 chain w) (\<lambda>w. e_bind (writeUint8 t w) (write_sized payload))) (enc_tagged chain t payload)"
  unfolding enc_tagged_def using assms
  by (intro sink.emits_then emits_u8 emits_sized_bytes sink.emits_basic(2)) (auto simp: u16_ok_def)

lemma per_chain_serialize_ok: "per_chain_ok p \<Longrightarrow> per_chain_serialize p = Inr (enc_per_chain p)"
  using with_writer_emits[OF emits_tagged[of "pcChainId p" "query_type (pcQuery p)" "enc_query (pcQuery p)"]]
  by (simp add: per_chain_serialize_def per_chain_ok_def query_serialize_ok enc_per_chain_def type_u8)

lemma per_chain_resp_serialize_ok: "per_chain_resp_ok p \<Longrightarrow> per_chain_resp_serialize p = Inr (enc_per_chain_resp p)"
  using with_writer_emits[OF emits_tagged[of "prChainId p" "response_type (prResponse p)" "enc_response (prResponse p)"]]
  by (simp add: per_chain_resp_serialize_def per_chain_resp_ok_def chain_response_serialize_ok enc_per_chain_resp_def type_u8)

lemma emits_serialized: "ser x = Inr bs \<Longrightarrow> sink.emits (write_serialized ser x) bs"
  using sink.emits_basic(5)[of bs] by (simp add: write_serialized_def[abs_def])

lemma request_serialize_ok: "request_ok q \<Longrightarrow> request_serialize q = Inr (enc_request q)"
  unfolding request_serialize_def enc_request_def request_ok_def
  by (intro with_writer_emits sink.emits_then emits_u8 sink.emits_basic(3) emits_counted[where ok = per_chain_ok] emits_serialized
      per_chain_serialize_ok) (auto simp: REQUEST_VERSION_def u32_ok_def u8_ok_def)

lemma response_serialize_ok: "full_response_ok q \<Longrightarrow> response_serialize q = Inr (enc_full_response q)"
proof -
  assume ok: "full_response_ok q"
  then have "request_serialize (request q) = Inr (enc_request (request q))"
    by (simp add: full_response_ok_def request_serialize_ok)
  moreover have "with_writer (\<lambda>w.
       e_bind (writeUint8 (respVersion q) w) (\<lambda>w.
       e_bind (writeUint16 (requestChainId q) w) (\<lambda>w.
       e_bind (write_hex (requestId q) w) (\<lambda>w.
       e_bind (write_sized (enc_request (request q)) w) (\<lambda>w.
       e_bind (writeUint8 (int (length (responses q))) w) (e_fold (write_serialized per_chain_resp_serialize) (responses q)))))))
       = Inr (enc_full_response q)"
    unfolding enc_full_response_def using ok
    by (intro with_writer_emits sink.emits_then emits_u8 sink.emits_basic(2) emits_hex emits_sized_bytes
        emits_counted[where ok = per_chain_resp_ok] emits_serialized per_chain_resp_serialize_ok)
      (auto simp: full_response_ok_def RESPONSE_VERSION_def u8_ok_def request_id_ok_def)
  ultimately show ?thesis by (simp add: response_serialize_def)
qed

subsection \<open>Reading the formats back\<close>

lemma query_decodes: "query_ok q \<Longrightarrow> decodes (query_from_reader base58 (query_type q)) (enc_query q) q"
  unfolding query_from_reader_def
  by (cases q)
    (simp_all, (rule decodes_last[OF eth_call_codec.dec_enc] decodes_last[OF eth_ts_codec.dec_enc] decodes_last[OF eth_fin_codec.dec_enc]
      decodes_last[OF sol_account_codec.dec_enc] decodes_last[OF sol_pda_codec.dec_enc], assumption, rule decodes_return)+)

lemma chain_response_decodes: "response_ok q \<Longrightarrow> decodes (chain_response_from_reader (response_type q)) (enc_response q) q"
  unfolding chain_response_from_reader_def
  by (cases q)
    (simp_all, (rule decodes_last[OF eth_resp_codec.dec_enc] decodes_last[OF eth_ts_resp_codec.dec_enc]
      decodes_last[OF eth_fin_resp_codec.dec_enc] decodes_last[OF sol_account_resp_codec.dec_enc]
      decodes_last[OF sol_pda_resp_codec.dec_enc], assumption, rule decodes_return)+)

lemma decodes_tagged:
  assumes "u16_ok chain" and "u8_ok t" and "sized_ok payload" and "decodes (d t) payload x"
  shows "decodes (s_bind readUint16 (\<lambda>c. s_bind readUint8 (\<lambda>t. s_bind readUint32 (\<lambda>_. s_bind (d t) (\<lambda>x. s_return (f c x))))))
    (enc_tagged chain t payload) (f chain x)"
proof -
  have 1: "decodes (s_bind (d t) (\<lambda>x. s_return (f chain x))) payload (f chain x)"
    by (rule decodes_last[OF assms(4) decodes_return])
  have 2: "decodes readUint32 (be_encode 4 (nat (int (length payload)))) (int (length payload))"
    using assms(3) by (intro decodes_basic(3)) (auto simp: sized_ok_def)
  have 3: "decodes readUint16 (be_encode 2 (nat chain)) chain"
    using assms(1) by (intro decodes_basic(2)) (auto simp: u16_ok_def)
  show ?thesis
    unfolding enc_tagged_def enc_sized_def
    using decodes_bind[where f = "\<lambda>c. s_bind readUint8 (\<lambda>t. s_bind readUint32 (\<lambda>_. s_bind (d t) (\<lambda>x. s_return (f c x))))", OF 3
        decodes_bind[where f = "\<lambda>t. s_bind readUint32 (\<lambda>_. s_bind (d t) (\<lambda>x. s_return (f chain x)))", OF decodes_u8[OF assms(2)]
          decodes_bind[where f = "\<lambda>_. s_bind (d t) (\<lambda>x. s_return (f chain x))", OF 2 1]]]
    by simp
qed

lemma per_chain_decodes: "per_chain_ok p \<Longrightarrow> decodes (per_chain_from_reader base58) (enc_per_chain p) p"
  using decodes_tagged[where d = "query_from_reader base58" and f = "\<lambda>c q. \<lparr>pcChainId = c, pcQuery = q\<rparr>",
      of "pcChainId p" "query_type (pcQuery p)" "enc_query (pcQuery p)" "pcQuery p"]
  by (cases p) (simp add: per_chain_from_reader_def enc_per_chain_def per_chain_ok_def query_decodes type_u8)

lemma per_chain_resp_decodes: "per_chain_resp_ok p \<Longrightarrow> decodes per_chain_resp_from_reader (enc_per_chain_resp p) p"
  using decodes_tagged[where d = chain_response_from_reader and f = "\<lambda>c q. \<lparr>prChainId = c, prResponse = q\<rparr>",
      of "prChainId p" "response_type (prResponse p)" "enc_response (prResponse p)" "prResponse p"]
  by (cases p) (simp add: per_chain_resp_from_reader_def enc_per_chain_resp_def per_chain_resp_ok_def chain_response_decodes type_u8)

lemma request_decodes: "request_ok q \<Longrightarrow> decodes (request_from_reader base58) (enc_request q) q"
proof -
  assume ok: "request_ok q"
  let ?k = "s_bind readUint32 (\<lambda>n. s_bind (s_bind readUint8 (\<lambda>k. read_list (per_chain_from_reader base58) (nat k))) (\<lambda>rs.
         s_return \<lparr>nonce = n, requests = rs, version = REQUEST_VERSION\<rparr>))"
  have "\<lparr>nonce = nonce q, requests = requests q, version = REQUEST_VERSION\<rparr> = q" using ok by (cases q) (simp add: request_ok_def)
  then have r: "decodes (s_return \<lparr>nonce = nonce q, requests = requests q, version = REQUEST_VERSION\<rparr>) [] q"
    by (simp only: decodes_return)
  have n: "decodes readUint32 (be_encode 4 (nat (nonce q))) (nonce q)"
    using ok by (intro decodes_basic(3)) (auto simp: request_ok_def u32_ok_def)
  have c: "counted_ok per_chain_ok (requests q)" using ok by (simp add: request_ok_def)
  have "decodes ?k (be_encode 4 (nat (nonce q)) @ enc_counted enc_per_chain (requests q)) q"
    by (rule decodes_bind[OF n], rule decodes_last, rule decodes_counted[OF c per_chain_decodes], assumption, rule r)
  then show ?thesis
    unfolding request_from_reader_def enc_request_def using ok
    by (intro decodes_bind[where a = "version q"] decodes_u8) (auto simp: request_ok_def REQUEST_VERSION_def u8_ok_def)
qed

interpretation request_codec: codec enc_request "request_from_reader base58" request_ok for base58
  by unfold_locales (rule request_decodes)

lemma response_decodes: "full_response_ok q \<Longrightarrow> decodes (response_from_reader base58) (enc_full_response q) q"
proof -
  assume ok: "full_response_ok q"
  let ?new = "\<lambda>chain rid req rs. \<lparr>requestChainId = chain, requestId = rid, request = req, responses = rs, respVersion = RESPONSE_VERSION\<rparr>"
  let ?tail = "\<lambda>chain rid req. s_bind (s_bind readUint8 (\<lambda>k. read_list per_chain_resp_from_reader (nat k))) (\<lambda>rs. s_return (?new chain rid req rs))"
  let ?k = "\<lambda>chain. s_bind (readHex 65) (\<lambda>rid. s_bind readUint32 (\<lambda>_. s_bind (request_from_reader base58) (\<lambda>req. ?tail chain rid req)))"
  let ?req = "enc_request (request q)"
  have "?new (requestChainId q) (requestId q) (request q) (responses q) = q" using ok by (cases q) (simp add: full_response_ok_def)
  then have r: "decodes (s_return (?new (requestChainId q) (requestId q) (request q) (responses q))) [] q" by (simp only: decodes_return)
  have c: "counted_ok per_chain_resp_ok (responses q)" using ok by (simp add: full_response_ok_def)
  have 1: "decodes (?tail (requestChainId q) (requestId q) (request q)) (enc_counted enc_per_chain_resp (responses q)) q"
    by (rule decodes_last, rule decodes_counted[OF c per_chain_resp_decodes], assumption, rule r)
  have i: "decodes (readHex 65) (hexbytes (requestId q)) (requestId q)"
    using ok decodes_hex[of 65 "hexbytes (requestId q)"] by (simp add: full_response_ok_def request_id_ok_def hex_canon_def)
  have l: "decodes readUint32 (be_encode 4 (nat (int (length ?req)))) (int (length ?req))"
    using ok by (intro decodes_basic(3)) (auto simp: full_response_ok_def sized_ok_def)
  have q: "decodes (request_from_reader base58) ?req (request q)"
    using ok by (intro request_decodes) (simp add: full_response_ok_def)
  have "decodes (?k (requestChainId q))
      (hexbytes (requestId q) @ be_encode 4 (nat (int (length ?req))) @ ?req @ enc_counted enc_per_chain_resp (responses q)) q"
    by (rule decodes_bind[OF i], rule decodes_bind[OF l], rule decodes_bind[OF q], rule 1)
  then have 2: "decodes (?k (requestChainId q)) (hexbytes (requestId q) @ enc_sized ?req @ enc_counted enc_per_chain_resp (responses q)) q"
    by (simp add: enc_sized_def)
  have v: "decodes readUint8 (be_encode 1 (nat (respVersion q))) (respVersion q)"
    using ok by (intro decodes_u8) (simp add: full_response_ok_def u8_ok_def RESPONSE_VERSION_def)
  have w: "decodes readUint16 (be_encode 2 (nat (requestChainId q))) (requestChainId q)"
    using ok by (intro decodes_basic(2)) (simp_all add: full_response_ok_def)
  let ?g = "\<lambda>chain. if chain \<noteq> 0 then s_throw (mk_error (''Unsupported request chain: '' @ show_int chain)) else ?k chain"
  have z: "requestChainId q = 0" "respVersion q = RESPONSE_VERSION" using ok by (simp_all add: full_response_ok_def)
  have "decodes (?g (requestChainId q)) (hexbytes (requestId q) @ enc_sized ?req @ enc_counted enc_per_chain_resp (responses q)) q"
    using 2 unfolding z by simp
  from decodes_bind[where f = ?g, OF w this] show ?thesis
    unfolding response_from_reader_def enc_full_response_def
    by (intro decodes_bind[OF v]) (simp only: z simp_thms if_False)
qed

interpretation response_codec: codec enc_full_response "response_from_reader base58" full_response_ok for base58
  by unfold_locales (rule response_decodes)

subsection \<open>Properties\<close>

lemma from_bytes_both:
  assumes "decodes d bs a" and "bs \<noteq> []"
  shows "from_bytes d (BytesInput bs) = Inr a \<and> from_bytes d (HexInput (uint8ArrayToHex bs)) = Inr a"
proof -
  have "d (reader_new bs) = (Inr a, \<lparr>rBuffer = bs, rOffset = length bs\<rparr>)"
    using assms(1)[unfolded decodes_def, rule_format, of "[]" "[]"] by (simp add: reader_new_def)
  then show ?thesis using assms(2) by (simp add: from_bytes_def hexToUint8Array_hex)
qed

lemma formats_not_empty: "enc_request q \<noteq> []" "enc_full_response r \<noteq> []"
  by (simp_all add: enc_request_def enc_full_response_def)

lemma hex_canon_of_bytes [simp]: "hexbytes (uint8ArrayToHex bs) = bs" "hex_canon (uint8ArrayToHex bs) \<longleftrightarrow> bs \<noteq> []"
  by (simp_all add: hex_canon_def hexbytes_def uint8ArrayToHex_def)

lemma length_encs [simp]:
  "length (enc_string s) = 4 + length (utf8_encode s)" "length (enc_result t) = 4 + length (hexbytes t)"
  "length (enc_u64 v) = 8" "length (enc_sized bs) = 4 + length bs" "length (enc_bool b) = 1"
  by (simp_all add: enc_string_def enc_result_def enc_u64_def enc_sized_def enc_bool_def)

lemma demo_tags: "tag_ok ''0x28d9630''" "tag_ok ''0x1''"
  by (simp_all add: tag_ok_def isValidHexString_def starts_with_def is_hex_def digit_val_def to_lower_def hex_digits_def)

lemma utf8_length: "string_ok s \<Longrightarrow> length (utf8_encode s) = length s"
  by (simp add: string_ok_def utf8_roundtrip)

definition demo_call :: EthCallData where
  "demo_call = \<lparr>callTo = uint8ArrayToHex (replicate 20 171), callInput = uint8ArrayToHex [24, 22, 13, 221]\<rparr>"

definition demo_scope :: SolanaScope where
  "demo_scope = scope_new ''finalized'' None (Some 8) (Some 32)"

definition demo_request :: QueryRequest where
  "demo_request =
     \<lparr>nonce = 42,
      requests =
       [\<lparr>pcChainId = 2, pcQuery = EthCallQuery \<lparr>ecBlockTag = ''0x28d9630'', ecCallData = [demo_call]\<rparr>\<rparr>,
        \<lparr>pcChainId = 2, pcQuery = EthCallByTimestampQuery \<lparr>etTargetTimestamp = 1697216322000000, etTargetBlockHint = ''0x1'',
           etFollowingBlockHint = [], etCallData = [demo_call]\<rparr>\<rparr>,
        \<lparr>pcChainId = 5, pcQuery = EthCallWithFinalityQuery \<lparr>efBlockId = ''0x28d9630'', efFinality = ''finalized'', efCallData = [demo_call]\<rparr>\<rparr>,
        \<lparr>pcChainId = 1, pcQuery = SolanaAccountQuery \<lparr>saScope = demo_scope, saAccounts = [replicate 32 7]\<rparr>\<rparr>,
        \<lparr>pcChainId = 1, pcQuery = SolanaPdaQuery \<lparr>spScope = demo_scope, spPdas = [\<lparr>programAddress = replicate 32 9, seeds = [[1, 2], [3]]\<rparr>]\<rparr>\<rparr>],
      version = 1\<rparr>"

lemmas demo_format_defs = enc_eth_call_def enc_eth_ts_def enc_eth_fin_def enc_sol_account_def enc_sol_pda_def enc_counted_def enc_call_def
  enc_scope_def enc_pda_def sized_ok_def counted_ok_def u64_ok_def u32_ok_def u16_ok_def key_ok_def

lemma demo_scope_ok: "scope_ok demo_scope" "length (enc_scope demo_scope) = 37"
  using utf8_length[OF finalized_ok]
  by (simp_all add: demo_scope_def scope_ok_def scope_new_def bigIntWithDef_def u64_ok_def enc_scope_def)

lemma demo_call_ok: "call_ok demo_call" "length (enc_call demo_call) = 28"
  by (simp_all add: demo_call_def call_ok_def result_ok_def enc_call_def)

lemma demo_lengths: "length (utf8_encode ''0x28d9630'') = 9" "length (utf8_encode ''0x1'') = 3" "utf8_encode [] = []"
    "length (utf8_encode ''finalized'') = 9"
  using utf8_length[OF tag_ok_string[OF demo_tags(1)]] utf8_length[OF tag_ok_string[OF demo_tags(2)]] utf8_length[OF finalized_ok]
  by (simp_all add: utf8_encode_def)

lemma demo_request_size: "length (enc_request demo_request) < 2 ^ 32"
  using demo_scope_ok(2) demo_call_ok(2)
  by (simp add: demo_request_def enc_request_def enc_per_chain_def enc_tagged_def demo_lengths demo_format_defs)

lemma demo_request_ok: "request_ok demo_request"
  using demo_tags demo_scope_ok demo_call_ok
  by (simp add: demo_lengths demo_request_def request_ok_def per_chain_ok_def eth_call_ok_def eth_ts_ok_def eth_fin_ok_def sol_account_ok_def sol_pda_ok_def
      REQUEST_VERSION_def hint_ok_def finality_ok_def pda_ok_def seed_ok_def SolanaMaxSeeds_def SolanaMaxSeedLen_def demo_format_defs)

text \<open>
  C14.  A query request survives the wire: every request whose parts are within the bounds of the format serialises, and both the bytes and
  their hexadecimal string are read back by \<^verbatim>\<open>QueryRequest.from\<close> as the same request, for all five kinds of query.
\<close>

theorem request_roundtrip:
  assumes "request_ok q"
  shows "\<exists>bs. request_serialize q = Inr bs \<and> request_from base58 (BytesInput bs) = Inr q
     \<and> request_from base58 (HexInput (uint8ArrayToHex bs)) = Inr q"
  using request_serialize_ok[OF assms] from_bytes_both[OF request_codec.dec_enc[OF assms] formats_not_empty(1)]
  by (auto simp: request_from_def)

theorem request_roundtrip_witness:
  "request_ok demo_request \<and> (\<exists>bs. request_serialize demo_request = Inr bs \<and> request_from (\<lambda>_. Inr []) (BytesInput bs) = Inr demo_request
     \<and> request_from (\<lambda>_. Inr []) (HexInput (uint8ArrayToHex bs)) = Inr demo_request)"
  using request_roundtrip[OF demo_request_ok] demo_request_ok by blast

definition demo_account :: SolanaAccountResult where
  "demo_account = \<lparr>lamports = 1461600, rentEpoch = 0, executable = False, owner = replicate 32 6, accountData = [1, 2, 3]\<rparr>"

lemma demo_account_ok: "sol_result_ok demo_account" "length (enc_sol_result demo_account) = 56"
  by (simp_all add: demo_account_def sol_result_ok_def enc_sol_result_def u64_ok_def key_ok_def sized_ok_def)

definition demo_response :: QueryResponse where
  "demo_response =
     \<lparr>requestChainId = 0, requestId = uint8ArrayToHex (replicate 65 12), request = demo_request,
      responses =
       [\<lparr>prChainId = 2, prResponse = EthCallResponse \<lparr>erBlockNumber = 42833456, erBlockHash = uint8ArrayToHex (replicate 32 77),
           erBlockTime = 1697216322000000, erResults = [uint8ArrayToHex [1], uint8ArrayToHex [2, 3]]\<rparr>\<rparr>,
        \<lparr>prChainId = 1, prResponse = SolanaAccountResponse \<lparr>sarSlotNumber = 240866260, sarBlockTime = 1704770509000000,
           sarBlockHash = replicate 32 5, sarResults = [demo_account]\<rparr>\<rparr>,
        \<lparr>prChainId = 1, prResponse = SolanaPdaResponse \<lparr>sprSlotNumber = 2303, sprBlockTime = 17047, sprBlockHash = replicate 32 5,
           sprResults = [\<lparr>pdaAccount = replicate 32 8, bump = 253, pdaState = demo_account\<rparr>]\<rparr>\<rparr>],
      respVersion = 1\<rparr>"

lemma demo_response_ok: "full_response_ok demo_response"
  using demo_request_ok demo_account_ok demo_request_size
  by (simp add: demo_response_def full_response_ok_def per_chain_resp_ok_def eth_resp_ok_def sol_account_resp_ok_def sol_pda_resp_ok_def
      RESPONSE_VERSION_def request_id_ok_def hash_ok_def result_ok_def pda_result_ok_def u8_ok_def enc_eth_resp_def enc_sol_account_resp_def
      enc_sol_pda_resp_def enc_pda_result_def demo_format_defs)

text \<open>
  C15.  A query response, with the request it answers inside, survives the wire in the same way.
\<close>

theorem response_roundtrip:
  assumes "full_response_ok q"
  shows "\<exists>bs. response_serialize q = Inr bs \<and> response_from base58 (BytesInput bs) = Inr q
     \<and> response_from base58 (HexInput (uint8ArrayToHex bs)) = Inr q"
  using response_serialize_ok[OF assms] from_bytes_both[OF response_codec.dec_enc[OF assms] formats_not_empty(2)]
  by (auto simp: response_from_def)

theorem response_roundtrip_witness:
  "full_response_ok demo_response \<and> (\<exists>bs. response_serialize demo_response = Inr bs \<and> response_from (\<lambda>_. Inr []) (BytesInput bs) = Inr demo_response
     \<and> response_from (\<lambda>_. Inr []) (HexInput (uint8ArrayToHex bs)) = Inr demo_response)"
  using response_roundtrip[OF demo_response_ok] demo_response_ok by blast

text \<open>
  An EVM call that returned no data reads as a result \<^verbatim>\<open>"0x"\<close>, which \<^verbatim>\<open>hexToUint8Array\<close> rejects: every response that holds such a
  result can be received and cannot be serialised again.
\<close>

theorem empty_result_not_serializable:
  assumes "u64_ok n" and "hash_ok h" and "u64_ok t"
  shows "\<exists>q. from_bytes eth_resp_from_reader (BytesInput (enc_u64 n @ hexbytes h @ enc_u64 t @ [1, 0, 0, 0, 0])) = Inr q
     \<and> erResults q = [''0x''] \<and> eth_resp_serialize q = Inl (mk_error ''0x is not hex'')"
proof -
  let ?q = "\<lparr>erBlockNumber = n, erBlockHash = h, erBlockTime = t, erResults = [''0x'']\<rparr>"
  have four: "(4 :: nat) = Suc (Suc (Suc (Suc 0)))" by simp
  have "be_encode 4 0 = [0, 0, 0, 0]" unfolding four by simp
  then have rd: "decodes read_result [0, 0, 0, 0] ''0x''"
    using decodes_sized_hex[of "[]"] by (simp add: uint8ArrayToHex_def to_hex_def)
  have 8: "decodes readUint8 [1] 1" using decodes_u8[of 1] by (simp add: u8_ok_def)
  have "decodes (read_list read_result (nat 1)) [0, 0, 0, 0] [''0x'']"
    using decodes_list[of "[''0x'']" read_result "\<lambda>_. [0, 0, 0, 0]"] rd by simp
  from decodes_bind[where f = "\<lambda>n. read_list read_result (nat n)", OF 8 this]
  have "decodes read_results [1, 0, 0, 0, 0] [''0x'']" by (simp add: read_results_def)
  then have "decodes (s_bind read_results (\<lambda>rs. s_return \<lparr>erBlockNumber = n, erBlockHash = h, erBlockTime = t, erResults = rs\<rparr>))
      [1, 0, 0, 0, 0] ?q"
    by (rule decodes_last) (rule decodes_return)
  from decodes_block[where f = "\<lambda>n h t. s_bind read_results (\<lambda>rs. s_return \<lparr>erBlockNumber = n, erBlockHash = h, erBlockTime = t, erResults = rs\<rparr>)", OF assms this]
  have "decodes eth_resp_from_reader (enc_u64 n @ hexbytes h @ enc_u64 t @ [1, 0, 0, 0, 0]) ?q"
    by (simp add: eth_resp_from_reader_def)
  then have "from_bytes eth_resp_from_reader (BytesInput (enc_u64 n @ hexbytes h @ enc_u64 t @ [1, 0, 0, 0, 0])) = Inr ?q"
    by (intro conjunct1[OF from_bytes_both]) simp_all
  moreover have "eth_resp_serialize ?q = Inl (mk_error ''0x is not hex'')"
  proof -
    have p: "sink.emits (\<lambda>w. e_bind (writeUint64 n w) (\<lambda>w. e_bind (write_hex h w) (\<lambda>w. e_bind (writeUint64 t w) (writeUint8 1))))
        (enc_u64 n @ hexbytes h @ enc_u64 t @ be_encode 1 (nat 1))"
      using assms by (intro sink.emits_then emits_u64 emits_hash emits_u8) (auto simp: u8_ok_def)
    obtain w where w: "writer_new 1024 = Inr w" "w_inv w" by (simp add: writer_new_def w_inv_def)
    with p obtain w' where "e_bind (writeUint64 n w) (\<lambda>w. e_bind (write_hex h w) (\<lambda>w. e_bind (writeUint64 t w) (writeUint8 1))) = Inr w'"
      unfolding sink.emits_def by blast
    then obtain w1 w2 w3 where steps: "writeUint64 n w = Inr w1" "write_hex h w1 = Inr w2" "writeUint64 t w2 = Inr w3" "writeUint8 1 w3 = Inr w'"
      by (auto simp: e_bind_Inr_iff)
    moreover have "hexToUint8Array ''0x'' = Inl (mk_error ''0x is not hex'')"
      by (simp add: hexToUint8Array_def isValidHexString_def starts_with_def)
    ultimately show ?thesis using w by (simp add: eth_resp_serialize_def with_writer_def write_results_def write_result_def steps)
  qed
  ultimately show ?thesis by (intro exI[of _ ?q]) simp
qed

theorem empty_result_not_serializable_witness:
  "\<exists>q. from_bytes eth_resp_from_reader
       (BytesInput (enc_u64 7 @ hexbytes (uint8ArrayToHex (replicate 32 77)) @ enc_u64 9 @ [1, 0, 0, 0, 0])) = Inr q
     \<and> erResults q = [''0x''] \<and> eth_resp_serialize q = Inl (mk_error ''0x is not hex'')"
  by (rule empty_result_not_serializable) (simp_all add: u64_ok_def hash_ok_def)

lemma hex_not_special:
  "digit_val 16 c \<noteq> None \<Longrightarrow> \<not> is_ws c \<and> c \<noteq> CHR ''-'' \<and> c \<noteq> CHR ''+'' \<and> c \<noteq> CHR ''x'' \<and> c \<noteq> CHR ''X''"
  by (auto simp: digit_val_def is_ws_def to_lower_def hex_digits_def)

lemma parse_hex_byte: "parse_hex_int (to_hex [b]) = Num (int (unat b))"
proof -
  let ?h = "hex_digits ! (unat b div 16)" and ?l = "hex_digits ! (unat b mod 16)"
  have "unat b div 16 < 16" using unat_byte_less[of b] by (simp add: less_mult_imp_div_less)
  then have d: "digit_val 16 ?h = Some (unat b div 16)" "digit_val 16 ?l = Some (unat b mod 16)" by (simp_all add: digit_val_hex_digit)
  have sp: "\<not> is_ws ?h" "?h \<noteq> CHR ''-''" "?h \<noteq> CHR ''+''" "?l \<noteq> CHR ''x''" "?l \<noteq> CHR ''X''"
    using hex_not_special[of ?h] hex_not_special[of ?l] d by auto
  have "unat b div 16 * 16 + unat b mod 16 = unat b" by simp
  moreover have "dbl (int (unat b)) = int (unat b)"
    using unat_byte_less[of b] by (simp only: dbl_safe max_safe_def)
  ultimately show ?thesis using sp d by (simp add: parse_hex_int_def to_hex_def hex_of_byte_def starts_with_def)
qed

lemma substring_parts:
  assumes "length r = 64" and "length s = 64" and "length v = 2"
  shows "substring (r @ s @ v @ g) 0 64 = r" "substring (r @ s @ v @ g) 64 128 = s" "substring (r @ s @ v @ g) 128 130 = v"
    "substring (r @ s @ v @ g) 130 132 = take 2 g"
  using assms by (simp_all add: substring_def)

text \<open>
  A signature packed by \<^verbatim>\<open>sign\<close>, with the guardian index the server appends in hexadecimal, is taken apart by \<^verbatim>\<open>signaturesToEvmStruct\<close>
  into the two padded numbers, the recovery parameter plus 27, and the guardian index.
\<close>

theorem evm_signature_fields:
  assumes "ec_sign key msg = (r, s, Some p)" and "length r \<le> 64" and "length s \<le> 64" and "0 \<le> p" and "p < 256"
  shows "signaturesToEvmStruct [sign ec_sign key msg @ to_hex [g]] =
    [\<lparr>sigR = ''0x'' @ pad_start 64 CHR ''0'' r, sigS = ''0x'' @ pad_start 64 CHR ''0'' s,
      sigV = ''0x'' @ show_radix 16 (nat p + 27), sigGuardianIndex = ''0x'' @ to_hex [g]\<rparr>]"
proof -
  let ?r = "pad_start 64 CHR ''0'' r" and ?s = "pad_start 64 CHR ''0'' s" and ?b = "word_of_int p :: byte"
  have len: "length ?r = 64" "length ?s = 64" "length (to_hex [?b]) = 2" "length (to_hex [g]) = 2"
    using assms(2,3) by (simp_all add: pad_start_def)
  have u: "int (unat ?b) = p" using assms(4,5) by (simp add: uint_word_of_int)
  have "dbl (p + 27) = p + 27" using assms(4,5) by (intro dbl_safe) (simp add: max_safe_def)
  then have v: "show_hex_num (plus_27 (parse_hex_int (to_hex [?b]))) = show_radix 16 (nat p + 27)"
    using assms(4) unfolding parse_hex_byte u by (simp add: nat_add_distrib)
  have "sign ec_sign key msg @ to_hex [g] = ?r @ ?s @ to_hex [?b] @ to_hex [g]"
    by (simp add: sign_def assms(1))
  with len show ?thesis
    by (simp only: signaturesToEvmStruct_def substring_parts[OF len(1-3)] v list.map) simp
qed

theorem evm_signature_fields_witness:
  "signaturesToEvmStruct [sign (\<lambda>k d. (''ab'', ''cd'', Some 1)) ''k'' [] @ to_hex [5]] =
    [\<lparr>sigR = ''0x'' @ pad_start 64 CHR ''0'' ''ab'', sigS = ''0x'' @ pad_start 64 CHR ''0'' ''cd'',
      sigV = ''0x'' @ show_radix 16 (nat 1 + 27), sigGuardianIndex = ''0x'' @ to_hex [5]\<rparr>]"
  by (rule evm_signature_fields) simp_all

end
