(* ===== verification/Stream_View.thy ===== *)
theory Stream_View
  imports Js_Float Price_Monitor
begin

section \<open>What the frontend shows of a stream: \<^verbatim>\<open>apps/frontend/src\<close>\<close>

text \<open>
  The logic behind the pages: the spot price, the streams of an account, the amount that has
  accrued, and the fee estimate.  Rendering, styling and animation are not modelled; a React state is a value, an effect
  a function from the old values to the new ones.
\<close>

text \<open>\<^verbatim>\<open>parseFloat(p.price) * Math.pow(10, p.expo)\<close>\<close>

definition price_usd :: "json \<Rightarrow> jsfloat" where
  "price_usd p = f_mul (parseFloat (js_string (own_prop ''price'' p))) (f_pow10 (own_prop ''expo'' p))"

subsection \<open>The spot price\<close>

text \<open>The create page keeps a price per feed; a price that is zero or not a number counts as none.\<close>

fun page_prices :: "json list \<Rightarrow> (string \<times> jsfloat) list \<Rightarrow> (string \<times> jsfloat) list" where
  "page_prices [] acc = acc"
| "page_prices (p # ps) acc =
     (let pr = opt_prop ''price'' p
      in page_prices ps (if truthy pr then map_set (js_string (own_prop ''id'' p)) (price_usd pr) acc else acc))"

definition create_fetch_prices :: "http_response outcome \<Rightarrow> (string \<times> jsfloat) list \<Rightarrow> (string \<times> jsfloat) list" where
  "create_fetch_prices res prices =
     (case res of
        Inl e \<Rightarrow> prices
      | Inr r \<Rightarrow>
          if \<not> respOk r then prices
          else (case respBody r of
                  Inl e \<Rightarrow> prices
                | Inr body \<Rightarrow>
                    (case opt_prop ''parsed'' body of
                       JArr ps \<Rightarrow> page_prices ps []
                     | JUndef \<Rightarrow> []
                     | JNull \<Rightarrow> []
                     | _ \<Rightarrow> prices)))"

definition create_spot_price :: "string \<Rightarrow> (string \<times> jsfloat) list \<Rightarrow> rat option" where
  "create_spot_price feedId prices =
     (case map_get prices (replace_first ''0x'' [] feedId) of
        Some (Some p) \<Rightarrow> if p = 0 then None else Some p
      | _ \<Rightarrow> None)"

text \<open>The other pages keep the first price of the answer; they do not look at the status.\<close>

definition page_fetch_price :: "http_response outcome \<Rightarrow> jsfloat option \<Rightarrow> jsfloat option" where
  "page_fetch_price res old =
     (case res of
        Inl e \<Rightarrow> old
      | Inr r \<Rightarrow>
          (case respBody r of
             Inl e \<Rightarrow> old
           | Inr body \<Rightarrow>
               (let parsed = opt_prop ''price'' (opt_index 0 (opt_prop ''parsed'' body))
                in if truthy parsed then Some (price_usd parsed) else old)))"

subsection \<open>The streams of an account\<close>

datatype stream_side = Inbound | Outbound | SelfStream

record StreamConfig =
  cfgId :: json
  side :: stream_side
  targetValue :: jsfloat
  durationSeconds :: jsfloat
  elapsedSeconds :: jsfloat
  startTimeMs :: jsfloat
  endTimeMs :: jsfloat
  cfgSender :: json
  cfgReceiver :: json
  cfgStrikePrice :: jsfloat
  cfgHedgeDirection :: jsfloat
  hedgeTriggered :: bool
  withdrawn :: jsfloat

definition user_event :: "string \<Rightarrow> json \<Rightarrow> bool" where
  "user_event address evt =
     (let payload = own_prop ''parsedJson'' evt
      in opt_prop ''sender'' payload = JStr address \<or> opt_prop ''receiver'' payload = JStr address)"

definition user_stream_ids :: "string \<Rightarrow> json list \<Rightarrow> json list" where
  "user_stream_ids address evts =
     map (\<lambda>e. own_prop ''stream_id'' (own_prop ''parsedJson'' e)) (filter (user_event address) evts)"

definition stream_type :: "string \<Rightarrow> json \<Rightarrow> stream_side" where
  "stream_type address fs =
     (if own_prop ''sender'' fs = JStr address \<and> own_prop ''receiver'' fs \<noteq> JStr address then Outbound
      else if own_prop ''receiver'' fs = JStr address \<and> own_prop ''sender'' fs \<noteq> JStr address then Inbound
      else SelfStream)"

text \<open>\<^verbatim>\<open>Math.max(0, Math.min(now - start, end - start)) / 1000\<close>\<close>

definition elapsed_seconds :: "int \<Rightarrow> jsfloat \<Rightarrow> jsfloat \<Rightarrow> jsfloat" where
  "elapsed_seconds now start fin =
     f_div (f_max0 (f_min (f_sub (Some (of_int now)) start) (f_sub fin start))) (Some 1000)"

definition view_stream :: "string \<Rightarrow> int \<Rightarrow> json \<Rightarrow> StreamConfig outcome" where
  "view_stream address now fs =
     e_bind (get_prop ''id'' (own_prop ''id'' fs)) (\<lambda>sid.
     let start = json_float (own_prop ''start_time'' fs); fin = json_float (own_prop ''end_time'' fs)
     in Inr \<lparr>cfgId = sid, side = stream_type address fs,
          targetValue = f_div (json_float (own_prop ''total_amount'' fs)) (Some 1000000000),
          durationSeconds = f_div (f_sub fin start) (Some 1000),
          elapsedSeconds = elapsed_seconds now start fin, startTimeMs = start, endTimeMs = fin,
          cfgSender = own_prop ''sender'' fs, cfgReceiver = own_prop ''receiver'' fs,
          cfgStrikePrice = f_div (json_float (own_prop ''strike_price'' fs)) (Some 100000000),
          cfgHedgeDirection = json_float (own_prop ''hedge_direction'' fs),
          hedgeTriggered = (own_prop ''hedge_triggered'' fs = JBool True),
          withdrawn = f_div (json_float (own_prop ''withdrawn'' fs)) (Some 1000000000)\<rparr>)"

fun view_objects :: "string \<Rightarrow> int \<Rightarrow> json list \<Rightarrow> StreamConfig list outcome" where
  "view_objects address now [] = Inr []"
| "view_objects address now (obj # objs) =
     e_bind (get_prop ''data'' obj) (\<lambda>d.
     let ct = opt_prop ''content'' d in
     if opt_prop ''dataType'' ct = JStr ''moveObject''
     then e_bind (view_stream address now (own_prop ''fields'' ct)) (\<lambda>c.
          e_bind (view_objects address now objs) (\<lambda>cs. Inr (c # cs)))
     else view_objects address now objs)"

text \<open>A failed request, and a callback that throws, leave the list as it was.\<close>

definition load_streams :: "string \<Rightarrow> int \<Rightarrow> (json list \<Rightarrow> json list outcome) \<Rightarrow> json list \<Rightarrow> StreamConfig list \<Rightarrow> StreamConfig list" where
  "load_streams address now multiGetObjects evts shown =
     (let ids = user_stream_ids address evts
      in if ids = [] then []
         else (case e_bind (multiGetObjects ids) (view_objects address now) of Inl e \<Rightarrow> shown | Inr cs \<Rightarrow> cs))"

definition load_stream :: "string \<Rightarrow> int \<Rightarrow> json outcome \<Rightarrow> StreamConfig option \<Rightarrow> StreamConfig option" where
  "load_stream address now res shown =
     (case e_bind res (\<lambda>obj. view_objects address now [obj]) of Inr [c] \<Rightarrow> Some c | _ \<Rightarrow> shown)"

definition actually_active :: "StreamConfig list \<Rightarrow> nat" where
  "actually_active cs =
     length (filter (\<lambda>s. f_less (withdrawn s) (f_sub (targetValue s) (Some (fl (1 / 10000))))) cs)"

subsection \<open>What has accrued\<close>

record StreamRow =
  balance :: jsfloat
  hasStarted :: bool
  localWithdrawn :: jsfloat
  progress :: jsfloat
  isProcessing :: bool

definition accrued :: "int \<Rightarrow> StreamConfig \<Rightarrow> jsfloat" where
  "accrued now cfg =
     f_mul (elapsed_seconds now (startTimeMs cfg) (endTimeMs cfg)) (f_div (targetValue cfg) (durationSeconds cfg))"

definition row_new :: "int \<Rightarrow> StreamConfig \<Rightarrow> StreamRow" where
  "row_new now cfg =
     \<lparr>balance = accrued now cfg, hasStarted = f_le (startTimeMs cfg) (Some (of_int now)),
      localWithdrawn = (case withdrawn cfg of None \<Rightarrow> Some 0 | w \<Rightarrow> w), progress = Some 0, isProcessing = False\<rparr>"

text \<open>One animation frame; the second component says whether another one is requested.\<close>

definition row_tick :: "int \<Rightarrow> StreamConfig \<Rightarrow> StreamRow \<Rightarrow> StreamRow \<times> bool" where
  "row_tick now cfg row =
     (let t = Some (of_int now);
          row1 = (if f_le (startTimeMs cfg) t \<and> \<not> hasStarted row then row\<lparr>hasStarted := True\<rparr> else row)
      in if f_less t (startTimeMs cfg) then (row1, True)
         else (let b = accrued now cfg;
                   pct = (if f_less (Some 0) (targetValue cfg) then f_mul (f_div b (targetValue cfg)) (Some 100) else Some 0);
                   row2 = row1\<lparr>balance := b, progress := pct\<rparr>
               in if f_less t (endTimeMs cfg) then (row2, True)
                  else (row2\<lparr>balance := targetValue cfg, progress := Some 100\<rparr>, False)))"

definition unclaimed :: "StreamRow \<Rightarrow> jsfloat" where
  "unclaimed row = f_max0 (f_sub (balance row) (localWithdrawn row))"

subsection \<open>The fee estimate\<close>

definition base_bps :: "jsfloat \<Rightarrow> int" where
  "base_bps v =
     (if f_le (Some 10000) v then 10 else if f_le (Some 5000) v then 20 else if f_le (Some 1000) v then 30 else 50)"

definition fee_of :: "jsfloat \<Rightarrow> int \<Rightarrow> jsfloat" where
  "fee_of v bps = f_div (f_mul v (Some (of_int bps))) (Some 10000)"

record fee_view =
  estimatedFee :: jsfloat
  isDangerZone :: bool
  willHedge :: bool

text \<open>\<^verbatim>\<open>config.strikePrice || 0\<close> and the two directions; a direction of 2, or none, is unhedged.\<close>

definition row_risk :: "StreamConfig \<Rightarrow> jsfloat \<Rightarrow> bool \<times> bool" where
  "row_risk cfg spot =
     (let strike = (case cfgStrikePrice cfg of None \<Rightarrow> Some 0 | s \<Rightarrow> s); d = cfgHedgeDirection cfg
      in if f_less (Some 0) strike \<and> d \<noteq> Some 2 \<and> f_less (Some 0) spot
         then if d = Some 0 then (f_less spot (f_mul strike (Some (fl (105 / 100)))), f_less spot strike)
              else if d = Some 1 then (f_less (f_mul strike (Some (fl (95 / 100)))) spot, f_less strike spot)
              else (False, False)
         else (False, False))"

definition row_fee :: "StreamConfig \<Rightarrow> jsfloat \<Rightarrow> StreamRow \<Rightarrow> fee_view" where
  "row_fee cfg spot row =
     (case row_risk cfg spot of (danger, hedge) \<Rightarrow>
        \<lparr>estimatedFee = fee_of (unclaimed row) (base_bps (targetValue cfg) + (if danger then 150 else 0)),
         isDangerZone = danger, willHedge = hedge\<rparr>)"

text \<open>The create page, from the text in the amount field.\<close>

definition derived_strike :: "rat option \<Rightarrow> rat \<Rightarrow> jsfloat" where
  "derived_strike spot riskDropPct =
     f_mul (case spot of None \<Rightarrow> Some 0 | p \<Rightarrow> p) (f_sub (Some 1) (f_div (Some riskDropPct) (Some 100)))"

definition create_fee :: "string \<Rightarrow> rat \<Rightarrow> rat option \<Rightarrow> jsfloat \<times> bool" where
  "create_fee amount riskDropPct spot =
     (let val = parseFloat (if amount = [] then ''0'' else amount)
      in if f_le val (Some 0) \<or> spot = None then (Some 0, False)
         else (let danger = f_less spot (f_mul (derived_strike spot riskDropPct) (Some (fl (105 / 100))))
               in (fee_of val (base_bps val + (if danger then 150 else 0)), danger)))"

text \<open>The fee tier of the contract, \<^verbatim>\<open>calculate_fee\<close> in \<^verbatim>\<open>peach_stream.move\<close>, on an amount in MIST.\<close>

definition contract_base_bps :: "nat \<Rightarrow> int" where
  "contract_base_bps total_amount =
     (let one_sui = 1000000000
      in if total_amount \<ge> 10000 * one_sui then 10 else if total_amount \<ge> 5000 * one_sui then 20
         else if total_amount \<ge> 1000 * one_sui then 30 else 50)"

subsection \<open>Properties\<close>

lemma fl_small_ints [simp]: "fl 10000 = 10000" "fl 5000 = 5000" "fl 1000 = 1000"
  using fl_of_int[of 10000] fl_of_int[of 5000] fl_of_int[of 1000] by simp_all

text \<open>Dividing by \<open>10 ^ 9\<close> and rounding does not move an amount across a whole number of SUI up to \<open>10000\<close>.\<close>

lemma tier_threshold:
  assumes "fl (of_nat k) = of_nat k" and "k \<le> 10000"
  shows "of_nat k \<le> fl (of_nat t / 1000000000) \<longleftrightarrow> k * 1000000000 \<le> t"
proof
  assume "k * 1000000000 \<le> t"
  then have "of_nat (k * 1000000000) \<le> (of_nat t :: rat)" by (simp only: of_nat_le_iff)
  then have "of_nat k \<le> (of_nat t :: rat) / 1000000000" by simp
  from fl_mono[OF _ this] assms(1) show "of_nat k \<le> fl (of_nat t / 1000000000)" by simp
next
  assume le: "of_nat k \<le> fl (of_nat t / 1000000000)"
  show "k * 1000000000 \<le> t"
  proof (rule ccontr)
    assume "\<not> k * 1000000000 \<le> t"
    then have "t + 1 \<le> k * 1000000000" by simp
    then have "of_nat (t + 1) \<le> (of_nat (k * 1000000000) :: rat)" by (simp only: of_nat_le_iff)
    then have t: "(of_nat t :: rat) / 1000000000 \<le> of_nat k - 1 / 1000000000" by (simp add: field_simps)
    have k: "of_nat k \<le> (10000 :: rat)" using assms(2) by simp
    have "\<bar>fl (of_nat t / 1000000000) - of_nat t / 1000000000\<bar> \<le> 10000 / 2 ^ 53"
      using fl_error[of "of_nat t / 1000000000"] t k by (auto intro: order_trans[OF _ divide_right_mono])
    then have "fl (of_nat t / 1000000000) \<le> of_nat k - 1 / 1000000000 + 10000 / 2 ^ 53" using t by linarith
    also have "\<dots> < of_nat k" by simp
    finally show False using le by simp
  qed
qed

text \<open>
  C38.  The fee tier the pages show for a stream is the tier the contract charges, for every amount in MIST that a \<^verbatim>\<open>number\<close>
  holds exactly, although the pages compare a rounded quotient.
\<close>

theorem fee_tier_matches_contract:
  assumes "T < 2 ^ 53"
  shows "base_bps (f_div (json_float (JStr (show_int (int T)))) (Some 1000000000)) = contract_base_bps T"
proof -
  have "json_float (JStr (show_int (int T))) = Some (of_nat T)"
    using assms dbl_safe[of "int T"] by (simp add: json_float_def max_safe_def del: to_number.simps)
  then have "f_div (json_float (JStr (show_int (int T)))) (Some 1000000000) = Some (fl (of_nat T / 1000000000))"
    by (simp add: f_div_def del: to_number.simps)
  then show ?thesis
    using tier_threshold[of 10000 T] tier_threshold[of 5000 T] tier_threshold[of 1000 T]
    by (simp add: base_bps_def contract_base_bps_def)
qed

theorem fee_tier_matches_contract_witness:
  "base_bps (f_div (json_float (JStr (show_int (int 4999999999999)))) (Some 1000000000)) = contract_base_bps 4999999999999
     \<and> contract_base_bps 4999999999999 = 30"
  using fee_tier_matches_contract[of 4999999999999] by (simp add: contract_base_bps_def)

text \<open>
  What a row shows as accrued is never negative and exceeds the stream's amount by no more than two roundings; once the end time is
  reached a frame shows exactly the amount and requests no further frame.
\<close>

theorem row_tick_bounds:
  assumes "startTimeMs cfg = Some (of_int s)" and "endTimeMs cfg = Some (of_int e)" and "targetValue cfg = Some v"
    and "durationSeconds cfg = f_div (f_sub (endTimeMs cfg) (startTimeMs cfg)) (Some 1000)"
    and "0 \<le> s" and "s < e" and "e < 2 ^ 53" and "0 \<le> v" and "s \<le> now" and "now < 2 ^ 53"
  shows "\<exists>b. balance (fst (row_tick now cfg row)) = Some b \<and> 0 \<le> b \<and> b \<le> v * (1 + 1 / 2 ^ 53) ^ 2
     \<and> (e \<le> now \<longrightarrow> b = v \<and> \<not> snd (row_tick now cfg row))"
proof -
  define D :: rat where "D = of_int (e - s)"
  define d :: rat where "d = min (of_int (now - s)) D"
  have sub: "f_sub (Some (of_int x)) (Some (of_int s)) = Some (of_int (x - s))" if "s \<le> x" "x < 2 ^ 53" for x
  proof -
    have "\<bar>x - s\<bar> < 2 ^ 53" using that assms(5) by simp
    from fl_of_int[OF this] show ?thesis by (simp add: f_sub_def)
  qed
  have d0: "0 \<le> d" and dD: "d \<le> D" and D0: "0 < D" using assms(6,9) by (auto simp: d_def D_def)
  have el: "elapsed_seconds now (startTimeMs cfg) (endTimeMs cfg) = Some (fl (d / 1000))"
    using d0 sub[of now] sub[of e] assms(1,2,6,7,9,10) by (simp add: elapsed_seconds_def f_div_def d_def D_def)
  have du: "durationSeconds cfg = Some (fl (D / 1000))"
    using sub[of e] assms(1,2,4,6,7) by (simp add: f_div_def D_def)
  define q where "q = fl (D / 1000)"
  have "\<bar>q - D / 1000\<bar> \<le> D / 1000 / 2 ^ 53" using fl_error[of "D / 1000"] D0 by (simp add: q_def)
  moreover have "D / 1000 / 2 ^ 53 < D / 1000" using D0 by (simp add: field_simps)
  ultimately have q0: "0 < q" by linarith
  have eq: "fl (d / 1000) \<le> q" unfolding q_def using d0 dD by (intro fl_mono) (auto simp: divide_right_mono)
  have e0: "0 \<le> fl (d / 1000)" using d0 by (intro fl_nonneg) simp
  define vel where "vel = fl (v / q)"
  have vel0: "0 \<le> vel" using assms(8) q0 by (auto simp: vel_def intro!: fl_nonneg)
  have acc: "accrued now cfg = Some (fl (fl (d / 1000) * vel))"
    using q0 by (simp add: accrued_def el du assms(3) f_mul_def f_div_def q_def[symmetric] vel_def)
  have "vel \<le> v / q * (1 + 1 / 2 ^ 53)" unfolding vel_def using assms(8) q0 by (intro fl_upper) simp
  then have "q * vel \<le> q * (v / q * (1 + 1 / 2 ^ 53))" using q0 by (intro mult_left_mono) auto
  also have "\<dots> = v * (1 + 1 / 2 ^ 53)" using q0 by (simp add: field_simps)
  finally have qv: "q * vel \<le> v * (1 + 1 / 2 ^ 53)" .
  have p0: "0 \<le> fl (d / 1000) * vel" using e0 vel0 by simp
  have "fl (d / 1000) * vel \<le> q * vel" using eq vel0 by (rule mult_right_mono)
  with qv have pv: "fl (d / 1000) * vel \<le> v * (1 + 1 / 2 ^ 53)" by linarith
  have "fl (fl (d / 1000) * vel) \<le> fl (d / 1000) * vel * (1 + 1 / 2 ^ 53)"
    using p0 by (rule fl_upper)
  also have "\<dots> \<le> v * (1 + 1 / 2 ^ 53) * (1 + 1 / 2 ^ 53)" using pv by (rule mult_right_mono) simp
  finally have ub: "fl (fl (d / 1000) * vel) \<le> v * (1 + 1 / 2 ^ 53) ^ 2" by (simp add: power2_eq_square)
  have vv: "v \<le> v * (1 + 1 / 2 ^ 53) ^ 2" using mult_left_mono[of 1 "(1 + 1 / 2 ^ 53) ^ 2" v] assms(8) by simp
  show ?thesis
    using ub vv fl_nonneg[OF p0] acc assms(1,2,3,8,9) by (auto simp: row_tick_def Let_def)
qed

definition demo_config_view :: StreamConfig where
  "demo_config_view =
     \<lparr>cfgId = JStr ''0x1'', side = Inbound, targetValue = Some 12, durationSeconds = f_div (f_sub (Some 5000) (Some 1000)) (Some 1000),
      elapsedSeconds = Some 0, startTimeMs = Some 1000, endTimeMs = Some 5000, cfgSender = JStr ''0xa'', cfgReceiver = JStr ''0xb'',
      cfgStrikePrice = Some 1, cfgHedgeDirection = Some 0, hedgeTriggered = False, withdrawn = Some 0\<rparr>"

theorem row_tick_bounds_witness:
  "\<exists>b. balance (fst (row_tick 6000 demo_config_view (row_new 0 demo_config_view))) = Some b \<and> 0 \<le> b \<and> b \<le> 12 * (1 + 1 / 2 ^ 53) ^ 2
     \<and> (5000 \<le> (6000 :: int) \<longrightarrow> b = 12 \<and> \<not> snd (row_tick 6000 demo_config_view (row_new 0 demo_config_view)))"
  by (rule row_tick_bounds[where s = 1000]) (simp_all add: demo_config_view_def)

text \<open>
  The create page never warns of the danger zone: its check asks for a spot price below 1.05 times the strike, and the strike it
  derives is at least the slider's minimum of 5 percent below the spot price, roundings included.
\<close>

theorem create_danger_unreachable:
  assumes "5 \<le> riskDropPct" and "riskDropPct \<le> 30" and "0 < p"
  shows "\<not> snd (create_fee amount riskDropPct (Some p))"
proof -
  let ?r = "fl (riskDropPct / 100)" and ?c = "fl (105 / 100)"
  define w where "w = fl (1 - ?r)"
  have "\<bar>fl (5 / 100) - 5 / 100\<bar> \<le> 1 / 10000" by (rule order_trans[OF fl_error]) simp
  then have "499 / 10000 \<le> fl (5 / 100)" by linarith
  moreover have "fl (5 / 100) \<le> ?r" using assms(1) by (intro fl_mono) auto
  moreover have "?r \<le> fl (30 / 100)" using assms(1,2) by (intro fl_mono) auto
  moreover have "fl (30 / 100) \<le> 1" using fl_upper[of "30 / 100"] by simp
  ultimately have r: "499 / 10000 \<le> ?r" "?r \<le> 1" by linarith+
  then have "w \<le> (1 - ?r) * (1 + 1 / 2 ^ 53)" unfolding w_def by (intro fl_upper) simp
  also have "\<dots> \<le> 9501 / 10000 * (1 + 1 / 2 ^ 53)" using r by (intro mult_right_mono) auto
  finally have w: "w \<le> 951 / 1000" by simp
  have w0: "0 \<le> w" unfolding w_def using r by (intro fl_nonneg) simp
  have c: "?c \<le> 10501 / 10000" "0 \<le> ?c" using fl_upper[of "105 / 100"] fl_nonneg[of "105 / 100"] by simp_all
  define k where "k = fl (p * w)"
  have "k \<le> p * w * (1 + 1 / 2 ^ 53)" unfolding k_def using assms(3) w0 by (intro fl_upper) simp
  also have "\<dots> \<le> p * (951 / 1000) * (1 + 1 / 2 ^ 53)" using w assms(3) by (intro mult_right_mono mult_left_mono) auto
  finally have k: "k \<le> p * (9511 / 10000)" using assms(3) by simp
  have k0: "0 \<le> k" unfolding k_def using assms(3) w0 by (intro fl_nonneg) simp
  have "fl (k * ?c) \<le> k * ?c * (1 + 1 / 2 ^ 53)" using k0 c by (intro fl_upper) simp
  also have "\<dots> \<le> p * (9511 / 10000) * (10501 / 10000) * (1 + 1 / 2 ^ 53)"
    using k k0 c assms(3) by (intro mult_right_mono mult_mono) auto
  also have "\<dots> \<le> p" using assms(3) by simp
  finally have "\<not> p < fl (k * ?c)" by simp
  then show ?thesis
    by (simp add: create_fee_def derived_strike_def f_mul_def f_sub_def f_div_def Let_def w_def k_def)
qed

theorem create_danger_unreachable_witness:
  "\<not> snd (create_fee ''10'' 5 (Some (7 / 2)))"
  by (rule create_danger_unreachable) simp_all

end
