(* ===== verification/Stream_Actions.thy ===== *)
theory Stream_Actions
  imports Stream_View Tx_Builder
begin

section \<open>What the frontend does to a stream: \<^verbatim>\<open>apps/frontend/src\<close>\<close>

text \<open>
  Creating, claiming and cancelling a stream.  The wallet (\<^verbatim>\<open>signAndExecuteTransaction\<close>), the node, Hermes and the keeper's API are
  parameters that may throw.  A page's state is a record; toasts are collected in it.
\<close>

subsection \<open>Constants: \<^verbatim>\<open>lib/constants.ts\<close>\<close>

record site_env =
  PEACH_PACKAGE_ID :: string
  DEEPBOOK_SUI_USDC_POOL_ID :: string
  DEEP_TOKEN_TYPE :: string
  PYTH_STATE_ID :: string
  PYTH_SUI_USD_FEED_ID :: string
  WORMHOLE_STATE_ID :: string
  USDC_TYPE :: string
  PEACH_REGISTRY_ID :: string

definition SUI_CLOCK_OBJECT_ID :: string where
  "SUI_CLOCK_OBJECT_ID = ''0x6''"

definition COIN_ZERO_TARGET :: string where
  "COIN_ZERO_TARGET = ''0x2::coin::zero''"

definition HEDGE_FLOOR :: int where
  "HEDGE_FLOOR = 0"

subsection \<open>Creating a stream\<close>

record create_form =
  formAccount :: "string option"
  amount :: string
  recipient :: string
  startDate :: "int option"
  endDate :: "int option"
  riskDropPct :: rat
  twapPreset :: int

record create_page =
  isExecuting :: bool
  txResult :: "json option"
  toasts :: "(string \<times> string) list"
  redirect :: "string option"
  registered :: "json list"

record create_env =
  createNow :: int
  createSign :: "transaction \<Rightarrow> json outcome"
  createWait :: "json \<Rightarrow> json outcome"
  createRegister :: "json \<Rightarrow> unit outcome"

definition amount_in_mist :: "string \<Rightarrow> int outcome" where
  "amount_in_mist s = big_floor (f_mul (parseFloat s) (Some 1000000000))"

definition strike_scaled :: "rat option \<Rightarrow> rat \<Rightarrow> int outcome" where
  "strike_scaled spot drop_pct = big_floor (f_mul (derived_strike spot drop_pct) (Some 100000000))"

definition create_transaction :: "site_env \<Rightarrow> create_form \<Rightarrow> int \<Rightarrow> int \<Rightarrow> rat option \<Rightarrow> transaction outcome" where
  "create_transaction site form startMs endMs spot =
     e_bind (amount_in_mist (amount form)) (\<lambda>amountInMist.
     e_bind (strike_scaled spot (riskDropPct form)) (\<lambda>strikePriceScaled.
     Inr [SplitCoins GasCoin [PureU64 amountInMist],
          MoveCall (PEACH_PACKAGE_ID site @ ''::peach_stream::create_stream'') [USDC_TYPE site]
            [PureAddress (recipient form), PureU64 startMs, PureU64 endMs, PureU64 strikePriceScaled,
             PureU8 HEDGE_FLOOR, PureU8 (twapPreset form), PureU64 0, Result 0 0, ObjectArg (PEACH_REGISTRY_ID site)]]))"

text \<open>\<^verbatim>\<open>txDetails.objectChanges?.find(...)\<close>; \<^verbatim>\<open>includes\<close> on what is not a string throws.\<close>

fun find_stream :: "json list \<Rightarrow> json outcome" where
  "find_stream [] = Inr JUndef"
| "find_stream (ch # chs) =
     e_bind (get_prop ''type'' ch) (\<lambda>t.
     if t = JStr ''created''
     then (case own_prop ''objectType'' ch of
             JStr s \<Rightarrow> if str_includes ''::peach_stream::PeachStream'' s then Inr ch else find_stream chs
           | _ \<Rightarrow> Inl (type_error ''change.objectType.includes is not a function''))
     else find_stream chs)"

definition new_stream :: "json \<Rightarrow> json outcome" where
  "new_stream details =
     e_bind (get_prop ''objectChanges'' details) (\<lambda>cs.
     case cs of
       JArr chs \<Rightarrow> find_stream chs
     | JUndef \<Rightarrow> Inr JUndef
     | JNull \<Rightarrow> Inr JUndef
     | _ \<Rightarrow> Inl (type_error ''objectChanges.find is not a function''))"

text \<open>The object of the new stream, when the change found carries one.\<close>

fun stream_object_id :: "json \<Rightarrow> json option" where
  "stream_object_id (JObj ps) = map_of ps ''objectId''"
| "stream_object_id _ = None"

definition target_url :: "json option \<Rightarrow> string" where
  "target_url oid = (case oid of Some i \<Rightarrow> ''/dashboard/streams/'' @ js_string i | None \<Rightarrow> ''/dashboard/streams'')"

text \<open>After the transaction was built: sign, remember the digest, wait, register with the keeper, whose failure is ignored.\<close>

definition submit_create :: "create_env \<Rightarrow> transaction \<Rightarrow> (create_page, unit) stateful" where
  "submit_create env tx =
     s_bind (s_lift (createSign env tx)) (\<lambda>result.
     s_bind (s_lift (get_prop ''digest'' result)) (\<lambda>digest.
     s_bind (s_modify (\<lambda>p. p\<lparr>txResult := Some digest\<rparr>)) (\<lambda>_.
     s_bind (s_lift (createWait env digest)) (\<lambda>details.
     s_bind (s_lift (new_stream details)) (\<lambda>ns.
     s_bind (s_modify (\<lambda>p.
        case stream_object_id ns of
          None \<Rightarrow> p
        | Some oid \<Rightarrow> (case createRegister env oid of Inl e \<Rightarrow> p | Inr _ \<Rightarrow> p\<lparr>registered := registered p @ [oid]\<rparr>))) (\<lambda>_.
     s_modify (\<lambda>p. p\<lparr>toasts := toasts p @ [(''Stream deployed successfully!'', ''success'')],
                        redirect := Some (target_url (stream_object_id ns))\<rparr>)))))))"

text \<open>\<^verbatim>\<open>e?.message ?? e\<close>\<close>

definition error_text :: "js_error \<Rightarrow> string" where
  "error_text e = (case errMessage e of Some m \<Rightarrow> m | None \<Rightarrow> errName e)"

definition handleCreate :: "site_env \<Rightarrow> create_form \<Rightarrow> rat option \<Rightarrow> create_env \<Rightarrow> create_page \<Rightarrow> create_page" where
  "handleCreate site form spot env page =
     (case (formAccount form, startDate form, endDate form) of
        (Some account, Some startMs, Some endMs) \<Rightarrow>
          if amount form = [] \<or> recipient form = [] then page
          else if startMs < createNow env
          then page\<lparr>toasts := toasts page @ [(''Start time cannot be in the past.'', ''error'')]\<rparr>
          else if endMs \<le> startMs
          then page\<lparr>toasts := toasts page @ [(''End time must be after start time.'', ''error'')]\<rparr>
          else (case s_bind (s_lift (create_transaction site form startMs endMs spot)) (submit_create env)
                       (page\<lparr>isExecuting := True, txResult := None\<rparr>) of
                  (Inr _, p) \<Rightarrow> p\<lparr>isExecuting := False\<rparr>
                | (Inl e, p) \<Rightarrow> p\<lparr>toasts := toasts p @ [(''Transaction failed: '' @ error_text e, ''error'')], isExecuting := False\<rparr>)
      | _ \<Rightarrow> page)"

subsection \<open>Claiming and cancelling\<close>

record row_env =
  rowProvider :: provider
  rowSer :: "nat \<Rightarrow> bytes \<Rightarrow> bytes outcome"
  rowHermes :: "string \<Rightarrow> string list outcome"
  rowSign :: "nat \<Rightarrow> transaction \<Rightarrow> unit outcome"

text \<open>
  The price update of the row.  Unlike the keeper it looks the price object up first, and creates it in a transaction
  of its own; the transaction it was given is written to by one call of \<^verbatim>\<open>updatePriceFeeds\<close> only.  The wallet
  is asked once for that transaction and once for the action: \<open>rowSign 0\<close> and \<open>rowSign 1\<close>.
\<close>

definition row_create_feed :: "row_env \<Rightarrow> bytes list \<Rightarrow> string \<Rightarrow> (SuiPythClient, unit) stateful" where
  "row_create_feed env updates feedId pc =
     (case createPriceFeed (rowProvider env) (rowSer env) updates (pc, []) of
        (Inl e, pc1, _) \<Rightarrow> (Inl e, pc1)
      | (Inr _, pc1, initTx) \<Rightarrow>
          s_bind (s_lift (rowSign env 0 initTx)) (\<lambda>_.
          s_bind (getPriceFeedObjectId (rowProvider env) feedId) (\<lambda>objectId.
          if truthy objectId then s_return () else s_throw (mk_error ''Failed to retrieve PriceFeed ObjectId''))) pc1)"

definition row_prepare :: "site_env \<Rightarrow> row_env \<Rightarrow> (transaction, json) stateful" where
  "row_prepare site env tx =
     (let feedId = replace_first ''0x'' [] (PYTH_SUI_USD_FEED_ID site) in
      case rowHermes env feedId of
        Inl e \<Rightarrow> (Inl e, tx)
      | Inr hexes \<Rightarrow>
          (let updates = map from_hex hexes;
               pc = pyth_client_new (PYTH_STATE_ID site) (WORMHOLE_STATE_ID site)
           in case s_bind (getPriceFeedObjectId (rowProvider env) feedId)
                     (\<lambda>objectId. if truthy objectId then s_return () else row_create_feed env updates feedId) pc of
                (Inl e, _) \<Rightarrow> (Inl e, tx)
              | (Inr _, pc1) \<Rightarrow>
                  (case updatePriceFeeds (rowProvider env) (rowSer env) updates [feedId] (pc1, tx) of
                     (Inl e, _, tx1) \<Rightarrow> (Inl e, tx1)
                   | (Inr oids, _, tx1) \<Rightarrow> (Inr (js_first oids), tx1))))"

definition row_transaction :: "site_env \<Rightarrow> row_env \<Rightarrow> string \<Rightarrow> string \<Rightarrow> (transaction, unit) stateful" where
  "row_transaction site env entry streamObjectId =
     s_bind (row_prepare site env) (\<lambda>priceInfo.
     s_bind (move_call COIN_ZERO_TARGET [DEEP_TOKEN_TYPE site] []) (\<lambda>deepCoin.
     s_bind (move_call (PEACH_PACKAGE_ID site @ entry) [USDC_TYPE site]
               [ObjectArg streamObjectId, ObjectArg (js_string priceInfo), ObjectArg (DEEPBOOK_SUI_USDC_POOL_ID site),
                CommandResult deepCoin, ObjectArg (PEACH_REGISTRY_ID site), ObjectArg SUI_CLOCK_OBJECT_ID]) (\<lambda>_.
     s_return ())))"

text \<open>Both handlers: nothing while another one runs; what was signed, and the new row.\<close>

definition run_row_action ::
    "site_env \<Rightarrow> row_env \<Rightarrow> string \<Rightarrow> string \<Rightarrow> (StreamRow \<Rightarrow> StreamRow) \<Rightarrow> StreamRow \<Rightarrow> StreamRow \<times> transaction option \<times> bool" where
  "run_row_action site env entry sid done row =
     (if isProcessing row then (row, None, False)
      else (case row_transaction site env entry sid [] of
              (Inl e, _) \<Rightarrow> (row\<lparr>isProcessing := False\<rparr>, None, False)
            | (Inr _, tx) \<Rightarrow>
                (case rowSign env 1 tx of
                   Inl e \<Rightarrow> (row\<lparr>isProcessing := False\<rparr>, Some tx, False)
                 | Inr _ \<Rightarrow> ((done row)\<lparr>isProcessing := False\<rparr>, Some tx, True))))"

definition executeClaimTransaction :: "site_env \<Rightarrow> row_env \<Rightarrow> string \<Rightarrow> StreamRow \<Rightarrow> StreamRow \<times> transaction option \<times> bool" where
  "executeClaimTransaction site env sid row =
     run_row_action site env ''::peach_stream::claim_stream'' sid
       (\<lambda>r. r\<lparr>localWithdrawn := f_add (localWithdrawn r) (unclaimed r)\<rparr>) row"

definition executeCancelTransaction :: "site_env \<Rightarrow> row_env \<Rightarrow> string \<Rightarrow> StreamRow \<Rightarrow> StreamRow \<times> transaction option \<times> bool" where
  "executeCancelTransaction site env sid row = run_row_action site env ''::peach_stream::cancel_stream'' sid (\<lambda>r. r) row"

subsection \<open>Properties\<close>

lemma decimal_82: "decimal_val ''8.2'' = Some (41 / 5)"
  by code_simp

lemma fl_82: "fl (41 / 5) = 2308094809027379 / 281474976710656"
  using fl_eval[of 3 "41 / 5" 4616189618054758] by (simp add: pow2_def)

lemma fl_82_mist: "fl (4507997673881599609375 / 549755813888) = 8598323199999999 / 1048576"
  using fl_eval[of 32 "4507997673881599609375 / 549755813888" 8598323199999999] by (simp add: pow2_def)

lemma mist_82: "amount_in_mist ''8.2'' = Inr 8199999999"
proof -
  have "\<lfloor>8598323199999999 / 1048576 :: rat\<rfloor> = 8199999999" by (simp add: floor_eq_iff)
  then show ?thesis by (simp add: amount_in_mist_def parseFloat_def decimal_82 fl_82 f_mul_def fl_82_mist)
qed

text \<open>
  The amount a user types is not always the amount that is streamed: 8.2 SUI becomes 8199999999 MIST, because the product with
  \<open>10 ^ 9\<close> is rounded and then cut off.
\<close>

theorem amount_loses_mist: "amount_in_mist ''8.2'' = Inr 8199999999"
  by (rule mist_82)

text \<open>
  The error is never more: for an amount up to four million SUI the MIST that are sent differ by at most one from the
  amount typed, cut off at nine decimals.
\<close>

theorem amount_in_mist_accurate:
  assumes "decimal_val s = Some v" and "0 \<le> v" and "v \<le> 4000000"
  shows "\<exists>m. amount_in_mist s = Inr m \<and> \<bar>m - \<lfloor>v * 1000000000\<rfloor>\<bar> \<le> 1"
proof -
  let ?x = "v * 1000000000" and ?y = "fl v * 1000000000"
  have "\<bar>v\<bar> / 2 ^ 53 \<le> 4000000 / 2 ^ 53" using assms(2,3) by (intro divide_right_mono) auto
  with fl_error[of v] have 1: "\<bar>fl v - v\<bar> \<le> 4000000 / 2 ^ 53" by linarith
  have "?y - ?x = (fl v - v) * 1000000000" by (simp add: algebra_simps)
  then have "\<bar>?y - ?x\<bar> = \<bar>fl v - v\<bar> * 1000000000" by (simp only: abs_mult abs_numeral)
  with 1 have 2: "\<bar>?y - ?x\<bar> \<le> 4000000 / 2 ^ 53 * 1000000000" by (simp add: mult_right_mono)
  have y0: "0 \<le> ?y" using fl_nonneg[OF assms(2)] by simp
  have "\<bar>?y - ?x\<bar> \<le> 1000000000" using 2 by (rule order_trans) simp
  moreover have "?x \<le> 4000000 * 1000000000" using assms(3) by simp
  ultimately have yb: "?y \<le> 4000001 * 1000000000" by linarith
  have "\<bar>?y\<bar> / 2 ^ 53 \<le> 4000001 * 1000000000 / 2 ^ 53" using y0 yb by (intro divide_right_mono) auto
  with fl_error[of ?y] have 3: "\<bar>fl ?y - ?y\<bar> \<le> 4000001 * 1000000000 / 2 ^ 53" by linarith
  have "\<bar>fl ?y - ?x\<bar> \<le> 4000001 * 1000000000 / 2 ^ 53 + 4000000 / 2 ^ 53 * 1000000000" using 2 3 by linarith
  then have "\<bar>fl ?y - ?x\<bar> < 1" by simp
  then have "\<bar>\<lfloor>fl ?y\<rfloor> - \<lfloor>?x\<rfloor>\<bar> \<le> 1" by linarith
  then show ?thesis by (simp add: amount_in_mist_def parseFloat_def assms(1) f_mul_def)
qed

theorem amount_in_mist_accurate_witness:
  "\<exists>m. amount_in_mist ''8.2'' = Inr m \<and> \<bar>m - \<lfloor>41 / 5 * 1000000000 :: rat\<rfloor>\<bar> \<le> 1"
  by (rule amount_in_mist_accurate) (simp_all add: decimal_82)

text \<open>
  What \<^verbatim>\<open>handleCreate\<close> sends while no price is loaded: the page has no guard, and the stream is created with a floor hedge at
  strike zero.
\<close>

theorem create_without_price_strikes_zero:
  assumes "amount_in_mist (amount form) = Inr m"
  shows "create_transaction site form s e None =
     Inr [SplitCoins GasCoin [PureU64 m],
          MoveCall (PEACH_PACKAGE_ID site @ ''::peach_stream::create_stream'') [USDC_TYPE site]
            [PureAddress (recipient form), PureU64 s, PureU64 e, PureU64 0, PureU8 0, PureU8 (twapPreset form), PureU64 0,
             Result 0 0, ObjectArg (PEACH_REGISTRY_ID site)]]"
  by (simp add: create_transaction_def assms strike_scaled_def derived_strike_def f_mul_def f_sub_def f_div_def fl_def HEDGE_FLOOR_def)

definition demo_site :: site_env where
  "demo_site = \<lparr>PEACH_PACKAGE_ID = ''0xpeach'', DEEPBOOK_SUI_USDC_POOL_ID = ''0xpool'', DEEP_TOKEN_TYPE = ''0xdeep'', PYTH_STATE_ID = ''0xpyth'',
     PYTH_SUI_USD_FEED_ID = ''0xfeed'', WORMHOLE_STATE_ID = ''0xworm'', USDC_TYPE = ''0xusdc'', PEACH_REGISTRY_ID = ''0xreg''\<rparr>"

definition demo_form :: create_form where
  "demo_form = \<lparr>formAccount = Some ''0xme'', amount = ''8.2'', recipient = ''0xyou'', startDate = Some 2000, endDate = Some 9000,
     riskDropPct = 15, twapPreset = 1\<rparr>"

theorem create_without_price_strikes_zero_witness:
  "create_transaction demo_site demo_form 2000 9000 None =
     Inr [SplitCoins GasCoin [PureU64 8199999999],
          MoveCall (PEACH_PACKAGE_ID demo_site @ ''::peach_stream::create_stream'') [USDC_TYPE demo_site]
            [PureAddress (recipient demo_form), PureU64 2000, PureU64 9000, PureU64 0, PureU8 0, PureU8 (twapPreset demo_form), PureU64 0,
             Result 0 0, ObjectArg (PEACH_REGISTRY_ID demo_site)]]"
  by (rule create_without_price_strikes_zero) (simp add: demo_form_def mist_82)

subsection \<open>What a row asks the wallet to sign\<close>

lemma lookup_falsy:
  assumes "getPriceFeedObjectId prov f c = (Inr oid, c')" "\<not> truthy oid" "map_get (priceFeedObjectIdCache c) (replace_first ''0x'' [] f) = None"
  shows "map_get (priceFeedObjectIdCache c') (replace_first ''0x'' [] f) = Some v \<Longrightarrow> \<not> truthy v"
  using assms
  by (auto simp: getPriceFeedObjectId_def run_splits Let_def ask_def split: if_splits prod.splits dest!: table_info(2))

lemma createPriceFeed_cache:
  "createPriceFeed prov ser ups (c, tx) = (r, (c', tx')) \<Longrightarrow> priceFeedObjectIdCache c' = priceFeedObjectIdCache c"
  by (auto simp: createPriceFeed_def run_splits split: if_splits prod.splits dest!: lookup_cache verifyVaas_cache)

text \<open>The client with which the update is made: the object it has for the feed comes from the price table.\<close>

lemma row_client:
  assumes "s_bind (getPriceFeedObjectId (rowProvider env) f) (\<lambda>oid. if truthy oid then s_return () else row_create_feed env ups f) c = (Inr (), c1)"
    and "priceFeedObjectIdCache c = []" "map_get (priceFeedObjectIdCache c1) (replace_first ''0x'' [] f) = Some v" "truthy v"
  shows "object_of_feed (rowProvider env) c c1 f v"
proof -
  obtain oid c2 where l: "getPriceFeedObjectId (rowProvider env) f c = (Inr oid, c2)"
    and r: "if truthy oid then c1 = c2 else row_create_feed env ups f c2 = (Inr (), c1)"
    using assms(1) by (auto simp: s_bind_split s_return_def split: if_splits)
  have none: "map_get (priceFeedObjectIdCache c) g = None" for g using assms(2) by (simp add: map_get_def)
  show ?thesis
  proof (cases "truthy oid")
    case True
    then show ?thesis using find_object[OF l True] r assms(3) by simp
  next
    case False
    then obtain c3 initTx oid2 where cr: "createPriceFeed (rowProvider env) (rowSer env) ups (c2, []) = (Inr (), (c3, initTx))"
      and l2: "getPriceFeedObjectId (rowProvider env) f c3 = (Inr oid2, c1)" and t2: "truthy oid2"
      using r by (auto simp: row_create_feed_def run_splits split: prod.splits sum.splits if_splits)
    have "map_get (priceFeedObjectIdCache c3) (replace_first ''0x'' [] f) \<noteq> Some oid2"
      using lookup_falsy[OF l False none] createPriceFeed_cache[OF cr] t2 by auto
    then show ?thesis using find_object[OF l2 t2] assms(3) unfolding object_of_feed_def by auto
  qed
qed

lemma row_prepare_commands:
  assumes "row_prepare site env [] = (Inr oid, tx)"
  shows "balanced tx \<and> updated_objects tx = [ObjectArg (js_string oid)] \<and> truthy oid \<and>
    (\<exists>c'. object_of_feed (rowProvider env) (pyth_client_new (PYTH_STATE_ID site) (WORMHOLE_STATE_ID site)) c'
       (replace_first ''0x'' [] (PYTH_SUI_USD_FEED_ID site)) oid)"
proof -
  let ?f = "replace_first ''0x'' [] (PYTH_SUI_USD_FEED_ID site)" and ?c = "pyth_client_new (PYTH_STATE_ID site) (WORMHOLE_STATE_ID site)"
  from assms obtain ups c1 oids c' where
    s: "s_bind (getPriceFeedObjectId (rowProvider env) ?f) (\<lambda>oid. if truthy oid then s_return () else row_create_feed env ups ?f) ?c = (Inr (), c1)"
    and u: "updatePriceFeeds (rowProvider env) (rowSer env) ups [?f] (c1, []) = (Inr oids, (c', tx))" and oid: "oid = js_first oids"
    by (auto simp: row_prepare_def Let_def split: sum.splits prod.splits)
  from updatePriceFeeds_commands[OF u] obtain v where v: "oids = [v]" "truthy v" "object_of_feed (rowProvider env) c1 c' ?f v"
    and tx: "linear_run 0 {#} tx = Some {#}" "updated_objects tx = [ObjectArg (js_string v)]"
    by (auto simp: list_all2_Cons1)
  have empty: "priceFeedObjectIdCache ?c = []" by (simp add: pyth_client_new_def)
  have "\<exists>c'. object_of_feed (rowProvider env) ?c c' ?f v"
  proof (cases "map_get (priceFeedObjectIdCache c1) (replace_first ''0x'' [] ?f) = Some v")
    case True
    then show ?thesis using row_client[OF s empty True v(2)] by blast
  next
    case False
    then show ?thesis using v(3) unfolding object_of_feed_def by blast
  qed
  then show ?thesis using tx v oid by (simp add: balanced_def js_first_def)
qed

definition row_tail :: "site_env \<Rightarrow> string \<Rightarrow> string \<Rightarrow> string \<Rightarrow> nat \<Rightarrow> transaction" where
  "row_tail site entry sid oid k =
     [MoveCall COIN_ZERO_TARGET [DEEP_TOKEN_TYPE site] [],
      MoveCall (PEACH_PACKAGE_ID site @ entry) [USDC_TYPE site]
        [ObjectArg sid, ObjectArg oid, ObjectArg (DEEPBOOK_SUI_USDC_POOL_ID site), CommandResult k,
         ObjectArg (PEACH_REGISTRY_ID site), ObjectArg SUI_CLOCK_OBJECT_ID]]"

lemma row_tail_closed:
  assumes "entry = ''::peach_stream::claim_stream'' \<or> entry = ''::peach_stream::cancel_stream''"
  shows "linear_run k {#} (row_tail site entry sid oid k) = Some {#}"
proof -
  have z: "signature_of COIN_ZERO_TARGET = ([], 1)" using signatures(6)[of "''0x2''"] by (simp add: COIN_ZERO_TARGET_def)
  show ?thesis using assms by (auto simp: row_tail_def linear_args_def linear_results_def z numeral_3_eq_3)
qed

text \<open>
  What the wallet gets for an entry function: a price update of one object, which is the object of the configured feed, and then the zero coin and the call
  of that function, on the stream and with the object just updated.
\<close>

definition row_signs :: "site_env \<Rightarrow> row_env \<Rightarrow> string \<Rightarrow> string \<Rightarrow> transaction \<Rightarrow> bool" where
  "row_signs site env entry sid tx \<longleftrightarrow>
     (\<exists>upd oid c'. tx = upd @ row_tail site entry sid (js_string oid) (length upd) \<and> updated_objects upd = [ObjectArg (js_string oid)] \<and> truthy oid \<and>
        object_of_feed (rowProvider env) (pyth_client_new (PYTH_STATE_ID site) (WORMHOLE_STATE_ID site)) c'
          (replace_first ''0x'' [] (PYTH_SUI_USD_FEED_ID site)) oid)"

lemma row_action_signs:
  assumes "entry = ''::peach_stream::claim_stream'' \<or> entry = ''::peach_stream::cancel_stream''"
    and "run_row_action site env entry sid f row = (row', Some tx, ok)"
  shows "balanced tx \<and> row_signs site env entry sid tx"
proof -
  from assms(2) have "row_transaction site env entry sid [] = (Inr (), tx)"
    by (auto simp: run_row_action_def split: if_splits prod.splits sum.splits)
  then obtain upd oid where p: "row_prepare site env [] = (Inr oid, upd)" and tx: "tx = upd @ row_tail site entry sid (js_string oid) (length upd)"
    by (auto simp: row_transaction_def s_bind_split move_call_def s_return_def row_tail_def)
  have "balanced tx" using row_prepare_commands[OF p] balanced_append[OF row_tail_closed[OF assms(1)]] by (simp add: tx)
  then show ?thesis using row_prepare_commands[OF p] tx unfolding row_signs_def by blast
qed

text \<open>
  C37.  The claim and the cancel transaction that a row asks the wallet to sign are free of the leftover of the keeper's retry.  Whatever the node and Hermes
  answer, their commands run in order with nothing left over, the verified VAA, the price vectors and the coins included; and they call
  \<^verbatim>\<open>claim_stream\<close>, respectively \<^verbatim>\<open>cancel_stream\<close>, on the stream of the row with the price object they have just updated, which is the object of the
  configured feed in the price table that the node shows.
\<close>

theorem row_transactions_linear:
  "(executeClaimTransaction site env sid row = (row', Some tx, ok) \<longrightarrow> balanced tx \<and> row_signs site env ''::peach_stream::claim_stream'' sid tx) \<and>
   (executeCancelTransaction site env sid row = (row', Some tx, ok) \<longrightarrow> balanced tx \<and> row_signs site env ''::peach_stream::cancel_stream'' sid tx)"
  using row_action_signs[of "''::peach_stream::claim_stream''"] row_action_signs[of "''::peach_stream::cancel_stream''"]
  unfolding executeClaimTransaction_def executeCancelTransaction_def by blast

text \<open>A node that shows a deployed Pyth with its price table and the price object \<open>0xinfo\<close>.\<close>

definition demo_node :: provider where
  "demo_node h req = (case req of
       GetObject _ \<Rightarrow> Inr (state_object ''0xp'' (JStr ''1''))
     | GetDynamicField parent _ _ \<Rightarrow>
         Inr (JObj [(''data'', if parent = ''0xpyth'' then JObj [(''type'', JStr ''0x2::table::Table''), (''objectId'', JStr ''0xtable'')]
           else JObj [(''content'', JObj [(''dataType'', JStr ''moveObject''), (''fields'', JObj [(''value'', JStr ''0xinfo'')])])])]))"

definition demo_row_env :: row_env where
  "demo_row_env = \<lparr>rowProvider = demo_node, rowSer = demo_ser, rowHermes = (\<lambda>_. Inr [to_hex small_message]), rowSign = (\<lambda>_ _. Inr ())\<rparr>"

lemma demo_lookup:
  "getPriceFeedObjectId demo_node ''feed'' (pyth_client_new ''0xpyth'' ''0xworm'') =
     (Inr (JStr ''0xinfo''), snd (getPriceFeedObjectId demo_node ''feed'' (pyth_client_new ''0xpyth'' ''0xworm'')))"
  "feeds_cached (snd (getPriceFeedObjectId demo_node ''feed'' (pyth_client_new ''0xpyth'' ''0xworm''))) [''feed'']"
  "in_sync demo_node ''0xp'' ''0xp'' (JStr ''1'') (snd (getPriceFeedObjectId demo_node ''feed'' (pyth_client_new ''0xpyth'' ''0xworm'')))"
  by (simp_all add: getPriceFeedObjectId_def getPriceTableInfo_def ask_def demo_node_def pyth_client_new_def map_get_def map_set_def
      starts_with_def s_bind_def stateful_defs Let_def get_prop_def feeds_cached_def in_sync_def deployed_def)

lemma demo_row_transaction: "\<exists>tx. row_transaction demo_site demo_row_env entry ''0xs'' [] = (Inr (), tx)"
proof -
  have site: "replace_first ''0x'' [] (PYTH_SUI_USD_FEED_ID demo_site) = ''feed''" "PYTH_STATE_ID demo_site = ''0xpyth''"
    "WORMHOLE_STATE_ID demo_site = ''0xworm''" by (simp_all add: demo_site_def starts_with_def)
  have env: "rowProvider demo_row_env = demo_node" "rowSer demo_row_env = demo_ser" "rowHermes demo_row_env h = Inr [to_hex small_message]" for h
    by (simp_all add: demo_row_env_def)
  define pc where "pc = snd (getPriceFeedObjectId demo_node ''feed'' (pyth_client_new ''0xpyth'' ''0xworm''))"
  note lookup = demo_lookup[folded pc_def]
  obtain c' tx' oids where "updatePriceFeeds demo_node demo_ser [small_message] [''feed''] (pc, []) = (Inr oids, (c', tx'))"
    using update_succeeds[where ser = demo_ser, OF lookup(3,2) small_message_vaa small_message_ser] by blast
  then have "row_prepare demo_site demo_row_env [] = (Inr (js_first oids), tx')"
    by (simp add: row_prepare_def site env Let_def s_bind_def lookup(1) s_return_def)
  then show ?thesis by (auto simp: row_transaction_def s_bind_split move_call_def s_return_def)
qed

definition demo_row :: StreamRow where
  "demo_row = \<lparr>balance = Some 2, hasStarted = True, localWithdrawn = Some 1, progress = Some 0, isProcessing = False\<rparr>"

theorem row_transactions_linear_witness:
  "\<exists>row' row'' tx tx'. executeClaimTransaction demo_site demo_row_env ''0xs'' demo_row = (row', Some tx, True) \<and> balanced tx \<and>
     executeCancelTransaction demo_site demo_row_env ''0xs'' demo_row = (row'', Some tx', True) \<and> balanced tx'"
proof -
  obtain tx tx' where t: "row_transaction demo_site demo_row_env ''::peach_stream::claim_stream'' ''0xs'' [] = (Inr (), tx)"
    "row_transaction demo_site demo_row_env ''::peach_stream::cancel_stream'' ''0xs'' [] = (Inr (), tx')"
    using demo_row_transaction by blast
  have ok: "rowSign demo_row_env n x = Inr ()" "isProcessing demo_row = False" for n x by (simp_all add: demo_row_env_def demo_row_def)
  obtain row' row'' where r: "executeClaimTransaction demo_site demo_row_env ''0xs'' demo_row = (row', Some tx, True)"
    "executeCancelTransaction demo_site demo_row_env ''0xs'' demo_row = (row'', Some tx', True)"
    using t ok by (simp add: executeClaimTransaction_def executeCancelTransaction_def run_row_action_def)
  then show ?thesis using row_transactions_linear[of demo_site demo_row_env "''0xs''" demo_row] by blast
qed

end
