(* ===== verification/Dashboard_View.thy ===== *)
theory Dashboard_View
  imports Stream_View "HOL-Library.Multiset"
begin

section \<open>The dashboard: \<^verbatim>\<open>app/dashboard/page.tsx\<close> and the components that show activity\<close>

text \<open>
  The overview of an account's streams with its figures, the log and the graph of one stream, the feed of new streams, and the notes that pop up.  As in
  \<open>Stream_View\<close>, a React state is a value and an effect a function from the old values to the new ones.
\<close>

subsection \<open>The overview\<close>

record StreamSummary =
  sumId :: json
  sumSender :: json
  sumReceiver :: json
  totalAmount :: jsfloat
  sumStart :: jsfloat
  sumEnd :: jsfloat
  sumStrike :: jsfloat
  sumDirection :: jsfloat
  sumTriggered :: bool
  accumulatedDebt :: jsfloat
  totalHedged :: jsfloat
  remaining :: jsfloat

text \<open>The price of SUI in the answer, if its feed is there; the last one counts.  A missing list leaves the old prices, one that is no list throws.\<close>

fun sui_price :: "string \<Rightarrow> json list \<Rightarrow> jsfloat option \<Rightarrow> jsfloat option" where
  "sui_price feedId [] acc = acc"
| "sui_price feedId (p # ps) acc =
     (let pr = opt_prop ''price'' p
      in sui_price feedId ps (if truthy pr \<and> own_prop ''id'' p = JStr feedId then Some (price_usd pr) else acc))"

definition dashboard_fetch_prices :: "string \<Rightarrow> http_response outcome \<Rightarrow> jsfloat option \<Rightarrow> jsfloat option" where
  "dashboard_fetch_prices feed res old =
     (case res of
        Inl e \<Rightarrow> old
      | Inr r \<Rightarrow>
          if \<not> respOk r then old
          else (case respBody r of
                  Inl e \<Rightarrow> old
                | Inr body \<Rightarrow> (case opt_prop ''parsed'' body of JArr ps \<Rightarrow> sui_price (replace_first ''0x'' [] feed) ps None | _ \<Rightarrow> old)))"

definition summary_of :: "json \<Rightarrow> StreamSummary outcome" where
  "summary_of f =
     e_bind (get_prop ''id'' (own_prop ''id'' f)) (\<lambda>sid.
     Inr \<lparr>sumId = sid, sumSender = own_prop ''sender'' f, sumReceiver = own_prop ''receiver'' f,
          totalAmount = f_div (json_float (own_prop ''total_amount'' f)) (Some 1000000000),
          sumStart = json_float (own_prop ''start_time'' f), sumEnd = json_float (own_prop ''end_time'' f),
          sumStrike = f_div (json_float (own_prop ''strike_price'' f)) (Some 100000000),
          sumDirection = json_float (own_prop ''hedge_direction'' f), sumTriggered = (own_prop ''hedge_triggered'' f = JBool True),
          accumulatedDebt = f_div (json_float (own_prop ''accumulated_hedge_debt'' f)) (Some 1000000000),
          totalHedged = f_div (json_float (own_prop ''total_hedged_amount'' f)) (Some 1000000000),
          remaining = f_div (json_float (own_prop ''balance'' f)) (Some 1000000000)\<rparr>)"

fun summaries :: "json list \<Rightarrow> StreamSummary list outcome" where
  "summaries [] = Inr []"
| "summaries (obj # objs) =
     e_bind (get_prop ''data'' obj) (\<lambda>d.
     let ct = opt_prop ''content'' d in
     if opt_prop ''dataType'' ct = JStr ''moveObject''
     then e_bind (summary_of (own_prop ''fields'' ct)) (\<lambda>s. e_bind (summaries objs) (\<lambda>ss. Inr (s # ss)))
     else summaries objs)"

text \<open>The effect: without events or an account nothing is loaded; a failed request leaves the list as it was.\<close>

definition dashboard_load :: "string option \<Rightarrow> (json list \<Rightarrow> json list outcome) \<Rightarrow> json list option \<Rightarrow> StreamSummary list \<Rightarrow> StreamSummary list" where
  "dashboard_load account multiGetObjects created shown =
     (case (created, account) of
        (Some evts, Some address) \<Rightarrow>
          (let ids = user_stream_ids address evts
           in if ids = [] then []
              else (case e_bind (multiGetObjects ids) summaries of Inl e \<Rightarrow> shown | Inr ss \<Rightarrow> ss))
      | _ \<Rightarrow> shown)"

subsection \<open>Figures\<close>

definition totalVolume :: "StreamSummary list \<Rightarrow> jsfloat" where
  "totalVolume ss = foldl (\<lambda>a s. f_add a (totalAmount s)) (Some 0) ss"

definition protectedCount :: "StreamSummary list \<Rightarrow> nat" where
  "protectedCount ss = length (filter (\<lambda>s. sumDirection s \<noteq> Some 2) ss)"

definition hedgeFiredCount :: "json list option \<Rightarrow> nat" where
  "hedgeFiredCount evts = (case evts of None \<Rightarrow> 0 | Some es \<Rightarrow> length es)"

definition totalHedgedSui :: "json list option \<Rightarrow> jsfloat" where
  "totalHedgedSui evts =
     (case evts of
        None \<Rightarrow> Some 0
      | Some es \<Rightarrow>
          foldl (\<lambda>acc e. let x = own_prop ''sui_swapped'' (own_prop ''parsedJson'' e)
                          in f_add acc (f_div (json_float (if truthy x then x else JNum 0)) (Some 1000000000))) (Some 0) es)"

definition totalAccumulatedDebt :: "StreamSummary list \<Rightarrow> jsfloat" where
  "totalAccumulatedDebt ss = foldl (\<lambda>a s. f_add a (accumulatedDebt s)) (Some 0) ss"

definition outboundCount :: "string \<Rightarrow> StreamSummary list \<Rightarrow> nat" where
  "outboundCount address ss = length (filter (\<lambda>s. sumSender s = JStr address) ss)"

definition inboundCount :: "string \<Rightarrow> StreamSummary list \<Rightarrow> nat" where
  "inboundCount address ss = length (filter (\<lambda>s. sumReceiver s = JStr address) ss)"

definition hedgeDirectionLabel :: "jsfloat \<Rightarrow> string" where
  "hedgeDirectionLabel d = (if d = Some 0 then ''Floor'' else if d = Some 1 then ''Ceiling'' else ''None'')"

definition metric_strip :: "string \<Rightarrow> jsfloat option \<Rightarrow> json list option \<Rightarrow> StreamSummary list \<Rightarrow> (string \<times> string option) list" where
  "metric_strip address sui hedges ss =
     [(f_to_fixed 2 (totalVolume ss) @ '' SUI'',
       (case sui of Some (Some p) \<Rightarrow> if p = 0 then None else Some (''$'' @ f_to_fixed 2 (f_mul (totalVolume ss) (Some p)) @ '' USD'') | _ \<Rightarrow> None)),
      (show_nat (length ss), Some (show_nat (outboundCount address ss) @ '' out / '' @ show_nat (inboundCount address ss) @ '' in'')),
      (show_nat (protectedCount ss),
       Some (if f_less (Some 0) (totalAccumulatedDebt ss) then f_to_fixed 4 (totalAccumulatedDebt ss) @ '' SUI buffered'' else ''All clear'')),
      (show_nat (hedgeFiredCount hedges),
       Some (if f_less (Some 0) (totalHedgedSui hedges) then f_to_fixed 2 (totalHedgedSui hedges) @ '' SUI swapped'' else ''No hedges yet''))]"

definition summary_progress :: "int \<Rightarrow> StreamSummary \<Rightarrow> jsfloat" where
  "summary_progress now s =
     f_min (Some 100) (f_max0 (f_mul (f_div (f_sub (Some (of_int now)) (sumStart s)) (f_sub (sumEnd s) (sumStart s))) (Some 100)))"

subsection \<open>The log of a stream: \<^verbatim>\<open>StreamActivityLogs.tsx\<close>\<close>

record activity =
  actId :: string
  actType :: string
  actTime :: jsnum
  actJson :: json
  actDigest :: "string option"

text \<open>An event of the node belongs to the stream when its payload names it.\<close>

definition chain_activity :: "string \<Rightarrow> json \<Rightarrow> activity option outcome" where
  "chain_activity sid e =
     e_bind (get_prop ''parsedJson'' e) (\<lambda>parsed.
     if opt_prop ''stream_id'' parsed = JStr sid
     then e_bind (get_prop ''txDigest'' (own_prop ''id'' e)) (\<lambda>digest.
       Inr (Some \<lparr>actId = js_string digest @ js_string (own_prop ''eventSeq'' (own_prop ''id'' e)), actType = js_string (own_prop ''type'' e),
         actTime = to_number (own_prop ''timestampMs'' e), actJson = parsed, actDigest = Some (js_string digest)\<rparr>))
     else Inr None)"

definition synthetic :: "string \<Rightarrow> string \<Rightarrow> string \<Rightarrow> int \<Rightarrow> activity" where
  "synthetic i t sid ms = \<lparr>actId = i @ sid, actType = t, actTime = Num ms, actJson = JObj [], actDigest = None\<rparr>"

text \<open>The newest first, a stable sort; the node's times are numbers.\<close>

definition time_key :: "activity \<Rightarrow> int" where
  "time_key a = (case actTime a of Num t \<Rightarrow> - t | NaN \<Rightarrow> 0)"

definition all_events :: "string \<Rightarrow> int \<Rightarrow> int \<Rightarrow> int \<Rightarrow> json list option \<Rightarrow> activity list outcome" where
  "all_events sid startMs endMs now data =
     e_bind (e_map (chain_activity sid) (case data of None \<Rightarrow> [] | Some es \<Rightarrow> es)) (\<lambda>acts.
     Inr (sort_key time_key
       (concat (map (\<lambda>a. case a of None \<Rightarrow> [] | Some x \<Rightarrow> [x]) acts)
        @ (if startMs \<le> now then [synthetic ''synthetic-start-'' ''SyntheticStreamStarted'' sid startMs] else [])
        @ (if endMs \<le> now then [synthetic ''synthetic-end-'' ''SyntheticStreamEnded'' sid endMs] else []))))"

text \<open>How many entries at the top are new, for the animation.\<close>

definition new_items :: "nat \<Rightarrow> activity list \<Rightarrow> nat" where
  "new_items previousEventCount evts = (if previousEventCount < length evts then length evts - previousEventCount else 0)"

text \<open>
  A description is the list of its parts: text, a number with a fixed number of digits, a number as it is printed, and a prefix of the JSON text.  The arrow
  between the two amounts of a tranche is written in ASCII.
\<close>

datatype part = Lit string | Fixed nat jsfloat | Plain jsfloat | JsonPrefix json nat

record event_details =
  evTitle :: string
  evDesc :: "part list"

definition amount_of :: "string \<Rightarrow> rat \<Rightarrow> json \<Rightarrow> jsfloat" where
  "amount_of k unit j = f_div (json_float (own_prop k j)) (Some unit)"

definition renderEventDetails :: "string \<Rightarrow> json \<Rightarrow> event_details" where
  "renderEventDetails t j =
     (if t = ''SyntheticStreamStarted'' then \<lparr>evTitle = ''Streaming Started'', evDesc = [Lit ''Tokens began streaming to receiver.'']\<rparr>
      else if t = ''SyntheticStreamEnded'' then \<lparr>evTitle = ''Streaming Ended'', evDesc = [Lit ''Stream duration completed.'']\<rparr>
      else if str_includes ''StreamCreated'' t
        then \<lparr>evTitle = ''Stream Initialized'', evDesc = [Fixed 2 (amount_of ''total_amount'' 1000000000 j), Lit '' SUI locked in escrow.'']\<rparr>
      else if str_includes ''StreamClaimed'' t
        then \<lparr>evTitle = ''Claim Executed'', evDesc = [Fixed 4 (amount_of ''sui_claimed'' 1000000000 j), Lit '' SUI / '', Fixed 2 (amount_of ''usdc_claimed'' 1000000 j), Lit '' USDC'']\<rparr>
      else if str_includes ''GlobalHedgeInitiated'' t \<or> str_includes ''HedgeTriggered'' t
        then \<lparr>evTitle = ''Market Breach Detected'', evDesc = [Lit ''Hedge triggered at $'',
          Plain (f_div (json_float (if truthy (own_prop ''trigger_price'' j) then own_prop ''trigger_price'' j else own_prop ''spot_price'' j)) (Some 100000000))]\<rparr>
      else if str_includes ''TWAPTrancheExecuted'' t
        then \<lparr>evTitle = ''TWAP Tranche '' @ js_string (own_prop ''tranche_number'' j), evDesc = [Lit ''Swapped '', Fixed 2 (amount_of ''sui_swapped'' 1000000000 j),
          Lit '' SUI -> '', Fixed 2 (amount_of ''usdc_received'' 1000000 j), Lit '' USDC'']\<rparr>
      else if str_includes ''StreamCanceled'' t then \<lparr>evTitle = ''Stream Canceled'', evDesc = [Lit ''Funds returned to treasury and receiver.'']\<rparr>
      else if str_includes ''StreamCompleted'' t then \<lparr>evTitle = ''Stream Completed'', evDesc = [Lit ''100% of tokens successfully claimed.'']\<rparr>
      else if str_includes ''HedgeDebtAccumulated'' t
        then \<lparr>evTitle = ''Hedge Debt Buffered'', evDesc = [Lit ''Accumulated '', Fixed 4 (amount_of ''amount_buffered'' 1000000000 j), Lit '' SUI in debt.'']\<rparr>
      else \<lparr>evTitle = ''Unknown Event'', evDesc = [JsonPrefix j 30, Lit ''...'']\<rparr>)"

definition short_hash :: "string \<Rightarrow> string" where
  "short_hash digest = take 6 digest @ ''...'' @ drop (length digest - 4) digest"

definition explorer_link :: "string \<Rightarrow> string" where
  "explorer_link digest = ''https://testnet.suivision.xyz/txblock/'' @ digest"

subsection \<open>The graph of a stream: \<^verbatim>\<open>StreamActivityGraph.tsx\<close>\<close>

record graph_point =
  pointTime :: nat
  pointPrice :: jsfloat
  lowerBand :: jsfloat
  upperBand :: jsfloat

text \<open>Every point takes a random number for its band, every one but the first another one for its price.\<close>

definition graph_point_of :: "rat \<Rightarrow> nat \<Rightarrow> jsfloat \<Rightarrow> graph_point" where
  "graph_point_of r i p =
     (let iv = f_add (Some (fl (15 / 1000))) (f_mul (Some r) (Some (fl (1 / 100))))
      in \<lparr>pointTime = i, pointPrice = p, lowerBand = f_mul p (f_sub (Some 1) iv), upperBand = f_mul p (f_add (Some 1) iv)\<rparr>)"

fun random_walk :: "(nat \<Rightarrow> rat) \<Rightarrow> jsfloat \<Rightarrow> nat \<Rightarrow> nat \<Rightarrow> jsfloat \<Rightarrow> graph_point list" where
  "random_walk rnd spot i 0 pr = []"
| "random_walk rnd spot i (Suc n) pr =
     (let change = f_mul (f_mul spot (Some (fl (6 / 1000)))) (f_sub (Some (rnd (2 * i))) (Some (1 / 2)));
          pr1 = (if i = 0 then pr else f_sub pr change)
      in graph_point_of (rnd (2 * i + 1)) i (if i = 0 then spot else pr1) # random_walk rnd spot (Suc i) n pr1)"

definition graph_data :: "(nat \<Rightarrow> rat) \<Rightarrow> jsfloat \<Rightarrow> graph_point list" where
  "graph_data rnd spot =
     (if spot = None \<or> spot = Some 0 then [] else rev (random_walk rnd spot 0 40 spot))"

definition finite_nonzero :: "jsfloat \<Rightarrow> bool" where
  "finite_nonzero x \<longleftrightarrow> x \<noteq> None \<and> x \<noteq> Some 0"

text \<open>The price and the direction of a stream may be missing.\<close>

definition strike_distance :: "jsfloat option \<Rightarrow> jsfloat \<Rightarrow> jsfloat" where
  "strike_distance strike spot =
     (case strike of
        Some s \<Rightarrow> if finite_nonzero s \<and> finite_nonzero spot then f_abs (f_mul (f_div (f_sub spot s) spot) (Some 100)) else Some 0
      | None \<Rightarrow> Some 0)"

definition graph_triggered :: "jsfloat option \<Rightarrow> jsfloat option \<Rightarrow> jsfloat \<Rightarrow> bool" where
  "graph_triggered strike direction spot =
     (case strike of
        Some s \<Rightarrow>
          finite_nonzero s \<and> direction \<noteq> Some (Some 2) \<and> finite_nonzero spot \<and>
          (direction = Some (Some 0) \<and> f_le spot s \<or> direction = Some (Some 1) \<and> f_le s spot)
      | None \<Rightarrow> False)"

subsection \<open>New streams and notes: \<^verbatim>\<open>MicroPremiumLedger.tsx\<close>, \<^verbatim>\<open>ToastProvider.tsx\<close>\<close>

definition premium_sui :: "json \<Rightarrow> string" where
  "premium_sui j = f_to_fixed 3 (f_div (f_mul (json_float (own_prop ''total_amount'' j)) (Some (fl (1 / 100)))) (Some 1000000000))"

datatype toast_type = Success | Error | Warning | Info

record toast =
  toastId :: string
  toastMessage :: string
  toastType :: toast_type

definition show_toast :: "string \<Rightarrow> string \<Rightarrow> toast_type option \<Rightarrow> toast list \<Rightarrow> toast list" where
  "show_toast i msg t toasts = toasts @ [\<lparr>toastId = i, toastMessage = msg, toastType = (case t of None \<Rightarrow> Info | Some x \<Rightarrow> x)\<rparr>]"

definition removeToast :: "string \<Rightarrow> toast list \<Rightarrow> toast list" where
  "removeToast i toasts = filter (\<lambda>t. toastId t \<noteq> i) toasts"

subsection \<open>Properties\<close>

definition log_entries :: "string \<Rightarrow> int \<Rightarrow> int \<Rightarrow> int \<Rightarrow> activity option list \<Rightarrow> activity list" where
  "log_entries sid startMs endMs now chain =
     concat (map (\<lambda>a. case a of None \<Rightarrow> [] | Some x \<Rightarrow> [x]) chain)
     @ (if startMs \<le> now then [synthetic ''synthetic-start-'' ''SyntheticStreamStarted'' sid startMs] else [])
     @ (if endMs \<le> now then [synthetic ''synthetic-end-'' ''SyntheticStreamEnded'' sid endMs] else [])"

text \<open>
  The log of a stream has exactly the events of the node that name the stream, and an entry for the start and the end when these have passed; the newest come
  first, and entries of the same time keep the order of the node.
\<close>

theorem activity_log_spec:
  assumes "all_events sid startMs endMs now (Some es) = Inr acts"
  shows "\<exists>chain. e_map (chain_activity sid) es = Inr chain \<and> mset acts = mset (log_entries sid startMs endMs now chain) \<and> sorted (map time_key acts) \<and>
    (\<forall>t. filter (\<lambda>a. time_key a = t) acts = filter (\<lambda>a. time_key a = t) (log_entries sid startMs endMs now chain))"
proof -
  obtain chain where "e_map (chain_activity sid) es = Inr chain" "acts = sort_key time_key (log_entries sid startMs endMs now chain)"
    using assms by (auto simp: all_events_def log_entries_def e_bind_Inr_iff)
  moreover have "filter (\<lambda>a. time_key a = t) (sort_key time_key xs) = filter (\<lambda>a. time_key a = t) xs" for t xs
    using sort_key_stable[of time_key t xs] by (simp add: eq_commute)
  ultimately show ?thesis by simp
qed

text \<open>A stream an account pays to itself is counted in both directions.\<close>

lemma direction_counts:
  assumes "list_all (\<lambda>s. sumSender s = JStr a \<or> sumReceiver s = JStr a) ss"
  shows "outboundCount a ss + inboundCount a ss = length ss + length (filter (\<lambda>s. sumSender s = JStr a \<and> sumReceiver s = JStr a) ss)"
  using assms by (induction ss) (auto simp: outboundCount_def inboundCount_def)

lemma progress_bounds:
  assumes "sumStart s = Some (of_int a)" "sumEnd s = Some (of_int b)" "a \<noteq> b" "\<bar>b - a\<bar> < 2 ^ 53"
  shows "\<exists>p. summary_progress now s = Some p \<and> 0 \<le> p \<and> p \<le> 100"
proof -
  have "fl (of_int b - of_int a) = of_int (b - a)" using fl_of_int[OF assms(4)] by simp
  then have "fl (of_int b - of_int a) \<noteq> 0" using assms(3) by simp
  then show ?thesis
    by (simp add: summary_progress_def assms(1,2) f_sub_def f_div_def f_mul_def min_def max_def)
qed

text \<open>The graph ends at the spot price and is otherwise random: what it shows as the past is made up.\<close>

lemma random_walk_length: "length (random_walk rnd spot i n p) = n"
  by (induction n arbitrary: i p) (simp_all add: Let_def)

lemma graph_ends_at_spot:
  assumes "finite_nonzero spot"
  shows "length (graph_data rnd spot) = 40 \<and> pointPrice (last (graph_data rnd spot)) = spot"
proof -
  have "random_walk rnd spot 0 (Suc n) spot = graph_point_of (rnd 1) 0 spot # random_walk rnd spot (Suc 0) n spot" for n by (simp add: Let_def)
  from this[of 39] have "random_walk rnd spot 0 40 spot = graph_point_of (rnd 1) 0 spot # random_walk rnd spot (Suc 0) 39 spot" by simp
  then obtain q qs where q: "random_walk rnd spot 0 40 spot = q # qs" "pointPrice q = spot" by (simp add: graph_point_of_def Let_def)
  then show ?thesis
    using assms random_walk_length[of rnd spot 0 40 spot] by (auto simp: graph_data_def finite_nonzero_def simp del: random_walk.simps)
qed

text \<open>
  The badge of the graph and the row's prediction agree except when the price is exactly the strike: there the badge says that hedging is active,
  although the row, the keeper and the contract hedge only beyond it.
\<close>

lemma badge_at_strike:
  assumes "0 < q" "0 < s" "cfgStrikePrice cfg = Some s" "cfgHedgeDirection cfg = Some d"
  shows "graph_triggered (Some (Some s)) (Some (Some d)) (Some q) \<longleftrightarrow> snd (row_risk cfg (Some q)) \<or> (q = s \<and> (d = 0 \<or> d = 1))"
  using assms by (auto simp: graph_triggered_def finite_nonzero_def row_risk_def Let_def)

lemma badge_before_breach:
  "graph_triggered (Some (Some 3)) (Some (Some 0)) (Some 3) \<and> \<not> strike_crossed 300000000 (emptyStreamState sid\<lparr>strikePrice := 300000000, hedgeDirection := Num 0\<rparr>)"
  by (simp add: graph_triggered_def finite_nonzero_def strike_crossed.simps)

lemma toast_disappears: "i \<notin> toastId ` set ts \<Longrightarrow> removeToast i (show_toast i m t ts) = ts"
  by (auto simp: removeToast_def show_toast_def intro!: filter_True)

end
