(* ===== verification/Unicode_Text.thy ===== *)
theory Unicode_Text
  imports Buffers
begin

section \<open>Text and its UTF-8 bytes\<close>

text \<open>
  Token names and addresses of resources may hold any character, so they are lists of Unicode scalar values
  here.  \<open>utf8_text\<close> is \<^verbatim>\<open>buf.toString()\<close>: the decoder of the encoding standard, which puts
  U+FFFD for every maximal part that is not UTF-8.  \<open>utf8_bytes\<close> is \<^verbatim>\<open>Buffer.from(s)\<close>, and
  \<open>utf16_length\<close> is \<^verbatim>\<open>s.length\<close>, which counts code units and not bytes.
\<close>

type_synonym text_t = "nat list"

definition scalar :: "nat \<Rightarrow> bool" where
  "scalar c \<longleftrightarrow> c < 0xD800 \<or> (0xE000 \<le> c \<and> c < 0x110000)"

definition utf8_char :: "nat \<Rightarrow> nat list" where
  "utf8_char c =
     (if c < 0x80 then [c]
      else if c < 0x800 then [0xC0 + c div 64, 0x80 + c mod 64]
      else if c < 0x10000 then [0xE0 + c div 4096, 0x80 + c div 64 mod 64, 0x80 + c mod 64]
      else [0xF0 + c div 262144, 0x80 + c div 4096 mod 64, 0x80 + c div 64 mod 64, 0x80 + c mod 64])"

definition utf8_bytes :: "text_t \<Rightarrow> bytes" where
  "utf8_bytes s = map word_of_nat (concat (map utf8_char s))"

definition utf16_length :: "text_t \<Rightarrow> nat" where
  "utf16_length s = sum_list (map (\<lambda>c. if c < 0x10000 then 1 else 2) s)"

text \<open>
  The state of the decoder: how many bytes are still needed, the bits so far, and the range the next byte must
  lie in.
\<close>

definition utf8_lead :: "nat \<Rightarrow> nat list \<times> nat \<times> nat \<times> nat \<times> nat" where
  "utf8_lead n =
     (if n < 0x80 then ([n], 0, 0, 0, 0)
      else if 0xC2 \<le> n \<and> n \<le> 0xDF then ([], 1, n - 0xC0, 0x80, 0xBF)
      else if 0xE0 \<le> n \<and> n \<le> 0xEF
      then ([], 2, n - 0xE0, if n = 0xE0 then 0xA0 else 0x80, if n = 0xED then 0x9F else 0xBF)
      else if 0xF0 \<le> n \<and> n \<le> 0xF4
      then ([], 3, n - 0xF0, if n = 0xF0 then 0x90 else 0x80, if n = 0xF4 then 0x8F else 0xBF)
      else ([0xFFFD], 0, 0, 0, 0))"

fun utf8_go :: "nat \<Rightarrow> nat \<Rightarrow> nat \<Rightarrow> nat \<Rightarrow> nat list \<Rightarrow> text_t" where
  "utf8_go k cp lo hi [] = (if k = 0 then [] else [0xFFFD])"
| "utf8_go k cp lo hi (n # ns) =
     (if 0 < k \<and> lo \<le> n \<and> n \<le> hi
      then (let cp' = cp * 64 + (n - 0x80)
            in if k = 1 then cp' # utf8_go 0 0 0 0 ns else utf8_go (k - 1) cp' 0x80 0xBF ns)
      else (case utf8_lead n of (out, k', cp', lo', hi') \<Rightarrow>
              (if k = 0 then [] else [0xFFFD]) @ out @ utf8_go k' cp' lo' hi' ns))"

definition utf8_text :: "bytes \<Rightarrow> text_t" where
  "utf8_text bs = utf8_go 0 0 0 0 (map unat bs)"

text \<open>\<^verbatim>\<open>s.replace(/\0/g, "")\<close>\<close>

definition strip_nul :: "text_t \<Rightarrow> text_t" where
  "strip_nul s = filter (\<lambda>c. c \<noteq> 0) s"

subsection \<open>Decoding what was encoded\<close>

lemma base64: "c = c div 64 * 64 + c mod 64" for c :: nat
  by simp

lemma go_char:
  assumes "scalar c"
  shows "utf8_go 0 0 0 0 (utf8_char c @ ns) = c # utf8_go 0 0 0 0 ns"
proof -
  consider "c < 0x80" | "0x80 \<le> c" "c < 0x800" | "0x800 \<le> c" "c < 0x10000" | "0x10000 \<le> c" "c < 0x110000"
    using assms unfolding scalar_def by linarith
  then show ?thesis
  proof cases
    case 1
    then show ?thesis by (simp add: utf8_char_def utf8_lead_def)
  next
    case 2
    then have "2 \<le> c div 64" "c div 64 < 32" by linarith+
    with 2 show ?thesis by (simp add: utf8_char_def utf8_lead_def)
  next
    case 3
    define a b where "a = c div 4096" and "b = c div 64 mod 64"
    have c: "c = (a * 64 + b) * 64 + c mod 64" using base64[of c] base64[of "c div 64"] by (simp add: a_def b_def div_mult2_eq[symmetric])
    have a: "a < 16" using 3 by (simp add: a_def)
    have b: "b \<le> 63" "c mod 64 \<le> 63" by (simp_all add: b_def less_Suc_eq_le[symmetric])
    have lo: "a = 0 \<Longrightarrow> 32 \<le> b" using 3 c by (simp add: a_def b_def; linarith)
    have hi: "a = 13 \<Longrightarrow> b \<le> 31" using 3 c assms unfolding scalar_def by (simp add: a_def b_def; linarith)
    show ?thesis
      using 3 a b lo hi c[symmetric] by (simp add: utf8_char_def utf8_lead_def a_def[symmetric] b_def[symmetric] Let_def)
  next
    case 4
    define a b d where "a = c div 262144" and "b = c div 4096 mod 64" and "d = c div 64 mod 64"
    have c: "c = ((a * 64 + b) * 64 + d) * 64 + c mod 64"
      using base64[of c] base64[of "c div 64"] base64[of "c div 4096"] by (simp add: a_def b_def d_def div_mult2_eq[symmetric])
    have a: "a < 5" using 4 by (simp add: a_def; linarith)
    have b: "b \<le> 63" "d \<le> 63" "c mod 64 \<le> 63" by (simp_all add: b_def d_def less_Suc_eq_le[symmetric])
    have lo: "a = 0 \<Longrightarrow> 16 \<le> b" using 4 c by (simp add: a_def b_def; linarith)
    have hi: "a = 4 \<Longrightarrow> b \<le> 15" using 4 c by (simp add: a_def b_def; linarith)
    show ?thesis
      using 4 a b lo hi c[symmetric] by (simp add: utf8_char_def utf8_lead_def a_def[symmetric] b_def[symmetric] d_def[symmetric] Let_def)
  qed
qed

lemma go_chars: "list_all scalar s \<Longrightarrow> utf8_go 0 0 0 0 (concat (map utf8_char s) @ ns) = s @ utf8_go 0 0 0 0 ns"
  by (induction s) (simp_all add: go_char)

lemma utf8_char_byte: "scalar c \<Longrightarrow> n \<in> set (utf8_char c) \<Longrightarrow> n < 256"
  by (auto simp: utf8_char_def scalar_def split: if_splits)

lemma unat_utf8_bytes: "list_all scalar s \<Longrightarrow> map unat (utf8_bytes s) = concat (map utf8_char s)"
  unfolding utf8_bytes_def map_map
  by (rule map_idI) (auto simp: list_all_iff unat_byte_of_nat intro!: mod_less dest: utf8_char_byte)

lemma utf8_text_bytes [simp]: "list_all scalar s \<Longrightarrow> utf8_text (utf8_bytes s) = s"
  using go_chars[of s "[]"] by (simp add: utf8_text_def unat_utf8_bytes)

lemma go_zeros: "utf8_go 0 0 0 0 (replicate k 0 @ ns) = replicate k 0 @ utf8_go 0 0 0 0 ns"
  by (induction k) (simp_all add: utf8_lead_def)

text \<open>A name of at most 32 bytes, filled up with zero bytes in front or behind, is read back.\<close>

lemma name_padded_front:
  "list_all scalar s \<Longrightarrow> 0 \<notin> set s \<Longrightarrow> strip_nul (utf8_text (replicate k 0 @ utf8_bytes s)) = s"
  using go_chars[of s "[]"]
  by (simp add: utf8_text_def unat_utf8_bytes go_zeros strip_nul_def filter_id_conv) (metis gr0I)

lemma name_padded_behind:
  "list_all scalar s \<Longrightarrow> 0 \<notin> set s \<Longrightarrow> strip_nul (utf8_text (utf8_bytes s @ replicate k 0)) = s"
  using go_zeros[of k "[]"]
  by (simp add: utf8_text_def unat_utf8_bytes go_chars strip_nul_def filter_id_conv) (metis gr0I)

lemma utf8_bytes_length: "length (utf8_bytes s) = sum_list (map (length \<circ> utf8_char) s)"
  by (simp add: utf8_bytes_def length_concat)

lemma utf16_le_utf8: "utf16_length s \<le> length (utf8_bytes s)"
  by (induction s) (auto simp: utf16_length_def utf8_bytes_length utf8_char_def)

text \<open>The two lengths agree exactly on ASCII text.\<close>

lemma lengths_agree_iff: "utf16_length s = length (utf8_bytes s) \<longleftrightarrow> list_all (\<lambda>c. c < 0x80) s"
proof (induction s)
  case Nil
  then show ?case by (simp add: utf16_length_def utf8_bytes_def)
next
  case (Cons c s)
  have "length (utf8_bytes (c # s)) = length (utf8_char c) + length (utf8_bytes s)"
    "utf16_length (c # s) = (if c < 0x10000 then 1 else 2) + utf16_length s"
    by (simp_all add: utf8_bytes_length utf16_length_def)
  then show ?case using Cons.IH utf16_le_utf8[of s] by (auto simp: utf8_char_def)
qed

end
