(* ===== verification/Wormhole_Vaa.thy ===== *)
theory Wormhole_Vaa
  imports Unicode_Text
begin

section \<open>Signed messages: \<^verbatim>\<open>sdk/js/src/vaa\<close>\<close>

text \<open>
  The parsers of the Wormhole SDK that read a signed message (VAA) and its payloads at fixed offsets of a
  \<^verbatim>\<open>Buffer\<close>.  \<^verbatim>\<open>buf[i]\<close> past the end is \<^verbatim>\<open>undefined\<close>, \<^verbatim>\<open>subarray\<close> is cut short there, and
  \<^verbatim>\<open>readUInt..BE\<close> throws.  The hash and \<^verbatim>\<open>new BN(bytes)\<close> are third-party code, the parameters \<open>keccak256\<close>
  and \<open>bn\<close>.  An interface that extends two others is a pair of their records.
\<close>

named_theorems layout \<open>reading a field of a buffer that is a concatenation of fields\<close>

definition buf_at :: "bytes \<Rightarrow> nat \<Rightarrow> byte option" where
  "buf_at buf i = (if i < length buf then Some (buf ! i) else None)"

subsection \<open>The envelope: \<^verbatim>\<open>wormhole.ts\<close>\<close>

record GuardianSignature =
  gsIndex :: "byte option"
  gsSignature :: bytes

record ParsedVaa =
  vaaVersion :: "byte option"
  guardianSetIndex :: nat
  guardianSignatures :: "GuardianSignature list"
  vaaTimestamp :: nat
  vaaNonce :: nat
  emitterChain :: nat
  emitterAddress :: bytes
  vaaSequence :: nat
  consistencyLevel :: "byte option"
  vaaPayload :: bytes
  vaaHash :: bytes

definition read_signature :: "bytes \<Rightarrow> nat \<Rightarrow> GuardianSignature" where
  "read_signature signedVaa i =
     (let start = 6 + i * 66 in \<lparr>gsIndex = buf_at signedVaa start, gsSignature = subarray signedVaa (start + 1) (start + 66)\<rparr>)"

text \<open>
  When there is no byte for the number of signers the loop does not run and the body starts at \<^verbatim>\<open>NaN\<close>, that is at 0.
\<close>

definition vaa_body_of :: "bytes \<Rightarrow> bytes" where
  "vaa_body_of signedVaa = (case buf_at signedVaa 5 of None \<Rightarrow> signedVaa | Some n \<Rightarrow> drop (6 + 66 * unat n) signedVaa)"

definition parseVaa :: "(bytes \<Rightarrow> bytes) \<Rightarrow> bytes \<Rightarrow> ParsedVaa outcome" where
  "parseVaa keccak256 signedVaa =
     (let sigs = (case buf_at signedVaa 5 of None \<Rightarrow> [] | Some n \<Rightarrow> map (read_signature signedVaa) [0..<unat n]);
          body = vaa_body_of signedVaa
      in e_bind (read_be 4 signedVaa 1) (\<lambda>gsi.
         e_bind (read_be 4 body 0) (\<lambda>ts.
         e_bind (read_be 4 body 4) (\<lambda>n.
         e_bind (read_be 2 body 8) (\<lambda>chain.
         e_bind (read_be 8 body 42) (\<lambda>sq.
         Inr \<lparr>vaaVersion = buf_at signedVaa 0, guardianSetIndex = gsi, guardianSignatures = sigs, vaaTimestamp = ts, vaaNonce = n,
              emitterChain = chain, emitterAddress = subarray body 10 42, vaaSequence = sq, consistencyLevel = buf_at body 50,
              vaaPayload = drop 51 body, vaaHash = keccak256 body\<rparr>))))))"

subsection \<open>Governance: \<^verbatim>\<open>governance.ts\<close>\<close>

record Governance =
  govModule :: text_t
  govAction :: nat
  govChain :: nat
  orderPayload :: bytes

definition parseGovernancePayload :: "bytes \<Rightarrow> Governance outcome" where
  "parseGovernancePayload payload =
     e_bind (read_be 1 payload 32) (\<lambda>a.
     e_bind (read_be 2 payload 33) (\<lambda>chain.
     Inr \<lparr>govModule = strip_nul (utf8_text (subarray payload 0 32)), govAction = a, govChain = chain, orderPayload = drop 35 payload\<rparr>))"

definition parseGovernanceVaa :: "(bytes \<Rightarrow> bytes) \<Rightarrow> bytes \<Rightarrow> (ParsedVaa \<times> Governance) outcome" where
  "parseGovernanceVaa keccak256 vaa =
     e_bind (parseVaa keccak256 vaa) (\<lambda>parsed. e_bind (parseGovernancePayload (vaaPayload parsed)) (\<lambda>g. Inr (parsed, g)))"

subsection \<open>The token bridge: \<^verbatim>\<open>tokenBridge.ts\<close>\<close>

definition payload_transfer :: nat where
  "payload_transfer = 1"

definition payload_attest_meta :: nat where
  "payload_attest_meta = 2"

definition payload_transfer_with_payload :: nat where
  "payload_transfer_with_payload = 3"

definition action_register_chain :: nat where
  "action_register_chain = 1"

definition action_upgrade_contract :: nat where
  "action_upgrade_contract = 2"

record TokenTransfer =
  ttPayloadType :: nat
  ttAmount :: nat
  ttTokenAddress :: bytes
  ttTokenChain :: nat
  ttTo :: bytes
  ttToChain :: nat
  ttFee :: "nat option"
  ttFromAddress :: "bytes option"
  tokenTransferPayload :: bytes

definition parseTokenTransferPayload :: "(bytes \<Rightarrow> nat) \<Rightarrow> bytes \<Rightarrow> TokenTransfer outcome" where
  "parseTokenTransferPayload bn payload =
     e_bind (read_be 1 payload 0) (\<lambda>payloadType.
     if payloadType \<noteq> payload_transfer \<and> payloadType \<noteq> payload_transfer_with_payload
     then Inl (mk_error ''not token bridge transfer VAA'')
     else
       e_bind (read_be 2 payload 65) (\<lambda>tokenChain.
       e_bind (read_be 2 payload 99) (\<lambda>toChain.
       Inr \<lparr>ttPayloadType = payloadType, ttAmount = bn (subarray payload 1 33), ttTokenAddress = subarray payload 33 65,
            ttTokenChain = tokenChain, ttTo = subarray payload 67 99, ttToChain = toChain,
            ttFee = (if payloadType = 1 then Some (bn (subarray payload 101 133)) else None),
            ttFromAddress = (if payloadType = 3 then Some (subarray payload 101 133) else None),
            tokenTransferPayload = drop 133 payload\<rparr>)))"

definition parseTokenTransferVaa :: "(bytes \<Rightarrow> bytes) \<Rightarrow> (bytes \<Rightarrow> nat) \<Rightarrow> bytes \<Rightarrow> (ParsedVaa \<times> TokenTransfer) outcome" where
  "parseTokenTransferVaa keccak256 bn vaa =
     e_bind (parseVaa keccak256 vaa) (\<lambda>parsed. e_bind (parseTokenTransferPayload bn (vaaPayload parsed)) (\<lambda>t. Inr (parsed, t)))"

record AssetMeta =
  amPayloadType :: nat
  amTokenAddress :: bytes
  amTokenChain :: nat
  amDecimals :: nat
  amSymbol :: text_t
  amName :: text_t

definition parseAttestMetaPayload :: "bytes \<Rightarrow> AssetMeta outcome" where
  "parseAttestMetaPayload payload =
     e_bind (read_be 1 payload 0) (\<lambda>payloadType.
     if payloadType \<noteq> payload_attest_meta then Inl (mk_error ''not token bridge attest meta VAA'')
     else
       e_bind (read_be 2 payload 33) (\<lambda>tokenChain.
       e_bind (read_be 1 payload 35) (\<lambda>decimals.
       Inr \<lparr>amPayloadType = payloadType, amTokenAddress = subarray payload 1 33, amTokenChain = tokenChain, amDecimals = decimals,
            amSymbol = strip_nul (utf8_text (subarray payload 36 68)), amName = strip_nul (utf8_text (subarray payload 68 100))\<rparr>)))"

definition parseAttestMetaVaa :: "(bytes \<Rightarrow> bytes) \<Rightarrow> bytes \<Rightarrow> (ParsedVaa \<times> AssetMeta) outcome" where
  "parseAttestMetaVaa keccak256 vaa =
     e_bind (parseVaa keccak256 vaa) (\<lambda>parsed. e_bind (parseAttestMetaPayload (vaaPayload parsed)) (\<lambda>m. Inr (parsed, m)))"

record TokenBridgeRegisterChain =
  foreignChain :: nat
  foreignAddress :: bytes

definition parseTokenBridgeRegisterChainGovernancePayload :: "bytes \<Rightarrow> TokenBridgeRegisterChain outcome" where
  "parseTokenBridgeRegisterChainGovernancePayload payload =
     e_bind (read_be 2 payload 0) (\<lambda>chain. Inr \<lparr>foreignChain = chain, foreignAddress = subarray payload 2 34\<rparr>)"

definition parseTokenBridgeRegisterChainVaa ::
    "(bytes \<Rightarrow> bytes) \<Rightarrow> bytes \<Rightarrow> (ParsedVaa \<times> Governance \<times> TokenBridgeRegisterChain) outcome" where
  "parseTokenBridgeRegisterChainVaa keccak256 vaa =
     e_bind (parseGovernanceVaa keccak256 vaa) (\<lambda>(parsed, g).
     if govAction g \<noteq> action_register_chain
     then Inl (mk_error ''parsed.action != TokenBridgeGovernanceAction.RegisterChain'')
     else e_bind (parseTokenBridgeRegisterChainGovernancePayload (orderPayload g)) (\<lambda>r. Inr (parsed, g, r)))"

record TokenBridgeUpgradeContract =
  newContract :: bytes

definition parseTokenBridgeUpgradeContractGovernancePayload :: "bytes \<Rightarrow> TokenBridgeUpgradeContract" where
  "parseTokenBridgeUpgradeContractGovernancePayload payload = \<lparr>newContract = subarray payload 0 32\<rparr>"

definition parseTokenBridgeUpgradeContractVaa ::
    "(bytes \<Rightarrow> bytes) \<Rightarrow> bytes \<Rightarrow> (ParsedVaa \<times> Governance \<times> TokenBridgeUpgradeContract) outcome" where
  "parseTokenBridgeUpgradeContractVaa keccak256 vaa =
     e_bind (parseGovernanceVaa keccak256 vaa) (\<lambda>(parsed, g).
     if govAction g \<noteq> action_upgrade_contract
     then Inl (mk_error ''parsed.action != TokenBridgeGovernanceAction.UpgradeContract'')
     else Inr (parsed, g, parseTokenBridgeUpgradeContractGovernancePayload (orderPayload g)))"

subsection \<open>The NFT bridge: \<^verbatim>\<open>nftBridge.ts\<close>\<close>

definition nft_payload_transfer :: nat where
  "nft_payload_transfer = 1"

definition nft_action_register_chain :: nat where
  "nft_action_register_chain = 1"

definition nft_action_upgrade_contract :: nat where
  "nft_action_upgrade_contract = 2"

record NftTransfer =
  nftPayloadType :: nat
  nftTokenAddress :: bytes
  nftTokenChain :: nat
  nftSymbol :: text_t
  nftName :: text_t
  nftTokenId :: nat
  nftUri :: text_t
  nftTo :: bytes
  nftToChain :: nat

definition parseNftTransferPayload :: "(bytes \<Rightarrow> nat) \<Rightarrow> bytes \<Rightarrow> NftTransfer outcome" where
  "parseNftTransferPayload bn payload =
     e_bind (read_be 1 payload 0) (\<lambda>payloadType.
     if payloadType \<noteq> nft_payload_transfer then Inl (mk_error ''not nft bridge transfer VAA'')
     else
       e_bind (read_be 2 payload 33) (\<lambda>tokenChain.
       e_bind (read_be 1 payload 131) (\<lambda>uriLen.
       let uriEnd = 132 + uriLen in
       e_bind (read_be 2 payload (uriEnd + 32)) (\<lambda>toChain.
       Inr \<lparr>nftPayloadType = payloadType, nftTokenAddress = subarray payload 1 33, nftTokenChain = tokenChain,
            nftSymbol = strip_nul (utf8_text (subarray payload 35 67)), nftName = strip_nul (utf8_text (subarray payload 67 99)),
            nftTokenId = bn (subarray payload 99 131), nftUri = utf8_text (subarray payload 132 uriEnd),
            nftTo = subarray payload uriEnd (uriEnd + 32), nftToChain = toChain\<rparr>))))"

definition parseNftTransferVaa :: "(bytes \<Rightarrow> bytes) \<Rightarrow> (bytes \<Rightarrow> nat) \<Rightarrow> bytes \<Rightarrow> (ParsedVaa \<times> NftTransfer) outcome" where
  "parseNftTransferVaa keccak256 bn vaa =
     e_bind (parseVaa keccak256 vaa) (\<lambda>parsed. e_bind (parseNftTransferPayload bn (vaaPayload parsed)) (\<lambda>t. Inr (parsed, t)))"

definition parseNftBridgeRegisterChainGovernancePayload :: "bytes \<Rightarrow> TokenBridgeRegisterChain outcome" where
  "parseNftBridgeRegisterChainGovernancePayload payload = parseTokenBridgeRegisterChainGovernancePayload payload"

definition parseNftBridgeRegisterChainVaa ::
    "(bytes \<Rightarrow> bytes) \<Rightarrow> bytes \<Rightarrow> (ParsedVaa \<times> Governance \<times> TokenBridgeRegisterChain) outcome" where
  "parseNftBridgeRegisterChainVaa keccak256 vaa =
     e_bind (parseGovernanceVaa keccak256 vaa) (\<lambda>(parsed, g).
     if govAction g \<noteq> nft_action_register_chain
     then Inl (mk_error ''parsed.action != NftBridgeGovernanceAction.RegisterChain'')
     else e_bind (parseNftBridgeRegisterChainGovernancePayload (orderPayload g)) (\<lambda>r. Inr (parsed, g, r)))"

definition parseNftBridgeUpgradeContractGovernancePayload :: "bytes \<Rightarrow> TokenBridgeUpgradeContract" where
  "parseNftBridgeUpgradeContractGovernancePayload payload = parseTokenBridgeUpgradeContractGovernancePayload payload"

definition parseNftBridgeUpgradeContractVaa ::
    "(bytes \<Rightarrow> bytes) \<Rightarrow> bytes \<Rightarrow> (ParsedVaa \<times> Governance \<times> TokenBridgeUpgradeContract) outcome" where
  "parseNftBridgeUpgradeContractVaa keccak256 vaa =
     e_bind (parseGovernanceVaa keccak256 vaa) (\<lambda>(parsed, g).
     if govAction g \<noteq> nft_action_upgrade_contract
     then Inl (mk_error ''parsed.action != NftBridgeGovernanceAction.UpgradeContract'')
     else Inr (parsed, g, parseNftBridgeUpgradeContractGovernancePayload (orderPayload g)))"

subsection \<open>Circle: \<^verbatim>\<open>circleIntegration.ts\<close>\<close>

definition deposit_with_payload :: nat where
  "deposit_with_payload = 1"

record CircleIntegrationDeposit =
  ciPayloadType :: nat
  ciTokenAddress :: bytes
  ciAmount :: nat
  sourceDomain :: nat
  targetDomain :: nat
  ciNonce :: nat
  ciFromAddress :: bytes
  mintRecipient :: bytes
  payloadLen :: nat
  depositPayload :: bytes

definition parseCircleIntegrationDepositWithPayload :: "(bytes \<Rightarrow> nat) \<Rightarrow> bytes \<Rightarrow> CircleIntegrationDeposit outcome" where
  "parseCircleIntegrationDepositWithPayload bn payload =
     e_bind (read_be 1 payload 0) (\<lambda>payloadType.
     if payloadType \<noteq> deposit_with_payload then Inl (mk_error ''not circle integration payload VAA'')
     else
       e_bind (read_be 4 payload 65) (\<lambda>source.
       e_bind (read_be 4 payload 69) (\<lambda>targetD.
       e_bind (read_be 8 payload 73) (\<lambda>n.
       e_bind (read_be 2 payload 145) (\<lambda>len.
       Inr \<lparr>ciPayloadType = payloadType, ciTokenAddress = subarray payload 1 33, ciAmount = bn (subarray payload 33 65),
            sourceDomain = source, targetDomain = targetD, ciNonce = n, ciFromAddress = subarray payload 81 113,
            mintRecipient = subarray payload 113 145, payloadLen = len, depositPayload = drop 147 payload\<rparr>)))))"

subsection \<open>Fields at fixed offsets\<close>

lemma subarray_skip [layout]: "length a \<le> from \<Longrightarrow> subarray (a @ b) from to = subarray b (from - length a) (to - length a)"
  by (simp add: subarray_def)

lemma subarray_here [layout]: "to = length a \<Longrightarrow> subarray (a @ b) 0 to = a"
  by (simp add: subarray_def)

lemma subarray_whole [layout]: "length a \<le> to \<Longrightarrow> subarray a 0 to = a"
  by (simp add: subarray_def)

lemma read_be_skip [layout]: "length a \<le> off \<Longrightarrow> read_be n (a @ b) off = read_be n b (off - length a)"
  by (auto simp: read_be_def)

lemma read_be_here [layout]: "x < 256 ^ n \<Longrightarrow> read_be n (be_encode n x @ b) 0 = Inr x"
  using read_be_at[of n "[]" x b] by simp

lemma read_be_last [layout]: "x < 256 ^ n \<Longrightarrow> read_be n (be_encode n x) 0 = Inr x"
  using read_be_at[of n "[]" x "[]"] by simp

lemma buf_at_skip [layout]: "length a \<le> i \<Longrightarrow> buf_at (a @ b) i = buf_at b (i - length a)"
  by (auto simp: buf_at_def nth_append)

lemma be_encode_1: "be_encode 1 x = [word_of_nat (x mod 256)]"
  by (simp add: One_nat_def)

lemma buf_at_byte [layout]: "buf_at (be_encode 1 x @ b) 0 = Some (word_of_nat (x mod 256))"
  by (simp add: buf_at_def be_encode_1)

lemma subarray_inside: "b \<le> length x \<Longrightarrow> subarray (x @ r) a b = subarray x a b"
  by (simp add: subarray_def)

lemma skip_blocks:
  assumes "list_all (\<lambda>x. length x = w) xs" and "i < length xs"
  shows "b \<le> w \<Longrightarrow> subarray (concat xs @ r) (i * w + a) (i * w + b) = subarray (xs ! i) a b"
    and "a < w \<Longrightarrow> buf_at (concat xs @ r) (i * w + a) = buf_at (xs ! i) a"
  using assms
proof (induction xs arbitrary: i)
  case (Cons x xs)
  { case 1
    then show ?case
    proof (cases i)
      case (Suc j)
      then have "subarray (concat (x # xs) @ r) (i * w + a) (i * w + b) = subarray (concat xs @ r) (j * w + a) (j * w + b)"
        using 1 by (simp add: subarray_skip add.assoc)
      with Suc 1 Cons.IH(1)[of j] show ?thesis by simp
    qed (simp add: subarray_inside)
  next
    case 2
    then show ?case
    proof (cases i)
      case (Suc j)
      then have "buf_at (concat (x # xs) @ r) (i * w + a) = buf_at (concat xs @ r) (j * w + a)"
        using 2 by (simp add: buf_at_skip add.assoc)
      with Suc 2 Cons.IH(2)[of j] show ?thesis by simp
    qed (simp add: buf_at_def nth_append) }
qed simp_all

subsection \<open>Which messages are accepted\<close>

text \<open>
  A buffer is accepted as a signed message exactly when it is long enough for the signatures it announces and
  fifty bytes of body; then the version, signature and payload bytes are cut out of it.  The body needs one byte more than that for its consistency
  level, which is \<^verbatim>\<open>undefined\<close> in a message that ends right before it.
\<close>

theorem parseVaa_accepts:
  "(\<exists>v. parseVaa keccak256 d = Inr v) \<longleftrightarrow> 5 < length d \<and> 56 + 66 * unat (d ! 5) \<le> length d"
  (is "?l \<longleftrightarrow> ?r")
proof (cases "5 < length d")
  case True
  then have "vaa_body_of d = drop (6 + 66 * unat (d ! 5)) d" by (simp add: vaa_body_of_def buf_at_def)
  with True show ?thesis by (auto simp: parseVaa_def Let_def read_be_def e_bind_Inr_iff)
next
  case False
  then have "vaa_body_of d = d" by (simp add: vaa_body_of_def buf_at_def)
  with False show ?thesis by (auto simp: parseVaa_def Let_def read_be_def e_bind_Inr_iff)
qed

lemma parseVaa_undefined_level:
  assumes "parseVaa keccak256 d = Inr v"
  shows "consistencyLevel v = None \<longleftrightarrow> length d = 56 + 66 * unat (d ! 5)"
proof -
  from assms have l: "5 < length d" "56 + 66 * unat (d ! 5) \<le> length d" using parseVaa_accepts[of keccak256 d] by auto
  then have "vaa_body_of d = drop (6 + 66 * unat (d ! 5)) d" by (simp add: vaa_body_of_def buf_at_def)
  moreover from assms have "consistencyLevel v = buf_at (vaa_body_of d) 50" by (auto simp: parseVaa_def Let_def e_bind_Inr_iff)
  ultimately show ?thesis using l by (auto simp: buf_at_def)
qed

text \<open>A Circle deposit is read at the offsets of its layout.\<close>

lemma circle_deposit_fields:
  assumes "length token = 32" "length sender = 32" "length recipient = 32" "length amountBytes = 32"
    and "src < 256 ^ 4" "tgt < 256 ^ 4" "n < 256 ^ 8" "len < 256 ^ 2"
  shows "parseCircleIntegrationDepositWithPayload bn
       (be_encode 1 1 @ token @ amountBytes @ be_encode 4 src @ be_encode 4 tgt @ be_encode 8 n @ sender @ recipient @ be_encode 2 len @ rest) =
     Inr \<lparr>ciPayloadType = 1, ciTokenAddress = token, ciAmount = bn amountBytes, sourceDomain = src, targetDomain = tgt, ciNonce = n,
       ciFromAddress = sender, mintRecipient = recipient, payloadLen = len, depositPayload = rest\<rparr>"
proof -
  have "read_be 1 (be_encode 1 1 @ r) 0 = Inr 1" for r by (rule read_be_here) simp
  with assms show ?thesis
    by (simp add: parseCircleIntegrationDepositWithPayload_def deposit_with_payload_def layout del: One_nat_def)
qed

subsection \<open>A message with other signatures\<close>

lemma parse_same_body:
  assumes "parseVaa keccak256 d = Inr v" and "vaa_body_of d' = vaa_body_of d" and "buf_at d' 0 = buf_at d 0"
    and "read_be 4 d' 1 = Inr g" and "buf_at d' 5 = Some n" and "map (read_signature d') [0..<unat n] = sigs"
  shows "parseVaa keccak256 d' = Inr (v\<lparr>guardianSetIndex := g, guardianSignatures := sigs\<rparr>)"
  using assms by (auto simp: parseVaa_def Let_def e_bind_Inr_iff)

lemma parsed_signatures:
  assumes "parseVaa keccak256 d = Inr v"
  shows "guardianSignatures v = map (read_signature d) [0..<unat (d ! 5)]" "vaaHash v = keccak256 (vaa_body_of d)"
    "vaa_body_of d = drop (6 + 66 * unat (d ! 5)) d" "5 < length d" "56 + 66 * unat (d ! 5) \<le> length d"
    "\<And>sig. sig \<in> set (guardianSignatures v) \<Longrightarrow> gsIndex sig \<noteq> None \<and> length (gsSignature sig) = 65"
proof -
  show l: "5 < length d" "56 + 66 * unat (d ! 5) \<le> length d" using assms parseVaa_accepts[of keccak256 d] by auto
  show g: "guardianSignatures v = map (read_signature d) [0..<unat (d ! 5)]" and "vaaHash v = keccak256 (vaa_body_of d)"
    and "vaa_body_of d = drop (6 + 66 * unat (d ! 5)) d"
    using assms l by (auto simp: parseVaa_def Let_def e_bind_Inr_iff buf_at_def vaa_body_of_def)
  show "gsIndex sig \<noteq> None \<and> length (gsSignature sig) = 65" if m: "sig \<in> set (guardianSignatures v)" for sig
  proof -
    obtain i where i: "i < unat (d ! 5)" "sig = read_signature d i" using m by (auto simp: g)
    then have "6 + i * 66 + 66 \<le> length d" using l(2) by simp
    then show ?thesis by (simp add: i(2) read_signature_def Let_def buf_at_def length_subarray)
  qed
qed

end
