(* ===== verification/Vaa_Serialise.thy ===== *)
theory Vaa_Serialise
  imports Wormhole_Vaa
begin

section \<open>Writing signed messages: \<^verbatim>\<open>sdk/js/src/vaa/generic.ts\<close>\<close>

text \<open>
  The typed payloads of Wormhole messages, their serialisers, which produce hexadecimal strings, the digest and the signatures, and the
  combinator that tries the payload parsers in order.  \<^verbatim>\<open>ethers\<close>, \<^verbatim>\<open>elliptic\<close> and the parsers built with
  \<^verbatim>\<open>binary-parser\<close> are third-party code and parameters: \<open>abiEncode\<close> is \<^verbatim>\<open>defaultAbiCoder.encode([type], [val])\<close>.  The constant
  properties \<^verbatim>\<open>module\<close> and \<^verbatim>\<open>type\<close> of a payload are its constructor.
\<close>

subsection \<open>Encoder utilities\<close>

datatype Encoding = EUint8 | EUint16 | EUint32 | EUint64 | EUint128 | EUint256 | EBytes32 | EAddress

fun typeWidth :: "Encoding \<Rightarrow> nat" where
  "typeWidth EUint8 = 1"
| "typeWidth EUint16 = 2"
| "typeWidth EUint32 = 4"
| "typeWidth EUint64 = 8"
| "typeWidth EUint128 = 16"
| "typeWidth EUint256 = 32"
| "typeWidth EBytes32 = 32"
| "typeWidth EAddress = 20"

datatype abi_value = AbiNum int | AbiBuffer bytes | AbiHex string

record ethers =
  abiEncode :: "Encoding \<Rightarrow> abi_value \<Rightarrow> string outcome"
  hexlify :: "string \<Rightarrow> string outcome"

definition encode :: "ethers \<Rightarrow> Encoding \<Rightarrow> abi_value \<Rightarrow> string outcome" where
  "encode eth type val = e_bind (abiEncode eth type val) (\<lambda>s. Inr (drop (length s - 2 * typeWidth type) s))"

definition encodeString :: "text_t \<Rightarrow> bytes" where
  "encodeString str = from_hex (pad_start 64 CHR ''0'' (to_hex (utf8_bytes str)))"

definition hex_buffer :: "ethers \<Rightarrow> string \<Rightarrow> bytes outcome" where
  "hex_buffer eth x = e_bind (hexlify eth x) (\<lambda>s. Inr (from_hex (drop 2 s)))"

text \<open>An array of encoded parts, evaluated in order, and \<^verbatim>\<open>body.join("")\<close>.\<close>

fun join_parts :: "string outcome list \<Rightarrow> string outcome" where
  "join_parts [] = Inr []"
| "join_parts (p # ps) = e_bind p (\<lambda>s. e_bind (join_parts ps) (\<lambda>t. Inr (s @ t)))"

abbreviation enc_num :: "ethers \<Rightarrow> Encoding \<Rightarrow> int \<Rightarrow> string outcome" where
  "enc_num eth type n \<equiv> encode eth type (AbiNum n)"

abbreviation enc_hex32 :: "ethers \<Rightarrow> string \<Rightarrow> string outcome" where
  "enc_hex32 eth x \<equiv> e_bind (hex_buffer eth x) (\<lambda>b. encode eth EBytes32 (AbiBuffer b))"

abbreviation enc_text32 :: "ethers \<Rightarrow> text_t \<Rightarrow> string outcome" where
  "enc_text32 eth s \<equiv> encode eth EBytes32 (AbiBuffer (encodeString s))"

subsection \<open>Payloads\<close>

datatype bridge = TokenBridge | NFTBridge

fun bridge_name :: "bridge \<Rightarrow> string" where
  "bridge_name TokenBridge = ''TokenBridge''"
| "bridge_name NFTBridge = ''NFTBridge''"

definition ascii_text :: "string \<Rightarrow> text_t" where
  "ascii_text s = map of_char s"

record GuardianSetUpgrade =
  gsuChain :: int
  newGuardianSetIndex :: int
  newGuardianSetLength :: int
  newGuardianSet :: "string list"

definition serialiseGuardianSetUpgrade :: "ethers \<Rightarrow> GuardianSetUpgrade \<Rightarrow> string outcome" where
  "serialiseGuardianSetUpgrade eth p =
     join_parts ([enc_text32 eth (ascii_text ''Core''), enc_num eth EUint8 2, enc_num eth EUint16 (gsuChain p),
       enc_num eth EUint32 (newGuardianSetIndex p), enc_num eth EUint8 (int (length (newGuardianSet p)))] @ map Inr (newGuardianSet p))"

record ContractUpgrade =
  cuChain :: int
  cuAddress :: string

definition serialiseCoreContractUpgrade :: "ethers \<Rightarrow> ContractUpgrade \<Rightarrow> string outcome" where
  "serialiseCoreContractUpgrade eth p =
     join_parts [enc_text32 eth (ascii_text ''Core''), enc_num eth EUint8 1, enc_num eth EUint16 (cuChain p),
       encode eth EBytes32 (AbiHex (cuAddress p))]"

definition serialisePortalContractUpgrade :: "ethers \<Rightarrow> bridge \<Rightarrow> ContractUpgrade \<Rightarrow> string outcome" where
  "serialisePortalContractUpgrade eth m p =
     join_parts [enc_text32 eth (ascii_text (bridge_name m)), enc_num eth EUint8 2, enc_num eth EUint16 (cuChain p),
       encode eth EBytes32 (AbiHex (cuAddress p))]"

record PortalRegisterChain =
  rcChain :: int
  rcEmitterChain :: int
  rcEmitterAddress :: string

definition serialisePortalRegisterChain :: "ethers \<Rightarrow> bridge \<Rightarrow> PortalRegisterChain \<Rightarrow> string outcome" where
  "serialisePortalRegisterChain eth m p =
     join_parts [enc_text32 eth (ascii_text (bridge_name m)), enc_num eth EUint8 1, enc_num eth EUint16 (rcChain p),
       enc_num eth EUint16 (rcEmitterChain p), encode eth EBytes32 (AbiHex (rcEmitterAddress p))]"

record TokenBridgeTransfer =
  tbAmount :: int
  tbTokenAddress :: string
  tbTokenChain :: int
  tbToAddress :: string
  tbChain :: int
  tbFee :: int

definition serialiseTokenBridgeTransfer :: "ethers \<Rightarrow> TokenBridgeTransfer \<Rightarrow> string outcome" where
  "serialiseTokenBridgeTransfer eth p =
     join_parts [enc_num eth EUint8 1, enc_num eth EUint256 (tbAmount p), enc_hex32 eth (tbTokenAddress p),
       enc_num eth EUint16 (tbTokenChain p), enc_hex32 eth (tbToAddress p), enc_num eth EUint16 (tbChain p),
       enc_num eth EUint256 (tbFee p)]"

record TokenBridgeAttestMeta =
  atTokenAddress :: string
  atTokenChain :: int
  atDecimals :: int
  atSymbol :: text_t
  atName :: text_t

definition serialiseTokenBridgeAttestMeta :: "ethers \<Rightarrow> TokenBridgeAttestMeta \<Rightarrow> string outcome" where
  "serialiseTokenBridgeAttestMeta eth p =
     join_parts [enc_num eth EUint8 2, enc_hex32 eth (atTokenAddress p), enc_num eth EUint16 (atTokenChain p),
       enc_num eth EUint8 (atDecimals p), enc_text32 eth (atSymbol p), enc_text32 eth (atName p)]"

record TokenBridgeTransferWithPayload =
  twAmount :: int
  twTokenAddress :: string
  twTokenChain :: int
  twToAddress :: string
  twChain :: int
  twFromAddress :: string
  twPayload :: string

definition serialiseTokenBridgeTransferWithPayload :: "ethers \<Rightarrow> TokenBridgeTransferWithPayload \<Rightarrow> string outcome" where
  "serialiseTokenBridgeTransferWithPayload eth p =
     join_parts [enc_num eth EUint8 3, enc_num eth EUint256 (twAmount p), enc_hex32 eth (twTokenAddress p),
       enc_num eth EUint16 (twTokenChain p), enc_hex32 eth (twToAddress p), enc_num eth EUint16 (twChain p),
       enc_hex32 eth (twFromAddress p), Inr (drop 2 (twPayload p))]"

record NFTBridgeTransfer =
  nbTokenAddress :: string
  nbTokenChain :: int
  nbTokenSymbol :: text_t
  nbTokenName :: text_t
  nbTokenId :: int
  nbTokenURI :: text_t
  nbToAddress :: string
  nbChain :: int

definition serialiseNFTBridgeTransfer :: "ethers \<Rightarrow> NFTBridgeTransfer \<Rightarrow> string outcome" where
  "serialiseNFTBridgeTransfer eth p =
     join_parts [enc_num eth EUint8 1, enc_hex32 eth (nbTokenAddress p), enc_num eth EUint16 (nbTokenChain p),
       enc_text32 eth (nbTokenSymbol p), enc_text32 eth (nbTokenName p), enc_num eth EUint256 (nbTokenId p),
       enc_num eth EUint8 (int (utf16_length (nbTokenURI p))), Inr (to_hex (utf8_bytes (nbTokenURI p))),
       enc_hex32 eth (nbToAddress p), enc_num eth EUint16 (nbChain p)]"

datatype Payload =
    PGuardianSetUpgrade GuardianSetUpgrade
  | PCoreContractUpgrade ContractUpgrade
  | PPortalContractUpgrade bridge ContractUpgrade
  | PPortalRegisterChain bridge PortalRegisterChain
  | PTransfer TokenBridgeTransfer
  | PTransferWithPayload TokenBridgeTransferWithPayload
  | PAttestMeta TokenBridgeAttestMeta
  | PNFTTransfer NFTBridgeTransfer
  | POther string text_t

subsection \<open>The envelope\<close>

record VaaSignature =
  vsGuardianSetIndex :: int
  vsSignature :: string

record 'p VAA =
  vVersion :: int
  vGuardianSetIndex :: int
  vSignatures :: "VaaSignature list"
  vTimestamp :: int
  vNonce :: int
  vEmitterChain :: int
  vEmitterAddress :: string
  vSequence :: int
  vConsistencyLevel :: int
  vPayload :: 'p

definition serialiseSignature :: "ethers \<Rightarrow> VaaSignature \<Rightarrow> string outcome" where
  "serialiseSignature eth sig = join_parts [enc_num eth EUint8 (vsGuardianSetIndex sig), Inr (vsSignature sig)]"

fun serialise_payload :: "ethers \<Rightarrow> Payload \<Rightarrow> string outcome" where
  "serialise_payload eth (PGuardianSetUpgrade p) = serialiseGuardianSetUpgrade eth p"
| "serialise_payload eth (PCoreContractUpgrade p) = serialiseCoreContractUpgrade eth p"
| "serialise_payload eth (PPortalContractUpgrade m p) = serialisePortalContractUpgrade eth m p"
| "serialise_payload eth (PPortalRegisterChain m p) = serialisePortalRegisterChain eth m p"
| "serialise_payload eth (PTransfer p) = serialiseTokenBridgeTransfer eth p"
| "serialise_payload eth (PTransferWithPayload p) = serialiseTokenBridgeTransferWithPayload eth p"
| "serialise_payload eth (PAttestMeta p) = serialiseTokenBridgeAttestMeta eth p"
| "serialise_payload eth (PNFTTransfer p) = serialiseNFTBridgeTransfer eth p"
| "serialise_payload eth (POther h a) = Inr h"

definition vaaBody :: "ethers \<Rightarrow> Payload VAA \<Rightarrow> string outcome" where
  "vaaBody eth vaa =
     e_bind (serialise_payload eth (vPayload vaa)) (\<lambda>payload_str.
     join_parts [enc_num eth EUint32 (vTimestamp vaa), enc_num eth EUint32 (vNonce vaa), enc_num eth EUint16 (vEmitterChain vaa),
       enc_hex32 eth (vEmitterAddress vaa), enc_num eth EUint64 (vSequence vaa), enc_num eth EUint8 (vConsistencyLevel vaa),
       Inr payload_str])"

definition serialiseVAA :: "ethers \<Rightarrow> Payload VAA \<Rightarrow> string outcome" where
  "serialiseVAA eth vaa =
     join_parts ([enc_num eth EUint8 (vVersion vaa), enc_num eth EUint32 (vGuardianSetIndex vaa),
       enc_num eth EUint8 (int (length (vSignatures vaa)))] @ map (serialiseSignature eth) (vSignatures vaa) @ [vaaBody eth vaa])"

text \<open>\<^verbatim>\<open>solidityKeccak256(["bytes"], [x])\<close> is the parameter \<open>keccak\<close>, from a hexadecimal string to one.\<close>

definition vaaDigest :: "ethers \<Rightarrow> (string \<Rightarrow> string) \<Rightarrow> Payload VAA \<Rightarrow> string outcome" where
  "vaaDigest eth keccak vaa = e_bind (vaaBody eth vaa) (\<lambda>b. Inr (keccak (keccak (''0x'' @ b))))"

fun sign_each ::
    "ethers \<Rightarrow> (string \<Rightarrow> bytes \<Rightarrow> string \<times> string \<times> int) \<Rightarrow> string \<Rightarrow> int \<Rightarrow> string list \<Rightarrow> VaaSignature list outcome" where
  "sign_each eth ec hash i [] = Inr []"
| "sign_each eth ec hash i (signer # signers) =
     (case ec signer (from_hex (drop 2 hash)) of (r, s, rec) \<Rightarrow>
        e_bind (join_parts [Inr (pad_start 64 CHR ''0'' r), Inr (pad_start 64 CHR ''0'' s), enc_num eth EUint8 rec]) (\<lambda>packed.
        e_bind (sign_each eth ec hash (i + 1) signers) (\<lambda>sigs.
        Inr (\<lparr>vsGuardianSetIndex = i, vsSignature = packed\<rparr> # sigs))))"

definition sign_vaa ::
    "ethers \<Rightarrow> (string \<Rightarrow> string) \<Rightarrow> (string \<Rightarrow> bytes \<Rightarrow> string \<times> string \<times> int) \<Rightarrow> string list \<Rightarrow> Payload VAA \<Rightarrow> VaaSignature list outcome" where
  "sign_vaa eth keccak ec signers vaa = e_bind (vaaDigest eth keccak vaa) (\<lambda>hash. sign_each eth ec hash 0 signers)"

subsection \<open>Trying the parsers\<close>

text \<open>
  \<^verbatim>\<open>P.parse\<close> turns the assertion errors of \<^verbatim>\<open>binary-parser\<close> into \<^verbatim>\<open>null\<close>, and \<^verbatim>\<open>P.or\<close> tries another parser then.
\<close>

definition p_parse :: "(bytes \<Rightarrow> 'a outcome) \<Rightarrow> bytes \<Rightarrow> 'a option outcome" where
  "p_parse parser buffer =
     (case parser buffer of
        Inr r \<Rightarrow> Inr (Some r)
      | Inl e \<Rightarrow> (case errMessage e of
                    Some m \<Rightarrow> if str_includes ''Assertion error'' m then Inr None else Inl e
                  | None \<Rightarrow> Inl e))"

definition p_or :: "(bytes \<Rightarrow> 'a option outcome) \<Rightarrow> (bytes \<Rightarrow> 'a option outcome) \<Rightarrow> bytes \<Rightarrow> 'a option outcome" where
  "p_or p q buffer = e_bind (p buffer) (\<lambda>r. case r of Some x \<Rightarrow> Inr (Some x) | None \<Rightarrow> q buffer)"

record payload_parsers =
  guardianSetUpgradeParser :: "bytes \<Rightarrow> GuardianSetUpgrade outcome"
  coreContractUpgradeParser :: "bytes \<Rightarrow> ContractUpgrade outcome"
  portalContractUpgradeParser :: "bridge \<Rightarrow> bytes \<Rightarrow> ContractUpgrade outcome"
  portalRegisterChainParser :: "bridge \<Rightarrow> bytes \<Rightarrow> PortalRegisterChain outcome"
  tokenBridgeTransferParser :: "bytes \<Rightarrow> TokenBridgeTransfer outcome"
  tokenBridgeTransferWithPayloadParser :: "bytes \<Rightarrow> TokenBridgeTransferWithPayload outcome"
  tokenBridgeAttestMetaParser :: "bytes \<Rightarrow> TokenBridgeAttestMeta outcome"
  nftBridgeTransferParser :: "bytes \<Rightarrow> NFTBridgeTransfer outcome"

abbreviation tagged :: "('a \<Rightarrow> Payload) \<Rightarrow> (bytes \<Rightarrow> 'a outcome) \<Rightarrow> bytes \<Rightarrow> Payload option outcome" where
  "tagged k p \<equiv> p_parse (\<lambda>b. e_bind (p b) (\<lambda>x. Inr (k x)))"

definition payload_parser :: "payload_parsers \<Rightarrow> bytes \<Rightarrow> Payload option outcome" where
  "payload_parser ps =
     p_or (p_or (p_or (p_or (p_or (p_or (p_or (p_or (p_or
       (tagged PGuardianSetUpgrade (guardianSetUpgradeParser ps))
       (tagged PCoreContractUpgrade (coreContractUpgradeParser ps)))
       (tagged (PPortalContractUpgrade TokenBridge) (portalContractUpgradeParser ps TokenBridge)))
       (tagged (PPortalContractUpgrade NFTBridge) (portalContractUpgradeParser ps NFTBridge)))
       (tagged (PPortalRegisterChain TokenBridge) (portalRegisterChainParser ps TokenBridge)))
       (tagged (PPortalRegisterChain NFTBridge) (portalRegisterChainParser ps NFTBridge)))
       (tagged PTransfer (tokenBridgeTransferParser ps)))
       (tagged PTransferWithPayload (tokenBridgeTransferWithPayloadParser ps)))
       (tagged PAttestMeta (tokenBridgeAttestMetaParser ps)))
       (tagged PNFTTransfer (nftBridgeTransferParser ps))"

definition vaa_parse :: "(bytes \<Rightarrow> bytes VAA outcome) \<Rightarrow> payload_parsers \<Rightarrow> bytes \<Rightarrow> Payload VAA outcome" where
  "vaa_parse parseEnvelope ps buffer =
     e_bind (parseEnvelope buffer) (\<lambda>vaa.
     e_bind (payload_parser ps (vPayload vaa)) (\<lambda>r.
     let payload = (case r of Some p \<Rightarrow> p | None \<Rightarrow> POther (to_hex (vPayload vaa)) (utf8_text (vPayload vaa)))
     in Inr \<lparr>vVersion = vVersion vaa, vGuardianSetIndex = vGuardianSetIndex vaa, vSignatures = vSignatures vaa, vTimestamp = vTimestamp vaa,
          vNonce = vNonce vaa, vEmitterChain = vEmitterChain vaa, vEmitterAddress = vEmitterAddress vaa, vSequence = vSequence vaa,
          vConsistencyLevel = vConsistencyLevel vaa, vPayload = payload\<rparr>))"

definition assertKnownPayload :: "Payload VAA \<Rightarrow> unit outcome" where
  "assertKnownPayload vaa =
     (case vPayload vaa of POther h a \<Rightarrow> Inl (mk_error (''Couldn't parse VAA payload: '' @ h)) | _ \<Rightarrow> Inr ())"

end
