(* ===== verification/Vaa_Roundtrip.thy ===== *)
theory Vaa_Roundtrip
  imports Vaa_Serialise
begin

section \<open>Serialised messages are read back\<close>

text \<open>
  The serialisers of \<^verbatim>\<open>generic.ts\<close> and the parsers of \<^verbatim>\<open>wormhole.ts\<close>, \<^verbatim>\<open>governance.ts\<close>, \<^verbatim>\<open>tokenBridge.ts\<close> and
  \<^verbatim>\<open>nftBridge.ts\<close> are written independently of each other.  The bytes of a message are defined once more here, as a concatenation
  of fields; a serialiser produces their hexadecimal form, and a parser finds the fields.
\<close>

declare One_nat_def [simp del]

subsection \<open>What is assumed of \<^verbatim>\<open>ethers\<close> and \<^verbatim>\<open>BN\<close>\<close>

text \<open>
  Documented behaviour: an unsigned integer that fits its type is encoded in 32 bytes, big-endian; 32 bytes are encoded as
  they are, whether a buffer or a hexadecimal string is given; \<^verbatim>\<open>hexlify\<close> leaves a hexadecimal string as it is;
  and \<^verbatim>\<open>new BN(bytes)\<close> is the number with these big-endian digits.
\<close>

definition is_uint :: "Encoding \<Rightarrow> bool" where
  "is_uint t \<longleftrightarrow> t \<noteq> EBytes32 \<and> t \<noteq> EAddress"

definition ethers_ok :: "ethers \<Rightarrow> bool" where
  "ethers_ok eth \<longleftrightarrow>
     (\<forall>t x. is_uint t \<and> 0 \<le> x \<and> x < 256 ^ typeWidth t \<longrightarrow> abiEncode eth t (AbiNum x) = Inr (''0x'' @ to_hex (be_encode 32 (nat x))))
     \<and> (\<forall>bs. length bs = 32 \<longrightarrow> abiEncode eth EBytes32 (AbiBuffer bs) = Inr (''0x'' @ to_hex bs)
          \<and> abiEncode eth EBytes32 (AbiHex (''0x'' @ to_hex bs)) = Inr (''0x'' @ to_hex bs))
     \<and> (\<forall>bs. hexlify eth (''0x'' @ to_hex bs) = Inr (''0x'' @ to_hex bs))"

definition bn_ok :: "(bytes \<Rightarrow> nat) \<Rightarrow> bool" where
  "bn_ok bn \<longleftrightarrow> (\<forall>x < 256 ^ 32. bn (be_encode 32 x) = x)"

definition demo_ethers :: ethers where
  "demo_ethers =
     \<lparr>abiEncode = (\<lambda>t v. case v of
          AbiNum x \<Rightarrow> Inr (''0x'' @ to_hex (be_encode 32 (nat x)))
        | AbiBuffer bs \<Rightarrow> Inr (''0x'' @ to_hex bs)
        | AbiHex h \<Rightarrow> Inr h),
      hexlify = Inr\<rparr>"

lemma demo_ethers_ok: "ethers_ok demo_ethers" and be_decode_bn_ok: "bn_ok be_decode"
  by (simp_all add: ethers_ok_def demo_ethers_def bn_ok_def be_decode_encode)

subsection \<open>Parts\<close>

definition uint_ok :: "nat \<Rightarrow> int \<Rightarrow> bool" where
  "uint_ok n x \<longleftrightarrow> 0 \<le> x \<and> x < 256 ^ n"

definition addr_bytes :: "string \<Rightarrow> bytes" where
  "addr_bytes a = from_hex (drop 2 a)"

definition hex0x_ok :: "string \<Rightarrow> bool" where
  "hex0x_ok a \<longleftrightarrow> a = ''0x'' @ to_hex (addr_bytes a)"

definition addr_ok :: "string \<Rightarrow> bool" where
  "addr_ok a \<longleftrightarrow> hex0x_ok a \<and> length (addr_bytes a) = 32"

definition text32_ok :: "text_t \<Rightarrow> bool" where
  "text32_ok s \<longleftrightarrow> list_all scalar s \<and> 0 \<notin> set s \<and> length (utf8_bytes s) \<le> 32"

definition text32 :: "text_t \<Rightarrow> bytes" where
  "text32 s = replicate (32 - length (utf8_bytes s)) 0 @ utf8_bytes s"

abbreviation u_bytes :: "nat \<Rightarrow> int \<Rightarrow> bytes" where
  "u_bytes n x \<equiv> be_encode n (nat x)"

named_theorems vaa_parts \<open>what the encoder utilities produce\<close>

lemmas suc_zero [vaa_parts] = One_nat_def[symmetric]

lemma to_hex_append: "to_hex (a @ b) = to_hex a @ to_hex b"
  by (simp add: to_hex_def)

lemma to_hex_Nil: "to_hex [] = []"
  by (simp add: to_hex_def)

lemma drop_to_hex: "drop (2 * n) (to_hex bs) = to_hex (drop n bs)"
proof (induction n arbitrary: bs)
  case (Suc n)
  then show ?case by (cases bs) (simp_all add: to_hex_def hex_of_byte_def)
qed simp

lemma be_encode_low: "w \<le> k \<Longrightarrow> drop (k - w) (be_encode k x) = be_encode w x"
proof (induction w arbitrary: k x)
  case (Suc w)
  then obtain j where "k = Suc j" "w \<le> j" by (cases k) auto
  then show ?case using Suc.IH[of j] by simp
qed simp

lemma encode_uint [vaa_parts]:
  assumes "ethers_ok eth" and "is_uint t" and "uint_ok (typeWidth t) x"
  shows "enc_num eth t x = Inr (to_hex (u_bytes (typeWidth t) x))"
proof -
  have w: "typeWidth t \<le> 32" by (cases t) simp_all
  have "abiEncode eth t (AbiNum x) = Inr (''0x'' @ to_hex (u_bytes 32 x))" using assms by (simp add: ethers_ok_def uint_ok_def)
  moreover have "drop (66 - 2 * typeWidth t) (''0x'' @ to_hex (u_bytes 32 x)) = drop (2 * (32 - typeWidth t)) (to_hex (u_bytes 32 x))"
  proof -
    have "66 - 2 * typeWidth t = Suc (Suc (64 - 2 * typeWidth t))" using w by simp
    then show ?thesis by (simp add: diff_mult_distrib2)
  qed
  ultimately show ?thesis using be_encode_low[OF w] by (simp add: encode_def drop_to_hex)
qed

lemma encode_bytes32 [vaa_parts]:
  assumes "ethers_ok eth"
  shows "length bs = 32 \<Longrightarrow> encode eth EBytes32 (AbiBuffer bs) = Inr (to_hex bs)"
    and "addr_ok a \<Longrightarrow> encode eth EBytes32 (AbiHex a) = Inr (to_hex (addr_bytes a))"
    and "addr_ok a \<Longrightarrow> hex_buffer eth a = Inr (addr_bytes a)"
proof -
  show "length bs = 32 \<Longrightarrow> encode eth EBytes32 (AbiBuffer bs) = Inr (to_hex bs)"
    using assms by (simp add: ethers_ok_def encode_def)
  assume "addr_ok a"
  then obtain bs where a: "a = ''0x'' @ to_hex bs" "length bs = 32" "addr_bytes a = bs"
    by (auto simp: addr_ok_def hex0x_ok_def)
  then show "encode eth EBytes32 (AbiHex a) = Inr (to_hex (addr_bytes a))" "hex_buffer eth a = Inr (addr_bytes a)"
    using assms by (simp_all add: ethers_ok_def encode_def hex_buffer_def)
qed

lemma addr_ok_length [vaa_parts]: "addr_ok a \<Longrightarrow> length (addr_bytes a) = 32"
  by (simp add: addr_ok_def)

lemma to_hex_zeros: "to_hex (replicate k 0) = replicate (2 * k) CHR ''0''"
  by (induction k) (simp_all add: to_hex_def hex_of_byte_def hex_digits_def)

lemma encodeString_text32 [vaa_parts]: "text32_ok s \<Longrightarrow> encodeString s = text32 s"
proof -
  assume "text32_ok s"
  then have l: "length (utf8_bytes s) \<le> 32" by (simp add: text32_ok_def)
  have "pad_start 64 CHR ''0'' (to_hex (utf8_bytes s)) = to_hex (text32 s)"
    using l by (simp add: pad_start_def text32_def to_hex_append to_hex_zeros diff_mult_distrib2)
  then show ?thesis by (simp add: encodeString_def)
qed

lemma length_text32 [vaa_parts]: "text32_ok s \<Longrightarrow> length (text32 s) = 32"
  by (simp add: text32_ok_def text32_def)

lemma text32_read [vaa_parts]: "text32_ok s \<Longrightarrow> strip_nul (utf8_text (text32 s)) = s"
  by (simp add: text32_ok_def text32_def name_padded_front)

lemma join_append: "join_parts (xs @ ys) = e_bind (join_parts xs) (\<lambda>s. e_bind (join_parts ys) (\<lambda>t. Inr (s @ t)))"
  by (induction xs) (auto simp: e_bind_def split: sum.splits)

lemma uint_widths [vaa_parts]:
  "is_uint EUint8" "is_uint EUint16" "is_uint EUint32" "is_uint EUint64" "is_uint EUint128" "is_uint EUint256"
  by (simp_all add: is_uint_def)

subsection \<open>Payloads\<close>

fun payload_ok :: "Payload \<Rightarrow> bool" where
  "payload_ok (PGuardianSetUpgrade p) \<longleftrightarrow>
     uint_ok 2 (gsuChain p) \<and> uint_ok 4 (newGuardianSetIndex p) \<and> length (newGuardianSet p) < 256
     \<and> list_all (\<lambda>h. h = to_hex (from_hex h)) (newGuardianSet p)"
| "payload_ok (PCoreContractUpgrade p) \<longleftrightarrow> uint_ok 2 (cuChain p) \<and> addr_ok (cuAddress p)"
| "payload_ok (PPortalContractUpgrade m p) \<longleftrightarrow> uint_ok 2 (cuChain p) \<and> addr_ok (cuAddress p)"
| "payload_ok (PPortalRegisterChain m p) \<longleftrightarrow> uint_ok 2 (rcChain p) \<and> uint_ok 2 (rcEmitterChain p) \<and> addr_ok (rcEmitterAddress p)"
| "payload_ok (PTransfer p) \<longleftrightarrow>
     uint_ok 32 (tbAmount p) \<and> addr_ok (tbTokenAddress p) \<and> uint_ok 2 (tbTokenChain p) \<and> addr_ok (tbToAddress p)
     \<and> uint_ok 2 (tbChain p) \<and> uint_ok 32 (tbFee p)"
| "payload_ok (PTransferWithPayload p) \<longleftrightarrow>
     uint_ok 32 (twAmount p) \<and> addr_ok (twTokenAddress p) \<and> uint_ok 2 (twTokenChain p) \<and> addr_ok (twToAddress p)
     \<and> uint_ok 2 (twChain p) \<and> addr_ok (twFromAddress p) \<and> hex0x_ok (twPayload p)"
| "payload_ok (PAttestMeta p) \<longleftrightarrow>
     addr_ok (atTokenAddress p) \<and> uint_ok 2 (atTokenChain p) \<and> uint_ok 1 (atDecimals p) \<and> text32_ok (atSymbol p) \<and> text32_ok (atName p)"
| "payload_ok (PNFTTransfer p) \<longleftrightarrow>
     addr_ok (nbTokenAddress p) \<and> uint_ok 2 (nbTokenChain p) \<and> text32_ok (nbTokenSymbol p) \<and> text32_ok (nbTokenName p)
     \<and> uint_ok 32 (nbTokenId p) \<and> list_all scalar (nbTokenURI p) \<and> utf16_length (nbTokenURI p) < 256
     \<and> addr_ok (nbToAddress p) \<and> uint_ok 2 (nbChain p)"
| "payload_ok (POther h a) \<longleftrightarrow> h = to_hex (from_hex h)"

fun payload_bytes :: "Payload \<Rightarrow> bytes" where
  "payload_bytes (PGuardianSetUpgrade p) =
     text32 (ascii_text ''Core'') @ be_encode 1 2 @ u_bytes 2 (gsuChain p) @ u_bytes 4 (newGuardianSetIndex p)
       @ be_encode 1 (length (newGuardianSet p)) @ concat (map from_hex (newGuardianSet p))"
| "payload_bytes (PCoreContractUpgrade p) =
     text32 (ascii_text ''Core'') @ be_encode 1 1 @ u_bytes 2 (cuChain p) @ addr_bytes (cuAddress p)"
| "payload_bytes (PPortalContractUpgrade m p) =
     text32 (ascii_text (bridge_name m)) @ be_encode 1 2 @ u_bytes 2 (cuChain p) @ addr_bytes (cuAddress p)"
| "payload_bytes (PPortalRegisterChain m p) =
     text32 (ascii_text (bridge_name m)) @ be_encode 1 1 @ u_bytes 2 (rcChain p) @ u_bytes 2 (rcEmitterChain p)
       @ addr_bytes (rcEmitterAddress p)"
| "payload_bytes (PTransfer p) =
     be_encode 1 1 @ u_bytes 32 (tbAmount p) @ addr_bytes (tbTokenAddress p) @ u_bytes 2 (tbTokenChain p)
       @ addr_bytes (tbToAddress p) @ u_bytes 2 (tbChain p) @ u_bytes 32 (tbFee p)"
| "payload_bytes (PTransferWithPayload p) =
     be_encode 1 3 @ u_bytes 32 (twAmount p) @ addr_bytes (twTokenAddress p) @ u_bytes 2 (twTokenChain p)
       @ addr_bytes (twToAddress p) @ u_bytes 2 (twChain p) @ addr_bytes (twFromAddress p) @ addr_bytes (twPayload p)"
| "payload_bytes (PAttestMeta p) =
     be_encode 1 2 @ addr_bytes (atTokenAddress p) @ u_bytes 2 (atTokenChain p) @ u_bytes 1 (atDecimals p)
       @ text32 (atSymbol p) @ text32 (atName p)"
| "payload_bytes (PNFTTransfer p) =
     be_encode 1 1 @ addr_bytes (nbTokenAddress p) @ u_bytes 2 (nbTokenChain p) @ text32 (nbTokenSymbol p) @ text32 (nbTokenName p)
       @ u_bytes 32 (nbTokenId p) @ be_encode 1 (utf16_length (nbTokenURI p)) @ utf8_bytes (nbTokenURI p)
       @ addr_bytes (nbToAddress p) @ u_bytes 2 (nbChain p)"
| "payload_bytes (POther h a) = from_hex h"

lemma names_ok [vaa_parts]: "text32_ok (ascii_text ''Core'')" "text32_ok (ascii_text (bridge_name m))"
  by (cases m; simp add: text32_ok_def ascii_text_def scalar_def utf8_bytes_def utf8_char_def)+

lemma small_uints [vaa_parts]:
  "uint_ok 1 1" "uint_ok 1 2" "uint_ok 1 3" "n < 256 \<Longrightarrow> uint_ok 1 (int n)"
  by (simp_all add: uint_ok_def)

lemma join_hexes: "list_all (\<lambda>h. h = to_hex (from_hex h)) hs \<Longrightarrow> join_parts (map Inr hs) = Inr (to_hex (concat (map from_hex hs)))"
  by (induction hs) (auto simp: to_hex_append to_hex_Nil)

lemma serialise_payload_bytes:
  assumes "ethers_ok eth" and "payload_ok p"
  shows "serialise_payload eth p = Inr (to_hex (payload_bytes p))"
proof (cases p)
  case (PGuardianSetUpgrade q)
  with assms show ?thesis
    by (simp add: serialiseGuardianSetUpgrade_def vaa_parts join_hexes to_hex_append)
next
  case (PTransferWithPayload q)
  with assms have "drop 2 (twPayload q) = to_hex (addr_bytes (twPayload q))" by (simp add: hex0x_ok_def) (metis drop_0 drop_Suc_Cons numeral_2_eq_2)
  with assms PTransferWithPayload show ?thesis
    by (simp add: serialiseTokenBridgeTransferWithPayload_def vaa_parts to_hex_append)
next
  case (PCoreContractUpgrade q)
  with assms show ?thesis by (simp add: serialiseCoreContractUpgrade_def vaa_parts to_hex_append)
next
  case (PPortalContractUpgrade m q)
  with assms show ?thesis by (simp add: serialisePortalContractUpgrade_def vaa_parts to_hex_append)
next
  case (PPortalRegisterChain m q)
  with assms show ?thesis by (simp add: serialisePortalRegisterChain_def vaa_parts to_hex_append)
next
  case (PTransfer q)
  with assms show ?thesis by (simp add: serialiseTokenBridgeTransfer_def vaa_parts to_hex_append)
next
  case (PAttestMeta q)
  with assms show ?thesis by (simp add: serialiseTokenBridgeAttestMeta_def vaa_parts to_hex_append)
next
  case (PNFTTransfer q)
  with assms show ?thesis by (simp add: serialiseNFTBridgeTransfer_def vaa_parts to_hex_append)
next
  case (POther h a)
  with assms show ?thesis by simp
qed

subsection \<open>The envelope\<close>

definition sig_ok :: "VaaSignature \<Rightarrow> bool" where
  "sig_ok sig \<longleftrightarrow>
     uint_ok 1 (vsGuardianSetIndex sig) \<and> to_hex (from_hex (vsSignature sig)) = vsSignature sig \<and> length (from_hex (vsSignature sig)) = 65"

definition sig_bytes :: "VaaSignature \<Rightarrow> bytes" where
  "sig_bytes sig = u_bytes 1 (vsGuardianSetIndex sig) @ from_hex (vsSignature sig)"

definition vaa_ok :: "Payload VAA \<Rightarrow> bool" where
  "vaa_ok vaa \<longleftrightarrow>
     uint_ok 1 (vVersion vaa) \<and> uint_ok 4 (vGuardianSetIndex vaa) \<and> length (vSignatures vaa) < 256 \<and> list_all sig_ok (vSignatures vaa)
     \<and> uint_ok 4 (vTimestamp vaa) \<and> uint_ok 4 (vNonce vaa) \<and> uint_ok 2 (vEmitterChain vaa) \<and> addr_ok (vEmitterAddress vaa)
     \<and> uint_ok 8 (vSequence vaa) \<and> uint_ok 1 (vConsistencyLevel vaa) \<and> payload_ok (vPayload vaa)"

definition body_bytes :: "Payload VAA \<Rightarrow> bytes" where
  "body_bytes vaa =
     u_bytes 4 (vTimestamp vaa) @ u_bytes 4 (vNonce vaa) @ u_bytes 2 (vEmitterChain vaa) @ addr_bytes (vEmitterAddress vaa)
       @ u_bytes 8 (vSequence vaa) @ u_bytes 1 (vConsistencyLevel vaa) @ payload_bytes (vPayload vaa)"

definition vaa_bytes :: "Payload VAA \<Rightarrow> bytes" where
  "vaa_bytes vaa =
     u_bytes 1 (vVersion vaa) @ u_bytes 4 (vGuardianSetIndex vaa) @ be_encode 1 (length (vSignatures vaa))
       @ concat (map sig_bytes (vSignatures vaa)) @ body_bytes vaa"

lemma serialise_signatures:
  assumes "ethers_ok eth"
  shows "list_all sig_ok sigs \<Longrightarrow> join_parts (map (serialiseSignature eth) sigs) = Inr (to_hex (concat (map sig_bytes sigs)))"
  using assms
  by (induction sigs) (auto simp: serialiseSignature_def sig_ok_def sig_bytes_def vaa_parts to_hex_append to_hex_Nil)

lemma vaaBody_bytes:
  assumes "ethers_ok eth" and "vaa_ok vaa"
  shows "vaaBody eth vaa = Inr (to_hex (body_bytes vaa))"
  using assms serialise_payload_bytes[OF assms(1)]
  by (simp add: vaa_ok_def vaaBody_def body_bytes_def vaa_parts to_hex_append)

lemma serialiseVAA_bytes:
  assumes "ethers_ok eth" and "vaa_ok vaa"
  shows "serialiseVAA eth vaa = Inr (to_hex (vaa_bytes vaa))"
  using assms vaaBody_bytes[OF assms]
  by (simp add: vaa_ok_def serialiseVAA_def vaa_bytes_def vaa_parts join_append serialise_signatures to_hex_append)

definition as_signature :: "VaaSignature \<Rightarrow> GuardianSignature" where
  "as_signature sig = \<lparr>gsIndex = Some (word_of_nat (nat (vsGuardianSetIndex sig))), gsSignature = from_hex (vsSignature sig)\<rparr>"

definition as_parsed :: "(bytes \<Rightarrow> bytes) \<Rightarrow> Payload VAA \<Rightarrow> ParsedVaa" where
  "as_parsed keccak256 vaa =
     \<lparr>vaaVersion = Some (word_of_nat (nat (vVersion vaa))), guardianSetIndex = nat (vGuardianSetIndex vaa),
      guardianSignatures = map as_signature (vSignatures vaa), vaaTimestamp = nat (vTimestamp vaa), vaaNonce = nat (vNonce vaa),
      emitterChain = nat (vEmitterChain vaa), emitterAddress = addr_bytes (vEmitterAddress vaa), vaaSequence = nat (vSequence vaa),
      consistencyLevel = Some (word_of_nat (nat (vConsistencyLevel vaa))), vaaPayload = payload_bytes (vPayload vaa),
      vaaHash = keccak256 (body_bytes vaa)\<rparr>"

lemma uint_nat [vaa_parts]: "uint_ok n x \<Longrightarrow> nat x < 256 ^ n"
  by (simp add: uint_ok_def nat_less_iff)

lemma sig_read:
  assumes "sig_ok sig"
  shows "buf_at (sig_bytes sig) 0 = Some (word_of_nat (nat (vsGuardianSetIndex sig)))"
    and "subarray (sig_bytes sig) 1 66 = from_hex (vsSignature sig)" and "length (sig_bytes sig) = 66"
  using assms uint_nat[of 1 "vsGuardianSetIndex sig"] by (simp_all add: sig_ok_def sig_bytes_def layout)

lemma signatures_read:
  assumes "list_all sig_ok sigs" and "length pre = 6"
  shows "map (read_signature (pre @ concat (map sig_bytes sigs) @ rest)) [0..<length sigs] = map as_signature sigs"
proof (rule nth_equalityI)
  fix i assume "i < length (map (read_signature (pre @ concat (map sig_bytes sigs) @ rest)) [0..<length sigs])"
  then have i: "i < length sigs" by simp
  have b: "list_all (\<lambda>x. length x = 66) (map sig_bytes sigs)" using assms(1) by (auto simp: list_all_iff sig_read)
  have ok: "sig_ok (sigs ! i)" using assms(1) i by (simp add: list_all_length)
  note s = skip_blocks[OF b, of i, where r = rest]
  have "buf_at (pre @ concat (map sig_bytes sigs) @ rest) (6 + i * 66) = buf_at (sig_bytes (sigs ! i)) 0"
    using s(2)[of 0] i assms(2) by (simp add: buf_at_skip)
  moreover have "subarray (pre @ concat (map sig_bytes sigs) @ rest) (6 + i * 66 + 1) (6 + i * 66 + 66) = subarray (sig_bytes (sigs ! i)) 1 66"
    using s(1)[of 66 1] i assms(2) by (simp add: subarray_skip add.commute Suc_eq_plus1)
  ultimately show "map (read_signature (pre @ concat (map sig_bytes sigs) @ rest)) [0..<length sigs] ! i = map as_signature sigs ! i"
    using i sig_read(1,2)[OF ok] by (simp add: read_signature_def as_signature_def Let_def)
qed simp

lemma parse_vaa_bytes:
  assumes "vaa_ok vaa"
  shows "parseVaa keccak256 (vaa_bytes vaa) = Inr (as_parsed keccak256 vaa)"
proof -
  let ?sigs = "vSignatures vaa" and ?body = "body_bytes vaa"
  let ?pre = "u_bytes 1 (vVersion vaa) @ u_bytes 4 (vGuardianSetIndex vaa) @ be_encode 1 (length ?sigs)"
  have d: "vaa_bytes vaa = ?pre @ concat (map sig_bytes ?sigs) @ ?body" by (simp add: vaa_bytes_def)
  from assms have ok: "length ?sigs < 256" "list_all sig_ok ?sigs" "addr_ok (vEmitterAddress vaa)"
    and r: "nat (vVersion vaa) < 256 ^ 1" "nat (vGuardianSetIndex vaa) < 256 ^ 4" "nat (vTimestamp vaa) < 256 ^ 4" "nat (vNonce vaa) < 256 ^ 4"
      "nat (vEmitterChain vaa) < 256 ^ 2" "nat (vSequence vaa) < 256 ^ 8" "nat (vConsistencyLevel vaa) < 256 ^ 1"
    by (auto simp: vaa_ok_def dest: uint_nat)
  have n: "buf_at (vaa_bytes vaa) 5 = Some (word_of_nat (length ?sigs))"
    using ok(1) by (simp add: vaa_bytes_def layout)
  have u: "unat (word_of_nat (length ?sigs) :: byte) = length ?sigs" using ok(1) by (simp add: unat_byte_of_nat)
  have len: "length (concat (map sig_bytes ?sigs)) = 66 * length ?sigs"
    using ok(2) by (induction ?sigs) (auto simp: sig_read list_all_iff length_concat comp_def sum_list_triv cong: map_cong)
  have body: "vaa_body_of (vaa_bytes vaa) = ?body"
    unfolding vaa_body_of_def n using len by (simp add: u d)
  have sigs: "map (read_signature (vaa_bytes vaa)) [0..<length ?sigs] = map as_signature ?sigs"
    unfolding d by (rule signatures_read[OF ok(2)]) simp
  have reads: "read_be 4 (vaa_bytes vaa) 1 = Inr (nat (vGuardianSetIndex vaa))" "buf_at (vaa_bytes vaa) 0 = Some (word_of_nat (nat (vVersion vaa)))"
    "read_be 4 ?body 0 = Inr (nat (vTimestamp vaa))" "read_be 4 ?body 4 = Inr (nat (vNonce vaa))" "read_be 2 ?body 8 = Inr (nat (vEmitterChain vaa))"
    "subarray ?body 10 42 = addr_bytes (vEmitterAddress vaa)" "read_be 8 ?body 42 = Inr (nat (vSequence vaa))"
    "buf_at ?body 50 = Some (word_of_nat (nat (vConsistencyLevel vaa)))" "drop 51 ?body = payload_bytes (vPayload vaa)"
    using r ok(3) by (simp_all add: vaa_bytes_def body_bytes_def layout vaa_parts)
  show ?thesis by (simp add: parseVaa_def Let_def n u body sigs reads as_parsed_def)
qed

text \<open>
  C16.  Whatever well-formed message the serialiser of the generic module writes, the envelope parser reads back: version,
  guardian set, every signature with its guardian, the fields of the body, the payload, and the
  hash of exactly the bytes that \<^verbatim>\<open>vaaBody\<close> gives and that the guardians sign.
\<close>

theorem serialised_vaa_parses:
  assumes "ethers_ok eth" and "vaa_ok vaa"
  shows "\<exists>h b p. serialiseVAA eth vaa = Inr h \<and> vaaBody eth vaa = Inr b \<and> serialise_payload eth (vPayload vaa) = Inr p
     \<and> parseVaa keccak256 (from_hex h) = Inr (as_parsed keccak256 vaa)
     \<and> vaaHash (as_parsed keccak256 vaa) = keccak256 (from_hex b) \<and> vaaPayload (as_parsed keccak256 vaa) = from_hex p"
proof -
  from assms(2) have "payload_ok (vPayload vaa)" by (simp add: vaa_ok_def)
  from serialise_payload_bytes[OF assms(1) this] serialiseVAA_bytes[OF assms] vaaBody_bytes[OF assms] parse_vaa_bytes[OF assms(2)]
  show ?thesis by (auto simp: as_parsed_def)
qed

subsection \<open>Payload parsers\<close>

fun as_transfer :: "Payload \<Rightarrow> TokenTransfer option" where
  "as_transfer (PTransfer q) =
     Some \<lparr>ttPayloadType = 1, ttAmount = nat (tbAmount q), ttTokenAddress = addr_bytes (tbTokenAddress q), ttTokenChain = nat (tbTokenChain q),
       ttTo = addr_bytes (tbToAddress q), ttToChain = nat (tbChain q), ttFee = Some (nat (tbFee q)), ttFromAddress = None,
       tokenTransferPayload = []\<rparr>"
| "as_transfer (PTransferWithPayload q) =
     Some \<lparr>ttPayloadType = 3, ttAmount = nat (twAmount q), ttTokenAddress = addr_bytes (twTokenAddress q), ttTokenChain = nat (twTokenChain q),
       ttTo = addr_bytes (twToAddress q), ttToChain = nat (twChain q), ttFee = None, ttFromAddress = Some (addr_bytes (twFromAddress q)),
       tokenTransferPayload = addr_bytes (twPayload q)\<rparr>"
| "as_transfer _ = None"

fun as_meta :: "Payload \<Rightarrow> AssetMeta option" where
  "as_meta (PAttestMeta q) =
     Some \<lparr>amPayloadType = 2, amTokenAddress = addr_bytes (atTokenAddress q), amTokenChain = nat (atTokenChain q),
       amDecimals = nat (atDecimals q), amSymbol = atSymbol q, amName = atName q\<rparr>"
| "as_meta _ = None"

fun as_nft :: "Payload \<Rightarrow> NftTransfer option" where
  "as_nft (PNFTTransfer q) =
     (if list_all (\<lambda>c. c < 0x80) (nbTokenURI q)
      then Some \<lparr>nftPayloadType = 1, nftTokenAddress = addr_bytes (nbTokenAddress q), nftTokenChain = nat (nbTokenChain q),
        nftSymbol = nbTokenSymbol q, nftName = nbTokenName q, nftTokenId = nat (nbTokenId q), nftUri = nbTokenURI q,
        nftTo = addr_bytes (nbToAddress q), nftToChain = nat (nbChain q)\<rparr>
      else None)"
| "as_nft _ = None"

fun as_governance :: "Payload \<Rightarrow> Governance option" where
  "as_governance (PGuardianSetUpgrade q) =
     Some \<lparr>govModule = ascii_text ''Core'', govAction = 2, govChain = nat (gsuChain q),
       orderPayload = u_bytes 4 (newGuardianSetIndex q) @ be_encode 1 (length (newGuardianSet q)) @ concat (map from_hex (newGuardianSet q))\<rparr>"
| "as_governance (PCoreContractUpgrade q) =
     Some \<lparr>govModule = ascii_text ''Core'', govAction = 1, govChain = nat (cuChain q), orderPayload = addr_bytes (cuAddress q)\<rparr>"
| "as_governance (PPortalContractUpgrade m q) =
     Some \<lparr>govModule = ascii_text (bridge_name m), govAction = 2, govChain = nat (cuChain q), orderPayload = addr_bytes (cuAddress q)\<rparr>"
| "as_governance (PPortalRegisterChain m q) =
     Some \<lparr>govModule = ascii_text (bridge_name m), govAction = 1, govChain = nat (rcChain q),
       orderPayload = u_bytes 2 (rcEmitterChain q) @ addr_bytes (rcEmitterAddress q)\<rparr>"
| "as_governance _ = None"

lemma read_uint [vaa_parts]:
  "uint_ok n x \<Longrightarrow> read_be n (u_bytes n x @ b) 0 = Inr (nat x)" "uint_ok n x \<Longrightarrow> read_be n (u_bytes n x) 0 = Inr (nat x)"
  by (rule read_be_here, erule uint_nat) (rule read_be_last, erule uint_nat)

lemma bn_read: "bn_ok bn \<Longrightarrow> uint_ok 32 x \<Longrightarrow> bn (u_bytes 32 x) = nat x"
  using uint_nat[of 32 x] by (simp add: bn_ok_def)

lemma small_nats [vaa_parts]: "1 < (256 :: nat) ^ 1" "2 < (256 :: nat) ^ 1" "3 < (256 :: nat) ^ 1" "n < 256 \<Longrightarrow> n < (256 :: nat) ^ 1"
  by simp_all

lemma parse_transfer:
  assumes "bn_ok bn" and "payload_ok p" and "as_transfer p = Some t"
  shows "parseTokenTransferPayload bn (payload_bytes p) = Inr t"
proof -
  consider (plain) q where "p = PTransfer q" | (extra) q where "p = PTransferWithPayload q"
    using assms(3) by (cases p) auto
  then show ?thesis
  proof cases
    case plain
    with assms show ?thesis
      by (auto simp: parseTokenTransferPayload_def payload_transfer_def layout vaa_parts bn_read[OF assms(1)])
  next
    case extra
    with assms show ?thesis
      by (auto simp: parseTokenTransferPayload_def payload_transfer_def payload_transfer_with_payload_def layout vaa_parts bn_read[OF assms(1)])
  qed
qed

lemma parse_meta:
  assumes "payload_ok p" and "as_meta p = Some m"
  shows "parseAttestMetaPayload (payload_bytes p) = Inr m"
proof -
  obtain q where "p = PAttestMeta q" using assms(2) by (cases p) auto
  with assms show ?thesis by (auto simp: parseAttestMetaPayload_def payload_attest_meta_def layout vaa_parts)
qed

lemma parse_nft:
  assumes "bn_ok bn" and "payload_ok p" and "as_nft p = Some t"
  shows "parseNftTransferPayload bn (payload_bytes p) = Inr t"
proof -
  obtain q where p: "p = PNFTTransfer q" "list_all (\<lambda>c. c < 0x80) (nbTokenURI q)"
    using assms(3) by (cases p) (auto split: if_splits)
  then have "utf16_length (nbTokenURI q) = length (utf8_bytes (nbTokenURI q))" by (simp add: lengths_agree_iff)
  with p assms show ?thesis
    by (auto simp: parseNftTransferPayload_def nft_payload_transfer_def Let_def layout vaa_parts bn_read[OF assms(1)])
qed

lemma parse_governance:
  assumes "payload_ok p" and "as_governance p = Some g"
  shows "parseGovernancePayload (payload_bytes p) = Inr g"
  using assms by (cases p) (auto simp: parseGovernancePayload_def layout vaa_parts)

subsection \<open>Properties\<close>

text \<open>
  C17.  A token transfer, with or without a payload of its own, an attestation of a token, and an NFT transfer
  whose URI is ASCII, written by the generic serialiser, come back from the parser of their kind with every field, amounts of
  256 bits and padded names included.
\<close>

theorem typed_vaa_roundtrip:
  assumes "ethers_ok eth" and "bn_ok bn" and "vaa_ok vaa"
  shows "\<exists>h. serialiseVAA eth vaa = Inr h
     \<and> (\<forall>t. as_transfer (vPayload vaa) = Some t \<longrightarrow> parseTokenTransferVaa keccak256 bn (from_hex h) = Inr (as_parsed keccak256 vaa, t))
     \<and> (\<forall>m. as_meta (vPayload vaa) = Some m \<longrightarrow> parseAttestMetaVaa keccak256 (from_hex h) = Inr (as_parsed keccak256 vaa, m))
     \<and> (\<forall>t. as_nft (vPayload vaa) = Some t \<longrightarrow> parseNftTransferVaa keccak256 bn (from_hex h) = Inr (as_parsed keccak256 vaa, t))"
proof -
  from assms(3) have p: "payload_ok (vPayload vaa)" by (simp add: vaa_ok_def)
  have pl: "vaaPayload (as_parsed keccak256 vaa) = payload_bytes (vPayload vaa)" by (simp add: as_parsed_def)
  show ?thesis
    using serialiseVAA_bytes[OF assms(1,3)] parse_transfer[OF assms(2) p] parse_meta[OF p] parse_nft[OF assms(2) p]
    by (simp add: parseTokenTransferVaa_def parseAttestMetaVaa_def parseNftTransferVaa_def parse_vaa_bytes[OF assms(3)] pl)
qed

definition demo_address :: string where
  "demo_address = ''0x'' @ to_hex (replicate 32 7)"

definition demo_transfer :: "Payload VAA" where
  "demo_transfer =
     \<lparr>vVersion = 1, vGuardianSetIndex = 3, vSignatures = [\<lparr>vsGuardianSetIndex = 2, vsSignature = to_hex (replicate 65 9)\<rparr>], vTimestamp = 1700000000,
      vNonce = 5, vEmitterChain = 21, vEmitterAddress = demo_address, vSequence = 10 ^ 12, vConsistencyLevel = 15,
      vPayload = PTransfer \<lparr>tbAmount = 10 ^ 30, tbTokenAddress = demo_address, tbTokenChain = 2, tbToAddress = demo_address, tbChain = 21, tbFee = 7\<rparr>\<rparr>"

lemma demo_address_ok: "addr_ok demo_address"
  by (simp add: addr_ok_def hex0x_ok_def addr_bytes_def demo_address_def)

lemma demo_transfer_ok: "vaa_ok demo_transfer"
  by (simp add: vaa_ok_def demo_transfer_def uint_ok_def demo_address_ok sig_ok_def)

theorem typed_vaa_roundtrip_witness:
  "\<exists>h t. serialiseVAA demo_ethers demo_transfer = Inr h
     \<and> parseTokenTransferVaa id be_decode (from_hex h) = Inr (as_parsed id demo_transfer, t) \<and> ttAmount t = 10 ^ 30 \<and> ttFee t = Some 7"
  using typed_vaa_roundtrip[OF demo_ethers_ok be_decode_bn_ok demo_transfer_ok, of id] by (auto simp: demo_transfer_def)

theorem serialised_vaa_parses_witness:
  "\<exists>h. serialiseVAA demo_ethers demo_transfer = Inr h \<and> parseVaa id (from_hex h) = Inr (as_parsed id demo_transfer)"
  using serialised_vaa_parses[OF demo_ethers_ok demo_transfer_ok, of id] by blast

text \<open>
  A governance message written by the generic serialiser is read with its module, action, chain and
  order; the registration and upgrade parsers of both bridges then give the foreign emitter and the new
  contract.
\<close>

theorem governance_vaa_roundtrip:
  assumes "ethers_ok eth" and "vaa_ok vaa" and "as_governance (vPayload vaa) = Some g"
  shows "\<exists>h. serialiseVAA eth vaa = Inr h \<and> parseGovernanceVaa keccak256 (from_hex h) = Inr (as_parsed keccak256 vaa, g)
     \<and> (\<forall>m q. vPayload vaa = PPortalRegisterChain m q \<longrightarrow>
          (let r = \<lparr>foreignChain = nat (rcEmitterChain q), foreignAddress = addr_bytes (rcEmitterAddress q)\<rparr>
           in parseTokenBridgeRegisterChainVaa keccak256 (from_hex h) = Inr (as_parsed keccak256 vaa, g, r)
            \<and> parseNftBridgeRegisterChainVaa keccak256 (from_hex h) = Inr (as_parsed keccak256 vaa, g, r)))
     \<and> (\<forall>m q. vPayload vaa = PPortalContractUpgrade m q \<longrightarrow>
          (let c = \<lparr>newContract = addr_bytes (cuAddress q)\<rparr>
           in parseTokenBridgeUpgradeContractVaa keccak256 (from_hex h) = Inr (as_parsed keccak256 vaa, g, c)
            \<and> parseNftBridgeUpgradeContractVaa keccak256 (from_hex h) = Inr (as_parsed keccak256 vaa, g, c)))"
proof -
  from assms(2) have p: "payload_ok (vPayload vaa)" by (simp add: vaa_ok_def)
  have gov: "parseGovernanceVaa keccak256 (vaa_bytes vaa) = Inr (as_parsed keccak256 vaa, g)"
    using parse_governance[OF p assms(3)] by (simp add: parseGovernanceVaa_def parse_vaa_bytes[OF assms(2)]) (simp add: as_parsed_def)
  show ?thesis
    using serialiseVAA_bytes[OF assms(1,2)] gov assms(3) p
    by (auto simp: Let_def parseTokenBridgeRegisterChainVaa_def parseNftBridgeRegisterChainVaa_def parseTokenBridgeUpgradeContractVaa_def
        parseNftBridgeUpgradeContractVaa_def action_register_chain_def nft_action_register_chain_def action_upgrade_contract_def
        nft_action_upgrade_contract_def parseTokenBridgeRegisterChainGovernancePayload_def parseNftBridgeRegisterChainGovernancePayload_def
        parseTokenBridgeUpgradeContractGovernancePayload_def parseNftBridgeUpgradeContractGovernancePayload_def layout vaa_parts)
qed

definition demo_registration :: "Payload VAA" where
  "demo_registration = demo_transfer\<lparr>vPayload :=
     PPortalRegisterChain TokenBridge \<lparr>rcChain = 0, rcEmitterChain = 21, rcEmitterAddress = demo_address\<rparr>\<rparr>"

theorem governance_vaa_roundtrip_witness:
  "\<exists>h g r. serialiseVAA demo_ethers demo_registration = Inr h
     \<and> parseTokenBridgeRegisterChainVaa id (from_hex h) = Inr (as_parsed id demo_registration, g, r) \<and> foreignChain r = 21"
proof -
  have "vaa_ok demo_registration"
    using demo_transfer_ok by (simp add: vaa_ok_def demo_registration_def uint_ok_def demo_address_ok)
  moreover obtain g where "as_governance (vPayload demo_registration) = Some g" by (simp add: demo_registration_def)
  moreover obtain q where "vPayload demo_registration = PPortalRegisterChain TokenBridge q" "rcEmitterChain q = 21"
    by (simp add: demo_registration_def)
  ultimately show ?thesis using governance_vaa_roundtrip[OF demo_ethers_ok, of demo_registration g id] by (auto simp: Let_def)
qed

text \<open>
  The registration parsers look at the action only, and the core contract's upgrade has the same action number: such a message is
  read as the registration of the chain and address that its new address begins with.
\<close>

lemma core_upgrade_parses_as_registration:
  assumes "ethers_ok eth" and "vaa_ok vaa" and "vPayload vaa = PCoreContractUpgrade q"
  shows "\<exists>h g r. serialiseVAA eth vaa = Inr h \<and> parseTokenBridgeRegisterChainVaa keccak256 (from_hex h) = Inr (as_parsed keccak256 vaa, g, r)
     \<and> foreignAddress r = drop 2 (addr_bytes (cuAddress q))"
proof -
  from assms(2,3) have p: "payload_ok (PCoreContractUpgrade q)" by (simp add: vaa_ok_def)
  define g where "g = \<lparr>govModule = ascii_text ''Core'', govAction = 1, govChain = nat (cuChain q), orderPayload = addr_bytes (cuAddress q)\<rparr>"
  have "parseGovernanceVaa keccak256 (vaa_bytes vaa) = Inr (as_parsed keccak256 vaa, g)"
    using parse_governance[OF p, of g] by (simp add: g_def parseGovernanceVaa_def parse_vaa_bytes[OF assms(2)]) (simp add: as_parsed_def assms(3))
  moreover have "length (addr_bytes (cuAddress q)) = 32" using p by (simp add: vaa_parts)
  ultimately show ?thesis
    using serialiseVAA_bytes[OF assms(1,2)]
    by (auto simp: parseTokenBridgeRegisterChainVaa_def action_register_chain_def g_def
        parseTokenBridgeRegisterChainGovernancePayload_def read_be_def subarray_def)
qed

text \<open>
  The NFT serialiser writes the length of the URI in UTF-16 code units before its UTF-8 bytes.  With one
  character outside ASCII the parser of the SDK is off by one byte behind it.
\<close>

definition demo_nft :: NFTBridgeTransfer where
  "demo_nft = \<lparr>nbTokenAddress = demo_address, nbTokenChain = 2, nbTokenSymbol = [], nbTokenName = [], nbTokenId = 1, nbTokenURI = [0xE9],
     nbToAddress = demo_address, nbChain = 21\<rparr>"

lemma nft_uri_length_in_code_units:
  "serialise_payload demo_ethers (PNFTTransfer demo_nft) = Inr (to_hex (payload_bytes (PNFTTransfer demo_nft)))
     \<and> (\<exists>t. parseNftTransferPayload be_decode (payload_bytes (PNFTTransfer demo_nft)) = Inr t \<and> nftUri t = [0xFFFD] \<and> nftToChain t = 7 * 256)"
proof -
  have ok: "payload_ok (PNFTTransfer demo_nft)"
    by (simp add: demo_nft_def demo_address_ok uint_ok_def text32_ok_def utf8_bytes_def scalar_def utf16_length_def)
  define pre where "pre = be_encode 1 1 @ addr_bytes demo_address @ be_encode 2 2 @ text32 [] @ text32 [] @ be_encode 32 1 @ be_encode 1 1"
  have l: "length pre = 132" by (simp add: pre_def addr_ok_length[OF demo_address_ok] text32_def utf8_bytes_def)
  have "replicate 32 (7 :: byte) = replicate 31 7 @ [7]" using replicate_add[of 31 1 "7 :: byte"] by (simp add: One_nat_def)
  then have a: "addr_bytes demo_address = replicate 31 7 @ [7]" by (simp add: demo_address_def addr_bytes_def)
  have d: "payload_bytes (PNFTTransfer demo_nft) = pre @ [0xC3] @ (0xA9 # replicate 31 7) @ [7, 0, 21]"
    by (simp add: demo_nft_def pre_def utf16_length_def utf8_bytes_def utf8_char_def a be_encode_1 numeral_2_eq_2 One_nat_def)
  have h: "read_be 1 (pre @ r) 0 = Inr 1" "read_be 2 (pre @ r) 33 = Inr 2" "read_be 1 (pre @ r) 131 = Inr 1" for r
    by (simp_all add: pre_def layout addr_ok_length[OF demo_address_ok] text32_def utf8_bytes_def)
  have "read_be 2 [7, 0, 21] 0 = Inr (7 * 256)" by code_simp
  then have c: "read_be 2 (pre @ [0xC3] @ (0xA9 # replicate 31 7) @ [7, 0, 21]) 165 = Inr (7 * 256)"
    using l read_be_skip[of "pre @ [0xC3] @ (0xA9 # replicate 31 7)" 165 2 "[7, 0, 21]"] by simp
  have u: "utf8_text (subarray (pre @ [0xC3] @ r) 132 133) = [0xFFFD]" for r
    using l by (simp add: subarray_skip subarray_here) (simp add: subarray_def utf8_text_def utf8_lead_def One_nat_def)
  have "\<exists>t. parseNftTransferPayload be_decode (payload_bytes (PNFTTransfer demo_nft)) = Inr t \<and> nftUri t = [0xFFFD] \<and> nftToChain t = 7 * 256"
    unfolding d using u by (simp add: parseNftTransferPayload_def nft_payload_transfer_def Let_def h c[simplified])
  with serialise_payload_bytes[OF demo_ethers_ok ok] show ?thesis by blast
qed

text \<open>A message whose payload no parser knows keeps its bytes: what is serialised again is the payload that was read.\<close>

lemma unknown_payload_kept:
  assumes "parseEnvelope buffer = Inr v" and "payload_parser ps (vPayload v) = Inr None"
  shows "\<exists>w. vaa_parse parseEnvelope ps buffer = Inr w \<and> serialise_payload eth (vPayload w) = Inr (to_hex (vPayload v))
     \<and> (\<exists>e. assertKnownPayload w = Inl e)"
  using assms by (simp add: vaa_parse_def assertKnownPayload_def)

end
