(* ===== verification/Price_Pusher.thy ===== *)
theory Price_Pusher
  imports Js_Float
begin

section \<open>The price pusher: \<^verbatim>\<open>apps/price_pusher/src\<close>\<close>

text \<open>
  A price pusher compares the prices of the Pyth price service with those on a chain and pushes the feeds that
  differ too much.  Two listeners keep the latest price per feed, a controller decides in rounds.  The
  subscription, the poll of the chain, the rounds and the clock are steps that interleave in any order.

  Reading the YAML file and validating it with Joi is third-party code: \<open>readPriceConfigFile\<close> takes its result.
\<close>

subsection \<open>Prices of the service: \<^verbatim>\<open>price_service/sdk/js/src/index.ts\<close>\<close>

record Price =
  prConf :: string
  prExpo :: int
  prPrice :: string
  prPublishTime :: int

definition getPriceAsNumberUnchecked :: "Price \<Rightarrow> jsfloat" where
  "getPriceAsNumberUnchecked p = f_mul (json_float (JStr (prPrice p))) (f_pow10 (JNum (prExpo p)))"

definition getConfAsNumberUnchecked :: "Price \<Rightarrow> jsfloat" where
  "getConfAsNumberUnchecked p = f_mul (json_float (JStr (prConf p))) (f_pow10 (JNum (prExpo p)))"

record PriceFeedMetadata =
  attestationTime :: "int option"
  mdEmitterChain :: int
  priceServiceReceiveTime :: "int option"
  sequenceNumber :: "int option"
  mdSlot :: "int option"
  prevPublishTime :: "int option"

record PriceFeed =
  feedEmaPrice :: Price
  feedId :: string
  feedMetadata :: "PriceFeedMetadata option"
  feedVaa :: "string option"
  feedPrice :: Price

definition getPriceUnchecked :: "PriceFeed \<Rightarrow> Price" where
  "getPriceUnchecked feed = feedPrice feed"

definition getMetadata :: "PriceFeed \<Rightarrow> PriceFeedMetadata option" where
  "getMetadata feed = feedMetadata feed"

definition getVAA :: "PriceFeed \<Rightarrow> string option" where
  "getVAA feed = feedVaa feed"

definition getEmaPriceUnchecked :: "PriceFeed \<Rightarrow> Price" where
  "getEmaPriceUnchecked feed = feedEmaPrice feed"

text \<open>\<^verbatim>\<open>Math.floor(Date.now() / 1000)\<close> of a time in milliseconds.\<close>

definition getPriceNoOlderThan :: "int \<Rightarrow> int \<Rightarrow> PriceFeed \<Rightarrow> Price option" where
  "getPriceNoOlderThan nowMs age feed =
     (let p = getPriceUnchecked feed; currentTime = nowMs div 1000
      in if \<bar>currentTime - prPublishTime p\<bar> > age then None else Some p)"

definition getEmaPriceNoOlderThan :: "int \<Rightarrow> int \<Rightarrow> PriceFeed \<Rightarrow> Price option" where
  "getEmaPriceNoOlderThan nowMs age feed =
     (let p = getEmaPriceUnchecked feed; currentTime = nowMs div 1000
      in if \<bar>currentTime - prPublishTime p\<bar> > age then None else Some p)"

subsection \<open>Utilities: \<^verbatim>\<open>utils.ts\<close>\<close>

definition removeLeading0x :: "string \<Rightarrow> string" where
  "removeLeading0x i = (if starts_with ''0x'' i then drop 2 i else i)"

definition addLeading0x :: "string \<Rightarrow> string" where
  "addLeading0x i = (if starts_with ''0x'' i then i else ''0x'' @ i)"

definition verifyValidOption :: "string \<Rightarrow> string list \<Rightarrow> string outcome" where
  "verifyValidOption opt valid =
     (if opt \<in> set valid then Inr opt
      else Inl (mk_error (opt @ '' is not a valid option. Please choose between '' @ js_string (JArr (map JStr valid)))))"

subsection \<open>Listeners: \<^verbatim>\<open>interface.ts\<close> and \<^verbatim>\<open>pyth-price-listener.ts\<close>\<close>

record PriceItem =
  itemId :: string
  itemAlias :: string

record PriceInfo =
  infoPrice :: string
  infoConf :: string
  infoPublishTime :: jsnum

record ChainPriceListener =
  clItems :: "PriceItem list"
  clLatest :: "(string, PriceInfo) js_map_t"
  clAlias :: "(string, string) js_map_t"

definition alias_map :: "PriceItem list \<Rightarrow> (string, string) js_map_t" where
  "alias_map items = fold (\<lambda>i m. map_set (itemId i) (itemAlias i) m) items []"

definition chain_listener_new :: "PriceItem list \<Rightarrow> ChainPriceListener" where
  "chain_listener_new items = \<lparr>clItems = items, clLatest = [], clAlias = alias_map items\<rparr>"

definition cl_getLatestPriceInfo :: "ChainPriceListener \<Rightarrow> string \<Rightarrow> PriceInfo option" where
  "cl_getLatestPriceInfo l i = map_get (clLatest l) i"

definition updateLatestPriceInfo :: "string \<Rightarrow> PriceInfo \<Rightarrow> ChainPriceListener \<Rightarrow> ChainPriceListener" where
  "updateLatestPriceInfo i observed l =
     (case cl_getLatestPriceInfo l i of
        Some c \<Rightarrow> if num_lt (infoPublishTime observed) (infoPublishTime c) then l
                  else l\<lparr>clLatest := map_set i observed (clLatest l)\<rparr>
      | None \<Rightarrow> l\<lparr>clLatest := map_set i observed (clLatest l)\<rparr>)"

text \<open>\<^verbatim>\<open>pollPrices\<close>: what the chain answers to each request, and what happens to the listener while it waits.\<close>

record poll_env =
  getOnChainPriceInfo :: "nat \<Rightarrow> string \<Rightarrow> PriceInfo option outcome"
  duringPoll :: "nat \<Rightarrow> ChainPriceListener \<Rightarrow> ChainPriceListener"

fun pollPrices :: "poll_env \<Rightarrow> nat \<Rightarrow> PriceItem list \<Rightarrow> (ChainPriceListener, unit) stateful" where
  "pollPrices env k [] l = (Inr (), l)"
| "pollPrices env k (i # is) l =
     (let l1 = duringPoll env k l
      in case getOnChainPriceInfo env k (itemId i) of
           Inl e \<Rightarrow> (Inl e, l1)
         | Inr None \<Rightarrow> pollPrices env (Suc k) is l1
         | Inr (Some info) \<Rightarrow> pollPrices env (Suc k) is (updateLatestPriceInfo (itemId i) info l1))"

record PythPriceListener =
  plIds :: "string list"
  plAlias :: "(string, string) js_map_t"
  plLatest :: "(string, PriceInfo) js_map_t"

definition pyth_listener_new :: "PriceItem list \<Rightarrow> PythPriceListener" where
  "pyth_listener_new items = \<lparr>plIds = map itemId items, plAlias = alias_map items, plLatest = []\<rparr>"

definition info_of_price :: "Price \<Rightarrow> PriceInfo" where
  "info_of_price p = \<lparr>infoPrice = prPrice p, infoConf = prConf p, infoPublishTime = Num (prPublishTime p)\<rparr>"

definition pl_set :: "string \<Rightarrow> PriceInfo \<Rightarrow> PythPriceListener \<Rightarrow> PythPriceListener" where
  "pl_set i info l = l\<lparr>plLatest := map_set i info (plLatest l)\<rparr>"

text \<open>\<^verbatim>\<open>start\<close> after the answer of \<^verbatim>\<open>getLatestPriceFeeds\<close>, which may be \<^verbatim>\<open>undefined\<close>.\<close>

definition pyth_listener_start :: "PriceFeed list option \<Rightarrow> PythPriceListener \<Rightarrow> PythPriceListener" where
  "pyth_listener_start feeds l =
     (case feeds of
        None \<Rightarrow> l
      | Some fs \<Rightarrow> fold (\<lambda>f. pl_set (feedId f) (info_of_price (getPriceUnchecked f))) fs l)"

definition onNewPriceFeed :: "int \<Rightarrow> PriceFeed \<Rightarrow> PythPriceListener \<Rightarrow> PythPriceListener" where
  "onNewPriceFeed nowMs feed l =
     (case getPriceNoOlderThan nowMs 60 feed of
        None \<Rightarrow> l
      | Some p \<Rightarrow> pl_set (feedId feed) (info_of_price p) l)"

definition pl_getLatestPriceInfo :: "PythPriceListener \<Rightarrow> string \<Rightarrow> PriceInfo option" where
  "pl_getLatestPriceInfo l i = map_get (plLatest l) i"

subsection \<open>The interface \<^verbatim>\<open>IPriceListener\<close>\<close>

text \<open>
  The controller asks both listeners the same question.  A listener learns prices one at a time; it may keep what
  it has instead of a new price for the same feed, and does not touch the other feeds.
\<close>

locale price_listener =
  fixes get :: "'l \<Rightarrow> string \<Rightarrow> PriceInfo option"
    and learn :: "string \<Rightarrow> PriceInfo \<Rightarrow> 'l \<Rightarrow> 'l"
  assumes other: "j \<noteq> i \<Longrightarrow> get (learn i info l) j = get l j"
    and same: "get (learn i info l) i = Some info \<or> (get (learn i info l) i = get l i \<and> get l i \<noteq> None)"
begin

definition learn_all :: "(string \<times> PriceInfo) list \<Rightarrow> 'l \<Rightarrow> 'l" where
  "learn_all obs l = fold (\<lambda>(i, info). learn i info) obs l"

lemma keeps: "get l j \<noteq> None \<Longrightarrow> get (learn_all obs l) j \<noteq> None"
proof (induction obs arbitrary: l)
  case (Cons ob obs)
  obtain i info where o: "ob = (i, info)" by (cases ob)
  have "get (learn i info l) j \<noteq> None" using Cons.prems other[of j i info l] same[of i info l] by (cases "j = i") auto
  from Cons.IH[OF this] show ?case by (simp add: learn_all_def o)
qed (simp add: learn_all_def)

text \<open>A price a listener returns was there before or is one it was told, and every feed it was told of is known.\<close>

lemma provenance: "get (learn_all obs l) j = Some info \<Longrightarrow> get l j = Some info \<or> (j, info) \<in> set obs"
proof (induction obs arbitrary: l)
  case (Cons ob obs)
  obtain i x where o: "ob = (i, x)" by (cases ob)
  from Cons.prems have "get (learn_all obs (learn i x l)) j = Some info" by (simp add: learn_all_def o)
  from Cons.IH[OF this] show ?case using other[of j i x l] same[of i x l] by (cases "j = i") (auto simp: o)
qed (simp add: learn_all_def)

lemma known: "(j, info) \<in> set obs \<Longrightarrow> get (learn_all obs l) j \<noteq> None"
proof (induction obs arbitrary: l)
  case (Cons ob obs)
  obtain i x where o: "ob = (i, x)" by (cases ob)
  show ?case
  proof (cases "(j, info) \<in> set obs")
    case True
    from Cons.IH[OF this, of "learn i x l"] show ?thesis by (simp add: learn_all_def o)
  next
    case False
    with Cons.prems o have "i = j" by auto
    then have "get (learn i x l) j \<noteq> None" using same[of i x l] by auto
    from keeps[OF this, of obs] show ?thesis by (simp add: learn_all_def o)
  qed
qed simp

end

lemma update_latest_get:
  "cl_getLatestPriceInfo (updateLatestPriceInfo i info l) j =
     (case cl_getLatestPriceInfo l i of
        Some c \<Rightarrow> if j = i \<and> \<not> num_lt (infoPublishTime info) (infoPublishTime c) then Some info else cl_getLatestPriceInfo l j
      | None \<Rightarrow> if j = i then Some info else cl_getLatestPriceInfo l j)"
  by (auto simp: updateLatestPriceInfo_def cl_getLatestPriceInfo_def js_alist.get_put split: option.splits)

interpretation chain: price_listener cl_getLatestPriceInfo updateLatestPriceInfo
  by unfold_locales (auto simp: update_latest_get split: option.splits)

interpretation service: price_listener pl_getLatestPriceInfo pl_set
  by unfold_locales (simp_all add: pl_getLatestPriceInfo_def pl_set_def js_alist.get_put)

text \<open>After \<^verbatim>\<open>start\<close> every feed the service sent is known.\<close>

lemma start_knows:
  assumes "f \<in> set fs"
  shows "pl_getLatestPriceInfo (pyth_listener_start (Some fs) l) (feedId f) \<noteq> None"
proof -
  have "pyth_listener_start (Some fs) l = service.learn_all (map (\<lambda>f. (feedId f, info_of_price (getPriceUnchecked f))) fs) l"
    by (simp add: pyth_listener_start_def service.learn_all_def fold_map comp_def)
  with service.known[of "feedId f" "info_of_price (getPriceUnchecked f)"] assms show ?thesis by auto
qed

subsection \<open>When to update: \<^verbatim>\<open>price-config.ts\<close>\<close>

record EarlyUpdate =
  rawEarlyTime :: "rat option"
  rawEarlyPrice :: "rat option"
  rawEarlyConfidence :: "rat option"

record RawPriceConfig =
  rawAlias :: string
  rawId :: string
  rawTime :: rat
  rawPrice :: rat
  rawConfidence :: rat
  rawEarly :: "EarlyUpdate option"

record PriceConfig =
  cfgAlias :: string
  cfgFeedId :: string
  cfgTimeDifference :: rat
  cfgPriceDeviation :: rat
  cfgConfidenceRatio :: rat
  customEarlyUpdate :: "bool option"
  earlyUpdateTimeDifference :: "rat option"
  earlyUpdatePriceDeviation :: "rat option"
  earlyUpdateConfidenceRatio :: "rat option"

definition price_config :: "RawPriceConfig \<Rightarrow> PriceConfig" where
  "price_config raw =
     \<lparr>cfgAlias = rawAlias raw, cfgFeedId = removeLeading0x (rawId raw), cfgTimeDifference = rawTime raw,
      cfgPriceDeviation = rawPrice raw, cfgConfidenceRatio = rawConfidence raw, customEarlyUpdate = Some (rawEarly raw \<noteq> None),
      earlyUpdateTimeDifference = Option.bind (rawEarly raw) rawEarlyTime,
      earlyUpdatePriceDeviation = Option.bind (rawEarly raw) rawEarlyPrice,
      earlyUpdateConfidenceRatio = Option.bind (rawEarly raw) rawEarlyConfidence\<rparr>"

definition readPriceConfigFile :: "RawPriceConfig list outcome \<Rightarrow> PriceConfig list outcome" where
  "readPriceConfigFile validated = e_bind validated (\<lambda>raws. Inr (map price_config raws))"

datatype UpdateCondition = YES | EARLY | NO

text \<open>
  Quotients of numbers that may be infinite: \<^verbatim>\<open>x / 0\<close> is an infinity with the sign of \<open>x\<close>, and \<^verbatim>\<open>0 / 0\<close> is \<^verbatim>\<open>NaN\<close>.
\<close>

datatype xfloat = Fin rat | PosInf | NegInf | XNaN

fun x_div :: "jsfloat \<Rightarrow> jsfloat \<Rightarrow> xfloat" where
  "x_div (Some a) (Some b) =
     (if b \<noteq> 0 then Fin (fl (a / b)) else if a > 0 then PosInf else if a < 0 then NegInf else XNaN)"
| "x_div _ _ = XNaN"

fun x_percent :: "xfloat \<Rightarrow> xfloat" where
  "x_percent (Fin a) = Fin (fl (a * 100))"
| "x_percent x = x"

fun x_abs :: "xfloat \<Rightarrow> xfloat" where
  "x_abs (Fin a) = Fin \<bar>a\<bar>"
| "x_abs NegInf = PosInf"
| "x_abs x = x"

fun x_ge :: "xfloat \<Rightarrow> rat \<Rightarrow> bool" where
  "x_ge (Fin a) t = (t \<le> a)"
| "x_ge PosInf t = True"
| "x_ge _ t = False"

fun num_ge_rat :: "jsnum \<Rightarrow> rat \<Rightarrow> bool" where
  "num_ge_rat (Num n) t = (t \<le> of_int n)"
| "num_ge_rat NaN t = False"

definition priceDeviationPct :: "PriceInfo \<Rightarrow> PriceInfo \<Rightarrow> xfloat" where
  "priceDeviationPct source tgt =
     x_percent (x_div (f_abs (f_sub (json_float (JStr (infoPrice source))) (json_float (JStr (infoPrice tgt)))))
       (json_float (JStr (infoPrice tgt))))"

definition confidenceRatioPct :: "PriceInfo \<Rightarrow> xfloat" where
  "confidenceRatioPct source =
     x_abs (x_percent (x_div (json_float (JStr (infoConf source))) (json_float (JStr (infoPrice source)))))"

definition shouldUpdate :: "PriceConfig \<Rightarrow> PriceInfo option \<Rightarrow> PriceInfo option \<Rightarrow> UpdateCondition" where
  "shouldUpdate c sourceLatest targetLatest =
     (case sourceLatest of
        None \<Rightarrow> YES
      | Some source \<Rightarrow>
          (case targetLatest of
             None \<Rightarrow> YES
           | Some tgt \<Rightarrow>
               if num_lt (infoPublishTime source) (infoPublishTime tgt) then NO
               else
                 (let timeDifference = num_sub (infoPublishTime source) (infoPublishTime tgt);
                      dev = priceDeviationPct source tgt; ratio = confidenceRatioPct source
                  in if num_ge_rat timeDifference (cfgTimeDifference c) \<or> x_ge dev (cfgPriceDeviation c) \<or> x_ge ratio (cfgConfidenceRatio c)
                     then YES
                     else if customEarlyUpdate c = None \<or> customEarlyUpdate c = Some False
                       \<or> (case earlyUpdateTimeDifference c of None \<Rightarrow> False | Some t \<Rightarrow> num_ge_rat timeDifference t)
                       \<or> (case earlyUpdatePriceDeviation c of None \<Rightarrow> False | Some t \<Rightarrow> x_ge dev t)
                       \<or> (case earlyUpdateConfidenceRatio c of None \<Rightarrow> False | Some t \<Rightarrow> x_ge ratio t)
                     then EARLY else NO)))"

subsection \<open>Rounds: \<^verbatim>\<open>controller.ts\<close>\<close>

text \<open>One round: whether the threshold was met, and what is collected for the push.\<close>

definition next_pub_time :: "PriceInfo option \<Rightarrow> jsnum" where
  "next_pub_time tgt = num_add (case tgt of Some i \<Rightarrow> (if infoPublishTime i = NaN then Num 0 else infoPublishTime i) | None \<Rightarrow> Num 0) (Num 1)"

fun collect_prices ::
    "(string \<Rightarrow> PriceInfo option) \<Rightarrow> (string \<Rightarrow> PriceInfo option) \<Rightarrow> PriceConfig list \<Rightarrow> bool \<times> PriceConfig list \<times> jsnum list
       \<Rightarrow> bool \<times> PriceConfig list \<times> jsnum list" where
  "collect_prices src tgt [] acc = acc"
| "collect_prices src tgt (c # cs) (met, prices, pubs) =
     (let t = tgt (cfgFeedId c); cond = shouldUpdate c (src (cfgFeedId c)) t
      in collect_prices src tgt cs
           (met \<or> cond = YES,
            if cond = YES \<or> cond = EARLY then prices @ [c] else prices,
            if cond = YES \<or> cond = EARLY then pubs @ [next_pub_time t] else pubs))"

definition controller_round ::
    "PriceConfig list \<Rightarrow> (string \<Rightarrow> PriceInfo option) \<Rightarrow> (string \<Rightarrow> PriceInfo option) \<Rightarrow> (string list \<times> jsnum list) option" where
  "controller_round configs src tgt =
     (case collect_prices src tgt configs (False, [], []) of
        (met, prices, pubs) \<Rightarrow> if met then Some (map cfgFeedId prices, pubs) else None)"

text \<open>The running program: the configuration, the two listeners, and the calls of \<^verbatim>\<open>updatePriceFeed\<close> so far.\<close>

record Controller =
  ctlConfigs :: "PriceConfig list"
  ctlSource :: PythPriceListener
  ctlTarget :: ChainPriceListener
  ctlPushed :: "(string list \<times> jsnum list) list"

definition do_round :: "Controller \<Rightarrow> Controller" where
  "do_round s =
     (case controller_round (ctlConfigs s) (pl_getLatestPriceInfo (ctlSource s)) (cl_getLatestPriceInfo (ctlTarget s)) of
        None \<Rightarrow> s
      | Some p \<Rightarrow> s\<lparr>ctlPushed := ctlPushed s @ [p]\<rparr>)"

inductive pusher_step :: "Controller \<Rightarrow> Controller \<Rightarrow> bool" where
  observe: "i \<in> itemId ` set (clItems (ctlTarget s)) \<Longrightarrow>
     pusher_step s (s\<lparr>ctlTarget := updateLatestPriceInfo i info (ctlTarget s)\<rparr>)"
| feed: "pusher_step s (s\<lparr>ctlSource := onNewPriceFeed nowMs f (ctlSource s)\<rparr>)"
| round: "pusher_step s (do_round s)"

inductive_cases pusher_stepE: "pusher_step s s'"

text \<open>The pushers of the chains begin alike: nothing to push, or arguments that do not fit.\<close>

definition push_guard :: "string list \<Rightarrow> 'a list \<Rightarrow> unit outcome option" where
  "push_guard priceIds pubTimesToPush =
     (if priceIds = [] then Some (Inr ())
      else if length priceIds \<noteq> length pubTimesToPush then Some (Inl (mk_error ''Invalid arguments''))
      else None)"

subsection \<open>A round pushes what is due\<close>

lemma collect_prices_app:
  "collect_prices src tgt cs (met, prices, pubs) =
     (let due = filter (\<lambda>c. shouldUpdate c (src (cfgFeedId c)) (tgt (cfgFeedId c)) \<noteq> NO) cs
      in (met \<or> (\<exists>c \<in> set cs. shouldUpdate c (src (cfgFeedId c)) (tgt (cfgFeedId c)) = YES),
          prices @ due, pubs @ map (\<lambda>c. next_pub_time (tgt (cfgFeedId c))) due))"
proof (induction cs arbitrary: met prices pubs)
  case (Cons c cs)
  show ?case
    by (cases "shouldUpdate c (src (cfgFeedId c)) (tgt (cfgFeedId c))") (simp_all add: Cons.IH Let_def)
qed (simp add: Let_def)

lemma controller_round_spec_lemma:
  "controller_round configs src tgt =
     (let cond = \<lambda>c. shouldUpdate c (src (cfgFeedId c)) (tgt (cfgFeedId c)); due = filter (\<lambda>c. cond c \<noteq> NO) configs
      in if list_ex (\<lambda>c. cond c = YES) configs
         then Some (map cfgFeedId due, map (\<lambda>c. next_pub_time (tgt (cfgFeedId c))) due)
         else None)"
  by (auto simp: controller_round_def collect_prices_app Let_def list_ex_iff)

text \<open>
  C35.  A round pushes exactly when some feed must be updated, and then it pushes, in the order of the configuration, every feed that
  must or may be updated, each with the publish time after the one the chain has; the two lists have the same length.
\<close>

theorem controller_round_spec:
  "controller_round configs src tgt =
     (let cond = \<lambda>c. shouldUpdate c (src (cfgFeedId c)) (tgt (cfgFeedId c)); due = filter (\<lambda>c. cond c \<noteq> NO) configs
      in if list_ex (\<lambda>c. cond c = YES) configs
         then Some (map cfgFeedId due, map (\<lambda>c. next_pub_time (tgt (cfgFeedId c))) due)
         else None)"
  by (rule controller_round_spec_lemma)

text \<open>
  The decision for one feed.  Without a price from either side the feed is pushed; an older source is never pushed; a feed that
  the source has not updated for the configured time is always pushed; and without early-update settings of its own
  every feed that is not older joins the batch.
\<close>

theorem shouldUpdate_cases:
  "(src = None \<or> tgt = None \<longrightarrow> shouldUpdate c src tgt = YES)
   \<and> (\<forall>s t. src = Some s \<and> tgt = Some t \<longrightarrow>
        (num_lt (infoPublishTime s) (infoPublishTime t) \<longrightarrow> shouldUpdate c src tgt = NO)
        \<and> (num_ge_rat (num_sub (infoPublishTime s) (infoPublishTime t)) (cfgTimeDifference c)
             \<and> \<not> num_lt (infoPublishTime s) (infoPublishTime t) \<longrightarrow> shouldUpdate c src tgt = YES)
        \<and> (customEarlyUpdate c \<noteq> Some True \<and> \<not> num_lt (infoPublishTime s) (infoPublishTime t) \<longrightarrow> shouldUpdate c src tgt \<noteq> NO))"
  by (auto simp: shouldUpdate_def Let_def split: option.splits)

subsection \<open>What the chain listener knows never gets older\<close>

definition timed :: "ChainPriceListener \<Rightarrow> bool" where
  "timed l \<longleftrightarrow> (\<forall>i c. cl_getLatestPriceInfo l i = Some c \<longrightarrow> infoPublishTime c \<noteq> NaN)"

definition no_older :: "ChainPriceListener \<Rightarrow> ChainPriceListener \<Rightarrow> bool" where
  "no_older l l' \<longleftrightarrow>
     (\<forall>i c. cl_getLatestPriceInfo l i = Some c \<longrightarrow>
        (\<exists>c'. cl_getLatestPriceInfo l' i = Some c' \<and> num_le (infoPublishTime c) (infoPublishTime c')))"

lemma update_no_older:
  assumes "timed l" and "infoPublishTime info \<noteq> NaN"
  shows "timed (updateLatestPriceInfo i info l) \<and> no_older l (updateLatestPriceInfo i info l)"
proof -
  have le: "num_le a b \<or> num_lt b a" if "a \<noteq> NaN" "b \<noteq> NaN" for a b using that by (cases a; cases b) auto
  have refl: "num_le a a" if "a \<noteq> NaN" for a using that by (cases a) auto
  show ?thesis
    using assms le refl unfolding timed_def no_older_def update_latest_get
    by (auto split: option.splits if_splits)
qed

lemma no_older_trans: "no_older a b \<Longrightarrow> no_older b c \<Longrightarrow> no_older a c"
proof -
  have tr: "num_le x y \<Longrightarrow> num_le y z \<Longrightarrow> num_le x z" for x y z by (cases x; cases y; cases z) auto
  assume "no_older a b" "no_older b c"
  then show ?thesis unfolding no_older_def using tr by meson
qed

lemma no_older_refl: "timed l \<Longrightarrow> no_older l l"
proof -
  have "num_le a a" if "a \<noteq> NaN" for a using that by (cases a) auto
  then show "timed l \<Longrightarrow> no_older l l" by (auto simp: timed_def no_older_def)
qed

definition knows :: "ChainPriceListener \<Rightarrow> string \<Rightarrow> PriceInfo \<Rightarrow> bool" where
  "knows l i info \<longleftrightarrow> (case cl_getLatestPriceInfo l i of Some c \<Rightarrow> num_le (infoPublishTime info) (infoPublishTime c) | None \<Rightarrow> False)"

lemma knows_no_older: "no_older l l' \<Longrightarrow> knows l i info \<Longrightarrow> knows l' i info"
proof -
  have tr: "num_le x y \<Longrightarrow> num_le y z \<Longrightarrow> num_le x z" for x y z by (cases x; cases y; cases z) auto
  assume "no_older l l'" "knows l i info"
  then show ?thesis unfolding no_older_def knows_def using tr by (fastforce split: option.splits)
qed

lemma knows_update: "infoPublishTime info \<noteq> NaN \<Longrightarrow> knows (updateLatestPriceInfo i info l) i info"
proof -
  have "num_le a a \<or> a = NaN" "num_lt a b \<Longrightarrow> num_le a b" for a b by (cases a; cases b; auto)+
  then show "infoPublishTime info \<noteq> NaN \<Longrightarrow> knows (updateLatestPriceInfo i info l) i info"
    unfolding knows_def update_latest_get by (auto split: option.splits)
qed

lemma observe_all_monotone:
  assumes "list_all (\<lambda>(i, info). infoPublishTime info \<noteq> NaN) obs" and "timed l"
  shows "no_older l (chain.learn_all obs l) \<and> list_all (\<lambda>(i, info). knows (chain.learn_all obs l) i info) obs"
  using assms
proof (induction obs arbitrary: l)
  case Nil
  then show ?case by (simp add: no_older_refl chain.learn_all_def)
next
  case (Cons ob obs)
  obtain i info where o: "ob = (i, info)" by (cases ob)
  define l1 where "l1 = updateLatestPriceInfo i info l"
  have l1: "chain.learn_all (ob # obs) l = chain.learn_all obs l1" by (simp add: chain.learn_all_def o l1_def)
  from Cons.prems(1) o have n: "infoPublishTime info \<noteq> NaN" by simp
  from update_no_older[OF Cons.prems(2) n, of i] have t: "timed l1" "no_older l l1" by (simp_all add: l1_def)
  have IH: "no_older l1 (chain.learn_all obs l1)" "list_all (\<lambda>(i, info). knows (chain.learn_all obs l1) i info) obs"
    using Cons.IH[OF _ t(1)] Cons.prems(1) by auto
  from knows_no_older[OF IH(1)] knows_update[OF n, of i l] have "knows (chain.learn_all obs l1) i info" by (simp add: l1_def)
  with IH no_older_trans[OF t(2) IH(1)] show ?case unfolding l1 by (simp add: o)
qed

text \<open>
  Overlapping polls and a subscription may report observations of the chain in any order: whatever sequence of observations
  the listener is given, the price it returns for a feed is never older than one it returned before, nor than
  any it was told of, and it is always one of those.
\<close>

theorem chain_listener_monotone:
  assumes "list_all (\<lambda>(i, info). infoPublishTime info \<noteq> NaN) obs" and "timed l"
  shows "no_older l (fold (\<lambda>(i, info). updateLatestPriceInfo i info) obs l)
     \<and> list_all (\<lambda>(i, info). knows (fold (\<lambda>(i, info). updateLatestPriceInfo i info) obs l) i info) obs
     \<and> (\<forall>j info. cl_getLatestPriceInfo (fold (\<lambda>(i, info). updateLatestPriceInfo i info) obs l) j = Some info \<longrightarrow>
          cl_getLatestPriceInfo l j = Some info \<or> (j, info) \<in> set obs)"
  using observe_all_monotone[OF assms] chain.provenance[of obs l] by (simp add: chain.learn_all_def)

definition demo_price_info :: "int \<Rightarrow> PriceInfo" where
  "demo_price_info t = \<lparr>infoPrice = ''100'', infoConf = ''1'', infoPublishTime = Num t\<rparr>"

theorem chain_listener_monotone_witness:
  "knows (fold (\<lambda>(i, info). updateLatestPriceInfo i info) [(''f'', demo_price_info 5), (''f'', demo_price_info 3)] (chain_listener_new []))
     ''f'' (demo_price_info 5)"
proof -
  have "list_all (\<lambda>(i, info). infoPublishTime info \<noteq> NaN) [(''f'', demo_price_info 5), (''f'', demo_price_info 3)]" by (simp add: demo_price_info_def)
  moreover have "timed (chain_listener_new [])" by (simp add: timed_def chain_listener_new_def cl_getLatestPriceInfo_def map_get_def)
  ultimately show ?thesis using chain_listener_monotone[of "[(''f'', demo_price_info 5), (''f'', demo_price_info 3)]"] by simp
qed

definition demo_price_config :: PriceConfig where
  "demo_price_config = price_config \<lparr>rawAlias = ''SUI/USD'', rawId = ''0xf'', rawTime = 60, rawPrice = 1 / 2, rawConfidence = 1, rawEarly = None\<rparr>"

theorem shouldUpdate_cases_witness:
  "shouldUpdate demo_price_config (Some (demo_price_info 3)) (Some (demo_price_info 5)) = NO"
  using shouldUpdate_cases[of "Some (demo_price_info 3)" "Some (demo_price_info 5)" demo_price_config] by (simp add: demo_price_info_def)

subsection \<open>The deviation of a price\<close>

text \<open>
  For prices of at most 53 bits the percentage the pusher compares with its threshold is the deviation relative to the price on the chain,
  up to the relative error of two roundings.
\<close>

theorem priceDeviationPct_accurate:
  assumes "infoPrice source = show_int s" and "infoPrice tgt = show_int t"
    and "0 < t" and "t < 2 ^ 53" and "0 \<le> s" and "s < 2 ^ 53"
  defines "exact \<equiv> \<bar>of_int (s - t)\<bar> / of_int t * 100"
  shows "\<exists>x. priceDeviationPct source tgt = Fin x \<and> exact * (1 - 1 / 2 ^ 53) ^ 2 \<le> x \<and> x \<le> exact * (1 + 1 / 2 ^ 53) ^ 2"
proof -
  have num: "json_float (JStr (show_int z)) = Some (of_int z)" if "0 \<le> z" "z < 2 ^ 53" for z
    using that dbl_safe[of z] by (simp add: json_float_def max_safe_def del: to_number.simps)
  have "\<bar>s - t\<bar> < 2 ^ 53" using assms(3-6) by linarith
  from fl_of_int[OF this] have sub: "f_sub (Some (of_int s)) (Some (of_int t)) = Some (of_int (s - t))" by (simp add: f_sub_def)
  define d :: rat where "d = \<bar>of_int (s - t)\<bar> / of_int t"
  have d0: "0 \<le> d" using assms(3) by (simp add: d_def)
  define q where "q = fl d"
  have pct: "priceDeviationPct source tgt = Fin (fl (q * 100))"
    using assms(3) num[of s] num[of t] assms(3-6) sub
    by (simp add: priceDeviationPct_def assms(1,2) q_def d_def del: to_number.simps)
  have lower: "x * (1 - 1 / 2 ^ 53) \<le> fl x" if "0 \<le> x" for x
  proof -
    have "\<bar>fl x - x\<bar> \<le> x / 2 ^ 53" using fl_error[of x] that by simp
    then have "x - x / 2 ^ 53 \<le> fl x" by linarith
    then show ?thesis by (simp add: algebra_simps)
  qed
  have q0: "0 \<le> q" using d0 by (simp add: q_def fl_nonneg)
  have q: "d * (1 - 1 / 2 ^ 53) \<le> q" "q \<le> d * (1 + 1 / 2 ^ 53)" using lower[OF d0] fl_upper[OF d0] by (simp_all add: q_def)
  have "d * 100 * (1 - 1 / 2 ^ 53) ^ 2 = d * (1 - 1 / 2 ^ 53) * 100 * (1 - 1 / 2 ^ 53)" by (simp add: power2_eq_square)
  also have "\<dots> \<le> q * 100 * (1 - 1 / 2 ^ 53)" using q(1) by (intro mult_right_mono) auto
  also have "\<dots> \<le> fl (q * 100)" using q0 by (intro lower) simp
  finally have lo: "d * 100 * (1 - 1 / 2 ^ 53) ^ 2 \<le> fl (q * 100)" .
  have "fl (q * 100) \<le> q * 100 * (1 + 1 / 2 ^ 53)" using q0 by (intro fl_upper) simp
  also have "\<dots> \<le> d * (1 + 1 / 2 ^ 53) * 100 * (1 + 1 / 2 ^ 53)" using q(2) by (intro mult_right_mono) auto
  also have "\<dots> = d * 100 * (1 + 1 / 2 ^ 53) ^ 2" by (simp add: power2_eq_square)
  finally have hi: "fl (q * 100) \<le> d * 100 * (1 + 1 / 2 ^ 53) ^ 2" .
  have "exact = d * 100" by (simp add: exact_def d_def)
  with lo hi pct show ?thesis by simp
qed

theorem priceDeviationPct_accurate_witness:
  "\<exists>x. priceDeviationPct ((demo_price_info 5)\<lparr>infoPrice := show_int 105\<rparr>) ((demo_price_info 3)\<lparr>infoPrice := show_int 100\<rparr>) = Fin x
     \<and> 5 * (1 - 1 / 2 ^ 53) ^ 2 \<le> x \<and> x \<le> 5 * (1 + 1 / 2 ^ 53) ^ 2"
  using priceDeviationPct_accurate[of "(demo_price_info 5)\<lparr>infoPrice := show_int 105\<rparr>" 105 "(demo_price_info 3)\<lparr>infoPrice := show_int 100\<rparr>" 100] by simp

text \<open>
  The quotient is taken with the price on the chain itself and not its size: a negative price there gives a percentage
  that is not positive, and no deviation, however large, reaches the threshold.
\<close>

lemma negative_price_hides_deviation:
  assumes "json_float (JStr (infoPrice tgt)) = Some t" and "t < 0" and "0 < thr"
  shows "\<not> x_ge (priceDeviationPct source tgt) thr"
proof -
  have neg: "fl x \<le> 0" if "x \<le> 0" for x
    using fl_error[of x] that by (simp add: abs_le_iff field_simps)
  show ?thesis
  proof (cases "f_sub (json_float (JStr (infoPrice source))) (Some t)")
    case None
    then show ?thesis by (simp add: priceDeviationPct_def assms(1) del: to_number.simps)
  next
    case (Some d)
    have "\<bar>d\<bar> / t \<le> 0" using assms(2) by (simp add: divide_le_0_iff)
    then have "fl (\<bar>d\<bar> / t) * 100 \<le> 0" using neg by (simp add: mult_le_0_iff)
    from neg[OF this] show ?thesis using assms(2,3) by (simp add: priceDeviationPct_def assms(1) Some del: to_number.simps)
  qed
qed

subsection \<open>What a running pusher asks for\<close>

definition push_ok :: "PriceConfig list \<Rightarrow> string list \<times> jsnum list \<Rightarrow> bool" where
  "push_ok configs p \<longleftrightarrow> fst p \<noteq> [] \<and> length (fst p) = length (snd p) \<and> set (fst p) \<subseteq> cfgFeedId ` set configs"

definition controller_inv :: "Controller \<Rightarrow> bool" where
  "controller_inv s \<longleftrightarrow> list_all (push_ok (ctlConfigs s)) (ctlPushed s)"

lemma round_push_ok: "controller_round configs src tgt = Some p \<Longrightarrow> push_ok configs p"
  by (auto simp: controller_round_spec_lemma push_ok_def Let_def list_ex_iff filter_empty_conv split: if_splits)

lemma pusher_step_inv: "pusher_step s s' \<Longrightarrow> controller_inv s \<Longrightarrow> controller_inv s' \<and> ctlConfigs s' = ctlConfigs s"
  by (erule pusher_stepE) (auto simp: controller_inv_def do_round_def round_push_ok split: option.splits)

definition controller_start :: "PriceConfig list \<Rightarrow> PythPriceListener \<Rightarrow> ChainPriceListener \<Rightarrow> Controller" where
  "controller_start configs source tgt = \<lparr>ctlConfigs = configs, ctlSource = source, ctlTarget = tgt, ctlPushed = []\<rparr>"

lemma reachable_push_ok:
  assumes "pusher_step\<^sup>*\<^sup>* (controller_start configs source tgt) s"
  shows "list_all (push_ok configs) (ctlPushed s)"
proof -
  from assms have "controller_inv s \<and> ctlConfigs s = configs"
    by (induction) (auto simp: controller_start_def controller_inv_def dest: pusher_step_inv)
  then show ?thesis by (auto simp: controller_inv_def)
qed

text \<open>
  However subscription messages, observations of the chain and rounds interleave, every call of \<^verbatim>\<open>updatePriceFeed\<close> names
  at least one feed, only configured feeds, and as many publish times as feeds.
\<close>

theorem pusher_calls_well_formed:
  assumes "pusher_step\<^sup>*\<^sup>* (controller_start configs source tgt) s"
  shows "list_all (push_ok configs) (ctlPushed s)"
  using assms by (rule reachable_push_ok)

theorem pusher_calls_well_formed_witness:
  "\<exists>s. pusher_step\<^sup>*\<^sup>* (controller_start [demo_price_config] (pyth_listener_new []) (chain_listener_new [])) s
     \<and> ctlPushed s = [([''f''], [Num 1])] \<and> list_all (push_ok [demo_price_config]) (ctlPushed s)"
proof -
  let ?s = "controller_start [demo_price_config] (pyth_listener_new []) (chain_listener_new [])"
  have "pusher_step\<^sup>*\<^sup>* ?s (do_round ?s)" using pusher_step.round by blast
  moreover have "ctlPushed (do_round ?s) = [([''f''], [Num 1])]"
    using dbl_safe[of 1]
    by (simp add: do_round_def controller_start_def controller_round_def shouldUpdate_def pl_getLatestPriceInfo_def pyth_listener_new_def
        map_get_def cl_getLatestPriceInfo_def chain_listener_new_def Let_def next_pub_time_def demo_price_config_def price_config_def
        removeLeading0x_def starts_with_def max_safe_def)
  ultimately show ?thesis using pusher_calls_well_formed by blast
qed

end
