(* ===== verification/Base64.thy ===== *)
theory Base64
  imports Buffers
begin

section \<open>Base64\<close>

text \<open>
  \<^verbatim>\<open>Buffer.from(s, "base64")\<close> and \<^verbatim>\<open>buf.toString("base64")\<close>.  The decoder also takes the URL-safe digits and skips every character that is no
  digit, the padding included; digits that are left over at the end give the whole bytes they contain.
\<close>

definition b64_alphabet :: string where
  "b64_alphabet = ''ABCDEFGHIJKLMNOPQRSTUVWXYZabcdefghijklmnopqrstuvwxyz0123456789+/''"

definition b64_val :: "char \<Rightarrow> nat option" where
  "b64_val c = (if c = CHR ''-'' then Some 62 else if c = CHR ''_'' then Some 63 else index_of c b64_alphabet)"

fun b64_groups :: "nat list \<Rightarrow> bytes" where
  "b64_groups (a # b # c # d # r) =
     word_of_nat (a * 4 + b div 16) # word_of_nat (b mod 16 * 16 + c div 4) # word_of_nat (c mod 4 * 64 + d) # b64_groups r"
| "b64_groups [a, b, c] = [word_of_nat (a * 4 + b div 16), word_of_nat (b mod 16 * 16 + c div 4)]"
| "b64_groups [a, b] = [word_of_nat (a * 4 + b div 16)]"
| "b64_groups _ = []"

definition from_base64 :: "string \<Rightarrow> bytes" where
  "from_base64 s = b64_groups (List.map_filter b64_val s)"

fun to_base64 :: "bytes \<Rightarrow> string" where
  "to_base64 (x # y # z # r) =
     [b64_alphabet ! (unat x div 4), b64_alphabet ! (unat x mod 4 * 16 + unat y div 16),
      b64_alphabet ! (unat y mod 16 * 4 + unat z div 64), b64_alphabet ! (unat z mod 64)] @ to_base64 r"
| "to_base64 [x, y] =
     [b64_alphabet ! (unat x div 4), b64_alphabet ! (unat x mod 4 * 16 + unat y div 16), b64_alphabet ! (unat y mod 16 * 4), CHR ''='']"
| "to_base64 [x] = [b64_alphabet ! (unat x div 4), b64_alphabet ! (unat x mod 4 * 16), CHR ''='', CHR ''='']"
| "to_base64 [] = []"

lemma length_b64_alphabet: "length b64_alphabet = 64"
  by (simp add: b64_alphabet_def)

lemma distinct_b64_alphabet: "distinct b64_alphabet"
  by (simp add: b64_alphabet_def)

lemma b64_val_digit:
  assumes "d < 64"
  shows "b64_val (b64_alphabet ! d) = Some d"
proof -
  have "CHR ''-'' \<notin> set b64_alphabet" "CHR ''_'' \<notin> set b64_alphabet" by (simp_all add: b64_alphabet_def)
  then have "b64_alphabet ! d \<noteq> CHR ''-''" "b64_alphabet ! d \<noteq> CHR ''_''"
    using nth_mem[of d b64_alphabet] assms length_b64_alphabet by metis+
  then show ?thesis using assms by (simp add: b64_val_def index_of_nth distinct_b64_alphabet length_b64_alphabet)
qed

lemma b64_val_pad: "b64_val CHR ''='' = None"
  by (simp add: b64_val_def b64_alphabet_def)

lemma sextets:
  fixes x y z :: nat
  assumes "x < 256" "y < 256" "z < 256"
  shows "x div 4 < 64" "x mod 4 * 16 + y div 16 < 64" "y mod 16 * 4 + z div 64 < 64" "z mod 64 < 64" "y mod 16 * 4 < 64" "x mod 4 * 16 < 64"
    "x div 4 * 4 + (x mod 4 * 16 + y div 16) div 16 = x" "(x mod 4 * 16 + y div 16) mod 16 * 16 + (y mod 16 * 4 + z div 64) div 4 = y"
    "(y mod 16 * 4 + z div 64) mod 4 * 64 + z mod 64 = z" "x div 4 * 4 + (x mod 4 * 16) div 16 = x"
    "(x mod 4 * 16 + y div 16) mod 16 * 16 + (y mod 16 * 4) div 4 = y"
proof -
  have d: "y div 16 < 16" "z div 64 < 4" using assms by (auto simp: less_mult_imp_div_less)
  show "x div 4 < 64" "x mod 4 * 16 + y div 16 < 64" "y mod 16 * 4 + z div 64 < 64" "z mod 64 < 64" "y mod 16 * 4 < 64" "x mod 4 * 16 < 64"
    using assms d by (auto simp: less_mult_imp_div_less)
  have "(x mod 4 * 16 + y div 16) div 16 = x mod 4" "(x mod 4 * 16 + y div 16) mod 16 = y div 16"
    "(y mod 16 * 4 + z div 64) div 4 = y mod 16" "(y mod 16 * 4 + z div 64) mod 4 = z div 64"
    using d by simp_all
  then show "x div 4 * 4 + (x mod 4 * 16 + y div 16) div 16 = x" "(x mod 4 * 16 + y div 16) mod 16 * 16 + (y mod 16 * 4 + z div 64) div 4 = y"
    "(y mod 16 * 4 + z div 64) mod 4 * 64 + z mod 64 = z" "x div 4 * 4 + (x mod 4 * 16) div 16 = x"
    "(x mod 4 * 16 + y div 16) mod 16 * 16 + (y mod 16 * 4) div 4 = y"
    by (simp_all add: mult.commute)
qed

lemma from_base64_to_base64 [simp]: "from_base64 (to_base64 bs) = bs"
proof (induction bs rule: to_base64.induct)
  case (1 x y z r)
  note s = sextets[OF unat_byte_less[of x] unat_byte_less[of y] unat_byte_less[of z]]
  have "unat y div 16 < 16" "unat z div 64 < 4" using unat_byte_less[of y] unat_byte_less[of z] by (auto simp: less_mult_imp_div_less)
  with 1 show ?case by (simp add: from_base64_def map_filter_simps b64_val_digit s del: of_nat_add of_nat_mult)
next
  case (2 x y)
  note s = sextets[OF unat_byte_less[of x] unat_byte_less[of y] unat_byte_less[of y]]
  have "unat y div 16 < 16" using unat_byte_less[of y] by (auto simp: less_mult_imp_div_less)
  then show ?case by (simp add: from_base64_def map_filter_simps b64_val_digit b64_val_pad s del: of_nat_add of_nat_mult)
next
  case (3 x)
  note s = sextets[OF unat_byte_less[of x] unat_byte_less[of x] unat_byte_less[of x]]
  show ?case by (simp add: from_base64_def map_filter_simps b64_val_digit b64_val_pad s del: of_nat_add of_nat_mult)
qed (simp add: from_base64_def map_filter_simps)

end
