(* ===== verification/Sui_Pusher.thy ===== *)
theory Sui_Pusher
  imports Price_Pusher Sui_Pyth Base64 "HOL-Library.Multiset"
begin

section \<open>Pushing to Sui: \<^verbatim>\<open>apps/price_pusher/src/sui/sui.ts\<close>\<close>

text \<open>
  The listener that reads a price object, and the pusher, which sends many transactions at once, each paid by a coin of its own from a
  pool.  The node is a parameter: what it answers to each request.  A transaction that is on its way is
  a pair of the transaction and its gas coin; sending one and the arrival of an answer are steps that interleave in any order.
\<close>

definition GAS_FEE_FOR_SPLIT :: int where
  "GAS_FEE_FOR_SPLIT = 2000000000"

definition MAX_NUM_GAS_OBJECTS_IN_PTB :: nat where
  "MAX_NUM_GAS_OBJECTS_IN_PTB = 256"

definition MAX_NUM_OBJECTS_IN_ARGUMENT :: int where
  "MAX_NUM_OBJECTS_IN_ARGUMENT = 510"

record SuiObjectRef =
  refId :: json
  refVersion :: json
  refDigest :: json

subsection \<open>Reading a price: \<^verbatim>\<open>SuiPriceListener\<close>\<close>

text \<open>\<^verbatim>\<open>v.a.b.c\<close>, which throws on a missing inner object.\<close>

fun get_path :: "string list \<Rightarrow> json \<Rightarrow> json outcome" where
  "get_path [] v = Inr v"
| "get_path (k # ks) v = e_bind (get_prop k v) (get_path ks)"

definition price_info_of :: "json \<Rightarrow> PriceInfo outcome" where
  "price_info_of ct =
     e_bind (get_path [''fields'', ''price_info'', ''fields'', ''price_feed'', ''fields'', ''price'', ''fields''] ct) (\<lambda>priceInfo.
     e_bind (get_path [''price'', ''fields''] priceInfo) (\<lambda>fs.
     e_bind (get_prop ''magnitude'' fs) (\<lambda>magnitude.
     e_bind (get_prop ''negative'' fs) (\<lambda>negative.
     Inr \<lparr>infoPrice = (if truthy negative then ''-'' @ js_string magnitude else js_string magnitude),
          infoConf = js_string (own_prop ''conf'' priceInfo), infoPublishTime = to_number (own_prop ''timestamp'' priceInfo)\<rparr>))))"

definition price_not_found :: "string \<Rightarrow> js_error" where
  "price_not_found priceId = mk_error (''Price not found on chain for price id '' @ priceId)"

definition try_on_chain_price :: "provider \<Rightarrow> string \<Rightarrow> (SuiPythClient, PriceInfo) stateful" where
  "try_on_chain_price prov priceId =
     s_bind (getPriceFeedObjectId prov priceId) (\<lambda>oid.
     if oid = JUndef then s_throw (price_not_found priceId)
     else
       s_bind (ask prov (GetObject (js_string oid))) (\<lambda>obj.
       s_bind (s_lift (get_prop ''data'' obj)) (\<lambda>d.
       if \<not> truthy d \<or> \<not> truthy (own_prop ''content'' d) then s_throw (price_not_found priceId)
       else if own_prop ''dataType'' (own_prop ''content'' d) \<noteq> JStr ''moveObject''
       then s_throw (mk_error ''fetched object datatype should be moveObject'')
       else s_lift (price_info_of (own_prop ''content'' d)))))"

definition sui_getOnChainPriceInfo :: "provider \<Rightarrow> string \<Rightarrow> SuiPythClient \<Rightarrow> PriceInfo option \<times> SuiPythClient" where
  "sui_getOnChainPriceInfo prov priceId c =
     (case try_on_chain_price prov priceId c of (Inr info, c') \<Rightarrow> (Some info, c') | (Inl e, c') \<Rightarrow> (None, c'))"

subsection \<open>Splitting into chunks\<close>

partial_function (option) chunkArray :: "'a list \<Rightarrow> nat \<Rightarrow> 'a list list option" where
  "chunkArray array sz =
     (if array = [] then Some []
      else Option.bind (chunkArray (drop sz array) sz) (\<lambda>rest. Some (take sz array # rest)))"

subsection \<open>The gas pool\<close>

text \<open>
  \<^verbatim>\<open>getPackageId\<close> and the coins of the signer.  The \<open>k\<close>-th request for coins is answered by a page.
\<close>

definition pusher_getPackageId :: "json outcome \<Rightarrow> json outcome" where
  "pusher_getPackageId answer =
     e_bind answer (\<lambda>result.
     e_bind (get_prop ''data'' result) (\<lambda>d.
     let ct = opt_prop ''content'' d in
     if \<not> loose_eq_str (opt_prop ''dataType'' ct) ''moveObject'' then Inl (mk_error ''not move object'')
     else
       (let state = own_prop ''fields'' ct in
        e_bind (key_in ''upgrade_cap'' state) (\<lambda>b.
        if b then get_path [''upgrade_cap'', ''fields'', ''package''] state else Inl (mk_error ''upgrade_cap not found'')))))"

record coin_page =
  pageCoins :: "SuiObjectRef list"
  coinsHasNext :: bool
  coinsCursor :: json

partial_function (option) get_coins_loop ::
    "(nat \<Rightarrow> json \<Rightarrow> coin_page outcome) \<Rightarrow> nat \<Rightarrow> json \<Rightarrow> SuiObjectRef list \<Rightarrow> nat \<Rightarrow> (SuiObjectRef list \<times> nat) outcome option" where
  "get_coins_loop getCoins k cursor coins num =
     (case getCoins k cursor of
        Inl e \<Rightarrow> Some (Inl e)
      | Inr page \<Rightarrow>
          (let coins' = fold set_add (pageCoins page) coins; num' = num + length (pageCoins page)
           in if coinsHasNext page then get_coins_loop getCoins (Suc k) (coinsCursor page) coins' num'
              else Some (Inr (coins', num'))))"

definition getAllGasCoins :: "(nat \<Rightarrow> json \<Rightarrow> coin_page outcome) \<Rightarrow> SuiObjectRef list outcome option" where
  "getAllGasCoins getCoins =
     (case get_coins_loop getCoins 0 JUndef [] 0 of
        None \<Rightarrow> None
      | Some (Inl e) \<Rightarrow> Some (Inl e)
      | Some (Inr (coins, num)) \<Rightarrow>
          Some (if num \<noteq> length coins then Inl (mk_error ''Unexpected getCoins result: duplicate coins found'') else Inr coins))"

text \<open>
  A merge transaction is refused because of locked coins, which the error names, fails otherwise, or is executed, with an
  error in its effects or the references it changed.
\<close>

datatype merge_answer =
    MergeLocked "json list"
  | MergeThrew js_error
  | MergeDone "string option" "SuiObjectRef list option"

definition merge_payment :: "json list \<Rightarrow> SuiObjectRef option \<Rightarrow> SuiObjectRef list \<Rightarrow> SuiObjectRef list" where
  "merge_payment locked finalCoin chunk =
     (case finalCoin of None \<Rightarrow> [] | Some f \<Rightarrow> [f]) @ filter (\<lambda>coin. refId coin \<notin> set locked) chunk"

partial_function (option) merge_loop ::
    "(nat \<Rightarrow> SuiObjectRef list \<Rightarrow> merge_answer) \<Rightarrow> nat \<Rightarrow> SuiObjectRef list list \<Rightarrow> json list \<Rightarrow> SuiObjectRef option
       \<Rightarrow> SuiObjectRef option outcome option" where
  "merge_loop exec k chunks locked finalCoin =
     (case chunks of
        [] \<Rightarrow> Some (Inr finalCoin)
      | ch # chs \<Rightarrow>
          (case exec k (merge_payment locked finalCoin ch) of
             MergeLocked ids \<Rightarrow> merge_loop exec (Suc k) chunks (fold set_add ids locked) finalCoin
           | MergeThrew e \<Rightarrow> Some (Inl e)
           | MergeDone err muts \<Rightarrow>
               (case err of
                  Some msg \<Rightarrow> Some (Inl (mk_error (''Failed to merge coins when initializing gas pool: '' @ msg @ ''. Try re-running the script'')))
                | None \<Rightarrow>
                    (case muts of
                       None \<Rightarrow> Some (Inl (type_error ''Cannot read properties of undefined (reading 'map')''))
                     | Some refs \<Rightarrow> merge_loop exec (Suc k) chs locked (case refs of [] \<Rightarrow> None | r # _ \<Rightarrow> Some r)))))"

definition mergeGasCoinsIntoOne ::
    "(nat \<Rightarrow> json \<Rightarrow> coin_page outcome) \<Rightarrow> (nat \<Rightarrow> SuiObjectRef list \<Rightarrow> merge_answer) \<Rightarrow> json list \<Rightarrow> SuiObjectRef option outcome option" where
  "mergeGasCoinsIntoOne getCoins exec initialLocked =
     (case getAllGasCoins getCoins of
        None \<Rightarrow> None
      | Some (Inl e) \<Rightarrow> Some (Inl e)
      | Some (Inr gasCoins) \<Rightarrow>
          if length gasCoins = 1 then Some (Inr (Some (hd gasCoins)))
          else Option.bind (chunkArray gasCoins (MAX_NUM_GAS_OBJECTS_IN_PTB - 2)) (\<lambda>chunks.
               merge_loop exec 0 chunks (fold set_add initialLocked []) None))"

text \<open>\<^verbatim>\<open>(BigInt(balance) - BigInt(GAS_FEE_FOR_SPLIT)) / BigInt(numGasObjects)\<close>; the division cuts off towards zero.\<close>

definition split_amount :: "int \<Rightarrow> int \<Rightarrow> int outcome" where
  "split_amount balance num =
     (if num = 0 then Inl (range_error ''Division by zero'')
      else let x = balance - GAS_FEE_FOR_SPLIT in Inr (sgn x * sgn num * (\<bar>x\<bar> div \<bar>num\<bar>)))"

definition splitGasCoinEqually ::
    "(int \<Rightarrow> nat \<Rightarrow> SuiObjectRef \<Rightarrow> (string option \<times> SuiObjectRef list option) outcome) \<Rightarrow> int \<Rightarrow> nat \<Rightarrow> SuiObjectRef \<Rightarrow> SuiObjectRef list outcome" where
  "splitGasCoinEqually exec splitAmount num gasCoin =
     e_bind (exec splitAmount num gasCoin) (\<lambda>(err, created).
     case err of
       Some msg \<Rightarrow> Inl (mk_error (''Failed to initialize gas pool: '' @ msg @ ''. Try re-running the script''))
     | None \<Rightarrow>
         (case created of
            None \<Rightarrow> Inl (type_error ''Cannot read properties of undefined (reading 'map')'')
          | Some newCoins \<Rightarrow>
              if length newCoins \<noteq> num then Inl (mk_error (''Failed to initialize gas pool. Expected '' @ show_nat num)) else Inr newCoins))"

record pool_env =
  envCoins :: "nat \<Rightarrow> json \<Rightarrow> coin_page outcome"
  envMerge :: "nat \<Rightarrow> SuiObjectRef list \<Rightarrow> merge_answer"
  envObject :: "json \<Rightarrow> json outcome"
  envSplit :: "int \<Rightarrow> nat \<Rightarrow> SuiObjectRef \<Rightarrow> (string option \<times> SuiObjectRef list option) outcome"

definition coin_balance :: "json \<Rightarrow> int outcome" where
  "coin_balance coinResult =
     e_bind (get_prop ''data'' coinResult) (\<lambda>d.
     if truthy d \<and> truthy (own_prop ''content'' d) \<and> loose_eq_str (own_prop ''dataType'' (own_prop ''content'' d)) ''moveObject''
     then e_bind (get_path [''fields'', ''balance''] (own_prop ''content'' d)) big_int
     else Inl (mk_error ''Bad coin object''))"

definition initializeGasPool :: "pool_env \<Rightarrow> nat \<Rightarrow> json list \<Rightarrow> SuiObjectRef list outcome option" where
  "initializeGasPool env num ignored =
     (case mergeGasCoinsIntoOne (envCoins env) (envMerge env) ignored of
        None \<Rightarrow> None
      | Some (Inl e) \<Rightarrow> Some (Inl e)
      | Some (Inr None) \<Rightarrow> Some (Inl (type_error ''Cannot read properties of undefined (reading 'objectId')''))
      | Some (Inr (Some coin)) \<Rightarrow>
          Some (e_bind (envObject env (refId coin)) (\<lambda>r.
                e_bind (coin_balance r) (\<lambda>balance.
                e_bind (split_amount balance (int num)) (\<lambda>splitAmount.
                splitGasCoinEqually (envSplit env) (dbl splitAmount) num coin)))))"

subsection \<open>Sending\<close>

record SuiPricePusher =
  gasPool :: "SuiObjectRef list"
  inFlight :: "(transaction \<times> SuiObjectRef) list"

definition createWithAutomaticGasPool :: "(json outcome \<times> json outcome) \<Rightarrow> pool_env \<Rightarrow> nat \<Rightarrow> json list \<Rightarrow> SuiPricePusher outcome option" where
  "createWithAutomaticGasPool packages env num ignored =
     (if int num > MAX_NUM_OBJECTS_IN_ARGUMENT
      then Some (Inl (mk_error (''numGasObjects cannot be greater than 510 until we implement split chunking'')))
      else case pusher_getPackageId (fst packages) of
             Inl e \<Rightarrow> Some (Inl e)
           | Inr _ \<Rightarrow>
               (case pusher_getPackageId (snd packages) of
                  Inl e \<Rightarrow> Some (Inl e)
                | Inr _ \<Rightarrow>
                    map_option (\<lambda>r. e_bind r (\<lambda>pool. Inr \<lparr>gasPool = pool, inFlight = []\<rparr>)) (initializeGasPool env num ignored)))"

text \<open>\<^verbatim>\<open>sendTransactionBlock\<close> up to its first \<^verbatim>\<open>await\<close>.\<close>

definition send_start :: "transaction \<Rightarrow> SuiPricePusher \<Rightarrow> SuiPricePusher" where
  "send_start tx s =
     (case gasPool s of
        [] \<Rightarrow> s
      | gasObject # rest \<Rightarrow> s\<lparr>gasPool := rest, inFlight := inFlight s @ [(tx, gasObject)]\<rparr>)"

definition tryRefreshObjectReference :: "json outcome \<Rightarrow> SuiObjectRef \<Rightarrow> SuiObjectRef" where
  "tryRefreshObjectReference answer ref =
     (case e_bind answer (get_prop ''data'') of
        Inl e \<Rightarrow> ref
      | Inr d \<Rightarrow> if nullish d then ref
                 else \<lparr>refId = own_prop ''objectId'' d, refVersion = own_prop ''version'' d, refDigest = own_prop ''digest'' d\<rparr>)"

text \<open>
  What the node reports: the references the transaction changed, or a value that was thrown: \<^verbatim>\<open>String(e)\<close>, whether it is an object, and the answer to the refresh.
\<close>

datatype exec_answer =
    Executed "SuiObjectRef list option"
  | ExecThrew string bool "json outcome"

definition out_of_gas :: "string \<Rightarrow> bool" where
  "out_of_gas msg \<longleftrightarrow> str_includes ''Balance of gas object'' msg \<or> str_includes ''GasBalanceTooLow'' msg"

text \<open>How \<^verbatim>\<open>sendTransactionBlock\<close> ends: it returns, throws the value again, or its handler throws, because \<^verbatim>\<open>"data" in e\<close> needs an object.\<close>

datatype send_result =
    SendReturned
  | SendRethrew string
  | SendHandlerThrew js_error

fun send_result_of :: "exec_answer \<Rightarrow> send_result" where
  "send_result_of (Executed muts) = SendReturned"
| "send_result_of (ExecThrew msg isObject refresh) =
     (if out_of_gas msg then SendRethrew msg
      else if isObject then SendReturned
      else SendHandlerThrew (type_error (''Cannot use 'in' operator to search for 'data' in '' @ msg)))"

text \<open>The coin that goes back to the pool; none when the function throws.\<close>

fun next_gas_object :: "exec_answer \<Rightarrow> SuiObjectRef \<Rightarrow> SuiObjectRef option" where
  "next_gas_object (Executed muts) gasObject =
     (case muts of None \<Rightarrow> None | Some refs \<Rightarrow> find (\<lambda>ref. refId ref = refId gasObject) refs)"
| "next_gas_object (ExecThrew msg isObject refresh) gasObject =
     (if send_result_of (ExecThrew msg isObject refresh) = SendReturned then Some (tryRefreshObjectReference refresh gasObject) else None)"

text \<open>The rest of \<^verbatim>\<open>sendTransactionBlock\<close> for the \<open>i\<close>-th transaction on its way.\<close>

definition send_settle :: "nat \<Rightarrow> exec_answer \<Rightarrow> SuiPricePusher \<Rightarrow> SuiPricePusher \<times> send_result" where
  "send_settle i answer s =
     (let gasObject = snd (inFlight s ! i)
      in (s\<lparr>inFlight := take i (inFlight s) @ drop (Suc i) (inFlight s),
            gasPool := gasPool s @ (case next_gas_object answer gasObject of None \<Rightarrow> [] | Some r \<Rightarrow> [r])\<rparr>,
          send_result_of answer))"

text \<open>
  \<^verbatim>\<open>updatePriceFeed\<close>: the chunks are built at the same time, each with the caches of the client as it finds them; when one
  build throws nothing is sent.  \<open>order\<close> is the order in which they finish.
\<close>

record push_env =
  pushProvider :: provider
  pushSer :: "nat \<Rightarrow> bytes \<Rightarrow> bytes outcome"
  getLatestVaas :: "string list \<Rightarrow> string list outcome"
  clientAt :: "nat \<Rightarrow> SuiPythClient"
  order :: "transaction list \<Rightarrow> transaction list"

definition build_chunk :: "push_env \<Rightarrow> nat \<Rightarrow> string list \<Rightarrow> transaction outcome" where
  "build_chunk env k priceIdChunk =
     e_bind (getLatestVaas env priceIdChunk) (\<lambda>vaas.
     case vaas of
       [vaa] \<Rightarrow>
         (case updatePriceFeeds (pushProvider env) (pushSer env) [from_base64 vaa] priceIdChunk (clientAt env k, []) of
            (Inl e, _) \<Rightarrow> Inl e
          | (Inr _, _, tx) \<Rightarrow> Inr tx)
     | _ \<Rightarrow> Inl (mk_error (''Expected a single VAA for all priceIds but received '' @ show_nat (length vaas) @ '' VAAs'')))"

fun build_chunks :: "push_env \<Rightarrow> nat \<Rightarrow> string list list \<Rightarrow> transaction list outcome" where
  "build_chunks env k [] = Inr []"
| "build_chunks env k (c # cs) = e_bind (build_chunk env k c) (\<lambda>tx. e_bind (build_chunks env (Suc k) cs) (\<lambda>txs. Inr (tx # txs)))"

definition sendTransactionBlocks :: "transaction list \<Rightarrow> SuiPricePusher \<Rightarrow> SuiPricePusher" where
  "sendTransactionBlocks txs s = fold send_start txs s"

definition updatePriceFeed :: "push_env \<Rightarrow> string list \<Rightarrow> jsnum list \<Rightarrow> SuiPricePusher \<Rightarrow> (unit outcome \<times> SuiPricePusher) option" where
  "updatePriceFeed env priceIds pubTimes s =
     (if priceIds = [] then Some (Inr (), s)
      else if length priceIds \<noteq> length pubTimes then Some (Inl (mk_error ''Invalid arguments''), s)
      else if gasPool s = [] then Some (Inr (), s)
      else Option.bind (chunkArray priceIds 3) (\<lambda>chunks.
           Some (case build_chunks env 0 chunks of
                   Inl e \<Rightarrow> (Inl e, s)
                 | Inr txBlocks \<Rightarrow> (Inr (), sendTransactionBlocks (order env txBlocks) s))))"

text \<open>
  The node is asked for the object of the coin, so that the reference it answers with is that coin's.
\<close>

definition answers_for :: "SuiObjectRef \<Rightarrow> exec_answer \<Rightarrow> bool" where
  "answers_for c answer \<longleftrightarrow>
     (case answer of Executed _ \<Rightarrow> True | ExecThrew msg isObject refresh \<Rightarrow> refId (tryRefreshObjectReference refresh c) = refId c)"

inductive gas_step :: "SuiPricePusher \<Rightarrow> SuiPricePusher \<Rightarrow> bool" where
  send: "gas_step s (send_start tx s)"
| settle: "i < length (inFlight s) \<Longrightarrow> answers_for (snd (inFlight s ! i)) answer \<Longrightarrow> gas_step s (fst (send_settle i answer s))"

inductive_cases gas_stepE: "gas_step s s'"

subsection \<open>No coin pays for two transactions at a time\<close>

definition coin_ids :: "SuiPricePusher \<Rightarrow> json list" where
  "coin_ids s = map refId (gasPool s) @ map (\<lambda>p. refId (snd p)) (inFlight s)"

lemma next_gas_same: "answers_for c answer \<Longrightarrow> next_gas_object answer c = Some r \<Longrightarrow> refId r = refId c"
  by (cases answer) (auto simp: answers_for_def find_Some_iff split: option.splits if_splits)

lemma returned_coin:
  assumes "distinct (xs @ as @ x # bs)" and "ys = [] \<or> ys = [x]"
  shows "distinct (xs @ ys @ as @ bs) \<and> length (xs @ ys @ as @ bs) \<le> length (xs @ as @ x # bs) \<and> set (xs @ ys @ as @ bs) \<subseteq> set (xs @ as @ x # bs)"
  using assms by auto

lemma gas_step_ids:
  assumes "gas_step s s'" and "distinct (coin_ids s)"
  shows "distinct (coin_ids s') \<and> length (coin_ids s') \<le> length (coin_ids s) \<and> set (coin_ids s') \<subseteq> set (coin_ids s)"
  using assms(1)
proof (cases rule: gas_step.cases)
  case (send tx)
  with assms(2) show ?thesis by (cases "gasPool s") (auto simp: send_start_def coin_ids_def)
next
  case (settle i answer)
  obtain as p bs where f: "inFlight s = as @ p # bs" "length as = i"
  proof
    show "inFlight s = take i (inFlight s) @ inFlight s ! i # drop (Suc i) (inFlight s)" using settle(2) by (rule id_take_nth_drop)
    show "length (take i (inFlight s)) = i" using settle(2) by (simp add: min_def)
  qed
  define nx where "nx = (case next_gas_object answer (snd p) of None \<Rightarrow> [] | Some r \<Rightarrow> [r])"
  have p: "inFlight s ! i = p" using f by auto
  have nx: "nx = [] \<or> (\<exists>r. nx = [r] \<and> refId r = refId (snd p))"
  proof (cases "next_gas_object answer (snd p)")
    case (Some r)
    have "answers_for (snd p) answer" using settle(3) by (simp only: p)
    with Some show ?thesis using next_gas_same[of "snd p" answer r] by (simp add: nx_def)
  qed (simp add: nx_def)
  have "s' = s\<lparr>inFlight := as @ bs, gasPool := gasPool s @ nx\<rparr>" 
    using settle(1) f(1) f(2)[symmetric] by (simp add: send_settle_def Let_def nx_def)
  then have a: "coin_ids s' = map refId (gasPool s) @ map refId nx @ map (\<lambda>p. refId (snd p)) as @ map (\<lambda>p. refId (snd p)) bs"
    by (simp add: coin_ids_def)
  have b: "coin_ids s = map refId (gasPool s) @ map (\<lambda>p. refId (snd p)) as @ refId (snd p) # map (\<lambda>p. refId (snd p)) bs"
    by (simp add: coin_ids_def f(1))
  have n: "map refId nx = [] \<or> map refId nx = [refId (snd p)]" using nx by auto
  show ?thesis unfolding a b using assms(2)[unfolded b] n by (rule returned_coin)
qed

text \<open>
  C8.  However sends and answers of the node interleave, no two transactions on their way are paid by the same coin, and no such coin is in
  the pool; the pool never holds a coin it did not start with.  So the transactions never compete for an owned object, which is what the
  pool is for.
\<close>

theorem gas_coins_never_shared:
  assumes "gas_step\<^sup>*\<^sup>* s s'" and "inFlight s = []" and "distinct (map refId (gasPool s))"
  shows "distinct (map refId (gasPool s') @ map (\<lambda>p. refId (snd p)) (inFlight s'))
     \<and> length (gasPool s') + length (inFlight s') \<le> length (gasPool s)
     \<and> set (map refId (gasPool s')) \<subseteq> set (map refId (gasPool s))"
proof -
  from assms(1) have "distinct (coin_ids s') \<and> length (coin_ids s') \<le> length (coin_ids s) \<and> set (coin_ids s') \<subseteq> set (coin_ids s)"
  proof (induction)
    case base
    show ?case using assms(2,3) by (simp add: coin_ids_def)
  next
    case (step y z)
    from gas_step_ids[OF step.hyps(2)] step.IH show ?case by force
  qed
  then show ?thesis using assms(2) by (auto simp: coin_ids_def)
qed

definition demo_ref :: "string \<Rightarrow> SuiObjectRef" where
  "demo_ref i = \<lparr>refId = JStr i, refVersion = JNum 1, refDigest = JStr ''d''\<rparr>"

theorem gas_coins_never_shared_witness:
  "\<exists>s'. gas_step\<^sup>*\<^sup>* \<lparr>gasPool = [demo_ref ''a'', demo_ref ''b''], inFlight = []\<rparr> s' \<and> length (inFlight s') = 2
     \<and> distinct (map (\<lambda>p. refId (snd p)) (inFlight s'))"
proof -
  let ?s = "\<lparr>gasPool = [demo_ref ''a'', demo_ref ''b''], inFlight = []\<rparr>"
  have run: "gas_step\<^sup>*\<^sup>* ?s (send_start [] (send_start [] ?s))" 
    using gas_step.send[of ?s "[]"] gas_step.send[of "send_start [] ?s" "[]"] by (rule rtranclp.rtrancl_into_rtrancl[OF r_into_rtranclp])
  have "distinct (map refId (gasPool ?s))" by (simp add: demo_ref_def)
  from gas_coins_never_shared[OF run _ this] have "distinct (map (\<lambda>p. refId (snd p)) (inFlight (send_start [] (send_start [] ?s))))" by simp
  with run show ?thesis by (intro exI[of _ "send_start [] (send_start [] ?s)"]) (simp add: send_start_def)
qed

subsection \<open>Loops end\<close>

lemma chunkArray_some:
  assumes "0 < sz"
  shows "\<exists>cs. chunkArray xs sz = Some cs \<and> concat cs = xs \<and> list_all (\<lambda>c. c \<noteq> [] \<and> length c \<le> sz) cs"
proof (induction "length xs" arbitrary: xs rule: less_induct)
  case less
  show ?case
  proof (cases "xs = []")
    case True
    then show ?thesis by (simp add: chunkArray.simps)
  next
    case False
    then have "length (drop sz xs) < length xs" using assms by simp
    from less[OF this] obtain cs where "chunkArray (drop sz xs) sz = Some cs" "concat cs = drop sz xs"
      "list_all (\<lambda>c. c \<noteq> [] \<and> length c \<le> sz) cs" by blast
    with False assms show ?thesis by (subst chunkArray.simps) simp
  qed
qed

text \<open>With a chunk size of zero the loop would not end.\<close>

lemma chunkArray_zero: "xs \<noteq> [] \<Longrightarrow> chunkArray xs 0 = None"
proof -
  have "chunkArray xs sz = Some cs \<Longrightarrow> sz = 0 \<longrightarrow> xs = []" for xs :: "'a list" and sz cs
    by (erule chunkArray.raw_induct[where P = "\<lambda>xs sz cs. sz = 0 \<longrightarrow> xs = []", rotated])
      (auto split: if_splits bind_splits, metis drop_0 gr0I)
  then show "xs \<noteq> [] \<Longrightarrow> chunkArray xs 0 = None" by (cases "chunkArray xs 0") auto
qed


text \<open>
  Chunking always ends for a positive chunk size, loses nothing, keeps the order, and makes no empty or oversized chunk; in
  particular the chunks of three feeds and of 254 coins that the pusher uses.
\<close>

theorem chunkArray_spec:
  assumes "0 < sz"
  shows "\<exists>cs. chunkArray xs sz = Some cs \<and> concat cs = xs \<and> list_all (\<lambda>c. c \<noteq> [] \<and> length c \<le> sz) cs"
  using assms by (rule chunkArray_some)

theorem chunkArray_spec_witness:
  "\<exists>cs. chunkArray [''a'', ''b'', ''c'', ''d''] 3 = Some cs \<and> concat cs = [''a'', ''b'', ''c'', ''d'']"
  using chunkArray_spec[of 3 "[''a'', ''b'', ''c'', ''d'']"] by auto

text \<open>Coins that the remaining chunks still offer.\<close>

definition offered :: "json list \<Rightarrow> SuiObjectRef list list \<Rightarrow> nat" where
  "offered locked chunks = sum_list (map (\<lambda>ch. card (refId ` set ch - set locked)) chunks)"

lemma offered_mono: "set locked \<subseteq> set locked' \<Longrightarrow> offered locked' chunks \<le> offered locked chunks"
  unfolding offered_def by (intro sum_list_mono card_mono) auto

lemma offered_less:
  assumes "x \<in> refId ` set ch" and "x \<notin> set locked" and "set locked \<subseteq> set locked'" and "x \<in> set locked'"
  shows "offered locked' (ch # chs) < offered locked (ch # chs)"
proof -
  have "refId ` set ch - set locked' \<subset> refId ` set ch - set locked" using assms by auto
  then have "card (refId ` set ch - set locked') < card (refId ` set ch - set locked)" by (intro psubset_card_mono) auto
  moreover have "offered locked' chs \<le> offered locked chs" using assms(3) by (rule offered_mono)
  ultimately show ?thesis by (simp add: offered_def)
qed

text \<open>
  The behaviour of a network in which the coins \<open>L\<close> are locked: when the node refuses a payment because of locked objects, it names one of them that is part of
  the payment; and the coin that an executed merge leaves behind is not locked.
\<close>

definition locked_coins :: "json set \<Rightarrow> (nat \<Rightarrow> SuiObjectRef list \<Rightarrow> merge_answer) \<Rightarrow> bool" where
  "locked_coins L exec \<longleftrightarrow>
     (\<forall>k coins ids. exec k coins = MergeLocked ids \<longrightarrow> (\<exists>c \<in> set coins. refId c \<in> L \<and> refId c \<in> set ids)) \<and>
     (\<forall>k coins r rs. exec k coins = MergeDone None (Some (r # rs)) \<longrightarrow> refId r \<notin> L)"

definition unlocked :: "json set \<Rightarrow> SuiObjectRef option \<Rightarrow> bool" where
  "unlocked L f \<longleftrightarrow> (case f of None \<Rightarrow> True | Some c \<Rightarrow> refId c \<notin> L)"

lemma merge_loop_ends:
  assumes "locked_coins L exec"
  shows "unlocked L f \<Longrightarrow> \<exists>r. merge_loop exec k chunks locked f = Some r \<and> (\<forall>g. r = Inr g \<longrightarrow> unlocked L g)"
proof (induction "offered locked chunks + length chunks" arbitrary: k chunks locked f rule: less_induct)
  case less
  show ?case
  proof (cases chunks)
    case Nil
    then show ?thesis using less.prems by (subst merge_loop.simps) simp
  next
    case (Cons ch chs)
    show ?thesis
    proof (cases "exec k (merge_payment locked f ch)")
      case (MergeLocked ids)
      then obtain c where c: "c \<in> set (merge_payment locked f ch)" "refId c \<in> L" "refId c \<in> set ids"
        using assms unfolding locked_coins_def by blast
      then have "c \<in> set ch" "refId c \<notin> set locked"
        using less.prems by (auto simp: merge_payment_def unlocked_def split: option.splits)
      then have "offered (fold set_add ids locked) chunks < offered locked chunks"
        unfolding Cons using c(3) by (intro offered_less[of "refId c"]) auto
      with less.hyps[of "fold set_add ids locked" chunks f "Suc k"] less.prems Cons MergeLocked show ?thesis by (subst merge_loop.simps) simp
    next
      case (MergeDone err muts)
      have u: "unlocked L (case refs of [] \<Rightarrow> None | r # _ \<Rightarrow> Some r)" if "err = None" "muts = Some refs" for refs
      proof (cases refs)
        case (Cons r rs)
        then have "exec k (merge_payment locked f ch) = MergeDone None (Some (r # rs))" using MergeDone that by simp
        then have "refId r \<notin> L" using assms unfolding locked_coins_def by blast
        then show ?thesis by (simp add: Cons unlocked_def)
      qed (simp add: unlocked_def)
      have "offered locked chs + length chs < offered locked chunks + length chunks" by (simp add: Cons offered_def)
      with less.hyps[of locked chs _ "Suc k"] u Cons MergeDone show ?thesis
        by (subst merge_loop.simps) (auto split: option.splits)
    qed (use Cons in \<open>subst merge_loop.simps; simp\<close>)
  qed
qed

text \<open>
  C34.  The retry loop that merges the coins of the signer ends, whichever coins are locked: provided that a refusal because of locked objects names a locked coin of
  the refused payment, and that the coin which a merge leaves behind is not locked.  Each retry then offers at least one coin less, and the coin that is
  returned is not locked.
\<close>

theorem merge_terminates:
  assumes "locked_coins L exec" "unlocked L f"
  shows "\<exists>r. merge_loop exec k chunks locked f = Some r \<and> (\<forall>g. r = Inr g \<longrightarrow> unlocked L g)"
  using assms by (rule merge_loop_ends)

text \<open>A node on whose network coin \<open>b\<close> is locked: the first payment is refused, the second one goes through.\<close>

definition demo_merge :: "nat \<Rightarrow> SuiObjectRef list \<Rightarrow> merge_answer" where
  "demo_merge k coins = (if JStr ''b'' \<in> set (map refId coins) then MergeLocked [JStr ''b''] else MergeDone None (Some (take 1 coins)))"

theorem merge_terminates_witness:
  "demo_merge 0 (merge_payment [] None [demo_ref ''a'', demo_ref ''b'']) = MergeLocked [JStr ''b''] \<and>
   (\<exists>r. merge_loop demo_merge 0 [[demo_ref ''a'', demo_ref ''b'']] [] None = Some r \<and> r = Inr (Some (demo_ref ''a'')))"
proof -
  have "refId x \<noteq> JStr ''b''" if "JStr ''b'' \<notin> set (map refId coins)" "take 1 coins = x # xs" for coins :: "SuiObjectRef list" and x xs
    using that by (cases coins) auto
  then have c: "locked_coins {JStr ''b''} demo_merge"
    by (auto simp: locked_coins_def demo_merge_def split: if_splits)
  have r: "demo_merge 0 (merge_payment [] None [demo_ref ''a'', demo_ref ''b'']) = MergeLocked [JStr ''b'']"
    by (simp add: demo_merge_def merge_payment_def demo_ref_def)
  have "merge_loop demo_merge 0 [[demo_ref ''a'', demo_ref ''b'']] [] None = Some (Inr (Some (demo_ref ''a'')))"
    by (subst merge_loop.simps, simp add: r)
       (subst merge_loop.simps, simp add: merge_payment_def demo_merge_def demo_ref_def set_add_def, subst merge_loop.simps, simp)
  then show ?thesis using r merge_terminates[OF c, of None 0 "[[demo_ref ''a'', demo_ref ''b'']]" "[]"] by (simp add: unlocked_def)
qed

text \<open>
  The coin that earlier merges produced is added to every payment without looking at the locked coins: when the node
  reports that coin as locked, the loop tries the same payment for ever.
\<close>

definition locked_for_ever :: "json \<Rightarrow> nat \<Rightarrow> SuiObjectRef list \<Rightarrow> merge_answer" where
  "locked_for_ever i k coins = MergeLocked [i]"

lemma merge_locked_final_coin_loops: "merge_loop (locked_for_ever (refId f)) k (ch # chs) locked (Some f) = None"
proof -
  have "merge_loop exec k chunks locked g = Some r \<Longrightarrow> (\<forall>k cs. exec k cs = MergeLocked [refId f]) \<longrightarrow> chunks = []" for exec k chunks locked g r
    by (erule merge_loop.raw_induct[where P = "\<lambda>exec k chunks locked g r. (\<forall>k cs. exec k cs = MergeLocked [refId f]) \<longrightarrow> chunks = []", rotated])
      (intro impI, simp split: list.splits, blast)
  from this[of "locked_for_ever (refId f)" k "ch # chs" locked "Some f"] show ?thesis
    by (cases "merge_loop (locked_for_ever (refId f)) k (ch # chs) locked (Some f)") (auto simp: locked_for_ever_def)
qed

subsection \<open>The pool is paid for\<close>

text \<open>
  What is split off never exceeds the balance less the reserve for the split itself.
\<close>

theorem split_amount_bound:
  assumes "split_amount balance (int num) = Inr a" and "GAS_FEE_FOR_SPLIT \<le> balance"
  shows "0 \<le> a \<and> a * int num + GAS_FEE_FOR_SPLIT \<le> balance \<and> balance - GAS_FEE_FOR_SPLIT < (a + 1) * int num"
proof -
  define x where "x = balance - GAS_FEE_FOR_SPLIT"
  have x0: "0 \<le> x" using assms(2) by (simp add: x_def)
  have n: "0 < num" using assms(1) by (auto simp: split_amount_def split: if_splits)
  have a: "a = x div int num" using assms(1) x0 n by (cases "x = 0") (auto simp: split_amount_def Let_def x_def[symmetric] split: if_splits)
  have "x = a * int num + x mod int num" by (simp add: a)
  moreover have "0 \<le> x mod int num" "x mod int num < int num" using n by simp_all
  moreover have "(a + 1) * int num = a * int num + int num" by (simp add: algebra_simps)
  ultimately have "a * int num \<le> x" "x < (a + 1) * int num" by linarith+
  moreover have "0 \<le> a" using x0 n by (simp add: a pos_imp_zdiv_nonneg_iff)
  ultimately show ?thesis by (simp add: x_def)
qed

theorem split_amount_bound_witness:
  "split_amount 12000000000 (int 3) = Inr 3333333333 \<and> 3333333333 * int 3 + GAS_FEE_FOR_SPLIT \<le> 12000000000"
  using split_amount_bound[of 12000000000 3 3333333333] by (simp add: split_amount_def GAS_FEE_FOR_SPLIT_def)

subsection \<open>Every feed of a push is updated\<close>

text \<open>A transaction that updates exactly the objects of the feeds of its chunk, in order, and consumes every value it makes.\<close>

definition chunk_updates :: "push_env \<Rightarrow> nat \<Rightarrow> string list \<Rightarrow> transaction \<Rightarrow> bool" where
  "chunk_updates env k ch tx \<longleftrightarrow>
     balanced tx \<and>
     (\<exists>oids c'. updated_objects tx = map (\<lambda>oid. ObjectArg (js_string oid)) oids \<and>
        list_all2 (\<lambda>f oid. truthy oid \<and> object_of_feed (pushProvider env) (clientAt env k) c' f oid) ch oids)"

lemma build_chunk_sound:
  assumes "build_chunk env k c = Inr tx"
  shows "chunk_updates env k c tx"
proof -
  from assms obtain vaas where "getLatestVaas env c = Inr vaas" by (auto simp: build_chunk_def e_bind_Inr_iff)
  with assms obtain vaa where "vaas = [vaa]" "getLatestVaas env c = Inr [vaa]"
    by (cases vaas; cases "tl vaas") (auto simp: build_chunk_def)
  moreover obtain r cl tx' where u: "updatePriceFeeds (pushProvider env) (pushSer env) [from_base64 vaa] c (clientAt env k, []) = (r, (cl, tx'))"
    by (metis surj_pair)
  ultimately obtain oids where "updatePriceFeeds (pushProvider env) (pushSer env) [from_base64 vaa] c (clientAt env k, []) = (Inr oids, (cl, tx))"
    using assms by (cases r) (simp_all add: build_chunk_def)
  from updatePriceFeeds_commands[OF this] show ?thesis by (auto simp: chunk_updates_def balanced_def)
qed

lemma build_chunks_sound:
  "build_chunks env k cs = Inr txs \<Longrightarrow> length txs = length cs \<and> (\<forall>i < length cs. chunk_updates env (k + i) (cs ! i) (txs ! i))"
proof (induction cs arbitrary: k txs)
  case (Cons c cs)
  then obtain tx txs' where t: "build_chunk env k c = Inr tx" "build_chunks env (Suc k) cs = Inr txs'" "txs = tx # txs'"
    by (auto simp: e_bind_Inr_iff)
  have "chunk_updates env (k + i) ((c # cs) ! i) (txs ! i)" if "i < length (c # cs)" for i
    using that build_chunk_sound[OF t(1)] Cons.IH[OF t(2)] t(3) by (cases i) simp_all
  then show ?case using Cons.IH[OF t(2)] t(3) by simp
qed simp

definition finishes :: "(transaction list \<Rightarrow> transaction list) \<Rightarrow> bool" where
  "finishes ord \<longleftrightarrow> (\<forall>txs. mset (ord txs) = mset txs)"

text \<open>Sending pairs the transactions with the coins at the front of the pool; those that find no coin are skipped.\<close>

lemma sends_zip:
  "sendTransactionBlocks txs s = s\<lparr>gasPool := drop (length txs) (gasPool s), inFlight := inFlight s @ zip txs (gasPool s)\<rparr>"
proof (induction txs arbitrary: s)
  case (Cons tx txs)
  then show ?case by (cases "gasPool s") (simp_all add: sendTransactionBlocks_def send_start_def)
qed (simp add: sendTransactionBlocks_def)

text \<open>
  C26.  When \<^verbatim>\<open>updatePriceFeed\<close> of the Sui pusher succeeds with a coin in its pool, the requested feeds are cut into chunks of at most three, each with one transaction
  that updates exactly the objects of its feeds, in order, from the cache or from the price table, and consumes the VAA, the price vectors and the coins it
  makes.  These transactions, in the order in which the builds finish, go out with the coins from the front of the pool, one coin each; when there are fewer coins than
  transactions the last ones are skipped.
\<close>

theorem updatePriceFeed_covers_all:
  assumes "updatePriceFeed env ids pubs s = Some (Inr (), s')" and "ids \<noteq> []" and "gasPool s \<noteq> []" and "finishes (order env)"
  shows "\<exists>cs txs. concat cs = ids \<and> list_all (\<lambda>c. c \<noteq> [] \<and> length c \<le> 3) cs \<and> length txs = length cs \<and>
    (\<forall>k < length cs. chunk_updates env k (cs ! k) (txs ! k)) \<and> mset (order env txs) = mset txs \<and>
    inFlight s' = inFlight s @ zip (order env txs) (gasPool s) \<and> gasPool s' = drop (length cs) (gasPool s)"
proof -
  obtain cs where cs: "chunkArray ids 3 = Some cs" "concat cs = ids" "list_all (\<lambda>c. c \<noteq> [] \<and> length c \<le> 3) cs"
    using chunkArray_some[of 3 ids] by auto
  from assms(1-3) cs(1) obtain txs where txs: "build_chunks env 0 cs = Inr txs" and s': "s' = sendTransactionBlocks (order env txs) s"
    by (cases "build_chunks env 0 cs") (simp_all add: updatePriceFeed_def split: if_splits)
  have m: "mset (order env txs) = mset txs" using assms(4) by (simp add: finishes_def)
  then have "length (order env txs) = length cs" using build_chunks_sound[OF txs] by (metis size_mset)
  then show ?thesis
    using cs m build_chunks_sound[OF txs] s' by (intro exI[of _ cs] exI[of _ txs]) (simp add: sends_zip)
qed

lemma build_chunks_succeed:
  assumes "\<And>k c. set c \<subseteq> A \<Longrightarrow> \<exists>tx. build_chunk env k c = Inr tx"
  shows "set (concat cs) \<subseteq> A \<Longrightarrow> \<exists>txs. build_chunks env k cs = Inr txs"
proof (induction cs arbitrary: k)
  case (Cons c cs)
  from Cons.prems have "set c \<subseteq> A" "set (concat cs) \<subseteq> A" by auto
  with assms[of c k] Cons.IH[of "Suc k"] obtain tx txs where "build_chunk env k c = Inr tx" "build_chunks env (Suc k) cs = Inr txs" by blast
  then show ?case by simp
qed simp

definition demo_push_env :: push_env where
  "demo_push_env =
     \<lparr>pushProvider = demo_provider, pushSer = demo_ser, getLatestVaas = (\<lambda>_. Inr [to_base64 demo_message]),
      clientAt = (\<lambda>_. demo_pyth), order = rev\<rparr>"

definition demo_pusher :: SuiPricePusher where
  "demo_pusher = \<lparr>gasPool = [demo_ref ''a'', demo_ref ''b''], inFlight = []\<rparr>"

lemma demo_chunk_build:
  assumes "set ch \<subseteq> {''feed''}"
  shows "\<exists>tx. build_chunk demo_push_env k ch = Inr tx"
proof -
  have "feeds_cached demo_pyth ch" using assms
    by (induction ch) (auto simp: feeds_cached_def demo_pyth_def map_get_def starts_with_def)
  from update_succeeds[where ser = demo_ser, OF demo_pyth_facts(1) this demo_pyth_facts(4,5,6), of "[]"] show ?thesis
    by (auto simp: build_chunk_def demo_push_env_def)
qed

lemma demo_finishes: "finishes (order demo_push_env)"
  by (simp add: finishes_def demo_push_env_def)

theorem updatePriceFeed_covers_all_witness:
  "\<exists>s' tx. updatePriceFeed demo_push_env [''feed''] [Num 1] demo_pusher = Some (Inr (), s') \<and> inFlight s' = [(tx, demo_ref ''a'')]
     \<and> balanced tx \<and> length (updated_objects tx) = 1 \<and> gasPool s' = [demo_ref ''b'']"
proof -
  obtain cs where cs: "chunkArray [''feed''] 3 = Some cs" "concat cs = [''feed'']" using chunkArray_some[of 3 "[''feed'']"] by auto
  obtain txs where "build_chunks demo_push_env 0 cs = Inr txs" using build_chunks_succeed[where cs = cs and k = 0, OF demo_chunk_build] cs(2) by auto
  with cs(1) obtain s' where u: "updatePriceFeed demo_push_env [''feed''] [Num 1] demo_pusher = Some (Inr (), s')"
    by (simp add: updatePriceFeed_def demo_pusher_def)
  from updatePriceFeed_covers_all[OF u _ _ demo_finishes] obtain cs' txs' where c: "concat cs' = [''feed'']" "list_all (\<lambda>c. c \<noteq> [] \<and> length c \<le> 3) cs'"
    "length txs' = length cs'" "\<forall>k < length cs'. chunk_updates demo_push_env k (cs' ! k) (txs' ! k)"
    "inFlight s' = inFlight demo_pusher @ zip (order demo_push_env txs') (gasPool demo_pusher)" "gasPool s' = drop (length cs') (gasPool demo_pusher)"
    by (auto simp: demo_pusher_def)
  have one: "cs' = [[''feed'']]"
  proof (cases cs')
    case (Cons a as)
    then have "as = []" using c(1,2) by (cases as; cases a) auto
    then show ?thesis using Cons c(1) by simp
  qed (use c(1) in simp)
  then obtain tx where tx: "txs' = [tx]" using c(3) by (cases txs'; cases "tl txs'") auto
  have "chunk_updates demo_push_env 0 [''feed''] tx" using c(4) by (simp add: one tx)
  then show ?thesis using u c(5,6) by (auto simp: one tx demo_push_env_def demo_pusher_def chunk_updates_def list_all2_Cons1)
qed

text \<open>
  A value thrown by the client that is not an object costs the pool a coin: the handler throws after the refresh, and the coin is not put back.
\<close>

lemma primitive_error_loses_coin:
  assumes "i < length (inFlight s)" "\<not> out_of_gas msg"
  shows "gasPool (fst (send_settle i (ExecThrew msg False refresh) s)) = gasPool s"
    "\<exists>e. snd (send_settle i (ExecThrew msg False refresh) s) = SendHandlerThrew e"
  using assms by (simp_all add: send_settle_def Let_def)

end
