(* ===== verification/Repair_Vaa.thy ===== *)
theory Repair_Vaa
  imports Vaa_Roundtrip Js_Float
begin

declare One_nat_def [simp del]

section \<open>Repairing signatures: \<^verbatim>\<open>sdk/js/src/utils/repairVaa.ts\<close>\<close>

text \<open>
  When the guardians change, some signatures of a message that is still in flight are no longer valid.  \<open>repairVaa\<close> keeps those
  of the current guardians, sorts them, and writes the message again around the same body.  \<^verbatim>\<open>hexlify\<close>,
  \<^verbatim>\<open>recoverAddress\<close> and the core contract on Ethereum are third-party code: parameters.
\<close>

definition hexToUint8Array_sdk :: "string \<Rightarrow> bytes" where
  "hexToUint8Array_sdk h = from_hex (if starts_with ''0x'' h then drop 2 h else h)"

record GuardianSetData =
  gsdIndex :: nat
  gsdKeys :: "string list"
  gsdExpiry :: nat

record recovery =
  hexlifyMissing :: "string \<Rightarrow> string outcome"
  recoverAddress :: "string \<Rightarrow> string \<Rightarrow> string outcome"

record core_contract =
  getCurrentGuardianSetIndex :: "nat outcome"
  getGuardianSet :: "nat \<Rightarrow> (string list \<times> nat) outcome"

definition getCurrentGuardianSet :: "core_contract \<Rightarrow> GuardianSetData outcome" where
  "getCurrentGuardianSet core =
     e_bind (getCurrentGuardianSetIndex core) (\<lambda>index.
     e_bind (getGuardianSet core index) (\<lambda>(keys, expiry).
     Inr \<lparr>gsdIndex = index, gsdKeys = keys, gsdExpiry = expiry\<rparr>))"

text \<open>\<^verbatim>\<open>Math.floor((2.0 * n) / 3.0) + 1\<close>\<close>

definition minNumSignatures :: "nat \<Rightarrow> int" where
  "minNumSignatures n = \<lfloor>fl (fl (2 * of_nat n) / 3)\<rfloor> + 1"

text \<open>
  The body of the \<^verbatim>\<open>forEach\<close>: the signature is kept when the address recovered from it is the key at its index.  An exception counts as
  invalid, and an index outside the set finds \<^verbatim>\<open>undefined\<close>.
\<close>

definition valid_signature :: "recovery \<Rightarrow> string \<Rightarrow> string list \<Rightarrow> GuardianSignature \<Rightarrow> bool" where
  "valid_signature rec digest keys sig =
     (case e_bind (hexlifyMissing rec digest) (\<lambda>d.
           e_bind (hexlifyMissing rec (to_hex (gsSignature sig))) (\<lambda>s. recoverAddress rec d s)) of
        Inl e \<Rightarrow> False
      | Inr address \<Rightarrow>
          (case gsIndex sig of
             None \<Rightarrow> False
           | Some i \<Rightarrow> unat i < length keys \<and> keys ! unat i = address))"

definition sig_index :: "GuardianSignature \<Rightarrow> nat" where
  "sig_index sig = (case gsIndex sig of None \<Rightarrow> 0 | Some i \<Rightarrow> unat i)"

definition write_signature :: "GuardianSignature \<Rightarrow> string" where
  "write_signature sig = pad_start 2 CHR ''0'' (show_radix 16 (sig_index sig)) @ to_hex (gsSignature sig)"

definition repairVaa :: "(bytes \<Rightarrow> bytes) \<Rightarrow> recovery \<Rightarrow> string \<Rightarrow> GuardianSetData \<Rightarrow> string outcome" where
  "repairVaa keccak256 rec vaaHex guardianSetData =
     (let currentGuardianSet = gsdKeys guardianSetData; version = take 2 vaaHex
      in e_bind (parseVaa keccak256 (hexToUint8Array_sdk vaaHex)) (\<lambda>parsedVaa.
         let numSignatures = length (guardianSignatures parsedVaa);
             digest = to_hex (keccak256 (vaaHash parsedVaa));
             validSignatures = filter (valid_signature rec digest currentGuardianSet) (guardianSignatures parsedVaa);
             numRepairedSignatures = length validSignatures
         in if int numRepairedSignatures < minNumSignatures (length currentGuardianSet)
            then Inl (mk_error ''There are not enough valid signatures to repair.'')
            else Inr (version @ pad_start 8 CHR ''0'' (show_radix 16 (gsdIndex guardianSetData))
                   @ pad_start 2 CHR ''0'' (show_radix 16 numRepairedSignatures)
                   @ concat (map write_signature (sort_key sig_index validSignatures))
                   @ drop (12 + numSignatures * 132) vaaHex)))"

definition repairVaaWithCurrentGuardianSet :: "(bytes \<Rightarrow> bytes) \<Rightarrow> recovery \<Rightarrow> core_contract \<Rightarrow> string \<Rightarrow> string outcome" where
  "repairVaaWithCurrentGuardianSet keccak256 rec core vaaHex =
     e_bind (getCurrentGuardianSet core) (repairVaa keccak256 rec vaaHex)"

subsection \<open>The quorum\<close>

lemma quorum_two_thirds:
  assumes "n < 2 ^ 50"
  shows "minNumSignatures n = int (2 * n div 3 + 1)"
proof -
  let ?q = "2 * n div 3" and ?r = "2 * n mod 3"
  have two: "fl (2 * of_nat n) = (of_nat (2 * n) :: rat)" using assms fl_of_int[of "int (2 * n)"] by simp
  have n: "2 * n = 3 * ?q + ?r" "?r < 3" by simp_all
  have "(of_nat (2 * n) :: rat) = 3 * of_nat ?q + of_nat ?r" by (metis n(1) of_nat_add of_nat_mult of_nat_numeral)
  then have x: "(of_nat (2 * n) / 3 :: rat) = of_nat ?q + of_nat ?r / 3" by (simp add: add_divide_distrib del: of_nat_mult)
  have q: "?q < 2 ^ 50" using assms by linarith
  have "\<lfloor>fl (of_nat (2 * n) / 3 :: rat)\<rfloor> = int ?q"
  proof (cases "?r = 0")
    case True
    then have "fl (of_nat (2 * n) / 3) = (of_nat ?q :: rat)" using q fl_of_int[of "int ?q"] by (simp add: x del: of_nat_mult)
    then show ?thesis by simp
  next
    case False
    then have r: "1 \<le> ?r" "?r \<le> 2" using n(2) by linarith+
    then have r': "(1 :: rat) \<le> of_nat ?r" "(of_nat ?r :: rat) \<le> 2" by (simp_all add: of_nat_le_iff[of 1, simplified] of_nat_le_iff[of _ 2, simplified])
    have "2 * n < 2 ^ 51" using assms by simp
    then have "(of_nat (2 * n) :: rat) < of_nat (2 ^ 51)" by (simp only: of_nat_less_iff)
    then have "\<bar>of_nat (2 * n) / 3 :: rat\<bar> \<le> 2 ^ 51" by simp
    from fl_diff_bound[OF this] have "\<bar>fl (of_nat (2 * n) / 3) - of_nat (2 * n) / 3\<bar> \<le> (1 / 4 :: rat)" by simp
    with r' have "of_nat ?q < fl (of_nat (2 * n) / 3)" "fl (of_nat (2 * n) / 3) < of_nat ?q + (1 :: rat)"
      unfolding x by linarith+
    then show ?thesis by (simp add: floor_eq_iff)
  qed
  then show ?thesis by (simp add: minNumSignatures_def two)
qed

subsection \<open>Hexadecimal strings\<close>

definition hex_string :: "string \<Rightarrow> bool" where
  "hex_string h \<longleftrightarrow> even (length h) \<and> list_all (\<lambda>c. digit_val 16 c \<noteq> None) h"

lemma from_hex_append:
  assumes "hex_string a"
  shows "from_hex (a @ b) = from_hex a @ from_hex b"
  using assms by (induction a rule: from_hex.induct) (auto simp: hex_string_def split: option.splits)

lemma hex_string_append: "hex_string a \<Longrightarrow> hex_string b \<Longrightarrow> hex_string (a @ b)"
  by (simp add: hex_string_def)

lemma length_from_hex:
  assumes "hex_string a"
  shows "length (from_hex a) = length a div 2"
  using assms by (induction a rule: from_hex.induct) (auto simp: hex_string_def split: option.splits)

lemma hex_string_parts:
  assumes "hex_string h"
  shows "hex_string (take (2 * k) h)" "hex_string (drop (2 * k) h)"
  using assms by (auto simp: hex_string_def list_all_iff min_def dest: in_set_takeD in_set_dropD)

lemma from_hex_drop:
  assumes "hex_string h"
  shows "from_hex (drop (2 * k) h) = drop k (from_hex h)" "from_hex (take (2 * k) h) = take k (from_hex h)"
proof -
  have "from_hex h = from_hex (take (2 * k) h) @ from_hex (drop (2 * k) h)"
    using from_hex_append[OF hex_string_parts(1)[OF assms]] by (metis append_take_drop_id)
  moreover have "length (from_hex (take (2 * k) h)) = min k (length (from_hex h))"
    using assms by (auto simp: length_from_hex hex_string_parts min_def)
  ultimately show "from_hex (drop (2 * k) h) = drop k (from_hex h)" "from_hex (take (2 * k) h) = take k (from_hex h)"
    by (auto simp: min_def append_eq_conv_conj split: if_splits)
qed

lemma hex_string_no_prefix: "hex_string h \<Longrightarrow> hexToUint8Array_sdk h = from_hex h"
proof -
  assume "hex_string h"
  moreover have "digit_val 16 CHR ''x'' = None" by (simp add: digit_val_def to_lower_def hex_digits_def)
  moreover have "CHR ''x'' \<in> set h" if "starts_with ''0x'' h"
    using that set_take_subset[of 2 h] by (auto simp: starts_with_def numeral_2_eq_2)
  ultimately have "\<not> starts_with ''0x'' h" by (fastforce simp: hex_string_def list_all_iff)
  then show ?thesis by (simp add: hexToUint8Array_sdk_def)
qed

lemma hex_string_to_hex [simp]: "hex_string (to_hex bs)"
proof -
  have "digit_val 16 (hex_digits ! d) \<noteq> None" if "d < 16" for d using digit_val_hex_digit[of d 16] that by simp
  then have "digit_val 16 (hex_digits ! (unat b div 16)) \<noteq> None \<and> digit_val 16 (hex_digits ! (unat b mod 16)) \<noteq> None" for b :: byte
    using unat_byte_less[of b] by (simp add: less_mult_imp_div_less)
  then show ?thesis by (induction bs) (auto simp: hex_string_def to_hex_def hex_of_byte_def)
qed

text \<open>A number written in radix 16 and padded with zeros is the big-endian encoding.\<close>

lemma pad_radix_step:
  assumes "0 < m"
  shows "pad_start (Suc m) CHR ''0'' (show_radix 16 n) = pad_start m CHR ''0'' (show_radix 16 (n div 16)) @ [hex_digits ! (n mod 16)]"
proof (cases "n < 16")
  case True
  then have "show_radix 16 n = [hex_digits ! n]" "show_radix 16 (n div 16) = ''0''"
    by (simp_all add: show_radix.simps[of 16] hex_digits_def)
  moreover have "replicate m CHR ''0'' = replicate (m - 1) CHR ''0'' @ ''0''"
    using assms by (cases m) (auto simp: replicate_append_same)
  ultimately show ?thesis using True by (simp add: pad_start_def)
next
  case False
  then show ?thesis by (simp add: show_radix.simps[of 16 n] pad_start_def)
qed

lemma pad_radix_hex:
  assumes "0 < k" and "n < 256 ^ k"
  shows "pad_start (2 * k) CHR ''0'' (show_radix 16 n) = to_hex (be_encode k n)"
  using assms
proof (induction k arbitrary: n)
  case (Suc k)
  let ?b = "word_of_nat (n mod 256) :: byte"
  have u: "unat ?b = n mod 256" by (simp add: unat_byte_of_nat)
  have d: "n mod 256 div 16 = n div 16 mod 16" "n mod 256 mod 16 = n mod 16"
    by (simp_all add: mod_mult2_eq[of n 16 16, simplified] mod_mod_cancel)
  have b: "to_hex [?b] = [hex_digits ! (n div 16 mod 16), hex_digits ! (n mod 16)]"
    by (simp add: to_hex_def hex_of_byte_def u d)
  show ?case
  proof (cases "k = 0")
    case True
    with Suc.prems have n: "n < 256" by simp
    then have "pad_start (Suc 1) CHR ''0'' (show_radix 16 n) = pad_start 1 CHR ''0'' (show_radix 16 (n div 16)) @ [hex_digits ! (n mod 16)]"
      by (intro pad_radix_step) simp
    moreover have "pad_start 1 CHR ''0'' (show_radix 16 (n div 16)) = [hex_digits ! (n div 16 mod 16)]"
      using n by (simp add: show_radix.simps[of 16] pad_start_def less_mult_imp_div_less)
    ultimately show ?thesis using True b by (simp add: numeral_2_eq_2)
  next
    case False
    have "pad_start (Suc (Suc (2 * k))) CHR ''0'' (show_radix 16 n) =
        pad_start (2 * k) CHR ''0'' (show_radix 16 (n div 256)) @ to_hex [?b]"
      using False by (simp add: pad_radix_step b div_mult2_eq[of n 16 16, simplified])
    moreover have "n div 256 < 256 ^ k" using Suc.prems by (simp add: less_mult_imp_div_less mult.commute)
    ultimately show ?thesis using Suc.IH[of "n div 256"] False by (simp add: to_hex_append)
  qed
qed simp

subsection \<open>Repair keeps the message and the valid signatures\<close>

definition vaa_signature :: "GuardianSignature \<Rightarrow> VaaSignature" where
  "vaa_signature sig = \<lparr>vsGuardianSetIndex = int (sig_index sig), vsSignature = to_hex (gsSignature sig)\<rparr>"

lemma vaa_signature_facts:
  assumes "gsIndex sig \<noteq> None" and "length (gsSignature sig) = 65"
  shows "sig_ok (vaa_signature sig)" "as_signature (vaa_signature sig) = sig" "write_signature sig = to_hex (sig_bytes (vaa_signature sig))"
proof -
  obtain i where i: "gsIndex sig = Some i" using assms(1) by auto
  have b: "unat i < 256" by (rule unat_byte_less)
  from b have "int (unat i) < 256" by linarith
  then have b': "uint i < 256" by simp
  show "sig_ok (vaa_signature sig)" "as_signature (vaa_signature sig) = sig"
    using assms(2) b' by (simp_all add: sig_ok_def vaa_signature_def uint_ok_def as_signature_def sig_index_def i)
  show "write_signature sig = to_hex (sig_bytes (vaa_signature sig))"
    using b pad_radix_hex[of 1 "unat i"]
    by (simp add: write_signature_def sig_bytes_def vaa_signature_def sig_index_def i to_hex_append)
qed

lemma write_signatures:
  assumes "\<forall>sig \<in> set sigs. gsIndex sig \<noteq> None \<and> length (gsSignature sig) = 65"
  shows "concat (map write_signature sigs) = to_hex (concat (map sig_bytes (map vaa_signature sigs)))"
  using assms by (induction sigs) (auto simp: vaa_signature_facts to_hex_append to_hex_Nil)

text \<open>The bytes of a repaired message are read as the old message with other signatures.\<close>

lemma rewritten_parses:
  assumes parsed: "parseVaa keccak256 d = Inr v" and g: "g < 256 ^ 4" and n: "length sigs < 256"
    and ok: "\<forall>sig \<in> set sigs. gsIndex sig \<noteq> None \<and> length (gsSignature sig) = 65"
  shows "parseVaa keccak256 (take 1 d @ be_encode 4 g @ be_encode 1 (length sigs) @ concat (map sig_bytes (map vaa_signature sigs))
       @ drop (6 + 66 * unat (d ! 5)) d) = Inr (v\<lparr>guardianSetIndex := g, guardianSignatures := sigs\<rparr>)"
proof -
  let ?vs = "map vaa_signature sigs" and ?pre = "take 1 d @ be_encode 4 g @ be_encode 1 (length sigs)"
  let ?body = "drop (6 + 66 * unat (d ! 5)) d"
  let ?d = "?pre @ concat (map sig_bytes ?vs) @ ?body"
  note p = parsed_signatures[OF parsed]
  have t: "length (take 1 d) = 1" using p(4) by simp
  have vs: "list_all sig_ok ?vs" using ok by (auto simp: list_all_iff vaa_signature_facts)
  have len: "length (concat (map sig_bytes ?vs)) = 66 * length sigs"
    using vs by (induction sigs) (auto simp: sig_read)
  have five: "buf_at ?d 5 = Some (word_of_nat (length sigs))" using n t by (simp add: layout)
  have u: "unat (word_of_nat (length sigs) :: byte) = length sigs" using n by (simp add: unat_byte_of_nat)
  have "vaa_body_of ?d = ?body" unfolding vaa_body_of_def five using len t by (simp add: u)
  moreover have "buf_at ?d 0 = buf_at d 0" using p(4) by (cases d) (simp_all add: buf_at_def take_Cons')
  moreover have "read_be 4 ?d 1 = Inr g" using g t by (simp add: layout)
  moreover have "map (read_signature ?d) [0..<length ?vs] = map as_signature ?vs"
    using t by (intro signatures_read[OF vs]) simp
  moreover have "map as_signature ?vs = sigs" using ok by (auto simp: vaa_signature_facts intro!: map_idI)
  ultimately have "vaa_body_of ?d = vaa_body_of d" "buf_at ?d 0 = buf_at d 0" "read_be 4 ?d 1 = Inr g"
    "map (read_signature ?d) [0..<unat (word_of_nat (length sigs) :: byte)] = sigs"
    by (simp_all only: p(3) u length_map)
  from parse_same_body[OF parsed this(1-3) five this(4)] show ?thesis by simp
qed

definition kept_signatures :: "(bytes \<Rightarrow> bytes) \<Rightarrow> recovery \<Rightarrow> string list \<Rightarrow> ParsedVaa \<Rightarrow> GuardianSignature list" where
  "kept_signatures keccak256 rec keys v =
     filter (valid_signature rec (to_hex (keccak256 (vaaHash v))) keys) (guardianSignatures v)"

lemma repair_bytes:
  assumes h: "hex_string vaaHex" and g: "gsdIndex gs < 256 ^ 4" and parsed: "parseVaa keccak256 (from_hex vaaHex) = Inr v"
    and r: "repairVaa keccak256 rec vaaHex gs = Inr r"
  shows "parseVaa keccak256 (hexToUint8Array_sdk r) =
     Inr (v\<lparr>guardianSetIndex := gsdIndex gs, guardianSignatures := sort_key sig_index (kept_signatures keccak256 rec (gsdKeys gs) v)\<rparr>)"
proof -
  let ?d = "from_hex vaaHex" and ?kept = "kept_signatures keccak256 rec (gsdKeys gs) v"
  let ?sorted = "sort_key sig_index ?kept"
  note p = parsed_signatures[OF parsed]
  have ok: "\<forall>sig \<in> set ?sorted. gsIndex sig \<noteq> None \<and> length (gsSignature sig) = 65" using p(6) by (simp add: kept_signatures_def)
  have num: "length (guardianSignatures v) = unat (?d ! 5)" by (simp add: p(1))
  have n: "length ?sorted < 256"
    using unat_byte_less[of "?d ! 5"] length_filter_le[of _ "guardianSignatures v"] num
    by (metis kept_signatures_def length_sort le_less_trans)
  have "12 + unat (?d ! 5) * 132 = 2 * (6 + 66 * unat (?d ! 5))" by simp
  with r have r': "r = take (2 * 1) vaaHex @ to_hex (be_encode 4 (gsdIndex gs)) @ to_hex (be_encode 1 (length ?sorted))
      @ to_hex (concat (map sig_bytes (map vaa_signature ?sorted))) @ drop (2 * (6 + 66 * unat (?d ! 5))) vaaHex"
    using pad_radix_hex[of 4 "gsdIndex gs"] pad_radix_hex[of 1 "length ?sorted"] g n
    by (simp add: repairVaa_def Let_def hex_string_no_prefix[OF h] parsed kept_signatures_def[symmetric] num write_signatures[OF ok] mult.commute
        split: if_splits)
  have "hex_string r" unfolding r' by (intro hex_string_append hex_string_parts[OF h] hex_string_to_hex)
  then have "hexToUint8Array_sdk r = from_hex r" by (rule hex_string_no_prefix)
  also have "\<dots> = take 1 ?d @ be_encode 4 (gsdIndex gs) @ be_encode 1 (length ?sorted) @ concat (map sig_bytes (map vaa_signature ?sorted))
      @ drop (6 + 66 * unat (?d ! 5)) ?d"
    unfolding r' by (simp only: from_hex_append hex_string_parts[OF h] hex_string_to_hex from_hex_drop[OF h] from_hex_to_hex)
  finally show ?thesis using rewritten_parses[OF parsed g n ok] by simp
qed

text \<open>
  C22.  A message in hexadecimal (without prefix) is repaired exactly when it is a message and more than two thirds of the
  current guardian set's number of signatures are valid.  The result is again a message: the same version, body and hash, the index of the
  current guardian set, and of the old signatures precisely the valid ones, ordered by guardian.  Otherwise the parser's error or the error about too few
  signatures is thrown.
\<close>

theorem repairVaa_spec:
  assumes "hex_string vaaHex" and "gsdIndex gs < 256 ^ 4" and "length (gsdKeys gs) < 2 ^ 50"
  shows "case parseVaa keccak256 (hexToUint8Array_sdk vaaHex) of
     Inl e \<Rightarrow> repairVaa keccak256 rec vaaHex gs = Inl e
   | Inr v \<Rightarrow>
       let kept = kept_signatures keccak256 rec (gsdKeys gs) v
       in if length kept \<le> 2 * length (gsdKeys gs) div 3
          then repairVaa keccak256 rec vaaHex gs = Inl (mk_error ''There are not enough valid signatures to repair.'')
          else (\<exists>r. repairVaa keccak256 rec vaaHex gs = Inr r
                 \<and> parseVaa keccak256 (hexToUint8Array_sdk r) =
                     Inr (v\<lparr>guardianSetIndex := gsdIndex gs, guardianSignatures := sort_key sig_index kept\<rparr>))"
proof (cases "parseVaa keccak256 (hexToUint8Array_sdk vaaHex)")
  case (Inl e)
  then show ?thesis by (simp add: repairVaa_def Let_def)
next
  case (Inr v)
  note parsed = this[unfolded hex_string_no_prefix[OF assms(1)]]
  let ?kept = "kept_signatures keccak256 rec (gsdKeys gs) v"
  have few: "repairVaa keccak256 rec vaaHex gs = Inl (mk_error ''There are not enough valid signatures to repair.'')"
    if "length ?kept \<le> 2 * length (gsdKeys gs) div 3"
    using that Inr by (simp add: repairVaa_def Let_def quorum_two_thirds[OF assms(3)] kept_signatures_def)
  have "\<exists>r. repairVaa keccak256 rec vaaHex gs = Inr r" if "\<not> length ?kept \<le> 2 * length (gsdKeys gs) div 3"
    using that Inr by (simp add: repairVaa_def Let_def quorum_two_thirds[OF assms(3)] kept_signatures_def)
  with few repair_bytes[OF assms(1,2) parsed, of rec] show ?thesis by (auto simp: Inr Let_def)
qed

definition demo_recovery :: recovery where
  "demo_recovery =
     \<lparr>hexlifyMissing = (\<lambda>s. Inr (''0x'' @ s)),
      recoverAddress = (\<lambda>d s.
        if s = ''0x'' @ to_hex (replicate 65 7) then Inr ''0xa''
        else if s = ''0x'' @ to_hex (replicate 65 8) then Inr ''0xb''
        else if s = ''0x'' @ to_hex (replicate 65 9) then Inr ''0xc'' else Inl (mk_error ''invalid signature''))\<rparr>"

definition demo_signed :: "Payload VAA" where
  "demo_signed = demo_transfer\<lparr>vSignatures :=
     [\<lparr>vsGuardianSetIndex = 2, vsSignature = to_hex (replicate 65 9)\<rparr>, \<lparr>vsGuardianSetIndex = 1, vsSignature = to_hex (replicate 65 5)\<rparr>,
      \<lparr>vsGuardianSetIndex = 0, vsSignature = to_hex (replicate 65 7)\<rparr>, \<lparr>vsGuardianSetIndex = 1, vsSignature = to_hex (replicate 65 8)\<rparr>]\<rparr>"

lemma to_hex_inject: "to_hex a = to_hex b \<longleftrightarrow> a = b"
  by (metis from_hex_to_hex)

lemma demo_signed_ok: "vaa_ok demo_signed"
  using demo_transfer_ok by (simp add: demo_signed_def vaa_ok_def sig_ok_def uint_ok_def)

lemma demo_kept:
  "sort_key sig_index (kept_signatures id demo_recovery [''0xa'', ''0xb'', ''0xc''] (as_parsed id demo_signed)) =
     [\<lparr>gsIndex = Some 0, gsSignature = replicate 65 7\<rparr>, \<lparr>gsIndex = Some 1, gsSignature = replicate 65 8\<rparr>,
      \<lparr>gsIndex = Some 2, gsSignature = replicate 65 9\<rparr>]"
proof -
  have "[''0xa'', ''0xb'', ''0xc''] ! 2 = ''0xc''" "[''0xa'', ''0xb'', ''0xc''] ! 1 = ''0xb''"
    by (simp_all add: numeral_2_eq_2 One_nat_def)
  then have "kept_signatures id demo_recovery [''0xa'', ''0xb'', ''0xc''] (as_parsed id demo_signed) =
     [\<lparr>gsIndex = Some 2, gsSignature = replicate 65 9\<rparr>, \<lparr>gsIndex = Some 0, gsSignature = replicate 65 7\<rparr>,
      \<lparr>gsIndex = Some 1, gsSignature = replicate 65 8\<rparr>]"
    by (simp add: kept_signatures_def as_parsed_def demo_signed_def as_signature_def valid_signature_def demo_recovery_def to_hex_inject)
  then show ?thesis by (simp add: sig_index_def insort_key.simps)
qed

theorem repairVaa_spec_witness:
  "\<exists>r v. repairVaa id demo_recovery (to_hex (vaa_bytes demo_signed)) \<lparr>gsdIndex = 4, gsdKeys = [''0xa'', ''0xb'', ''0xc''], gsdExpiry = 0\<rparr> = Inr r
     \<and> parseVaa id (hexToUint8Array_sdk r) = Inr v \<and> guardianSetIndex v = 4 \<and> vaaHash v = body_bytes demo_signed
     \<and> map gsIndex (guardianSignatures v) = [Some 0, Some 1, Some 2]"
proof -
  let ?gs = "\<lparr>gsdIndex = 4, gsdKeys = [''0xa'', ''0xb'', ''0xc''], gsdExpiry = 0\<rparr>"
  have p: "parseVaa id (hexToUint8Array_sdk (to_hex (vaa_bytes demo_signed))) = Inr (as_parsed id demo_signed)"
    by (simp add: hex_string_no_prefix parse_vaa_bytes[OF demo_signed_ok])
  have n: "length (kept_signatures id demo_recovery [''0xa'', ''0xb'', ''0xc''] (as_parsed id demo_signed)) = 3"
    using arg_cong[OF demo_kept, of length] by simp
  have "gsdIndex ?gs < 256 ^ 4" "length (gsdKeys ?gs) < 2 ^ 50" by simp_all
  from repairVaa_spec[of "to_hex (vaa_bytes demo_signed)" ?gs id demo_recovery, OF hex_string_to_hex this]
  obtain r where "repairVaa id demo_recovery (to_hex (vaa_bytes demo_signed)) ?gs = Inr r"
    "parseVaa id (hexToUint8Array_sdk r) = Inr ((as_parsed id demo_signed)\<lparr>guardianSetIndex := 4, guardianSignatures :=
        sort_key sig_index (kept_signatures id demo_recovery [''0xa'', ''0xb'', ''0xc''] (as_parsed id demo_signed))\<rparr>)"
    by (auto simp: p Let_def n)
  then show ?thesis unfolding demo_kept by (auto simp: as_parsed_def)
qed

text \<open>
  Signatures are not checked to be of different guardians: copies of one valid signature are enough for any quorum.
\<close>

lemma copies_reach_quorum:
  assumes "parseVaa keccak256 (hexToUint8Array_sdk vaaHex) = Inr v" and "guardianSignatures v = replicate n sig"
    and "valid_signature rec (to_hex (keccak256 (vaaHash v))) (gsdKeys gs) sig"
    and "length (gsdKeys gs) < 2 ^ 50" and "2 * length (gsdKeys gs) div 3 < n"
  shows "\<exists>r. repairVaa keccak256 rec vaaHex gs = Inr r"
  using assms by (simp add: repairVaa_def Let_def quorum_two_thirds)

text \<open>
  A message with the prefix \<^verbatim>\<open>0x\<close> is accepted as well, but the version is then cut out of the prefix: the result has no
  version byte, and the last byte of the old signatures ends up in front of the body.
\<close>

lemma prefixed_repair_corrupts:
  assumes "repairVaa keccak256 rec (''0x'' @ h) gs = Inr r" and "parseVaa keccak256 (from_hex h) = Inr v"
  shows "\<exists>sigs. r = ''0x'' @ pad_start 8 CHR ''0'' (show_radix 16 (gsdIndex gs))
     @ pad_start 2 CHR ''0'' (show_radix 16 (length sigs)) @ concat (map write_signature sigs)
     @ drop (10 + length (guardianSignatures v) * 132) h"
proof -
  let ?sigs = "sort_key sig_index (kept_signatures keccak256 rec (gsdKeys gs) v)"
  have "hexToUint8Array_sdk (''0x'' @ h) = from_hex h" by (simp add: hexToUint8Array_sdk_def starts_with_def)
  moreover have "drop (12 + n) (''0x'' @ h) = drop (10 + n) h" for n using drop_append[of "12 + n" "''0x''" h] by simp
  ultimately show ?thesis using assms
    by (intro exI[of _ ?sigs]) (auto simp: repairVaa_def Let_def kept_signatures_def split: if_splits)
qed

end
