(* ===== verification/Relayer_Structs.thy ===== *)
theory Relayer_Structs
  imports Wormhole_Vaa Base64
begin

declare One_nat_def [simp del]

section \<open>Messages of the generic relayer: \<^verbatim>\<open>sdk/js/src/relayer/structs.ts\<close>\<close>

text \<open>
  Delivery and redelivery instructions, the keys of the messages they carry, execution parameters and overrides.  The
  parsers walk an index over a buffer, as here.  \<^verbatim>\<open>arrayify\<close>, \<^verbatim>\<open>hexlify\<close>, \<^verbatim>\<open>BigNumber.from\<close>, \<^verbatim>\<open>solidityPack\<close> and the ABI coder of \<^verbatim>\<open>ethers\<close> are
  parameters; a \<^verbatim>\<open>BigNumber\<close> is a natural number.
\<close>

subsection \<open>Data\<close>

datatype RelayerPayloadId = Delivery | Redelivery

datatype RefundStatus =
  RefundSent | RefundFail | CrossChainRefundSent | CrossChainRefundFailProviderNotSupported | CrossChainRefundFailNotEnough
| RefundAddressNotProvided | InvalidRefundStatus

definition parseRefundStatus :: "int \<Rightarrow> RefundStatus" where
  "parseRefundStatus index =
     (if index = 0 then RefundSent
      else if index = 1 then RefundFail
      else if index = 2 then CrossChainRefundSent
      else if index = 3 then CrossChainRefundFailProviderNotSupported
      else if index = 4 then CrossChainRefundFailNotEnough
      else if index = 5 then RefundAddressNotProvided
      else InvalidRefundStatus)"

definition KeyType_VAA :: nat where
  "KeyType_VAA = 1"

definition KeyType_CCTP :: nat where
  "KeyType_CCTP = 2"

text \<open>\<^verbatim>\<open>ethers.BytesLike\<close>: an array of bytes or a hexadecimal string.\<close>

datatype bytes_like = ByteArray bytes | HexString string

record MessageKey =
  keyType :: nat
  mkKey :: bytes_like

record VaaKey =
  vkChainId :: nat
  vkEmitterAddress :: bytes
  vkSequence :: nat

record CCTPKey =
  cctpDomain :: nat
  cctpNonce :: nat

record CCTPMessage =
  cctpMessage :: bytes
  cctpSignature :: bytes

record DeliveryInstruction =
  targetChainId :: nat
  targetAddress :: bytes
  diPayload :: bytes
  requestedReceiverValue :: nat
  extraReceiverValue :: nat
  encodedExecutionInfo :: bytes
  refundChainId :: nat
  refundAddress :: bytes
  refundDeliveryProvider :: bytes
  sourceDeliveryProvider :: bytes
  senderAddress :: bytes
  messageKeys :: "MessageKey list"

record RedeliveryInstruction =
  deliveryVaaKey :: VaaKey
  newTargetChainId :: nat
  newRequestedReceiverValue :: nat
  newEncodedExecutionInfo :: bytes
  newSourceDeliveryProvider :: bytes
  newSenderAddress :: bytes

record EVMExecutionInfoV1 =
  gasLimit :: nat
  targetChainRefundPerGasUnused :: nat

record DeliveryOverrideArgs =
  newReceiverValue :: nat
  newExecutionInfo :: bytes
  redeliveryHash :: bytes

record relay_ethers =
  arrayify :: "bytes_like \<Rightarrow> bytes outcome"
  hexlify_bytes :: "bytes_like \<Rightarrow> string outcome"
  bigNumber :: "bytes \<Rightarrow> nat outcome"
  solidityPack :: "string \<Rightarrow> nat \<Rightarrow> string outcome"
  abiEncodeInfo :: "nat \<Rightarrow> nat \<Rightarrow> nat \<Rightarrow> string outcome"
  abiEncodeBytes2 :: "bytes \<Rightarrow> bytes \<Rightarrow> string outcome"
  abiDecodeBytes2 :: "bytes_like \<Rightarrow> (bytes \<times> bytes) outcome"

subsection \<open>Writing into a buffer\<close>

text \<open>
  \<^verbatim>\<open>buf.writeUInt..BE(v, off)\<close> throws when the value does not fit or the buffer ends.  \<^verbatim>\<open>buf.fill(v, from, to)\<close> repeats the
  bytes of \<open>v\<close> over the range; on an empty range it does nothing and an empty \<open>v\<close> throws.
\<close>

definition write_be :: "nat \<Rightarrow> nat \<Rightarrow> nat \<Rightarrow> bytes \<Rightarrow> bytes outcome" where
  "write_be n v off buf =
     (if v \<ge> 256 ^ n \<or> length buf < off + n then Inl out_of_range
      else Inr (take off buf @ be_encode n v @ drop (off + n) buf))"

definition repeat_bytes :: "nat \<Rightarrow> bytes \<Rightarrow> bytes" where
  "repeat_bytes n v = map (\<lambda>i. v ! (i mod length v)) [0..<n]"

definition buf_fill :: "bytes \<Rightarrow> nat \<Rightarrow> nat \<Rightarrow> bytes \<Rightarrow> bytes outcome" where
  "buf_fill v from to buf =
     (if to \<le> from then Inr buf
      else if v = [] then Inl (type_error ''The argument 'value' is invalid'')
      else Inr (take from buf @ repeat_bytes (to - from) v @ drop to buf))"

subsection \<open>Keys\<close>

definition parseWormholeRelayerPayloadType :: "relay_ethers \<Rightarrow> bytes_like \<Rightarrow> RelayerPayloadId outcome" where
  "parseWormholeRelayerPayloadType eth stringPayload =
     e_bind (case stringPayload of HexString s \<Rightarrow> arrayify eth stringPayload | ByteArray bs \<Rightarrow> Inr bs) (\<lambda>payload.
     case buf_at payload 0 of
       None \<Rightarrow> Inl (mk_error ''Unrecognized payload type undefined'')
     | Some b \<Rightarrow>
         if unat b = 1 then Inr Delivery else if unat b = 2 then Inr Redelivery
         else Inl (mk_error (''Unrecognized payload type '' @ show_nat (unat b))))"

definition createVaaKey :: "nat \<Rightarrow> bytes \<Rightarrow> nat \<Rightarrow> VaaKey" where
  "createVaaKey chainId emitter sq = \<lparr>vkChainId = chainId, vkEmitterAddress = emitter, vkSequence = sq\<rparr>"

definition parsePayload :: "bytes \<Rightarrow> nat \<Rightarrow> (bytes \<times> nat) outcome" where
  "parsePayload bytes idx = e_bind (read_be 4 bytes idx) (\<lambda>len. Inr (subarray bytes (idx + 4) (idx + 4 + len), idx + 4 + len))"

definition parseMessageKey :: "relay_ethers \<Rightarrow> bytes_like \<Rightarrow> nat \<Rightarrow> (MessageKey \<times> nat) outcome" where
  "parseMessageKey eth raw idx =
     e_bind (arrayify eth raw) (\<lambda>bytes.
     e_bind (read_be 1 bytes idx) (\<lambda>kt.
     if kt = KeyType_VAA
     then Inr (\<lparr>keyType = kt, mkKey = ByteArray (subarray bytes (idx + 1) (idx + 1 + 42))\<rparr>, idx + 1 + 2 + 32 + 8)
     else e_bind (read_be 4 bytes (idx + 1)) (\<lambda>len.
          Inr (\<lparr>keyType = kt, mkKey = ByteArray (subarray bytes (idx + 1 + 4) (idx + 1 + 4 + len))\<rparr>, idx + 1 + 4 + len))))"

definition packMessageKey :: "relay_ethers \<Rightarrow> MessageKey \<Rightarrow> string outcome" where
  "packMessageKey eth key =
     e_bind (arrayify eth (mkKey key)) (\<lambda>encodedKey.
     let buf = replicate (1 + 4 + length encodedKey) 0
     in e_bind (write_be 1 (keyType key) 0 buf) (\<lambda>buf.
        e_bind (if keyType key = KeyType_VAA then buf_fill encodedKey 1 (length buf) buf
                else e_bind (write_be 4 (length encodedKey) 1 buf) (\<lambda>buf. buf_fill encodedKey 5 (length buf) buf)) (\<lambda>buf.
        hexlify_bytes eth (ByteArray buf))))"

definition parseCCTPKey :: "relay_ethers \<Rightarrow> bytes_like \<Rightarrow> CCTPKey outcome" where
  "parseCCTPKey eth raw =
     e_bind (arrayify eth raw) (\<lambda>bytes.
     e_bind (read_be 4 bytes 0) (\<lambda>domain.
     e_bind (read_be 8 bytes 4) (\<lambda>n.
     Inr \<lparr>cctpDomain = domain, cctpNonce = n\<rparr>)))"

definition packCCTPKey :: "relay_ethers \<Rightarrow> CCTPKey \<Rightarrow> string outcome" where
  "packCCTPKey eth key =
     e_bind (write_be 4 (cctpDomain key) 0 (replicate 12 0)) (\<lambda>buf.
     e_bind (write_be 8 (cctpNonce key) 4 buf) (\<lambda>buf. hexlify_bytes eth (ByteArray buf)))"

definition parseVaaKey :: "relay_ethers \<Rightarrow> bytes_like \<Rightarrow> VaaKey outcome" where
  "parseVaaKey eth raw =
     e_bind (arrayify eth raw) (\<lambda>bytes.
     e_bind (read_be 2 bytes 0) (\<lambda>chainId.
     e_bind (bigNumber eth (subarray bytes 34 42)) (\<lambda>sq.
     Inr \<lparr>vkChainId = chainId, vkEmitterAddress = subarray bytes 2 34, vkSequence = sq\<rparr>)))"

definition packVaaKey :: "relay_ethers \<Rightarrow> VaaKey \<Rightarrow> string outcome" where
  "packVaaKey eth vaaKey =
     e_bind (write_be 2 (vkChainId vaaKey) 0 (replicate 42 0)) (\<lambda>buf.
     e_bind (buf_fill (vkEmitterAddress vaaKey) 2 34 buf) (\<lambda>buf.
     e_bind (write_be 8 (vkSequence vaaKey) 34 buf) (\<lambda>buf. hexlify_bytes eth (ByteArray buf))))"

definition packCCTPMessage :: "relay_ethers \<Rightarrow> CCTPMessage \<Rightarrow> string outcome" where
  "packCCTPMessage eth m = abiEncodeBytes2 eth (cctpMessage m) (cctpSignature m)"

definition parseCCTPMessage :: "relay_ethers \<Rightarrow> bytes_like \<Rightarrow> CCTPMessage outcome" where
  "parseCCTPMessage eth bytes = e_bind (abiDecodeBytes2 eth bytes) (\<lambda>(m, s). Inr \<lparr>cctpMessage = m, cctpSignature = s\<rparr>)"

subsection \<open>Instructions\<close>

fun parse_message_keys :: "relay_ethers \<Rightarrow> bytes \<Rightarrow> nat \<Rightarrow> nat \<Rightarrow> (MessageKey list \<times> nat) outcome" where
  "parse_message_keys eth bytes 0 idx = Inr ([], idx)"
| "parse_message_keys eth bytes (Suc n) idx =
     e_bind (parseMessageKey eth (ByteArray bytes) idx) (\<lambda>(k, idx).
     e_bind (parse_message_keys eth bytes n idx) (\<lambda>(ks, idx). Inr (k # ks, idx)))"

definition wrong_payload :: "nat \<Rightarrow> nat \<Rightarrow> js_error" where
  "wrong_payload expected found =
     mk_error (''Expected Delivery payload type ('' @ show_nat expected @ ''), found: '' @ show_nat found)"

definition parseWormholeRelayerSend :: "relay_ethers \<Rightarrow> bytes \<Rightarrow> DeliveryInstruction outcome" where
  "parseWormholeRelayerSend eth bytes =
     e_bind (read_be 1 bytes 0) (\<lambda>payloadId.
     if payloadId \<noteq> 1 then Inl (wrong_payload 1 payloadId)
     else
       e_bind (read_be 2 bytes 1) (\<lambda>chain.
       e_bind (parsePayload bytes 35) (\<lambda>(payload, idx).
       e_bind (bigNumber eth (subarray bytes idx (idx + 32))) (\<lambda>requested.
       e_bind (bigNumber eth (subarray bytes (idx + 32) (idx + 64))) (\<lambda>extra.
       e_bind (parsePayload bytes (idx + 64)) (\<lambda>(info, idx).
       e_bind (read_be 2 bytes idx) (\<lambda>refundChain.
       e_bind (read_be 1 bytes (idx + 130)) (\<lambda>numMessages.
       e_bind (parse_message_keys eth bytes numMessages (idx + 131)) (\<lambda>(keys, _).
       Inr \<lparr>targetChainId = chain, targetAddress = subarray bytes 3 35, diPayload = payload, requestedReceiverValue = requested,
            extraReceiverValue = extra, encodedExecutionInfo = info, refundChainId = refundChain,
            refundAddress = subarray bytes (idx + 2) (idx + 34), refundDeliveryProvider = subarray bytes (idx + 34) (idx + 66),
            sourceDeliveryProvider = subarray bytes (idx + 66) (idx + 98), senderAddress = subarray bytes (idx + 98) (idx + 130),
            messageKeys = keys\<rparr>)))))))))"

definition parseWormholeRelayerResend :: "relay_ethers \<Rightarrow> bytes \<Rightarrow> RedeliveryInstruction outcome" where
  "parseWormholeRelayerResend eth bytes =
     e_bind (read_be 1 bytes 0) (\<lambda>payloadId.
     if payloadId \<noteq> 2 then Inl (wrong_payload 2 payloadId)
     else
       e_bind (parseMessageKey eth (ByteArray bytes) 1) (\<lambda>(parsedMessageKey, idx).
       e_bind (parseVaaKey eth (mkKey parsedMessageKey)) (\<lambda>key.
       e_bind (read_be 2 bytes idx) (\<lambda>chain.
       e_bind (bigNumber eth (subarray bytes (idx + 2) (idx + 34))) (\<lambda>requested.
       e_bind (parsePayload bytes (idx + 34)) (\<lambda>(info, idx).
       Inr \<lparr>deliveryVaaKey = key, newTargetChainId = chain, newRequestedReceiverValue = requested, newEncodedExecutionInfo = info,
            newSourceDeliveryProvider = subarray bytes idx (idx + 32), newSenderAddress = subarray bytes (idx + 32) (idx + 64)\<rparr>))))))"

subsection \<open>Execution parameters and overrides\<close>

definition parseEVMExecutionInfoV1 :: "relay_ethers \<Rightarrow> bytes \<Rightarrow> nat \<Rightarrow> (EVMExecutionInfoV1 \<times> nat) outcome" where
  "parseEVMExecutionInfoV1 eth bytes idx =
     e_bind (read_be 1 bytes (idx + 31)) (\<lambda>version.
     if version \<noteq> 0 then Inl (mk_error ''Unexpected Execution Info version'')
     else
       e_bind (bigNumber eth (subarray bytes (idx + 32) (idx + 64))) (\<lambda>gl.
       e_bind (bigNumber eth (subarray bytes (idx + 64) (idx + 96))) (\<lambda>refund.
       Inr (\<lparr>gasLimit = gl, targetChainRefundPerGasUnused = refund\<rparr>, idx + 96))))"

definition packEVMExecutionInfoV1 :: "relay_ethers \<Rightarrow> EVMExecutionInfoV1 \<Rightarrow> string outcome" where
  "packEVMExecutionInfoV1 eth info = abiEncodeInfo eth 0 (gasLimit info) (targetChainRefundPerGasUnused info)"

definition executionInfoToString :: "relay_ethers \<Rightarrow> bytes \<Rightarrow> string outcome" where
  "executionInfoToString eth info =
     e_bind (parseEVMExecutionInfoV1 eth info 0) (\<lambda>(parsed, _).
     Inr (''Gas limit: '' @ show_nat (gasLimit parsed) @ '', Target chain refund per unit gas unused: ''
          @ show_nat (targetChainRefundPerGasUnused parsed)))"

definition packOverrides :: "relay_ethers \<Rightarrow> DeliveryOverrideArgs \<Rightarrow> string outcome" where
  "packOverrides eth overrides =
     e_bind (solidityPack eth ''uint8'' 1) (\<lambda>version.
     e_bind (solidityPack eth ''uint256'' (newReceiverValue overrides)) (\<lambda>val.
     e_bind (solidityPack eth ''uint32'' (length (newExecutionInfo overrides))) (\<lambda>len.
     Inr (''0x'' @ drop 2 version @ drop 2 val @ drop 2 len @ to_hex (newExecutionInfo overrides) @ to_hex (redeliveryHash overrides)))))"

definition parseOverrideInfoFromDeliveryEvent :: "relay_ethers \<Rightarrow> bytes \<Rightarrow> DeliveryOverrideArgs outcome" where
  "parseOverrideInfoFromDeliveryEvent eth bytes =
     e_bind (read_be 1 bytes 0) (\<lambda>version.
     e_bind (bigNumber eth (subarray bytes 1 33)) (\<lambda>val.
     e_bind (parsePayload bytes 33) (\<lambda>(info, idx).
     Inr \<lparr>newReceiverValue = val, newExecutionInfo = info, redeliveryHash = subarray bytes idx (idx + 32)\<rparr>)))"

subsection \<open>Printable forms\<close>

text \<open>Objects whose leaves are strings.\<close>

datatype printable = Leaf string | Node "(string \<times> printable) list" | Items "printable list"

definition vaaKeyPrintable :: "VaaKey \<Rightarrow> (string \<times> printable) list" where
  "vaaKeyPrintable ix =
     [(''chainId'', Leaf (show_nat (vkChainId ix))), (''emitterAddress'', Leaf (to_hex (vkEmitterAddress ix))),
      (''sequence'', Leaf (show_nat (vkSequence ix)))]"

definition cctpKeyPrintable :: "CCTPKey \<Rightarrow> (string \<times> printable) list" where
  "cctpKeyPrintable ix = [(''domain'', Leaf (show_nat (cctpDomain ix))), (''nonce'', Leaf (show_nat (cctpNonce ix)))]"

definition messageKeyPrintable :: "relay_ethers \<Rightarrow> MessageKey \<Rightarrow> printable outcome" where
  "messageKeyPrintable eth ix =
     (if keyType ix = KeyType_VAA
      then e_bind (parseVaaKey eth (mkKey ix)) (\<lambda>k. Inr (Node ((''keyType'', Leaf ''VAA'') # vaaKeyPrintable k)))
      else if keyType ix = KeyType_CCTP
      then e_bind (parseCCTPKey eth (mkKey ix)) (\<lambda>k. Inr (Node ((''keyType'', Leaf ''CCTP'') # cctpKeyPrintable k)))
      else e_bind (hexlify_bytes eth (mkKey ix)) (\<lambda>h.
           Inr (Node [(''keyType'', Leaf (show_nat (keyType ix))), (''key'', Leaf h)])))"

definition deliveryInstructionsPrintable :: "relay_ethers \<Rightarrow> DeliveryInstruction \<Rightarrow> printable outcome" where
  "deliveryInstructionsPrintable eth ix =
     e_bind (executionInfoToString eth (encodedExecutionInfo ix)) (\<lambda>info.
     e_bind (e_map (messageKeyPrintable eth) (messageKeys ix)) (\<lambda>keys.
     Inr (Node
       [(''targetChainId'', Leaf (show_nat (targetChainId ix))), (''targetAddress'', Leaf (to_hex (targetAddress ix))),
        (''payload'', Leaf (to_base64 (diPayload ix))), (''requestedReceiverValue'', Leaf (show_nat (requestedReceiverValue ix))),
        (''extraReceiverValue'', Leaf (show_nat (extraReceiverValue ix))), (''encodedExecutionInfo'', Leaf info),
        (''refundChainId'', Leaf (show_nat (refundChainId ix))), (''refundAddress'', Leaf (to_hex (refundAddress ix))),
        (''refundDeliveryProvider'', Leaf (to_hex (refundDeliveryProvider ix))),
        (''sourceDeliveryProvider'', Leaf (to_hex (sourceDeliveryProvider ix))), (''senderAddress'', Leaf (to_hex (senderAddress ix))),
        (''messageKeys'', Items keys)])))"

definition redeliveryInstructionPrintable :: "relay_ethers \<Rightarrow> RedeliveryInstruction \<Rightarrow> printable outcome" where
  "redeliveryInstructionPrintable eth ix =
     e_bind (executionInfoToString eth (newEncodedExecutionInfo ix)) (\<lambda>info.
     Inr (Node
       [(''deliveryVaaKey'', Node (vaaKeyPrintable (deliveryVaaKey ix))), (''targetChainId'', Leaf (show_nat (newTargetChainId ix))),
        (''newRequestedReceiverValue'', Leaf (show_nat (newRequestedReceiverValue ix))), (''newEncodedExecutionInfo'', Leaf info),
        (''newSourceDeliveryProvider'', Leaf (to_hex (newSourceDeliveryProvider ix))),
        (''newSenderAddress'', Leaf (to_hex (newSenderAddress ix)))]))"

subsection \<open>What is assumed of \<^verbatim>\<open>ethers\<close>\<close>

text \<open>
  Documented behaviour: \<^verbatim>\<open>arrayify\<close> leaves bytes as they are and reads hexadecimal strings with a prefix, \<^verbatim>\<open>hexlify\<close> writes them,
  \<^verbatim>\<open>BigNumber.from\<close> of some bytes is the number with these big-endian digits, packed integers are big-endian in
  the width of their type, and ABI-encoded integers take 32 bytes each.
\<close>

definition relay_ok :: "relay_ethers \<Rightarrow> bool" where
  "relay_ok eth \<longleftrightarrow>
     (\<forall>bs. arrayify eth (ByteArray bs) = Inr bs \<and> arrayify eth (HexString (''0x'' @ to_hex bs)) = Inr bs
        \<and> hexlify_bytes eth (ByteArray bs) = Inr (''0x'' @ to_hex bs))
     \<and> (\<forall>bs. bs \<noteq> [] \<longrightarrow> bigNumber eth bs = Inr (be_decode bs))
     \<and> (\<forall>x < 256 ^ 1. solidityPack eth ''uint8'' x = Inr (''0x'' @ to_hex (be_encode 1 x)))
     \<and> (\<forall>x < 256 ^ 4. solidityPack eth ''uint32'' x = Inr (''0x'' @ to_hex (be_encode 4 x)))
     \<and> (\<forall>x < 256 ^ 32. solidityPack eth ''uint256'' x = Inr (''0x'' @ to_hex (be_encode 32 x)))
     \<and> (\<forall>v a b. v < 256 ^ 1 \<and> a < 256 ^ 32 \<and> b < 256 ^ 32 \<longrightarrow>
          abiEncodeInfo eth v a b = Inr (''0x'' @ to_hex (be_encode 32 v @ be_encode 32 a @ be_encode 32 b)))
     \<and> (\<forall>a b. length a < 256 ^ 4 \<and> length b < 256 ^ 4 \<longrightarrow>
          (\<exists>h. abiEncodeBytes2 eth a b = Inr h \<and> abiDecodeBytes2 eth (HexString h) = Inr (a, b)))"

definition demo_relay :: relay_ethers where
  "demo_relay =
     \<lparr>arrayify = (\<lambda>v. case v of ByteArray bs \<Rightarrow> Inr bs | HexString s \<Rightarrow> Inr (from_hex (drop 2 s))),
      hexlify_bytes = (\<lambda>v. case v of ByteArray bs \<Rightarrow> Inr (''0x'' @ to_hex bs) | HexString s \<Rightarrow> Inr s),
      bigNumber = (\<lambda>bs. if bs = [] then Inl (mk_error ''invalid BigNumber string'') else Inr (be_decode bs)),
      solidityPack = (\<lambda>t x. Inr (''0x'' @ to_hex (be_encode (if t = ''uint8'' then 1 else if t = ''uint32'' then 4 else 32) x))),
      abiEncodeInfo = (\<lambda>v a b. Inr (''0x'' @ to_hex (be_encode 32 v @ be_encode 32 a @ be_encode 32 b))),
      abiEncodeBytes2 = (\<lambda>a b. Inr (''0x'' @ to_hex (be_encode 32 (length a) @ a @ b))),
      abiDecodeBytes2 = (\<lambda>v.
        let d = (case v of ByteArray bs \<Rightarrow> bs | HexString s \<Rightarrow> from_hex (drop 2 s)); n = be_decode (take 32 d)
        in Inr (take n (drop 32 d), drop (32 + n) d))\<rparr>"

lemma demo_relay_ok: "relay_ok demo_relay"
  by (simp add: relay_ok_def demo_relay_def be_decode_encode Let_def)

lemma relay_okD:
  assumes "relay_ok eth"
  shows "arrayify eth (ByteArray bs) = Inr bs" "arrayify eth (HexString (''0x'' @ to_hex bs)) = Inr bs"
    "hexlify_bytes eth (ByteArray bs) = Inr (''0x'' @ to_hex bs)"
    "bs \<noteq> [] \<Longrightarrow> bigNumber eth bs = Inr (be_decode bs)"
    "0 < n \<Longrightarrow> x < 256 ^ n \<Longrightarrow> bigNumber eth (be_encode n x) = Inr x"
proof -
  show "arrayify eth (ByteArray bs) = Inr bs" "arrayify eth (HexString (''0x'' @ to_hex bs)) = Inr bs"
    "hexlify_bytes eth (ByteArray bs) = Inr (''0x'' @ to_hex bs)"
    and b: "\<And>bs. bs \<noteq> [] \<Longrightarrow> bigNumber eth bs = Inr (be_decode bs)"
    using assms by (simp_all add: relay_ok_def)
  assume "0 < n" "x < 256 ^ n"
  moreover from \<open>0 < n\<close> have "be_encode n x \<noteq> []" by (metis length_be_encode length_greater_0_conv)
  ultimately show "bigNumber eth (be_encode n x) = Inr x" by (simp add: b be_decode_encode)
qed

subsection \<open>Keys are read back\<close>

lemma repeat_once: "v \<noteq> [] \<Longrightarrow> n \<le> length v \<Longrightarrow> repeat_bytes n v = take n v"
  by (rule nth_equalityI) (auto simp: repeat_bytes_def)

lemma write_be_at [layout]:
  assumes "v < 256 ^ n" and "length pre = off" and "n \<le> length rest"
  shows "write_be n v off (pre @ rest) = Inr (pre @ be_encode n v @ drop n rest)"
  using assms by (simp add: write_be_def)

lemma buf_fill_at:
  assumes "v \<noteq> []" and "length pre = from" and "from < to" and "to - from \<le> length v"
  shows "buf_fill v from to (pre @ rest) = Inr (pre @ take (to - from) v @ drop (to - from) rest)"
  using assms by (simp add: buf_fill_def repeat_once)

definition vaa_key_ok :: "VaaKey \<Rightarrow> bool" where
  "vaa_key_ok k \<longleftrightarrow> vkChainId k < 256 ^ 2 \<and> length (vkEmitterAddress k) = 32 \<and> vkSequence k < 256 ^ 8"

definition vaa_key_bytes :: "VaaKey \<Rightarrow> bytes" where
  "vaa_key_bytes k = be_encode 2 (vkChainId k) @ vkEmitterAddress k @ be_encode 8 (vkSequence k)"

lemma pack_vaa_key:
  assumes "relay_ok eth" and "vaa_key_ok k"
  shows "packVaaKey eth k = Inr (''0x'' @ to_hex (vaa_key_bytes k))"
proof -
  have e: "vkEmitterAddress k \<noteq> []" "length (vkEmitterAddress k) = 32" using assms(2) by (auto simp: vaa_key_ok_def)
  have "write_be 2 (vkChainId k) 0 (replicate 42 0) = Inr (be_encode 2 (vkChainId k) @ replicate 40 0)"
    using assms(2) write_be_at[of "vkChainId k" 2 "[]" 0 "replicate 42 0"] by (simp add: vaa_key_ok_def)
  moreover have "buf_fill (vkEmitterAddress k) 2 34 (be_encode 2 (vkChainId k) @ replicate 40 0) =
      Inr (be_encode 2 (vkChainId k) @ vkEmitterAddress k @ replicate 8 0)"
    using buf_fill_at[of "vkEmitterAddress k" "be_encode 2 (vkChainId k)" 2 34 "replicate 40 0"] e by simp
  moreover have "write_be 8 (vkSequence k) 34 (be_encode 2 (vkChainId k) @ vkEmitterAddress k @ replicate 8 0) = Inr (vaa_key_bytes k)"
    using assms(2) write_be_at[of "vkSequence k" 8 "be_encode 2 (vkChainId k) @ vkEmitterAddress k" 34 "replicate 8 0"]
    by (simp add: vaa_key_ok_def vaa_key_bytes_def)
  ultimately show ?thesis by (simp add: packVaaKey_def relay_okD[OF assms(1)])
qed

lemma parse_vaa_key:
  assumes "relay_ok eth" and "vaa_key_ok k" and "arrayify eth raw = Inr (vaa_key_bytes k @ rest)"
  shows "parseVaaKey eth raw = Inr k"
  using assms(2,3) by (simp add: parseVaaKey_def vaa_key_ok_def vaa_key_bytes_def layout relay_okD[OF assms(1)])

lemma cctp_key_roundtrip:
  assumes "relay_ok eth" and "cctpDomain k < 256 ^ 4" and "cctpNonce k < 256 ^ 8"
  shows "\<exists>h. packCCTPKey eth k = Inr h \<and> parseCCTPKey eth (HexString h) = Inr k"
proof -
  let ?b = "be_encode 4 (cctpDomain k) @ be_encode 8 (cctpNonce k)"
  have "write_be 4 (cctpDomain k) 0 (replicate 12 0) = Inr (be_encode 4 (cctpDomain k) @ replicate 8 0)"
    using assms(2) write_be_at[of "cctpDomain k" 4 "[]" 0 "replicate 12 0"] by simp
  moreover have "write_be 8 (cctpNonce k) 4 (be_encode 4 (cctpDomain k) @ replicate 8 0) = Inr ?b"
    using assms(3) write_be_at[of "cctpNonce k" 8 "be_encode 4 (cctpDomain k)" 4 "replicate 8 0"] by simp
  ultimately have "packCCTPKey eth k = Inr (''0x'' @ to_hex ?b)" by (simp add: packCCTPKey_def relay_okD[OF assms(1)])
  moreover have "parseCCTPKey eth (HexString (''0x'' @ to_hex ?b)) = Inr k"
    unfolding parseCCTPKey_def relay_okD(2)[OF assms(1)] using assms(2,3) by (simp add: layout)
  ultimately show ?thesis by blast
qed

subsection \<open>Message keys\<close>

definition key_bytes :: "MessageKey \<Rightarrow> bytes" where
  "key_bytes k = (case mkKey k of ByteArray bs \<Rightarrow> bs | HexString s \<Rightarrow> [])"

definition message_key_ok :: "MessageKey \<Rightarrow> bool" where
  "message_key_ok k \<longleftrightarrow>
     keyType k < 256 \<and> mkKey k = ByteArray (key_bytes k) \<and> length (key_bytes k) < 256 ^ 4
     \<and> (keyType k = KeyType_VAA \<longrightarrow> length (key_bytes k) = 42)"

text \<open>The format of the contracts: the key of a VAA has a fixed length, any other one is preceded by its length.\<close>

definition enc_message_key :: "MessageKey \<Rightarrow> bytes" where
  "enc_message_key k =
     be_encode 1 (keyType k) @
     (if keyType k = KeyType_VAA then key_bytes k else be_encode 4 (length (key_bytes k)) @ key_bytes k)"

lemma parse_message_key:
  assumes "relay_ok eth" and "message_key_ok k" and "arrayify eth raw = Inr (pre @ enc_message_key k @ rest)"
  shows "parseMessageKey eth raw (length pre) = Inr (k, length pre + length (enc_message_key k))"
proof (cases "keyType k = KeyType_VAA")
  case True
  with assms show ?thesis
    by (simp add: parseMessageKey_def message_key_ok_def enc_message_key_def layout KeyType_VAA_def)
next
  case False
  with assms show ?thesis
    by (simp add: parseMessageKey_def message_key_ok_def enc_message_key_def layout)
qed

lemma parse_message_keys:
  assumes "relay_ok eth" and "list_all message_key_ok ks"
  shows "parse_message_keys eth (pre @ concat (map enc_message_key ks) @ rest) (length ks) (length pre) =
     Inr (ks, length pre + length (concat (map enc_message_key ks)))"
  using assms(2)
proof (induction ks arbitrary: pre)
  case (Cons k ks)
  have "arrayify eth (ByteArray (pre @ concat (map enc_message_key (k # ks)) @ rest)) =
      Inr (pre @ enc_message_key k @ concat (map enc_message_key ks) @ rest)"
    by (simp add: relay_okD[OF assms(1)])
  from parse_message_key[OF assms(1) _ this] Cons.prems Cons.IH[of "pre @ enc_message_key k"] show ?case by simp
qed simp

text \<open>
  What \<open>packMessageKey\<close> writes.  The buffer always has room for a length; for the key of a VAA, which has
  none, the rest is filled with the key from its beginning again.
\<close>

lemma repeat_wrap:
  assumes "v \<noteq> []" and "n \<le> length v"
  shows "repeat_bytes (length v + n) v = v @ take n v"
proof (rule nth_equalityI)
  fix i assume "i < length (repeat_bytes (length v + n) v)"
  then have i: "i < length v + n" by (simp add: repeat_bytes_def)
  have "i mod length v = (if i < length v then i else i - length v)" if "n < length v \<or> i < 2 * length v"
    using i assms that by (auto simp: mod_if)
  moreover have "i < 2 * length v" using i assms(2) by simp
  ultimately show "repeat_bytes (length v + n) v ! i = (v @ take n v) ! i"
    using i by (simp add: repeat_bytes_def nth_append)
qed (use assms in \<open>simp add: repeat_bytes_def\<close>)

lemma pack_message_key:
  assumes "relay_ok eth" and "message_key_ok k"
  shows "packMessageKey eth k =
     Inr (''0x'' @ to_hex (enc_message_key k @ (if keyType k = KeyType_VAA then take 4 (key_bytes k) else [])))"
proof -
  let ?b = "key_bytes k"
  from assms(2) have k: "keyType k < 256" "mkKey k = ByteArray ?b" "length ?b < 256 ^ 4" by (auto simp: message_key_ok_def)
  have w: "write_be 1 (keyType k) 0 (replicate (1 + 4 + length ?b) 0) = Inr (be_encode 1 (keyType k) @ replicate (4 + length ?b) 0)"
    using k(1) write_be_at[of "keyType k" 1 "[]" 0 "replicate (1 + 4 + length ?b) 0"] by simp
  show ?thesis
  proof (cases "keyType k = KeyType_VAA")
    case True
    then have l: "length ?b = 42" using assms(2) by (simp add: message_key_ok_def)
    then have "?b \<noteq> []" by auto
    from repeat_wrap[OF this, of 4] l have "repeat_bytes 46 ?b = ?b @ take 4 ?b" by simp
    then have "buf_fill ?b 1 47 (be_encode 1 (keyType k) @ replicate 46 0) = Inr (be_encode 1 (keyType k) @ ?b @ take 4 ?b)"
      using \<open>?b \<noteq> []\<close> by (simp add: buf_fill_def)
    with True k w l show ?thesis
      by (simp add: packMessageKey_def relay_okD[OF assms(1)] enc_message_key_def Let_def)
  next
    case False
    have "write_be 4 (length ?b) 1 (be_encode 1 (keyType k) @ replicate (4 + length ?b) 0) =
        Inr (be_encode 1 (keyType k) @ be_encode 4 (length ?b) @ replicate (length ?b) 0)"
      using k(3) write_be_at[of "length ?b" 4 "be_encode 1 (keyType k)" 1 "replicate (4 + length ?b) 0"] by simp
    moreover have "buf_fill ?b 5 (5 + length ?b) (be_encode 1 (keyType k) @ be_encode 4 (length ?b) @ replicate (length ?b) 0) =
        Inr (be_encode 1 (keyType k) @ be_encode 4 (length ?b) @ ?b)"
      using buf_fill_at[of ?b "be_encode 1 (keyType k) @ be_encode 4 (length ?b)" 5 "5 + length ?b" "replicate (length ?b) 0"]
      by (cases "?b = []") (simp_all add: buf_fill_def)
    ultimately show ?thesis using False k w
      by (simp add: packMessageKey_def relay_okD[OF assms(1)] enc_message_key_def Let_def add.commute)
  qed
qed

text \<open>
  So a packed key of a VAA is four bytes too long.  Read on its own the rest is ignored; of two such keys in a
  row the second is read inside the surplus, and its type is then the first byte of the first key.
\<close>

lemma packed_vaa_keys_misread:
  assumes "relay_ok eth" and "message_key_ok k1" "keyType k1 = KeyType_VAA"
    and "packMessageKey eth k1 = Inr (''0x'' @ to_hex b1)" and "parse_message_keys eth (b1 @ b2) 2 0 = Inr (ks, i)"
  shows "\<exists>k2'. ks = [k1, k2'] \<and> keyType k2' = unat (key_bytes k1 ! 0)"
proof -
  have l: "length (key_bytes k1) = 42" using assms(2,3) by (simp add: message_key_ok_def)
  obtain c cs where c: "key_bytes k1 = c # cs" using l by (cases "key_bytes k1") auto
  have "to_hex b1 = to_hex (enc_message_key k1 @ take 4 (key_bytes k1))" using assms(3,4) pack_message_key[OF assms(1,2)] by simp
  then have b: "b1 @ b2 = enc_message_key k1 @ take 4 (key_bytes k1) @ b2" by (metis append.assoc from_hex_to_hex)
  from parse_message_key[OF assms(1,2), of "ByteArray (b1 @ b2)" "[]" "take 4 (key_bytes k1) @ b2"]
  have first: "parseMessageKey eth (ByteArray (b1 @ b2)) 0 = Inr (k1, 43)"
    using l assms(3) by (simp add: relay_okD[OF assms(1)] b enc_message_key_def)
  from assms(5) obtain k2' j where "parseMessageKey eth (ByteArray (b1 @ b2)) 43 = Inr (k2', j)" and ks: "ks = [k1, k2']"
    by (auto simp: numeral_2_eq_2 first e_bind_Inr_iff split: prod.splits)
  then obtain t where t: "read_be 1 (b1 @ b2) 43 = Inr t" "keyType k2' = t"
    by (auto simp: parseMessageKey_def relay_okD[OF assms(1)] e_bind_Inr_iff split: if_splits)
  have "read_be 1 (b1 @ b2) 43 = read_be 1 (take 4 (key_bytes k1) @ b2) 0"
    unfolding b using l assms(3) by (simp add: enc_message_key_def layout)
  then have "t = unat c" using t(1) by (auto simp: read_be_def be_decode_def c One_nat_def split: if_splits)
  with t(2) ks c show ?thesis by simp
qed

subsection \<open>Instructions, execution parameters and overrides are read back\<close>

definition delivery_ok :: "DeliveryInstruction \<Rightarrow> bool" where
  "delivery_ok ix \<longleftrightarrow>
     targetChainId ix < 256 ^ 2 \<and> length (targetAddress ix) = 32 \<and> length (diPayload ix) < 256 ^ 4 \<and> requestedReceiverValue ix < 256 ^ 32
     \<and> extraReceiverValue ix < 256 ^ 32 \<and> length (encodedExecutionInfo ix) < 256 ^ 4 \<and> refundChainId ix < 256 ^ 2
     \<and> length (refundAddress ix) = 32 \<and> length (refundDeliveryProvider ix) = 32 \<and> length (sourceDeliveryProvider ix) = 32
     \<and> length (senderAddress ix) = 32 \<and> length (messageKeys ix) < 256 \<and> list_all message_key_ok (messageKeys ix)"

definition enc_delivery :: "DeliveryInstruction \<Rightarrow> bytes" where
  "enc_delivery ix =
     be_encode 1 1 @ be_encode 2 (targetChainId ix) @ targetAddress ix @ be_encode 4 (length (diPayload ix)) @ diPayload ix
     @ be_encode 32 (requestedReceiverValue ix) @ be_encode 32 (extraReceiverValue ix)
     @ be_encode 4 (length (encodedExecutionInfo ix)) @ encodedExecutionInfo ix @ be_encode 2 (refundChainId ix) @ refundAddress ix
     @ refundDeliveryProvider ix @ sourceDeliveryProvider ix @ senderAddress ix
     @ be_encode 1 (length (messageKeys ix)) @ concat (map enc_message_key (messageKeys ix))"

definition redelivery_ok :: "RedeliveryInstruction \<Rightarrow> bool" where
  "redelivery_ok ix \<longleftrightarrow>
     vaa_key_ok (deliveryVaaKey ix) \<and> newTargetChainId ix < 256 ^ 2 \<and> newRequestedReceiverValue ix < 256 ^ 32
     \<and> length (newEncodedExecutionInfo ix) < 256 ^ 4 \<and> length (newSourceDeliveryProvider ix) = 32 \<and> length (newSenderAddress ix) = 32"

definition enc_redelivery :: "RedeliveryInstruction \<Rightarrow> bytes" where
  "enc_redelivery ix =
     be_encode 1 2 @ be_encode 1 1 @ vaa_key_bytes (deliveryVaaKey ix) @ be_encode 2 (newTargetChainId ix)
     @ be_encode 32 (newRequestedReceiverValue ix) @ be_encode 4 (length (newEncodedExecutionInfo ix)) @ newEncodedExecutionInfo ix
     @ newSourceDeliveryProvider ix @ newSenderAddress ix"

lemma small_codes: "1 < (256 :: nat) ^ 1" "2 < (256 :: nat) ^ 1" "n < 256 \<Longrightarrow> n < (256 :: nat) ^ 1"
  by simp_all

lemma parse_delivery:
  assumes "relay_ok eth" and ok: "delivery_ok ix"
  shows "parseWormholeRelayerSend eth (enc_delivery ix @ rest) = Inr ix"
proof -
  let ?p = "diPayload ix" and ?i = "encodedExecutionInfo ix" and ?ks = "messageKeys ix"
  let ?b = "enc_delivery ix @ rest" and ?m = "concat (map enc_message_key ?ks) @ rest"
  let ?idx = "length ?p + length ?i + 107"
  define pre where "pre = be_encode 1 1 @ be_encode 2 (targetChainId ix) @ targetAddress ix @ be_encode 4 (length ?p) @ ?p
     @ be_encode 32 (requestedReceiverValue ix) @ be_encode 32 (extraReceiverValue ix) @ be_encode 4 (length ?i) @ ?i
     @ be_encode 2 (refundChainId ix) @ refundAddress ix @ refundDeliveryProvider ix @ sourceDeliveryProvider ix @ senderAddress ix
     @ be_encode 1 (length ?ks)"
  have b: "?b = pre @ ?m" by (simp add: enc_delivery_def pre_def)
  have lp: "length pre = ?idx + 131" using ok by (simp add: pre_def delivery_ok_def)
  have "parse_message_keys eth ?b (length ?ks) (?idx + 131) = Inr (?ks, ?idx + 131 + length (concat (map enc_message_key ?ks)))"
    unfolding b using parse_message_keys[OF assms(1), of ?ks pre rest] ok lp by (simp add: delivery_ok_def)
  moreover have "read_be 1 ?b 0 = Inr 1" "read_be 2 ?b 1 = Inr (targetChainId ix)" "subarray ?b 3 35 = targetAddress ix"
    "parsePayload ?b 35 = Inr (?p, 39 + length ?p)"
    using ok small_codes by (simp_all add: enc_delivery_def delivery_ok_def parsePayload_def layout del: power_one_right)
  moreover have "subarray ?b (39 + length ?p) (39 + length ?p + 32) = be_encode 32 (requestedReceiverValue ix)"
    "subarray ?b (39 + length ?p + 32) (39 + length ?p + 64) = be_encode 32 (extraReceiverValue ix)"
    "parsePayload ?b (39 + length ?p + 64) = Inr (?i, ?idx)"
    using ok by (simp_all add: enc_delivery_def delivery_ok_def parsePayload_def layout)
  moreover have "read_be 2 ?b ?idx = Inr (refundChainId ix)" "subarray ?b (?idx + 2) (?idx + 34) = refundAddress ix"
    "subarray ?b (?idx + 34) (?idx + 66) = refundDeliveryProvider ix" "subarray ?b (?idx + 66) (?idx + 98) = sourceDeliveryProvider ix"
    "subarray ?b (?idx + 98) (?idx + 130) = senderAddress ix" "read_be 1 ?b (?idx + 130) = Inr (length ?ks)"
    using ok small_codes by (simp_all add: enc_delivery_def delivery_ok_def layout del: power_one_right)
  ultimately show ?thesis
    using ok by (simp add: parseWormholeRelayerSend_def relay_okD[OF assms(1)] delivery_ok_def)
qed

lemma parse_redelivery:
  assumes "relay_ok eth" and ok: "redelivery_ok ix"
  shows "parseWormholeRelayerResend eth (enc_redelivery ix @ rest) = Inr ix"
proof -
  let ?b = "enc_redelivery ix @ rest" and ?i = "newEncodedExecutionInfo ix"
  let ?k = "\<lparr>keyType = 1, mkKey = ByteArray (vaa_key_bytes (deliveryVaaKey ix))\<rparr>"
  have l: "length (vaa_key_bytes (deliveryVaaKey ix)) = 42" using ok by (simp add: redelivery_ok_def vaa_key_ok_def vaa_key_bytes_def)
  have k: "message_key_ok ?k" "enc_message_key ?k = be_encode 1 1 @ vaa_key_bytes (deliveryVaaKey ix)"
    by (simp_all add: message_key_ok_def key_bytes_def l enc_message_key_def KeyType_VAA_def)
  have "arrayify eth (ByteArray ?b) = Inr (be_encode 1 2 @ enc_message_key ?k @ be_encode 2 (newTargetChainId ix)
     @ be_encode 32 (newRequestedReceiverValue ix) @ be_encode 4 (length ?i) @ ?i @ newSourceDeliveryProvider ix @ newSenderAddress ix @ rest)"
    by (simp add: relay_okD[OF assms(1)] enc_redelivery_def k(2))
  from parse_message_key[OF assms(1) k(1) this] have "parseMessageKey eth (ByteArray ?b) 1 = Inr (?k, 44)" by (simp add: k(2) l)
  moreover have "parseVaaKey eth (mkKey ?k) = Inr (deliveryVaaKey ix)"
    using ok parse_vaa_key[OF assms(1), of "deliveryVaaKey ix" "mkKey ?k" "[]"] by (simp add: redelivery_ok_def relay_okD[OF assms(1)])
  moreover have "read_be 1 ?b 0 = Inr 2" "read_be 2 ?b 44 = Inr (newTargetChainId ix)"
    "subarray ?b 46 78 = be_encode 32 (newRequestedReceiverValue ix)" "parsePayload ?b 78 = Inr (?i, 82 + length ?i)"
    "subarray ?b (82 + length ?i) (82 + length ?i + 32) = newSourceDeliveryProvider ix"
    "subarray ?b (82 + length ?i + 32) (82 + length ?i + 64) = newSenderAddress ix"
    using ok small_codes l by (simp_all add: enc_redelivery_def redelivery_ok_def parsePayload_def layout del: power_one_right)
  ultimately show ?thesis
    using ok by (simp add: parseWormholeRelayerResend_def relay_okD[OF assms(1)] redelivery_ok_def)
qed

lemma execution_info_roundtrip:
  assumes "relay_ok eth" and "gasLimit info < 256 ^ 32" and "targetChainRefundPerGasUnused info < 256 ^ 32"
  shows "\<exists>h. packEVMExecutionInfoV1 eth info = Inr (''0x'' @ h) \<and> parseEVMExecutionInfoV1 eth (from_hex h) 0 = Inr (info, 96)"
proof -
  let ?b = "be_encode 32 0 @ be_encode 32 (gasLimit info) @ be_encode 32 (targetChainRefundPerGasUnused info)"
  have "packEVMExecutionInfoV1 eth info = Inr (''0x'' @ to_hex ?b)"
    using assms by (simp add: relay_ok_def packEVMExecutionInfoV1_def)
  moreover have "be_encode 32 0 = be_encode 31 0 @ be_encode 1 0" using be_encode.simps(2)[of 31 0] by (simp add: be_encode_1)
  then have "read_be 1 ?b 31 = Inr 0" by (simp add: layout)
  moreover have "subarray ?b 32 64 = be_encode 32 (gasLimit info)" "subarray ?b 64 96 = be_encode 32 (targetChainRefundPerGasUnused info)"
    by (simp_all add: layout)
  ultimately show ?thesis using assms(2,3)
    by (intro exI[of _ "to_hex ?b"]) (simp add: parseEVMExecutionInfoV1_def relay_okD[OF assms(1)])
qed

lemma overrides_roundtrip:
  assumes "relay_ok eth" and "newReceiverValue o' < 256 ^ 32" and "length (newExecutionInfo o') < 256 ^ 4" and "length (redeliveryHash o') = 32"
  shows "\<exists>h. packOverrides eth o' = Inr (''0x'' @ h) \<and> parseOverrideInfoFromDeliveryEvent eth (from_hex h) = Inr o'"
proof -
  let ?i = "newExecutionInfo o'"
  let ?b = "be_encode 1 1 @ be_encode 32 (newReceiverValue o') @ be_encode 4 (length ?i) @ ?i @ redeliveryHash o'"
  have h: "to_hex ?b = to_hex (be_encode 1 1) @ to_hex (be_encode 32 (newReceiverValue o')) @ to_hex (be_encode 4 (length ?i))
      @ to_hex ?i @ to_hex (redeliveryHash o')" by (simp add: to_hex_def)
  have "packOverrides eth o' = Inr (''0x'' @ to_hex ?b)"
    unfolding h using assms by (simp add: relay_ok_def packOverrides_def)
  moreover have "read_be 1 ?b 0 = Inr 1" "subarray ?b 1 33 = be_encode 32 (newReceiverValue o')"
    "parsePayload ?b 33 = Inr (?i, 37 + length ?i)" "subarray ?b (37 + length ?i) (37 + length ?i + 32) = redeliveryHash o'"
    using assms(3,4) small_codes by (simp_all add: parsePayload_def layout del: power_one_right)
  ultimately show ?thesis using assms(2)
    by (intro exI[of _ "to_hex ?b"]) (simp add: parseOverrideInfoFromDeliveryEvent_def relay_okD[OF assms(1)])
qed

text \<open>
  C29.  Every delivery and redelivery instruction in the contracts' format is read back field by field, with the keys of all its messages,
  whatever follows it.
\<close>

theorem relay_instructions_parse:
  assumes "relay_ok eth"
  shows "(delivery_ok d \<longrightarrow> parseWormholeRelayerSend eth (enc_delivery d @ rest) = Inr d)
     \<and> (redelivery_ok r \<longrightarrow> parseWormholeRelayerResend eth (enc_redelivery r @ rest) = Inr r)"
  using parse_delivery[OF assms] parse_redelivery[OF assms] by blast

lemma vaa_key_roundtrip:
  assumes "relay_ok eth" and "vaa_key_ok v"
  shows "\<exists>h. packVaaKey eth v = Inr h \<and> parseVaaKey eth (HexString h) = Inr v"
  using pack_vaa_key[OF assms] parse_vaa_key[OF assms, of _ "[]"] relay_okD(2)[OF assms(1)] by auto

lemma message_key_roundtrip:
  assumes "relay_ok eth" and "message_key_ok k"
  shows "\<exists>h. packMessageKey eth k = Inr h \<and> parseMessageKey eth (HexString h) 0 = Inr (k, length (enc_message_key k))"
  using pack_message_key[OF assms] parse_message_key[OF assms, of _ "[]"] relay_okD(2)[OF assms(1)]
  by (metis (no_types, lifting) append_Nil list.size(3) add_0)

text \<open>
  What the packing functions write their parsers read back: keys of VAAs and of CCTP messages, a message key on its own,
  execution parameters and overrides.
\<close>

theorem relay_packing_roundtrip:
  assumes "relay_ok eth"
  shows "(vaa_key_ok v \<longrightarrow> (\<exists>h. packVaaKey eth v = Inr h \<and> parseVaaKey eth (HexString h) = Inr v))
   \<and> (cctpDomain c < 256 ^ 4 \<and> cctpNonce c < 256 ^ 8 \<longrightarrow> (\<exists>h. packCCTPKey eth c = Inr h \<and> parseCCTPKey eth (HexString h) = Inr c))
   \<and> (message_key_ok k \<longrightarrow>
       (\<exists>h. packMessageKey eth k = Inr h \<and> parseMessageKey eth (HexString h) 0 = Inr (k, length (enc_message_key k))))
   \<and> (gasLimit i < 256 ^ 32 \<and> targetChainRefundPerGasUnused i < 256 ^ 32 \<longrightarrow>
       (\<exists>h. packEVMExecutionInfoV1 eth i = Inr (''0x'' @ h) \<and> parseEVMExecutionInfoV1 eth (from_hex h) 0 = Inr (i, 96)))
   \<and> (newReceiverValue o' < 256 ^ 32 \<and> length (newExecutionInfo o') < 256 ^ 4 \<and> length (redeliveryHash o') = 32 \<longrightarrow>
       (\<exists>h. packOverrides eth o' = Inr (''0x'' @ h) \<and> parseOverrideInfoFromDeliveryEvent eth (from_hex h) = Inr o'))"
  using vaa_key_roundtrip[OF assms] cctp_key_roundtrip[OF assms] message_key_roundtrip[OF assms] execution_info_roundtrip[OF assms]
    overrides_roundtrip[OF assms] by meson

definition demo_vaa_key :: VaaKey where
  "demo_vaa_key = createVaaKey 2 (replicate 32 7) 1000"

definition demo_delivery :: DeliveryInstruction where
  "demo_delivery =
     \<lparr>targetChainId = 21, targetAddress = replicate 32 1, diPayload = [1, 2, 3], requestedReceiverValue = 10 ^ 18, extraReceiverValue = 0,
      encodedExecutionInfo = [9], refundChainId = 2, refundAddress = replicate 32 2, refundDeliveryProvider = replicate 32 3,
      sourceDeliveryProvider = replicate 32 4, senderAddress = replicate 32 5,
      messageKeys = [\<lparr>keyType = 1, mkKey = ByteArray (replicate 42 6)\<rparr>, \<lparr>keyType = 2, mkKey = ByteArray (replicate 12 7)\<rparr>]\<rparr>"

lemma demo_delivery_ok: "delivery_ok demo_delivery"
  by (simp add: delivery_ok_def demo_delivery_def message_key_ok_def key_bytes_def KeyType_VAA_def)

theorem relay_instructions_parse_witness: "parseWormholeRelayerSend demo_relay (enc_delivery demo_delivery) = Inr demo_delivery"
  using relay_instructions_parse[OF demo_relay_ok, of demo_delivery "[]"] demo_delivery_ok by simp

theorem relay_packing_roundtrip_witness: "\<exists>h. packVaaKey demo_relay demo_vaa_key = Inr h \<and> parseVaaKey demo_relay (HexString h) = Inr demo_vaa_key"
  using relay_packing_roundtrip[OF demo_relay_ok, of demo_vaa_key] by (simp add: demo_vaa_key_def vaa_key_ok_def createVaaKey_def)

subsection \<open>Circle's domains: \<^verbatim>\<open>relayer/consts.ts\<close>\<close>

datatype Network_sdk = MAINNET | TESTNET | DEVNET

definition getCircleAPI :: "Network_sdk \<Rightarrow> string" where
  "getCircleAPI environment =
     (if environment = TESTNET then ''https://iris-api-sandbox.circle.com/v1/attestations/''
      else ''https://iris-api.circle.com/v1/attestations/'')"

definition getWormscanAPI :: "Network_sdk \<Rightarrow> string outcome" where
  "getWormscanAPI network =
     (case network of
        MAINNET \<Rightarrow> Inr ''https://api.wormholescan.io/''
      | TESTNET \<Rightarrow> Inr ''https://api.testnet.wormholescan.io/''
      | DEVNET \<Rightarrow> Inl (mk_error ''Not testnet or mainnet - so no wormscan api access''))"

text \<open>The branch of domain 1 evaluates the name of the chain and does not return it.\<close>

definition getNameFromCCTPDomain :: "nat \<Rightarrow> Network_sdk \<Rightarrow> string option" where
  "getNameFromCCTPDomain domain environment =
     (if domain = 0 then Some (if environment = MAINNET then ''ethereum'' else ''sepolia'')
      else if domain = 1 then None
      else if domain = 2 then Some (if environment = MAINNET then ''optimism'' else ''optimism_sepolia'')
      else if domain = 3 then Some (if environment = MAINNET then ''arbitrum'' else ''arbitrum_sepolia'')
      else if domain = 6 then Some (if environment = MAINNET then ''base'' else ''base_sepolia'')
      else None)"

lemma cctp_domain_without_name: "getNameFromCCTPDomain 1 network = None"
  by (simp add: getNameFromCCTPDomain_def)

end
