(* ===== verification/Solana_Tx.thy ===== *)
theory Solana_Tx
  imports Buffers
begin

section \<open>Batching Solana instructions: \<^verbatim>\<open>solana_utils/src/transaction.ts\<close>\<close>

text \<open>
  The size of a transaction, the builder that fills one transaction after the other, and the loop that sends
  them.  A public key is its base58 string.  The instructions that \<^verbatim>\<open>@solana/web3.js\<close> builds, its packet size, the wallet and the connection
  are parameters.  A tip goes to a random account: every use of it takes a number from the record's \<open>random\<close>.  The builder keeps the array of
  signers that the first instruction of a transaction brings and appends to it; the model has lists, that is, callers who do not share those arrays.
\<close>

subsection \<open>Data\<close>

record AccountMeta =
  pubkey :: string
  isSigner :: bool
  isWritable :: bool

record TransactionInstruction =
  programId :: string
  ixKeys :: "AccountMeta list"
  ixData :: bytes

record InstructionWithEphemeralSigners =
  instruction :: TransactionInstruction
  ephemeralSigners :: "string list"
  computeUnits :: "nat option"

record PriorityFeeConfig =
  computeUnitPriceMicroLamports :: "nat option"
  tightComputeBudget :: bool
  jitoTipLamports :: "nat option"
  jitoBundleSize :: "nat option"

definition DEFAULT_COMPUTE_BUDGET_UNITS :: nat where
  "DEFAULT_COMPUTE_BUDGET_UNITS = 200000"

definition DEFAULT_PRIORITY_FEE_CONFIG :: PriorityFeeConfig where
  "DEFAULT_PRIORITY_FEE_CONFIG =
     \<lparr>computeUnitPriceMicroLamports = Some 50000, tightComputeBudget = False, jitoTipLamports = None, jitoBundleSize = None\<rparr>"

record web3 =
  PACKET_DATA_SIZE :: nat
  setComputeUnitLimit :: "nat \<Rightarrow> TransactionInstruction"
  setComputeUnitPrice :: "nat \<Rightarrow> TransactionInstruction"
  transfer :: "string \<Rightarrow> string \<Rightarrow> nat \<Rightarrow> TransactionInstruction"

definition PACKET_DATA_SIZE_WITH_ROOM_FOR_COMPUTE_BUDGET :: "web3 \<Rightarrow> nat" where
  "PACKET_DATA_SIZE_WITH_ROOM_FOR_COMPUTE_BUDGET w = PACKET_DATA_SIZE w - 52"

subsection \<open>Tips: \<^verbatim>\<open>jito.ts\<close>\<close>

definition TIP_ACCOUNTS :: "string list" where
  "TIP_ACCOUNTS =
     [''HFqU5x63VTqvQss8hp11i4wVV8bD44PvwucfZ2bU7gRe'', ''Cw8CFyM9FkoMi7K7Crf6HNQqf4uEMzpKw6QNghXLvLkY'',
      ''DfXygSm4jCyNCybVYYK6DwvWqjKee8pbDmJGcLWNDXjh'', ''ADaUMid9yfUytqMBgopwjb2DTLSokTSzL1zt6iGPaS49'',
      ''3AVi9Tg9Uo68tJfuvoKvqKNWKkC5wPdSSdeBnizKZ6jT'', ''DttWaMuVvTiduZRnguLF7jNxTgiMBZ1hyAumKUiL2KRL'',
      ''96gYZGLnJYVFmbjzopPSU6QiEV5fGqZNyN9nmNhvrZU5'', ''ADuUkR4vqLUMWXxW9gh6D6L8pMSawimctcNZ5pGwDcEt'']"

definition getRandomTipAccount :: "nat \<Rightarrow> string" where
  "getRandomTipAccount random = TIP_ACCOUNTS ! (random mod length TIP_ACCOUNTS)"

definition buildJitoTipInstruction :: "web3 \<Rightarrow> nat \<Rightarrow> string \<Rightarrow> nat \<Rightarrow> TransactionInstruction" where
  "buildJitoTipInstruction w random payer lamports = transfer w payer (getRandomTipAccount random) lamports"

subsection \<open>The size of a transaction\<close>

definition getSizeOfCompressedU16 :: "nat \<Rightarrow> nat" where
  "getSizeOfCompressedU16 n = 1 + of_bool (n \<ge> 128) + of_bool (n \<ge> 16384)"

definition add_keys :: "TransactionInstruction \<Rightarrow> string list \<times> string list \<times> string list \<Rightarrow> string list \<times> string list \<times> string list" where
  "add_keys ix sets =
     (case sets of (programs, signers, accounts) \<Rightarrow>
        (set_add (programId ix) programs,
         fold (\<lambda>key s. if isSigner key then set_add (pubkey key) s else s) (ixKeys ix) signers,
         fold (\<lambda>key a. set_add (pubkey key) a) (ixKeys ix) (set_add (programId ix) accounts)))"

definition instruction_size :: "TransactionInstruction \<Rightarrow> nat" where
  "instruction_size ix =
     1 + getSizeOfCompressedU16 (length (ixKeys ix)) + length (ixKeys ix) + getSizeOfCompressedU16 (length (ixData ix)) + length (ixData ix)"

definition getSizeOfTransaction :: "TransactionInstruction list \<Rightarrow> bool \<Rightarrow> string list option \<Rightarrow> nat" where
  "getSizeOfTransaction instructions versionedTransaction addressLookupTable =
     (case fold add_keys instructions ([], [], []) of (programs, signers, accounts0) \<Rightarrow>
        let instruction_sizes = sum_list (map instruction_size instructions);
            accounts = (case addressLookupTable of
                None \<Rightarrow> accounts0
              | Some table \<Rightarrow> fold set_add (filter (\<lambda>a. a \<notin> set table) accounts0 @ programs @ signers) []);
            numberOfAddressLookups = (case addressLookupTable of None \<Rightarrow> 0 | Some table \<Rightarrow> length accounts0 - length accounts)
        in getSizeOfCompressedU16 (length signers) + length signers * 64 + 3 + getSizeOfCompressedU16 (length accounts) + 32 * length accounts
           + 32 + getSizeOfCompressedU16 (length instructions) + instruction_sizes
           + (if versionedTransaction then 1 + getSizeOfCompressedU16 0 else 0)
           + (if versionedTransaction \<and> addressLookupTable \<noteq> None then 32 else 0)
           + (if versionedTransaction \<and> addressLookupTable \<noteq> None then 2 else 0)
           + numberOfAddressLookups)"

subsection \<open>The builder\<close>

text \<open>
  The arrays of signers are values here; the builder appends to the array it was given with the first instruction of
  a transaction, which only a caller that goes on using that array could notice.
\<close>

record tx_batch =
  batchInstructions :: "TransactionInstruction list"
  batchSigners :: "string list"
  batchUnits :: nat

record TransactionBuilder =
  transactionInstructions :: "tx_batch list"
  payer :: string
  addressLookupTable :: "string list option"

definition builder_new :: "string \<Rightarrow> string list option \<Rightarrow> TransactionBuilder" where
  "builder_new payer' table = \<lparr>transactionInstructions = [], payer = payer', addressLookupTable = table\<rparr>"

definition units_or_0 :: "nat option \<Rightarrow> nat" where
  "units_or_0 u = (case u of None \<Rightarrow> 0 | Some n \<Rightarrow> n)"

definition new_batch :: "InstructionWithEphemeralSigners \<Rightarrow> tx_batch" where
  "new_batch args =
     \<lparr>batchInstructions = [instruction args], batchSigners = ephemeralSigners args, batchUnits = units_or_0 (computeUnits args)\<rparr>"

definition addInstruction :: "web3 \<Rightarrow> nat \<Rightarrow> InstructionWithEphemeralSigners \<Rightarrow> TransactionBuilder \<Rightarrow> TransactionBuilder" where
  "addInstruction w random args b =
     (if transactionInstructions b = [] then b\<lparr>transactionInstructions := [new_batch args]\<rparr>
      else
        (let t = last (transactionInstructions b);
             sizeWithComputeUnits = getSizeOfTransaction
               (batchInstructions t @ [instruction args, buildJitoTipInstruction w random (payer b) 1, setComputeUnitLimit w 1])
               True (addressLookupTable b)
         in if sizeWithComputeUnits \<le> PACKET_DATA_SIZE w
            then b\<lparr>transactionInstructions := butlast (transactionInstructions b) @
                     [\<lparr>batchInstructions = batchInstructions t @ [instruction args], batchSigners = batchSigners t @ ephemeralSigners args,
                       batchUnits = batchUnits t + units_or_0 (computeUnits args)\<rparr>]\<rparr>
            else b\<lparr>transactionInstructions := transactionInstructions b @ [new_batch args]\<rparr>))"

fun addInstructions :: "web3 \<Rightarrow> (nat \<Rightarrow> nat) \<Rightarrow> nat \<Rightarrow> InstructionWithEphemeralSigners list \<Rightarrow> TransactionBuilder \<Rightarrow> TransactionBuilder" where
  "addInstructions w random k [] b = b"
| "addInstructions w random k (a # as) b = addInstructions w random (Suc k) as (addInstruction w (random k) a b)"

record TransactionMessage =
  recentBlockhash :: string
  msgInstructions :: "TransactionInstruction list"
  payerKey :: string
  lookupTables :: "string list list"

definition with_compute_budget ::
    "web3 \<Rightarrow> nat \<Rightarrow> string \<Rightarrow> PriorityFeeConfig \<Rightarrow> nat \<Rightarrow> nat \<Rightarrow> tx_batch \<Rightarrow> TransactionInstruction list" where
  "with_compute_budget w random payer' args bundleSize index t =
     batchInstructions t
     @ (if batchUnits t > DEFAULT_COMPUTE_BUDGET_UNITS * length (batchInstructions t) \<or> tightComputeBudget args
        then [setComputeUnitLimit w (batchUnits t)] else [])
     @ (case computeUnitPriceMicroLamports args of
          None \<Rightarrow> [] | Some p \<Rightarrow> if p \<noteq> 0 then [setComputeUnitPrice w p] else [])
     @ (case jitoTipLamports args of
          None \<Rightarrow> [] | Some l \<Rightarrow> if l \<noteq> 0 \<and> index mod bundleSize = 0 then [buildJitoTipInstruction w random payer' l] else [])"

definition bundle_size :: "PriorityFeeConfig \<Rightarrow> TransactionBuilder \<Rightarrow> nat" where
  "bundle_size args b =
     (case jitoBundleSize args of
        None \<Rightarrow> length (transactionInstructions b)
      | Some n \<Rightarrow> if n = 0 then length (transactionInstructions b) else n)"

definition buildVersionedTransactions ::
    "web3 \<Rightarrow> (nat \<Rightarrow> nat) \<Rightarrow> string outcome \<Rightarrow> PriorityFeeConfig \<Rightarrow> TransactionBuilder \<Rightarrow> (TransactionMessage \<times> string list) list outcome" where
  "buildVersionedTransactions w random getLatestBlockhash args b =
     e_bind getLatestBlockhash (\<lambda>blockhash.
     Inr (map (\<lambda>(index, t).
        (\<lparr>recentBlockhash = blockhash,
          msgInstructions = with_compute_budget w (random index) (payer b) args (bundle_size args b) index t,
          payerKey = payer b,
          lookupTables = (case addressLookupTable b of None \<Rightarrow> [] | Some table \<Rightarrow> [table])\<rparr>, batchSigners t))
        (enumerate 0 (transactionInstructions b))))"

definition buildLegacyTransactions ::
    "web3 \<Rightarrow> (nat \<Rightarrow> nat) \<Rightarrow> PriorityFeeConfig \<Rightarrow> TransactionBuilder \<Rightarrow> (TransactionInstruction list \<times> string list) list" where
  "buildLegacyTransactions w random args b =
     map (\<lambda>(index, t). (with_compute_budget w (random index) (payer b) args (bundle_size args b) index t, batchSigners t))
       (enumerate 0 (transactionInstructions b))"

definition batchIntoLegacyTransactions ::
    "web3 \<Rightarrow> string \<Rightarrow> (nat \<Rightarrow> nat) \<Rightarrow> (nat \<Rightarrow> nat) \<Rightarrow> TransactionInstruction list \<Rightarrow> PriorityFeeConfig \<Rightarrow> TransactionInstruction list list" where
  "batchIntoLegacyTransactions w unique random random' ixs config =
     map fst (buildLegacyTransactions w random' config
       (addInstructions w random 0 (map (\<lambda>ix. \<lparr>instruction = ix, ephemeralSigners = [], computeUnits = None\<rparr>) ixs) (builder_new unique None)))"

definition batchIntoVersionedTransactions ::
    "web3 \<Rightarrow> (nat \<Rightarrow> nat) \<Rightarrow> (nat \<Rightarrow> nat) \<Rightarrow> string \<Rightarrow> string outcome \<Rightarrow> InstructionWithEphemeralSigners list \<Rightarrow> PriorityFeeConfig
       \<Rightarrow> string list option \<Rightarrow> (TransactionMessage \<times> string list) list outcome" where
  "batchIntoVersionedTransactions w random random' payer' getLatestBlockhash ixs config table =
     buildVersionedTransactions w random' getLatestBlockhash config (addInstructions w random 0 ixs (builder_new payer' table))"

definition addPriorityFee :: "web3 \<Rightarrow> TransactionInstruction list \<Rightarrow> PriorityFeeConfig \<Rightarrow> TransactionInstruction list" where
  "addPriorityFee w tx config =
     (case computeUnitPriceMicroLamports config of
        None \<Rightarrow> tx | Some p \<Rightarrow> if p \<noteq> 0 then tx @ [setComputeUnitPrice w p] else tx)"

subsection \<open>Sending\<close>

text \<open>
  A transaction as far as \<^verbatim>\<open>sendTransactions\<close> changes it.  \<open>walletSign\<close> and \<open>encodeSignature\<close> are the wallet and \<^verbatim>\<open>bs58\<close>.  For each transaction
  \<open>raceAt k\<close> is how the race of round \<open>k\<close> ends, \<open>None\<close> when the timer of half a second wins (as it always does when waiting for the confirmation
  fails), and \<open>sendRawAt k\<close> what sending it for the \<open>k\<close>-th time does.  The argument of a confirmation is its \<^verbatim>\<open>err\<close>.
\<close>

record sol_tx =
  isVersionedTransaction :: bool
  feePayer :: "string option"
  txBlockhash :: "string option"
  signedBy :: "string list"

record send_job =
  jobTx :: sol_tx
  jobSigners :: "string list option"
  raceAt :: "nat \<Rightarrow> json option"
  sendRawAt :: "nat \<Rightarrow> unit outcome"

record send_env =
  walletKey :: string
  walletSign :: "sol_tx \<Rightarrow> sol_tx outcome"
  encodeSignature :: "sol_tx \<Rightarrow> string"
  latestBlockhash :: "string outcome"

definition prepare_tx :: "send_env \<Rightarrow> string \<Rightarrow> send_job \<Rightarrow> sol_tx" where
  "prepare_tx env blockhash job =
     (let tx = jobTx job; signers = (case jobSigners job of None \<Rightarrow> [] | Some ss \<Rightarrow> ss)
      in if isVersionedTransaction tx then tx\<lparr>signedBy := signedBy tx @ signers\<rparr>
         else tx\<lparr>feePayer := (case feePayer tx of None \<Rightarrow> Some (walletKey env) | Some p \<Rightarrow> Some p),
                 txBlockhash := Some blockhash, signedBy := signedBy tx @ signers\<rparr>)"

text \<open>The loop; its last argument is \<^verbatim>\<open>retryCount\<close>, which is also the number of times the transaction has been sent.\<close>

definition retries_spent :: "nat option \<Rightarrow> nat \<Rightarrow> bool" where
  "retries_spent maxRetries retryCount = (case maxRetries of None \<Rightarrow> False | Some m \<Rightarrow> m \<noteq> 0 \<and> m < retryCount)"

partial_function (option) confirm_loop ::
    "(nat \<Rightarrow> json option) \<Rightarrow> (nat \<Rightarrow> unit outcome) \<Rightarrow> nat option \<Rightarrow> nat \<Rightarrow> (json option outcome \<times> nat) option" where
  "confirm_loop race sendRaw maxRetries retryCount =
     (case race retryCount of
        Some err \<Rightarrow> Some (Inr (Some err), retryCount)
      | None \<Rightarrow>
          if retries_spent maxRetries retryCount then Some (Inr None, retryCount)
          else (case sendRaw retryCount of
                  Inl e \<Rightarrow> Some (Inl e, Suc retryCount)
                | Inr _ \<Rightarrow> confirm_loop race sendRaw maxRetries (Suc retryCount)))"

definition confirm_result :: "(json \<Rightarrow> string) \<Rightarrow> string \<Rightarrow> json option outcome \<Rightarrow> string outcome" where
  "confirm_result stringify txSignature r =
     e_bind r (\<lambda>confirmedTx.
     case confirmedTx of
       None \<Rightarrow> Inl (mk_error ''Failed to land the transaction'')
     | Some err \<Rightarrow>
         if truthy err then Inl (mk_error (''Transaction '' @ txSignature @ '' has failed with error: '' @ stringify err))
         else Inr txSignature)"

fun send_each :: "(json \<Rightarrow> string) \<Rightarrow> send_env \<Rightarrow> string \<Rightarrow> nat option \<Rightarrow> send_job list \<Rightarrow> string list \<Rightarrow> string list outcome option" where
  "send_each stringify env blockhash maxRetries [] signatures = Some (Inr signatures)"
| "send_each stringify env blockhash maxRetries (job # jobs) signatures =
     (case walletSign env (prepare_tx env blockhash job) of
        Inl e \<Rightarrow> Some (Inl e)
      | Inr tx \<Rightarrow>
          Option.bind (confirm_loop (raceAt job) (sendRawAt job) maxRetries 0) (\<lambda>(r, _).
          case confirm_result stringify (encodeSignature env tx) r of
            Inl e \<Rightarrow> Some (Inl e)
          | Inr sg \<Rightarrow> send_each stringify env blockhash maxRetries jobs (signatures @ [sg])))"

definition sendTransactions :: "(json \<Rightarrow> string) \<Rightarrow> send_env \<Rightarrow> send_job list \<Rightarrow> nat option \<Rightarrow> string list outcome option" where
  "sendTransactions stringify env jobs maxRetries =
     (case latestBlockhash env of
        Inl e \<Rightarrow> Some (Inl e)
      | Inr blockhash \<Rightarrow> send_each stringify env blockhash maxRetries jobs [])"

text \<open>The same for a bundle (\<^verbatim>\<open>jito.ts\<close>): \<open>sendBundle\<close> is the block engine's client.\<close>

definition sendTransactionsJito :: "send_env \<Rightarrow> (sol_tx list \<Rightarrow> unit outcome) \<Rightarrow> (sol_tx \<times> string list option) list \<Rightarrow> string outcome" where
  "sendTransactionsJito env sendBundle transactions =
     e_bind (e_map (\<lambda>(tx, signers). walletSign env (case signers of None \<Rightarrow> tx | Some ss \<Rightarrow> tx\<lparr>signedBy := signedBy tx @ ss\<rparr>)) transactions)
       (\<lambda>signedTransactions.
        case signedTransactions of
          [] \<Rightarrow> Inl (type_error ''Cannot read properties of undefined (reading 'signatures')'')
        | tx # _ \<Rightarrow> e_bind (sendBundle signedTransactions) (\<lambda>_. Inr (encodeSignature env tx)))"

subsection \<open>Compact lengths\<close>

text \<open>The compact encoding of a length: seven bits per byte, low bits first, the high bit marks that more follow.\<close>

fun compact_u16 :: "nat \<Rightarrow> bytes" where
  "compact_u16 n = (if n < 128 then [word_of_nat n] else word_of_nat (n mod 128 + 128) # compact_u16 (n div 128))"

declare compact_u16.simps [simp del]

lemma compact_u16_size: "n < 65536 \<Longrightarrow> length (compact_u16 n) = getSizeOfCompressedU16 n"
proof -
  assume n: "n < 65536"
  have "n div 128 < 128 \<longleftrightarrow> n < 16384" by (simp add: div_less_iff_less_mult)
  moreover have "n div 128 div 128 < 128" using n by (simp add: less_mult_imp_div_less)
  ultimately show ?thesis
    by (simp add: compact_u16.simps[of n] compact_u16.simps[of "n div 128"] compact_u16.simps[of "n div 128 div 128"]
        getSizeOfCompressedU16_def)
qed

lemma size_u16_mono: "m \<le> n \<Longrightarrow> getSizeOfCompressedU16 m \<le> getSizeOfCompressedU16 n"
  by (simp add: getSizeOfCompressedU16_def)

subsection \<open>The keys of a transaction\<close>

definition program_keys :: "TransactionInstruction list \<Rightarrow> string set" where
  "program_keys ixs = programId ` set ixs"

definition signer_keys :: "TransactionInstruction list \<Rightarrow> string set" where
  "signer_keys ixs = (\<Union>ix \<in> set ixs. set (map pubkey (filter isSigner (ixKeys ix))))"

definition account_keys :: "TransactionInstruction list \<Rightarrow> string set" where
  "account_keys ixs = program_keys ixs \<union> (\<Union>ix \<in> set ixs. pubkey ` set (ixKeys ix))"

lemmas key_sets = program_keys_def signer_keys_def account_keys_def

lemma finite_keys [simp]: "finite (program_keys ixs)" "finite (signer_keys ixs)" "finite (account_keys ixs)"
  by (simp_all add: key_sets)

lemma fold_signers:
  "set (fold (\<lambda>key s. if isSigner key then set_add (pubkey key) s else s) ks s) = set s \<union> set (map pubkey (filter isSigner ks))
   \<and> (distinct s \<longrightarrow> distinct (fold (\<lambda>key s. if isSigner key then set_add (pubkey key) s else s) ks s))"
  by (induction ks arbitrary: s) auto

lemma fold_accounts:
  "set (fold (\<lambda>key a. set_add (pubkey key) a) ks s) = set s \<union> pubkey ` set ks
   \<and> (distinct s \<longrightarrow> distinct (fold (\<lambda>key a. set_add (pubkey key) a) ks s))"
  by (induction ks arbitrary: s) auto

lemma collected_keys_aux:
  "case fold add_keys ixs (p0, s0, a0) of (p, s, a) \<Rightarrow>
     set p = set p0 \<union> program_keys ixs \<and> set s = set s0 \<union> signer_keys ixs \<and> set a = set a0 \<union> account_keys ixs
     \<and> (distinct p0 \<longrightarrow> distinct p) \<and> (distinct s0 \<longrightarrow> distinct s) \<and> (distinct a0 \<longrightarrow> distinct a)"
proof (induction ixs arbitrary: p0 s0 a0)
  case (Cons ix ixs)
  let ?s = "fold (\<lambda>key s. if isSigner key then set_add (pubkey key) s else s) (ixKeys ix) s0"
  let ?a = "fold (\<lambda>key a. set_add (pubkey key) a) (ixKeys ix) (set_add (programId ix) a0)"
  have k: "program_keys (ix # ixs) = insert (programId ix) (program_keys ixs)"
    "signer_keys (ix # ixs) = set (map pubkey (filter isSigner (ixKeys ix))) \<union> signer_keys ixs"
    "account_keys (ix # ixs) = insert (programId ix) (pubkey ` set (ixKeys ix)) \<union> account_keys ixs"
    by (auto simp: key_sets)
  have "fold add_keys (ix # ixs) (p0, s0, a0) = fold add_keys ixs (set_add (programId ix) p0, ?s, ?a)"
    by (simp add: add_keys_def)
  with Cons.IH[of "set_add (programId ix) p0" ?s ?a] fold_signers[of "ixKeys ix" s0] fold_accounts[of "ixKeys ix" "set_add (programId ix) a0"]
  show ?case by (auto simp: k split: prod.splits)
qed (simp add: key_sets)

lemma collected_keys:
  assumes "fold add_keys ixs ([], [], []) = (p, s, a)"
  shows "set p = program_keys ixs" "set s = signer_keys ixs" "set a = account_keys ixs" "distinct p" "distinct s" "distinct a"
  using collected_keys_aux[of "[]" ixs "[]" "[]"] assms by auto

text \<open>
  The size as a function of the sets of keys: which accounts have to be listed in full, and how many are found through the table.
\<close>

definition listed_keys :: "string list option \<Rightarrow> string set \<Rightarrow> string set \<Rightarrow> string set \<Rightarrow> string set" where
  "listed_keys table P S A = (case table of None \<Rightarrow> A | Some t \<Rightarrow> (A - set t) \<union> P \<union> S)"

definition key_size :: "string list option \<Rightarrow> string set \<Rightarrow> string set \<Rightarrow> string set \<Rightarrow> nat" where
  "key_size table P S A =
     getSizeOfCompressedU16 (card S) + card S * 64 + getSizeOfCompressedU16 (card (listed_keys table P S A))
     + 32 * card (listed_keys table P S A) + card (A - listed_keys table P S A)"

definition fixed_size :: "string list option \<Rightarrow> nat" where
  "fixed_size table = 37 + (if table = None then 0 else 34)"

lemma size_by_keys:
  "getSizeOfTransaction ixs True table =
     fixed_size table + key_size table (program_keys ixs) (signer_keys ixs) (account_keys ixs)
     + getSizeOfCompressedU16 (length ixs) + sum_list (map instruction_size ixs)"
proof -
  obtain p s a where k: "fold add_keys ixs ([], [], []) = (p, s, a)" by (metis prod_cases3)
  note c = collected_keys[OF k]
  have ls: "length s = card (signer_keys ixs)" "length a = card (account_keys ixs)"
    using distinct_card[OF c(5)] distinct_card[OF c(6)] c(2,3) by simp_all
  show ?thesis
  proof (cases table)
    case None
    then show ?thesis
      by (simp add: getSizeOfTransaction_def k ls key_size_def listed_keys_def fixed_size_def getSizeOfCompressedU16_def[of 0])
  next
    case (Some t)
    let ?f = "fold set_add (filter (\<lambda>x. x \<notin> set t) a @ p @ s) []"
    have "distinct (fold set_add xs ys)" if "distinct ys" for xs ys :: "string list"
      using that by (induction xs arbitrary: ys) auto
    then have "distinct ?f" by simp
    moreover have sf: "set ?f = listed_keys table (program_keys ixs) (signer_keys ixs) (account_keys ixs)"
      using c(1-3) Some by (auto simp: listed_keys_def)
    ultimately have lf: "length ?f = card (listed_keys table (program_keys ixs) (signer_keys ixs) (account_keys ixs))"
      using distinct_card by metis
    have "listed_keys table (program_keys ixs) (signer_keys ixs) (account_keys ixs) \<subseteq> account_keys ixs"
      using Some by (auto simp: listed_keys_def key_sets)
    then have "card (account_keys ixs - listed_keys table (program_keys ixs) (signer_keys ixs) (account_keys ixs)) = length a - length ?f"
      unfolding ls lf by (intro card_Diff_subset) (auto simp: finite_subset[OF _ finite_keys(3)])
    then show ?thesis using Some lf
      by (simp add: getSizeOfTransaction_def k ls key_size_def fixed_size_def getSizeOfCompressedU16_def[of 0])
  qed
qed

lemma key_size_mono:
  assumes "P \<subseteq> P'" "S \<subseteq> S'" "A \<subseteq> A'" "P \<union> S \<subseteq> A" "P' \<union> S' \<subseteq> A'" and "finite A'"
  shows "key_size table P S A \<le> key_size table P' S' A'"
proof -
  let ?L = "listed_keys table P S A" and ?L' = "listed_keys table P' S' A'"
  have sub: "?L \<subseteq> ?L'" "?L' \<subseteq> A'" using assms by (auto simp: listed_keys_def split: option.splits)
  have fin: "finite ?L'" "finite S'" using assms(5,6) sub(2) by (auto intro: finite_subset)
  have cl: "card ?L \<le> card ?L'" "card S \<le> card S'" using card_mono[OF fin(1) sub(1)] card_mono[OF fin(2) assms(2)] .
  have "A - ?L \<subseteq> (A' - ?L') \<union> (?L' - ?L)" using assms(3) by auto
  then have "card (A - ?L) \<le> card ((A' - ?L') \<union> (?L' - ?L))" using assms(6) fin(1) by (intro card_mono) auto
  also have "\<dots> \<le> card (A' - ?L') + (card ?L' - card ?L)"
    using card_Un_le[of "A' - ?L'" "?L' - ?L"] card_Diff_subset[OF finite_subset[OF sub(1) fin(1)] sub(1)] by simp
  finally show ?thesis
    unfolding key_size_def using cl size_u16_mono[OF cl(1)] size_u16_mono[OF cl(2)] by linarith
qed

text \<open>A key that is nowhere else and not in the table is one more listed key, whichever it is.\<close>

lemma key_size_fresh:
  assumes "x \<notin> A" "y \<notin> A" "finite A" "P \<union> S \<subseteq> A" and "\<forall>t. table = Some t \<longrightarrow> x \<notin> set t \<and> y \<notin> set t"
  shows "key_size table P S (insert x A) = key_size table P S (insert y A)"
proof -
  let ?L = "listed_keys table P S"
  have l: "?L (insert z A) = insert z (?L A)" "z \<notin> ?L A" "insert z A - ?L (insert z A) = A - ?L A"
    if "z \<notin> A" "\<forall>t. table = Some t \<longrightarrow> z \<notin> set t" for z
    using that assms(4) by (auto simp: listed_keys_def split: option.splits)
  note lx = l[of x] and ly = l[of y]
  have "?L A \<subseteq> A" using assms(4) by (auto simp: listed_keys_def split: option.splits)
  then have "finite (?L A)" using assms(3) by (rule finite_subset)
  moreover have "?L (insert x A) = insert x (?L A)" "x \<notin> ?L A" "?L (insert y A) = insert y (?L A)" "y \<notin> ?L A"
    using lx(1,2) ly(1,2) assms(1,2,5) by blast+
  ultimately have "card (?L (insert x A)) = Suc (card (?L A))" "card (?L (insert y A)) = Suc (card (?L A))" by simp_all
  moreover have "insert x A - ?L (insert x A) = A - ?L A" "insert y A - ?L (insert y A) = A - ?L A"
    using lx(3) ly(3) assms(1,2,5) by blast+
  ultimately show ?thesis by (simp only: key_size_def)
qed

subsection \<open>The size is the length on the wire\<close>

text \<open>
  A compiled message: the keys in the order the library chose.  The fee payer signs as well.  A table
  is mentioned when a key is found through it, with the positions of the writable and of the read-only keys.
\<close>

record compiled =
  cSigners :: "string list"
  cListed :: "string list"
  cWritable :: "string list"
  cReadonly :: "string list"

definition compiled_ok :: "string \<Rightarrow> string list option \<Rightarrow> TransactionInstruction list \<Rightarrow> compiled \<Rightarrow> bool" where
  "compiled_ok payer' table ixs c \<longleftrightarrow>
     (let S = insert payer' (signer_keys ixs); A = insert payer' (account_keys ixs); L = listed_keys table (program_keys ixs) S A
      in distinct (cSigners c) \<and> set (cSigners c) = S \<and> distinct (cListed c) \<and> set (cListed c) = L
         \<and> distinct (cWritable c @ cReadonly c) \<and> set (cWritable c @ cReadonly c) = A - L
         \<and> length (cWritable c) < 128 \<and> length (cReadonly c) < 128)
     \<and> length ixs < 65536 \<and> length (cSigners c) < 65536 \<and> length (cListed c) < 65536
     \<and> list_all (\<lambda>ix. length (ixKeys ix) < 65536 \<and> length (ixData ix) < 65536) ixs"

record wire_env =
  keyBytes :: "string \<Rightarrow> bytes"
  signatureOf :: "string \<Rightarrow> bytes"
  blockhashBytes :: bytes
  headerBytes :: bytes
  position :: "string \<Rightarrow> byte"
  tableKey :: bytes

definition wire_env_ok :: "wire_env \<Rightarrow> bool" where
  "wire_env_ok e \<longleftrightarrow>
     (\<forall>k. length (keyBytes e k) = 32 \<and> length (signatureOf e k) = 64)
     \<and> length (blockhashBytes e) = 32 \<and> length (headerBytes e) = 3 \<and> length (tableKey e) = 32"

definition wire_instruction :: "wire_env \<Rightarrow> TransactionInstruction \<Rightarrow> bytes" where
  "wire_instruction e ix =
     position e (programId ix) # compact_u16 (length (ixKeys ix)) @ map (\<lambda>k. position e (pubkey k)) (ixKeys ix)
     @ compact_u16 (length (ixData ix)) @ ixData ix"

definition wire_transaction :: "wire_env \<Rightarrow> TransactionInstruction list \<Rightarrow> compiled \<Rightarrow> bytes" where
  "wire_transaction e ixs c =
     compact_u16 (length (cSigners c)) @ concat (map (signatureOf e) (cSigners c)) @ [0x80] @ headerBytes e
     @ compact_u16 (length (cListed c)) @ concat (map (keyBytes e) (cListed c)) @ blockhashBytes e
     @ compact_u16 (length ixs) @ concat (map (wire_instruction e) ixs)
     @ (if cWritable c @ cReadonly c = [] then compact_u16 0
        else compact_u16 1 @ tableKey e @ compact_u16 (length (cWritable c)) @ map (position e) (cWritable c)
             @ compact_u16 (length (cReadonly c)) @ map (position e) (cReadonly c))"

lemma length_concat_const: "\<forall>x \<in> set xs. length (f x) = n \<Longrightarrow> length (concat (map f xs)) = n * length xs"
  by (induction xs) auto

lemma wire_instructions_length:
  assumes "list_all (\<lambda>ix. length (ixKeys ix) < 65536 \<and> length (ixData ix) < 65536) ixs"
  shows "length (concat (map (wire_instruction e) ixs)) = sum_list (map instruction_size ixs)"
  using assms by (induction ixs) (auto simp: wire_instruction_def instruction_size_def compact_u16_size)

lemma wire_length:
  assumes "wire_env_ok e" and "compiled_ok payer' table ixs c"
  shows "length (wire_transaction e ixs c) + (if table \<noteq> None \<and> cWritable c @ cReadonly c = [] then 34 else 0) =
     fixed_size table + key_size table (program_keys ixs) (insert payer' (signer_keys ixs)) (insert payer' (account_keys ixs))
     + getSizeOfCompressedU16 (length ixs) + sum_list (map instruction_size ixs)"
proof -
  let ?S = "insert payer' (signer_keys ixs)" and ?A = "insert payer' (account_keys ixs)"
  let ?L = "listed_keys table (program_keys ixs) ?S ?A"
  from assms(2) have c: "distinct (cSigners c)" "set (cSigners c) = ?S" "distinct (cListed c)" "set (cListed c) = ?L"
      "distinct (cWritable c @ cReadonly c)" "set (cWritable c @ cReadonly c) = ?A - ?L" "length (cWritable c) < 128" "length (cReadonly c) < 128"
      "length ixs < 65536" "length (cSigners c) < 65536" "length (cListed c) < 65536"
      "list_all (\<lambda>ix. length (ixKeys ix) < 65536 \<and> length (ixData ix) < 65536) ixs"
    by (simp_all add: compiled_ok_def Let_def)
  have n: "length (cSigners c) = card ?S" "length (cListed c) = card ?L" "length (cWritable c) + length (cReadonly c) = card (?A - ?L)"
    using distinct_card[OF c(1)] distinct_card[OF c(3)] distinct_card[OF c(5)] c(2,4,6) by simp_all
  have none: "cWritable c @ cReadonly c = []" if "table = None" using c(6) that by (simp add: listed_keys_def)
  have small: "length (compact_u16 k) = 1" if "k < 128" for k using that by (simp add: compact_u16_size getSizeOfCompressedU16_def)
  have "length (concat (map (signatureOf e) (cSigners c))) = 64 * card ?S" "length (concat (map (keyBytes e) (cListed c))) = 32 * card ?L"
    using assms(1) by (simp_all add: wire_env_ok_def length_concat_const n(1,2)[symmetric])
  then have "length (wire_transaction e ixs c) =
      getSizeOfCompressedU16 (card ?S) + 64 * card ?S + 1 + 3 + getSizeOfCompressedU16 (card ?L) + 32 * card ?L + 32
      + getSizeOfCompressedU16 (length ixs) + sum_list (map instruction_size ixs)
      + (if cWritable c @ cReadonly c = [] then 1 else 35 + card (?A - ?L))"
    using assms(1) c(7-12) n
    by (simp add: wire_transaction_def wire_env_ok_def wire_instructions_length compact_u16_size[symmetric] small)
  then show ?thesis using none n(3) by (auto simp: key_size_def fixed_size_def)
qed

subsection \<open>What is assumed of \<^verbatim>\<open>@solana/web3.js\<close>\<close>

text \<open>
  Documented formats: the two compute-budget instructions name no accounts and carry five and nine bytes, a transfer names the
  sender, who signs, and the receiver, and carries twelve bytes.
\<close>

definition web3_ok :: "web3 \<Rightarrow> string \<Rightarrow> string \<Rightarrow> bool" where
  "web3_ok w budget sys \<longleftrightarrow>
     (\<forall>u. programId (setComputeUnitLimit w u) = budget \<and> ixKeys (setComputeUnitLimit w u) = [] \<and> length (ixData (setComputeUnitLimit w u)) = 5)
     \<and> (\<forall>p. programId (setComputeUnitPrice w p) = budget \<and> ixKeys (setComputeUnitPrice w p) = [] \<and> length (ixData (setComputeUnitPrice w p)) = 9)
     \<and> (\<forall>a b l. programId (transfer w a b l) = sys \<and> length (ixData (transfer w a b l)) = 12
          \<and> ixKeys (transfer w a b l) = [\<lparr>pubkey = a, isSigner = True, isWritable = True\<rparr>, \<lparr>pubkey = b, isSigner = False, isWritable = True\<rparr>])"

lemma web3_sizes:
  assumes "web3_ok w budget sys"
  shows "instruction_size (setComputeUnitLimit w u) = 8" "instruction_size (setComputeUnitPrice w p) = 12"
    "instruction_size (buildJitoTipInstruction w r a l) = 17"
  using assms by (simp_all add: web3_ok_def instruction_size_def getSizeOfCompressedU16_def buildJitoTipInstruction_def)

lemma keys_append:
  "program_keys (xs @ ys) = program_keys xs \<union> program_keys ys" "signer_keys (xs @ ys) = signer_keys xs \<union> signer_keys ys"
  "account_keys (xs @ ys) = account_keys xs \<union> account_keys ys"
  by (auto simp: key_sets)

lemma keys_Nil: "program_keys [] = {}" "signer_keys [] = {}" "account_keys [] = {}"
  by (simp_all add: key_sets)

lemma keys_sub: "program_keys xs \<union> signer_keys xs \<subseteq> account_keys xs"
  by (auto simp: key_sets)

lemma web3_keys:
  assumes "web3_ok w budget sys"
  shows "program_keys [setComputeUnitLimit w u] = {budget}" "signer_keys [setComputeUnitLimit w u] = {}" "account_keys [setComputeUnitLimit w u] = {budget}"
    "program_keys [setComputeUnitPrice w p] = {budget}" "signer_keys [setComputeUnitPrice w p] = {}" "account_keys [setComputeUnitPrice w p] = {budget}"
    "program_keys [buildJitoTipInstruction w r a l] = {sys}" "signer_keys [buildJitoTipInstruction w r a l] = {a}"
    "account_keys [buildJitoTipInstruction w r a l] = {sys, a, getRandomTipAccount r}"
  using assms by (auto simp: key_sets web3_ok_def buildJitoTipInstruction_def)

subsection \<open>Batching\<close>

definition batch_fits :: "web3 \<Rightarrow> string \<Rightarrow> string list option \<Rightarrow> tx_batch \<Rightarrow> bool" where
  "batch_fits w payer' table t \<longleftrightarrow>
     batchInstructions t \<noteq> [] \<and>
     (1 < length (batchInstructions t) \<longrightarrow>
       (\<exists>r. getSizeOfTransaction (batchInstructions t @ [buildJitoTipInstruction w r payer' 1, setComputeUnitLimit w 1]) True table
            \<le> PACKET_DATA_SIZE w))"

lemma addInstruction_spec:
  assumes "list_all (batch_fits w (payer b) (addressLookupTable b)) (transactionInstructions b)"
  shows "payer (addInstruction w r a b) = payer b \<and> addressLookupTable (addInstruction w r a b) = addressLookupTable b
     \<and> list_all (batch_fits w (payer b) (addressLookupTable b)) (transactionInstructions (addInstruction w r a b))
     \<and> concat (map batchInstructions (transactionInstructions (addInstruction w r a b))) =
         concat (map batchInstructions (transactionInstructions b)) @ [instruction a]
     \<and> concat (map batchSigners (transactionInstructions (addInstruction w r a b))) =
         concat (map batchSigners (transactionInstructions b)) @ ephemeralSigners a
     \<and> sum_list (map batchUnits (transactionInstructions (addInstruction w r a b))) =
         sum_list (map batchUnits (transactionInstructions b)) + units_or_0 (computeUnits a)"
proof (cases "transactionInstructions b" rule: rev_cases)
  case Nil
  then show ?thesis by (simp add: addInstruction_def new_batch_def batch_fits_def)
next
  case (snoc ts t)
  with assms have "batchInstructions t \<noteq> []" by (simp add: batch_fits_def)
  with assms snoc show ?thesis by (auto simp: addInstruction_def Let_def new_batch_def batch_fits_def)
qed

lemma addInstructions_spec:
  assumes "list_all (batch_fits w (payer b) (addressLookupTable b)) (transactionInstructions b)"
  shows "payer (addInstructions w random k as b) = payer b \<and> addressLookupTable (addInstructions w random k as b) = addressLookupTable b
     \<and> list_all (batch_fits w (payer b) (addressLookupTable b)) (transactionInstructions (addInstructions w random k as b))
     \<and> concat (map batchInstructions (transactionInstructions (addInstructions w random k as b))) =
         concat (map batchInstructions (transactionInstructions b)) @ map instruction as
     \<and> concat (map batchSigners (transactionInstructions (addInstructions w random k as b))) =
         concat (map batchSigners (transactionInstructions b)) @ concat (map ephemeralSigners as)
     \<and> sum_list (map batchUnits (transactionInstructions (addInstructions w random k as b))) =
         sum_list (map batchUnits (transactionInstructions b)) + sum_list (map (units_or_0 \<circ> computeUnits) as)"
  using assms
proof (induction as arbitrary: k b)
  case (Cons a as)
  show ?case
    using Cons.IH[of "addInstruction w (random k) a b" "Suc k"] addInstruction_spec[OF Cons.prems, of "random k" a] by simp
qed simp

lemma batches:
  defines "b w random as payer' table \<equiv> addInstructions w random 0 as (builder_new payer' table)"
  shows "payer (b w random as payer' table) = payer'" "addressLookupTable (b w random as payer' table) = table"
    "list_all (batch_fits w payer' table) (transactionInstructions (b w random as payer' table))"
    "concat (map batchInstructions (transactionInstructions (b w random as payer' table))) = map instruction as"
    "concat (map batchSigners (transactionInstructions (b w random as payer' table))) = concat (map ephemeralSigners as)"
    "sum_list (map batchUnits (transactionInstructions (b w random as payer' table))) = sum_list (map (units_or_0 \<circ> computeUnits) as)"
  using addInstructions_spec[of w "builder_new payer' table" random 0 as] by (simp_all add: assms builder_new_def)

text \<open>
  The checked size, with a tip and a limit, bounds the wire size of the same instructions with a limit, and a price or a tip, wherever the
  tip goes.
\<close>

lemma budgeted_size:
  assumes w: "web3_ok w budget sys"
    and extra: "extra = limit @ prc @ tip" "limit = [] \<or> limit = [setComputeUnitLimit w u]" "prc = [] \<or> prc = [setComputeUnitPrice w p]"
      "tip = [] \<or> tip = [buildJitoTipInstruction w r' payer' l]" "prc = [] \<or> tip = []"
    and fresh: "\<forall>x \<in> set TIP_ACCOUNTS. x \<notin> account_keys ixs \<and> x \<noteq> payer' \<and> x \<noteq> budget \<and> x \<noteq> sys \<and> (\<forall>t. table = Some t \<longrightarrow> x \<notin> set t)"
  shows "fixed_size table
       + key_size table (program_keys (ixs @ extra)) (insert payer' (signer_keys (ixs @ extra))) (insert payer' (account_keys (ixs @ extra)))
       + getSizeOfCompressedU16 (length (ixs @ extra)) + sum_list (map instruction_size (ixs @ extra))
     \<le> getSizeOfTransaction (ixs @ [buildJitoTipInstruction w r payer' 1, setComputeUnitLimit w 1]) True table"
proof -
  let ?full = "[buildJitoTipInstruction w r payer' 1, setComputeUnitLimit w 1]"
  let ?P = "program_keys ixs \<union> {sys, budget}" and ?S = "insert payer' (signer_keys ixs)"
  let ?A = "account_keys ixs \<union> {sys, budget, payer'}"
  have tips: "getRandomTipAccount i \<in> set TIP_ACCOUNTS" for i
    unfolding getRandomTipAccount_def by (rule nth_mem) (simp add: TIP_ACCOUNTS_def)
  note f = fresh[rule_format, OF tips]
  have "program_keys ?full = {sys, budget}" "signer_keys ?full = {payer'}" "account_keys ?full = {sys, payer', getRandomTipAccount r, budget}"
    using web3_keys[OF w] keys_append[of "[buildJitoTipInstruction w r payer' 1]" "[setComputeUnitLimit w 1]"] by auto
  then have full: "program_keys (ixs @ ?full) = ?P" "signer_keys (ixs @ ?full) = ?S"
    "account_keys (ixs @ ?full) = insert (getRandomTipAccount r) ?A"
    by (auto simp: keys_append)
  have sub: "program_keys (ixs @ extra) \<subseteq> ?P" "insert payer' (signer_keys (ixs @ extra)) = ?S"
    "insert payer' (account_keys (ixs @ extra)) \<subseteq> insert (getRandomTipAccount r') ?A"
    using extra web3_keys[OF w] by (auto simp: keys_append keys_Nil)
  have in_A: "?P \<union> ?S \<subseteq> ?A" using keys_sub[of ixs] by auto
  have "key_size table (program_keys (ixs @ extra)) (insert payer' (signer_keys (ixs @ extra))) (insert payer' (account_keys (ixs @ extra)))
      \<le> key_size table ?P ?S (insert (getRandomTipAccount r') ?A)"
    using sub in_A keys_sub[of "ixs @ extra"] by (intro key_size_mono) auto
  also have "\<dots> = key_size table ?P ?S (insert (getRandomTipAccount r) ?A)"
    using f[of r] f[of r'] in_A by (intro key_size_fresh) auto
  finally have k: "key_size table (program_keys (ixs @ extra)) (insert payer' (signer_keys (ixs @ extra))) (insert payer' (account_keys (ixs @ extra)))
      \<le> key_size table ?P ?S (insert (getRandomTipAccount r) ?A)" .
  have "length extra \<le> 2" "sum_list (map instruction_size extra) \<le> 25"
    using extra web3_sizes[OF w] by auto
  then have "getSizeOfCompressedU16 (length (ixs @ extra)) \<le> getSizeOfCompressedU16 (length (ixs @ ?full))"
    "sum_list (map instruction_size (ixs @ extra)) \<le> sum_list (map instruction_size (ixs @ ?full))"
    using web3_sizes[OF w] by (auto intro!: size_u16_mono)
  with k show ?thesis unfolding size_by_keys full by linarith
qed

text \<open>
  Batching drops, repeats and reorders nothing: the instructions of the transactions, one transaction after the other, are the
  instructions given, with the ephemeral signers of each in its transaction and the compute units added up, and no transaction is empty.
\<close>

theorem batching_complete:
  "let ts = transactionInstructions (addInstructions w random 0 as (builder_new payer' table)) in
     concat (map batchInstructions ts) = map instruction as
     \<and> concat (map batchSigners ts) = concat (map ephemeralSigners as)
     \<and> sum_list (map batchUnits ts) = sum_list (map (units_or_0 \<circ> computeUnits) as)
     \<and> list_all (\<lambda>t. batchInstructions t \<noteq> []) ts"
  using batches(3)[of w payer' table random as] by (auto simp: batches list_all_iff batch_fits_def Let_def)

text \<open>
  C21.  A transaction to which more than one instruction was added fits into a packet when it is serialised, signatures, fee
  payer, budget and tip included, unless a price and a tip are both configured: the estimate made while adding
  instructions is never too small, although the tip may go to another account in the end.
\<close>

theorem batches_fit_packet:
  assumes "web3_ok w budget sys" and "wire_env_ok e"
    and "t \<in> set (transactionInstructions (addInstructions w random 0 as (builder_new payer' table)))"
    and "1 < length (batchInstructions t)"
    and "computeUnitPriceMicroLamports args = None \<or> jitoTipLamports args = None"
    and "\<forall>x \<in> set TIP_ACCOUNTS. x \<notin> account_keys (batchInstructions t) \<and> x \<noteq> payer' \<and> x \<noteq> budget \<and> x \<noteq> sys
           \<and> (\<forall>tab. table = Some tab \<longrightarrow> x \<notin> set tab)"
    and "compiled_ok payer' table (with_compute_budget w r payer' args n i t) c"
  shows "length (wire_transaction e (with_compute_budget w r payer' args n i t) c) \<le> PACKET_DATA_SIZE w"
proof -
  let ?ixs = "batchInstructions t"
  define limit where "limit = (if batchUnits t > DEFAULT_COMPUTE_BUDGET_UNITS * length ?ixs \<or> tightComputeBudget args
        then [setComputeUnitLimit w (batchUnits t)] else [])"
  define prc where "prc = (case computeUnitPriceMicroLamports args of None \<Rightarrow> [] | Some p \<Rightarrow> if p \<noteq> 0 then [setComputeUnitPrice w p] else [])"
  define tip where "tip = (case jitoTipLamports args of
          None \<Rightarrow> [] | Some l \<Rightarrow> if l \<noteq> 0 \<and> i mod n = 0 then [buildJitoTipInstruction w r payer' l] else [])"
  have msg: "with_compute_budget w r payer' args n i t = ?ixs @ limit @ prc @ tip"
    by (simp add: with_compute_budget_def limit_def prc_def tip_def)
  obtain q where q: "getSizeOfTransaction (?ixs @ [buildJitoTipInstruction w q payer' 1, setComputeUnitLimit w 1]) True table \<le> PACKET_DATA_SIZE w"
    using batches(3)[of w payer' table random as] assms(3,4) by (auto simp: list_all_iff batch_fits_def)
  have e1: "limit = [] \<or> limit = [setComputeUnitLimit w (batchUnits t)]" by (simp add: limit_def)
  have e2: "prc = [] \<or> prc = [setComputeUnitPrice w (the (computeUnitPriceMicroLamports args))]"
    by (auto simp: prc_def split: option.splits)
  have e3: "tip = [] \<or> tip = [buildJitoTipInstruction w r payer' (the (jitoTipLamports args))]"
    by (auto simp: tip_def split: option.splits)
  have e4: "prc = [] \<or> tip = []" using assms(5) by (auto simp: prc_def tip_def)
  note le_trans[OF budgeted_size[OF assms(1) refl e1 e2 e3 e4 assms(6)] q]
  then have "fixed_size table
       + key_size table (program_keys (?ixs @ limit @ prc @ tip)) (insert payer' (signer_keys (?ixs @ limit @ prc @ tip)))
           (insert payer' (account_keys (?ixs @ limit @ prc @ tip)))
       + getSizeOfCompressedU16 (length (?ixs @ limit @ prc @ tip)) + sum_list (map instruction_size (?ixs @ limit @ prc @ tip))
     \<le> PACKET_DATA_SIZE w" .
  with wire_length[OF assms(2,7)] show ?thesis unfolding msg by linarith
qed

text \<open>With a limit, a price and a tip together the transaction is twelve bytes larger than what was checked.\<close>

lemma price_and_tip_not_covered:
  assumes "web3_ok w budget sys"
  shows "getSizeOfTransaction (ixs @ [buildJitoTipInstruction w r payer' 1, setComputeUnitLimit w 1]) True table + 12
     \<le> getSizeOfTransaction (ixs @ [setComputeUnitLimit w u, setComputeUnitPrice w p, buildJitoTipInstruction w r payer' l]) True table"
proof -
  let ?a = "[buildJitoTipInstruction w r payer' 1, setComputeUnitLimit w 1]"
  let ?b = "[setComputeUnitLimit w u, setComputeUnitPrice w p, buildJitoTipInstruction w r payer' l]"
  note k = web3_keys[OF assms]
  have "program_keys ?a = {sys, budget}" "signer_keys ?a = {payer'}" "account_keys ?a = {sys, payer', getRandomTipAccount r, budget}"
    using k keys_append[of "[buildJitoTipInstruction w r payer' 1]" "[setComputeUnitLimit w 1]"] by auto
  moreover have "program_keys ?b = {sys, budget}" "signer_keys ?b = {payer'}" "account_keys ?b = {sys, payer', getRandomTipAccount r, budget}"
    using k keys_append[of "[setComputeUnitLimit w u]" "[setComputeUnitPrice w p, buildJitoTipInstruction w r payer' l]"]
      keys_append[of "[setComputeUnitPrice w p]" "[buildJitoTipInstruction w r payer' l]"] by auto
  moreover have "getSizeOfCompressedU16 (length (ixs @ ?a)) \<le> getSizeOfCompressedU16 (length (ixs @ ?b))" by (rule size_u16_mono) simp
  ultimately show ?thesis unfolding size_by_keys keys_append using web3_sizes[OF assms] by simp
qed

subsection \<open>The loop of \<^verbatim>\<open>sendTransactions\<close>\<close>

lemma confirm_loop_sends:
  assumes "\<And>i. k \<le> i \<Longrightarrow> i < j \<Longrightarrow> race i = None \<and> \<not> retries_spent m i \<and> sendRaw i = Inr ()" and "k \<le> j"
  shows "confirm_loop race sendRaw m k = confirm_loop race sendRaw m j"
  using assms(2,1)
proof (induction k rule: inc_induct)
  case (step k)
  then have "confirm_loop race sendRaw m k = confirm_loop race sendRaw m (Suc k)" by (subst confirm_loop.simps) simp
  with step show ?case by simp
qed simp

lemma confirm_loop_bounded:
  assumes "0 < m" and "k \<le> Suc m"
  shows "\<exists>r n. confirm_loop race sendRaw (Some m) k = Some (r, n) \<and> n \<le> Suc m \<and> k \<le> n"
  using assms(2)
proof (induction "Suc m - k" arbitrary: k)
  case 0
  then have "k = Suc m" by simp
  with assms(1) show ?case by (subst confirm_loop.simps) (simp add: retries_spent_def split: option.splits)
next
  case (Suc d)
  then have k: "k \<le> m" by simp
  with Suc.hyps(1)[of "Suc k"] Suc.hyps(2) have ih: "\<exists>r n. confirm_loop race sendRaw (Some m) (Suc k) = Some (r, n) \<and> n \<le> Suc m \<and> Suc k \<le> n"
    by simp
  show ?case using ih k by (subst confirm_loop.simps) (force simp: retries_spent_def split: option.splits sum.splits)
qed

lemma send_each_returns:
  assumes "0 < m"
  shows "\<exists>r. send_each stringify env h (Some m) jobs sigs = Some r"
proof (induction jobs arbitrary: sigs)
  case (Cons job jobs)
  obtain r n where "confirm_loop (raceAt job) (sendRawAt job) (Some m) 0 = Some (r, n)"
    using confirm_loop_bounded[OF assms, of 0] by fastforce
  with Cons.IH show ?case by (auto split: sum.splits)
qed simp

lemma confirm_loop_for_ever:
  assumes "\<And>i. race i = None" "\<And>i. sendRaw i = Inr ()"
  shows "confirm_loop race sendRaw None k = None"
proof -
  have "confirm_loop r s mx k = Some y \<Longrightarrow> mx = None \<longrightarrow> (\<exists>i. r i \<noteq> None \<or> s i \<noteq> Inr ())" for r s mx k y
    by (erule confirm_loop.raw_induct[where P = "\<lambda>r s mx k y. mx = None \<longrightarrow> (\<exists>i. r i \<noteq> None \<or> s i \<noteq> Inr ())", rotated])
      (auto simp: retries_spent_def split: option.splits sum.splits, metis Inl_Inr_False)
  from this[of race sendRaw None k] assms show ?thesis by (cases "confirm_loop race sendRaw None k") auto
qed

text \<open>
  C30.  With a limit on the retries the loop always ends, after at most one more sending than that.  Whether bounded or not it ends with
  the confirmation as soon as there is one, if sending works and the retries last until then; without
  a limit and without a confirmation it sends for ever.  So sending a list of transactions with a limit always returns.
\<close>

theorem confirm_loop_ends:
  "(0 < m \<longrightarrow> (\<exists>r n. confirm_loop race sendRaw (Some m) 0 = Some (r, n) \<and> n \<le> m + 1))
   \<and> (race j = Some err \<and> (\<forall>i < j. race i = None \<and> \<not> retries_spent maxRetries i \<and> sendRaw i = Inr ())
        \<longrightarrow> confirm_loop race sendRaw maxRetries 0 = Some (Inr (Some err), j))
   \<and> ((\<forall>i. race i = None \<and> sendRaw i = Inr ()) \<longrightarrow> confirm_loop race sendRaw None 0 = None)
   \<and> (0 < m \<longrightarrow> (\<exists>r. sendTransactions stringify env jobs (Some m) = Some r))"
proof (intro conjI impI)
  show "\<exists>r. sendTransactions stringify env jobs (Some m) = Some r" if "0 < m"
    using send_each_returns[OF that] by (auto simp: sendTransactions_def split: sum.splits)
  show "\<exists>r n. confirm_loop race sendRaw (Some m) 0 = Some (r, n) \<and> n \<le> m + 1" if "0 < m"
    using confirm_loop_bounded[OF that, of 0 race sendRaw] by auto
  show "confirm_loop race sendRaw maxRetries 0 = Some (Inr (Some err), j)"
    if a: "race j = Some err \<and> (\<forall>i < j. race i = None \<and> \<not> retries_spent maxRetries i \<and> sendRaw i = Inr ())"
    using a confirm_loop_sends[of 0 j race maxRetries sendRaw] by (simp add: confirm_loop.simps[of race sendRaw maxRetries j])
  show "confirm_loop race sendRaw None 0 = None" if "\<forall>i. race i = None \<and> sendRaw i = Inr ()"
    by (rule confirm_loop_for_ever) (simp_all add: that)
qed

theorem confirm_loop_ends_witness:
  "confirm_loop (\<lambda>k. if k = 3 then Some JNull else None) (\<lambda>_. Inr ()) (Some 5) 0 = Some (Inr (Some JNull), 3)"
  using confirm_loop_ends[of 5 "\<lambda>k. if k = 3 then Some JNull else None" "\<lambda>_. Inr ()" 3 JNull "Some 5"] by (simp add: retries_spent_def)

definition demo_web3 :: web3 where
  "demo_web3 =
     \<lparr>PACKET_DATA_SIZE = 1232,
      setComputeUnitLimit = (\<lambda>u. \<lparr>programId = ''budget'', ixKeys = [], ixData = replicate 5 0\<rparr>),
      setComputeUnitPrice = (\<lambda>p. \<lparr>programId = ''budget'', ixKeys = [], ixData = replicate 9 0\<rparr>),
      transfer = (\<lambda>a b l. \<lparr>programId = ''sys'', ixKeys =
        [\<lparr>pubkey = a, isSigner = True, isWritable = True\<rparr>, \<lparr>pubkey = b, isSigner = False, isWritable = True\<rparr>], ixData = replicate 12 0\<rparr>)\<rparr>"

lemma demo_web3_ok: "web3_ok demo_web3 ''budget'' ''sys''"
  by (simp add: web3_ok_def demo_web3_def)

definition demo_ix :: InstructionWithEphemeralSigners where
  "demo_ix =
     \<lparr>instruction = \<lparr>programId = ''prog'', ixKeys = [\<lparr>pubkey = ''acc'', isSigner = False, isWritable = True\<rparr>], ixData = [1, 2]\<rparr>,
      ephemeralSigners = [], computeUnits = Some 300000\<rparr>"

definition demo_wire :: wire_env where
  "demo_wire = \<lparr>keyBytes = (\<lambda>_. replicate 32 0), signatureOf = (\<lambda>_. replicate 64 0), blockhashBytes = replicate 32 0, headerBytes = [1, 0, 1],
     position = (\<lambda>_. 0), tableKey = replicate 32 0\<rparr>"

definition demo_batch :: tx_batch where
  "demo_batch = \<lparr>batchInstructions = [instruction demo_ix, instruction demo_ix], batchSigners = [], batchUnits = 600000\<rparr>"

lemma demo_batches: "transactionInstructions (addInstructions demo_web3 id 0 [demo_ix, demo_ix] (builder_new ''me'' None)) = [demo_batch]"
proof -
  have "getSizeOfTransaction [instruction demo_ix, instruction demo_ix, buildJitoTipInstruction demo_web3 1 ''me'' 1, setComputeUnitLimit demo_web3 1] True None \<le> 1232"
    by (simp add: getSizeOfTransaction_def demo_ix_def demo_web3_def buildJitoTipInstruction_def add_keys_def set_add_def
        instruction_size_def getSizeOfCompressedU16_def Let_def)
  then show ?thesis
    by (simp add: addInstruction_def builder_new_def new_batch_def Let_def demo_batch_def demo_ix_def units_or_0_def)
      (simp add: demo_web3_def)
qed

theorem batches_fit_packet_witness:
  "\<exists>c. length (wire_transaction demo_wire (with_compute_budget demo_web3 0 ''me'' DEFAULT_PRIORITY_FEE_CONFIG 1 0 demo_batch) c) \<le> 1232"
proof -
  let ?c = "\<lparr>cSigners = [''me''], cListed = [''me'', ''acc'', ''prog'', ''budget''], cWritable = [], cReadonly = []\<rparr>"
  let ?ixs = "with_compute_budget demo_web3 0 ''me'' DEFAULT_PRIORITY_FEE_CONFIG 1 0 demo_batch"
  have "compiled_ok ''me'' None ?ixs ?c"
    by (auto simp: compiled_ok_def with_compute_budget_def demo_batch_def demo_ix_def demo_web3_def DEFAULT_PRIORITY_FEE_CONFIG_def
        DEFAULT_COMPUTE_BUDGET_UNITS_def key_sets listed_keys_def Let_def)
  moreover have "wire_env_ok demo_wire" by (simp add: wire_env_ok_def demo_wire_def)
  moreover have "\<forall>x \<in> set TIP_ACCOUNTS. x \<notin> account_keys (batchInstructions demo_batch) \<and> x \<noteq> ''me'' \<and> x \<noteq> ''budget'' \<and> x \<noteq> ''sys''
      \<and> (\<forall>tab. None = Some tab \<longrightarrow> x \<notin> set tab)"
    by (simp add: TIP_ACCOUNTS_def key_sets demo_batch_def demo_ix_def)
  moreover have "demo_batch \<in> set (transactionInstructions (addInstructions demo_web3 id 0 [demo_ix, demo_ix] (builder_new ''me'' None)))"
    unfolding demo_batches by simp
  moreover have "1 < length (batchInstructions demo_batch)" by (simp add: demo_batch_def)
  ultimately have "length (wire_transaction demo_wire ?ixs ?c) \<le> PACKET_DATA_SIZE demo_web3"
    by (intro batches_fit_packet[OF demo_web3_ok, where random = id and as = "[demo_ix, demo_ix]"]) (simp_all add: DEFAULT_PRIORITY_FEE_CONFIG_def)
  then show ?thesis by (auto simp: demo_web3_def)
qed

end
