(* ===== verification/Price_Schema.thy ===== *)
theory Price_Schema
  imports Price_Pusher
begin

section \<open>Price feeds as JSON: \<^verbatim>\<open>schemas/PriceFeed.ts\<close>\<close>

text \<open>
  What the price service sends is checked against a small schema before the classes of the SDK are built from it.  The converter is an
  interpreter of type descriptions.  Values are JSON values with \<^verbatim>\<open>undefined\<close> and integral numbers.  \<open>text_of\<close> is \<^verbatim>\<open>JSON.stringify\<close>, which only the
  messages of errors use.  Descriptions of dates and enumerations occur in the interpreter but in no schema; the branch for dates is left out.
\<close>

subsection \<open>The interpreter\<close>

datatype schema_ty =
    TAny
  | TNull
  | TFalse
  | TUndefined
  | TString
  | TNumber
  | TRef string
  | TEnum "string list"
  | TUnion "schema_ty list"
  | TArray schema_ty

record schema_prop =
  propJson :: string
  propJs :: string
  propTyp :: schema_ty

record schema_text =
  text_of_ty :: "schema_ty \<Rightarrow> string"
  text_of :: "json \<Rightarrow> string"

text \<open>\<^verbatim>\<open>typeMap\<close>; all three entries are objects whose additional properties are of any type.\<close>

definition typeMap :: "string \<Rightarrow> schema_prop list" where
  "typeMap name =
     (if name = ''PriceFeed'' then
        [\<lparr>propJson = ''ema_price'', propJs = ''ema_price'', propTyp = TRef ''Price''\<rparr>, \<lparr>propJson = ''id'', propJs = ''id'', propTyp = TString\<rparr>,
         \<lparr>propJson = ''metadata'', propJs = ''metadata'', propTyp = TUnion [TUndefined, TRef ''PriceFeedMetadata'']\<rparr>,
         \<lparr>propJson = ''price'', propJs = ''price'', propTyp = TRef ''Price''\<rparr>,
         \<lparr>propJson = ''vaa'', propJs = ''vaa'', propTyp = TUnion [TUndefined, TString]\<rparr>]
      else if name = ''Price'' then
        [\<lparr>propJson = ''conf'', propJs = ''conf'', propTyp = TString\<rparr>, \<lparr>propJson = ''expo'', propJs = ''expo'', propTyp = TNumber\<rparr>,
         \<lparr>propJson = ''price'', propJs = ''price'', propTyp = TString\<rparr>,
         \<lparr>propJson = ''publish_time'', propJs = ''publish_time'', propTyp = TNumber\<rparr>]
      else
        [\<lparr>propJson = ''attestation_time'', propJs = ''attestation_time'', propTyp = TUnion [TUndefined, TNumber]\<rparr>,
         \<lparr>propJson = ''emitter_chain'', propJs = ''emitter_chain'', propTyp = TNumber\<rparr>,
         \<lparr>propJson = ''prev_publish_time'', propJs = ''prev_publish_time'', propTyp = TUnion [TUndefined, TNumber]\<rparr>,
         \<lparr>propJson = ''price_service_receive_time'', propJs = ''price_service_receive_time'', propTyp = TUnion [TUndefined, TNumber]\<rparr>,
         \<lparr>propJson = ''sequence_number'', propJs = ''sequence_number'', propTyp = TUnion [TUndefined, TNumber]\<rparr>,
         \<lparr>propJson = ''slot'', propJs = ''slot'', propTyp = TUnion [TUndefined, TNumber]\<rparr>])"

definition jsonToJSProps :: "schema_prop list \<Rightarrow> (string \<times> string \<times> schema_ty) list" where
  "jsonToJSProps ps = map (\<lambda>p. (propJson p, propJs p, propTyp p)) ps"

definition jsToJSONProps :: "schema_prop list \<Rightarrow> (string \<times> string \<times> schema_ty) list" where
  "jsToJSONProps ps = map (\<lambda>p. (propJs p, propJson p, propTyp p)) ps"

definition quoted :: "string \<Rightarrow> string" where
  "quoted s = [CHR 0x22] @ s @ [CHR 0x22]"

definition invalidValue :: "schema_text \<Rightarrow> string \<Rightarrow> json \<Rightarrow> string \<Rightarrow> json outcome" where
  "invalidValue tx typ val key =
     Inl (mk_error (if key \<noteq> []
       then ''Invalid value for key '' @ quoted key @ ''. Expected type '' @ typ @ '' but got '' @ text_of tx val
       else ''Invalid value '' @ text_of tx val @ '' for type '' @ typ))"

fun same_typeof :: "schema_ty \<Rightarrow> json \<Rightarrow> bool" where
  "same_typeof TUndefined JUndef = True"
| "same_typeof TString (JStr s) = True"
| "same_typeof TNumber (JNum n) = True"
| "same_typeof _ _ = False"

definition transformPrimitive :: "schema_text \<Rightarrow> schema_ty \<Rightarrow> json \<Rightarrow> string \<Rightarrow> json outcome" where
  "transformPrimitive tx typ val key = (if same_typeof typ val then Inr val else invalidValue tx (text_of_ty tx typ) val key)"

definition set_prop :: "string \<Rightarrow> json \<Rightarrow> (string \<times> json) list \<Rightarrow> (string \<times> json) list" where
  "set_prop k v obj = map_set k v obj"

text \<open>The second loop of \<^verbatim>\<open>transformObject\<close>: properties that the description does not name are of any type.\<close>

definition add_rest :: "string list \<Rightarrow> (string \<times> json) list \<Rightarrow> (string \<times> json) list \<Rightarrow> (string \<times> json) list" where
  "add_rest keys ps result = fold (\<lambda>(k, v) result. if k \<in> set keys then result else set_prop k v result) ps result"

lemma own_prop_size [termination_simp]: "map_of ps k = Some v \<Longrightarrow> size v < Suc (size_list (size_prod (\<lambda>_. 0) size) ps)"
  by (induction ps) (auto split: if_splits)

function (sequential) transform :: "schema_text \<Rightarrow> (schema_prop list \<Rightarrow> (string \<times> string \<times> schema_ty) list) \<Rightarrow> json \<Rightarrow> schema_ty \<Rightarrow> string \<Rightarrow> json outcome"
  and transform_union :: "schema_text \<Rightarrow> (schema_prop list \<Rightarrow> (string \<times> string \<times> schema_ty) list) \<Rightarrow> json \<Rightarrow> schema_ty list \<Rightarrow> json option"
  and transform_props :: "schema_text \<Rightarrow> (schema_prop list \<Rightarrow> (string \<times> string \<times> schema_ty) list) \<Rightarrow> (string \<times> json) list
       \<Rightarrow> (string \<times> string \<times> schema_ty) list \<Rightarrow> (string \<times> json) list \<Rightarrow> (string \<times> json) list outcome"
  and transform_items :: "schema_text \<Rightarrow> (schema_prop list \<Rightarrow> (string \<times> string \<times> schema_ty) list) \<Rightarrow> json list \<Rightarrow> schema_ty \<Rightarrow> json list outcome" where
  "transform tx getProps val TAny key = Inr val"
| "transform tx getProps val TNull key = (if val = JNull then Inr val else invalidValue tx (text_of_ty tx TNull) val [])"
| "transform tx getProps val TFalse key = invalidValue tx (text_of_ty tx TFalse) val []"
| "transform tx getProps val (TRef name) key =
     (case val of
        JObj ps \<Rightarrow>
          e_bind (transform_props tx getProps ps (getProps (typeMap name)) []) (\<lambda>result.
          Inr (JObj (add_rest (map fst (getProps (typeMap name))) ps result)))
      | _ \<Rightarrow> invalidValue tx (quoted ''object'') val [])"
| "transform tx getProps val (TEnum cases) key =
     (case val of JStr s \<Rightarrow> if s \<in> set cases then Inr val else invalidValue tx (text_of_ty tx (TEnum cases)) val [] | _ \<Rightarrow> invalidValue tx (text_of_ty tx (TEnum cases)) val [])"
| "transform tx getProps val (TUnion typs) key =
     (case transform_union tx getProps val typs of Some v \<Rightarrow> Inr v | None \<Rightarrow> invalidValue tx (text_of_ty tx (TUnion typs)) val [])"
| "transform tx getProps val (TArray typ) key =
     (case val of
        JArr xs \<Rightarrow> e_bind (transform_items tx getProps xs typ) (\<lambda>ys. Inr (JArr ys))
      | _ \<Rightarrow> invalidValue tx (quoted ''array'') val [])"
| "transform tx getProps val typ key = transformPrimitive tx typ val key"
| "transform_union tx getProps val [] = None"
| "transform_union tx getProps val (t # ts) =
     (case transform tx getProps val t [] of Inr v \<Rightarrow> Some v | Inl _ \<Rightarrow> transform_union tx getProps val ts)"
| "transform_props tx getProps ps [] result = Inr result"
| "transform_props tx getProps ps ((k, k', t) # props) result =
     e_bind (transform tx getProps (case map_of ps k of None \<Rightarrow> JUndef | Some v \<Rightarrow> v) t k') (\<lambda>v.
     transform_props tx getProps ps props (set_prop k' v result))"
| "transform_items tx getProps [] t = Inr []"
| "transform_items tx getProps (x # xs) t =
     e_bind (transform tx getProps x t []) (\<lambda>y. e_bind (transform_items tx getProps xs t) (\<lambda>ys. Inr (y # ys)))"
  by pat_completeness auto
termination
  by (relation "measures [
       \<lambda>p. case p of Inl (Inl (_, _, v, _, _)) \<Rightarrow> Suc (2 * size v) | Inl (Inr (_, _, v, _)) \<Rightarrow> Suc (2 * size v)
            | Inr (Inl (_, _, ps, _, _)) \<Rightarrow> 2 * size (JObj ps) | Inr (Inr (_, _, xs, _)) \<Rightarrow> 2 * size (JArr xs),
       \<lambda>p. case p of Inl (Inl (_, _, _, t, _)) \<Rightarrow> Suc (2 * size t) | Inl (Inr (_, _, _, ts)) \<Rightarrow> 2 * size_list size ts
            | Inr (Inl (_, _, _, ps, _)) \<Rightarrow> length ps | Inr (Inr (_, _, xs, _)) \<Rightarrow> length xs]")
    (auto dest: own_prop_size split: option.splits)

definition cast :: "schema_text \<Rightarrow> json \<Rightarrow> string \<Rightarrow> json outcome" where
  "cast tx val name = transform tx jsonToJSProps val (TRef name) []"

definition uncast :: "schema_text \<Rightarrow> json \<Rightarrow> string \<Rightarrow> json outcome" where
  "uncast tx val name = transform tx jsToJSONProps val (TRef name) []"

subsection \<open>The classes: \<^verbatim>\<open>index.ts\<close>\<close>

text \<open>A checked field is used at its type; the other cases cannot occur after the check.\<close>

fun str_field :: "json \<Rightarrow> string" where
  "str_field (JStr s) = s"
| "str_field _ = []"

fun num_field :: "json \<Rightarrow> int" where
  "num_field (JNum n) = n"
| "num_field _ = 0"

fun opt_num :: "json \<Rightarrow> int option" where
  "opt_num (JNum n) = Some n"
| "opt_num _ = None"

fun opt_str :: "json \<Rightarrow> string option" where
  "opt_str (JStr s) = Some s"
| "opt_str _ = None"

definition Price_fromJson :: "schema_text \<Rightarrow> json \<Rightarrow> Price outcome" where
  "Price_fromJson tx json =
     e_bind (cast tx json ''Price'') (\<lambda>j.
     Inr \<lparr>prConf = str_field (own_prop ''conf'' j), prExpo = num_field (own_prop ''expo'' j), prPrice = str_field (own_prop ''price'' j),
          prPublishTime = num_field (own_prop ''publish_time'' j)\<rparr>)"

definition Price_toJson :: "schema_text \<Rightarrow> Price \<Rightarrow> json outcome" where
  "Price_toJson tx p =
     uncast tx (JObj [(''conf'', JStr (prConf p)), (''expo'', JNum (prExpo p)), (''price'', JStr (prPrice p)),
       (''publish_time'', JNum (prPublishTime p))]) ''Price''"

definition PriceFeedMetadata_fromJson :: "schema_text \<Rightarrow> json \<Rightarrow> PriceFeedMetadata option outcome" where
  "PriceFeedMetadata_fromJson tx json =
     (if json = JUndef then Inr None
      else e_bind (cast tx json ''PriceFeedMetadata'') (\<lambda>j.
        Inr (Some \<lparr>attestationTime = opt_num (own_prop ''attestation_time'' j), mdEmitterChain = num_field (own_prop ''emitter_chain'' j),
          priceServiceReceiveTime = opt_num (own_prop ''price_service_receive_time'' j),
          sequenceNumber = opt_num (own_prop ''sequence_number'' j), mdSlot = opt_num (own_prop ''slot'' j),
          prevPublishTime = opt_num (own_prop ''prev_publish_time'' j)\<rparr>)))"

definition opt_json :: "int option \<Rightarrow> json" where
  "opt_json o' = (case o' of None \<Rightarrow> JUndef | Some n \<Rightarrow> JNum n)"

definition PriceFeedMetadata_toJson :: "schema_text \<Rightarrow> PriceFeedMetadata \<Rightarrow> json outcome" where
  "PriceFeedMetadata_toJson tx m =
     uncast tx (JObj [(''attestation_time'', opt_json (attestationTime m)), (''emitter_chain'', JNum (mdEmitterChain m)),
       (''price_service_receive_time'', opt_json (priceServiceReceiveTime m)), (''sequence_number'', opt_json (sequenceNumber m)),
       (''slot'', opt_json (mdSlot m)), (''prev_publish_time'', opt_json (prevPublishTime m))]) ''PriceFeedMetadata''"

definition PriceFeed_fromJson :: "schema_text \<Rightarrow> json \<Rightarrow> PriceFeed outcome" where
  "PriceFeed_fromJson tx json =
     e_bind (cast tx json ''PriceFeed'') (\<lambda>j.
     e_bind (Price_fromJson tx (own_prop ''ema_price'' j)) (\<lambda>ema.
     e_bind (PriceFeedMetadata_fromJson tx (own_prop ''metadata'' j)) (\<lambda>md.
     e_bind (Price_fromJson tx (own_prop ''price'' j)) (\<lambda>p.
     Inr \<lparr>feedEmaPrice = ema, feedId = str_field (own_prop ''id'' j), feedMetadata = md, feedVaa = opt_str (own_prop ''vaa'' j),
          feedPrice = p\<rparr>))))"

definition PriceFeed_toJson :: "schema_text \<Rightarrow> PriceFeed \<Rightarrow> json outcome" where
  "PriceFeed_toJson tx f =
     e_bind (Price_toJson tx (feedEmaPrice f)) (\<lambda>ema.
     e_bind (case feedMetadata f of None \<Rightarrow> Inr JUndef | Some m \<Rightarrow> PriceFeedMetadata_toJson tx m) (\<lambda>md.
     e_bind (Price_toJson tx (feedPrice f)) (\<lambda>p.
     uncast tx (JObj [(''ema_price'', ema), (''id'', JStr (feedId f)), (''metadata'', md), (''price'', p)]) ''PriceFeed'')))"

subsection \<open>Which values the schema accepts\<close>

lemma map_of_set_prop: "map_of (set_prop k v obj) k' = (if k' = k then Some v else map_of obj k')"
  using js_alist.get_put[of k v obj k'] by (simp add: set_prop_def map_get_def)

lemma add_rest_keeps: "k \<in> set keys \<Longrightarrow> map_of (add_rest keys ps r) k = map_of r k"
  unfolding add_rest_def by (induction ps arbitrary: r) (auto simp: map_of_set_prop)

definition field :: "(string \<times> json) list \<Rightarrow> string \<Rightarrow> json" where
  "field ps k = (case map_of ps k of None \<Rightarrow> JUndef | Some v \<Rightarrow> v)"

lemmas schema_simps = typeMap_def jsonToJSProps_def jsToJSONProps_def transformPrimitive_def field_def

fun str_json :: "json \<Rightarrow> bool" where
  "str_json (JStr s) = True"
| "str_json _ = False"

fun num_json :: "json \<Rightarrow> bool" where
  "num_json (JNum n) = True"
| "num_json _ = False"

lemma same_typeof_iff:
  "same_typeof TString v = str_json v" "same_typeof TNumber v = num_json v" "same_typeof TUndefined v \<longleftrightarrow> v = JUndef"
  by (cases v; simp)+

fun obj_json :: "json \<Rightarrow> bool" where
  "obj_json (JObj ps) = True"
| "obj_json _ = False"

declare transform.simps(4) [simp del]

lemmas ref_simps = transform.simps(4) schema_simps e_bind_Inr_iff add_rest_keeps map_of_set_prop invalidValue_def same_typeof_iff

definition opt_shape :: "(json \<Rightarrow> bool) \<Rightarrow> json \<Rightarrow> bool" where
  "opt_shape f j \<longleftrightarrow> j = JUndef \<or> f j"

definition price_shape :: "json \<Rightarrow> bool" where
  "price_shape j \<longleftrightarrow>
     obj_json j \<and> str_json (own_prop ''conf'' j) \<and> num_json (own_prop ''expo'' j) \<and> str_json (own_prop ''price'' j) \<and> num_json (own_prop ''publish_time'' j)"

definition metadata_shape :: "json \<Rightarrow> bool" where
  "metadata_shape j \<longleftrightarrow>
     obj_json j \<and> num_json (own_prop ''emitter_chain'' j) \<and>
     list_all (\<lambda>k. opt_shape num_json (own_prop k j)) [''attestation_time'', ''prev_publish_time'', ''price_service_receive_time'', ''sequence_number'', ''slot'']"

definition feed_shape :: "json \<Rightarrow> bool" where
  "feed_shape j \<longleftrightarrow>
     obj_json j \<and> price_shape (own_prop ''ema_price'' j) \<and> str_json (own_prop ''id'' j) \<and> opt_shape metadata_shape (own_prop ''metadata'' j) \<and>
     price_shape (own_prop ''price'' j) \<and> opt_shape str_json (own_prop ''vaa'' j)"

text \<open>What the classes read from a value of the right shape.\<close>

definition price_of :: "json \<Rightarrow> Price" where
  "price_of j = \<lparr>prConf = str_field (own_prop ''conf'' j), prExpo = num_field (own_prop ''expo'' j), prPrice = str_field (own_prop ''price'' j),
     prPublishTime = num_field (own_prop ''publish_time'' j)\<rparr>"

definition metadata_of :: "json \<Rightarrow> PriceFeedMetadata" where
  "metadata_of j = \<lparr>attestationTime = opt_num (own_prop ''attestation_time'' j), mdEmitterChain = num_field (own_prop ''emitter_chain'' j),
     priceServiceReceiveTime = opt_num (own_prop ''price_service_receive_time'' j), sequenceNumber = opt_num (own_prop ''sequence_number'' j),
     mdSlot = opt_num (own_prop ''slot'' j), prevPublishTime = opt_num (own_prop ''prev_publish_time'' j)\<rparr>"

definition feed_from :: "json \<Rightarrow> PriceFeed" where
  "feed_from j = \<lparr>feedEmaPrice = price_of (own_prop ''ema_price'' j), feedId = str_field (own_prop ''id'' j),
     feedMetadata = (if own_prop ''metadata'' j = JUndef then None else Some (metadata_of (own_prop ''metadata'' j))),
     feedVaa = opt_str (own_prop ''vaa'' j), feedPrice = price_of (own_prop ''price'' j)\<rparr>"

lemma own_prop_field: "own_prop k (JObj ps) = field ps k"
  by (simp add: field_def)

lemma optional_union:
  "transform tx gp v (TUnion [TUndefined, t]) key = Inr w \<longleftrightarrow> (if v = JUndef then w = JUndef else transform tx gp v t [] = Inr w)"
  by (cases "transform tx gp v t []") (auto simp: transformPrimitive_def same_typeof_iff invalidValue_def)

lemma primitive_value:
  "transform tx gp v TString key = Inr w \<longleftrightarrow> str_json v \<and> w = v" "transform tx gp v TNumber key = Inr w \<longleftrightarrow> num_json v \<and> w = v"
  by (auto simp: transformPrimitive_def same_typeof_iff invalidValue_def)

text \<open>An object described by name: every described field is converted under its description, and the result holds the converted fields.\<close>

lemma transform_props_iff:
  assumes "distinct (map (fst \<circ> snd) props)"
  shows "(\<exists>r. transform_props tx gp ps props res = Inr r) \<longleftrightarrow> (\<forall>(k, k', t) \<in> set props. \<exists>v. transform tx gp (field ps k) t k' = Inr v)"
    and "transform_props tx gp ps props res = Inr r \<Longrightarrow> (k, k', t) \<in> set props \<Longrightarrow> transform tx gp (field ps k) t k' = Inr (field r k')"
    and "transform_props tx gp ps props res = Inr r \<Longrightarrow> k' \<notin> (fst \<circ> snd) ` set props \<Longrightarrow> map_of r k' = map_of res k'"
proof -
  show "(\<exists>r. transform_props tx gp ps props res = Inr r) \<longleftrightarrow> (\<forall>(k, k', t) \<in> set props. \<exists>v. transform tx gp (field ps k) t k' = Inr v)"
  proof (induction props arbitrary: res)
    case (Cons p props)
    obtain a a' b where p: "p = (a, a', b)" by (cases p)
    have "(\<exists>r. transform_props tx gp ps (p # props) res = Inr r) \<longleftrightarrow>
        (\<exists>v. transform tx gp (field ps a) b a' = Inr v \<and> (\<exists>r. transform_props tx gp ps props (set_prop a' v res) = Inr r))"
      unfolding p field_def by (simp add: e_bind_Inr_iff) blast
    then show ?case unfolding Cons.IH p by simp
  qed simp
  have other: "map_of r k' = map_of res k'"
    if "transform_props tx gp ps props res = Inr r" "k' \<notin> (fst \<circ> snd) ` set props" for props res r k'
    using that by (induction props arbitrary: res) (auto simp: e_bind_Inr_iff map_of_set_prop)
  then show "transform_props tx gp ps props res = Inr r \<Longrightarrow> k' \<notin> (fst \<circ> snd) ` set props \<Longrightarrow> map_of r k' = map_of res k'" .
  show "transform tx gp (field ps k) t k' = Inr (field r k')"
    if "transform_props tx gp ps props res = Inr r" "(k, k', t) \<in> set props"
    using assms that
  proof (induction props arbitrary: res)
    case (Cons p props)
    obtain a a' b where p: "p = (a, a', b)" by (cases p)
    obtain v where v: "transform tx gp (field ps a) b a' = Inr v" "transform_props tx gp ps props (set_prop a' v res) = Inr r"
      using Cons.prems(2) by (auto simp: p e_bind_Inr_iff field_def)
    have "map_of r a' = Some v"
      using other[OF v(2), of a'] Cons.prems(1) by (force simp: p map_of_set_prop)
    then show ?case
      using Cons v by (auto simp: p field_def)
  qed simp
qed

definition plain_props :: "string \<Rightarrow> (string \<times> schema_ty) list" where
  "plain_props name = map (\<lambda>p. (propJson p, propTyp p)) (typeMap name)"

lemma transform_ref:
  assumes "gp = jsonToJSProps \<or> gp = jsToJSONProps"
  shows "(\<exists>r. transform tx gp j (TRef name) key = Inr r) \<longleftrightarrow>
           obj_json j \<and> list_all (\<lambda>(k, t). \<exists>v. transform tx gp (own_prop k j) t k = Inr v) (plain_props name)"
    and "transform tx gp j (TRef name) key = Inr r \<Longrightarrow>
           obj_json r \<and> list_all (\<lambda>(k, t). transform tx gp (own_prop k j) t k = Inr (own_prop k r)) (plain_props name)"
proof -
  have same: "map (\<lambda>p. (propJson p, propJs p, propTyp p)) (typeMap name) = map (\<lambda>(k, t). (k, k, t)) (plain_props name)"
    "map (\<lambda>p. (propJs p, propJson p, propTyp p)) (typeMap name) = map (\<lambda>(k, t). (k, k, t)) (plain_props name)"
    by (simp_all add: plain_props_def typeMap_def)
  have gp: "gp (typeMap name) = map (\<lambda>(k, t). (k, k, t)) (plain_props name)"
    using assms same by (auto simp: jsonToJSProps_def jsToJSONProps_def)
  have dist: "distinct (map (fst \<circ> snd) (map (\<lambda>(k, t). (k, k, t)) (plain_props name)))"
    by (simp add: plain_props_def typeMap_def)
  show "(\<exists>r. transform tx gp j (TRef name) key = Inr r) \<longleftrightarrow>
      obj_json j \<and> list_all (\<lambda>(k, t). \<exists>v. transform tx gp (own_prop k j) t k = Inr v) (plain_props name)"
    using transform_props_iff(1)[OF dist]
    by (cases j) (auto simp: transform.simps(4) gp e_bind_Inr_iff invalidValue_def list_all_iff own_prop_field simp del: own_prop.simps(1))
  show "obj_json r \<and> list_all (\<lambda>(k, t). transform tx gp (own_prop k j) t k = Inr (own_prop k r)) (plain_props name)"
    if ok: "transform tx gp j (TRef name) key = Inr r"
  proof -
    obtain ps r0 where j: "j = JObj ps" and r0: "transform_props tx gp ps (map (\<lambda>(k, t). (k, k, t)) (plain_props name)) [] = Inr r0"
      and r: "r = JObj (add_rest (map fst (plain_props name)) ps r0)"
      using ok by (cases j) (auto simp: transform.simps(4) gp e_bind_Inr_iff invalidValue_def comp_def case_prod_unfold)
    have "transform tx gp (own_prop k j) t k = Inr (own_prop k r)" if "(k, t) \<in> set (plain_props name)" for k t
    proof -
      have "k \<in> set (map fst (plain_props name))" "(k, k, t) \<in> set (map (\<lambda>(k, t). (k, k, t)) (plain_props name))"
        using that by force+
      then show ?thesis
        using transform_props_iff(2)[OF dist r0, of k k t] by (simp add: j r field_def add_rest_keeps)
    qed
    then show ?thesis by (auto simp: r list_all_iff)
  qed
qed

declare transform.simps [simp del]

lemmas field_types = plain_props_def typeMap_def primitive_value optional_union

text \<open>The three described types.\<close>

lemma price_checked:
  assumes "gp = jsonToJSProps \<or> gp = jsToJSONProps"
  shows "(\<exists>r. transform tx gp j (TRef ''Price'') key = Inr r) \<longleftrightarrow> price_shape j"
    and "transform tx gp j (TRef ''Price'') key = Inr r \<Longrightarrow> price_shape r \<and> price_of r = price_of j"
proof -
  show ok: "(\<exists>r. transform tx gp j (TRef ''Price'') key = Inr r) \<longleftrightarrow> price_shape j"
    unfolding transform_ref(1)[OF assms] by (simp add: field_types price_shape_def)
  show "price_shape r \<and> price_of r = price_of j" if "transform tx gp j (TRef ''Price'') key = Inr r"
    using transform_ref(2)[OF assms that] ok that by (simp add: field_types price_shape_def price_of_def)
qed

lemma metadata_checked:
  assumes "gp = jsonToJSProps \<or> gp = jsToJSONProps"
  shows "(\<exists>r. transform tx gp j (TRef ''PriceFeedMetadata'') key = Inr r) \<longleftrightarrow> metadata_shape j"
    and "transform tx gp j (TRef ''PriceFeedMetadata'') key = Inr r \<Longrightarrow> metadata_shape r \<and> metadata_of r = metadata_of j"
proof -
  have opt: "(\<exists>v. transform tx gp w (TUnion [TUndefined, TNumber]) k = Inr v) \<longleftrightarrow> opt_shape num_json w" for w k
    by (cases "w = JUndef") (auto simp: field_types opt_shape_def)
  have optv: "transform tx gp w (TUnion [TUndefined, TNumber]) k = Inr v \<longleftrightarrow> opt_shape num_json w \<and> v = w" for w k v
    by (auto simp: field_types opt_shape_def)
  show ok: "(\<exists>r. transform tx gp j (TRef ''PriceFeedMetadata'') key = Inr r) \<longleftrightarrow> metadata_shape j"
    unfolding transform_ref(1)[OF assms] by (simp add: plain_props_def typeMap_def primitive_value opt metadata_shape_def) blast
  show "metadata_shape r \<and> metadata_of r = metadata_of j" if "transform tx gp j (TRef ''PriceFeedMetadata'') key = Inr r"
    using transform_ref(2)[OF assms that] ok that
    by (simp add: plain_props_def typeMap_def primitive_value optv metadata_shape_def metadata_of_def)
qed

lemma feed_checked:
  assumes "gp = jsonToJSProps \<or> gp = jsToJSONProps"
  shows "(\<exists>r. transform tx gp j (TRef ''PriceFeed'') key = Inr r) \<longleftrightarrow> feed_shape j"
    and "transform tx gp j (TRef ''PriceFeed'') key = Inr r \<Longrightarrow> feed_shape r \<and> feed_from r = feed_from j"
proof -
  have md: "(\<exists>v. transform tx gp w (TUnion [TUndefined, TRef ''PriceFeedMetadata'']) k = Inr v) \<longleftrightarrow> opt_shape metadata_shape w" for w k
    using metadata_checked(1)[OF assms, of tx w "[]"] by (cases "w = JUndef") (auto simp: optional_union opt_shape_def)
  have vaa: "(\<exists>v. transform tx gp w (TUnion [TUndefined, TString]) k = Inr v) \<longleftrightarrow> opt_shape str_json w" for w k
    by (cases "w = JUndef") (auto simp: field_types opt_shape_def)
  show ok: "(\<exists>r. transform tx gp j (TRef ''PriceFeed'') key = Inr r) \<longleftrightarrow> feed_shape j"
    unfolding transform_ref(1)[OF assms]
    by (simp add: plain_props_def typeMap_def primitive_value price_checked(1)[OF assms] md vaa feed_shape_def)
  show "feed_shape r \<and> feed_from r = feed_from j" if t: "transform tx gp j (TRef ''PriceFeed'') key = Inr r"
  proof -
    note fs = transform_ref(2)[OF assms t]
    have "obj_json r" "own_prop ''id'' r = own_prop ''id'' j" "own_prop ''vaa'' r = own_prop ''vaa'' j"
      and ema: "transform tx gp (own_prop ''ema_price'' j) (TRef ''Price'') ''ema_price'' = Inr (own_prop ''ema_price'' r)"
      and pr: "transform tx gp (own_prop ''price'' j) (TRef ''Price'') ''price'' = Inr (own_prop ''price'' r)"
      and m: "if own_prop ''metadata'' j = JUndef then own_prop ''metadata'' r = JUndef
              else transform tx gp (own_prop ''metadata'' j) (TRef ''PriceFeedMetadata'') [] = Inr (own_prop ''metadata'' r)"
      using fs by (auto simp: plain_props_def typeMap_def primitive_value optional_union split: if_splits)
    moreover have "opt_shape metadata_shape (own_prop ''metadata'' r)"
      "(own_prop ''metadata'' r = JUndef) = (own_prop ''metadata'' j = JUndef)"
      "own_prop ''metadata'' j \<noteq> JUndef \<Longrightarrow> metadata_of (own_prop ''metadata'' r) = metadata_of (own_prop ''metadata'' j)"
      using m metadata_checked(2)[OF assms, of tx "own_prop ''metadata'' j" "[]" "own_prop ''metadata'' r"]
      by (auto simp: opt_shape_def metadata_shape_def split: if_splits)
    moreover have "feed_shape j" using ok t by blast
    ultimately show ?thesis
      using price_checked(2)[OF assms ema] price_checked(2)[OF assms pr] by (simp add: feed_shape_def feed_from_def)
  qed
qed

lemma Price_fromJson_iff: "Price_fromJson tx j = Inr p \<longleftrightarrow> price_shape j \<and> p = price_of j"
  using price_checked[of jsonToJSProps tx j "[]"] unfolding Price_fromJson_def cast_def price_of_def[symmetric] by (auto simp: e_bind_Inr_iff)

lemma PriceFeedMetadata_fromJson_iff:
  "PriceFeedMetadata_fromJson tx j = Inr m \<longleftrightarrow> (if j = JUndef then m = None else metadata_shape j \<and> m = Some (metadata_of j))"
  using metadata_checked[of jsonToJSProps tx j "[]"]
  unfolding PriceFeedMetadata_fromJson_def cast_def metadata_of_def[symmetric] by (auto simp: e_bind_Inr_iff)

lemma PriceFeed_fromJson_iff: "PriceFeed_fromJson tx j = Inr f \<longleftrightarrow> feed_shape j \<and> f = feed_from j"
proof -
  have "PriceFeed_fromJson tx j = Inr f \<longleftrightarrow> (\<exists>r. transform tx jsonToJSProps j (TRef ''PriceFeed'') [] = Inr r \<and> feed_shape r \<and> f = feed_from r)"
    unfolding PriceFeed_fromJson_def cast_def e_bind_Inr_iff Price_fromJson_iff PriceFeedMetadata_fromJson_iff
    using feed_checked(2)[of jsonToJSProps tx j "[]"] by (auto simp: feed_shape_def feed_from_def opt_shape_def)
  then show ?thesis
    using feed_checked[of jsonToJSProps tx j "[]"] by auto
qed

subsection \<open>Writing a feed and reading it back\<close>

lemma opt_num_json [simp]: "opt_num (opt_json n) = n" "opt_shape num_json (opt_json n)"
  by (auto simp: opt_json_def opt_shape_def split: option.splits)

lemma checked_ok:
  assumes "(\<exists>r. t = Inr r) \<longleftrightarrow> shape j" "\<And>r. t = Inr r \<Longrightarrow> shape r \<and> of_json r = of_json j" "shape j" "of_json j = x"
  shows "\<exists>r. t = Inr r \<and> shape r \<and> of_json r = x"
  using assms by auto

lemma Price_toJson_ok: "\<exists>r. Price_toJson tx p = Inr r \<and> price_shape r \<and> price_of r = p"
  unfolding Price_toJson_def uncast_def
  by (rule checked_ok[OF price_checked]) (simp_all add: price_shape_def price_of_def)

lemma PriceFeedMetadata_toJson_ok: "\<exists>r. PriceFeedMetadata_toJson tx m = Inr r \<and> metadata_shape r \<and> metadata_of r = m"
  unfolding PriceFeedMetadata_toJson_def uncast_def
  by (rule checked_ok[OF metadata_checked]) (simp_all add: metadata_shape_def metadata_of_def)

lemma metadata_field_ok:
  "\<exists>md. (case m of None \<Rightarrow> Inr JUndef | Some m' \<Rightarrow> PriceFeedMetadata_toJson tx m') = Inr md \<and> opt_shape metadata_shape md \<and>
     (if md = JUndef then None else Some (metadata_of md)) = m"
proof (cases m)
  case (Some m')
  obtain r where r: "PriceFeedMetadata_toJson tx m' = Inr r" "metadata_shape r" "metadata_of r = m'"
    using PriceFeedMetadata_toJson_ok by blast
  then have "r \<noteq> JUndef" by (auto simp: metadata_shape_def)
  then show ?thesis
    using r Some by (intro exI[of _ r]) (simp add: opt_shape_def)
qed (simp add: opt_shape_def)

text \<open>
  C31.  Reading a price feed accepts exactly the values of the described shape, optional fields may be absent but not \<^verbatim>\<open>null\<close>, and the feed it builds has
  every field of the message; additional properties change nothing.
\<close>

theorem PriceFeed_fromJson_exact: "PriceFeed_fromJson tx j = Inr f \<longleftrightarrow> feed_shape j \<and> f = feed_from j"
  by (rule PriceFeed_fromJson_iff)

text \<open>
  A feed that is written with \<^verbatim>\<open>toJson\<close> reads back, for every feed, with all its prices and metadata; the attestation (\<^verbatim>\<open>vaa\<close>) is the one field
  that does not survive.
\<close>

theorem PriceFeed_json_roundtrip: "\<exists>j. PriceFeed_toJson tx f = Inr j \<and> PriceFeed_fromJson tx j = Inr (f\<lparr>feedVaa := None\<rparr>)"
proof -
  obtain ema where e: "Price_toJson tx (feedEmaPrice f) = Inr ema" "price_shape ema" "price_of ema = feedEmaPrice f"
    using Price_toJson_ok by blast
  obtain md where m: "(case feedMetadata f of None \<Rightarrow> Inr JUndef | Some m' \<Rightarrow> PriceFeedMetadata_toJson tx m') = Inr md"
    "opt_shape metadata_shape md" "(if md = JUndef then None else Some (metadata_of md)) = feedMetadata f"
    using metadata_field_ok by blast
  obtain p where p: "Price_toJson tx (feedPrice f) = Inr p" "price_shape p" "price_of p = feedPrice f"
    using Price_toJson_ok by blast
  let ?j = "JObj [(''ema_price'', ema), (''id'', JStr (feedId f)), (''metadata'', md), (''price'', p)]"
  have sh: "feed_shape ?j" using e m p by (simp add: feed_shape_def opt_shape_def)
  have fo: "feed_from ?j = f\<lparr>feedVaa := None\<rparr>" using e p m(3)[symmetric] by (cases f) (simp add: feed_from_def)
  have "\<exists>r. uncast tx ?j ''PriceFeed'' = Inr r \<and> feed_shape r \<and> feed_from r = f\<lparr>feedVaa := None\<rparr>"
    unfolding uncast_def by (rule checked_ok[OF feed_checked]) (simp_all only: sh fo simp_thms)
  then obtain r where r: "uncast tx ?j ''PriceFeed'' = Inr r" "feed_shape r" "feed_from r = f\<lparr>feedVaa := None\<rparr>"
    by (elim exE conjE)
  have "PriceFeed_toJson tx f = Inr r"
    using e m p r by (simp add: PriceFeed_toJson_def)
  moreover have "PriceFeed_fromJson tx r = Inr (f\<lparr>feedVaa := None\<rparr>)"
    using r by (simp add: PriceFeed_fromJson_iff)
  ultimately show ?thesis by blast
qed

end
