(* ===== verification/Price_Service.thy ===== *)
theory Price_Service
  imports Price_Schema
begin

section \<open>The price service client: \<^verbatim>\<open>PriceServiceConnection.ts\<close>, \<^verbatim>\<open>ResillientWebSocket.ts\<close>\<close>

text \<open>
  The connection to the price service keeps the callbacks of its subscribers and talks to the server over a web socket that reconnects by itself.

  The state is a store: every \<^verbatim>\<open>ResilientWebSocket\<close> the connection ever made, every \<^verbatim>\<open>WebSocket\<close> those made, and the tasks, that is the
  \<^verbatim>\<open>async\<close> functions that are suspended in an \<^verbatim>\<open>await\<close>.  The web sockets belong to \<^verbatim>\<open>isomorphic-ws\<close> and the server: of them the model has
  the states and methods of the documented interface (\<^verbatim>\<open>send\<close> transmits when open and does nothing when closing or closed; \<^verbatim>\<open>close\<close> and
  \<^verbatim>\<open>terminate\<close> lead to closing, and the close event follows once).  Events of the network, timers and resumed tasks are steps in any order.
  Callbacks are numbers, and calling one is recorded; a handler of errors records them.  The clock is not modelled: a timer may fire at any time.
\<close>

subsection \<open>Messages and configuration\<close>

record PriceFeedRequestConfig =
  rcVerbose :: "bool option"
  rcBinary :: "bool option"
  rcAllowOutOfOrder :: "bool option"

record PriceServiceConnectionConfig =
  pcTimeout :: "nat option"
  pcHttpRetries :: "nat option"
  pcVerbose :: "bool option"
  pcRequest :: "PriceFeedRequestConfig option"

datatype message_type = Subscribe_type | Unsubscribe_type

record ClientMessage =
  msgType :: message_type
  msgIds :: "string list"
  msgConfig :: "PriceFeedRequestConfig option"

definition removeLeading0xIfExists :: "string \<Rightarrow> string" where
  "removeLeading0xIfExists i = (if starts_with ''0x'' i then drop 2 i else i)"

text \<open>The part of the constructor that reads the configuration: \<^verbatim>\<open>||\<close> replaces zero, \<^verbatim>\<open>??\<close> only \<^verbatim>\<open>undefined\<close>.\<close>

definition or_default :: "nat option \<Rightarrow> nat \<Rightarrow> nat" where
  "or_default n d = (case n of None \<Rightarrow> d | Some m \<Rightarrow> if m = 0 then d else m)"

record http_options =
  httpTimeout :: nat
  httpRetriesUsed :: nat

definition http_options_of :: "PriceServiceConnectionConfig option \<Rightarrow> http_options" where
  "http_options_of config =
     \<lparr>httpTimeout = or_default (Option.bind config pcTimeout) 5000, httpRetriesUsed = or_default (Option.bind config pcHttpRetries) 3\<rparr>"

definition request_config_of :: "PriceServiceConnectionConfig option \<Rightarrow> PriceFeedRequestConfig" where
  "request_config_of config =
     (let req = Option.bind config pcRequest in
      \<lparr>rcVerbose = (case Option.bind req rcVerbose of Some b \<Rightarrow> Some b | None \<Rightarrow> Option.bind config pcVerbose),
       rcBinary = Option.bind req rcBinary, rcAllowOutOfOrder = Option.bind req rcAllowOutOfOrder\<rparr>)"

subsection \<open>Requests over HTTP\<close>

text \<open>\<open>http\<close> is \<^verbatim>\<open>this.httpClient.get\<close> (axios with its retries): the path and the parameters, to the response's data or an error.\<close>

type_synonym http_get = "string \<Rightarrow> (string \<times> json) list \<Rightarrow> json outcome"

definition bool_json :: "bool option \<Rightarrow> json" where
  "bool_json b = (case b of None \<Rightarrow> JUndef | Some b \<Rightarrow> JBool b)"

definition getLatestPriceFeeds :: "schema_text \<Rightarrow> http_get \<Rightarrow> PriceFeedRequestConfig \<Rightarrow> string list \<Rightarrow> PriceFeed list outcome" where
  "getLatestPriceFeeds tx http cfg priceIds =
     (if priceIds = [] then Inr []
      else e_bind (http ''/api/latest_price_feeds''
             [(''ids'', JArr (map JStr priceIds)), (''verbose'', bool_json (rcVerbose cfg)), (''binary'', bool_json (rcBinary cfg))]) (\<lambda>data.
        case data of
          JArr xs \<Rightarrow> e_map (PriceFeed_fromJson tx) xs
        | _ \<Rightarrow> Inl (type_error ''priceFeedsJson.map is not a function'')))"

definition getLatestVaas :: "http_get \<Rightarrow> string list \<Rightarrow> json outcome" where
  "getLatestVaas http priceIds = http ''/api/latest_vaas'' [(''ids'', JArr (map JStr priceIds))]"

definition getVaa :: "http_get \<Rightarrow> string \<Rightarrow> int \<Rightarrow> (json \<times> json) outcome" where
  "getVaa http priceId publishTime =
     e_bind (http ''/api/get_vaa'' [(''id'', JStr priceId), (''publish_time'', JNum publishTime)]) (\<lambda>data.
     e_bind (get_prop ''vaa'' data) (\<lambda>vaa. e_bind (get_prop ''publishTime'' data) (\<lambda>t. Inr (vaa, t))))"

definition getPriceFeed :: "schema_text \<Rightarrow> http_get \<Rightarrow> PriceFeedRequestConfig \<Rightarrow> string \<Rightarrow> int \<Rightarrow> PriceFeed outcome" where
  "getPriceFeed tx http cfg priceId publishTime =
     e_bind (http ''/api/get_price_feed''
       [(''id'', JStr priceId), (''publish_time'', JNum publishTime), (''verbose'', bool_json (rcVerbose cfg)), (''binary'', bool_json (rcBinary cfg))])
       (PriceFeed_fromJson tx)"

definition getPriceFeedIds :: "http_get \<Rightarrow> json outcome" where
  "getPriceFeedIds http = http ''/api/price_feed_ids'' []"

subsection \<open>The state\<close>

datatype ready_state = CONNECTING | OPEN | CLOSING | CLOSED

record web_socket =
  readyState :: ready_state
  sockOwner :: nat
  sentData :: "ClientMessage list"

record ResilientWebSocket =
  wsClient :: "nat option"
  wsUserClosed :: bool
  wsFailedAttempts :: nat
  pingTimeout :: bool

text \<open>
  A suspended task: \<^verbatim>\<open>send\<close> in its wait, with what follows it (\<^verbatim>\<open>unsubscribePriceFeedUpdates\<close> looks afterwards whether any callback is left);
  \<^verbatim>\<open>restartUnexpectedClosedWebsocket\<close> in its wait; the close handler in its sleep; and the rest of the two public functions after the
  \<^verbatim>\<open>await\<close> of \<^verbatim>\<open>startWebSocket\<close>.
\<close>

datatype conn_task =
    SendWait nat ClientMessage nat bool
  | RestartWait nat nat
  | BackoffSleep nat nat
  | SubscribeRest "string list" nat
  | UnsubscribeRest "string list" "nat option"
  | CheckEmpty

datatype conn_error = HandledError js_error | UncaughtError js_error

record price_conn =
  priceFeedCallbacks :: "(string, nat list) js_map_t"
  connWs :: "nat option"
  connRequest :: PriceFeedRequestConfig
  wsObjects :: "ResilientWebSocket list"
  wsSockets :: "web_socket list"
  connTasks :: "conn_task list"
  cbCalls :: "(nat \<times> PriceFeed) list"
  connErrors :: "conn_error list"

definition conn_new :: "PriceServiceConnectionConfig option \<Rightarrow> price_conn" where
  "conn_new config =
     \<lparr>priceFeedCallbacks = [], connWs = None, connRequest = request_config_of config, wsObjects = [], wsSockets = [], connTasks = [],
      cbCalls = [], connErrors = []\<rparr>"

definition upd_ws :: "nat \<Rightarrow> (ResilientWebSocket \<Rightarrow> ResilientWebSocket) \<Rightarrow> price_conn \<Rightarrow> price_conn" where
  "upd_ws i f w = w\<lparr>wsObjects := (wsObjects w)[i := f (wsObjects w ! i)]\<rparr>"

definition upd_sock :: "nat \<Rightarrow> (web_socket \<Rightarrow> web_socket) \<Rightarrow> price_conn \<Rightarrow> price_conn" where
  "upd_sock k f w = w\<lparr>wsSockets := (wsSockets w)[k := f (wsSockets w ! k)]\<rparr>"

definition spawn :: "conn_task \<Rightarrow> price_conn \<Rightarrow> price_conn" where
  "spawn t w = w\<lparr>connTasks := connTasks w @ [t]\<rparr>"

definition onWsError :: "js_error \<Rightarrow> price_conn \<Rightarrow> price_conn" where
  "onWsError e w = w\<lparr>connErrors := connErrors w @ [HandledError e]\<rparr>"

abbreviation ws_at :: "price_conn \<Rightarrow> nat \<Rightarrow> ResilientWebSocket" where
  "ws_at w i \<equiv> wsObjects w ! i"

abbreviation sock_at :: "price_conn \<Rightarrow> nat \<Rightarrow> web_socket" where
  "sock_at w k \<equiv> wsSockets w ! k"

text \<open>The methods of a \<^verbatim>\<open>WebSocket\<close>; \<^verbatim>\<open>terminate\<close> differs from \<^verbatim>\<open>close\<close> only in not waiting for the peer.\<close>

fun closing :: "ready_state \<Rightarrow> ready_state" where
  "closing CLOSED = CLOSED"
| "closing _ = CLOSING"

definition sock_close :: "nat \<Rightarrow> price_conn \<Rightarrow> price_conn" where
  "sock_close k = upd_sock k (\<lambda>s. s\<lparr>readyState := closing (readyState s)\<rparr>)"

definition sock_send :: "nat \<Rightarrow> ClientMessage \<Rightarrow> price_conn \<Rightarrow> price_conn" where
  "sock_send k m = upd_sock k (\<lambda>s. if readyState s = OPEN then s\<lparr>sentData := sentData s @ [m]\<rparr> else s)"

subsection \<open>The socket that reconnects\<close>

definition rws_new :: ResilientWebSocket where
  "rws_new = \<lparr>wsClient = None, wsUserClosed = True, wsFailedAttempts = 0, pingTimeout = False\<rparr>"

definition rws_send :: "nat \<Rightarrow> ClientMessage \<Rightarrow> bool \<Rightarrow> price_conn \<Rightarrow> price_conn" where
  "rws_send i m thenCheck = spawn (SendWait i m 0 thenCheck)"

definition rws_startWebSocket :: "nat \<Rightarrow> price_conn \<Rightarrow> price_conn" where
  "rws_startWebSocket i w =
     (if wsClient (ws_at w i) \<noteq> None then w
      else upd_ws i (\<lambda>r. r\<lparr>wsClient := Some (length (wsSockets w)), wsUserClosed := False\<rparr>)
             (w\<lparr>wsSockets := wsSockets w @ [\<lparr>readyState = CONNECTING, sockOwner = i, sentData = []\<rparr>]\<rparr>))"

definition heartbeat :: "nat \<Rightarrow> price_conn \<Rightarrow> price_conn" where
  "heartbeat i = upd_ws i (\<lambda>r. r\<lparr>pingTimeout := True\<rparr>)"

text \<open>The handlers of the socket.  Whether \<^verbatim>\<open>this.wsClient.on\<close> exists says that the program runs in node.\<close>

definition rws_onopen :: "bool \<Rightarrow> nat \<Rightarrow> price_conn \<Rightarrow> price_conn" where
  "rws_onopen node i w =
     (let w1 = upd_ws i (\<lambda>r. r\<lparr>wsFailedAttempts := 0\<rparr>) w in if node then heartbeat i w1 else w1)"

definition expoBackoff :: "nat \<Rightarrow> nat" where
  "expoBackoff attempts = 2 ^ attempts * 100"

definition rws_onclose :: "nat \<Rightarrow> price_conn \<Rightarrow> price_conn" where
  "rws_onclose i w =
     (let w1 = upd_ws i (\<lambda>r. r\<lparr>pingTimeout := False\<rparr>) w in
      if \<not> wsUserClosed (ws_at w1 i)
      then (let w2 = upd_ws i (\<lambda>r. r\<lparr>wsFailedAttempts := wsFailedAttempts r + 1, wsClient := None\<rparr>) w1 in
            spawn (BackoffSleep i (expoBackoff (wsFailedAttempts (ws_at w2 i)))) w2)
      else w1)"

definition restartUnexpectedClosedWebsocket :: "nat \<Rightarrow> price_conn \<Rightarrow> price_conn" where
  "restartUnexpectedClosedWebsocket i w =
     (if wsUserClosed (ws_at w i) then w else spawn (RestartWait i 0) (rws_startWebSocket i w))"

text \<open>The timer that \<^verbatim>\<open>heartbeat\<close> sets.\<close>

definition ping_expired :: "nat \<Rightarrow> price_conn \<Rightarrow> price_conn" where
  "ping_expired i w =
     (let w1 = upd_ws i (\<lambda>r. r\<lparr>pingTimeout := False\<rparr>) w;
          w2 = (case wsClient (ws_at w1 i) of None \<Rightarrow> w1 | Some k \<Rightarrow> sock_close k w1) in
      restartUnexpectedClosedWebsocket i w2)"

definition rws_closeWebSocket :: "nat \<Rightarrow> price_conn \<Rightarrow> price_conn" where
  "rws_closeWebSocket i w =
     upd_ws i (\<lambda>r. r\<lparr>wsUserClosed := True\<rparr>)
       (case wsClient (ws_at w i) of
          None \<Rightarrow> w
        | Some k \<Rightarrow> sock_close k (upd_ws i (\<lambda>r. r\<lparr>wsClient := None\<rparr>) w))"

text \<open>One round of the loop of \<^verbatim>\<open>waitForMaybeReadyWebSocket\<close>: it ends, it closes the socket and ends, or it sleeps again.\<close>

datatype wait_result = WaitOver | WaitTimedOut nat | WaitAgain

definition wait_round :: "nat \<Rightarrow> nat \<Rightarrow> price_conn \<Rightarrow> wait_result" where
  "wait_round i waitedTime w =
     (case wsClient (ws_at w i) of
        None \<Rightarrow> WaitOver
      | Some k \<Rightarrow>
          if readyState (sock_at w k) = OPEN then WaitOver
          else if waitedTime > 5000 then WaitTimedOut k
          else WaitAgain)"

subsection \<open>The connection\<close>

definition subscribe_message :: "PriceFeedRequestConfig \<Rightarrow> string list \<Rightarrow> ClientMessage" where
  "subscribe_message cfg ids = \<lparr>msgType = Subscribe_type, msgIds = ids, msgConfig = Some cfg\<rparr>"

definition unsubscribe_message :: "string list \<Rightarrow> ClientMessage" where
  "unsubscribe_message ids = \<lparr>msgType = Unsubscribe_type, msgIds = ids, msgConfig = None\<rparr>"

definition conn_startWebSocket :: "price_conn \<Rightarrow> price_conn" where
  "conn_startWebSocket w =
     (let i = length (wsObjects w) in rws_startWebSocket i (w\<lparr>wsObjects := wsObjects w @ [rws_new], connWs := Some i\<rparr>))"

definition conn_onReconnect :: "price_conn \<Rightarrow> price_conn" where
  "conn_onReconnect w =
     (if priceFeedCallbacks w \<noteq> []
      then (case connWs w of
              None \<Rightarrow> w
            | Some i \<Rightarrow> rws_send i (subscribe_message (connRequest w) (map_keys (priceFeedCallbacks w))) False w)
      else w)"

definition conn_closeWebSocket :: "price_conn \<Rightarrow> price_conn" where
  "conn_closeWebSocket w =
     (let w1 = (case connWs w of None \<Rightarrow> w | Some i \<Rightarrow> rws_closeWebSocket i w) in
      w1\<lparr>connWs := None, priceFeedCallbacks := []\<rparr>)"

fun register_ids :: "nat \<Rightarrow> string list \<Rightarrow> (string, nat list) js_map_t \<Rightarrow> string list \<Rightarrow> (string, nat list) js_map_t \<times> string list" where
  "register_ids cb [] cbs new = (cbs, new)"
| "register_ids cb (i # ids) cbs new =
     (case map_get cbs i of
        None \<Rightarrow> register_ids cb ids (map_set i (set_add cb []) cbs) (new @ [i])
      | Some fs \<Rightarrow> register_ids cb ids (map_set i (set_add cb fs) cbs) new)"

definition subscribe_rest :: "string list \<Rightarrow> nat \<Rightarrow> price_conn \<Rightarrow> price_conn" where
  "subscribe_rest priceIds cb w =
     (let (cbs, newPriceIds) = register_ids cb (map removeLeading0xIfExists priceIds) (priceFeedCallbacks w) [];
          w1 = w\<lparr>priceFeedCallbacks := cbs\<rparr> in
      case connWs w1 of
        None \<Rightarrow> w1
      | Some i \<Rightarrow> rws_send i (subscribe_message (connRequest w1) newPriceIds) False w1)"

definition subscribePriceFeedUpdates :: "string list \<Rightarrow> nat \<Rightarrow> price_conn \<Rightarrow> price_conn" where
  "subscribePriceFeedUpdates priceIds cb w =
     (if connWs w = None then spawn (SubscribeRest priceIds cb) (conn_startWebSocket w) else subscribe_rest priceIds cb w)"

fun remove_ids :: "nat option \<Rightarrow> string list \<Rightarrow> (string, nat list) js_map_t \<Rightarrow> string list \<Rightarrow> (string, nat list) js_map_t \<times> string list" where
  "remove_ids cb [] cbs removed = (cbs, removed)"
| "remove_ids cb (i # ids) cbs removed =
     (case map_get cbs i of
        None \<Rightarrow> remove_ids cb ids cbs removed
      | Some fs \<Rightarrow>
          (case cb of
             None \<Rightarrow> remove_ids cb ids (map_delete i cbs) (removed @ [i])
           | Some f \<Rightarrow>
               (let fs' = filter (\<lambda>g. g \<noteq> f) fs; cbs' = map_set i fs' cbs in
                if fs' = [] then remove_ids cb ids (map_delete i cbs') (removed @ [i]) else remove_ids cb ids cbs' removed)))"

definition unsubscribe_rest :: "string list \<Rightarrow> nat option \<Rightarrow> price_conn \<Rightarrow> price_conn" where
  "unsubscribe_rest priceIds cb w =
     (let (cbs, removedPriceIds) = remove_ids cb (map removeLeading0xIfExists priceIds) (priceFeedCallbacks w) [];
          w1 = w\<lparr>priceFeedCallbacks := cbs\<rparr> in
      case connWs w1 of
        None \<Rightarrow> spawn CheckEmpty w1
      | Some i \<Rightarrow> rws_send i (unsubscribe_message removedPriceIds) True w1)"

definition unsubscribePriceFeedUpdates :: "string list \<Rightarrow> nat option \<Rightarrow> price_conn \<Rightarrow> price_conn" where
  "unsubscribePriceFeedUpdates priceIds cb w =
     (if connWs w = None then spawn (UnsubscribeRest priceIds cb) (conn_startWebSocket w) else unsubscribe_rest priceIds cb w)"

text \<open>The handler of messages.  \<open>parse\<close> is \<^verbatim>\<open>JSON.parse\<close>.  A message that is \<^verbatim>\<open>null\<close> has no \<^verbatim>\<open>type\<close> to read: the exception leaves the handler.\<close>

definition conn_onMessage :: "(string \<Rightarrow> json outcome) \<Rightarrow> schema_text \<Rightarrow> string \<Rightarrow> price_conn \<Rightarrow> price_conn" where
  "conn_onMessage parse tx data w =
     (case parse data of
        Inl e \<Rightarrow> onWsError e w
      | Inr message \<Rightarrow>
          (case get_prop ''type'' message of
             Inl e \<Rightarrow> w\<lparr>connErrors := connErrors w @ [UncaughtError e]\<rparr>
           | Inr t \<Rightarrow>
               if t = JStr ''response'' then
                 (if own_prop ''status'' message = JStr ''error'' then onWsError (mk_error (str_field (own_prop ''error'' message))) w else w)
               else if t = JStr ''price_update'' then
                 (case PriceFeed_fromJson tx (own_prop ''price_feed'' message) of
                    Inl e \<Rightarrow> onWsError e w
                  | Inr priceFeed \<Rightarrow>
                      (case map_get (priceFeedCallbacks w) (feedId priceFeed) of
                         None \<Rightarrow> w
                       | Some cbs \<Rightarrow> w\<lparr>cbCalls := cbCalls w @ map (\<lambda>cb. (cb, priceFeed)) cbs\<rparr>))
               else w))"

subsection \<open>Resuming a task\<close>

definition check_empty :: "price_conn \<Rightarrow> price_conn" where
  "check_empty w = (if priceFeedCallbacks w = [] then conn_closeWebSocket w else w)"

text \<open>The rest of \<^verbatim>\<open>send\<close> after the wait; \<open>send_connecting\<close> below shows that the socket is never connecting here, so \<^verbatim>\<open>send\<close> does not throw.\<close>

definition send_rest :: "nat \<Rightarrow> ClientMessage \<Rightarrow> bool \<Rightarrow> price_conn \<Rightarrow> price_conn" where
  "send_rest i m thenCheck w =
     (let w1 = (case wsClient (ws_at w i) of None \<Rightarrow> w | Some k \<Rightarrow> sock_send k m w) in if thenCheck then check_empty w1 else w1)"

definition restart_rest :: "nat \<Rightarrow> price_conn \<Rightarrow> price_conn" where
  "restart_rest i w = (case wsClient (ws_at w i) of None \<Rightarrow> w | Some k \<Rightarrow> conn_onReconnect w)"

fun resume :: "conn_task \<Rightarrow> price_conn \<Rightarrow> price_conn" where
  "resume (SendWait i m waitedTime c) w =
     (case wait_round i waitedTime w of
        WaitOver \<Rightarrow> send_rest i m c w
      | WaitTimedOut k \<Rightarrow> send_rest i m c (sock_close k w)
      | WaitAgain \<Rightarrow> spawn (SendWait i m (waitedTime + 10) c) w)"
| "resume (RestartWait i waitedTime) w =
     (case wait_round i waitedTime w of
        WaitOver \<Rightarrow> restart_rest i w
      | WaitTimedOut k \<Rightarrow> restart_rest i (sock_close k w)
      | WaitAgain \<Rightarrow> spawn (RestartWait i (waitedTime + 10)) w)"
| "resume (BackoffSleep i ms) w = restartUnexpectedClosedWebsocket i w"
| "resume (SubscribeRest ids cb) w = subscribe_rest ids cb w"
| "resume (UnsubscribeRest ids cb) w = unsubscribe_rest ids cb w"
| "resume CheckEmpty w = check_empty w"

definition run_task :: "nat \<Rightarrow> price_conn \<Rightarrow> price_conn" where
  "run_task n w = resume (connTasks w ! n) (w\<lparr>connTasks := take n (connTasks w) @ drop (Suc n) (connTasks w)\<rparr>)"

subsection \<open>Steps\<close>

record conn_env =
  envNode :: bool
  envParse :: "string \<Rightarrow> json outcome"
  envText :: schema_text

datatype conn_event =
    USubscribe "string list" nat
  | UUnsubscribe "string list" "nat option"
  | UStart
  | UClose
  | NOpened nat
  | NClosed nat
  | NError nat js_error
  | NMessage nat string
  | NPing nat
  | PingExpired nat
  | Resume nat

inductive conn_step :: "conn_env \<Rightarrow> price_conn \<Rightarrow> conn_event \<Rightarrow> price_conn \<Rightarrow> bool" for env :: conn_env where
  subscribe: "conn_step env w (USubscribe ids cb) (subscribePriceFeedUpdates ids cb w)"
| unsubscribe: "conn_step env w (UUnsubscribe ids cb) (unsubscribePriceFeedUpdates ids cb w)"
| start: "conn_step env w UStart (conn_startWebSocket w)"
| close: "conn_step env w UClose (conn_closeWebSocket w)"
| opened: "k < length (wsSockets w) \<Longrightarrow> readyState (sock_at w k) = CONNECTING \<Longrightarrow>
     conn_step env w (NOpened k) (rws_onopen (envNode env) (sockOwner (sock_at w k)) (upd_sock k (\<lambda>s. s\<lparr>readyState := OPEN\<rparr>) w))"
| closed: "k < length (wsSockets w) \<Longrightarrow> readyState (sock_at w k) \<noteq> CLOSED \<Longrightarrow>
     conn_step env w (NClosed k) (rws_onclose (sockOwner (sock_at w k)) (upd_sock k (\<lambda>s. s\<lparr>readyState := CLOSED\<rparr>) w))"
| error: "k < length (wsSockets w) \<Longrightarrow> conn_step env w (NError k e) (onWsError e w)"
| message: "k < length (wsSockets w) \<Longrightarrow> readyState (sock_at w k) \<in> {OPEN, CLOSING} \<Longrightarrow>
     conn_step env w (NMessage k data) (conn_onMessage (envParse env) (envText env) data w)"
| ping: "k < length (wsSockets w) \<Longrightarrow> readyState (sock_at w k) \<in> {OPEN, CLOSING} \<Longrightarrow> envNode env \<Longrightarrow>
     conn_step env w (NPing k) (heartbeat (sockOwner (sock_at w k)) w)"
| expired: "i < length (wsObjects w) \<Longrightarrow> pingTimeout (ws_at w i) \<Longrightarrow> conn_step env w (PingExpired i) (ping_expired i w)"
| resumed: "n < length (connTasks w) \<Longrightarrow> conn_step env w (Resume n) (run_task n w)"

inductive conn_run :: "conn_env \<Rightarrow> price_conn \<Rightarrow> conn_event list \<Rightarrow> price_conn \<Rightarrow> bool" for env :: conn_env where
  stop: "conn_run env w [] w"
| go_on: "conn_run env w es w1 \<Longrightarrow> conn_step env w1 e w2 \<Longrightarrow> conn_run env w (es @ [e]) w2"

inductive_cases conn_stepE: "conn_step env w e w'"

text \<open>
  \<^verbatim>\<open>startWebSocket\<close> is public, for a user who wants the connection before the first subscription.  A careful user does not call it on a connection that
  is started already.
\<close>

fun careful_event :: "price_conn \<Rightarrow> conn_event \<Rightarrow> bool" where
  "careful_event w UStart \<longleftrightarrow> connWs w = None"
| "careful_event w _ \<longleftrightarrow> True"

inductive careful_run :: "conn_env \<Rightarrow> price_conn \<Rightarrow> conn_event list \<Rightarrow> price_conn \<Rightarrow> bool" for env :: conn_env where
  careful_stop: "careful_run env w [] w"
| careful_go_on: "careful_run env w es w1 \<Longrightarrow> conn_step env w1 e w2 \<Longrightarrow> careful_event w1 e \<Longrightarrow> careful_run env w (es @ [e]) w2"

lemma careful_run_is_run: "careful_run env w es w' \<Longrightarrow> conn_run env w es w'"
  by (induction rule: careful_run.induct) (auto intro: conn_run.intros)

subsection \<open>No connection leaks\<close>

text \<open>
  The invariant: only the current object is not closed by its user; every socket that is not closed is the one its object holds, or is on its way out
  after the user closed; and an object without a socket that should have one sleeps before the next attempt.
\<close>

definition view_ok :: "nat option \<Rightarrow> nat \<Rightarrow> (nat \<Rightarrow> nat option) \<Rightarrow> (nat \<Rightarrow> bool) \<Rightarrow> nat \<Rightarrow> (nat \<Rightarrow> ready_state) \<Rightarrow> (nat \<Rightarrow> nat) \<Rightarrow> bool" where
  "view_ok cur n cl uc m st ow \<longleftrightarrow>
     (\<forall>i. cur = Some i \<longrightarrow> i < n \<and> \<not> uc i) \<and>
     (\<forall>j < n. cur \<noteq> Some j \<longrightarrow> uc j \<and> cl j = None) \<and>
     (\<forall>j < n. \<forall>k. cl j = Some k \<longrightarrow> k < m \<and> ow k = j \<and> st k \<noteq> CLOSED) \<and>
     (\<forall>k < m. ow k < n \<and> (st k \<noteq> CLOSED \<longrightarrow> cl (ow k) = Some k \<or> uc (ow k) \<and> st k = CLOSING))"

definition objects_ok :: "price_conn \<Rightarrow> bool" where
  "objects_ok w \<longleftrightarrow>
     view_ok (connWs w) (length (wsObjects w)) (\<lambda>j. wsClient (ws_at w j)) (\<lambda>j. wsUserClosed (ws_at w j))
       (length (wsSockets w)) (\<lambda>k. readyState (sock_at w k)) (\<lambda>k. sockOwner (sock_at w k))"

fun task_object :: "conn_task \<Rightarrow> nat option" where
  "task_object (SendWait i m t c) = Some i"
| "task_object (RestartWait i t) = Some i"
| "task_object (BackoffSleep i ms) = Some i"
| "task_object _ = None"

definition task_valid :: "nat \<Rightarrow> conn_task \<Rightarrow> bool" where
  "task_valid n t \<longleftrightarrow> (case task_object t of None \<Rightarrow> True | Some i \<Rightarrow> i < n)"

definition sleeps :: "price_conn \<Rightarrow> bool" where
  "sleeps w \<longleftrightarrow>
     (case connWs w of
        None \<Rightarrow> True
      | Some i \<Rightarrow> wsClient (ws_at w i) = None \<longrightarrow> (\<exists>ms. BackoffSleep i ms \<in> set (connTasks w)))"

text \<open>\<open>conn_pre\<close> is what holds while a handler runs, \<open>conn_ok\<close> what holds between two.\<close>

definition conn_pre :: "price_conn \<Rightarrow> bool" where
  "conn_pre w \<longleftrightarrow> objects_ok w \<and> list_all (task_valid (length (wsObjects w))) (connTasks w)"

definition conn_ok :: "price_conn \<Rightarrow> bool" where
  "conn_ok w \<longleftrightarrow> conn_pre w \<and> sleeps w"

lemma spawn_simps [simp]:
  "priceFeedCallbacks (spawn t w) = priceFeedCallbacks w" "connWs (spawn t w) = connWs w" "wsObjects (spawn t w) = wsObjects w"
  "wsSockets (spawn t w) = wsSockets w" "connTasks (spawn t w) = connTasks w @ [t]" "connRequest (spawn t w) = connRequest w"
  by (simp_all add: spawn_def)

lemma upd_ws_simps [simp]:
  "priceFeedCallbacks (upd_ws i f w) = priceFeedCallbacks w" "connWs (upd_ws i f w) = connWs w"
  "wsObjects (upd_ws i f w) = (wsObjects w)[i := f (ws_at w i)]"
  "wsSockets (upd_ws i f w) = wsSockets w" "connTasks (upd_ws i f w) = connTasks w" "connRequest (upd_ws i f w) = connRequest w"
  by (simp_all add: upd_ws_def)

lemma upd_sock_simps [simp]:
  "priceFeedCallbacks (upd_sock k f w) = priceFeedCallbacks w" "connWs (upd_sock k f w) = connWs w"
  "wsObjects (upd_sock k f w) = wsObjects w" "wsSockets (upd_sock k f w) = (wsSockets w)[k := f (sock_at w k)]"
  "connTasks (upd_sock k f w) = connTasks w" "connRequest (upd_sock k f w) = connRequest w"
  by (simp_all add: upd_sock_def)

lemma closing_simps [simp]: "closing s = CLOSED \<longleftrightarrow> s = CLOSED" "closing s \<noteq> OPEN" "closing s \<noteq> CONNECTING"
  "closing s = CLOSING \<longleftrightarrow> s \<noteq> CLOSED"
  by (cases s; simp)+

text \<open>The view of a state in which one object or one socket changed.\<close>

lemma view_okI [intro]:
  assumes "\<And>i. cur = Some i \<Longrightarrow> i < n \<and> \<not> uc i"
    "\<And>j. j < n \<Longrightarrow> cur \<noteq> Some j \<Longrightarrow> uc j \<and> cl j = None"
    "\<And>j k. j < n \<Longrightarrow> cl j = Some k \<Longrightarrow> k < m \<and> ow k = j \<and> st k \<noteq> CLOSED"
    "\<And>k. k < m \<Longrightarrow> ow k < n"
    "\<And>k. k < m \<Longrightarrow> st k \<noteq> CLOSED \<Longrightarrow> cl (ow k) = Some k \<or> uc (ow k) \<and> st k = CLOSING"
  shows "view_ok cur n cl uc m st ow"
  unfolding view_ok_def by (intro conjI allI impI; (rule assms | rule conjunct1[OF assms(1)] | rule conjunct2[OF assms(1)]
    | rule conjunct1[OF assms(2)] | rule conjunct2[OF assms(2)] | rule conjunct1[OF assms(3)]
    | rule conjunct1[OF conjunct2[OF assms(3)]] | rule conjunct2[OF conjunct2[OF assms(3)]]); assumption)

lemma view_okD:
  assumes "view_ok cur n cl uc m st ow"
  shows "cur = Some i \<Longrightarrow> i < n" "cur = Some i \<Longrightarrow> \<not> uc i"
    "j < n \<Longrightarrow> cur \<noteq> Some j \<Longrightarrow> uc j" "j < n \<Longrightarrow> cur \<noteq> Some j \<Longrightarrow> cl j = None"
    "j < n \<Longrightarrow> cl j = Some k \<Longrightarrow> k < m" "j < n \<Longrightarrow> cl j = Some k \<Longrightarrow> ow k = j" "j < n \<Longrightarrow> cl j = Some k \<Longrightarrow> st k \<noteq> CLOSED"
    "k < m \<Longrightarrow> ow k < n" "k < m \<Longrightarrow> st k \<noteq> CLOSED \<Longrightarrow> cl (ow k) = Some k \<or> uc (ow k) \<and> st k = CLOSING"
  using assms unfolding view_ok_def by blast+

lemma view_ok_cong:
  assumes "view_ok cur n cl uc m st ow"
    "\<And>j. j < n \<Longrightarrow> cl j = cl' j" "\<And>j. j < n \<Longrightarrow> uc j = uc' j" "\<And>k. k < m \<Longrightarrow> st k = st' k" "\<And>k. k < m \<Longrightarrow> ow k = ow' k"
  shows "view_ok cur n cl' uc' m st' ow'"
proof (rule view_okI)
  show "i < n \<and> \<not> uc' i" if "cur = Some i" for i
    using view_okD(1,2)[OF assms(1) that] assms(3) by simp
  show "uc' j \<and> cl' j = None" if "j < n" "cur \<noteq> Some j" for j
    using view_okD(3,4)[OF assms(1) that] assms(2,3)[OF that(1)] by simp
  show "k < m \<and> ow' k = j \<and> st' k \<noteq> CLOSED" if "j < n" "cl' j = Some k" for j k
    using view_okD(5-7)[OF assms(1) that(1), of k] assms(2)[OF that(1)] that(2) assms(4,5)[of k] by simp
  show "ow' k < n" if "k < m" for k
    using view_okD(8)[OF assms(1) that] assms(5)[OF that] by simp
  show "cl' (ow' k) = Some k \<or> uc' (ow' k) \<and> st' k = CLOSING" if "k < m" "st' k \<noteq> CLOSED" for k
    using view_okD(8,9)[OF assms(1) that(1)] assms(4,5)[OF that(1)] assms(2,3)[of "ow k"] that(2) by simp
qed

lemma nth_update_if: "j < length xs \<Longrightarrow> xs[i := x] ! j = (if j = i then x else xs ! j)"
  by (cases "i = j") simp_all

lemma objects_okI:
  assumes "view_ok (connWs w) (length (wsObjects w)) cl uc (length (wsSockets w)) st ow"
    "\<And>j. j < length (wsObjects w) \<Longrightarrow> wsClient (ws_at w j) = cl j" "\<And>j. j < length (wsObjects w) \<Longrightarrow> wsUserClosed (ws_at w j) = uc j"
    "\<And>k. k < length (wsSockets w) \<Longrightarrow> readyState (sock_at w k) = st k" "\<And>k. k < length (wsSockets w) \<Longrightarrow> sockOwner (sock_at w k) = ow k"
  shows "objects_ok w"
  unfolding objects_ok_def by (rule view_ok_cong[OF assms(1)]) (simp_all add: assms(2-5))

text \<open>How the invariant survives the six kinds of change.\<close>

lemma view_drop_socket:
  assumes "view_ok cur n cl uc m st ow" "k < m" "cl (ow k) = Some k" "s \<noteq> CLOSED"
  shows "view_ok cur n cl uc m (st(k := s)) ow"
  using view_okD[OF assms(1)] assms(2-4) by (intro view_okI; metis fun_upd_apply)

lemma view_closed_user:
  assumes "view_ok cur n cl uc m st ow" "k < m" "st k \<noteq> CLOSED" "uc (ow k)"
  shows "view_ok cur n cl uc m (st(k := CLOSED)) ow"
  using view_okD[OF assms(1)] assms(2-4) by (intro view_okI; metis fun_upd_apply option.distinct(1))

lemma view_closed_socket:
  assumes "view_ok cur n cl uc m st ow" "k < m" "st k \<noteq> CLOSED" "\<not> uc (ow k)"
  shows "view_ok cur n (cl(ow k := None)) uc m (st(k := CLOSED)) ow"
  using view_okD[OF assms(1)] assms(2-4) by (intro view_okI; metis fun_upd_apply option.distinct(1) option.inject)

lemma view_new_socket:
  assumes "view_ok (Some i) n cl uc m st ow" "cl i = None"
  shows "view_ok (Some i) n (cl(i := Some m)) (uc(i := False)) (Suc m) (st(m := CONNECTING)) (ow(m := i))"
  using view_okD[OF assms(1)] assms(2)
  by (intro view_okI; metis fun_upd_apply option.distinct(1) option.inject less_Suc_eq ready_state.distinct(5) nat_neq_iff)

lemma view_user_close_none:
  assumes "view_ok (Some i) n cl uc m st ow" "cl i = None"
  shows "view_ok None n cl (uc(i := True)) m st ow"
  using view_okD[OF assms(1)] assms(2)
  by (intro view_okI; metis fun_upd_apply option.distinct(1) option.inject)

lemma view_user_close:
  assumes "view_ok (Some i) n cl uc m st ow" "cl i = Some k"
  shows "view_ok None n (cl(i := None)) (uc(i := True)) m (st(k := closing (st k))) ow"
  using view_okD[OF assms(1)] assms(2)
  by (intro view_okI; metis fun_upd_apply option.distinct(1) option.inject closing_simps)

lemma view_new_object:
  assumes "view_ok None n cl uc m st ow"
  shows "view_ok (Some n) (Suc n) (cl(n := Some m)) (uc(n := False)) (Suc m) (st(m := CONNECTING)) (ow(m := n))"
  using view_okD[OF assms(1)]
  by (intro view_okI; metis fun_upd_apply option.distinct(1) option.inject less_Suc_eq ready_state.distinct(5) nat_neq_iff)

text \<open>The same for states.\<close>

lemma conn_ok_cong:
  assumes "conn_ok w" "connWs w' = connWs w" "wsObjects w' = wsObjects w" "wsSockets w' = wsSockets w" "connTasks w' = connTasks w"
  shows "conn_ok w'"
  using assms by (simp add: conn_ok_def conn_pre_def objects_ok_def sleeps_def split: option.splits)

lemma conn_pre_spawn: "conn_pre w \<Longrightarrow> task_valid (length (wsObjects w)) t \<Longrightarrow> conn_pre (spawn t w)"
  by (simp add: conn_pre_def objects_ok_def)

lemma conn_ok_spawn: "conn_ok w \<Longrightarrow> task_valid (length (wsObjects w)) t \<Longrightarrow> conn_ok (spawn t w)"
  unfolding conn_ok_def by (auto intro: conn_pre_spawn simp: sleeps_def split: option.splits)

lemma conn_pre_current: "conn_pre w \<Longrightarrow> connWs w = Some i \<Longrightarrow> i < length (wsObjects w) \<and> \<not> wsUserClosed (ws_at w i)"
  unfolding conn_pre_def objects_ok_def using view_okD(1,2) by fast

lemma conn_pre_other: "conn_pre w \<Longrightarrow> j < length (wsObjects w) \<Longrightarrow> connWs w \<noteq> Some j \<Longrightarrow> wsUserClosed (ws_at w j) \<and> wsClient (ws_at w j) = None"
  unfolding conn_pre_def objects_ok_def using view_okD(3,4) by fast

lemma conn_pre_held:
  "conn_pre w \<Longrightarrow> j < length (wsObjects w) \<Longrightarrow> wsClient (ws_at w j) = Some k \<Longrightarrow>
     k < length (wsSockets w) \<and> sockOwner (sock_at w k) = j \<and> readyState (sock_at w k) \<noteq> CLOSED"
  unfolding conn_pre_def objects_ok_def using view_okD(5-7) by fast

lemma conn_pre_owned: "conn_pre w \<Longrightarrow> k < length (wsSockets w) \<Longrightarrow> sockOwner (sock_at w k) < length (wsObjects w)"
  unfolding conn_pre_def objects_ok_def using view_okD(8) by fast

lemma conn_pre_live:
  "conn_pre w \<Longrightarrow> k < length (wsSockets w) \<Longrightarrow> readyState (sock_at w k) \<noteq> CLOSED \<Longrightarrow>
     wsClient (ws_at w (sockOwner (sock_at w k))) = Some k \<or>
     wsUserClosed (ws_at w (sockOwner (sock_at w k))) \<and> readyState (sock_at w k) = CLOSING"
  unfolding conn_pre_def objects_ok_def using view_okD(9) by fast

lemma conn_pre_upd_ws:
  assumes "conn_pre w" "wsClient (f (ws_at w i)) = wsClient (ws_at w i)" "wsUserClosed (f (ws_at w i)) = wsUserClosed (ws_at w i)"
  shows "conn_pre (upd_ws i f w)"
proof -
  have "view_ok (connWs w) (length (wsObjects w)) (\<lambda>j. wsClient (ws_at w j)) (\<lambda>j. wsUserClosed (ws_at w j))
      (length (wsSockets w)) (\<lambda>k. readyState (sock_at w k)) (\<lambda>k. sockOwner (sock_at w k))"
    using assms(1) by (simp add: conn_pre_def objects_ok_def)
  then have "objects_ok (upd_ws i f w)"
    using assms(2,3) by (intro objects_okI[rotated]) (auto simp: nth_update_if)
  then show ?thesis using assms(1) by (simp add: conn_pre_def)
qed

lemma sleeps_upd_ws:
  assumes "sleeps w" "wsClient (f (ws_at w i)) = wsClient (ws_at w i)"
  shows "sleeps (upd_ws i f w)"
  using assms by (cases "i < length (wsObjects w)") (auto simp: sleeps_def nth_list_update list_update_beyond split: option.splits if_splits)

lemma conn_ok_upd_ws:
  "conn_ok w \<Longrightarrow> wsClient (f (ws_at w i)) = wsClient (ws_at w i) \<Longrightarrow> wsUserClosed (f (ws_at w i)) = wsUserClosed (ws_at w i) \<Longrightarrow> conn_ok (upd_ws i f w)"
  by (simp add: conn_ok_def conn_pre_upd_ws sleeps_upd_ws)

lemma conn_ok_upd_sock:
  assumes "conn_ok w" "k < length (wsSockets w)" "sockOwner (f (sock_at w k)) = sockOwner (sock_at w k)"
    "readyState (f (sock_at w k)) = readyState (sock_at w k) \<or>
     wsClient (ws_at w (sockOwner (sock_at w k))) = Some k \<and> readyState (f (sock_at w k)) \<noteq> CLOSED"
  shows "conn_ok (upd_sock k f w)"
proof -
  have "view_ok (connWs w) (length (wsObjects w)) (\<lambda>j. wsClient (ws_at w j)) (\<lambda>j. wsUserClosed (ws_at w j))
       (length (wsSockets w)) ((\<lambda>k. readyState (sock_at w k))(k := readyState (f (sock_at w k)))) (\<lambda>k. sockOwner (sock_at w k))"
    using assms(4)
  proof
    assume "readyState (f (sock_at w k)) = readyState (sock_at w k)"
    then show ?thesis using assms(1) by (simp add: fun_upd_idem conn_ok_def conn_pre_def objects_ok_def)
  next
    assume "wsClient (ws_at w (sockOwner (sock_at w k))) = Some k \<and> readyState (f (sock_at w k)) \<noteq> CLOSED"
    then show ?thesis
      using assms(1,2) by (intro view_drop_socket) (simp_all add: conn_ok_def conn_pre_def objects_ok_def)
  qed
  then have "objects_ok (upd_sock k f w)"
    using assms(2,3) by (intro objects_okI[rotated]) (auto simp: nth_update_if)
  then show ?thesis
    using assms(1) by (auto simp: conn_ok_def conn_pre_def sleeps_def split: option.splits)
qed

lemma conn_ok_sock_close:
  "conn_ok w \<Longrightarrow> i < length (wsObjects w) \<Longrightarrow> wsClient (ws_at w i) = Some k \<Longrightarrow> conn_ok (sock_close k w)"
  unfolding sock_close_def using conn_pre_held[of w i k] by (intro conn_ok_upd_sock) (auto simp: conn_ok_def)

lemma conn_ok_sock_send:
  "conn_ok w \<Longrightarrow> i < length (wsObjects w) \<Longrightarrow> wsClient (ws_at w i) = Some k \<Longrightarrow> conn_ok (sock_send k m w)"
  unfolding sock_send_def using conn_pre_held[of w i k] by (intro conn_ok_upd_sock) (auto simp: conn_ok_def)

text \<open>A new socket for the current object: afterwards nothing has to sleep.\<close>

lemma conn_ok_start:
  assumes "conn_pre w" "connWs w = Some i"
  shows "conn_ok (rws_startWebSocket i w)"
proof (cases "wsClient (ws_at w i)")
  case None
  have i: "i < length (wsObjects w)" using conn_pre_current[OF assms] by simp
  have "view_ok (Some i) (length (wsObjects w)) ((\<lambda>j. wsClient (ws_at w j))(i := Some (length (wsSockets w)))) ((\<lambda>j. wsUserClosed (ws_at w j))(i := False))
      (Suc (length (wsSockets w))) ((\<lambda>k. readyState (sock_at w k))(length (wsSockets w) := CONNECTING)) ((\<lambda>k. sockOwner (sock_at w k))(length (wsSockets w) := i))"
    using assms None by (intro view_new_socket) (simp_all add: conn_pre_def objects_ok_def)
  then have "objects_ok (rws_startWebSocket i w)"
    using assms None by (intro objects_okI[rotated]) (auto simp: rws_startWebSocket_def nth_list_update nth_append less_Suc_eq)
  then show ?thesis
    using assms i None by (simp add: rws_startWebSocket_def conn_ok_def conn_pre_def sleeps_def)
next
  case (Some k)
  then show ?thesis
    using assms by (simp add: rws_startWebSocket_def conn_ok_def sleeps_def)
qed

lemma conn_ok_restart:
  assumes "conn_pre w" "i < length (wsObjects w)" "connWs w = Some i \<or> conn_ok w"
  shows "conn_ok (restartUnexpectedClosedWebsocket i w)"
proof (cases "connWs w = Some i")
  case True
  have "length (wsObjects (rws_startWebSocket i w)) = length (wsObjects w)"
    by (simp add: rws_startWebSocket_def)
  then show ?thesis
    using conn_pre_current[OF assms(1) True] conn_ok_start[OF assms(1) True] assms(2)
    by (simp add: restartUnexpectedClosedWebsocket_def conn_ok_spawn task_valid_def)
next
  case False
  then show ?thesis
    using conn_pre_other[OF assms(1,2) False] assms(3) by (simp add: restartUnexpectedClosedWebsocket_def)
qed

lemma conn_start_simps [simp]:
  "connWs (conn_startWebSocket w) = Some (length (wsObjects w))" "priceFeedCallbacks (conn_startWebSocket w) = priceFeedCallbacks w"
  "wsObjects (conn_startWebSocket w) = wsObjects w @ [\<lparr>wsClient = Some (length (wsSockets w)), wsUserClosed = False, wsFailedAttempts = 0, pingTimeout = False\<rparr>]"
  "wsSockets (conn_startWebSocket w) = wsSockets w @ [\<lparr>readyState = CONNECTING, sockOwner = length (wsObjects w), sentData = []\<rparr>]"
  "connTasks (conn_startWebSocket w) = connTasks w" "connRequest (conn_startWebSocket w) = connRequest w"
  by (simp_all add: conn_startWebSocket_def rws_startWebSocket_def rws_new_def Let_def)

lemma conn_ok_restart': "conn_ok w \<Longrightarrow> i < length (wsObjects w) \<Longrightarrow> conn_ok (restartUnexpectedClosedWebsocket i w)"
  using conn_ok_restart[of w i] by (simp add: conn_ok_def)

lemma conn_ok_new_object:
  assumes "conn_ok w" "connWs w = None"
  shows "conn_ok (conn_startWebSocket w)"
proof -
  let ?n = "length (wsObjects w)" and ?m = "length (wsSockets w)"
  have "view_ok (Some ?n) (Suc ?n) ((\<lambda>j. wsClient (ws_at w j))(?n := Some ?m)) ((\<lambda>j. wsUserClosed (ws_at w j))(?n := False))
      (Suc ?m) ((\<lambda>k. readyState (sock_at w k))(?m := CONNECTING)) ((\<lambda>k. sockOwner (sock_at w k))(?m := ?n))"
    using assms by (intro view_new_object) (simp add: conn_ok_def conn_pre_def objects_ok_def)
  then have "objects_ok (conn_startWebSocket w)"
    by (intro objects_okI[rotated]) (auto simp: nth_append less_Suc_eq)
  moreover have "list_all (task_valid (Suc ?n)) (connTasks w)"
    using assms(1) by (auto simp: conn_ok_def conn_pre_def list_all_iff task_valid_def split: option.splits)
  ultimately show ?thesis
    by (simp add: conn_ok_def conn_pre_def sleeps_def)
qed

lemma conn_ok_close:
  assumes "conn_ok w"
  shows "conn_ok (conn_closeWebSocket w)"
proof (cases "connWs w")
  case None
  then show ?thesis
    using assms by - (rule conn_ok_cong[of w], simp_all add: conn_closeWebSocket_def)
next
  case (Some i)
  let ?w = "conn_closeWebSocket w"
  have v: "view_ok (Some i) (length (wsObjects w)) (\<lambda>j. wsClient (ws_at w j)) (\<lambda>j. wsUserClosed (ws_at w j))
      (length (wsSockets w)) (\<lambda>k. readyState (sock_at w k)) (\<lambda>k. sockOwner (sock_at w k))"
    using assms Some by (simp add: conn_ok_def conn_pre_def objects_ok_def)
  have i: "i < length (wsObjects w)" using view_okD(1)[OF v] by simp
  have "objects_ok ?w"
  proof (cases "wsClient (ws_at w i)")
    case None
    show ?thesis
      using view_user_close_none[OF v None] Some None
      by (intro objects_okI[rotated]) (auto simp: conn_closeWebSocket_def rws_closeWebSocket_def nth_update_if)
  next
    case (Some k)
    show ?thesis
      using view_user_close[OF v Some] \<open>connWs w = Some i\<close> Some i
      by (intro objects_okI[rotated]) (auto simp: conn_closeWebSocket_def rws_closeWebSocket_def sock_close_def nth_update_if)
  qed
  then show ?thesis
    using assms Some
    by (simp add: conn_ok_def conn_pre_def sleeps_def conn_closeWebSocket_def rws_closeWebSocket_def sock_close_def split: option.splits)
qed

lemma conn_ok_onclose:
  assumes "conn_ok w" "k < length (wsSockets w)" "readyState (sock_at w k) \<noteq> CLOSED"
  shows "conn_ok (rws_onclose (sockOwner (sock_at w k)) (upd_sock k (\<lambda>s. s\<lparr>readyState := CLOSED\<rparr>) w))"
proof -
  let ?i = "sockOwner (sock_at w k)"
  let ?w = "rws_onclose ?i (upd_sock k (\<lambda>s. s\<lparr>readyState := CLOSED\<rparr>) w)"
  have v: "view_ok (connWs w) (length (wsObjects w)) (\<lambda>j. wsClient (ws_at w j)) (\<lambda>j. wsUserClosed (ws_at w j))
      (length (wsSockets w)) (\<lambda>k. readyState (sock_at w k)) (\<lambda>k. sockOwner (sock_at w k))"
    using assms by (simp add: conn_ok_def conn_pre_def objects_ok_def)
  have i: "?i < length (wsObjects w)" using view_okD(8)[OF v assms(2)] .
  show ?thesis
  proof (cases "wsUserClosed (ws_at w ?i)")
    case True
    have "objects_ok ?w"
      using view_closed_user[OF v assms(2,3) True] i True
      by (intro objects_okI[rotated]) (auto simp: rws_onclose_def nth_update_if)
    then show ?thesis
      using assms(1) i True by (auto simp: conn_ok_def conn_pre_def rws_onclose_def sleeps_def nth_update_if list_all_iff nth_list_update split: option.splits)
  next
    case False
    have "objects_ok ?w"
      using view_closed_socket[OF v assms(2,3) False] i False
      by (intro objects_okI[rotated]) (auto simp: rws_onclose_def Let_def nth_update_if)
    then show ?thesis
      using assms(1) i False
      by (auto simp: conn_ok_def conn_pre_def rws_onclose_def Let_def sleeps_def nth_list_update task_valid_def split: option.splits)
  qed
qed

lemma conn_ok_messages:
  "conn_ok w \<Longrightarrow> conn_ok (onWsError e w)" "conn_ok w \<Longrightarrow> conn_ok (conn_onMessage parse tx d w)"
  by (rule conn_ok_cong[of w]; simp add: onWsError_def conn_onMessage_def split: sum.splits option.splits)+

lemma conn_ok_send: "conn_ok w \<Longrightarrow> i < length (wsObjects w) \<Longrightarrow> conn_ok (rws_send i m c w)"
  by (simp add: rws_send_def conn_ok_spawn task_valid_def)

lemma conn_ok_current: "conn_ok w \<Longrightarrow> connWs w = Some i \<Longrightarrow> i < length (wsObjects w)"
  using conn_pre_current by (auto simp: conn_ok_def)

lemma conn_ok_subscribe_rest: "conn_ok w \<Longrightarrow> conn_ok (subscribe_rest ids cb w)"
proof -
  assume w: "conn_ok w"
  obtain cbs new where r: "register_ids cb (map removeLeading0xIfExists ids) (priceFeedCallbacks w) [] = (cbs, new)" by fastforce
  have "conn_ok (w\<lparr>priceFeedCallbacks := cbs\<rparr>)" by (rule conn_ok_cong[OF w]) simp_all
  then show ?thesis
    using conn_ok_current[OF w] by (auto simp: subscribe_rest_def r Let_def intro!: conn_ok_send split: option.splits)
qed

lemma conn_ok_unsubscribe_rest: "conn_ok w \<Longrightarrow> conn_ok (unsubscribe_rest ids cb w)"
proof -
  assume w: "conn_ok w"
  obtain cbs rm where r: "remove_ids cb (map removeLeading0xIfExists ids) (priceFeedCallbacks w) [] = (cbs, rm)" by fastforce
  have "conn_ok (w\<lparr>priceFeedCallbacks := cbs\<rparr>)" by (rule conn_ok_cong[OF w]) simp_all
  then show ?thesis
    using conn_ok_current[OF w] by (auto simp: unsubscribe_rest_def r task_valid_def Let_def intro!: conn_ok_send conn_ok_spawn split: option.splits)
qed

lemma conn_ok_check_empty: "conn_ok w \<Longrightarrow> conn_ok (check_empty w)"
  by (simp add: check_empty_def conn_ok_close)

lemma conn_ok_send_rest:
  assumes "conn_ok w" "i < length (wsObjects w)"
  shows "conn_ok (send_rest i m c w)"
proof -
  have "conn_ok (case wsClient (ws_at w i) of None \<Rightarrow> w | Some k \<Rightarrow> sock_send k m w)"
    using assms by (auto intro: conn_ok_sock_send split: option.splits)
  then show ?thesis by (simp add: send_rest_def conn_ok_check_empty Let_def)
qed

lemma conn_ok_reconnect: "conn_ok w \<Longrightarrow> conn_ok (conn_onReconnect w)"
  using conn_ok_current by (auto simp: conn_onReconnect_def intro: conn_ok_send split: option.splits)

lemma wait_timed_out: "wait_round i t w = WaitTimedOut k \<longleftrightarrow> wsClient (ws_at w i) = Some k \<and> readyState (sock_at w k) \<noteq> OPEN \<and> t > 5000"
  by (auto simp: wait_round_def split: option.splits)

lemma sock_close_simps [simp]:
  "connWs (sock_close k w) = connWs w" "wsObjects (sock_close k w) = wsObjects w" "priceFeedCallbacks (sock_close k w) = priceFeedCallbacks w"
  "connTasks (sock_close k w) = connTasks w" "connRequest (sock_close k w) = connRequest w"
  by (simp_all add: sock_close_def)

lemma conn_ok_resume:
  assumes pre: "conn_pre w" and valid: "task_valid (length (wsObjects w)) t" and ok: "conn_ok w \<or> (\<exists>i ms. connWs w = Some i \<and> t = BackoffSleep i ms)"
  shows "conn_ok (resume t w)"
proof (cases t)
  case (SendWait i m t' c)
  then have "conn_ok w" "i < length (wsObjects w)" using ok valid by (auto simp: task_valid_def)
  then show ?thesis
    using SendWait conn_ok_sock_close[of w i]
    by (auto simp: wait_timed_out task_valid_def intro!: conn_ok_send_rest conn_ok_spawn split: wait_result.splits)
next
  case (RestartWait i t')
  then have *: "conn_ok w" "i < length (wsObjects w)" using ok valid by (auto simp: task_valid_def)
  have "conn_ok (restart_rest i w')" if "conn_ok w'" for w'
    using that by (auto simp: restart_rest_def intro: conn_ok_reconnect split: option.splits)
  then show ?thesis
    using RestartWait * conn_ok_sock_close[of w i]
    by (auto simp: wait_timed_out task_valid_def intro!: conn_ok_spawn split: wait_result.splits)
next
  case (BackoffSleep i ms)
  then show ?thesis
    using pre valid ok by (auto simp: task_valid_def intro!: conn_ok_restart)
qed (use ok in \<open>auto intro: conn_ok_subscribe_rest conn_ok_unsubscribe_rest conn_ok_check_empty\<close>)

lemma task_taken:
  assumes "conn_ok w" "n < length (connTasks w)"
  defines "t \<equiv> connTasks w ! n" and "w0 \<equiv> w\<lparr>connTasks := take n (connTasks w) @ drop (Suc n) (connTasks w)\<rparr>"
  shows "conn_pre w0" "task_valid (length (wsObjects w0)) t" "conn_ok w0 \<or> (\<exists>i ms. connWs w0 = Some i \<and> t = BackoffSleep i ms)"
    "set (connTasks w) = insert t (set (connTasks w0))"
proof -
  have ts: "connTasks w = take n (connTasks w) @ t # drop (Suc n) (connTasks w)"
    unfolding t_def using assms(2) by (rule id_take_nth_drop)
  show sets: "set (connTasks w) = insert t (set (connTasks w0))"
    using arg_cong[OF ts, of set] by (simp add: w0_def)
  have v: "list_all (task_valid (length (wsObjects w))) (take n (connTasks w) @ t # drop (Suc n) (connTasks w))"
    using assms(1) by (simp add: conn_ok_def conn_pre_def flip: ts)
  then show pre: "conn_pre w0"
    using assms(1) by (simp add: conn_ok_def conn_pre_def objects_ok_def w0_def)
  show "task_valid (length (wsObjects w0)) t" using v by (simp add: w0_def)
  have "sleeps w0 \<or> (\<exists>i ms. connWs w0 = Some i \<and> t = BackoffSleep i ms)"
  proof (cases "connWs w")
    case (Some i)
    then show ?thesis
      using assms(1) sets by (auto simp: conn_ok_def sleeps_def w0_def dest: sym)
  qed (simp add: sleeps_def w0_def)
  then show "conn_ok w0 \<or> (\<exists>i ms. connWs w0 = Some i \<and> t = BackoffSleep i ms)"
    using pre by (auto simp: conn_ok_def)
qed

lemma conn_ok_run_task: "conn_ok w \<Longrightarrow> n < length (connTasks w) \<Longrightarrow> conn_ok (run_task n w)"
  unfolding run_task_def by (rule conn_ok_resume; use task_taken[of w n] in simp)

lemma conn_ok_step: "conn_step env w e w' \<Longrightarrow> careful_event w e \<Longrightarrow> conn_ok w \<Longrightarrow> conn_ok w'"
proof (induction rule: conn_step.induct)
  case (subscribe w ids cb)
  then show ?case
    by (auto simp: subscribePriceFeedUpdates_def task_valid_def intro!: conn_ok_spawn conn_ok_new_object conn_ok_subscribe_rest)
next
  case (unsubscribe w ids cb)
  then show ?case
    by (auto simp: unsubscribePriceFeedUpdates_def task_valid_def intro!: conn_ok_spawn conn_ok_new_object conn_ok_unsubscribe_rest)
next
  case (opened k w)
  then have "conn_ok (upd_sock k (\<lambda>s. s\<lparr>readyState := OPEN\<rparr>) w)"
    using conn_pre_live[of w k] by (intro conn_ok_upd_sock) (auto simp: conn_ok_def)
  then show ?case
    by (auto simp: rws_onopen_def heartbeat_def Let_def intro!: conn_ok_upd_ws)
next
  case (expired i w)
  have "conn_ok (upd_ws i (\<lambda>r. r\<lparr>pingTimeout := False\<rparr>) w)"
    using expired by (intro conn_ok_upd_ws) auto
  then have "conn_ok (case wsClient (ws_at w i) of None \<Rightarrow> upd_ws i (\<lambda>r. r\<lparr>pingTimeout := False\<rparr>) w
      | Some k \<Rightarrow> sock_close k (upd_ws i (\<lambda>r. r\<lparr>pingTimeout := False\<rparr>) w))"
    using expired(1) by (auto intro!: conn_ok_sock_close[of _ i] split: option.splits)
  then show ?case
    using expired(1) by (auto simp: ping_expired_def Let_def intro!: conn_ok_restart' split: option.splits)
qed (auto intro: conn_ok_close conn_ok_onclose conn_ok_messages conn_ok_run_task conn_ok_upd_ws conn_ok_new_object simp: heartbeat_def)

lemma conn_ok_new: "conn_ok (conn_new config)"
  by (auto simp: conn_ok_def conn_pre_def objects_ok_def sleeps_def conn_new_def)

lemma conn_ok_run: "careful_run env w es w' \<Longrightarrow> conn_ok w \<Longrightarrow> conn_ok w'"
  by (induction rule: careful_run.induct) (auto intro: conn_ok_step)

fun alive :: "ready_state \<Rightarrow> bool" where
  "alive CONNECTING = True"
| "alive OPEN = True"
| "alive _ = False"

lemma alive_simps [simp]: "\<not> alive (closing s)" "alive s \<Longrightarrow> s \<noteq> CLOSED" "alive s \<Longrightarrow> s \<noteq> CLOSING"
  by (cases s; simp)+

definition current_socket :: "price_conn \<Rightarrow> nat option" where
  "current_socket w = Option.bind (connWs w) (\<lambda>i. wsClient (ws_at w i))"

definition live :: "price_conn \<Rightarrow> nat \<Rightarrow> bool" where
  "live w k \<longleftrightarrow> k < length (wsSockets w) \<and> alive (readyState (sock_at w k))"

lemma live_current: "conn_ok w \<Longrightarrow> live w k \<Longrightarrow> current_socket w = Some k"
proof -
  assume ok: "conn_ok w" and k: "live w k"
  let ?i = "sockOwner (sock_at w k)"
  have "wsClient (ws_at w ?i) = Some k" "?i < length (wsObjects w)"
    using conn_pre_live[of w k] conn_pre_owned[of w k] ok k by (auto simp: conn_ok_def live_def)
  moreover from this have "connWs w = Some ?i"
    using conn_pre_other[of w ?i] ok by (auto simp: conn_ok_def)
  ultimately show ?thesis by (simp add: current_socket_def)
qed

text \<open>
  C20.  Whatever the network and the timers do, and whatever the user does except for calling \<^verbatim>\<open>startWebSocket\<close> on a started connection, there is never a second
  live socket: a socket that is connecting or open is the one the connection holds, and after the connection is closed there is none.  An open connection that has lost its socket is asleep before the next attempt, so that it is
  never given up.
\<close>

theorem no_socket_leaks:
  assumes "careful_run env (conn_new config) es w"
  shows "(live w k \<longrightarrow> current_socket w = Some k) \<and>
    (connWs w = Some i \<and> wsClient (ws_at w i) = None \<longrightarrow> (\<exists>ms. BackoffSleep i ms \<in> set (connTasks w)))"
  using live_current conn_ok_run[OF assms conn_ok_new] by (auto simp: conn_ok_def sleeps_def split: option.splits)

subsection \<open>No subscription is lost\<close>

text \<open>What the server makes of the messages on one socket.\<close>

definition server_subs :: "ClientMessage list \<Rightarrow> string list" where
  "server_subs ms =
     fold (\<lambda>m s. case msgType m of Subscribe_type \<Rightarrow> fold set_add (msgIds m) s | Unsubscribe_type \<Rightarrow> filter (\<lambda>i. i \<notin> set (msgIds m)) s) ms []"

text \<open>
  A run in which nothing is unsubscribed, the connection is not closed while a subscription waits for its start, and \<^verbatim>\<open>startWebSocket\<close> is not called on
  a started connection.
\<close>

fun calm_event :: "price_conn \<Rightarrow> conn_event \<Rightarrow> bool" where
  "calm_event w (UUnsubscribe ids cb) = False"
| "calm_event w UStart = (connWs w = None)"
| "calm_event w UClose = list_all (\<lambda>t. case t of SubscribeRest ids cb \<Rightarrow> False | _ \<Rightarrow> True) (connTasks w)"
| "calm_event w e = True"

inductive calm_run :: "conn_env \<Rightarrow> price_conn \<Rightarrow> conn_event list \<Rightarrow> price_conn \<Rightarrow> bool" for env :: conn_env where
  calm_stop: "calm_run env w [] w"
| calm_go_on: "calm_run env w es w1 \<Longrightarrow> conn_step env w1 e w2 \<Longrightarrow> calm_event w1 e \<Longrightarrow> calm_run env w (es @ [e]) w2"

lemma calm_is_careful: "calm_event w e \<Longrightarrow> careful_event w e"
  by (cases e) simp_all

fun promises :: "nat \<Rightarrow> string \<Rightarrow> conn_task \<Rightarrow> bool" where
  "promises i x (SendWait j m t c) \<longleftrightarrow> j = i \<and> x \<in> set (msgIds m)"
| "promises i x (RestartWait j t) \<longleftrightarrow> j = i"
| "promises i x _ \<longleftrightarrow> False"

fun calm_task :: "conn_task \<Rightarrow> bool" where
  "calm_task (SendWait i m t c) \<longleftrightarrow> msgType m = Subscribe_type \<and> \<not> c"
| "calm_task (RestartWait i t) \<longleftrightarrow> True"
| "calm_task (BackoffSleep i ms) \<longleftrightarrow> True"
| "calm_task (SubscribeRest ids cb) \<longleftrightarrow> True"
| "calm_task _ \<longleftrightarrow> False"

definition covered_with :: "conn_task list \<Rightarrow> price_conn \<Rightarrow> bool" where
  "covered_with extra w \<longleftrightarrow>
     (\<forall>i k x. connWs w = Some i \<longrightarrow> wsClient (ws_at w i) = Some k \<longrightarrow> alive (readyState (sock_at w k)) \<longrightarrow>
        x \<in> set (map_keys (priceFeedCallbacks w)) \<longrightarrow>
        x \<in> set (server_subs (sentData (sock_at w k))) \<or> (\<exists>t \<in> set (extra @ connTasks w). promises i x t))"

definition starts_first :: "conn_task list \<Rightarrow> price_conn \<Rightarrow> bool" where
  "starts_first extra w \<longleftrightarrow>
     list_all calm_task (extra @ connTasks w) \<and>
     (connWs w = None \<longrightarrow> priceFeedCallbacks w = [] \<and> (\<forall>ids cb. SubscribeRest ids cb \<notin> set (extra @ connTasks w)))"

definition subs_ok :: "conn_task list \<Rightarrow> price_conn \<Rightarrow> bool" where
  "subs_ok extra w \<longleftrightarrow> covered_with extra w \<and> starts_first extra w"

lemma server_subs_sent: "msgType m = Subscribe_type \<Longrightarrow> set (server_subs (ms @ [m])) = set (msgIds m) \<union> set (server_subs ms)"
  by (simp add: server_subs_def)

lemma register_ids_keys:
  assumes "register_ids cb ids cbs new = (cbs', new')"
  shows "set (map_keys cbs') = set (map_keys cbs) \<union> set ids" "set new' = set new \<union> (set (map_keys cbs') - set (map_keys cbs))"
  using assms
  by (induction cb ids cbs new rule: register_ids.induct) (auto simp: js_alist.keys_put js_alist.keys_get split: option.splits if_splits)

lemma covered_withD:
  "covered_with ex w \<Longrightarrow> connWs w = Some i \<Longrightarrow> wsClient (ws_at w i) = Some k \<Longrightarrow> alive (readyState (sock_at w k)) \<Longrightarrow>
     x \<in> set (map_keys (priceFeedCallbacks w)) \<Longrightarrow>
     x \<in> set (server_subs (sentData (sock_at w k))) \<or> (\<exists>t \<in> set (ex @ connTasks w). promises i x t)"
  unfolding covered_with_def by blast

lemma covered_withI:
  assumes "\<And>i k x. connWs w = Some i \<Longrightarrow> wsClient (ws_at w i) = Some k \<Longrightarrow> alive (readyState (sock_at w k)) \<Longrightarrow>
     x \<in> set (map_keys (priceFeedCallbacks w)) \<Longrightarrow>
     x \<in> set (server_subs (sentData (sock_at w k))) \<or> (\<exists>t \<in> set (ex @ connTasks w). promises i x t)"
  shows "covered_with ex w"
  unfolding covered_with_def using assms by blast

text \<open>A step that keeps the callbacks, the tasks and the current socket, if that is still live, with what was sent on it.\<close>

definition keeps_socket :: "price_conn \<Rightarrow> price_conn \<Rightarrow> bool" where
  "keeps_socket w w' \<longleftrightarrow> connWs w' = connWs w \<and> priceFeedCallbacks w' = priceFeedCallbacks w \<and>
     (\<forall>i k. connWs w = Some i \<longrightarrow> wsClient (ws_at w' i) = Some k \<longrightarrow> alive (readyState (sock_at w' k)) \<longrightarrow>
        wsClient (ws_at w i) = Some k \<and> alive (readyState (sock_at w k)) \<and>
        set (server_subs (sentData (sock_at w k))) \<subseteq> set (server_subs (sentData (sock_at w' k))))"

lemma covered_keeps:
  assumes "covered_with ex w" "keeps_socket w w'" "set (ex @ connTasks w) \<subseteq> set (ex' @ connTasks w')"
  shows "covered_with ex' w'"
proof (rule covered_withI)
  fix i k x
  assume c: "connWs w' = Some i" "wsClient (ws_at w' i) = Some k" "alive (readyState (sock_at w' k))" "x \<in> set (map_keys (priceFeedCallbacks w'))"
  then have "wsClient (ws_at w i) = Some k" "alive (readyState (sock_at w k))"
    and sub: "set (server_subs (sentData (sock_at w k))) \<subseteq> set (server_subs (sentData (sock_at w' k)))"
    using assms(2) unfolding keeps_socket_def by auto
  then have "x \<in> set (server_subs (sentData (sock_at w k))) \<or> (\<exists>t \<in> set (ex @ connTasks w). promises i x t)"
    using assms(2) c by (intro covered_withD[OF assms(1)]) (simp_all add: keeps_socket_def)
  then show "x \<in> set (server_subs (sentData (sock_at w' k))) \<or> (\<exists>t \<in> set (ex' @ connTasks w'). promises i x t)"
    using sub assms(3) by blast
qed

lemma covered_promised:
  assumes "\<And>i x. connWs w = Some i \<Longrightarrow> x \<in> set (map_keys (priceFeedCallbacks w)) \<Longrightarrow> \<exists>t \<in> set (ex @ connTasks w). promises i x t"
  shows "covered_with ex w"
  using assms by (intro covered_withI) blast

lemma covered_no_socket:
  assumes "\<And>i k. connWs w = Some i \<Longrightarrow> wsClient (ws_at w i) = Some k \<Longrightarrow> \<not> alive (readyState (sock_at w k))"
  shows "covered_with ex w"
  using assms by (intro covered_withI) blast

lemma subs_ok_spawn:
  assumes "subs_ok ex w" "calm_task t" "connWs w \<noteq> None \<or> (\<forall>ids cb. t \<noteq> SubscribeRest ids cb)"
  shows "subs_ok ex (spawn t w)"
proof -
  have "keeps_socket w (spawn t w)" by (simp add: keeps_socket_def)
  then show ?thesis
    using assms covered_keeps[of ex w "spawn t w" ex] by (auto simp: subs_ok_def starts_first_def)
qed

lemma subs_ok_same_tasks:
  assumes "subs_ok ex w" "keeps_socket w w'" "connTasks w' = connTasks w"
  shows "subs_ok ex w'"
  using assms covered_keeps[OF _ assms(2), of ex ex] by (auto simp: subs_ok_def starts_first_def keeps_socket_def)

lemma keeps_upd_ws: "(\<And>r. wsClient (f r) = wsClient r) \<Longrightarrow> keeps_socket w (upd_ws i f w)"
  unfolding keeps_socket_def by (cases "i < length (wsObjects w)") (auto simp: nth_list_update list_update_beyond split: if_splits)

lemma sock_update: "(wsSockets w)[k := x] ! j = (if j = k \<and> k < length (wsSockets w) then x else sock_at w j)"
  by (cases "k < length (wsSockets w)") (auto simp: nth_list_update list_update_beyond)

lemma keeps_sock_close: "keeps_socket w (sock_close k w)"
  unfolding keeps_socket_def sock_close_def by (auto simp: sock_update split: if_splits)

lemma keeps_trans: "keeps_socket w w' \<Longrightarrow> keeps_socket w' w'' \<Longrightarrow> keeps_socket w w''"
  unfolding keeps_socket_def by (simp, blast)

lemma keeps_refl: "keeps_socket w w"
  by (simp add: keeps_socket_def)

text \<open>A restart promises to subscribe to everything.\<close>

lemma subs_ok_restart:
  assumes "conn_pre w" "i < length (wsObjects w)" "subs_ok ex w"
  shows "subs_ok ex (restartUnexpectedClosedWebsocket i w)"
proof (cases "connWs w = Some i")
  case True
  let ?w = "restartUnexpectedClosedWebsocket i w"
  have w: "?w = spawn (RestartWait i 0) (rws_startWebSocket i w)"
    using conn_pre_current[OF assms(1) True] by (simp add: restartUnexpectedClosedWebsocket_def)
  have f: "connWs ?w = Some i" "priceFeedCallbacks ?w = priceFeedCallbacks w" "connTasks ?w = connTasks w @ [RestartWait i 0]"
    using True by (simp_all add: w rws_startWebSocket_def)
  have "covered_with ex ?w"
    by (rule covered_promised) (use f in auto)
  then show ?thesis
    using assms(3) True by (simp add: subs_ok_def starts_first_def f)
next
  case False
  then show ?thesis
    using conn_pre_other[OF assms(1,2)] assms(3) by (simp add: restartUnexpectedClosedWebsocket_def)
qed

lemma subs_ok_reconnect:
  assumes "subs_ok ex w" "connWs w = Some i"
  shows "subs_ok ex (conn_onReconnect w)" "covered_with [] (conn_onReconnect w)"
proof -
  show "subs_ok ex (conn_onReconnect w)"
    using assms by (auto simp: conn_onReconnect_def rws_send_def subscribe_message_def intro!: subs_ok_spawn)
  show "covered_with [] (conn_onReconnect w)"
    using assms(2) by (intro covered_promised) (auto simp: conn_onReconnect_def rws_send_def subscribe_message_def map_keys_def)
qed

lemma subs_ok_subscribe_rest:
  assumes "subs_ok ex w" "connWs w = Some i"
  shows "subs_ok ex (subscribe_rest ids cb w)"
proof -
  obtain cbs new where r: "register_ids cb (map removeLeading0xIfExists ids) (priceFeedCallbacks w) [] = (cbs, new)" by fastforce
  note keys = register_ids_keys[OF r]
  let ?w = "subscribe_rest ids cb w"
  have f: "connWs ?w = Some i" "priceFeedCallbacks ?w = cbs" "wsObjects ?w = wsObjects w" "wsSockets ?w = wsSockets w"
    "connTasks ?w = connTasks w @ [SendWait i (subscribe_message (connRequest w) new) 0 False]"
    using assms(2) by (simp_all add: subscribe_rest_def r rws_send_def Let_def)
  have "covered_with ex ?w"
  proof (rule covered_withI)
    fix j k x
    assume *: "connWs ?w = Some j" "wsClient (ws_at ?w j) = Some k" "alive (readyState (sock_at ?w k))" "x \<in> set (map_keys (priceFeedCallbacks ?w))"
    show "x \<in> set (server_subs (sentData (sock_at ?w k))) \<or> (\<exists>t \<in> set (ex @ connTasks ?w). promises j x t)"
    proof (cases "x \<in> set (map_keys (priceFeedCallbacks w))")
      case True
      then show ?thesis
        using covered_withD[of ex w j k x] assms * by (auto simp: f subs_ok_def)
    next
      case False
      then show ?thesis
        using * keys by (auto simp: f subscribe_message_def)
    qed
  qed
  then show ?thesis
    using assms by (auto simp: subs_ok_def starts_first_def f subscribe_message_def)
qed

lemma starts_first_drop: "starts_first (t # ex) w \<Longrightarrow> starts_first ex w"
  by (auto simp: starts_first_def)

lemma covered_replace:
  assumes "covered_with [t] w" "\<And>j x. promises j x t \<Longrightarrow> promises j x t'"
  shows "covered_with [] (spawn t' w)"
  using covered_withD[OF assms(1)] assms(2) by (intro covered_withI) fastforce

lemma covered_drop:
  assumes "covered_with [t] w" "\<And>j x. promises j x t \<Longrightarrow> wsClient (ws_at w j) = None"
  shows "covered_with [] w"
  using covered_withD[OF assms(1)] assms(2) by (intro covered_withI) fastforce

lemma covered_sent:
  assumes "covered_with [SendWait i m t c] w" "wsClient (ws_at w i) = Some k" "k < length (wsSockets w)" "readyState (sock_at w k) = OPEN"
    "msgType m = Subscribe_type"
  shows "covered_with [] (sock_send k m w)"
proof (rule covered_withI)
  fix j k' x
  assume "connWs (sock_send k m w) = Some j" "wsClient (ws_at (sock_send k m w) j) = Some k'" "alive (readyState (sock_at (sock_send k m w) k'))"
    "x \<in> set (map_keys (priceFeedCallbacks (sock_send k m w)))"
  then show "x \<in> set (server_subs (sentData (sock_at (sock_send k m w) k'))) \<or> (\<exists>t \<in> set ([] @ connTasks (sock_send k m w)). promises j x t)"
    using covered_withD[OF assms(1), of j k' x] assms(2-4) by (auto simp: sock_send_def sock_update server_subs_sent[OF assms(5)] split: if_splits)
qed

lemma held_current:
  "conn_ok w \<Longrightarrow> i < length (wsObjects w) \<Longrightarrow> wsClient (ws_at w i) = Some k \<Longrightarrow> connWs w = Some i \<and> k < length (wsSockets w)"
  using conn_pre_other[of w i] conn_pre_held[of w i k] by (auto simp: conn_ok_def)

text \<open>A message that was waited for: it is sent on an open socket, or there is no live socket it could have been for.\<close>

lemma subs_ok_send:
  assumes ok: "conn_ok w" "i < length (wsObjects w)" and subs: "subs_ok [SendWait i m t False] w"
  shows "subs_ok [] (resume (SendWait i m t False) w)"
proof -
  have cov: "covered_with [SendWait i m t False] w" and m: "msgType m = Subscribe_type" and first: "starts_first [] w"
    using subs starts_first_drop by (auto simp: subs_ok_def starts_first_def)
  show ?thesis
  proof (cases "wait_round i t w")
    case WaitAgain
    then show ?thesis
      using covered_replace[OF cov, of "SendWait i m (t + 10) False"] first m by (auto simp: subs_ok_def starts_first_def)
  next
    case (WaitTimedOut k)
    then have k: "wsClient (ws_at w i) = Some k" by (simp add: wait_timed_out)
    have "covered_with [] (sock_send k m (sock_close k w))"
      using held_current[OF ok k] k by (intro covered_no_socket) (auto simp: sock_send_def sock_close_def)
    then show ?thesis
      using WaitTimedOut k first by (simp add: subs_ok_def send_rest_def starts_first_def sock_send_def)
  next
    case WaitOver
    have none: "covered_with [] w" if "wsClient (ws_at w i) = None"
      using that by (intro covered_drop[OF cov]) simp
    have sent: "covered_with [] (sock_send k m w)" if "wsClient (ws_at w i) = Some k" for k
      using WaitOver that held_current[OF ok that] m
      by (intro covered_sent[OF cov]) (simp_all add: wait_round_def split: if_splits)
    show ?thesis
      using WaitOver none sent first by (auto simp: subs_ok_def send_rest_def starts_first_def sock_send_def split: option.splits)
  qed
qed

lemma subs_ok_restart_rest:
  assumes ok: "conn_ok w" "i < length (wsObjects w)" and subs: "subs_ok [RestartWait i t] w"
  shows "subs_ok [] (resume (RestartWait i t) w)"
proof -
  have cov: "covered_with [RestartWait i t] w" and first: "starts_first [] w"
    using subs starts_first_drop by (auto simp: subs_ok_def)
  have none: "subs_ok [] w" if "wsClient (ws_at w i) = None"
    using covered_drop[OF cov] that first by (simp add: subs_ok_def)
  have recon: "subs_ok [] (conn_onReconnect w')" if "subs_ok [RestartWait i t] w'" "connWs w' = Some i" for w'
    using subs_ok_reconnect[OF that] starts_first_drop by (auto simp: subs_ok_def)
  note cur = held_current[OF ok]
  show ?thesis
  proof (cases "wait_round i t w")
    case WaitAgain
    then show ?thesis
      using covered_replace[OF cov, of "RestartWait i (t + 10)"] first by (auto simp: subs_ok_def starts_first_def)
  next
    case (WaitTimedOut k)
    then have k: "wsClient (ws_at w i) = Some k" by (simp add: wait_timed_out)
    have "subs_ok [RestartWait i t] (sock_close k w)"
      by (rule subs_ok_same_tasks[OF subs keeps_sock_close]) simp
    then show ?thesis using WaitTimedOut k recon[of "sock_close k w"] cur by (simp add: restart_rest_def)
  next
    case WaitOver
    then show ?thesis
      using none recon[OF subs] cur by (auto simp: restart_rest_def split: option.splits)
  qed
qed

lemma subs_ok_resume:
  assumes "conn_pre w" "task_valid (length (wsObjects w)) t" "conn_ok w \<or> (\<exists>i ms. t = BackoffSleep i ms)" "subs_ok [t] w"
  shows "subs_ok [] (resume t w)"
proof (cases t)
  case (SendWait i m t' c)
  then have "\<not> c" using assms(4) by (simp add: subs_ok_def starts_first_def)
  then show ?thesis
    using SendWait assms subs_ok_send[of w i m t'] by (auto simp: task_valid_def)
next
  case (RestartWait i t')
  then show ?thesis
    using assms subs_ok_restart_rest[of w i t'] by (auto simp: task_valid_def)
next
  case (BackoffSleep i ms)
  have "subs_ok [] w"
    using assms(4) covered_drop[of t w] starts_first_drop by (auto simp: subs_ok_def BackoffSleep)
  then show ?thesis
    using BackoffSleep assms(1,2) subs_ok_restart[of w i "[]"] by (simp add: task_valid_def)
next
  case (SubscribeRest ids cb)
  have "subs_ok [] w" "connWs w \<noteq> None"
    using assms(4) covered_drop[of t w] starts_first_drop by (auto simp: subs_ok_def starts_first_def SubscribeRest)
  then show ?thesis
    using SubscribeRest subs_ok_subscribe_rest by auto
qed (use assms(4) in \<open>simp_all add: subs_ok_def starts_first_def\<close>)

lemma subs_ok_run_task:
  assumes "conn_ok w" "n < length (connTasks w)" "subs_ok [] w"
  shows "subs_ok [] (run_task n w)"
proof -
  let ?t = "connTasks w ! n" and ?w = "w\<lparr>connTasks := take n (connTasks w) @ drop (Suc n) (connTasks w)\<rparr>"
  have sets: "set (connTasks w) = set ([?t] @ connTasks ?w)" using task_taken(4)[OF assms(1,2)] by simp
  have "covered_with [?t] ?w"
  proof (rule covered_keeps)
    show "covered_with [] w" using assms(3) by (simp add: subs_ok_def)
    show "keeps_socket w ?w" by (simp add: keeps_socket_def)
    show "set ([] @ connTasks w) \<subseteq> set ([?t] @ connTasks ?w)" unfolding append_Nil sets by (rule subset_refl)
  qed
  moreover have "starts_first [?t] ?w"
    using assms(3) sets by (simp add: subs_ok_def starts_first_def list_all_iff)
  ultimately show ?thesis
    using task_taken[OF assms(1,2)] unfolding run_task_def by (intro subs_ok_resume) (auto simp: subs_ok_def)
qed

lemma subs_ok_onclose:
  assumes "conn_ok w" "k < length (wsSockets w)" "readyState (sock_at w k) \<noteq> CLOSED" "subs_ok [] w"
  shows "subs_ok [] (rws_onclose (sockOwner (sock_at w k)) (upd_sock k (\<lambda>s. s\<lparr>readyState := CLOSED\<rparr>) w))"
proof -
  let ?i = "sockOwner (sock_at w k)" and ?w = "upd_sock k (\<lambda>s. s\<lparr>readyState := CLOSED\<rparr>) w"
  have i: "?i < length (wsObjects w)" using conn_pre_owned assms(1,2) by (simp add: conn_ok_def)
  have k1: "keeps_socket w ?w" using assms(2) by (auto simp: keeps_socket_def sock_update split: if_splits)
  have k2: "keeps_socket ?w (upd_ws ?i (\<lambda>r. r\<lparr>pingTimeout := False\<rparr>) ?w)" by (rule keeps_upd_ws) simp
  have k3: "keeps_socket w' (upd_ws ?i (\<lambda>r. r\<lparr>wsFailedAttempts := wsFailedAttempts r + 1, wsClient := None\<rparr>) w')" for w'
    by (cases "?i < length (wsObjects w')") (auto simp: keeps_socket_def nth_list_update list_update_beyond split: if_splits)
  show ?thesis
    using subs_ok_same_tasks[OF assms(4) keeps_trans[OF k1 k2]] subs_ok_same_tasks[OF assms(4) keeps_trans[OF keeps_trans[OF k1 k2] k3]]
    by (auto simp: rws_onclose_def Let_def intro!: subs_ok_spawn)
qed

lemma subs_ok_step:
  assumes "conn_step env w e w'" "calm_event w e" "conn_ok w" "subs_ok [] w"
  shows "subs_ok [] w'"
  using assms
proof (induction rule: conn_step.induct)
  case (subscribe w ids cb)
  show ?case
  proof (cases "connWs w")
    case None
    then have "subs_ok [] (conn_startWebSocket w)"
      using subscribe by (auto simp: subs_ok_def starts_first_def map_keys_def intro!: covered_promised)
    then show ?thesis using None by (auto simp: subscribePriceFeedUpdates_def intro!: subs_ok_spawn)
  next
    case (Some i)
    then show ?thesis using subscribe subs_ok_subscribe_rest[OF _ Some] by (simp add: subscribePriceFeedUpdates_def)
  qed
next
  case (start w)
  then show ?case by (auto simp: subs_ok_def starts_first_def map_keys_def intro!: covered_promised)
next
  case (close w)
  have f: "connWs (conn_closeWebSocket w) = None" "priceFeedCallbacks (conn_closeWebSocket w) = []" "connTasks (conn_closeWebSocket w) = connTasks w"
    by (simp_all add: conn_closeWebSocket_def rws_closeWebSocket_def split: option.splits)
  have "covered_with [] (conn_closeWebSocket w)" by (rule covered_no_socket) (simp add: f)
  then show ?case
    using close by (auto simp: subs_ok_def starts_first_def f list_all_iff)
next
  case (opened k w)
  have "keeps_socket w (upd_sock k (\<lambda>s. s\<lparr>readyState := OPEN\<rparr>) w)"
    using opened(1,2) by (auto simp: keeps_socket_def sock_update split: if_splits)
  then have "subs_ok [] (upd_sock k (\<lambda>s. s\<lparr>readyState := OPEN\<rparr>) w)"
    using opened by - (rule subs_ok_same_tasks[of "[]" w], simp_all)
  then show ?case
    by (auto simp: rws_onopen_def heartbeat_def Let_def intro!: subs_ok_same_tasks[OF _ keeps_upd_ws])
next
  case (expired i w)
  have "subs_ok [] (upd_ws i (\<lambda>r. r\<lparr>pingTimeout := False\<rparr>) w)" "conn_ok (upd_ws i (\<lambda>r. r\<lparr>pingTimeout := False\<rparr>) w)"
    using expired by (auto intro!: subs_ok_same_tasks[OF _ keeps_upd_ws] conn_ok_upd_ws)
  moreover from this have "subs_ok [] (sock_close k (upd_ws i (\<lambda>r. r\<lparr>pingTimeout := False\<rparr>) w))" for k
    by (intro subs_ok_same_tasks[OF _ keeps_sock_close]) auto
  moreover have "conn_ok (sock_close k (upd_ws i (\<lambda>r. r\<lparr>pingTimeout := False\<rparr>) w))" if "wsClient (ws_at w i) = Some k" for k
    using calculation(2) expired(1) that by (intro conn_ok_sock_close[of _ i]) auto
  ultimately show ?case
    using expired(1) by (auto simp: ping_expired_def Let_def conn_ok_def intro!: subs_ok_restart split: option.splits)
next
  case (error k w e)
  then show ?case by - (rule subs_ok_same_tasks[of "[]" w], simp_all add: onWsError_def keeps_socket_def)
next
  case (message k w data)
  have "keeps_socket w (conn_onMessage (envParse env) (envText env) data w) \<and> connTasks (conn_onMessage (envParse env) (envText env) data w) = connTasks w"
    by (simp add: onWsError_def conn_onMessage_def keeps_socket_def split: sum.splits option.splits)
  then show ?case using message by - (rule subs_ok_same_tasks[of "[]" w], simp_all)
next
  case (ping k w)
  then show ?case by (simp add: heartbeat_def subs_ok_same_tasks[OF _ keeps_upd_ws])
qed (simp_all add: subs_ok_onclose subs_ok_run_task)

lemma subs_ok_new: "subs_ok [] (conn_new config)"
  by (auto simp: subs_ok_def starts_first_def conn_new_def intro!: covered_no_socket)

lemma calm_run_ok: "calm_run env w es w' \<Longrightarrow> conn_ok w \<and> subs_ok [] w \<Longrightarrow> conn_ok w' \<and> subs_ok [] w'"
  by (induction rule: calm_run.induct) (auto intro: conn_ok_step[OF _ calm_is_careful] subs_ok_step)

lemma calm_run_new: "calm_run env (conn_new config) es w \<Longrightarrow> conn_ok w \<and> subs_ok [] w"
  using calm_run_ok conn_ok_new subs_ok_new by blast

text \<open>
  C19.  In a run in which nothing is unsubscribed, the connection is not closed while a subscription still waits for its start, and \<^verbatim>\<open>startWebSocket\<close> is not
  called on a started connection, every identifier that has a callback is known to the server on the current socket, or a suspended task is going to
  send it there: through lost connections, timeouts, closing and subscribing again, and every order in which the tasks resume.  Without the second condition
  it fails, see \<open>subscription_lost_by_close\<close>.
\<close>

theorem no_subscription_lost:
  assumes "calm_run env (conn_new config) es w" "connWs w = Some i" "wsClient (ws_at w i) = Some k" "alive (readyState (sock_at w k))"
    "x \<in> set (map_keys (priceFeedCallbacks w))"
  shows "x \<in> set (server_subs (sentData (sock_at w k))) \<or> (\<exists>t \<in> set (connTasks w). promises i x t)"
  using covered_withD[of "[]" w i k x] calm_run_new[OF assms(1)] assms(2-) by (auto simp: subs_ok_def)

subsection \<open>Recovery\<close>

lemma calm_run_cons: "calm_run env w1 es w2 \<Longrightarrow> conn_step env w e w1 \<Longrightarrow> calm_event w e \<Longrightarrow> calm_run env w (e # es) w2"
proof (induction rule: calm_run.induct)
  case (calm_stop w1)
  then show ?case using calm_go_on[of env w "[]" w] by (auto intro: calm_run.intros)
next
  case (calm_go_on w1 es w2 e' w3)
  then show ?case using calm_run.calm_go_on[of env w "e # es" w2 e' w3] by simp
qed












subsection \<open>Updates reach the callbacks\<close>

definition cb_list :: "(string, nat list) js_map_t \<Rightarrow> string \<Rightarrow> nat list" where
  "cb_list cbs x = (case map_get cbs x of None \<Rightarrow> [] | Some fs \<Rightarrow> fs)"

definition callbacks_of :: "price_conn \<Rightarrow> string \<Rightarrow> nat list" where
  "callbacks_of w = cb_list (priceFeedCallbacks w)"

lemma cb_list_simps [simp]:
  "cb_list (map_set i fs cbs) x = (if x = i then fs else cb_list cbs x)" "cb_list (map_delete i cbs) x = (if x = i then [] else cb_list cbs x)"
  "map_get cbs x = None \<Longrightarrow> cb_list cbs x = []" "map_get cbs x = Some fs \<Longrightarrow> cb_list cbs x = fs"
  by (simp_all add: cb_list_def)

lemma set_add_twice [simp]: "set_add x (set_add x xs) = set_add x xs"
  by (simp add: set_add_def)

lemma register_ids_get: "cb_list (fst (register_ids cb ids cbs new)) x = (if x \<in> set ids then set_add cb (cb_list cbs x) else cb_list cbs x)"
proof (induction ids arbitrary: cbs new)
  case (Cons i ids)
  then show ?case by (cases "map_get cbs i") simp_all
qed simp

lemma remove_ids_get:
  "cb_list (fst (remove_ids cb ids cbs rm)) x =
     (if x \<in> set ids then (case cb of None \<Rightarrow> [] | Some f \<Rightarrow> filter (\<lambda>g. g \<noteq> f) (cb_list cbs x)) else cb_list cbs x)"
proof (induction ids arbitrary: cbs rm)
  case (Cons i ids)
  then show ?case by (cases "map_get cbs i"; cases cb; cases "x = i") (simp_all add: Let_def)
qed simp

lemma callbacks_subscribe:
  "callbacks_of (subscribe_rest ids cb w) x =
     (if x \<in> set (map removeLeading0xIfExists ids) then set_add cb (callbacks_of w x) else callbacks_of w x)"
  using register_ids_get[of cb "map removeLeading0xIfExists ids" "priceFeedCallbacks w" "[]" x]
  by (auto simp: subscribe_rest_def callbacks_of_def rws_send_def case_prod_unfold Let_def split: option.splits)

lemma callbacks_unsubscribe:
  "callbacks_of (unsubscribe_rest ids cb w) x =
     (if x \<in> set (map removeLeading0xIfExists ids) then (case cb of None \<Rightarrow> [] | Some f \<Rightarrow> filter (\<lambda>g. g \<noteq> f) (callbacks_of w x))
      else callbacks_of w x)"
  using remove_ids_get[of cb "map removeLeading0xIfExists ids" "priceFeedCallbacks w" "[]" x]
  by (auto simp: unsubscribe_rest_def callbacks_of_def rws_send_def case_prod_unfold Let_def split: option.splits)

lemma cbCalls_rest [simp]: "cbCalls (subscribe_rest ids cb w) = cbCalls w" "cbCalls (unsubscribe_rest ids cb' w) = cbCalls w"
  by (simp_all add: subscribe_rest_def unsubscribe_rest_def rws_send_def spawn_def case_prod_unfold Let_def split: option.splits)

lemma message_calls:
  assumes "parse d = Inr m" "own_prop ''type'' m = JStr ''price_update''" "feed_shape (own_prop ''price_feed'' m)"
  shows "cbCalls (conn_onMessage parse tx d w) =
    cbCalls w @ map (\<lambda>f. (f, feed_from (own_prop ''price_feed'' m))) (callbacks_of w (feedId (feed_from (own_prop ''price_feed'' m))))"
proof -
  have "\<not> nullish m" using assms(2) by (cases m) auto
  moreover have "PriceFeed_fromJson tx (own_prop ''price_feed'' m) = Inr (feed_from (own_prop ''price_feed'' m))"
    using assms(3) by (simp add: PriceFeed_fromJson_iff)
  ultimately show ?thesis
    using assms(1,2) by (simp add: conn_onMessage_def get_prop_def callbacks_of_def cb_list_def split: option.splits)
qed

text \<open>
  A price update calls the callbacks of its feed, each once and with the feed of the message: after a subscription also the new one when the feed
  is among its identifiers, written with or without \<^verbatim>\<open>0x\<close>, and after its removal no longer.
\<close>

theorem update_reaches_subscribers:
  assumes "parse d = Inr m" "own_prop ''type'' m = JStr ''price_update''" "feed_shape (own_prop ''price_feed'' m)"
  shows "let f = feed_from (own_prop ''price_feed'' m); listed = feedId f \<in> set (map removeLeading0xIfExists ids); old = callbacks_of w (feedId f) in
    cbCalls (conn_onMessage parse tx d (subscribe_rest ids cb w)) = cbCalls w @ map (\<lambda>g. (g, f)) (if listed then set_add cb old else old) \<and>
    cbCalls (conn_onMessage parse tx d (unsubscribe_rest ids (Some cb) w)) = cbCalls w @ map (\<lambda>g. (g, f)) (if listed then filter (\<lambda>g. g \<noteq> cb) old else old)"
  unfolding message_calls[of parse d m, OF assms] callbacks_subscribe callbacks_unsubscribe by (simp add: Let_def)

subsection \<open>Concrete runs\<close>

definition demo_conn_env :: conn_env where
  "demo_conn_env = \<lparr>envNode = True, envParse = (\<lambda>d. Inr JNull), envText = \<lparr>text_of_ty = (\<lambda>t. []), text_of = (\<lambda>j. [])\<rparr>\<rparr>"

text \<open>A subscription: started, registered, connected, and sent.\<close>

definition demo_started :: price_conn where
  "demo_started = subscribePriceFeedUpdates [''0xab''] 7 (conn_new None)"

definition demo_registered :: price_conn where
  "demo_registered = run_task 0 demo_started"

definition demo_open :: price_conn where
  "demo_open = rws_onopen True 0 (upd_sock 0 (\<lambda>s. s\<lparr>readyState := OPEN\<rparr>) demo_registered)"

definition demo_sent :: price_conn where
  "demo_sent = run_task 0 demo_open"

lemmas demo_defs = demo_sent_def demo_open_def demo_registered_def demo_started_def demo_conn_env_def

lemma demo_run: "calm_run demo_conn_env (conn_new None) [USubscribe [''0xab''] 7, Resume 0, NOpened 0] demo_open"
proof -
  have 1: "conn_step demo_conn_env (conn_new None) (USubscribe [''0xab''] 7) demo_started"
    unfolding demo_started_def by (rule subscribe)
  have 2: "conn_step demo_conn_env demo_started (Resume 0) demo_registered"
    unfolding demo_registered_def by (rule resumed) code_simp
  have "conn_step demo_conn_env demo_registered (NOpened 0)
      (rws_onopen (envNode demo_conn_env) (sockOwner (sock_at demo_registered 0)) (upd_sock 0 (\<lambda>s. s\<lparr>readyState := OPEN\<rparr>) demo_registered))"
    by (rule opened; code_simp)
  moreover have "envNode demo_conn_env" "sockOwner (sock_at demo_registered 0) = 0" by code_simp+
  ultimately have 3: "conn_step demo_conn_env demo_registered (NOpened 0) demo_open"
    by (simp add: demo_open_def)
  show ?thesis
    by (rule calm_run_cons[OF calm_run_cons[OF calm_run_cons[OF calm_stop 3] 2] 1]) simp_all
qed

lemma calm_run_is_careful: "calm_run env w es w' \<Longrightarrow> careful_run env w es w'"
  by (induction rule: calm_run.induct) (auto intro: careful_run.intros calm_is_careful)

theorem no_socket_leaks_witness:
  "careful_run demo_conn_env (conn_new None) [USubscribe [''0xab''] 7, Resume 0, NOpened 0] demo_open \<and> live demo_open 0 \<and> current_socket demo_open = Some 0"
proof -
  have l: "live demo_open 0" by (simp add: live_def) code_simp
  show ?thesis
    using no_socket_leaks[OF calm_run_is_careful[OF demo_run], of 0 0] calm_run_is_careful[OF demo_run] l by blast
qed

theorem no_subscription_lost_witness:
  "map_keys (priceFeedCallbacks demo_open) = [''ab''] \<and> server_subs (sentData (sock_at demo_open 0)) = [] \<and>
   (\<exists>t \<in> set (connTasks demo_open). promises 0 ''ab'' t) \<and> server_subs (sentData (sock_at demo_sent 0)) = [''ab'']"
proof -
  have c: "connWs demo_open = Some 0" "wsClient (ws_at demo_open 0) = Some 0" "alive (readyState (sock_at demo_open 0))"
    and k: "map_keys (priceFeedCallbacks demo_open) = [''ab'']"
    and s: "server_subs (sentData (sock_at demo_open 0)) = []" "server_subs (sentData (sock_at demo_sent 0)) = [''ab'']"
    by code_simp+
  show ?thesis
    using no_subscription_lost[OF demo_run c, of "''ab''"] k s by simp
qed


definition demo_price :: json where
  "demo_price = JObj [(''conf'', JStr ''1''), (''expo'', JNum (-8)), (''price'', JStr ''42''), (''publish_time'', JNum 100)]"

definition demo_update :: json where
  "demo_update = JObj [(''type'', JStr ''price_update''),
     (''price_feed'', JObj [(''id'', JStr ''ab''), (''price'', demo_price), (''ema_price'', demo_price)])]"

theorem update_reaches_subscribers_witness:
  "cbCalls (conn_onMessage (\<lambda>d. Inr demo_update) (envText demo_conn_env) [] (subscribe_rest [''0xab''] 7 (conn_new None))) =
     [(7, feed_from (own_prop ''price_feed'' demo_update))]"
proof -
  have u: "own_prop ''type'' demo_update = JStr ''price_update''" "feed_shape (own_prop ''price_feed'' demo_update)" by code_simp+
  have f: "feedId (feed_from (own_prop ''price_feed'' demo_update)) \<in> set (map removeLeading0xIfExists [''0xab''])"
    "callbacks_of (conn_new None) (feedId (feed_from (own_prop ''price_feed'' demo_update))) = []" "cbCalls (conn_new None) = []"
    "set_add 7 ([] :: nat list) = [7]"
    by code_simp+
  show ?thesis
    using update_reaches_subscribers[of "\<lambda>d. Inr demo_update" "[]" demo_update "[''0xab'']" "conn_new None" "envText demo_conn_env" 7, OF refl u] f
    by (simp only: Let_def if_True append_Nil list.map)
qed

subsection \<open>What the code does not do\<close>

text \<open>
  A subscription that still waits for the start when the connection is closed is registered afterwards, on no connection.  The next subscription opens a new
  one and sends only its own identifiers: the first callback is never called.
\<close>

definition lost1 :: price_conn where
  "lost1 = run_task 0 (conn_closeWebSocket (subscribePriceFeedUpdates [''aa''] 1 (conn_new None)))"

definition lost2 :: price_conn where
  "lost2 = run_task 0 (subscribePriceFeedUpdates [''bb''] 2 lost1)"

definition lost3 :: price_conn where
  "lost3 = run_task 0 (rws_onopen True 1 (upd_sock 1 (\<lambda>s. s\<lparr>readyState := OPEN\<rparr>) lost2))"

lemma subscription_lost_by_close:
  "current_socket lost3 = Some 1 \<and> readyState (sock_at lost3 1) = OPEN \<and> connTasks lost3 = [] \<and>
   map_keys (priceFeedCallbacks lost3) = [''aa'', ''bb''] \<and> server_subs (sentData (sock_at lost3 1)) = [''bb'']"
  by code_simp

text \<open>
  Messages that wait for the socket are not sent in the order of the calls.  Subscribing, unsubscribing and subscribing again while it connects can end with
  the removal as the last message: a callback is registered, nothing is left to do, and the server sends nothing.
\<close>

definition overtaken :: price_conn where
  "overtaken =
     (let w1 = run_task 0 (subscribePriceFeedUpdates [''aa''] 1 (conn_new None));
          w2 = subscribePriceFeedUpdates [''aa''] 2 (unsubscribePriceFeedUpdates [''aa''] None w1);
          w3 = rws_onopen True 0 (upd_sock 0 (\<lambda>s. s\<lparr>readyState := OPEN\<rparr>) w2) in
      run_task 0 (run_task 0 (run_task 2 w3)))"

lemma unsubscribe_overtaken:
  "current_socket overtaken = Some 0 \<and> connTasks overtaken = [] \<and> map_keys (priceFeedCallbacks overtaken) = [''aa''] \<and>
   map msgType (sentData (sock_at overtaken 0)) = [Subscribe_type, Subscribe_type, Unsubscribe_type] \<and>
   server_subs (sentData (sock_at overtaken 0)) = []"
  by code_simp

text \<open>\<^verbatim>\<open>startWebSocket\<close> is public; called on a started connection it drops the socket without closing it, and two are live.\<close>

lemma started_twice_leaks:
  "\<exists>w. conn_run env (conn_new config) [UStart, UStart] w \<and> live w 0 \<and> live w 1"
proof -
  let ?w = "conn_startWebSocket (conn_startWebSocket (conn_new config))"
  have "conn_run env (conn_new config) ([UStart] @ [UStart]) ?w"
    using conn_run.go_on[OF conn_run.go_on[OF conn_run.stop conn_step.start] conn_step.start] by simp
  moreover have "live ?w 0" "live ?w 1" by (simp_all add: live_def conn_new_def)
  ultimately show ?thesis by auto
qed

text \<open>The message \<^verbatim>\<open>null\<close> parses, and the exception of reading its type reaches no handler.\<close>

lemma null_message_uncaught:
  "parse d = Inr JNull \<Longrightarrow> \<exists>e. connErrors (conn_onMessage parse tx d w) = connErrors w @ [UncaughtError e]"
  by (simp add: conn_onMessage_def get_prop_def)

text \<open>Retries cannot be turned off.\<close>

lemma no_retries_is_three: "pcHttpRetries c = Some 0 \<Longrightarrow> httpRetriesUsed (http_options_of (Some c)) = 3"
  by (simp add: http_options_of_def or_default_def)

text \<open>The pause doubles without a bound; from the 25th failure on it exceeds what \<^verbatim>\<open>setTimeout\<close> can hold (\<open>2 ^ 31 - 1\<close>), which then fires at once.\<close>

lemma backoff_exceeds_timer: "n \<ge> 25 \<Longrightarrow> expoBackoff n > 2 ^ 31 - 1"
proof -
  assume "n \<ge> 25"
  then have "(2::nat) ^ 25 * 100 \<le> 2 ^ n * 100" by (intro mult_right_mono power_increasing) simp_all
  then show ?thesis by (simp add: expoBackoff_def)
qed

text \<open>The socket a message is sent on is never still connecting, so that \<^verbatim>\<open>send\<close> does not throw.\<close>

lemma send_connecting:
  assumes "wait_round i t w = WaitOver \<or> wait_round i t w = WaitTimedOut k'" "w' = (if wait_round i t w = WaitOver then w else sock_close k' w)"
    "wsClient (ws_at w' i) = Some k" "k < length (wsSockets w)"
  shows "readyState (sock_at w' k) \<noteq> CONNECTING"
  using assms by (auto simp: wait_timed_out wait_round_def sock_close_def split: if_splits option.splits)

end
