(* ===== verification/Solana_Receiver.thy ===== *)
theory Solana_Receiver
  imports Solana_Tx Pyth_Accumulator Base64 Wormhole_Vaa
begin

section \<open>Posting updates on Solana: \<^verbatim>\<open>pyth_solana_receiver/src\<close>\<close>

text \<open>
  The instructions that bring a price update to Solana: the signed message is written into a temporary account, verified there, used by the updates,
  and the account is closed again.  \<^verbatim>\<open>Program\<close> of \<^verbatim>\<open>@coral-xyz/anchor\<close>, which makes an instruction of a method with its arguments and accounts, the derivation of
  addresses, new key pairs (the \<open>k\<close>-th is named by its public key), \<^verbatim>\<open>sha256\<close> and \<^verbatim>\<open>bs58\<close> are parameters.
\<close>

subsection \<open>The programs\<close>

text \<open>The methods that are called, with their arguments and accounts.\<close>

datatype program_call =
    CreateEncodedVaa string nat
  | InitEncodedVaa string
  | WriteEncodedVaa string nat bytes
  | VerifyEncodedVaaV1 string string
  | CloseEncodedVaa string
  | PostUpdateAtomic bytes accumulator_update nat string string string string
  | PostUpdate accumulator_update nat string string string string
  | UpdatePriceFeed accumulator_update nat nat bytes string string string string string
  | ReclaimRent string

record anchor =
  methodInstruction :: "program_call \<Rightarrow> TransactionInstruction outcome"
  findProgramAddress :: "bytes list \<Rightarrow> string \<Rightarrow> string"
  newKeypair :: "nat \<Rightarrow> string"
  receiverProgramId :: string
  wormholeProgramId :: string
  pushOracleProgramId :: string

definition DEFAULT_RECEIVER_PROGRAM_ID :: string where
  "DEFAULT_RECEIVER_PROGRAM_ID = ''rec5EKMGg6MxZYaMdyBfgwp4d5rB9T1VQH5pJv5LtFJ''"

definition DEFAULT_WORMHOLE_PROGRAM_ID :: string where
  "DEFAULT_WORMHOLE_PROGRAM_ID = ''HDwcJBJXjL9FpJ7UBsYBtaDjsBUhuLCUYoz3zr8SWWaQ''"

definition DEFAULT_PUSH_ORACLE_PROGRAM_ID :: string where
  "DEFAULT_PUSH_ORACLE_PROGRAM_ID = ''pythWSnswVUd12oZpeFP8e9CVaEqJg25g1Vtc2biRsT''"

text \<open>\<^verbatim>\<open>Buffer.from\<close> of an ASCII literal.\<close>

definition ascii_bytes :: "string \<Rightarrow> bytes" where
  "ascii_bytes s = map (\<lambda>c. word_of_nat (of_char c)) s"

definition getGuardianSetPda :: "anchor \<Rightarrow> nat \<Rightarrow> string" where
  "getGuardianSetPda ac guardianSetIndex' = findProgramAddress ac [ascii_bytes ''GuardianSet'', be_encode 4 guardianSetIndex'] (wormholeProgramId ac)"

text \<open>\<^verbatim>\<open>Math.floor(Math.random() * 256)\<close>\<close>

definition getRandomTreasuryId :: "rat \<Rightarrow> nat" where
  "getRandomTreasuryId random = nat \<lfloor>random * 256\<rfloor>"

definition getTreasuryPda :: "anchor \<Rightarrow> nat \<Rightarrow> string" where
  "getTreasuryPda ac treasuryId = findProgramAddress ac [ascii_bytes ''treasury'', [word_of_nat treasuryId]] (receiverProgramId ac)"

definition getConfigPda :: "anchor \<Rightarrow> string" where
  "getConfigPda ac = findProgramAddress ac [ascii_bytes ''config''] (receiverProgramId ac)"

definition VERIFY_ENCODED_VAA_COMPUTE_BUDGET :: nat where
  "VERIFY_ENCODED_VAA_COMPUTE_BUDGET = 350000"

definition POST_UPDATE_ATOMIC_COMPUTE_BUDGET :: nat where
  "POST_UPDATE_ATOMIC_COMPUTE_BUDGET = 170000"

definition POST_UPDATE_COMPUTE_BUDGET :: nat where
  "POST_UPDATE_COMPUTE_BUDGET = 35000"

definition UPDATE_PRICE_FEED_COMPUTE_BUDGET :: nat where
  "UPDATE_PRICE_FEED_COMPUTE_BUDGET = 55000"

definition INIT_ENCODED_VAA_COMPUTE_BUDGET :: nat where
  "INIT_ENCODED_VAA_COMPUTE_BUDGET = 3000"

definition WRITE_ENCODED_VAA_COMPUTE_BUDGET :: nat where
  "WRITE_ENCODED_VAA_COMPUTE_BUDGET = 3000"

definition CLOSE_ENCODED_VAA_COMPUTE_BUDGET :: nat where
  "CLOSE_ENCODED_VAA_COMPUTE_BUDGET = 30000"

subsection \<open>Messages: \<^verbatim>\<open>vaa.ts\<close>\<close>

definition getGuardianSetIndex :: "bytes \<Rightarrow> nat outcome" where
  "getGuardianSetIndex vaa = read_be 4 vaa 1"

definition DEFAULT_REDUCED_GUARDIAN_SET_SIZE :: nat where
  "DEFAULT_REDUCED_GUARDIAN_SET_SIZE = 5"

definition VAA_SIGNATURE_SIZE :: nat where
  "VAA_SIGNATURE_SIZE = 66"

text \<open>Without a sixth byte the comparison is with \<^verbatim>\<open>undefined\<close>, hence false, and the second part starts at \<^verbatim>\<open>NaN\<close>, that is at 0.\<close>

definition trimSignatures :: "bytes \<Rightarrow> nat \<Rightarrow> bytes outcome" where
  "trimSignatures vaa n =
     (case buf_at vaa 5 of
        None \<Rightarrow> Inr ((take (6 + n * VAA_SIGNATURE_SIZE) vaa @ vaa)[5 := word_of_nat n])
      | Some currentNumSignatures \<Rightarrow>
          if n > unat currentNumSignatures then Inl (mk_error ''Resulting VAA can't have more signatures than the original VAA'')
          else Inr ((take (6 + n * VAA_SIGNATURE_SIZE) vaa @ drop (6 + unat currentNumSignatures * VAA_SIGNATURE_SIZE) vaa)[5 := word_of_nat n]))"

definition VAA_START :: nat where
  "VAA_START = 46"

definition VAA_SPLIT_INDEX :: nat where
  "VAA_SPLIT_INDEX = 755"

text \<open>An instruction with its signers and compute units.\<close>

definition anchor_ix :: "anchor \<Rightarrow> program_call \<Rightarrow> string list \<Rightarrow> nat option \<Rightarrow> InstructionWithEphemeralSigners outcome" where
  "anchor_ix ac call signers units =
     e_bind (methodInstruction ac call) (\<lambda>ix. Inr \<lparr>instruction = ix, ephemeralSigners = signers, computeUnits = units\<rparr>)"

definition buildEncodedVaaCreateInstruction :: "anchor \<Rightarrow> bytes \<Rightarrow> string \<Rightarrow> InstructionWithEphemeralSigners outcome" where
  "buildEncodedVaaCreateInstruction ac vaa encodedVaaKeypair =
     anchor_ix ac (CreateEncodedVaa encodedVaaKeypair (length vaa + VAA_START)) [encodedVaaKeypair] None"

definition buildWriteEncodedVaaWithSplitInstructions :: "anchor \<Rightarrow> bytes \<Rightarrow> string \<Rightarrow> InstructionWithEphemeralSigners list outcome" where
  "buildWriteEncodedVaaWithSplitInstructions ac vaa draftVaa =
     e_bind (anchor_ix ac (WriteEncodedVaa draftVaa 0 (take VAA_SPLIT_INDEX vaa)) [] (Some WRITE_ENCODED_VAA_COMPUTE_BUDGET)) (\<lambda>w1.
     e_bind (anchor_ix ac (WriteEncodedVaa draftVaa VAA_SPLIT_INDEX (drop VAA_SPLIT_INDEX vaa)) [] (Some WRITE_ENCODED_VAA_COMPUTE_BUDGET)) (\<lambda>w2.
     Inr [w1, w2]))"

text \<open>The filters: an account of a kind starts with a hash of its name; behind it and one byte of state stands the authority.\<close>

definition findEncodedVaaAccountsByWriteAuthority ::
    "(bytes \<Rightarrow> bytes) \<Rightarrow> (bytes \<Rightarrow> string) \<Rightarrow> (string \<Rightarrow> (nat \<times> string) list \<Rightarrow> string list outcome) \<Rightarrow> bytes \<Rightarrow> string \<Rightarrow> string list outcome" where
  "findEncodedVaaAccountsByWriteAuthority sha256 bs58 getProgramAccounts writeAuthority programId' =
     getProgramAccounts programId' [(0, bs58 (take 8 (sha256 (ascii_bytes ''account:EncodedVaa'')))), (8 + 1, bs58 writeAuthority)]"

subsection \<open>Instructions: \<^verbatim>\<open>PythSolanaReceiver\<close>\<close>

definition buildCloseEncodedVaaInstruction :: "anchor \<Rightarrow> string \<Rightarrow> InstructionWithEphemeralSigners outcome" where
  "buildCloseEncodedVaaInstruction ac encodedVaa = anchor_ix ac (CloseEncodedVaa encodedVaa) [] (Some CLOSE_ENCODED_VAA_COMPUTE_BUDGET)"

definition buildClosePriceUpdateInstruction :: "anchor \<Rightarrow> string \<Rightarrow> InstructionWithEphemeralSigners outcome" where
  "buildClosePriceUpdateInstruction ac priceUpdateAccount = anchor_ix ac (ReclaimRent priceUpdateAccount) [] None"

definition buildClosePreviousEncodedVaasInstructions :: "anchor \<Rightarrow> string list outcome \<Rightarrow> int \<Rightarrow> InstructionWithEphemeralSigners list outcome" where
  "buildClosePreviousEncodedVaasInstructions ac owned maxInstructions =
     e_bind owned (\<lambda>encodedVaas.
     e_bind (e_map (buildCloseEncodedVaaInstruction ac) encodedVaas) (\<lambda>instructions. Inr (js_slice (Some 0) (Some maxInstructions) instructions)))"

datatype feed_ref = FeedBuffer bytes | FeedString string

definition getPriceFeedAccountForProgram :: "anchor \<Rightarrow> nat \<Rightarrow> feed_ref \<Rightarrow> string outcome" where
  "getPriceFeedAccountForProgram ac shardId priceFeedId =
     (let feed = (case priceFeedId of FeedBuffer b \<Rightarrow> b | FeedString s \<Rightarrow> from_hex (if starts_with ''0x'' s then drop 2 s else s))
      in if length feed \<noteq> 32 then Inl (mk_error ''Feed ID should be 32 bytes long'')
         else if shardId \<ge> 65536 then Inl (range_error (''The value of \"value\" is out of range''))
         else Inr (findProgramAddress ac [[word_of_nat (shardId mod 256), word_of_nat (shardId div 256)], feed] (pushOracleProgramId ac)))"

definition fetchPriceFeedAccount :: "anchor \<Rightarrow> (string \<Rightarrow> 'a option outcome) \<Rightarrow> nat \<Rightarrow> feed_ref \<Rightarrow> 'a option outcome" where
  "fetchPriceFeedAccount ac fetchNullable shardId priceFeedId = e_bind (getPriceFeedAccountForProgram ac shardId priceFeedId) fetchNullable"

text \<open>The feed of an update; the numbers of the message are not looked at.\<close>

definition feed_id_of :: "accumulator_update \<Rightarrow> bytes outcome" where
  "feed_id_of u = e_bind (parsePriceFeedMessage (\<lambda>b. ()) (message u)) (\<lambda>m. Inr (msgFeedId m))"

record built =
  postInstructions :: "InstructionWithEphemeralSigners list"
  feedAccounts :: "(string, string) js_map_t"
  closeInstructions :: "InstructionWithEphemeralSigners list"

definition built_nothing :: built where
  "built_nothing = \<lparr>postInstructions = [], feedAccounts = [], closeInstructions = []\<rparr>"

text \<open>The key pair comes first; the result has the address and the instructions.\<close>

definition buildPostEncodedVaaInstructions ::
    "anchor \<Rightarrow> nat \<Rightarrow> bytes \<Rightarrow> (InstructionWithEphemeralSigners list \<times> string \<times> InstructionWithEphemeralSigners list) outcome" where
  "buildPostEncodedVaaInstructions ac k vaa =
     (let encodedVaa = newKeypair ac k in
      e_bind (getGuardianSetIndex vaa) (\<lambda>index.
      e_bind (buildEncodedVaaCreateInstruction ac vaa encodedVaa) (\<lambda>create.
      e_bind (anchor_ix ac (InitEncodedVaa encodedVaa) [] (Some INIT_ENCODED_VAA_COMPUTE_BUDGET)) (\<lambda>init.
      e_bind (buildWriteEncodedVaaWithSplitInstructions ac vaa encodedVaa) (\<lambda>writes.
      e_bind (anchor_ix ac (VerifyEncodedVaaV1 (getGuardianSetPda ac index) encodedVaa) [] (Some VERIFY_ENCODED_VAA_COMPUTE_BUDGET)) (\<lambda>verify.
      e_bind (buildCloseEncodedVaaInstruction ac encodedVaa) (\<lambda>close.
      Inr ([create, init] @ writes @ [verify], encodedVaa, [close]))))))))"

text \<open>Updating price feed accounts.\<close>

fun update_feeds :: "anchor \<Rightarrow> nat \<Rightarrow> nat \<Rightarrow> string \<Rightarrow> accumulator_update list \<Rightarrow> built \<Rightarrow> built outcome" where
  "update_feeds ac treasuryId shardId encodedVaa [] b = Inr b"
| "update_feeds ac treasuryId shardId encodedVaa (u # us) b =
     e_bind (feed_id_of u) (\<lambda>feedId.
     e_bind (getPriceFeedAccountForProgram ac shardId (FeedBuffer feedId)) (\<lambda>account.
     e_bind (anchor_ix ac (UpdatePriceFeed u treasuryId shardId feedId (receiverProgramId ac) encodedVaa account (getTreasuryPda ac treasuryId) (getConfigPda ac))
               [] (Some UPDATE_PRICE_FEED_COMPUTE_BUDGET)) (\<lambda>ix.
     update_feeds ac treasuryId shardId encodedVaa us
       (b\<lparr>postInstructions := postInstructions b @ [ix], feedAccounts := map_set (''0x'' @ to_hex feedId) account (feedAccounts b)\<rparr>))))"

fun update_messages :: "anchor \<Rightarrow> nat \<Rightarrow> nat \<Rightarrow> nat \<Rightarrow> string list \<Rightarrow> built \<Rightarrow> built outcome" where
  "update_messages ac treasuryId shardId k [] b = Inr b"
| "update_messages ac treasuryId shardId k (d # ds) b =
     e_bind (parseAccumulatorUpdateData (from_base64 d)) (\<lambda>acc.
     e_bind (buildPostEncodedVaaInstructions ac k (accVaa acc)) (\<lambda>(post, encodedVaa, close).
     e_bind (update_feeds ac treasuryId shardId encodedVaa (accUpdates acc)
               (b\<lparr>postInstructions := postInstructions b @ post, closeInstructions := closeInstructions b @ close\<rparr>)) (\<lambda>b'.
     update_messages ac treasuryId shardId (Suc k) ds b')))"

definition buildUpdatePriceFeedInstructions :: "anchor \<Rightarrow> rat \<Rightarrow> nat \<Rightarrow> string list \<Rightarrow> nat \<Rightarrow> built outcome" where
  "buildUpdatePriceFeedInstructions ac random k priceUpdateDataArray shardId =
     update_messages ac (getRandomTreasuryId random) shardId k priceUpdateDataArray built_nothing"

text \<open>Posting into price update accounts; each takes a key pair, so the loops return the number of the next one.\<close>

fun post_updates :: "anchor \<Rightarrow> nat \<Rightarrow> string \<Rightarrow> nat \<Rightarrow> accumulator_update list \<Rightarrow> built \<Rightarrow> (built \<times> nat) outcome" where
  "post_updates ac treasuryId encodedVaa k [] b = Inr (b, k)"
| "post_updates ac treasuryId encodedVaa k (u # us) b =
     (let account = newKeypair ac k in
      e_bind (anchor_ix ac (PostUpdate u treasuryId encodedVaa account (getTreasuryPda ac treasuryId) (getConfigPda ac)) [account]
                (Some POST_UPDATE_COMPUTE_BUDGET)) (\<lambda>ix.
      e_bind (feed_id_of u) (\<lambda>feedId.
      e_bind (buildClosePriceUpdateInstruction ac account) (\<lambda>close.
      post_updates ac treasuryId encodedVaa (Suc k) us
        (b\<lparr>postInstructions := postInstructions b @ [ix], feedAccounts := map_set (''0x'' @ to_hex feedId) account (feedAccounts b),
           closeInstructions := closeInstructions b @ [close]\<rparr>)))))"

fun post_messages :: "anchor \<Rightarrow> nat \<Rightarrow> nat \<Rightarrow> string list \<Rightarrow> built \<Rightarrow> built outcome" where
  "post_messages ac treasuryId k [] b = Inr b"
| "post_messages ac treasuryId k (d # ds) b =
     e_bind (parseAccumulatorUpdateData (from_base64 d)) (\<lambda>acc.
     e_bind (buildPostEncodedVaaInstructions ac k (accVaa acc)) (\<lambda>(post, encodedVaa, close).
     e_bind (post_updates ac treasuryId encodedVaa (Suc k) (accUpdates acc)
               (b\<lparr>postInstructions := postInstructions b @ post, closeInstructions := closeInstructions b @ close\<rparr>)) (\<lambda>(b', k').
     post_messages ac treasuryId k' ds b')))"

definition buildPostPriceUpdateInstructions :: "anchor \<Rightarrow> rat \<Rightarrow> nat \<Rightarrow> string list \<Rightarrow> built outcome" where
  "buildPostPriceUpdateInstructions ac random k priceUpdateDataArray =
     post_messages ac (getRandomTreasuryId random) k priceUpdateDataArray built_nothing"

text \<open>The same in one instruction per update, with five of the signatures.\<close>

fun post_atomic_updates :: "anchor \<Rightarrow> nat \<Rightarrow> bytes \<Rightarrow> nat \<Rightarrow> nat \<Rightarrow> accumulator_update list \<Rightarrow> built \<Rightarrow> (built \<times> nat) outcome" where
  "post_atomic_updates ac treasuryId trimmedVaa index k [] b = Inr (b, k)"
| "post_atomic_updates ac treasuryId trimmedVaa index k (u # us) b =
     (let account = newKeypair ac k in
      e_bind (anchor_ix ac (PostUpdateAtomic trimmedVaa u treasuryId account (getTreasuryPda ac treasuryId) (getConfigPda ac) (getGuardianSetPda ac index)) [account]
                (Some POST_UPDATE_ATOMIC_COMPUTE_BUDGET)) (\<lambda>ix.
      e_bind (feed_id_of u) (\<lambda>feedId.
      e_bind (buildClosePriceUpdateInstruction ac account) (\<lambda>close.
      post_atomic_updates ac treasuryId trimmedVaa index (Suc k) us
        (b\<lparr>postInstructions := postInstructions b @ [ix], feedAccounts := map_set (''0x'' @ to_hex feedId) account (feedAccounts b),
           closeInstructions := closeInstructions b @ [close]\<rparr>)))))"

fun post_atomic_messages :: "anchor \<Rightarrow> nat \<Rightarrow> nat \<Rightarrow> string list \<Rightarrow> built \<Rightarrow> built outcome" where
  "post_atomic_messages ac treasuryId k [] b = Inr b"
| "post_atomic_messages ac treasuryId k (d # ds) b =
     e_bind (parseAccumulatorUpdateData (from_base64 d)) (\<lambda>acc.
     e_bind (getGuardianSetIndex (accVaa acc)) (\<lambda>index.
     e_bind (trimSignatures (accVaa acc) DEFAULT_REDUCED_GUARDIAN_SET_SIZE) (\<lambda>trimmedVaa.
     e_bind (post_atomic_updates ac treasuryId trimmedVaa index k (accUpdates acc) b) (\<lambda>(b', k').
     post_atomic_messages ac treasuryId k' ds b'))))"

definition buildPostPriceUpdateAtomicInstructions :: "anchor \<Rightarrow> rat \<Rightarrow> nat \<Rightarrow> string list \<Rightarrow> built outcome" where
  "buildPostPriceUpdateAtomicInstructions ac random k priceUpdateDataArray =
     post_atomic_messages ac (getRandomTreasuryId random) k priceUpdateDataArray built_nothing"

subsection \<open>The builder: \<^verbatim>\<open>PythTransactionBuilder\<close>\<close>

text \<open>\<open>pbAdded\<close> counts the instructions that were added: each takes the next random number for its tip account.\<close>

record PythTransactionBuilder =
  pbBuilder :: TransactionBuilder
  pbAdded :: nat
  pbClose :: "InstructionWithEphemeralSigners list"
  pbAccounts :: "(string, string) js_map_t"
  closeUpdateAccounts :: bool

definition pyth_builder_new :: "string \<Rightarrow> bool option \<Rightarrow> PythTransactionBuilder" where
  "pyth_builder_new wallet close =
     \<lparr>pbBuilder = builder_new wallet None, pbAdded = 0, pbClose = [], pbAccounts = [], closeUpdateAccounts = (case close of None \<Rightarrow> True | Some c \<Rightarrow> c)\<rparr>"

definition pyth_addInstructions ::
    "web3 \<Rightarrow> (nat \<Rightarrow> nat) \<Rightarrow> InstructionWithEphemeralSigners list \<Rightarrow> PythTransactionBuilder \<Rightarrow> PythTransactionBuilder" where
  "pyth_addInstructions w random ixs pb =
     pb\<lparr>pbBuilder := addInstructions w random (pbAdded pb) ixs (pbBuilder pb), pbAdded := pbAdded pb + length ixs\<rparr>"

text \<open>The three methods that add updates differ in the instructions they ask the receiver for.\<close>

definition add_built :: "web3 \<Rightarrow> (nat \<Rightarrow> nat) \<Rightarrow> built outcome \<Rightarrow> (PythTransactionBuilder, unit) stateful" where
  "add_built w random answer pb =
     (case answer of
        Inl e \<Rightarrow> (Inl e, pb)
      | Inr b \<Rightarrow>
          (Inr (), pyth_addInstructions w random (postInstructions b)
             (pb\<lparr>pbClose := pbClose pb @ closeInstructions b, pbAccounts := fold (\<lambda>(f, a) m. map_set f a m) (feedAccounts b) (pbAccounts pb)\<rparr>)))"

definition addPostPriceUpdates :: "web3 \<Rightarrow> (nat \<Rightarrow> nat) \<Rightarrow> anchor \<Rightarrow> rat \<Rightarrow> nat \<Rightarrow> string list \<Rightarrow> (PythTransactionBuilder, unit) stateful" where
  "addPostPriceUpdates w random ac r k data = add_built w random (buildPostPriceUpdateInstructions ac r k data)"

definition addPostPartiallyVerifiedPriceUpdates ::
    "web3 \<Rightarrow> (nat \<Rightarrow> nat) \<Rightarrow> anchor \<Rightarrow> rat \<Rightarrow> nat \<Rightarrow> string list \<Rightarrow> (PythTransactionBuilder, unit) stateful" where
  "addPostPartiallyVerifiedPriceUpdates w random ac r k data = add_built w random (buildPostPriceUpdateAtomicInstructions ac r k data)"

definition addUpdatePriceFeed :: "web3 \<Rightarrow> (nat \<Rightarrow> nat) \<Rightarrow> anchor \<Rightarrow> rat \<Rightarrow> nat \<Rightarrow> string list \<Rightarrow> nat \<Rightarrow> (PythTransactionBuilder, unit) stateful" where
  "addUpdatePriceFeed w random ac r k data shardId = add_built w random (buildUpdatePriceFeedInstructions ac r k data shardId)"

definition getPriceUpdateAccount :: "PythTransactionBuilder \<Rightarrow> string \<Rightarrow> string outcome" where
  "getPriceUpdateAccount pb priceFeedId =
     (case map_get (pbAccounts pb) priceFeedId of
        None \<Rightarrow> Inl (mk_error (''No price update account found for the price feed ID '' @ priceFeedId @ ''. Make sure to call addPostPriceUpdates or addPostPartiallyVerifiedPriceUpdates before calling this function.''))
      | Some a \<Rightarrow> Inr a)"

definition addPriceConsumerInstructions ::
    "web3 \<Rightarrow> (nat \<Rightarrow> nat) \<Rightarrow> ((string \<Rightarrow> string outcome) \<Rightarrow> InstructionWithEphemeralSigners list outcome) \<Rightarrow> (PythTransactionBuilder, unit) stateful" where
  "addPriceConsumerInstructions w random getInstructions pb =
     (case getInstructions (getPriceUpdateAccount pb) of
        Inl e \<Rightarrow> (Inl e, pb)
      | Inr ixs \<Rightarrow> (Inr (), pyth_addInstructions w random ixs pb))"

definition addClosePreviousEncodedVaasInstructions ::
    "web3 \<Rightarrow> (nat \<Rightarrow> nat) \<Rightarrow> anchor \<Rightarrow> string list outcome \<Rightarrow> int option \<Rightarrow> (PythTransactionBuilder, unit) stateful" where
  "addClosePreviousEncodedVaasInstructions w random ac owned maxInstructions pb =
     (case buildClosePreviousEncodedVaasInstructions ac owned (case maxInstructions of None \<Rightarrow> 40 | Some n \<Rightarrow> n) of
        Inl e \<Rightarrow> (Inl e, pb)
      | Inr ixs \<Rightarrow> (Inr (), pyth_addInstructions w random ixs pb))"

text \<open>Building adds the closing instructions first.\<close>

definition with_closing :: "web3 \<Rightarrow> (nat \<Rightarrow> nat) \<Rightarrow> PythTransactionBuilder \<Rightarrow> PythTransactionBuilder" where
  "with_closing w random pb = (if closeUpdateAccounts pb then pyth_addInstructions w random (pbClose pb) pb else pb)"

definition pyth_buildVersionedTransactions ::
    "web3 \<Rightarrow> (nat \<Rightarrow> nat) \<Rightarrow> (nat \<Rightarrow> nat) \<Rightarrow> string outcome \<Rightarrow> PriorityFeeConfig \<Rightarrow> (PythTransactionBuilder, (TransactionMessage \<times> string list) list) stateful" where
  "pyth_buildVersionedTransactions w random random' blockhash args pb =
     (let pb' = with_closing w random pb in (buildVersionedTransactions w random' blockhash args (pbBuilder pb'), pb'))"

definition pyth_buildLegacyTransactions ::
    "web3 \<Rightarrow> (nat \<Rightarrow> nat) \<Rightarrow> (nat \<Rightarrow> nat) \<Rightarrow> PriorityFeeConfig \<Rightarrow> PythTransactionBuilder \<Rightarrow> (TransactionInstruction list \<times> string list) list \<times> PythTransactionBuilder" where
  "pyth_buildLegacyTransactions w random random' args pb =
     (let pb' = with_closing w random pb in (buildLegacyTransactions w random' args (pbBuilder pb'), pb'))"

subsection \<open>Trimmed messages\<close>

text \<open>
  C13.  A message whose signatures are cut down to \<open>n\<close> is read as the same message with its first \<open>n\<close> signatures: body, hash and guardian set
  are unchanged.  With more signatures asked for than there are the function throws.
\<close>

theorem trimmed_vaa_parses:
  assumes "parseVaa keccak256 vaa = Inr v"
  shows "if n \<le> length (guardianSignatures v)
    then \<exists>d. trimSignatures vaa n = Inr d \<and> parseVaa keccak256 d = Inr (v\<lparr>guardianSignatures := take n (guardianSignatures v)\<rparr>)
    else trimSignatures vaa n = Inl (mk_error ''Resulting VAA can't have more signatures than the original VAA'')"
proof -
  note sigs = parsed_signatures[OF assms]
  have len: "length (guardianSignatures v) = unat (vaa ! 5)" by (simp add: sigs(1))
  have at: "buf_at vaa 5 = Some (vaa ! 5)" using sigs(4) by (simp add: buf_at_def)
  have "\<exists>d. trimSignatures vaa n = Inr d \<and> parseVaa keccak256 d = Inr (v\<lparr>guardianSignatures := take n (guardianSignatures v)\<rparr>)"
    if n: "n \<le> unat (vaa ! 5)"
  proof -
    let ?m = "unat (vaa ! 5)"
    define d where "d = (take (6 + n * 66) vaa @ drop (6 + ?m * 66) vaa)[5 := word_of_nat n]"
    have trim: "trimSignatures vaa n = Inr d" using n by (simp add: trimSignatures_def at d_def VAA_SIGNATURE_SIZE_def)
    have n256: "n < 256" using n unat_byte_less[of "vaa ! 5"] by simp
    have l: "6 + n * 66 \<le> length vaa" using n sigs(5) by simp
    have d_low: "d ! i = vaa ! i" if "i < 6 + n * 66" "i \<noteq> 5" for i using that l by (simp add: d_def nth_append)
    have ld: "6 + n * 66 \<le> length d" using l by (simp add: d_def)
    have take_eq: "take j (drop i d) = take j (drop i vaa)" if "i + j \<le> 6 + n * 66" "i > 5 \<or> i + j \<le> 5" for i j
    proof (rule nth_equalityI)
      show "length (take j (drop i d)) = length (take j (drop i vaa))" using that l ld by simp
      fix q assume "q < length (take j (drop i d))"
      then show "take j (drop i d) ! q = take j (drop i vaa) ! q" using that l ld d_low[of "i + q"] by (auto simp: nth_append)
    qed
    have d5: "d ! 5 = word_of_nat n" using l by (simp add: d_def)
    have u5: "unat (word_of_nat n :: byte) = n" using n256 by (simp add: unat_of_nat)
    have "drop (6 + 66 * n) d = drop (6 + ?m * 66) vaa"
      using l by (simp add: d_def mult.commute)
    then have body: "vaa_body_of d = vaa_body_of vaa"
      using ld sigs(3) at by (simp add: vaa_body_of_def buf_at_def d5 u5 mult.commute)
    have r: "read_be 4 d 1 = read_be 4 vaa 1"
      using take_eq[of 1 4] ld l by (simp add: read_be_def)
    have g: "read_be 4 vaa 1 = Inr (guardianSetIndex v)" using assms by (auto simp: parseVaa_def Let_def e_bind_Inr_iff)
    have sig: "read_signature d i = read_signature vaa i" if "i < n" for i
    proof -
      have "6 + i * 66 + 66 \<le> 6 + n * 66" using that by simp
      then show ?thesis
        using take_eq[of "6 + i * 66 + 1" 65] d_low[of "6 + i * 66"] ld l by (simp add: read_signature_def Let_def buf_at_def subarray_def)
    qed
    have sigs': "map (read_signature d) [0..<unat (word_of_nat n :: byte)] = take n (guardianSignatures v)"
      using sig n by (simp add: u5 sigs(1) take_map)
    have "buf_at d 0 = buf_at vaa 0" using d_low[of 0] ld l by (auto simp: buf_at_def)
    from parse_same_body[OF assms body this r[unfolded g] _ sigs'] have "parseVaa keccak256 d = Inr (v\<lparr>guardianSetIndex := guardianSetIndex v, guardianSignatures := take n (guardianSignatures v)\<rparr>)"
      using ld d5 by (simp add: buf_at_def)
    then show ?thesis using trim by simp
  qed
  then show ?thesis using len by (auto simp: trimSignatures_def at)
qed

definition six_signatures :: bytes where
  "six_signatures = [1, 0, 0, 0, 3, 6] @ replicate 396 7 @ replicate 60 9"

theorem trimmed_vaa_parses_witness:
  "\<exists>v d. parseVaa id six_signatures = Inr v \<and> trimSignatures six_signatures 5 = Inr d \<and>
     parseVaa id d = Inr (v\<lparr>guardianSignatures := take 5 (guardianSignatures v)\<rparr>)"
proof -
  have five: "six_signatures ! 5 = 6" by (simp add: six_signatures_def)
  have "\<exists>v. parseVaa id six_signatures = Inr v"
    using parseVaa_accepts[of id six_signatures] five by (auto simp: six_signatures_def)
  then obtain v where v: "parseVaa id six_signatures = Inr v" by blast
  have "length (guardianSignatures v) = 6" using parsed_signatures(1)[OF v] five by simp
  then show ?thesis using trimmed_vaa_parses[OF v, of 5] v by auto
qed

subsection \<open>What the programs check\<close>

text \<open>
  The checks of the Solana programs on the accounts and arguments of an update, as their Rust sources have them.  \<^verbatim>\<open>update_price_feed\<close> of \<^verbatim>\<open>pyth-push-oracle\<close> takes a
  \<^verbatim>\<open>u16\<close>, a feed identifier of 32 bytes and the account with these two as seeds; the message must be a price message, and of that feed.  It hands the accounts on
  to \<^verbatim>\<open>post_update\<close> of \<^verbatim>\<open>pyth-solana-receiver\<close>, which checks the seeds of the configuration and of the treasury.  Guardian sets are found by their index.
\<close>

definition to_le_bytes :: "nat \<Rightarrow> nat \<Rightarrow> bytes" where
  "to_le_bytes n v = map (\<lambda>i. word_of_nat (v div 256 ^ i)) [0..<n]"

definition to_be_bytes :: "nat \<Rightarrow> nat \<Rightarrow> bytes" where
  "to_be_bytes n v = rev (to_le_bytes n v)"

text \<open>The feed of a message in the wire format: the tag, the identifier and 52 bytes of numbers; bytes behind are ignored.\<close>

definition price_message_feed :: "bytes \<Rightarrow> bytes option" where
  "price_message_feed m = (if 85 \<le> length m \<and> hd m = 0 then Some (take 32 (drop 1 m)) else None)"

definition get_config_address :: "anchor \<Rightarrow> string" where
  "get_config_address ac = findProgramAddress ac [ascii_bytes ''config''] (receiverProgramId ac)"

definition get_treasury_address :: "anchor \<Rightarrow> nat \<Rightarrow> string" where
  "get_treasury_address ac treasury_id = findProgramAddress ac [ascii_bytes ''treasury'', to_le_bytes 1 treasury_id] (receiverProgramId ac)"

definition get_price_feed_address :: "anchor \<Rightarrow> nat \<Rightarrow> bytes \<Rightarrow> string" where
  "get_price_feed_address ac shard_id feed_id = findProgramAddress ac [to_le_bytes 2 shard_id, feed_id] (pushOracleProgramId ac)"

definition guardian_set_address :: "anchor \<Rightarrow> nat \<Rightarrow> string" where
  "guardian_set_address ac index = findProgramAddress ac [ascii_bytes ''GuardianSet'', to_be_bytes 4 index] (wormholeProgramId ac)"

fun update_price_feed_checks :: "anchor \<Rightarrow> program_call \<Rightarrow> bool" where
  "update_price_feed_checks ac (UpdatePriceFeed u treasury_id shard_id feed_id receiver encoded_vaa price_feed_account treasury config) \<longleftrightarrow>
     treasury_id < 256 \<and> shard_id < 65536 \<and> length feed_id = 32 \<and> receiver = receiverProgramId ac \<and>
     price_feed_account = get_price_feed_address ac shard_id feed_id \<and> price_message_feed (message u) = Some feed_id \<and>
     config = get_config_address ac \<and> treasury = get_treasury_address ac treasury_id"
| "update_price_feed_checks ac _ \<longleftrightarrow> True"

text \<open>The addresses that the client derives are those that the programs derive.\<close>

lemma byte_chain: "(word_of_nat (v mod 256) :: byte) = word_of_nat v"
  by (simp add: word_of_nat_eq_iff take_bit_eq_mod)

text \<open>Instructions that were built from calls, with the signers that the calls need.\<close>

fun call_signers :: "program_call \<Rightarrow> string list" where
  "call_signers (CreateEncodedVaa e n) = [e]"
| "call_signers _ = []"

definition made_of :: "anchor \<Rightarrow> program_call list \<Rightarrow> InstructionWithEphemeralSigners list \<Rightarrow> bool" where
  "made_of ac calls ixs \<longleftrightarrow> list_all2 (\<lambda>c i. methodInstruction ac c = Inr (instruction i) \<and> ephemeralSigners i = call_signers c) calls ixs"

lemma made_of_append: "made_of ac cs xs \<Longrightarrow> made_of ac ds ys \<Longrightarrow> made_of ac (cs @ ds) (xs @ ys)"
  by (simp add: made_of_def list_all2_appendI)

lemma anchor_ix_made: "anchor_ix ac c (call_signers c) n = Inr i \<Longrightarrow> made_of ac [c] [i]"
  by (auto simp: anchor_ix_def made_of_def e_bind_Inr_iff)

text \<open>
  The calls for one message, with the \<open>k\<close>-th key pair: an account is created, large enough for its header and the message, the message is written into it in two parts and verified
  against the guardian set that signed it; then every update of the message is applied, against that account and to the account of its feed.
\<close>

definition vaa_calls :: "anchor \<Rightarrow> string \<Rightarrow> bytes \<Rightarrow> program_call list" where
  "vaa_calls ac e vaa =
     [CreateEncodedVaa e (length vaa + 46), InitEncodedVaa e, WriteEncodedVaa e 0 (take 755 vaa), WriteEncodedVaa e 755 (drop 755 vaa),
      VerifyEncodedVaaV1 (guardian_set_address ac (be_decode (take 4 (drop 1 vaa)))) e]"

definition feed_call :: "anchor \<Rightarrow> nat \<Rightarrow> nat \<Rightarrow> string \<Rightarrow> accumulator_update \<Rightarrow> program_call" where
  "feed_call ac t sh e u =
     (let f = take 32 (drop 1 (message u))
      in UpdatePriceFeed u t sh f (receiverProgramId ac) e (get_price_feed_address ac sh f) (get_treasury_address ac t) (get_config_address ac))"

definition message_calls :: "anchor \<Rightarrow> nat \<Rightarrow> nat \<Rightarrow> nat \<Rightarrow> AccumulatorUpdateData \<Rightarrow> program_call list" where
  "message_calls ac t sh k a = vaa_calls ac (newKeypair ac k) (accVaa a) @ map (feed_call ac t sh (newKeypair ac k)) (accUpdates a)"

definition closing_calls :: "anchor \<Rightarrow> nat \<Rightarrow> nat \<Rightarrow> program_call list" where
  "closing_calls ac k n = map (\<lambda>i. CloseEncodedVaa (newKeypair ac i)) [k..<k + n]"

lemma be_encode_bytes: "be_encode n v = to_be_bytes n v"
proof (induction n arbitrary: v)
  case (Suc n)
  have "to_le_bytes (Suc n) v = word_of_nat v # to_le_bytes n (v div 256)"
    by (simp add: to_le_bytes_def map_upt_Suc div_mult2_eq del: upt_Suc)
  then show ?case using Suc[of "v div 256"] by (simp add: to_be_bytes_def byte_chain)
qed (simp add: to_be_bytes_def to_le_bytes_def)

lemma guardian_address: "getGuardianSetPda ac i = guardian_set_address ac i"
  by (simp add: getGuardianSetPda_def guardian_set_address_def be_encode_bytes)

lemma treasury_address: "getTreasuryPda ac t = get_treasury_address ac t"
  by (simp add: getTreasuryPda_def get_treasury_address_def to_le_bytes_def)

lemma feed_address:
  assumes "getPriceFeedAccountForProgram ac sh (FeedBuffer f) = Inr a"
  shows "length f = 32" "sh < 65536" "a = get_price_feed_address ac sh f"
  using assms by (auto simp: getPriceFeedAccountForProgram_def get_price_feed_address_def to_le_bytes_def byte_chain numeral_2_eq_2 Let_def split: if_splits)

lemma post_vaa_made:
  assumes "buildPostEncodedVaaInstructions ac k vaa = Inr (post, e, close)"
  shows "e = newKeypair ac k \<and> made_of ac (vaa_calls ac e vaa) post \<and> made_of ac [CloseEncodedVaa e] close"
  using assms
  by (auto simp: buildPostEncodedVaaInstructions_def buildEncodedVaaCreateInstruction_def buildWriteEncodedVaaWithSplitInstructions_def
      buildCloseEncodedVaaInstruction_def anchor_ix_def made_of_def vaa_calls_def Let_def e_bind_Inr_iff getGuardianSetIndex_def read_be_def
      guardian_address VAA_START_def VAA_SPLIT_INDEX_def split: if_splits)

lemma feed_id_prefix: "feed_id_of u = Inr f \<Longrightarrow> f = take 32 (drop 1 (message u)) \<and> message u \<noteq> [] \<and> hd (message u) = 0"
  by (cases "message u")
    (auto simp: feed_id_of_def parsePriceFeedMessage_def e_bind_Inr_iff read_be_def be_decode_def subarray_def unat_eq_0 split: if_splits)

lemma update_feeds_made:
  assumes "update_feeds ac t sh e us b = Inr b'"
  shows "\<exists>ixs. postInstructions b' = postInstructions b @ ixs \<and> closeInstructions b' = closeInstructions b \<and> made_of ac (map (feed_call ac t sh e) us) ixs \<and>
    (\<forall>u \<in> set us. sh < 65536 \<and> hd (message u) = 0)"
  using assms
proof (induction us arbitrary: b)
  case Nil
  then show ?case by (simp add: made_of_def)
next
  case (Cons u us)
  let ?b = "\<lambda>f a i. b\<lparr>postInstructions := postInstructions b @ [i], feedAccounts := map_set (''0x'' @ to_hex f) a (feedAccounts b)\<rparr>"
  obtain f a i where f: "feed_id_of u = Inr f" "getPriceFeedAccountForProgram ac sh (FeedBuffer f) = Inr a"
    and i: "anchor_ix ac (UpdatePriceFeed u t sh f (receiverProgramId ac) e a (getTreasuryPda ac t) (getConfigPda ac)) []
      (Some UPDATE_PRICE_FEED_COMPUTE_BUDGET) = Inr i" and rest: "update_feeds ac t sh e us (?b f a i) = Inr b'"
    using Cons.prems by (auto simp: e_bind_Inr_iff)
  obtain ixs where c: "postInstructions b' = postInstructions b @ [i] @ ixs" "closeInstructions b' = closeInstructions b"
    "made_of ac (map (feed_call ac t sh e) us) ixs" "\<forall>u \<in> set us. sh < 65536 \<and> hd (message u) = 0"
    using Cons.IH[OF rest] by auto
  have "UpdatePriceFeed u t sh f (receiverProgramId ac) e a (getTreasuryPda ac t) (getConfigPda ac) = feed_call ac t sh e u"
    using feed_id_prefix[OF f(1)] feed_address[OF f(2)] by (simp add: feed_call_def Let_def treasury_address getConfigPda_def get_config_address_def)
  then have "made_of ac [feed_call ac t sh e u] [i]" using anchor_ix_made[of ac "feed_call ac t sh e u"] i by (simp add: feed_call_def Let_def)
  then have "made_of ac (map (feed_call ac t sh e) (u # us)) ([i] @ ixs)" using made_of_append[OF _ c(3)] by fastforce
  then show ?case using c feed_id_prefix[OF f(1)] feed_address(2)[OF f(2)] by (intro exI[of _ "[i] @ ixs"]) simp
qed

lemma update_messages_made:
  assumes "update_messages ac t sh k ds b = Inr b'" "e_map (\<lambda>d. parseAccumulatorUpdateData (from_base64 d)) ds = Inr msgs"
  shows "\<exists>ixs cixs. postInstructions b' = postInstructions b @ ixs \<and> closeInstructions b' = closeInstructions b @ cixs \<and>
    made_of ac (concat (map2 (message_calls ac t sh) [k..<k + length msgs] msgs)) ixs \<and> made_of ac (closing_calls ac k (length msgs)) cixs \<and>
    (\<forall>a \<in> set msgs. \<forall>u \<in> set (accUpdates a). sh < 65536 \<and> hd (message u) = 0)"
  using assms
proof (induction ds arbitrary: k b msgs)
  case Nil
  then show ?case by (simp add: made_of_def closing_calls_def)
next
  case (Cons d ds)
  obtain acc post e close b1 msgs' where acc: "parseAccumulatorUpdateData (from_base64 d) = Inr acc"
    and post: "buildPostEncodedVaaInstructions ac k (accVaa acc) = Inr (post, e, close)"
    and feeds: "update_feeds ac t sh e (accUpdates acc)
      (b\<lparr>postInstructions := postInstructions b @ post, closeInstructions := closeInstructions b @ close\<rparr>) = Inr b1"
    and rest: "update_messages ac t sh (Suc k) ds b1 = Inr b'"
    and msgs: "e_map (\<lambda>d. parseAccumulatorUpdateData (from_base64 d)) ds = Inr msgs'" "msgs = acc # msgs'"
    using Cons.prems by (auto simp: e_bind_Inr_iff)
  from post_vaa_made[OF post] have e: "e = newKeypair ac k" and g: "made_of ac (vaa_calls ac e (accVaa acc)) post"
    and close: "made_of ac [CloseEncodedVaa e] close" by auto
  from update_feeds_made[OF feeds] obtain ixs1 where u: "postInstructions b1 = postInstructions b @ post @ ixs1"
    "closeInstructions b1 = closeInstructions b @ close" "made_of ac (map (feed_call ac t sh e) (accUpdates acc)) ixs1"
    "\<forall>u \<in> set (accUpdates acc). sh < 65536 \<and> hd (message u) = 0" by auto
  from Cons.IH[OF rest msgs(1)] obtain ixs cixs where r: "postInstructions b' = postInstructions b1 @ ixs"
    "closeInstructions b' = closeInstructions b1 @ cixs" "made_of ac (concat (map2 (message_calls ac t sh) [Suc k..<Suc k + length msgs'] msgs')) ixs"
    "made_of ac (closing_calls ac (Suc k) (length msgs')) cixs" "\<forall>a \<in> set msgs'. \<forall>u \<in> set (accUpdates a). sh < 65536 \<and> hd (message u) = 0" by blast
  have range: "[k..<k + length msgs] = k # [Suc k..<Suc k + length msgs']" by (simp add: msgs(2) upt_conv_Cons del: upt_Suc)
  have calls: "concat (map2 (message_calls ac t sh) [k..<k + length msgs] msgs) =
      message_calls ac t sh k acc @ concat (map2 (message_calls ac t sh) [Suc k..<Suc k + length msgs'] msgs')"
    unfolding range by (simp add: msgs(2) del: upt_Suc)
  have closing: "closing_calls ac k (length msgs) = CloseEncodedVaa e # closing_calls ac (Suc k) (length msgs')"
    unfolding closing_calls_def range by (simp add: e del: upt_Suc)
  have "made_of ac (concat (map2 (message_calls ac t sh) [k..<k + length msgs] msgs)) (post @ ixs1 @ ixs)"
    unfolding calls using made_of_append[OF made_of_append[OF g u(3)] r(3)] by (simp add: message_calls_def[of ac t sh k] e)
  moreover have "made_of ac (closing_calls ac k (length msgs)) (close @ cixs)"
    unfolding closing using made_of_append[OF close r(4)] by simp
  moreover have "\<forall>a \<in> set msgs. \<forall>u \<in> set (accUpdates a). sh < 65536 \<and> hd (message u) = 0" using u(4) r(5) msgs(2) by simp
  ultimately show ?case
    using u(1,2) r(1,2) by - (rule exI[of _ "post @ ixs1 @ ixs"], rule exI[of _ "close @ cixs"], simp del: upt_Suc)
qed

text \<open>
  C12.  The instructions of an update, in their order: for every message the five that create, initialise, fill, in two parts that make up the message, and verify an account of its
  own, against the guardian set with the index that stands in the message; then one per update of the message, in order, for that account; and at the
  end one per message that closes its account.  Only the creation is signed by the key pair of the account.  Every update passes the checks of the programs on its
  accounts and arguments: the account of the feed, the configuration and the treasury have the seeds that the Rust sources ask for, and the message is one of the
  feed that is named.  The messages are whole price messages, of at least 85 bytes, and the random number is less than one.
\<close>

theorem update_instructions_pinned:
  assumes "buildUpdatePriceFeedInstructions ac random k data shardId = Inr b" "0 \<le> random" "random < 1"
    and "e_map (\<lambda>d. parseAccumulatorUpdateData (from_base64 d)) data = Inr msgs"
    and "list_all (\<lambda>a. list_all (\<lambda>u. 85 \<le> length (message u)) (accUpdates a)) msgs"
  shows "\<exists>posts. made_of ac (posts @ closing_calls ac k (length msgs)) (postInstructions b @ closeInstructions b) \<and>
    posts = concat (map2 (message_calls ac (getRandomTreasuryId random) shardId) [k..<k + length msgs] msgs) \<and>
    list_all (update_price_feed_checks ac) posts"
proof -
  let ?t = "getRandomTreasuryId random"
  from update_messages_made[OF assms(1)[unfolded buildUpdatePriceFeedInstructions_def] assms(4)]
  obtain ixs cixs where b: "postInstructions b = ixs" "closeInstructions b = cixs"
    "made_of ac (concat (map2 (message_calls ac ?t shardId) [k..<k + length msgs] msgs)) ixs" "made_of ac (closing_calls ac k (length msgs)) cixs"
    and ok: "\<forall>a \<in> set msgs. \<forall>u \<in> set (accUpdates a). shardId < 65536 \<and> hd (message u) = 0" by (auto simp: built_nothing_def)
  have t: "?t < 256"
  proof -
    have "\<lfloor>random * 256\<rfloor> < 256" using assms(3) by (simp add: floor_less_iff)
    then show ?thesis unfolding getRandomTreasuryId_def by linarith
  qed
  have feed: "update_price_feed_checks ac (feed_call ac ?t shardId e u)" if "a \<in> set msgs" "u \<in> set (accUpdates a)" for a u e
  proof -
    have "85 \<le> length (message u)" "shardId < 65536" "hd (message u) = 0" using that ok assms(5) by (auto simp: list_all_iff)
    then show ?thesis using t by (simp add: feed_call_def Let_def price_message_feed_def)
  qed
  have "update_price_feed_checks ac c" if "c \<in> set (message_calls ac ?t shardId i a)" "a \<in> set msgs" for c i a
    using that feed by (auto simp: message_calls_def vaa_calls_def)
  then have "list_all (update_price_feed_checks ac) (concat (map2 (message_calls ac ?t shardId) [k..<k + length msgs] msgs))"
    by (force simp: list_all_iff dest: set_zip_rightD)
  then show ?thesis using made_of_append[OF b(3,4)] b(1,2) by blast
qed

text \<open>When building succeeds: the programs answer, and the updates are price messages with a whole feed identifier.\<close>

definition anchor_works :: "anchor \<Rightarrow> bool" where
  "anchor_works ac \<longleftrightarrow> (\<forall>c. \<exists>ix. methodInstruction ac c = Inr ix)"

definition postable :: "accumulator_update \<Rightarrow> bool" where
  "postable u \<longleftrightarrow> 53 \<le> length (message u) \<and> hd (message u) = 0"

definition sendable :: "AccumulatorUpdateData \<Rightarrow> bool" where
  "sendable a \<longleftrightarrow> 5 \<le> length (accVaa a) \<and> list_all postable (accUpdates a)"

lemma anchor_ix_ok: "anchor_works ac \<Longrightarrow> \<exists>i. anchor_ix ac c ss n = Inr i"
proof -
  assume "anchor_works ac"
  then obtain ix where "methodInstruction ac c = Inr ix" unfolding anchor_works_def by blast
  then show ?thesis by (simp add: anchor_ix_def)
qed

lemma postable_feed: "postable u \<Longrightarrow> \<exists>f. feed_id_of u = Inr f \<and> length f = 32"
  by (cases "message u") (auto simp: postable_def feed_id_of_def parsePriceFeedMessage_def read_int32_def read_be_def be_decode_def subarray_def)

lemma update_feeds_ok:
  assumes "anchor_works ac" "sh < 65536" "list_all postable us"
  shows "\<exists>b'. update_feeds ac t sh e us b = Inr b' \<and> length (postInstructions b) \<le> length (postInstructions b')"
  using assms(3)
proof (induction us arbitrary: b)
  case (Cons u us)
  obtain f where f: "feed_id_of u = Inr f" "length f = 32" using postable_feed Cons.prems by fastforce
  then obtain acct where acct: "getPriceFeedAccountForProgram ac sh (FeedBuffer f) = Inr acct"
    using assms(2) by (simp add: getPriceFeedAccountForProgram_def)
  obtain i where i: "anchor_ix ac (UpdatePriceFeed u t sh f (receiverProgramId ac) e acct (getTreasuryPda ac t) (getConfigPda ac)) []
      (Some UPDATE_PRICE_FEED_COMPUTE_BUDGET) = Inr i" using anchor_ix_ok[OF assms(1)] by blast
  show ?case
    using Cons.IH[of "b\<lparr>postInstructions := postInstructions b @ [i], feedAccounts := map_set (''0x'' @ to_hex f) acct (feedAccounts b)\<rparr>"] Cons.prems f(1) acct i
    by auto
qed simp

lemma post_vaa_ok:
  assumes "anchor_works ac" "5 \<le> length vaa"
  shows "\<exists>post e close. buildPostEncodedVaaInstructions ac k vaa = Inr (post, e, close) \<and> post \<noteq> []"
proof -
  let ?e = "newKeypair ac k"
  obtain g where g: "getGuardianSetIndex vaa = Inr g" using assms(2) by (simp add: getGuardianSetIndex_def read_be_def)
  obtain c where c: "buildEncodedVaaCreateInstruction ac vaa ?e = Inr c"
    unfolding buildEncodedVaaCreateInstruction_def using anchor_ix_ok[OF assms(1)] by blast
  obtain i where i: "anchor_ix ac (InitEncodedVaa ?e) [] (Some INIT_ENCODED_VAA_COMPUTE_BUDGET) = Inr i" using anchor_ix_ok[OF assms(1)] by blast
  obtain w1 w2 where w: "anchor_ix ac (WriteEncodedVaa ?e 0 (take VAA_SPLIT_INDEX vaa)) [] (Some WRITE_ENCODED_VAA_COMPUTE_BUDGET) = Inr w1"
    "anchor_ix ac (WriteEncodedVaa ?e VAA_SPLIT_INDEX (drop VAA_SPLIT_INDEX vaa)) [] (Some WRITE_ENCODED_VAA_COMPUTE_BUDGET) = Inr w2"
    using anchor_ix_ok[OF assms(1)] by blast
  obtain v where v: "anchor_ix ac (VerifyEncodedVaaV1 (getGuardianSetPda ac g) ?e) [] (Some VERIFY_ENCODED_VAA_COMPUTE_BUDGET) = Inr v"
    using anchor_ix_ok[OF assms(1)] by blast
  obtain cl where cl: "buildCloseEncodedVaaInstruction ac ?e = Inr cl"
    unfolding buildCloseEncodedVaaInstruction_def using anchor_ix_ok[OF assms(1)] by blast
  show ?thesis
    by (simp add: buildPostEncodedVaaInstructions_def buildWriteEncodedVaaWithSplitInstructions_def Let_def g c i w v cl)
qed

lemma update_messages_ok:
  assumes "anchor_works ac" "sh < 65536" "\<forall>d \<in> set ds. \<exists>a. parseAccumulatorUpdateData (from_base64 d) = Inr a \<and> sendable a"
  shows "\<exists>b'. update_messages ac t sh k ds b = Inr b' \<and> length (postInstructions b) + length ds \<le> length (postInstructions b')"
  using assms(3)
proof (induction ds arbitrary: k b)
  case (Cons d ds)
  obtain a where a: "parseAccumulatorUpdateData (from_base64 d) = Inr a" "5 \<le> length (accVaa a)" "list_all postable (accUpdates a)"
    using Cons.prems by (auto simp: sendable_def)
  obtain post e close where p: "buildPostEncodedVaaInstructions ac k (accVaa a) = Inr (post, e, close)" "post \<noteq> []"
    using post_vaa_ok[OF assms(1) a(2)] by blast
  obtain b1 where b1: "update_feeds ac t sh e (accUpdates a)
      (b\<lparr>postInstructions := postInstructions b @ post, closeInstructions := closeInstructions b @ close\<rparr>) = Inr b1"
    "length (postInstructions b) + length post \<le> length (postInstructions b1)"
    using update_feeds_ok[OF assms(1,2) a(3), of t e "b\<lparr>postInstructions := postInstructions b @ post, closeInstructions := closeInstructions b @ close\<rparr>"] by auto
  have "1 \<le> length post" using p(2) by (cases post) auto
  moreover obtain b' where "update_messages ac t sh (Suc k) ds b1 = Inr b'" "length (postInstructions b1) + length ds \<le> length (postInstructions b')"
    using Cons.IH[of "Suc k" b1] Cons.prems by auto
  ultimately show ?case using a(1) p(1) b1 by simp
qed simp

text \<open>One message with one update.\<close>

definition demo_anchor :: anchor where
  "demo_anchor = \<lparr>methodInstruction = (\<lambda>c. Inr \<lparr>programId = ''prog'', ixKeys = [], ixData = to_le_bytes 2 (size c)\<rparr>),
     findProgramAddress = (\<lambda>seeds p. p @ to_hex (concat seeds)), newKeypair = (\<lambda>n. replicate n CHR ''k''),
     receiverProgramId = DEFAULT_RECEIVER_PROGRAM_ID, wormholeProgramId = DEFAULT_WORMHOLE_PROGRAM_ID, pushOracleProgramId = DEFAULT_PUSH_ORACLE_PROGRAM_ID\<rparr>"

definition long_message :: AccumulatorUpdateData where
  "long_message = \<lparr>accVaa = replicate 800 1, accUpdates = [\<lparr>message = replicate 85 0, proof_path = []\<rparr>]\<rparr>"

definition long_vaa :: string where
  "long_vaa = to_base64 (encode_accumulator [] 0 long_message)"

lemma long_vaa_parses: "parseAccumulatorUpdateData (from_base64 long_vaa) = Inr long_message"
proof -
  have "parseAccumulatorUpdateData (encode_accumulator [] 0 long_message) = Inr long_message"
    by (rule parse_encoded) (simp add: accumulator_ok_def update_ok_def long_message_def)
  then show ?thesis by (simp add: long_vaa_def)
qed

lemma long_message_builds: "\<exists>b. buildUpdatePriceFeedInstructions demo_anchor (1 / 2) 3 [long_vaa] 7 = Inr b"
  by (simp add: buildUpdatePriceFeedInstructions_def long_vaa_parses buildPostEncodedVaaInstructions_def getGuardianSetIndex_def long_message_def
      buildEncodedVaaCreateInstruction_def buildWriteEncodedVaaWithSplitInstructions_def buildCloseEncodedVaaInstruction_def anchor_ix_def demo_anchor_def
      feed_id_of_def parsePriceFeedMessage_def read_int32_def read_be_def be_decode_def subarray_def getPriceFeedAccountForProgram_def Let_def)

theorem update_instructions_pinned_witness:
  "\<exists>b. buildUpdatePriceFeedInstructions demo_anchor (1 / 2) 3 [long_vaa] 7 = Inr b \<and>
     made_of demo_anchor (message_calls demo_anchor 128 7 3 long_message @ [CloseEncodedVaa (newKeypair demo_anchor 3)]) (postInstructions b @ closeInstructions b) \<and>
     list_all (update_price_feed_checks demo_anchor) (message_calls demo_anchor 128 7 3 long_message)"
proof -
  obtain b where b: "buildUpdatePriceFeedInstructions demo_anchor (1 / 2) 3 [long_vaa] 7 = Inr b" using long_message_builds by blast
  have "e_map (\<lambda>d. parseAccumulatorUpdateData (from_base64 d)) [long_vaa] = Inr [long_message]" by (simp add: long_vaa_parses)
  moreover have "list_all (\<lambda>a. list_all (\<lambda>u. 85 \<le> length (message u)) (accUpdates a)) [long_message]" by (simp add: long_message_def)
  moreover have "getRandomTreasuryId (1 / 2) = 128" by (simp add: getRandomTreasuryId_def)
  ultimately show ?thesis using update_instructions_pinned[OF b] b by (simp add: closing_calls_def)
qed

text \<open>Building is not free of effects: a second call appends the closing instructions once more, to accounts that the first set of transactions closes.\<close>

lemma built_twice_closes_twice:
  assumes "closeUpdateAccounts pb"
    and "list_all (batch_fits w (payer (pbBuilder pb)) (addressLookupTable (pbBuilder pb))) (transactionInstructions (pbBuilder pb))"
  shows "concat (map batchInstructions (transactionInstructions (pbBuilder (with_closing w random (with_closing w random pb))))) =
    concat (map batchInstructions (transactionInstructions (pbBuilder pb))) @ map instruction (pbClose pb) @ map instruction (pbClose pb)"
proof -
  let ?b = "addInstructions w random (pbAdded pb) (pbClose pb) (pbBuilder pb)"
  have "list_all (batch_fits w (payer ?b) (addressLookupTable ?b)) (transactionInstructions ?b)"
    using addInstructions_spec[OF assms(2)] by simp
  from addInstructions_spec[OF this] show ?thesis
    using addInstructions_spec[OF assms(2)] assms(1) by (simp add: with_closing_def pyth_addInstructions_def)
qed

end
