(* ===== verification/Solana_Pusher.thy ===== *)
theory Solana_Pusher
  imports Price_Pusher Solana_Receiver
begin

section \<open>The Solana price pushers: \<^verbatim>\<open>apps/price_pusher/src/solana/solana.ts\<close>\<close>

text \<open>
  The listener and the two pushers: one sends the transactions of an update one after the other, the other cuts the update into bundles.
  The instructions come from \<open>Solana_Receiver\<close>, their batching and the sending from \<open>Solana_Tx\<close>, the cutting from \<open>Pyth_Accumulator\<close>.
  \<open>getLatestVaas\<close> is the price service.
\<close>

record price_account =
  paConf :: int
  paPrice :: int
  paPublishTime :: int

text \<open>\<^verbatim>\<open>toNumber\<close> of \<^verbatim>\<open>BN\<close> throws above 53 bits; every throw is caught.\<close>

definition solana_getOnChainPriceInfo :: "anchor \<Rightarrow> (string \<Rightarrow> price_account option outcome) \<Rightarrow> nat \<Rightarrow> string \<Rightarrow> PriceInfo option" where
  "solana_getOnChainPriceInfo ac fetchNullable shardId priceId =
     (case fetchPriceFeedAccount ac fetchNullable shardId (FeedBuffer (from_hex priceId)) of
        Inr (Some a) \<Rightarrow>
          if \<bar>paPublishTime a\<bar> \<le> max_safe
          then Some \<lparr>infoPrice = show_int (paPrice a), infoConf = show_int (paConf a), infoPublishTime = Num (paPublishTime a)\<rparr>
          else None
      | _ \<Rightarrow> None)"

text \<open>What the \<open>k\<close>-th builder of a push gets from outside: key pairs, random numbers, a block hash.\<close>

record solana_receiver =
  rcvAnchor :: "nat \<Rightarrow> anchor"
  rcvTreasury :: "nat \<Rightarrow> rat"
  rcvWeb3 :: web3
  rcvPayer :: string
  rcvRandom :: "nat \<Rightarrow> nat \<Rightarrow> nat"
  rcvRandomTip :: "nat \<Rightarrow> nat \<Rightarrow> nat"
  rcvBlockhash :: "nat \<Rightarrow> string outcome"

text \<open>\<^verbatim>\<open>newTransactionBuilder\<close>, \<^verbatim>\<open>addUpdatePriceFeed\<close> and \<^verbatim>\<open>buildVersionedTransactions\<close>, with \<^verbatim>\<open>closeUpdateAccounts\<close> set.\<close>

definition update_transactions ::
    "solana_receiver \<Rightarrow> nat \<Rightarrow> string list \<Rightarrow> nat \<Rightarrow> PriorityFeeConfig \<Rightarrow> (TransactionMessage \<times> string list) list outcome" where
  "update_transactions rcv k data shardId args =
     fst (s_bind (addUpdatePriceFeed (rcvWeb3 rcv) (rcvRandom rcv k) (rcvAnchor rcv k) (rcvTreasury rcv k) 0 data shardId)
            (\<lambda>_. pyth_buildVersionedTransactions (rcvWeb3 rcv) (rcvRandom rcv k) (rcvRandomTip rcv k) (rcvBlockhash rcv k) args)
          (pyth_builder_new (rcvPayer rcv) (Some True)))"

definition versioned_tx :: "TransactionMessage \<Rightarrow> sol_tx" where
  "versioned_tx m = \<lparr>isVersionedTransaction = True, feePayer = None, txBlockhash = Some (recentBlockhash m), signedBy = []\<rparr>"

subsection \<open>One transaction after the other\<close>

text \<open>The network's answers to the \<open>n\<close>-th transaction; the result is \<open>None\<close> when sending never ends.\<close>

record solana_net =
  netRace :: "nat \<Rightarrow> nat \<Rightarrow> json option"
  netSendRaw :: "nat \<Rightarrow> nat \<Rightarrow> unit outcome"
  netSend :: send_env
  netStringify :: "json \<Rightarrow> string"

definition solana_jobs :: "solana_net \<Rightarrow> (TransactionMessage \<times> string list) list \<Rightarrow> send_job list" where
  "solana_jobs net txs =
     map (\<lambda>(n, (m, ss)). \<lparr>jobTx = versioned_tx m, jobSigners = Some ss, raceAt = netRace net n, sendRawAt = netSendRaw net n\<rparr>) (enumerate 0 txs)"

definition solana_updatePriceFeed ::
    "solana_receiver \<Rightarrow> solana_net \<Rightarrow> (string list \<Rightarrow> string list outcome) \<Rightarrow> nat \<Rightarrow> nat \<Rightarrow> string list \<Rightarrow> nat list \<Rightarrow> unit outcome option" where
  "solana_updatePriceFeed rcv net getLatestVaas shardId computeUnitPrice priceIds pubTimesToPush =
     (if priceIds = [] then Some (Inr ())
      else
        (case getLatestVaas priceIds of
           Inl e \<Rightarrow> Some (Inr ())
         | Inr priceFeedUpdateData \<Rightarrow>
             (case update_transactions rcv 0 priceFeedUpdateData shardId
                     \<lparr>computeUnitPriceMicroLamports = Some computeUnitPrice, tightComputeBudget = True, jitoTipLamports = None, jitoBundleSize = None\<rparr> of
                Inl e \<Rightarrow> Some (Inl e)
              | Inr transactions \<Rightarrow>
                  map_option (\<lambda>r. Inr ()) (sendTransactions (netStringify net) (netSend net) (solana_jobs net transactions) None))))"

subsection \<open>Bundles\<close>

definition UPDATES_PER_JITO_BUNDLE :: nat where
  "UPDATES_PER_JITO_BUNDLE = 7"

record jito_net =
  jitoSend :: send_env
  sendBundle :: "nat \<Rightarrow> sol_tx list \<Rightarrow> unit outcome"

definition jito_slice :: "nat \<Rightarrow> string \<Rightarrow> string outcome" where
  "jito_slice i x =
     e_bind (sliceAccumulatorUpdateData (from_base64 x) (Some (int i)) (Some (int (i + UPDATES_PER_JITO_BUNDLE)))) (\<lambda>d. Inr (to_base64 d))"

text \<open>The loop; beside its outcome it returns what was handed to the receiver for each bundle.\<close>

function jito_loop ::
    "solana_receiver \<Rightarrow> jito_net \<Rightarrow> nat \<Rightarrow> PriorityFeeConfig \<Rightarrow> string list \<Rightarrow> nat \<Rightarrow> nat \<Rightarrow> unit outcome \<times> string list list" where
  "jito_loop rcv net shardId args data n i =
     (if n \<le> i then (Inr (), [])
      else
        (case e_map (jito_slice i) data of
           Inl e \<Rightarrow> (Inl e, [])
         | Inr part \<Rightarrow>
             (case update_transactions rcv i part shardId args of
                Inl e \<Rightarrow> (Inl e, [part])
              | Inr transactions \<Rightarrow>
                  (case sendTransactionsJito (jitoSend net) (sendBundle net i) (map (\<lambda>(m, ss). (versioned_tx m, Some ss)) transactions) of
                     Inl e \<Rightarrow> (Inl e, [part])
                   | Inr sg \<Rightarrow>
                       (let (r, parts) = jito_loop rcv net shardId args data n (i + UPDATES_PER_JITO_BUNDLE) in (r, part # parts))))))"
  by pat_completeness auto
termination
  by (relation "measure (\<lambda>(rcv, net, shardId, args, data, n, i). n - i)") (auto simp: UPDATES_PER_JITO_BUNDLE_def)

declare jito_loop.simps [simp del]

definition jito_updatePriceFeed ::
    "solana_receiver \<Rightarrow> jito_net \<Rightarrow> (string list \<Rightarrow> string list outcome) \<Rightarrow> nat \<Rightarrow> nat \<Rightarrow> nat \<Rightarrow> string list \<Rightarrow> nat list \<Rightarrow> unit outcome \<times> string list list" where
  "jito_updatePriceFeed rcv net getLatestVaas shardId tip bundleSize priceIds pubTimesToPush =
     (case getLatestVaas priceIds of
        Inl e \<Rightarrow> (Inr (), [])
      | Inr priceFeedUpdateData \<Rightarrow>
          jito_loop rcv net shardId
            \<lparr>computeUnitPriceMicroLamports = None, tightComputeBudget = True, jitoTipLamports = Some tip, jitoBundleSize = Some bundleSize\<rparr>
            priceFeedUpdateData (length priceIds) 0)"

subsection \<open>The bundles cover the update\<close>

definition updates_of :: "string \<Rightarrow> accumulator_update list" where
  "updates_of x = (case parseAccumulatorUpdateData (from_base64 x) of Inl e \<Rightarrow> [] | Inr a \<Rightarrow> accUpdates a)"

definition vaa_of :: "string \<Rightarrow> bytes option" where
  "vaa_of x = (case parseAccumulatorUpdateData (from_base64 x) of Inl e \<Rightarrow> None | Inr a \<Rightarrow> Some (accVaa a))"

text \<open>An anchor, a wallet and a block engine that do their work.\<close>

definition jito_works :: "solana_receiver \<Rightarrow> jito_net \<Rightarrow> bool" where
  "jito_works rcv net \<longleftrightarrow>
     (\<forall>k. anchor_works (rcvAnchor rcv k)) \<and> (\<forall>k. \<exists>h. rcvBlockhash rcv k = Inr h) \<and>
     (\<forall>tx. \<exists>tx'. walletSign (jitoSend net) tx = Inr tx') \<and> (\<forall>k txs. sendBundle net k txs = Inr ())"

lemma js_slice_nat: "js_slice (Some (int i)) (Some (int (i + n))) xs = take n (drop i xs)"
  by (auto simp: js_slice_def relative_index_def Let_def min_def simp flip: of_nat_add)

definition message_ok :: "string \<Rightarrow> bool" where
  "message_ok x \<longleftrightarrow> (\<exists>a. parseAccumulatorUpdateData (from_base64 x) = Inr a \<and> sendable a)"

lemma jito_slice_parses:
  assumes "message_ok x"
  shows "\<exists>y. jito_slice i x = Inr y \<and> updates_of y = take UPDATES_PER_JITO_BUNDLE (drop i (updates_of x)) \<and> vaa_of y = vaa_of x \<and> message_ok y"
proof -
  obtain a where a: "parseAccumulatorUpdateData (from_base64 x) = Inr a" "sendable a" using assms by (auto simp: message_ok_def)
  obtain d where "sliceAccumulatorUpdateData (from_base64 x) (Some (int i)) (Some (int (i + UPDATES_PER_JITO_BUNDLE))) = Inr d"
    "parseAccumulatorUpdateData d = Inr (a\<lparr>accUpdates := js_slice (Some (int i)) (Some (int (i + UPDATES_PER_JITO_BUNDLE))) (accUpdates a)\<rparr>)"
    using slice_then_parse[OF a(1)] by blast
  moreover have "sendable (a\<lparr>accUpdates := take n (drop i (accUpdates a))\<rparr>)" for n
    using a(2) by (auto simp: sendable_def list_all_iff dest: in_set_takeD in_set_dropD)
  ultimately show ?thesis
    using a(1) by (simp add: jito_slice_def updates_of_def vaa_of_def message_ok_def js_slice_nat del: of_nat_add)
qed

lemma e_map_ok: "(\<And>x. x \<in> set xs \<Longrightarrow> \<exists>y. f x = Inr y) \<Longrightarrow> \<exists>ys. e_map f xs = Inr ys \<and> list_all2 (\<lambda>x y. f x = Inr y) xs ys"
proof (induction xs)
  case (Cons x xs)
  obtain y where "f x = Inr y" using Cons.prems by auto
  moreover obtain ys where "e_map f xs = Inr ys" "list_all2 (\<lambda>x y. f x = Inr y) xs ys" using Cons by auto
  ultimately show ?case by (intro exI[of _ "y # ys"]) simp
qed simp

lemma built_transactions:
  assumes "buildUpdatePriceFeedInstructions (rcvAnchor rcv k) (rcvTreasury rcv k) 0 data s = Inr b" "postInstructions b \<noteq> []" "rcvBlockhash rcv k = Inr h"
  shows "\<exists>t ts. update_transactions rcv k data s args = Inr (t # ts)"
proof -
  let ?b0 = "builder_new (rcvPayer rcv) None"
  let ?b1 = "addInstructions (rcvWeb3 rcv) (rcvRandom rcv k) 0 (postInstructions b) ?b0"
  let ?b2 = "addInstructions (rcvWeb3 rcv) (rcvRandom rcv k) (length (postInstructions b)) (closeInstructions b) ?b1"
  have f: "list_all (batch_fits (rcvWeb3 rcv) (payer ?b1) (addressLookupTable ?b1)) (transactionInstructions ?b1)"
    using batches(1-3)[where w = "rcvWeb3 rcv" and random = "rcvRandom rcv k" and as = "postInstructions b" and payer' = "rcvPayer rcv" and table = None] by simp
  have "concat (map batchInstructions (transactionInstructions ?b2)) = map instruction (postInstructions b @ closeInstructions b)"
    using addInstructions_spec[OF f] batches(4)[where w = "rcvWeb3 rcv" and random = "rcvRandom rcv k" and as = "postInstructions b" and payer' = "rcvPayer rcv" and table = None] by simp
  then obtain t ts where "transactionInstructions ?b2 = t # ts" using assms(2) by (cases "transactionInstructions ?b2") auto
  then show ?thesis
    using assms(1,3)
    by (simp add: update_transactions_def s_bind_def addUpdatePriceFeed_def add_built_def pyth_buildVersionedTransactions_def with_closing_def pyth_addInstructions_def
        pyth_builder_new_def buildVersionedTransactions_def Let_def)
qed

lemma update_transactions_ok:
  assumes "jito_works rcv net" "s < 65536" "data \<noteq> []" "\<forall>d \<in> set data. \<exists>a. parseAccumulatorUpdateData (from_base64 d) = Inr a \<and> sendable a"
  shows "\<exists>tx txs. update_transactions rcv k data s args = Inr (tx # txs)"
proof -
  obtain h where h: "rcvBlockhash rcv k = Inr h" using assms(1) unfolding jito_works_def by blast
  have "anchor_works (rcvAnchor rcv k)" using assms(1) by (simp add: jito_works_def)
  from update_messages_ok[OF this assms(2,4), of "getRandomTreasuryId (rcvTreasury rcv k)" 0 built_nothing] obtain b where
    "buildUpdatePriceFeedInstructions (rcvAnchor rcv k) (rcvTreasury rcv k) 0 data s = Inr b" "length data \<le> length (postInstructions b)"
    by (auto simp: buildUpdatePriceFeedInstructions_def)
  then show ?thesis using built_transactions[OF _ _ h] assms(3) by fastforce
qed

lemma send_bundle_ok:
  assumes "jito_works rcv net"
  shows "\<exists>sg. sendTransactionsJito (jitoSend net) (sendBundle net k) (t # ts) = Inr sg"
proof -
  have "\<exists>ys. e_map (\<lambda>(tx, signers). walletSign (jitoSend net) (case signers of None \<Rightarrow> tx | Some ss \<Rightarrow> tx\<lparr>signedBy := signedBy tx @ ss\<rparr>)) (t # ts) = Inr ys
      \<and> list_all2 (\<lambda>x y. (case x of (tx, signers) \<Rightarrow> walletSign (jitoSend net) (case signers of None \<Rightarrow> tx | Some ss \<Rightarrow> tx\<lparr>signedBy := signedBy tx @ ss\<rparr>)) = Inr y) (t # ts) ys"
    using assms by (intro e_map_ok) (auto simp: jito_works_def)
  then obtain y ys where "e_map (\<lambda>(tx, signers). walletSign (jitoSend net) (case signers of None \<Rightarrow> tx | Some ss \<Rightarrow> tx\<lparr>signedBy := signedBy tx @ ss\<rparr>)) (t # ts) = Inr (y # ys)"
    by (auto simp: list_all2_Cons1)
  then show ?thesis
    using assms unfolding sendTransactionsJito_def by (auto simp: jito_works_def)
qed

text \<open>One bundle of a run, and what it has of each message.\<close>

definition bundle_of :: "string list \<Rightarrow> nat \<Rightarrow> string list \<Rightarrow> bool" where
  "bundle_of data i part \<longleftrightarrow>
     list_all2 (\<lambda>x y. updates_of y = take UPDATES_PER_JITO_BUNDLE (drop i (updates_of x)) \<and> vaa_of y = vaa_of x) data part"

lemma jito_loop_bundles:
  assumes works: "jito_works rcv net" and parses: "\<And>x. x \<in> set data \<Longrightarrow> message_ok x" and shard: "s < 65536" and some: "data \<noteq> []"
  shows "\<exists>m parts. jito_loop rcv net s args data n i = (Inr (), parts) \<and> n \<le> i + m * UPDATES_PER_JITO_BUNDLE \<and>
    list_all2 (bundle_of data) (map (\<lambda>k. i + k * UPDATES_PER_JITO_BUNDLE) [0..<m]) parts"
proof (induction "n - i" arbitrary: i rule: less_induct)
  case less
  show ?case
  proof (cases "n \<le> i")
    case True
    then show ?thesis by (intro exI[of _ 0] exI[of _ "[]"]) (simp add: jito_loop.simps)
  next
    case False
    have sl: "\<exists>y. jito_slice i x = Inr y \<and> updates_of y = take UPDATES_PER_JITO_BUNDLE (drop i (updates_of x)) \<and> vaa_of y = vaa_of x \<and> message_ok y"
      if "x \<in> set data" for x using jito_slice_parses[OF parses[OF that]] .
    have "\<exists>part. e_map (jito_slice i) data = Inr part \<and> list_all2 (\<lambda>x y. jito_slice i x = Inr y) data part"
      using sl by (intro e_map_ok) blast
    then obtain part where part1: "e_map (jito_slice i) data = Inr part" and p2: "list_all2 (\<lambda>x y. jito_slice i x = Inr y) data part" by blast
    have "bundle_of data i part"
      unfolding bundle_of_def using p2 by (rule list.rel_mono_strong) (use sl in fastforce)
    note part = part1 this
    have "\<forall>y \<in> set part. message_ok y"
      using p2 sl by (fastforce simp: list_all2_conv_all_nth in_set_conv_nth)
    moreover have "part \<noteq> []" using p2 some by auto
    ultimately obtain tx txs where tx: "update_transactions rcv i part s args = Inr (tx # txs)"
      using update_transactions_ok[OF works shard, of part] unfolding message_ok_def by blast
    obtain sg where sg: "sendTransactionsJito (jitoSend net) (sendBundle net i) (map (\<lambda>(m, ss). (versioned_tx m, Some ss)) (tx # txs)) = Inr sg"
      using send_bundle_ok[OF works] by (metis list.simps(9))
    have shorter: "n - (i + UPDATES_PER_JITO_BUNDLE) < n - i" using False by (simp add: UPDATES_PER_JITO_BUNDLE_def)
    obtain m parts where rest: "jito_loop rcv net s args data n (i + UPDATES_PER_JITO_BUNDLE) = (Inr (), parts)"
      "n \<le> i + UPDATES_PER_JITO_BUNDLE + m * UPDATES_PER_JITO_BUNDLE"
      "list_all2 (bundle_of data) (map (\<lambda>k. i + UPDATES_PER_JITO_BUNDLE + k * UPDATES_PER_JITO_BUNDLE) [0..<m]) parts"
      using less[OF shorter] by blast
    have "jito_loop rcv net s args data n i = (Inr (), part # parts)"
      using False part(1) tx sg rest(1) by (subst jito_loop.simps) simp
    moreover have "map (\<lambda>k. i + k * UPDATES_PER_JITO_BUNDLE) [0..<Suc m] =
        i # map (\<lambda>k. i + UPDATES_PER_JITO_BUNDLE + k * UPDATES_PER_JITO_BUNDLE) [0..<m]"
      by (simp add: upt_conv_Cons map_Suc_upt[symmetric] comp_def algebra_simps del: upt_Suc)
    ultimately show ?thesis
      using part(2) rest(2,3) by (intro exI[of _ "Suc m"] exI[of _ "part # parts"]) (simp add: algebra_simps del: upt_Suc)
  qed
qed

lemma chunks_concat: "concat (map (\<lambda>k. take n (drop (k * n) xs)) [0..<m]) = take (m * n) xs"
proof (induction m)
  case (Suc m)
  have "take (Suc m * n) xs = take (m * n) xs @ take n (drop (m * n) xs)"
    using take_add[of "m * n" n xs] by (simp add: add.commute)
  then show ?case using Suc by simp
qed simp

lemma bundle_nth:
  assumes "bundle_of data i part" "j < length data"
  shows "length part = length data" "updates_of (part ! j) = take UPDATES_PER_JITO_BUNDLE (drop i (updates_of (data ! j)))" "vaa_of (part ! j) = vaa_of (data ! j)"
  using assms by (auto simp: bundle_of_def list_all2_conv_all_nth)

lemma bundles_cover:
  assumes "list_all2 (bundle_of data) (map (\<lambda>k. k * UPDATES_PER_JITO_BUNDLE) [0..<m]) parts" "length data = l" "j < l"
    and "length (updates_of (data ! j)) \<le> m * UPDATES_PER_JITO_BUNDLE"
  shows "concat (map (\<lambda>b. updates_of (b ! j)) parts) = updates_of (data ! j)"
proof -
  have "map (\<lambda>b. updates_of (b ! j)) parts =
      map (\<lambda>k. take UPDATES_PER_JITO_BUNDLE (drop (k * UPDATES_PER_JITO_BUNDLE) (updates_of (data ! j)))) [0..<m]"
    using assms(1-3) bundle_nth(2)[of data _ _ j] by (intro nth_equalityI) (auto simp: list_all2_conv_all_nth)
  then show ?thesis using assms(4) by (simp add: chunks_concat)
qed

text \<open>
  C11.  The bundles of a push cover it: when every message of the price service is an accumulator message of price updates, no more of them than feeds were asked for, and
  anchor, wallet and block engine do their work, the push ends, and for each message the updates handed to the receiver, bundle after bundle, are its
  updates in their order, at most seven at a time and each time with the attestation of the whole message.
\<close>

theorem jito_bundles_cover:
  assumes "jito_works rcv net" "shardId < 65536" "getLatestVaas priceIds = Inr data" "data \<noteq> []"
    and "list_all (\<lambda>x. message_ok x \<and> length (updates_of x) \<le> length priceIds) data"
  shows "\<exists>parts. jito_updatePriceFeed rcv net getLatestVaas shardId tip bundleSize priceIds pubTimes = (Inr (), parts) \<and>
    map (\<lambda>j. concat (map (\<lambda>b. updates_of (b ! j)) parts)) [0..<length data] = map updates_of data \<and>
    list_all (\<lambda>b. map vaa_of b = map vaa_of data \<and> list_all (\<lambda>y. length (updates_of y) \<le> 7) b) parts"
proof -
  obtain m parts where loop: "jito_updatePriceFeed rcv net getLatestVaas shardId tip bundleSize priceIds pubTimes = (Inr (), parts)"
    and m: "length priceIds \<le> m * UPDATES_PER_JITO_BUNDLE"
    and parts: "list_all2 (bundle_of data) (map (\<lambda>k. k * UPDATES_PER_JITO_BUNDLE) [0..<m]) parts"
    using jito_loop_bundles[OF assms(1) _ assms(2,4), of _ "length priceIds" 0] assms(3,5)
    by (fastforce simp: jito_updatePriceFeed_def list_all_iff)
  have "concat (map (\<lambda>b. updates_of (b ! j)) parts) = updates_of (data ! j)" if "j < length data" for j
    using bundles_cover[OF parts refl that] assms(5) m that by (fastforce simp: list_all_length)
  then have all: "map (\<lambda>j. concat (map (\<lambda>b. updates_of (b ! j)) parts)) [0..<length data] = map updates_of data"
    by (intro nth_equalityI) simp_all
  have "map vaa_of b = map vaa_of data \<and> list_all (\<lambda>y. length (updates_of y) \<le> 7) b" if mem: "b \<in> set parts" for b
  proof -
    obtain i where b: "bundle_of data i b" using parts mem by (auto simp: list_all2_conv_all_nth in_set_conv_nth)
    then have l: "length b = length data" by (auto simp: bundle_of_def dest: list_all2_lengthD)
    then have "map vaa_of b = map vaa_of data" using bundle_nth(3)[OF b] by (intro nth_equalityI) simp_all
    moreover have "length (updates_of (b ! j)) \<le> 7" if "j < length b" for j
      using bundle_nth(2)[OF b] that l by (simp add: UPDATES_PER_JITO_BUNDLE_def)
    ultimately show ?thesis by (simp add: list_all_length)
  qed
  then show ?thesis using loop all by (auto simp: list_all_iff)
qed

definition demo_receiver :: solana_receiver where
  "demo_receiver = \<lparr>rcvAnchor = (\<lambda>k. demo_anchor), rcvTreasury = (\<lambda>k. 1 / 2), rcvWeb3 = demo_web3, rcvPayer = ''me'', rcvRandom = (\<lambda>k n. 0),
     rcvRandomTip = (\<lambda>k n. 0), rcvBlockhash = (\<lambda>k. Inr ''hash'')\<rparr>"

definition demo_jito :: jito_net where
  "demo_jito = \<lparr>jitoSend = \<lparr>walletKey = ''me'', walletSign = Inr, encodeSignature = (\<lambda>tx. ''sig''), latestBlockhash = Inr ''hash''\<rparr>,
     sendBundle = (\<lambda>k txs. Inr ())\<rparr>"

theorem jito_bundles_cover_witness:
  "\<exists>parts. jito_updatePriceFeed demo_receiver demo_jito (\<lambda>ids. Inr [long_vaa]) 7 1000 5 [''aa'', ''bb''] [1, 2] = (Inr (), parts) \<and>
     concat (map (\<lambda>b. updates_of (b ! 0)) parts) = accUpdates long_message"
proof -
  have "jito_works demo_receiver demo_jito" by (simp add: jito_works_def demo_receiver_def demo_jito_def anchor_works_def demo_anchor_def)
  moreover have u: "updates_of long_vaa = accUpdates long_message" by (simp add: updates_of_def long_vaa_parses)
  moreover have "message_ok long_vaa" by (simp add: message_ok_def long_vaa_parses) (simp add: sendable_def postable_def long_message_def)
  ultimately show ?thesis
    using jito_bundles_cover[of demo_receiver demo_jito 7 "\<lambda>ids. Inr [long_vaa]" "[''aa'', ''bb'']" "[long_vaa]" 1000 5 "[1, 2]"]
    by (auto simp: long_message_def)
qed

text \<open>
  Without feeds nothing is sent by the first pusher.  With some it passes no limit for the retries: as long as the transaction is
  not confirmed it is sent again, and the push does not return.
\<close>

lemma unconfirmed_push_never_returns:
  assumes "priceIds \<noteq> []" "getLatestVaas priceIds = Inr data"
    and "buildUpdatePriceFeedInstructions (rcvAnchor rcv 0) (rcvTreasury rcv 0) 0 data shardId = Inr b" "postInstructions b \<noteq> []" "rcvBlockhash rcv 0 = Inr h"
    and "latestBlockhash (netSend net) = Inr h'" "\<And>tx. \<exists>tx'. walletSign (netSend net) tx = Inr tx'"
    and "\<And>k. netRace net 0 k = None" "\<And>k. netSendRaw net 0 k = Inr ()"
  shows "solana_updatePriceFeed rcv net getLatestVaas shardId unitPrice priceIds pubTimes = None"
proof -
  have "\<forall>args. \<exists>t ts. update_transactions rcv 0 data shardId args = Inr (t # ts)" using built_transactions[OF assms(3-5)] by blast
  then obtain t ts where t: "\<forall>args. update_transactions rcv 0 data shardId args = Inr (t args # ts args)" by metis
  have loop: "confirm_loop (netRace net 0) (netSendRaw net 0) None 0 = None"
    by (rule confirm_loop_for_ever) (simp_all add: assms(8,9))
  have "\<forall>tx. \<exists>tx'. walletSign (netSend net) tx = Inr tx'" using assms(7) by blast
  then obtain sign where "\<forall>tx. walletSign (netSend net) tx = Inr (sign tx)" by metis
  then show ?thesis
    using assms(1,2,6) t loop
    by (simp add: solana_updatePriceFeed_def sendTransactions_def solana_jobs_def enumerate_simps case_prod_unfold)
qed

end
