(* ===== verification/Evm_Pusher.thy ===== *)
theory Evm_Pusher
  imports Price_Pusher Base64
begin

section \<open>The EVM price pusher: \<^verbatim>\<open>apps/price_pusher/src/evm\<close>\<close>

text \<open>
  The listener, the gas station and the pusher for EVM chains.  The clients of the chain and of the price service are parameters: what they answer
  to one push is a record of answers.  A push reads and writes nothing but the pusher's address before the answer of its last request; what it does
  with the last attempt happens after it without a pause.  So pushes that overlap act like pushes one after the other, in the order of their
  last answers, and the whole handler is one step.  Gas prices are numbers, products of them are rounded.
\<close>

subsection \<open>The gas station: \<^verbatim>\<open>custom-gas-station.ts\<close>\<close>

definition txSpeeds :: "string list" where
  "txSpeeds = [''slow'', ''standard'', ''fast'']"

definition customGasChainIds :: "int list" where
  "customGasChainIds = [137]"

record CustomGasStation =
  gasChain :: int
  gasSpeed :: string

definition gas_station_new :: "int \<Rightarrow> string \<Rightarrow> CustomGasStation outcome" where
  "gas_station_new chain speed =
     e_bind (verifyValidOption speed txSpeeds) (\<lambda>sp.
     e_bind (verifyValidOption (show_int chain) (map show_int customGasChainIds)) (\<lambda>ch.
     Inr \<lparr>gasChain = chain, gasSpeed = sp\<rparr>))"

text \<open>
  The web page of the gas station gives the fee for a speed, or the request or an access to its answer throws; \<open>toWei\<close> is \<^verbatim>\<open>Web3.utils.toWei\<close>.
\<close>

definition fetchMaticMainnetGasPrice :: "(string \<Rightarrow> rat outcome) \<Rightarrow> (string \<Rightarrow> string \<Rightarrow> string outcome) \<Rightarrow> CustomGasStation \<Rightarrow> string option" where
  "fetchMaticMainnetGasPrice maxFee toWei st =
     (case e_bind (maxFee (gasSpeed st)) (\<lambda>gasPrice. toWei (to_fixed_digits 2 gasPrice) ''Gwei'') of Inl e \<Rightarrow> None | Inr w \<Rightarrow> Some w)"

text \<open>There is one method, for chain 137; another chain would be a call of \<^verbatim>\<open>undefined\<close>.\<close>

definition getCustomGasPrice :: "(string \<Rightarrow> rat outcome) \<Rightarrow> (string \<Rightarrow> string \<Rightarrow> string outcome) \<Rightarrow> CustomGasStation \<Rightarrow> string option outcome" where
  "getCustomGasPrice maxFee toWei st =
     (if gasChain st = 137 then Inr (fetchMaticMainnetGasPrice maxFee toWei st) else Inl (type_error ''this.chainMethods[this.chain] is not a function''))"

definition getCustomGasStation :: "int option \<Rightarrow> string option \<Rightarrow> CustomGasStation option outcome" where
  "getCustomGasStation customGasStation txSpeed =
     (case (customGasStation, txSpeed) of
        (Some chain, Some speed) \<Rightarrow>
          if chain \<noteq> 0 \<and> speed \<noteq> [] then e_bind (gas_station_new chain speed) (\<lambda>st. Inr (Some st)) else Inr None
      | _ \<Rightarrow> Inr None)"

subsection \<open>The listener\<close>

definition isWsEndpoint :: "(string \<Rightarrow> string outcome) \<Rightarrow> string \<Rightarrow> bool outcome" where
  "isWsEndpoint protocolOf endpoint = e_bind (protocolOf endpoint) (\<lambda>protocol. Inr (protocol = ''ws:'' \<or> protocol = ''wss:''))"

text \<open>The ids that \<^verbatim>\<open>start\<close> subscribes to.\<close>

definition evm_subscriptions :: "PriceItem list \<Rightarrow> string list" where
  "evm_subscriptions items = map (\<lambda>i. addLeading0x (itemId i)) items"

definition evm_start :: "(string \<Rightarrow> string outcome) \<Rightarrow> string \<Rightarrow> ChainPriceListener \<Rightarrow> string list outcome" where
  "evm_start protocolOf endpoint l =
     e_bind (isWsEndpoint protocolOf endpoint) (\<lambda>ws. Inr (if ws then evm_subscriptions (clItems l) else []))"

record evm_event =
  evId :: string
  evPrice :: string
  evConf :: string
  evPublishTime :: json

definition onPriceFeedUpdate :: "js_error option \<Rightarrow> evm_event \<Rightarrow> (ChainPriceListener, unit) stateful" where
  "onPriceFeedUpdate err event =
     (case err of
        Some e \<Rightarrow> s_throw e
      | None \<Rightarrow>
          s_modify (updateLatestPriceInfo (removeLeading0x (evId event))
            \<lparr>infoPrice = evPrice event, infoConf = evConf event, infoPublishTime = to_number (evPublishTime event)\<rparr>))"

definition evm_getOnChainPriceInfo :: "(string \<Rightarrow> json outcome) \<Rightarrow> string \<Rightarrow> PriceInfo option outcome" where
  "evm_getOnChainPriceInfo getPriceUnsafe priceId =
     (case getPriceUnsafe (addLeading0x priceId) of
        Inl e \<Rightarrow> Inr None
      | Inr priceRaw \<Rightarrow>
          e_bind (get_prop ''conf'' priceRaw) (\<lambda>conf.
          Inr (Some \<lparr>infoPrice = js_string (own_prop ''price'' priceRaw), infoConf = js_string conf,
                     infoPublishTime = to_number (own_prop ''publishTime'' priceRaw)\<rparr>)))"

subsection \<open>The pusher\<close>

record PushAttempt =
  attemptNonce :: int
  attemptGasPrice :: jsfloat

record evm_config =
  overrideGasPriceMultiplier :: jsfloat
  overrideGasPriceMultiplierCap :: jsfloat
  updateFeeMultiplier :: jsfloat
  gasLimit :: "int option"
  customGasStation :: "CustomGasStation option"

record evm_tx =
  evmData :: "string list"
  evmIds :: "string list"
  evmPubTimes :: "jsnum list"
  evmValue :: jsfloat
  evmGasPrice :: jsfloat
  evmNonce :: int
  evmGasLimit :: "int option"

text \<open>\<open>evmSent\<close> lists the transactions handed to \<^verbatim>\<open>send\<close>.\<close>

record EvmPricePusher =
  pusherAddress :: "string option"
  lastPushAttempt :: "PushAttempt option"
  evmSent :: "evm_tx list"

definition evm_new :: EvmPricePusher where
  "evm_new = \<lparr>pusherAddress = None, lastPushAttempt = None, evmSent = []\<rparr>"

record evm_answers =
  ansVaas :: "string list \<Rightarrow> string list outcome"
  ansUpdateFee :: "string list \<Rightarrow> json outcome"
  ansMaxFee :: "string \<Rightarrow> rat outcome"
  ansToWei :: "string \<Rightarrow> string \<Rightarrow> string outcome"
  ansGasPrice :: "string outcome"
  ansAccounts :: "string list outcome"
  ansTransactionCount :: "string option \<Rightarrow> int outcome"
  ansSend :: "evm_tx \<Rightarrow> unit outcome"

text \<open>\<^verbatim>\<open>Math.ceil\<close> and \<^verbatim>\<open>x || y\<close> of numbers.\<close>

fun f_ceil :: "jsfloat \<Rightarrow> jsfloat" where
  "f_ceil (Some a) = Some (of_int \<lceil>a\<rceil>)"
| "f_ceil None = None"

definition f_or :: "jsfloat \<Rightarrow> jsfloat \<Rightarrow> jsfloat" where
  "f_or a b = (if a = None \<or> a = Some 0 then b else a)"

definition evm_getPriceFeedsUpdateData :: "evm_answers \<Rightarrow> string list \<Rightarrow> string list outcome" where
  "evm_getPriceFeedsUpdateData ans priceIds =
     e_bind (ansVaas ans priceIds) (\<lambda>latestVaas. Inr (map (\<lambda>vaa. ''0x'' @ to_hex (from_base64 vaa)) latestVaas))"

definition evm_update_fee :: "evm_config \<Rightarrow> evm_answers \<Rightarrow> string list \<Rightarrow> jsfloat outcome" where
  "evm_update_fee cfg ans data =
     e_bind (ansUpdateFee ans data) (\<lambda>fee. Inr (f_mul (json_float fee) (f_or (updateFeeMultiplier cfg) (Some 1))))"

text \<open>The market price: the gas station's when there is one and it answers, the node's otherwise.\<close>

definition evm_market_price :: "evm_config \<Rightarrow> evm_answers \<Rightarrow> jsfloat outcome" where
  "evm_market_price cfg ans =
     e_bind (case customGasStation cfg of None \<Rightarrow> Inr None | Some st \<Rightarrow> getCustomGasPrice (ansMaxFee ans) (ansToWei ans) st) (\<lambda>custom.
     e_bind (case custom of Some (c # cs) \<Rightarrow> Inr (c # cs) | _ \<Rightarrow> ansGasPrice ans) (\<lambda>p. Inr (json_float (JStr p))))"

definition evm_address :: "evm_answers \<Rightarrow> (EvmPricePusher, unit) stateful" where
  "evm_address ans s =
     (case pusherAddress s of
        Some a \<Rightarrow> (Inr (), s)
      | None \<Rightarrow>
          (case ansAccounts ans of
             Inl e \<Rightarrow> (Inl e, s)
           | Inr accounts \<Rightarrow> (Inr (), s\<lparr>pusherAddress := (case accounts of [] \<Rightarrow> None | a # as \<Rightarrow> Some a)\<rparr>)))"

text \<open>The last attempt, unless the chain has executed its nonce.\<close>

definition pending_attempt :: "int \<Rightarrow> PushAttempt option \<Rightarrow> PushAttempt option" where
  "pending_attempt lastExecutedNonce att =
     (case att of None \<Rightarrow> None | Some a \<Rightarrow> if attemptNonce a \<le> lastExecutedNonce then None else Some a)"

definition evm_gas_price :: "evm_config \<Rightarrow> PushAttempt option \<Rightarrow> jsfloat \<Rightarrow> jsfloat" where
  "evm_gas_price cfg att gasPrice =
     (case att of
        None \<Rightarrow> gasPrice
      | Some a \<Rightarrow>
          (let gasPriceToOverride = f_ceil (f_mul (attemptGasPrice a) (overrideGasPriceMultiplier cfg))
           in if f_less gasPrice gasPriceToOverride
              then f_min gasPriceToOverride (f_mul gasPrice (overrideGasPriceMultiplierCap cfg))
              else gasPrice))"

text \<open>
  From the answer with the transaction count to the end.  Building the call and \<^verbatim>\<open>send\<close> may throw at once, for arguments they refuse: then an attempt the
  chain has executed is already forgotten, the new attempt is not recorded and the push throws.
\<close>

definition evm_send :: "evm_config \<Rightarrow> evm_answers \<Rightarrow> string list \<Rightarrow> string list \<Rightarrow> jsnum list \<Rightarrow> jsfloat \<Rightarrow> jsfloat \<Rightarrow> int \<Rightarrow> (EvmPricePusher, unit) stateful" where
  "evm_send cfg ans data ids pubTimes fee market count s =
     (let lastExecutedNonce = count - 1;
          s = s\<lparr>lastPushAttempt := pending_attempt lastExecutedNonce (lastPushAttempt s)\<rparr>;
          gasPrice = evm_gas_price cfg (lastPushAttempt s) market;
          txNonce = lastExecutedNonce + 1;
          tx = \<lparr>evmData = data, evmIds = ids, evmPubTimes = pubTimes, evmValue = fee, evmGasPrice = gasPrice, evmNonce = txNonce, evmGasLimit = gasLimit cfg\<rparr>
      in case ansSend ans tx of
           Inl e \<Rightarrow> (Inl e, s)
         | Inr _ \<Rightarrow> (Inr (), s\<lparr>lastPushAttempt := Some \<lparr>attemptNonce = txNonce, attemptGasPrice = gasPrice\<rparr>, evmSent := evmSent s @ [tx]\<rparr>))"

definition evm_updatePriceFeed :: "evm_config \<Rightarrow> evm_answers \<Rightarrow> string list \<Rightarrow> jsnum list \<Rightarrow> (EvmPricePusher, unit) stateful" where
  "evm_updatePriceFeed cfg ans priceIds pubTimesToPush =
     (if priceIds = [] then s_return ()
      else if length priceIds \<noteq> length pubTimesToPush then s_throw (mk_error ''Invalid arguments'')
      else
        (let priceIdsWith0x = map addLeading0x priceIds in
         s_bind (s_lift (evm_getPriceFeedsUpdateData ans priceIdsWith0x)) (\<lambda>priceFeedUpdateData.
         s_bind (s_lift (evm_update_fee cfg ans priceFeedUpdateData)) (\<lambda>updateFee.
         s_bind (s_lift (evm_market_price cfg ans)) (\<lambda>gasPrice.
         s_bind (evm_address ans) (\<lambda>_ s.
           (case ansTransactionCount ans (pusherAddress s) of
              Inl e \<Rightarrow> (Inl e, s)
            | Inr count \<Rightarrow> evm_send cfg ans priceFeedUpdateData priceIdsWith0x pubTimesToPush updateFee gasPrice count s)))))))"

text \<open>The handler of \<^verbatim>\<open>error\<close>: most errors end the push quietly, the others are thrown again.\<close>

definition evm_on_error :: "js_error \<Rightarrow> unit outcome" where
  "evm_on_error err =
     (case errMessage err of
        None \<Rightarrow> Inl (type_error (''Cannot read properties of undefined''))
      | Some m \<Rightarrow>
          if str_includes ''revert'' m then Inr ()
          else if str_includes ''the tx doesn't have the correct nonce.'' m \<or> str_includes ''nonce too low'' m \<or> str_includes ''invalid nonce'' m then Inr ()
          else if str_includes ''max fee per gas less than block base fee'' m then Inr ()
          else if str_includes ''sender doesn't have enough funds to send tx.'' m then Inl err
          else if str_includes ''transaction underpriced'' m then Inr ()
          else if str_includes ''could not replace existing tx'' m then Inr ()
          else Inl err)"

subsection \<open>The price of a replacement\<close>

text \<open>A push as it is called, and a sequence of them; a push that throws does not stop the controller.\<close>

record evm_push =
  pushAnswers :: evm_answers
  pushIds :: "string list"
  pushTimes :: "jsnum list"

definition evm_pushes :: "evm_config \<Rightarrow> evm_push list \<Rightarrow> EvmPricePusher \<Rightarrow> EvmPricePusher" where
  "evm_pushes cfg ps s = fold (\<lambda>p s. snd (evm_updatePriceFeed cfg (pushAnswers p) (pushIds p) (pushTimes p) s)) ps s"

text \<open>
  A push that gets its answers: the market price is a whole number of wei, the chain has executed \<open>n\<close> transactions, and \<^verbatim>\<open>send\<close> takes the transaction.
\<close>

definition answered :: "evm_config \<Rightarrow> int \<times> int \<Rightarrow> evm_push \<Rightarrow> bool" where
  "answered cfg ng p \<longleftrightarrow>
     pushIds p \<noteq> [] \<and> length (pushTimes p) = length (pushIds p) \<and> 0 < snd ng \<and> snd ng < max_safe \<and>
     (\<exists>data fee. evm_getPriceFeedsUpdateData (pushAnswers p) (map addLeading0x (pushIds p)) = Inr data \<and> evm_update_fee cfg (pushAnswers p) data = Inr fee) \<and>
     evm_market_price cfg (pushAnswers p) = Inr (Some (of_int (snd ng))) \<and>
     (\<exists>as. ansAccounts (pushAnswers p) = Inr as) \<and> (\<forall>a. ansTransactionCount (pushAnswers p) a = Inr (fst ng)) \<and>
     (\<forall>tx. ansSend (pushAnswers p) tx = Inr ())"

text \<open>The attempt that a transaction leaves behind.\<close>

definition attempt_of :: "evm_tx \<Rightarrow> PushAttempt" where
  "attempt_of t = \<lparr>attemptNonce = evmNonce t, attemptGasPrice = evmGasPrice t\<rparr>"

lemma answered_sends:
  assumes "answered cfg (n, g) p"
  shows "\<exists>t a. snd (evm_updatePriceFeed cfg (pushAnswers p) (pushIds p) (pushTimes p) s) =
      s\<lparr>pusherAddress := a, lastPushAttempt := Some (attempt_of t), evmSent := evmSent s @ [t]\<rparr> \<and>
    evmNonce t = n \<and> evmIds t = map addLeading0x (pushIds p) \<and> evmPubTimes t = pushTimes p \<and>
    evmGasPrice t = evm_gas_price cfg (pending_attempt (n - 1) (lastPushAttempt s)) (Some (of_int g))"
proof -
  obtain data fee as where d: "evm_getPriceFeedsUpdateData (pushAnswers p) (map addLeading0x (pushIds p)) = Inr data"
    "evm_update_fee cfg (pushAnswers p) data = Inr fee" "ansAccounts (pushAnswers p) = Inr as"
    using assms unfolding answered_def by blast
  have "\<exists>a. evm_address (pushAnswers p) s = (Inr (), s\<lparr>pusherAddress := a\<rparr>)"
    by (cases "pusherAddress s") (auto simp: evm_address_def d(3) intro: exI[of _ "pusherAddress s"])
  then obtain a where a: "evm_address (pushAnswers p) s = (Inr (), s\<lparr>pusherAddress := a\<rparr>)" by blast
  let ?r = "evm_send cfg (pushAnswers p) data (map addLeading0x (pushIds p)) (pushTimes p) fee (Some (of_int g)) n (s\<lparr>pusherAddress := a\<rparr>)"
  have "snd (evm_updatePriceFeed cfg (pushAnswers p) (pushIds p) (pushTimes p) s) = snd ?r"
    using assms d a by (auto simp: evm_updatePriceFeed_def answered_def s_bind_def s_lift_def Let_def)
  moreover have "\<forall>tx. ansSend (pushAnswers p) tx = Inr ()" using assms by (simp add: answered_def)
  moreover define t where "t = \<lparr>evmData = data, evmIds = map addLeading0x (pushIds p), evmPubTimes = pushTimes p, evmValue = fee,
     evmGasPrice = evm_gas_price cfg (pending_attempt (n - 1) (lastPushAttempt s)) (Some (of_int g)), evmNonce = n, evmGasLimit = gasLimit cfg\<rparr>"
  ultimately show ?thesis
    by (intro exI[of _ t] exI[of _ a]) (simp add: evm_send_def Let_def attempt_of_def t_def)
qed

text \<open>
  The price that the rules of the pusher ask for: the market's when nothing is pending; otherwise the pending price times the multiplier, rounded up,
  but no less than the market's and no more than the market's times the cap.
\<close>

definition bid_price :: "rat \<Rightarrow> rat \<Rightarrow> rat \<Rightarrow> rat \<Rightarrow> rat" where
  "bid_price m c q g = max g (min (of_int \<lceil>fl (q * m)\<rceil>) (fl (g * c)))"

fun bid :: "rat \<Rightarrow> rat \<Rightarrow> PushAttempt option \<Rightarrow> int \<times> int \<Rightarrow> rat" where
  "bid m c (Some a) (n, g) =
     (case attemptGasPrice a of Some q \<Rightarrow> if n \<le> attemptNonce a then bid_price m c q (of_int g) else of_int g | None \<Rightarrow> of_int g)"
| "bid m c None (n, g) = of_int g"

text \<open>An attempt whose price is a floating-point number of at least zero.\<close>

definition pending_ok :: "PushAttempt option \<Rightarrow> bool" where
  "pending_ok att \<longleftrightarrow> (case att of None \<Rightarrow> True | Some a \<Rightarrow> (case attemptGasPrice a of None \<Rightarrow> False | Some q \<Rightarrow> fl q = q \<and> 0 \<le> q))"

lemma market_exact: "0 < g \<Longrightarrow> g < max_safe \<Longrightarrow> fl (of_int g) = of_int g"
  by (intro fl_of_int) (simp add: max_safe_def)

lemma market_below_cap: "0 < g \<Longrightarrow> g < max_safe \<Longrightarrow> 1 \<le> c \<Longrightarrow> of_int g \<le> fl (of_int g * c)"
  using market_exact[of g] by (intro fl_above) (simp_all add: mult_le_cancel_left1)

lemma gas_price_is_bid:
  assumes "overrideGasPriceMultiplier cfg = Some m" "overrideGasPriceMultiplierCap cfg = Some c" "1 \<le> c"
    and "0 < g" "g < max_safe" "pending_ok att"
  shows "evm_gas_price cfg (pending_attempt (n - 1) att) (Some (of_int g)) = Some (bid m c att (n, g))"
proof (cases att)
  case (Some a)
  then obtain q where q: "attemptGasPrice a = Some q" using assms(6) by (cases "attemptGasPrice a") (auto simp: pending_ok_def)
  show ?thesis
  proof (cases "n \<le> attemptNonce a")
    case True
    then show ?thesis
      using Some q assms(1,2) market_below_cap[OF assms(4,5,3)]
      by (auto simp: evm_gas_price_def pending_attempt_def bid_price_def f_mul_def min_def max_def Let_def)
  qed (simp add: Some q evm_gas_price_def pending_attempt_def)
qed (simp add: evm_gas_price_def pending_attempt_def)

lemma bid_bounds:
  assumes "1 \<le> m" "1 \<le> c" "0 < g" "g < max_safe" "pending_ok att"
  shows "of_int g \<le> bid m c att (n, g)" "bid m c att (n, g) \<le> fl (of_int g * c)" "fl (bid m c att (n, g)) = bid m c att (n, g)"
proof -
  have g: "of_int g \<le> fl (of_int g * c)" "fl (of_int g) = of_int g" using assms market_below_cap market_exact by auto
  have fc: "fl (fl (of_int g * c)) = fl (of_int g * c)" using assms by (intro fl_idem) simp
  have fo: "fl (of_int \<lceil>fl (q * m)\<rceil>) = of_int \<lceil>fl (q * m)\<rceil>" if "0 \<le> q" for q using that assms(1) by (intro fl_ceiling) simp
  have "0 \<le> q" if "att = Some a" "attemptGasPrice a = Some q" for a q using assms(5) that by (simp add: pending_ok_def)
  then show "of_int g \<le> bid m c att (n, g)" "bid m c att (n, g) \<le> fl (of_int g * c)" "fl (bid m c att (n, g)) = bid m c att (n, g)"
    using g fc fo by (cases att; auto simp: bid_price_def max_def min_def split: option.splits)+
qed

lemma bid_raises:
  assumes "1 \<le> m" "fl q = q" "0 \<le> q"
  shows "min q (fl (g * c)) \<le> bid_price m c q g"
proof -
  have "q \<le> fl (q * m)" using assms by (intro fl_above) (simp_all add: mult_le_cancel_left1)
  then have "q \<le> of_int \<lceil>fl (q * m)\<rceil>" by linarith
  then show ?thesis by (auto simp: bid_price_def)
qed

lemma pushes_bid:
  assumes "overrideGasPriceMultiplier cfg = Some m" "overrideGasPriceMultiplierCap cfg = Some c" "1 \<le> m" "1 \<le> c"
    and "list_all2 (answered cfg) ngs ps" "pending_ok (lastPushAttempt s)"
  shows "\<exists>ts. evmSent (evm_pushes cfg ps s) = evmSent s @ ts \<and> length ts = length ps \<and>
    (\<forall>i < length ps. evmNonce (ts ! i) = fst (ngs ! i) \<and> evmIds (ts ! i) = map addLeading0x (pushIds (ps ! i)) \<and> evmPubTimes (ts ! i) = pushTimes (ps ! i) \<and>
       evmGasPrice (ts ! i) = Some (bid m c ((lastPushAttempt s # map (\<lambda>t. Some (attempt_of t)) ts) ! i) (ngs ! i)))"
  using assms(5-)
proof (induction ngs ps arbitrary: s rule: list_all2_induct)
  case (Cons ng ngs p ps)
  obtain n g where ng: "ng = (n, g)" by (cases ng)
  have g: "0 < g" "g < max_safe" using Cons.hyps(1) by (auto simp: answered_def ng)
  let ?s = "snd (evm_updatePriceFeed cfg (pushAnswers p) (pushIds p) (pushTimes p) s)"
  obtain t a where t: "?s = s\<lparr>pusherAddress := a, lastPushAttempt := Some (attempt_of t), evmSent := evmSent s @ [t]\<rparr>"
      "evmNonce t = n" "evmIds t = map addLeading0x (pushIds p)" "evmPubTimes t = pushTimes p"
      "evmGasPrice t = evm_gas_price cfg (pending_attempt (n - 1) (lastPushAttempt s)) (Some (of_int g))"
    using answered_sends[OF Cons.hyps(1)[unfolded ng]] by blast
  have price: "evmGasPrice t = Some (bid m c (lastPushAttempt s) (n, g))"
    unfolding t(5) by (rule gas_price_is_bid[OF assms(1,2,4) g Cons.prems])
  have "pending_ok (Some (attempt_of t))"
    using bid_bounds(1,3)[OF assms(3,4) g Cons.prems, of n] g(1) by (simp add: pending_ok_def attempt_of_def price order_trans[of 0 "of_int g"])
  then have "pending_ok (lastPushAttempt ?s)" by (simp add: t(1))
  from Cons.IH[OF this] obtain ts where ts: "evmSent (evm_pushes cfg ps ?s) = evmSent ?s @ ts" "length ts = length ps"
    "\<And>i. i < length ps \<Longrightarrow> evmNonce (ts ! i) = fst (ngs ! i) \<and> evmIds (ts ! i) = map addLeading0x (pushIds (ps ! i)) \<and> evmPubTimes (ts ! i) = pushTimes (ps ! i) \<and>
       evmGasPrice (ts ! i) = Some (bid m c ((lastPushAttempt ?s # map (\<lambda>t. Some (attempt_of t)) ts) ! i) (ngs ! i))"
    by blast
  have "evm_pushes cfg (p # ps) s = evm_pushes cfg ps ?s" by (simp add: evm_pushes_def)
  moreover have "evmSent ?s @ ts = evmSent s @ (t # ts)" by (simp add: t(1))
  moreover have "evmNonce ((t # ts) ! i) = fst ((ng # ngs) ! i) \<and> evmIds ((t # ts) ! i) = map addLeading0x (pushIds ((p # ps) ! i)) \<and>
      evmPubTimes ((t # ts) ! i) = pushTimes ((p # ps) ! i) \<and>
      evmGasPrice ((t # ts) ! i) = Some (bid m c ((lastPushAttempt s # map (\<lambda>t. Some (attempt_of t)) (t # ts)) ! i) ((ng # ngs) ! i))"
    if "i < length (p # ps)" for i
    using that ts(3) t(2-4) price by (cases i) (simp_all add: ng t(1))
  ultimately show ?case using ts(1,2) by (intro exI[of _ "t # ts"]) simp
qed (simp add: evm_pushes_def)

text \<open>
  C10.  The price of a replacement.  From any state of the pusher, for any sequence of answered pushes, each with the market's gas price \<open>g\<close> and the number \<open>n\<close>
  of transactions the chain has executed: every push sends one transaction, for the ids and times it was called with, with nonce \<open>n\<close>.  When the attempt before it is
  not executed, its price is the price of that attempt times the multiplier, rounded up, but no less than the market's and no
  more than the market's times the cap; else it is the market's price.  So a replacement is never cheaper than what it replaces,
  unless the cap forces it, which a market that does not fall excludes.  The multiplier and the cap are at least one, and the pending attempt of the
  starting state, if any, has a price of at least zero.
\<close>

theorem evm_replacements_rise:
  assumes "overrideGasPriceMultiplier cfg = Some m" "overrideGasPriceMultiplierCap cfg = Some c" "1 \<le> m" "1 \<le> c"
    and "list_all2 (answered cfg) ngs ps" "pending_ok (lastPushAttempt s)"
  shows "\<exists>ts. evmSent (evm_pushes cfg ps s) = evmSent s @ ts \<and> length ts = length ps \<and>
    (\<forall>i < length ps. evmNonce (ts ! i) = fst (ngs ! i) \<and> evmIds (ts ! i) = map addLeading0x (pushIds (ps ! i)) \<and> evmPubTimes (ts ! i) = pushTimes (ps ! i) \<and>
       evmGasPrice (ts ! i) = Some (bid m c ((lastPushAttempt s # map (\<lambda>t. Some (attempt_of t)) ts) ! i) (ngs ! i))) \<and>
    (\<forall>i. Suc i < length ps \<and> fst (ngs ! Suc i) \<le> fst (ngs ! i) \<longrightarrow>
       f_le (f_min (evmGasPrice (ts ! i)) (Some (fl (of_int (snd (ngs ! Suc i)) * c)))) (evmGasPrice (ts ! Suc i)) \<and>
       (snd (ngs ! i) \<le> snd (ngs ! Suc i) \<longrightarrow> f_le (evmGasPrice (ts ! i)) (evmGasPrice (ts ! Suc i))))"
proof -
  obtain ts where ts: "evmSent (evm_pushes cfg ps s) = evmSent s @ ts" "length ts = length ps"
    and each: "\<And>i. i < length ps \<Longrightarrow> evmNonce (ts ! i) = fst (ngs ! i) \<and> evmIds (ts ! i) = map addLeading0x (pushIds (ps ! i)) \<and> evmPubTimes (ts ! i) = pushTimes (ps ! i) \<and>
       evmGasPrice (ts ! i) = Some (bid m c ((lastPushAttempt s # map (\<lambda>t. Some (attempt_of t)) ts) ! i) (ngs ! i))"
    using pushes_bid[OF assms] by blast
  have g: "0 < snd (ngs ! i)" "snd (ngs ! i) < max_safe" if "i < length ps" for i
    using list_all2_nthD2[OF assms(5) that] by (simp_all add: answered_def)
  have ok: "pending_ok ((lastPushAttempt s # map (\<lambda>t. Some (attempt_of t)) ts) ! i)" if "i < length ps" for i
    using that
  proof (induction i)
    case (Suc i)
    then have i: "i < length ps" by simp
    show ?case
      using each[OF i] bid_bounds(1,3)[OF assms(3,4) g[OF i] Suc.IH[OF i], of "fst (ngs ! i)"] g[OF i] i ts(2)
      by (simp add: pending_ok_def attempt_of_def order_trans[of 0 "of_int (snd (ngs ! i))"])
  qed (simp add: assms(6))
  have rise: "f_le (f_min (evmGasPrice (ts ! i)) (Some (fl (of_int (snd (ngs ! Suc i)) * c)))) (evmGasPrice (ts ! Suc i)) \<and>
       (snd (ngs ! i) \<le> snd (ngs ! Suc i) \<longrightarrow> f_le (evmGasPrice (ts ! i)) (evmGasPrice (ts ! Suc i)))"
    if i: "Suc i < length ps" "fst (ngs ! Suc i) \<le> fst (ngs ! i)" for i
  proof -
    have i': "i < length ps" using i(1) by simp
    let ?q = "bid m c ((lastPushAttempt s # map (\<lambda>t. Some (attempt_of t)) ts) ! i) (ngs ! i)"
    let ?g = "of_int (snd (ngs ! Suc i)) :: rat"
    have q: "evmGasPrice (ts ! i) = Some ?q" "fl ?q = ?q" "0 \<le> ?q" "?q \<le> fl (of_int (snd (ngs ! i)) * c)"
      using each[OF i'] bid_bounds[OF assms(3,4) g[OF i'] ok[OF i'], of "fst (ngs ! i)"] g[OF i'] by (simp_all add: order_trans[of 0 "of_int (snd (ngs ! i))"])
    have "evmGasPrice (ts ! Suc i) = Some (bid m c (Some (attempt_of (ts ! i))) (ngs ! Suc i))"
      using each[OF i(1)] i' ts(2) by simp
    also have "bid m c (Some (attempt_of (ts ! i))) (ngs ! Suc i) = bid_price m c ?q ?g"
      using i(2) each[OF i'] q(1) by (cases "ngs ! Suc i") (simp add: attempt_of_def)
    finally have q': "evmGasPrice (ts ! Suc i) = Some (bid_price m c ?q ?g)" .
    have le: "min ?q (fl (?g * c)) \<le> bid_price m c ?q ?g" by (rule bid_raises[OF assms(3) q(2,3)])
    have "?q \<le> fl (?g * c)" if "snd (ngs ! i) \<le> snd (ngs ! Suc i)"
    proof -
      have "fl (of_int (snd (ngs ! i)) * c) \<le> fl (?g * c)"
        using that g[OF i'] assms(4) by (intro fl_mono mult_right_mono) simp_all
      then show ?thesis using q(4) by simp
    qed
    then show ?thesis using q(1) q' le by (auto simp: min_def split: if_splits)
  qed
  show ?thesis using ts each rise by (intro exI[of _ ts]) blast
qed

text \<open>
  Three pushes of a pusher that has an attempt of nonce 7 at 50 wei pending, at market prices of 80, 40 and 90 wei, with a multiplier of 2 and a cap of 3: the
  first two replace the pending transaction, then the chain executes it.
\<close>

definition demo_evm :: evm_config where
  "demo_evm = \<lparr>overrideGasPriceMultiplier = Some 2, overrideGasPriceMultiplierCap = Some 3, updateFeeMultiplier = Some 1, gasLimit = None,
     customGasStation = None\<rparr>"

definition demo_evm_push :: "int \<times> int \<Rightarrow> evm_push" where
  "demo_evm_push ng =
     \<lparr>pushAnswers = \<lparr>ansVaas = (\<lambda>ids. Inr [''AAAA'']), ansUpdateFee = (\<lambda>d. Inr (JNum 1)), ansMaxFee = (\<lambda>sp. Inr 0), ansToWei = (\<lambda>x u. Inr x),
        ansGasPrice = Inr (show_int (snd ng)), ansAccounts = Inr [''me''], ansTransactionCount = (\<lambda>a. Inr (fst ng)), ansSend = (\<lambda>tx. Inr ())\<rparr>,
      pushIds = [''aa''], pushTimes = [Num 1]\<rparr>"

definition demo_pending :: EvmPricePusher where
  "demo_pending = evm_new\<lparr>lastPushAttempt := Some \<lparr>attemptNonce = 7, attemptGasPrice = Some 50\<rparr>\<rparr>"

lemma demo_answered: "0 < g \<Longrightarrow> g < max_safe \<Longrightarrow> answered demo_evm (n, g) (demo_evm_push (n, g))"
  by (simp add: answered_def demo_evm_push_def demo_evm_def evm_getPriceFeedsUpdateData_def evm_update_fee_def evm_market_price_def json_float_def
      del: to_number.simps)

lemma demo_cfg:
  "overrideGasPriceMultiplier demo_evm = Some 2" "overrideGasPriceMultiplierCap demo_evm = Some 3" "(1::rat) \<le> 2" "(1::rat) \<le> 3"
  by (simp_all add: demo_evm_def)

lemma fl_small: "fl 50 = 50" "fl 100 = 100" "fl 200 = 200" "fl 240 = 240" "fl 120 = 120" "fl 270 = 270" "fl 30 = 30"
  using fl_of_int[of 50] fl_of_int[of 100] fl_of_int[of 200] fl_of_int[of 240] fl_of_int[of 120] fl_of_int[of 270] fl_of_int[of 30] by simp_all

theorem evm_replacements_rise_witness:
  "map (\<lambda>t. (evmNonce t, evmGasPrice t)) (evmSent (evm_pushes demo_evm (map demo_evm_push [(7, 80), (7, 40), (8, 90)]) demo_pending)) =
     [(7, Some 100), (7, Some 120), (8, Some 90)]"
proof -
  let ?ngs = "[(7, 80), (7, 40), (8, 90)] :: (int \<times> int) list"
  have l: "list_all2 (answered demo_evm) ?ngs (map demo_evm_push ?ngs)" by (simp add: demo_answered max_safe_def)
  have ok: "pending_ok (lastPushAttempt demo_pending)" by (simp add: pending_ok_def demo_pending_def fl_small)
  obtain ts where ts: "evmSent (evm_pushes demo_evm (map demo_evm_push ?ngs) demo_pending) = evmSent demo_pending @ ts" "length ts = 3"
    "\<forall>i < 3. evmNonce (ts ! i) = fst (?ngs ! i) \<and>
       evmGasPrice (ts ! i) = Some (bid 2 3 ((lastPushAttempt demo_pending # map (\<lambda>t. Some (attempt_of t)) ts) ! i) (?ngs ! i))"
    using evm_replacements_rise[OF demo_cfg l ok] by (elim exE conjE) simp
  obtain a b d where "ts = [a, b, d]" using ts(2) by (auto simp: numeral_3_eq_3 length_Suc_conv)
  moreover have "evmNonce (ts ! 0) = 7" "evmNonce (ts ! 1) = 7" "evmNonce (ts ! 2) = 8"
    "evmGasPrice (ts ! 0) = Some 100"
    using ts(3)[rule_format, of 0] ts(3)[rule_format, of 1] ts(3)[rule_format, of 2]
    by (simp_all add: demo_pending_def bid_price_def fl_small)
  moreover have "evmGasPrice (ts ! 1) = Some 120" "evmGasPrice (ts ! 2) = Some 90"
    using ts(3)[rule_format, of 1] ts(3)[rule_format, of 2] calculation
    by (simp_all add: bid_price_def attempt_of_def fl_small)
  ultimately show ?thesis using ts(1) by (simp add: demo_pending_def evm_new_def)
qed

text \<open>
  When the market falls the cap can push the price below the pending one's: after 100 wei, at a market of 10 and a cap of 3, the
  replacement offers 30, which a node refuses.
\<close>

lemma replacement_price_can_fall:
  "map evmGasPrice (evmSent (evm_pushes demo_evm (map demo_evm_push [(7, 100), (7, 10)]) evm_new)) = [Some 100, Some 30]"
proof -
  let ?ngs = "[(7, 100), (7, 10)] :: (int \<times> int) list"
  have l: "list_all2 (answered demo_evm) ?ngs (map demo_evm_push ?ngs)" by (simp add: demo_answered max_safe_def)
  have ok: "pending_ok (lastPushAttempt evm_new)" by (simp add: pending_ok_def evm_new_def)
  obtain ts where ts: "evmSent (evm_pushes demo_evm (map demo_evm_push ?ngs) evm_new) = evmSent evm_new @ ts" "length ts = 2"
    "\<forall>i < 2. evmNonce (ts ! i) = fst (?ngs ! i) \<and>
       evmGasPrice (ts ! i) = Some (bid 2 3 ((lastPushAttempt evm_new # map (\<lambda>t. Some (attempt_of t)) ts) ! i) (?ngs ! i))"
    using pushes_bid[OF demo_cfg l ok] by (elim exE conjE) simp
  obtain a b where "ts = [a, b]" using ts(2) by (auto simp: numeral_2_eq_2 length_Suc_conv)
  then show ?thesis
    using ts(1) ts(3)[rule_format, of 0] ts(3)[rule_format, of 1] by (simp add: evm_new_def bid_price_def attempt_of_def fl_small)
qed

text \<open>When \<^verbatim>\<open>send\<close> throws at once, the push throws and records no attempt: the next push bids without regard to the price of this one.\<close>

lemma evm_send_throws:
  assumes "\<forall>tx. ansSend ans tx = Inl e"
  shows "evm_send cfg ans data ids pubTimes fee market n s = (Inl e, s\<lparr>lastPushAttempt := pending_attempt (n - 1) (lastPushAttempt s)\<rparr>)"
  using assms by (simp add: evm_send_def Let_def)

end
