(* ===== verification/Aptos_Pusher.thy ===== *)
theory Aptos_Pusher
  imports Price_Pusher Base64
begin

section \<open>The Aptos price pusher: \<^verbatim>\<open>apps/price_pusher/src/aptos/aptos.ts\<close>\<close>

text \<open>
  The pusher numbers its transactions itself: it keeps the last number, predicts the next one, and asks the chain again after a failure.  The client of
  the chain and the price service are parameters: their answers come with the events.  The controller does not wait for a push, so pushes
  overlap; they are steps of a relation, cut at the \<^verbatim>\<open>await\<close>s.  A lock keeps two of them from asking for the number at once.
\<close>

text \<open>
  The value in the contract's table.  A negative price is a magnitude with a flag, and the result goes through \<^verbatim>\<open>Number\<close>.
\<close>

definition aptos_getOnChainPriceInfo :: "(string \<Rightarrow> json outcome) \<Rightarrow> (json \<Rightarrow> string \<Rightarrow> json outcome) \<Rightarrow> string \<Rightarrow> string \<Rightarrow> PriceInfo option" where
  "aptos_getOnChainPriceInfo getAccountResource getTableItem pythModule priceId =
     (case e_bind (getAccountResource (pythModule @ ''::state::LatestPriceInfo'')) (\<lambda>data.
           e_bind (get_prop ''info'' data) (\<lambda>info.
           e_bind (get_prop ''handle'' info) (\<lambda>handle.
           e_bind (getTableItem handle priceId) (\<lambda>item.
           e_bind (get_prop ''price_feed'' item) (\<lambda>feed.
           e_bind (get_prop ''price'' feed) (\<lambda>p.
           e_bind (get_prop ''price'' p) (\<lambda>pp.
           e_bind (get_prop ''negative'' pp) (\<lambda>negative.
           Inr (p, to_number (own_prop ''magnitude'' pp), negative = JBool True)))))))))
        of
        Inl e \<Rightarrow> None
      | Inr (p, magnitude, negative) \<Rightarrow>
          Some \<lparr>infoPrice = (case magnitude of NaN \<Rightarrow> ''NaN'' | Num n \<Rightarrow> show_int (if negative then - n else n)),
                infoConf = js_string (own_prop ''conf'' p), infoPublishTime = to_number (own_prop ''timestamp'' p)\<rparr>)"

definition aptos_getPriceFeedsUpdateData :: "string list \<Rightarrow> bytes list" where
  "aptos_getPriceFeedsUpdateData latestVaas = map from_base64 latestVaas"

text \<open>
  The suspended calls: waiting for the VAAs, for the sequence number, for a transaction to be submitted (generated, signed and sent), for its
  confirmation.  \<open>aptosSent\<close> lists the sequence numbers that pushes went on with.
\<close>

datatype aptos_task =
    AwaitVaas
  | Fetching "bytes list"
  | Submitting nat "bytes list"
  | Confirming nat

record AptosPricePusher =
  lastSequenceNumber :: "nat option"
  sequenceNumberLocked :: bool
  aptosTasks :: "aptos_task list"
  aptosSent :: "nat list"

definition aptos_new :: AptosPricePusher where
  "aptos_new = \<lparr>lastSequenceNumber = None, sequenceNumberLocked = False, aptosTasks = [], aptosSent = []\<rparr>"

datatype seq_answer = SeqNow nat | SeqFetch | SeqThrow js_error

definition tryGetNextSequenceNumber :: "AptosPricePusher \<Rightarrow> seq_answer \<times> AptosPricePusher" where
  "tryGetNextSequenceNumber s =
     (case lastSequenceNumber s of
        Some n \<Rightarrow> (SeqNow (n + 1), s\<lparr>lastSequenceNumber := Some (n + 1)\<rparr>)
      | None \<Rightarrow>
          if \<not> sequenceNumberLocked s then (SeqFetch, s\<lparr>sequenceNumberLocked := True\<rparr>)
          else (SeqThrow (mk_error ''Waiting for sequence number in another thread.''), s))"

text \<open>The rest of \<^verbatim>\<open>tryGetNextSequenceNumber\<close> after the answer of the chain; \<^verbatim>\<open>finally\<close> releases the lock.\<close>

definition sequence_fetched :: "nat outcome \<Rightarrow> AptosPricePusher \<Rightarrow> nat outcome \<times> AptosPricePusher" where
  "sequence_fetched answer s =
     (case answer of
        Inr n \<Rightarrow> (Inr n, s\<lparr>lastSequenceNumber := Some n, sequenceNumberLocked := False\<rparr>)
      | Inl e \<Rightarrow> (Inl (mk_error ''Failed to retrieve sequence number''), s\<lparr>sequenceNumberLocked := False\<rparr>))"

definition aptos_drop :: "nat \<Rightarrow> AptosPricePusher \<Rightarrow> AptosPricePusher" where
  "aptos_drop k s = s\<lparr>aptosTasks := take k (aptosTasks s) @ drop (Suc k) (aptosTasks s)\<rparr>"

definition aptos_spawn :: "aptos_task \<Rightarrow> AptosPricePusher \<Rightarrow> AptosPricePusher" where
  "aptos_spawn t s = s\<lparr>aptosTasks := aptosTasks s @ [t]\<rparr>"

text \<open>The two handlers of errors do the same.\<close>

definition aptos_reset :: "AptosPricePusher \<Rightarrow> AptosPricePusher" where
  "aptos_reset s = s\<lparr>lastSequenceNumber := None\<rparr>"

definition aptos_submit :: "nat \<Rightarrow> bytes list \<Rightarrow> AptosPricePusher \<Rightarrow> AptosPricePusher" where
  "aptos_submit n data s = aptos_spawn (Submitting n data) (s\<lparr>aptosSent := aptosSent s @ [n]\<rparr>)"

definition aptos_updatePriceFeed :: "string list \<Rightarrow> int list \<Rightarrow> AptosPricePusher \<Rightarrow> unit outcome option \<times> AptosPricePusher" where
  "aptos_updatePriceFeed priceIds pubTimesToPush s =
     (case push_guard priceIds pubTimesToPush of
        Some r \<Rightarrow> (Some r, s)
      | None \<Rightarrow> (None, aptos_spawn AwaitVaas s))"

definition aptos_vaas :: "string list outcome \<Rightarrow> AptosPricePusher \<Rightarrow> AptosPricePusher" where
  "aptos_vaas answer s =
     (case answer of
        Inl e \<Rightarrow> s
      | Inr latestVaas \<Rightarrow>
          (let data = aptos_getPriceFeedsUpdateData latestVaas in
           case tryGetNextSequenceNumber s of
             (SeqNow n, s1) \<Rightarrow> aptos_submit n data s1
           | (SeqFetch, s1) \<Rightarrow> aptos_spawn (Fetching data) s1
           | (SeqThrow e, s1) \<Rightarrow> aptos_reset s1))"

definition aptos_fetched :: "bytes list \<Rightarrow> nat outcome \<Rightarrow> AptosPricePusher \<Rightarrow> AptosPricePusher" where
  "aptos_fetched data answer s =
     (case sequence_fetched answer s of
        (Inr n, s1) \<Rightarrow> aptos_submit n data s1
      | (Inl e, s1) \<Rightarrow> aptos_reset s1)"

definition aptos_submitted :: "nat \<Rightarrow> unit outcome \<Rightarrow> AptosPricePusher \<Rightarrow> AptosPricePusher" where
  "aptos_submitted n answer s = (case answer of Inr _ \<Rightarrow> aptos_spawn (Confirming n) s | Inl e \<Rightarrow> aptos_reset s)"

definition waitForTransactionConfirmation :: "unit outcome \<Rightarrow> AptosPricePusher \<Rightarrow> AptosPricePusher" where
  "waitForTransactionConfirmation answer s = (case answer of Inr _ \<Rightarrow> s | Inl e \<Rightarrow> aptos_reset s)"

datatype aptos_event =
    APush "string list" "int list"
  | AVaas nat "string list outcome"
  | AFetched nat "nat outcome"
  | ASubmitted nat "unit outcome"
  | AConfirmed nat "unit outcome"

inductive aptos_step :: "AptosPricePusher \<Rightarrow> aptos_event \<Rightarrow> AptosPricePusher \<Rightarrow> bool" where
  push: "aptos_step s (APush ids ts) (snd (aptos_updatePriceFeed ids ts s))"
| vaas: "k < length (aptosTasks s) \<Longrightarrow> aptosTasks s ! k = AwaitVaas \<Longrightarrow> aptos_step s (AVaas k a) (aptos_vaas a (aptos_drop k s))"
| fetched: "k < length (aptosTasks s) \<Longrightarrow> aptosTasks s ! k = Fetching data \<Longrightarrow> aptos_step s (AFetched k a) (aptos_fetched data a (aptos_drop k s))"
| submitted: "k < length (aptosTasks s) \<Longrightarrow> aptosTasks s ! k = Submitting n data \<Longrightarrow> aptos_step s (ASubmitted k a) (aptos_submitted n a (aptos_drop k s))"
| confirmed: "k < length (aptosTasks s) \<Longrightarrow> aptosTasks s ! k = Confirming n \<Longrightarrow>
     aptos_step s (AConfirmed k a) (waitForTransactionConfirmation a (aptos_drop k s))"

text \<open>Runs whose events satisfy a predicate.\<close>

inductive aptos_run :: "(aptos_event \<Rightarrow> bool) \<Rightarrow> AptosPricePusher \<Rightarrow> AptosPricePusher \<Rightarrow> bool" for P where
  stay: "aptos_run P s s"
| move: "aptos_run P s s1 \<Longrightarrow> aptos_step s1 e s2 \<Longrightarrow> P e \<Longrightarrow> aptos_run P s s2"

text \<open>The relation as a function, for runs on concrete events.\<close>

fun aptos_next :: "AptosPricePusher \<Rightarrow> aptos_event \<Rightarrow> AptosPricePusher option" where
  "aptos_next s (APush ids ts) = Some (snd (aptos_updatePriceFeed ids ts s))"
| "aptos_next s (AVaas k a) =
     (if k < length (aptosTasks s) then case aptosTasks s ! k of AwaitVaas \<Rightarrow> Some (aptos_vaas a (aptos_drop k s)) | _ \<Rightarrow> None else None)"
| "aptos_next s (AFetched k a) =
     (if k < length (aptosTasks s) then case aptosTasks s ! k of Fetching data \<Rightarrow> Some (aptos_fetched data a (aptos_drop k s)) | _ \<Rightarrow> None else None)"
| "aptos_next s (ASubmitted k a) =
     (if k < length (aptosTasks s) then case aptosTasks s ! k of Submitting n data \<Rightarrow> Some (aptos_submitted n a (aptos_drop k s)) | _ \<Rightarrow> None else None)"
| "aptos_next s (AConfirmed k a) =
     (if k < length (aptosTasks s) then case aptosTasks s ! k of Confirming n \<Rightarrow> Some (waitForTransactionConfirmation a (aptos_drop k s)) | _ \<Rightarrow> None else None)"

fun aptos_play :: "AptosPricePusher \<Rightarrow> aptos_event list \<Rightarrow> AptosPricePusher option" where
  "aptos_play s [] = Some s"
| "aptos_play s (e # es) = (case aptos_next s e of None \<Rightarrow> None | Some s1 \<Rightarrow> aptos_play s1 es)"

lemma aptos_step_iff_next: "aptos_step s e s' \<longleftrightarrow> aptos_next s e = Some s'"
proof
  show "aptos_step s e s' \<Longrightarrow> aptos_next s e = Some s'"
    by (induction rule: aptos_step.induct) simp_all
  show "aptos_next s e = Some s' \<Longrightarrow> aptos_step s e s'"
    by (cases e) (auto intro: aptos_step.intros split: if_splits aptos_task.splits)
qed

lemma aptos_run_trans: "aptos_run P s1 s2 \<Longrightarrow> aptos_run P s s1 \<Longrightarrow> aptos_run P s s2"
  by (induction rule: aptos_run.induct) (auto intro: aptos_run.move)

lemma aptos_play_run: "aptos_play s es = Some s' \<Longrightarrow> list_all P es \<Longrightarrow> aptos_run P s s'"
proof (induction es arbitrary: s)
  case Nil
  then show ?case by (simp add: aptos_run.stay)
next
  case (Cons e es)
  then obtain s1 where s1: "aptos_next s e = Some s1" "aptos_play s1 es = Some s'" by (auto split: option.splits)
  have "aptos_run P s s1"
    using aptos_run.move[OF aptos_run.stay, of s e s1 P] s1(1) Cons.prems(2) by (simp add: aptos_step_iff_next)
  then show ?case using Cons.IH[OF s1(2)] Cons.prems(2) aptos_run_trans by auto
qed

fun failure :: "aptos_event \<Rightarrow> bool" where
  "failure (AFetched k (Inl e)) = True"
| "failure (ASubmitted k (Inl e)) = True"
| "failure (AConfirmed k (Inl e)) = True"
| "failure _ = False"

text \<open>The lock and the fetch that holds it; there is no number in the cache while it is fetched.\<close>

fun fetching :: "aptos_task \<Rightarrow> bool" where
  "fetching (Fetching data) = True"
| "fetching _ = False"

definition aptos_inv :: "AptosPricePusher \<Rightarrow> bool" where
  "aptos_inv s \<longleftrightarrow> length (filter fetching (aptosTasks s)) = (if sequenceNumberLocked s then 1 else 0) \<and>
     (sequenceNumberLocked s \<longrightarrow> lastSequenceNumber s = None)"

lemmas aptos_defs = aptos_updatePriceFeed_def aptos_vaas_def aptos_fetched_def aptos_submitted_def waitForTransactionConfirmation_def
  aptos_submit_def aptos_spawn_def aptos_reset_def tryGetNextSequenceNumber_def sequence_fetched_def

lemma aptos_drop_simps [simp]:
  "lastSequenceNumber (aptos_drop k s) = lastSequenceNumber s" "sequenceNumberLocked (aptos_drop k s) = sequenceNumberLocked s"
  "aptosSent (aptos_drop k s) = aptosSent s"
  by (simp_all add: aptos_drop_def)

lemma fetches_drop:
  assumes "k < length (aptosTasks s)"
  shows "length (filter fetching (aptosTasks s)) =
    (if fetching (aptosTasks s ! k) then 1 else 0) + length (filter fetching (aptosTasks (aptos_drop k s)))"
proof -
  have "filter fetching (aptosTasks s) = filter fetching (take k (aptosTasks s) @ aptosTasks s ! k # drop (Suc k) (aptosTasks s))"
    using id_take_nth_drop[OF assms] by simp
  then show ?thesis by (simp add: aptos_drop_def)
qed

lemma aptos_inv_step: "aptos_step s e s' \<Longrightarrow> aptos_inv s \<Longrightarrow> aptos_inv s'"
proof (induction rule: aptos_step.induct)
  case (vaas k s a)
  then show ?case
    using fetches_drop[of k s] by (auto simp: aptos_inv_def aptos_defs Let_def split: sum.splits option.splits if_splits)
next
  case (fetched k s data a)
  then show ?case
    using fetches_drop[of k s] by (auto simp: aptos_inv_def aptos_defs split: sum.splits if_splits)
qed (use fetches_drop in \<open>auto simp: aptos_inv_def aptos_defs split: sum.splits option.splits if_splits\<close>)

lemma aptos_inv_run: "aptos_run P s s' \<Longrightarrow> aptos_inv s \<Longrightarrow> aptos_inv s'"
  by (induction rule: aptos_run.induct) (auto intro: aptos_inv_step)

lemma aptos_inv_new: "aptos_inv aptos_new"
  by (simp add: aptos_inv_def aptos_new_def)

lemma sent_step:
  assumes "aptos_step s e s'" "aptos_inv s" "lastSequenceNumber s = Some n" "\<not> failure e"
  shows "\<exists>m. lastSequenceNumber s' = Some (n + m) \<and> aptosSent s' = aptosSent s @ [Suc n..<Suc n + m]"
  using assms
proof (induction rule: aptos_step.induct)
  case (push s ids ts)
  then show ?case by (intro exI[of _ 0]) (auto simp: aptos_defs split: option.splits)
next
  case (vaas k s a)
  show ?case
  proof (cases a)
    case (Inl e)
    then show ?thesis using vaas by (intro exI[of _ 0]) (simp add: aptos_defs)
  next
    case (Inr d)
    then show ?thesis using vaas by (intro exI[of _ 1]) (simp add: aptos_defs Let_def)
  qed
next
  case (fetched k s data a)
  have "sequenceNumberLocked s"
    using fetched fetches_drop[of k s] by (auto simp: aptos_inv_def split: if_splits)
  then show ?case using fetched by (simp add: aptos_inv_def)
next
  case (submitted k s n' data a)
  then show ?case by (cases a) (auto simp: aptos_defs intro!: exI[of _ 0])
next
  case (confirmed k s n' a)
  then show ?case by (cases a) (auto simp: aptos_defs intro!: exI[of _ 0])
qed

lemma sent_run:
  assumes "aptos_run (\<lambda>e. \<not> failure e) s s'" "lastSequenceNumber s = Some n" "aptos_inv s"
  shows "\<exists>m. lastSequenceNumber s' = Some (n + m) \<and> aptosSent s' = aptosSent s @ [Suc n..<Suc n + m]"
  using assms
proof (induction rule: aptos_run.induct)
  case (stay s)
  then show ?case by (intro exI[of _ 0]) simp
next
  case (move s s1 e s2)
  then obtain m where m: "lastSequenceNumber s1 = Some (n + m)" "aptosSent s1 = aptosSent s @ [Suc n..<Suc n + m]" by blast
  obtain m' where "lastSequenceNumber s2 = Some (n + m + m')" "aptosSent s2 = aptosSent s1 @ [Suc (n + m)..<Suc (n + m) + m']"
    using sent_step[OF move.hyps(2) aptos_inv_run[OF move.hyps(1) move.prems(2)] m(1) move.hyps(3)] by blast
  then show ?case
    using m(2) upt_add_eq_append[of "Suc n" "Suc n + m" m'] by (intro exI[of _ "m + m'"]) (simp add: add.assoc)
qed

text \<open>
  C9.  Sequence numbers on Aptos: however pushes overlap, at most one of them asks the chain for the number, and only while none is cached; and
  from any reachable state with a cached number, as long as nothing fails the transactions get the following numbers in order, none twice and none left out.
\<close>

theorem aptos_numbers_consecutive:
  assumes "aptos_run (\<lambda>e. True) aptos_new s" "lastSequenceNumber s = Some n" "aptos_run (\<lambda>e. \<not> failure e) s s'"
  shows "length (filter fetching (aptosTasks s)) = 0 \<and>
    (\<exists>m. lastSequenceNumber s' = Some (n + m) \<and> aptosSent s' = aptosSent s @ [Suc n..<Suc n + m])"
proof
  have inv: "aptos_inv s" using aptos_inv_run[OF assms(1)] aptos_inv_new by blast
  then show "length (filter fetching (aptosTasks s)) = 0" using assms(2) by (simp add: aptos_inv_def)
  show "\<exists>m. lastSequenceNumber s' = Some (n + m) \<and> aptosSent s' = aptosSent s @ [Suc n..<Suc n + m]"
    using assms(3,2) inv by (rule sent_run)
qed

text \<open>Two pushes overlap: the first fetches the number 5, the second finds it in the cache.\<close>

definition two_pushes :: "aptos_event list" where
  "two_pushes = [APush [''f''] [1], AVaas 0 (Inr [''AAAA'']), APush [''f''] [2], AFetched 0 (Inr 5)]"

definition one_push :: AptosPricePusher where
  "one_push = \<lparr>lastSequenceNumber = Some 5, sequenceNumberLocked = False, aptosTasks = [AwaitVaas, Submitting 5 [[0, 0, 0]]], aptosSent = [5]\<rparr>"

definition later_pushes :: AptosPricePusher where
  "later_pushes = \<lparr>lastSequenceNumber = Some 6, sequenceNumberLocked = False, aptosTasks = [Submitting 6 [[0, 0, 0]], Confirming 5], aptosSent = [5, 6]\<rparr>"

lemma play_two_pushes: "aptos_play aptos_new two_pushes = Some one_push"
  by code_simp

lemma play_later: "aptos_play one_push [AVaas 0 (Inr [''AAAA'']), ASubmitted 0 (Inr ())] = Some later_pushes"
  by code_simp

theorem aptos_numbers_consecutive_witness:
  "length (filter fetching (aptosTasks one_push)) = 0 \<and>
   (\<exists>m. lastSequenceNumber later_pushes = Some (5 + m) \<and> aptosSent later_pushes = aptosSent one_push @ [Suc 5..<Suc 5 + m])"
proof (rule aptos_numbers_consecutive)
  show "aptos_run (\<lambda>e. True) aptos_new one_push" by (rule aptos_play_run[OF play_two_pushes]) (simp add: two_pushes_def)
  show "lastSequenceNumber one_push = Some 5" by (simp add: one_push_def)
  show "aptos_run (\<lambda>e. \<not> failure e) one_push later_pushes" by (rule aptos_play_run[OF play_later]) simp
qed

text \<open>
  A transaction that does not confirm in time resets the cache while later ones are still pending; the chain, which has not seen those, then
  answers with a number that is already taken: 6 is used twice.
\<close>

lemma pending_number_reused:
  "map_option aptosSent (aptos_play later_pushes
     [AConfirmed 1 (Inl (mk_error ''timeout'')), APush [''f''] [3], AVaas 1 (Inr [''AAAA'']), AFetched 1 (Inr 6)]) = Some [5, 6, 6]"
  by code_simp

end
