(* ===== verification/Injective_Pusher.thy ===== *)
theory Injective_Pusher
  imports Price_Pusher Base64 Query_Binary
begin

section \<open>The Injective price pusher: \<^verbatim>\<open>apps/price_pusher/src/injective/injective.ts\<close>\<close>

text \<open>
  The pusher keeps the account with its sequence number and counts it up itself.  The clients of the chain are parameters: their answers come with the events.  As
  the controller does not wait for a push, pushes overlap; they are steps of a relation, cut at the \<^verbatim>\<open>await\<close>s, that share the account.
\<close>

definition DEFAULT_GAS_PRICE :: int where
  "DEFAULT_GAS_PRICE = 500000000"

record InjectiveConfig =
  chainId :: string
  gasMultiplier :: jsfloat
  injGasPrice :: jsfloat

text \<open>\<^verbatim>\<open>Partial\<close>: an outer \<open>None\<close> is a missing entry.\<close>

definition injective_config :: "string option \<Rightarrow> jsfloat option \<Rightarrow> jsfloat option \<Rightarrow> InjectiveConfig" where
  "injective_config cid mult price =
     \<lparr>chainId = (case cid of None \<Rightarrow> ''injective-888'' | Some c \<Rightarrow> c),
      gasMultiplier = (case mult of None \<Rightarrow> Some (fl (12 / 10)) | Some m \<Rightarrow> m),
      injGasPrice = (case price of None \<Rightarrow> f_int DEFAULT_GAS_PRICE | Some p \<Rightarrow> p)\<rparr>"

subsection \<open>The listener\<close>

definition price_query :: "string \<Rightarrow> string" where
  "price_query priceId = to_base64 (utf8_encode (''{\"price_feed\":{\"id\":\"'' @ priceId @ ''\"}}''))"

text \<open>\<open>parse\<close> is \<^verbatim>\<open>JSON.parse\<close>.  What is thrown after the \<^verbatim>\<open>try\<close> is not caught.\<close>

definition injective_getOnChainPriceInfo :: "(string \<Rightarrow> json outcome) \<Rightarrow> (string \<Rightarrow> bytes outcome) \<Rightarrow> string \<Rightarrow> PriceInfo option outcome" where
  "injective_getOnChainPriceInfo parse fetchSmartContractState priceId =
     (case e_bind (fetchSmartContractState (price_query priceId)) (\<lambda>data. parse (utf8_decode data)) of
        Inl e \<Rightarrow> Inr None
      | Inr response \<Rightarrow>
          e_bind (get_prop ''price_feed'' response) (\<lambda>feed.
          e_bind (get_prop ''price'' feed) (\<lambda>p.
          e_bind (get_prop ''conf'' p) (\<lambda>conf.
          Inr (Some \<lparr>infoPrice = js_string (own_prop ''price'' p), infoConf = js_string conf, infoPublishTime = to_number (own_prop ''publish_time'' p)\<rparr>)))))"

subsection \<open>Gas\<close>

text \<open>\<^verbatim>\<open>x.toFixed()\<close> of a number that is not negative: the nearest integer, the larger one of two; \<^verbatim>\<open>NaN\<close> otherwise.\<close>

fun to_fixed :: "jsfloat \<Rightarrow> int option" where
  "to_fixed (Some x) = Some \<lfloor>x + 1 / 2\<rfloor>"
| "to_fixed None = None"

definition show_fixed :: "int option \<Rightarrow> string" where
  "show_fixed n = (case n of None \<Rightarrow> ''NaN'' | Some i \<Rightarrow> show_int i)"

text \<open>The gas limit and the fee: \<open>Number(gas)\<close> reads the limit back.\<close>

definition inj_gas :: "InjectiveConfig \<Rightarrow> jsfloat \<Rightarrow> int option" where
  "inj_gas cfg gasUsed = to_fixed (f_mul gasUsed (gasMultiplier cfg))"

definition inj_fee :: "InjectiveConfig \<Rightarrow> jsfloat \<Rightarrow> int option" where
  "inj_fee cfg gasUsed = to_fixed (f_mul (json_float (JStr (show_fixed (inj_gas cfg gasUsed)))) (injGasPrice cfg))"

subsection \<open>The pusher\<close>

record inj_account =
  accountNumber :: int
  accSequence :: int

text \<open>The message is the VAAs with the fee the contract asked for.\<close>

record inj_msg =
  msgVaas :: "string list"
  msgFunds :: json

record inj_tx =
  injSequence :: int
  injAccountNumber :: int
  injMessage :: inj_msg
  injChain :: string
  injGas :: "(int option \<times> int option) option"

datatype inj_task =
    InjVaas
  | InjFee "string list"
  | InjFetch inj_msg
  | InjSimulate inj_msg
  | InjSign inj_tx
  | InjBroadcast inj_tx

text \<open>\<open>injSent\<close> lists the transactions handed to \<^verbatim>\<open>broadcast\<close>, \<open>injDone\<close> how the pushes ended.\<close>

record InjectivePricePusher =
  injAccount :: "inj_account option"
  injTasks :: "inj_task list"
  injSent :: "inj_tx list"
  injDone :: "unit outcome list"

definition inj_new :: InjectivePricePusher where
  "inj_new = \<lparr>injAccount = None, injTasks = [], injSent = [], injDone = []\<rparr>"

definition inj_spawn :: "inj_task \<Rightarrow> InjectivePricePusher \<Rightarrow> InjectivePricePusher" where
  "inj_spawn t s = s\<lparr>injTasks := injTasks s @ [t]\<rparr>"

definition inj_end :: "unit outcome \<Rightarrow> InjectivePricePusher \<Rightarrow> InjectivePricePusher" where
  "inj_end r s = s\<lparr>injDone := injDone s @ [r]\<rparr>"

definition inj_drop :: "nat \<Rightarrow> InjectivePricePusher \<Rightarrow> InjectivePricePusher" where
  "inj_drop k s = s\<lparr>injTasks := take k (injTasks s) @ drop (Suc k) (injTasks s)\<rparr>"

text \<open>\<^verbatim>\<open>/account inj[a-zA-Z0-9]+ not found/\<close>: the class of the middle has no space, so the longest run of it decides.\<close>

definition alnum :: "char \<Rightarrow> bool" where
  "alnum c = (let n = of_char c :: nat in (97 \<le> n \<and> n \<le> 122) \<or> (65 \<le> n \<and> n \<le> 90) \<or> (48 \<le> n \<and> n \<le> 57))"

fun account_not_found :: "string \<Rightarrow> bool" where
  "account_not_found [] = False"
| "account_not_found (c # cs) =
     ((starts_with ''account inj'' (c # cs) \<and>
       (let r = drop 11 (c # cs) in takeWhile alnum r \<noteq> [] \<and> starts_with '' not found'' (dropWhile alnum r)))
      \<or> account_not_found cs)"

definition inj_caught :: "js_error \<Rightarrow> unit outcome" where
  "inj_caught e =
     (case errMessage e of
        None \<Rightarrow> Inl (type_error (''Cannot read properties of undefined''))
      | Some m \<Rightarrow>
          if account_not_found m then Inl (mk_error ''Please check the mnemonic'')
          else if str_includes ''insufficient'' m \<and> str_includes ''funds'' m then Inl (mk_error ''Insufficient funds'')
          else Inr ())"

text \<open>A throw inside the \<^verbatim>\<open>try\<close> of \<^verbatim>\<open>signAndBroadcastMsg\<close>; \<open>stringify\<close> is \<^verbatim>\<open>JSON.stringify\<close> of an error.\<close>

definition inj_failed :: "(js_error \<Rightarrow> string) \<Rightarrow> js_error \<Rightarrow> InjectivePricePusher \<Rightarrow> InjectivePricePusher" where
  "inj_failed stringify e s =
     inj_end (inj_caught e) (if str_includes ''account sequence mismatch'' (stringify e) then s\<lparr>injAccount := None\<rparr> else s)"

definition inj_null :: js_error where
  "inj_null = type_error (''Cannot read properties of null'')"

definition injective_updatePriceFeed :: "string list \<Rightarrow> jsnum list \<Rightarrow> InjectivePricePusher \<Rightarrow> InjectivePricePusher" where
  "injective_updatePriceFeed priceIds pubTimesToPush s =
     (case push_guard priceIds pubTimesToPush of Some r \<Rightarrow> inj_end r s | None \<Rightarrow> inj_spawn InjVaas s)"

definition inj_vaas :: "string list outcome \<Rightarrow> InjectivePricePusher \<Rightarrow> InjectivePricePusher" where
  "inj_vaas answer s = (case answer of Inl e \<Rightarrow> inj_end (Inr ()) s | Inr vaas \<Rightarrow> inj_spawn (InjFee vaas) s)"

text \<open>The first lines of \<^verbatim>\<open>signAndBroadcastMsg\<close>, and the rest after the account is there.\<close>

definition inj_simulate :: "inj_msg \<Rightarrow> InjectivePricePusher \<Rightarrow> InjectivePricePusher" where
  "inj_simulate m s = (case injAccount s of None \<Rightarrow> inj_end (inj_caught inj_null) s | Some a \<Rightarrow> inj_spawn (InjSimulate m) s)"

definition inj_fee_answer :: "string list \<Rightarrow> json outcome \<Rightarrow> InjectivePricePusher \<Rightarrow> InjectivePricePusher" where
  "inj_fee_answer vaas answer s =
     (case answer of
        Inl e \<Rightarrow> inj_end (Inr ()) s
      | Inr fee \<Rightarrow>
          (let m = \<lparr>msgVaas = vaas, msgFunds = fee\<rparr>
           in case injAccount s of None \<Rightarrow> inj_spawn (InjFetch m) s | Some a \<Rightarrow> inj_simulate m s))"

definition inj_fetched :: "inj_msg \<Rightarrow> inj_account outcome \<Rightarrow> InjectivePricePusher \<Rightarrow> InjectivePricePusher" where
  "inj_fetched m answer s =
     (case answer of Inl e \<Rightarrow> inj_end (inj_caught e) s | Inr a \<Rightarrow> inj_simulate m (s\<lparr>injAccount := Some a\<rparr>))"

definition inj_simulated :: "(js_error \<Rightarrow> string) \<Rightarrow> InjectiveConfig \<Rightarrow> inj_msg \<Rightarrow> jsfloat outcome \<Rightarrow> InjectivePricePusher \<Rightarrow> InjectivePricePusher" where
  "inj_simulated stringify cfg m answer s =
     (case answer of
        Inl e \<Rightarrow> inj_failed stringify e s
      | Inr gasUsed \<Rightarrow>
          (case injAccount s of
             None \<Rightarrow> inj_failed stringify inj_null s
           | Some a \<Rightarrow>
               inj_spawn (InjSign \<lparr>injSequence = accSequence a, injAccountNumber = accountNumber a, injMessage = m, injChain = chainId cfg,
                 injGas = Some (inj_gas cfg gasUsed, inj_fee cfg gasUsed)\<rparr>) s))"

definition inj_signed :: "(js_error \<Rightarrow> string) \<Rightarrow> inj_tx \<Rightarrow> unit outcome \<Rightarrow> InjectivePricePusher \<Rightarrow> InjectivePricePusher" where
  "inj_signed stringify tx answer s =
     (case answer of
        Inl e \<Rightarrow> inj_failed stringify e s
      | Inr _ \<Rightarrow>
          (case injAccount s of
             None \<Rightarrow> inj_failed stringify inj_null s
           | Some a \<Rightarrow> inj_spawn (InjBroadcast tx) (s\<lparr>injAccount := Some (a\<lparr>accSequence := accSequence a + 1\<rparr>), injSent := injSent s @ [tx]\<rparr>)))"

definition inj_broadcast :: "(js_error \<Rightarrow> string) \<Rightarrow> unit outcome \<Rightarrow> InjectivePricePusher \<Rightarrow> InjectivePricePusher" where
  "inj_broadcast stringify answer s = (case answer of Inl e \<Rightarrow> inj_failed stringify e s | Inr _ \<Rightarrow> inj_end (Inr ()) s)"

datatype inj_event =
    EPush "string list" "jsnum list"
  | EVaas nat "string list outcome"
  | EFee nat "json outcome"
  | EFetched nat "inj_account outcome"
  | ESimulated nat "jsfloat outcome"
  | ESigned nat "unit outcome"
  | EBroadcast nat "unit outcome"

text \<open>What the answer to the \<open>k\<close>-th suspended call does.\<close>

fun inj_answer :: "(js_error \<Rightarrow> string) \<Rightarrow> InjectiveConfig \<Rightarrow> inj_event \<Rightarrow> inj_task \<Rightarrow> InjectivePricePusher \<Rightarrow> InjectivePricePusher option" where
  "inj_answer str cfg (EVaas k a) InjVaas s = Some (inj_vaas a s)"
| "inj_answer str cfg (EFee k a) (InjFee vaas) s = Some (inj_fee_answer vaas a s)"
| "inj_answer str cfg (EFetched k a) (InjFetch m) s = Some (inj_fetched m a s)"
| "inj_answer str cfg (ESimulated k a) (InjSimulate m) s = Some (inj_simulated str cfg m a s)"
| "inj_answer str cfg (ESigned k a) (InjSign tx) s = Some (inj_signed str tx a s)"
| "inj_answer str cfg (EBroadcast k a) (InjBroadcast tx) s = Some (inj_broadcast str a s)"
| "inj_answer str cfg _ _ s = None"

fun event_task :: "inj_event \<Rightarrow> nat" where
  "event_task (EPush ids ts) = 0"
| "event_task (EVaas k a) = k"
| "event_task (EFee k a) = k"
| "event_task (EFetched k a) = k"
| "event_task (ESimulated k a) = k"
| "event_task (ESigned k a) = k"
| "event_task (EBroadcast k a) = k"

inductive inj_step :: "(js_error \<Rightarrow> string) \<Rightarrow> InjectiveConfig \<Rightarrow> InjectivePricePusher \<Rightarrow> inj_event \<Rightarrow> InjectivePricePusher \<Rightarrow> bool" for str cfg where
  push: "inj_step str cfg s (EPush ids ts) (injective_updatePriceFeed ids ts s)"
| answer: "event_task e < length (injTasks s) \<Longrightarrow> inj_answer str cfg e (injTasks s ! event_task e) (inj_drop (event_task e) s) = Some s' \<Longrightarrow>
     inj_step str cfg s e s'"

inductive inj_run :: "(js_error \<Rightarrow> string) \<Rightarrow> InjectiveConfig \<Rightarrow> InjectivePricePusher \<Rightarrow> inj_event list \<Rightarrow> InjectivePricePusher \<Rightarrow> bool" for str cfg where
  start: "inj_run str cfg s [] s"
| more: "inj_run str cfg s es s1 \<Longrightarrow> inj_step str cfg s1 e s2 \<Longrightarrow> inj_run str cfg s (es @ [e]) s2"

subsection \<open>No push is lost\<close>

fun is_push :: "inj_event \<Rightarrow> bool" where
  "is_push (EPush ids ts) = True"
| "is_push _ = False"

definition inj_count :: "InjectivePricePusher \<Rightarrow> nat" where
  "inj_count s = length (injTasks s) + length (injDone s)"

lemma inj_count_simps [simp]:
  "inj_count (inj_spawn t s) = Suc (inj_count s)" "inj_count (inj_end r s) = Suc (inj_count s)"
  "inj_count (s\<lparr>injAccount := a\<rparr>) = inj_count s" "inj_count (s\<lparr>injSent := l\<rparr>) = inj_count s"
  "inj_count (inj_failed str e s) = Suc (inj_count s)" "inj_count (inj_simulate m s) = Suc (inj_count s)"
  by (simp_all add: inj_count_def inj_spawn_def inj_end_def inj_failed_def inj_simulate_def split: option.splits)

lemma inj_count_drop: "k < length (injTasks s) \<Longrightarrow> inj_count s = Suc (inj_count (inj_drop k s))"
  by (simp add: inj_count_def inj_drop_def)

lemmas inj_handlers = inj_vaas_def inj_fee_answer_def inj_fetched_def inj_simulated_def inj_signed_def inj_broadcast_def

lemma inj_answer_count: "inj_answer str cfg e t s = Some s' \<Longrightarrow> inj_count s' = Suc (inj_count s) \<and> \<not> is_push e"
  by (induction str cfg e t s rule: inj_answer.induct) (auto simp: inj_handlers Let_def split: sum.splits option.splits)

lemma inj_step_count: "inj_step str cfg s e s' \<Longrightarrow> inj_count s' = inj_count s + (if is_push e then 1 else 0)"
  by (induction rule: inj_step.induct)
    (auto simp: injective_updatePriceFeed_def inj_count_drop dest: inj_answer_count split: option.splits)

text \<open>
  However pushes to Injective overlap, none is lost: each of them is suspended at one point or has ended, in success or with an error.
\<close>

theorem inj_no_push_lost:
  assumes "inj_run str cfg inj_new es s"
  shows "length (filter is_push es) = length (injTasks s) + length (injDone s)"
proof -
  have "inj_count s = inj_count inj_new + length (filter is_push es)"
    using assms by (induction) (auto dest: inj_step_count)
  then show ?thesis by (simp add: inj_count_def inj_new_def)
qed

text \<open>A run as a function, for concrete events.\<close>

fun inj_play :: "(js_error \<Rightarrow> string) \<Rightarrow> InjectiveConfig \<Rightarrow> InjectivePricePusher \<Rightarrow> inj_event list \<Rightarrow> InjectivePricePusher option" where
  "inj_play str cfg s [] = Some s"
| "inj_play str cfg s (EPush ids ts # es) = inj_play str cfg (injective_updatePriceFeed ids ts s) es"
| "inj_play str cfg s (e # es) =
     (if event_task e < length (injTasks s)
      then case inj_answer str cfg e (injTasks s ! event_task e) (inj_drop (event_task e) s) of None \<Rightarrow> None | Some s1 \<Rightarrow> inj_play str cfg s1 es
      else None)"

lemma inj_run_Cons: "inj_run str cfg s1 es s2 \<Longrightarrow> inj_step str cfg s e s1 \<Longrightarrow> inj_run str cfg s (e # es) s2"
proof (induction rule: inj_run.induct)
  case (start s1)
  then show ?case using inj_run.more[OF inj_run.start] by fastforce
next
  case (more s1 es s2 e' s3)
  then show ?case using inj_run.more[of str cfg s "e # es" s2 e' s3] by simp
qed

lemma inj_play_run: "inj_play str cfg s es = Some s' \<Longrightarrow> inj_run str cfg s es s'"
proof (induction es arbitrary: s)
  case Nil
  then show ?case by (simp add: inj_run.start)
next
  case (Cons e es)
  show ?case
  proof (cases "is_push e")
    case True
    then show ?thesis using Cons by (cases e) (auto intro: inj_run_Cons inj_step.push)
  next
    case False
    then obtain s1 where "event_task e < length (injTasks s)" "inj_answer str cfg e (injTasks s ! event_task e) (inj_drop (event_task e) s) = Some s1"
      "inj_play str cfg s1 es = Some s'" using Cons.prems by (cases e) (auto split: if_splits option.splits)
    then show ?thesis using Cons.IH inj_run_Cons inj_step.answer by blast
  qed
qed

definition demo_inj :: InjectiveConfig where
  "demo_inj = \<lparr>chainId = ''injective-888'', gasMultiplier = Some 2, injGasPrice = Some 3\<rparr>"

definition demo_inj_account :: inj_account where
  "demo_inj_account = \<lparr>accountNumber = 1, accSequence = 5\<rparr>"

theorem inj_no_push_lost_witness:
  "\<exists>s. inj_run errName demo_inj inj_new [EPush [''f''] [Num 1], EPush [''f''] [Num 2], EVaas 1 (Inl (mk_error ''offline''))] s \<and>
     length (injTasks s) + length (injDone s) = 2"
proof -
  obtain s where "inj_play errName demo_inj inj_new [EPush [''f''] [Num 1], EPush [''f''] [Num 2], EVaas 1 (Inl (mk_error ''offline''))] = Some s"
    by (simp add: injective_updatePriceFeed_def push_guard_def inj_spawn_def inj_new_def)
  then show ?thesis using inj_no_push_lost[OF inj_play_run] inj_play_run by fastforce
qed

subsection \<open>Gas\<close>

text \<open>The gas limit is at least the gas the simulation used, when the multiplier is at least one, and at most the product rounded up.\<close>

lemma gas_limit_covers:
  assumes "gasMultiplier cfg = Some m" "1 \<le> m" "0 \<le> g" "g < 2 ^ 53"
  shows "\<exists>gas. inj_gas cfg (Some (of_int g)) = Some gas \<and> g \<le> gas \<and> of_int gas \<le> fl (of_int g * m) + 1 / 2"
proof -
  have f: "fl (of_int g) = of_int g" using assms(3,4) by (intro fl_of_int) simp
  have "of_int g \<le> fl (of_int g * m)"
    using assms(2,3) f by (intro fl_above) (simp_all add: mult_le_cancel_left1)
  then have "g \<le> \<lfloor>fl (of_int g * m) + 1 / 2\<rfloor>" by linarith
  moreover have "of_int \<lfloor>fl (of_int g * m) + 1 / 2\<rfloor> \<le> fl (of_int g * m) + 1 / 2" by linarith
  ultimately show ?thesis by (simp add: inj_gas_def assms(1) f_mul_def)
qed

text \<open>
  Unlike the pusher for Aptos this one takes no lock: two pushes that start before the account is known both fetch it, the second answer
  overwrites the counted number, and both transactions carry the number 5.
\<close>

lemma sequence_number_reused:
  "map_option (\<lambda>s. map injSequence (injSent s)) (inj_play errName demo_inj inj_new
     [EPush [''f''] [Num 1], EPush [''f''] [Num 2], EVaas 0 (Inr [''AAAA'']), EVaas 0 (Inr [''AAAA'']), EFee 0 (Inr JNull), EFee 0 (Inr JNull),
      EFetched 0 (Inr demo_inj_account), ESimulated 1 (Inr None), ESigned 1 (Inr ()),
      EFetched 0 (Inr demo_inj_account), ESimulated 1 (Inr None), ESigned 1 (Inr ())]) = Some [5, 5]"
  by (simp add: injective_updatePriceFeed_def push_guard_def inj_spawn_def inj_new_def inj_drop_def inj_handlers inj_simulate_def demo_inj_account_def)

end
