(* ===== verification/Near_Pusher.thy ===== *)
theory Near_Pusher
  imports Price_Pusher Base64
begin

section \<open>The NEAR price pusher: \<^verbatim>\<open>apps/price_pusher/src/near/near.ts\<close>\<close>

text \<open>
  The listener, the pusher and the choice of the key.  The account of \<^verbatim>\<open>near-api-js\<close> and the price service are parameters.  A push goes through the messages of the
  price service one by one; a failure of one does not keep it from the next.  There is no state beside the account.
\<close>

definition near_getOnChainPriceInfo :: "(string \<Rightarrow> json outcome) \<Rightarrow> string \<Rightarrow> PriceInfo option" where
  "near_getOnChainPriceInfo getPriceUnsafe priceId =
     (case getPriceUnsafe priceId of
        Inl e \<Rightarrow> None
      | Inr priceRaw \<Rightarrow>
          if truthy priceRaw
          then Some \<lparr>infoPrice = js_string (own_prop ''price'' priceRaw), infoConf = js_string (own_prop ''conf'' priceRaw),
                     infoPublishTime = to_number (own_prop ''publish_time'' priceRaw)\<rparr>
          else None)"

definition near_getPriceFeedsUpdateData :: "string list outcome \<Rightarrow> string list outcome" where
  "near_getPriceFeedsUpdateData answer = e_bind answer (\<lambda>latestVaas. Inr (map (\<lambda>vaa. to_hex (from_base64 vaa)) latestVaas))"

text \<open>
  The calls of the contract: the method, the message, and the deposit of a call that changes state.  Every such call gets the same gas.
\<close>

record near_call =
  nearContract :: string
  nearMethod :: string
  nearArg :: "string \<times> string"
  nearGas :: "string option"
  nearDeposit :: json

definition getPriceUnsafe_call :: "string \<Rightarrow> string \<Rightarrow> near_call" where
  "getPriceUnsafe_call pythAccountId priceId =
     \<lparr>nearContract = pythAccountId, nearMethod = ''get_price_unsafe'', nearArg = (''price_identifier'', priceId), nearGas = None, nearDeposit = JUndef\<rparr>"

definition getUpdateFeeEstimate_call :: "string \<Rightarrow> string \<Rightarrow> near_call" where
  "getUpdateFeeEstimate_call pythAccountId data =
     \<lparr>nearContract = pythAccountId, nearMethod = ''get_update_fee_estimate'', nearArg = (''data'', data), nearGas = None, nearDeposit = JUndef\<rparr>"

definition updatePriceFeeds_call :: "string \<Rightarrow> string \<Rightarrow> json \<Rightarrow> near_call" where
  "updatePriceFeeds_call pythAccountId data updateFee =
     \<lparr>nearContract = pythAccountId, nearMethod = ''update_price_feeds'', nearArg = (''data'', data), nearGas = Some ''300000000000000'', nearDeposit = updateFee\<rparr>"

text \<open>\<^verbatim>\<open>hasOwnProperty.call(status, "Failure")\<close> for the status of a receipt; it throws without one.\<close>

definition has_failure :: "json \<Rightarrow> bool outcome" where
  "has_failure status =
     (if nullish status then Inl (type_error ''Cannot convert undefined or null to object'')
      else Inr (case status of JObj ps \<Rightarrow> map_of ps ''Failure'' \<noteq> None | _ \<Rightarrow> False))"

fun near_reduce :: "json list \<Rightarrow> bool \<times> json list \<Rightarrow> (bool \<times> json list) outcome" where
  "near_reduce [] acc = Inr acc"
| "near_reduce (status # ss) (is_success, failureMessages) =
     e_bind (has_failure status) (\<lambda>f.
     if f then near_reduce ss (False, failureMessages @ [status]) else near_reduce ss (is_success, failureMessages))"

text \<open>What becomes of one message: it is logged.\<close>

datatype near_log =
    FeeFailed js_error
  | PushSucceeded
  | PushFailed "json list"
  | PushThrew js_error

record near_net =
  viewFunction :: "nat \<Rightarrow> near_call \<Rightarrow> json outcome"
  functionCall :: "nat \<Rightarrow> near_call \<Rightarrow> json list outcome"

fun near_loop :: "near_net \<Rightarrow> string \<Rightarrow> nat \<Rightarrow> string list \<Rightarrow> (string \<times> near_log) list \<times> near_call list" where
  "near_loop net pyth k [] = ([], [])"
| "near_loop net pyth k (data # ds) =
     (let (logs, calls) = near_loop net pyth (Suc k) ds
      in case viewFunction net k (getUpdateFeeEstimate_call pyth data) of
           Inl e \<Rightarrow> ((data, FeeFailed e) # logs, calls)
         | Inr updateFee \<Rightarrow>
             (let c = updatePriceFeeds_call pyth data updateFee
              in ((data, (case e_bind (functionCall net k c) (\<lambda>statuses. near_reduce statuses (True, [])) of
                            Inl e \<Rightarrow> PushThrew e
                          | Inr (is_success, failureMessages) \<Rightarrow> if is_success then PushSucceeded else PushFailed failureMessages)) # logs,
                  c # calls)))"

definition near_updatePriceFeed ::
    "near_net \<Rightarrow> string \<Rightarrow> (string list \<Rightarrow> string list outcome) \<Rightarrow> string list \<Rightarrow> jsnum list \<Rightarrow> unit outcome \<times> (string \<times> near_log) list \<times> near_call list" where
  "near_updatePriceFeed net pyth getLatestVaas priceIds pubTimesToPush =
     (case push_guard priceIds pubTimesToPush of
        Some r \<Rightarrow> (r, [], [])
      | None \<Rightarrow>
          (case near_getPriceFeedsUpdateData (getLatestVaas priceIds) of
             Inl e \<Rightarrow> (Inr (), [], [])
           | Inr data \<Rightarrow> (Inr (), near_loop net pyth 0 data)))"

text \<open>The key: of the two names a key file may use for it, the first that has one.\<close>

definition near_key :: "json \<Rightarrow> (json \<times> json) outcome" where
  "near_key accountInfo =
     e_bind (get_prop ''private_key'' accountInfo) (\<lambda>pk.
     let privateKey = (if \<not> truthy pk \<and> truthy (own_prop ''secret_key'' accountInfo) then own_prop ''secret_key'' accountInfo else pk)
     in if truthy (own_prop ''account_id'' accountInfo) \<and> truthy privateKey then Inr (own_prop ''account_id'' accountInfo, privateKey)
        else Inl (mk_error ''Invalid key file!''))"

subsection \<open>What a push does\<close>

lemma near_reduce_spec:
  "\<forall>s \<in> set statuses. \<not> nullish s \<Longrightarrow>
   near_reduce statuses (ok, msgs) = Inr (ok \<and> list_all (\<lambda>s. has_failure s = Inr False) statuses, msgs @ filter (\<lambda>s. has_failure s = Inr True) statuses)"
  by (induction statuses arbitrary: ok msgs) (auto simp: has_failure_def)

text \<open>The messages are independent: the log has an entry for each, which only the answers to this message decide.\<close>

definition near_outcome :: "near_net \<Rightarrow> string \<Rightarrow> nat \<Rightarrow> string \<Rightarrow> near_log" where
  "near_outcome net pyth k data = snd (hd (fst (near_loop net pyth k [data])))"

lemma near_loop_independent: "fst (near_loop net pyth k ds) = map (\<lambda>(i, d). (d, near_outcome net pyth i d)) (enumerate k ds)"
  by (induction ds arbitrary: k) (simp_all add: Let_def case_prod_unfold near_outcome_def split: sum.splits)

lemma near_loop_calls:
  "map (\<lambda>c. snd (nearArg c)) (snd (near_loop net pyth k ds)) =
   map fst (filter (\<lambda>x. case snd x of FeeFailed e \<Rightarrow> False | _ \<Rightarrow> True) (fst (near_loop net pyth k ds)))"
  by (induction ds arbitrary: k) (simp_all add: Let_def case_prod_unfold updatePriceFeeds_call_def split: sum.splits)

lemma near_success:
  assumes "viewFunction net k (getUpdateFeeEstimate_call pyth d) = Inr fee" "functionCall net k (updatePriceFeeds_call pyth d fee) = Inr statuses"
    and "\<forall>s \<in> set statuses. \<not> nullish s"
  shows "near_outcome net pyth k d = PushSucceeded \<longleftrightarrow> list_all (\<lambda>s. has_failure s = Inr False) statuses"
  by (simp add: near_outcome_def assms(1,2) near_reduce_spec[OF assms(3)] Let_def)

text \<open>
  A push to NEAR: with fitting arguments and messages from the price service it ends normally; its log has one entry for each message, in their
  order, which depends on the answers to this message alone; and exactly the messages whose fee was estimated are sent, in this order, once each.
\<close>

theorem near_push_spec:
  assumes "priceIds \<noteq> []" "length priceIds = length pubTimes" "getLatestVaas priceIds = Inr vaas"
  shows "\<exists>log calls. near_updatePriceFeed net pyth getLatestVaas priceIds pubTimes = (Inr (), log, calls) \<and>
    log = map (\<lambda>(i, d). (d, near_outcome net pyth i d)) (enumerate 0 (map (\<lambda>v. to_hex (from_base64 v)) vaas)) \<and>
    map (\<lambda>c. snd (nearArg c)) calls = map fst (filter (\<lambda>x. case snd x of FeeFailed e \<Rightarrow> False | _ \<Rightarrow> True) log)"
  using assms near_loop_independent[of net pyth 0 "map (\<lambda>v. to_hex (from_base64 v)) vaas"] near_loop_calls[of net pyth 0 "map (\<lambda>v. to_hex (from_base64 v)) vaas"]
  by (cases "near_loop net pyth 0 (map (\<lambda>v. to_hex (from_base64 v)) vaas)")
    (simp add: near_updatePriceFeed_def push_guard_def near_getPriceFeedsUpdateData_def)

definition demo_near :: near_net where
  "demo_near = \<lparr>viewFunction = (\<lambda>k c. if k = 0 then Inl (mk_error ''busy'') else Inr (JNum 1)), functionCall = (\<lambda>k c. Inr [JObj [(''Failure'', JNum 0)]])\<rparr>"

theorem near_push_spec_witness:
  "\<exists>log calls. near_updatePriceFeed demo_near ''pyth'' (\<lambda>ids. Inr [''AAAA'', ''AAAB'']) [''f''] [Num 1] = (Inr (), log, calls) \<and> length log = 2"
  using near_push_spec[of "[''f'']" "[Num 1]" "\<lambda>ids. Inr [''AAAA'', ''AAAB'']" "[''AAAA'', ''AAAB'']" demo_near "''pyth''"] by auto

end
