(* ===== verification/Wormhole_Address.thy ===== *)
theory Wormhole_Address
  imports Repair_Vaa
begin

section \<open>Chains and addresses: \<^verbatim>\<open>sdk/js/src/utils\<close>\<close>

text \<open>
  The table of chains with its look-ups (\<^verbatim>\<open>consts.ts\<close>), and the conversions between the native form of an address on a chain and
  the 32 bytes in which Wormhole messages carry it (\<^verbatim>\<open>array.ts\<close>, with what it uses of \<^verbatim>\<open>cosmos/address.ts\<close>, \<^verbatim>\<open>cosmwasm/address.ts\<close>,
  \<^verbatim>\<open>terra/address.ts\<close>, \<^verbatim>\<open>sui/utils.ts\<close> and \<^verbatim>\<open>aptos.ts\<close>).  The encodings themselves (\<^verbatim>\<open>ethers\<close>, \<^verbatim>\<open>bech32\<close>, base 58,
  \<^verbatim>\<open>algosdk\<close>, the hashes) are third-party code, the fields of \<open>addr_lib\<close>.
\<close>

subsection \<open>Chains: \<^verbatim>\<open>consts.ts\<close>\<close>

definition CHAINS :: "(string \<times> int) list" where
  "CHAINS =
     [(''unset'', 0), (''solana'', 1), (''ethereum'', 2), (''terra'', 3), (''bsc'', 4), (''polygon'', 5), (''avalanche'', 6),
      (''oasis'', 7), (''algorand'', 8), (''aurora'', 9), (''fantom'', 10), (''karura'', 11), (''acala'', 12), (''klaytn'', 13),
      (''celo'', 14), (''near'', 15), (''moonbeam'', 16), (''neon'', 17), (''terra2'', 18), (''injective'', 19), (''osmosis'', 20),
      (''sui'', 21), (''aptos'', 22), (''arbitrum'', 23), (''optimism'', 24), (''gnosis'', 25), (''pythnet'', 26), (''xpla'', 28),
      (''btc'', 29), (''base'', 30), (''sei'', 32), (''rootstock'', 33), (''scroll'', 34), (''mantle'', 35), (''blast'', 36),
      (''xlayer'', 37), (''linea'', 38), (''berachain'', 39), (''seievm'', 40), (''wormchain'', 3104), (''cosmoshub'', 4000),
      (''evmos'', 4001), (''kujira'', 4002), (''neutron'', 4003), (''celestia'', 4004), (''stargaze'', 4005), (''seda'', 4006),
      (''dymension'', 4007), (''provenance'', 4008), (''sepolia'', 10002), (''arbitrum_sepolia'', 10003), (''base_sepolia'', 10004),
      (''optimism_sepolia'', 10005), (''holesky'', 10006), (''polygon_sepolia'', 10007)]"

definition EVMChainNames :: "string list" where
  "EVMChainNames =
     [''ethereum'', ''bsc'', ''polygon'', ''avalanche'', ''oasis'', ''aurora'', ''fantom'', ''karura'', ''acala'', ''klaytn'', ''celo'',
      ''moonbeam'', ''neon'', ''arbitrum'', ''optimism'', ''gnosis'', ''base'', ''rootstock'', ''scroll'', ''mantle'', ''blast'', ''xlayer'',
      ''linea'', ''berachain'', ''seievm'', ''sepolia'', ''arbitrum_sepolia'', ''base_sepolia'', ''optimism_sepolia'', ''holesky'',
      ''polygon_sepolia'']"

definition SolanaChainNames :: "string list" where
  "SolanaChainNames = [''solana'', ''pythnet'']"

definition CosmWasmChainNames :: "string list" where
  "CosmWasmChainNames =
     [''terra'', ''terra2'', ''injective'', ''xpla'', ''sei'', ''wormchain'', ''osmosis'', ''evmos'', ''cosmoshub'', ''kujira'', ''neutron'',
      ''celestia'', ''stargaze'', ''seda'', ''dymension'', ''provenance'']"

definition TerraChainNames :: "string list" where
  "TerraChainNames = [''terra'', ''terra2'']"

text \<open>The constants \<^verbatim>\<open>CHAIN_ID_...\<close> are the entries of the table.\<close>

definition CHAIN_ID :: "string \<Rightarrow> int option" where
  "CHAIN_ID name = map_of CHAINS name"

definition CHAIN_ID_TO_NAME :: "(int, string) js_map_t" where
  "CHAIN_ID_TO_NAME = foldl (\<lambda>obj (name, cid). map_set cid name obj) [] CHAINS"

text \<open>
  A chain is given by its number or by its name.  The operator \<^verbatim>\<open>in\<close> also finds what an object inherits from \<^verbatim>\<open>Object.prototype\<close>.
\<close>

datatype chain_ref = ChainNum int | ChainStr string

definition inherited_names :: "string list" where
  "inherited_names =
     [''constructor'', ''__defineGetter__'', ''__defineSetter__'', ''hasOwnProperty'', ''__lookupGetter__'', ''__lookupSetter__'',
      ''isPrototypeOf'', ''propertyIsEnumerable'', ''toString'', ''valueOf'', ''__proto__'', ''toLocaleString'']"

fun isChain :: "chain_ref \<Rightarrow> bool" where
  "isChain (ChainNum n) = (map_get CHAIN_ID_TO_NAME n \<noteq> None)"
| "isChain (ChainStr s) = (map_of CHAINS s \<noteq> None \<or> s \<in> set inherited_names)"

fun show_chain :: "chain_ref \<Rightarrow> string" where
  "show_chain (ChainNum n) = show_int n"
| "show_chain (ChainStr s) = s"

definition assertChain :: "chain_ref \<Rightarrow> unit outcome" where
  "assertChain chain =
     (if isChain chain then Inr ()
      else case chain of
             ChainNum n \<Rightarrow> Inl (mk_error (''Unknown chain id: '' @ show_int n))
           | ChainStr s \<Rightarrow> Inl (mk_error (''Unknown chain: '' @ s)))"

text \<open>
  \<^verbatim>\<open>CHAINS[k]\<close>, for a key that is not inherited: \<^verbatim>\<open>undefined\<close> is \<open>None\<close>, and a number is never the name of a chain.
\<close>

fun toChainId :: "chain_ref \<Rightarrow> int option" where
  "toChainId (ChainNum n) = None"
| "toChainId (ChainStr s) = map_of CHAINS s"

definition toChainName :: "int option \<Rightarrow> string option" where
  "toChainName cid = (case cid of None \<Rightarrow> None | Some n \<Rightarrow> map_get CHAIN_ID_TO_NAME n)"

definition coalesceChainId :: "chain_ref \<Rightarrow> int option" where
  "coalesceChainId chain =
     (case chain of ChainNum n \<Rightarrow> if isChain chain then Some n else toChainId chain | ChainStr s \<Rightarrow> toChainId chain)"

definition coalesceChainName :: "chain_ref \<Rightarrow> string option" where
  "coalesceChainName chain = toChainName (coalesceChainId chain)"

definition name_in :: "chain_ref \<Rightarrow> string list \<Rightarrow> bool" where
  "name_in chain names = (case coalesceChainName chain of None \<Rightarrow> False | Some n \<Rightarrow> n \<in> set names)"

definition isEVMChain :: "chain_ref \<Rightarrow> bool" where
  "isEVMChain chain = name_in chain EVMChainNames"

definition isCosmWasmChain :: "chain_ref \<Rightarrow> bool" where
  "isCosmWasmChain chain = name_in chain CosmWasmChainNames"

definition isTerraChain :: "chain_ref \<Rightarrow> bool" where
  "isTerraChain chain = name_in chain TerraChainNames"

definition isSolanaChain :: "chain_ref \<Rightarrow> bool" where
  "isSolanaChain chain = name_in chain SolanaChainNames"

definition toCosmWasmChainId :: "chain_ref \<Rightarrow> int option" where
  "toCosmWasmChainId chain = toChainId chain"

definition coalesceCosmWasmChainId :: "chain_ref \<Rightarrow> int option" where
  "coalesceCosmWasmChainId chain =
     (case chain of ChainNum n \<Rightarrow> if isCosmWasmChain chain then Some n else toCosmWasmChainId chain | ChainStr s \<Rightarrow> toCosmWasmChainId chain)"

definition assertEVMChain :: "chain_ref \<Rightarrow> unit outcome" where
  "assertEVMChain chain =
     (if \<not> isEVMChain chain then Inl (mk_error (''Expected an EVM chain, but '' @ show_chain chain @ '' is not'')) else Inr ())"

subsection \<open>Third-party encodings\<close>

text \<open>
  \<open>arrayify\<close> and \<open>hexlifyAny\<close> take the option \<^verbatim>\<open>allowMissingPrefix\<close>; \<open>keccakHex\<close>, \<open>sha256Hex\<close> and \<open>sha3Hex\<close> are hashes as
  hexadecimal strings, the first two with the prefix \<^verbatim>\<open>0x\<close>.
\<close>

record addr_lib =
  arrayify :: "bool \<Rightarrow> string \<Rightarrow> bytes outcome"
  zeroPad :: "bytes \<Rightarrow> nat \<Rightarrow> bytes outcome"
  hexValue :: "bytes \<Rightarrow> string outcome"
  hexZeroPad :: "string \<Rightarrow> nat \<Rightarrow> string outcome"
  hexlifyAny :: "bool \<Rightarrow> string \<Rightarrow> string outcome"
  stripZeros :: "bytes \<Rightarrow> bytes"
  keccakHex :: "bytes \<Rightarrow> string"
  sha256Hex :: "bytes \<Rightarrow> string"
  sha3Hex :: "bytes \<Rightarrow> string"
  publicKeyBytes :: "string \<Rightarrow> bytes outcome"
  publicKeyString :: "bytes \<Rightarrow> string outcome"
  bech32Decode :: "string \<Rightarrow> (string \<times> nat list) outcome"
  bech32Encode :: "string \<Rightarrow> nat list \<Rightarrow> string outcome"
  bech32FromWords :: "nat list \<Rightarrow> bytes outcome"
  bech32ToWords :: "bytes \<Rightarrow> nat list"
  algorandDecode :: "string \<Rightarrow> bytes outcome"
  algorandEncode :: "bytes \<Rightarrow> string outcome"
  bigNumber :: "bytes \<Rightarrow> nat"
  normalizeSuiAddress :: "string \<Rightarrow> string"
  isValidFullSuiAddress :: "string \<Rightarrow> bool"

text \<open>\<^verbatim>\<open>Buffer.from(s)\<close>, \<^verbatim>\<open>Buffer.from(s, "ascii")\<close> (the low bytes) and \<^verbatim>\<open>buf.toString("ascii")\<close> (the low seven bits).\<close>

definition utf8_of :: "string \<Rightarrow> bytes" where
  "utf8_of s = utf8_bytes (map of_char s)"

definition low_bytes :: "string \<Rightarrow> bytes" where
  "low_bytes s = map (\<lambda>c. word_of_nat (of_char c)) s"

definition ascii_of :: "bytes \<Rightarrow> string" where
  "ascii_of b = map (\<lambda>x. char_of (unat x mod 128)) b"

text \<open>\<^verbatim>\<open>s.split("::")\<close>\<close>

fun split_colons :: "string \<Rightarrow> string list" where
  "split_colons (a # b # cs) =
     (if a = CHR '':'' \<and> b = CHR '':'' then [] # split_colons cs
      else case split_colons (b # cs) of [] \<Rightarrow> [[a]] | y # ys \<Rightarrow> (a # y) # ys)"
| "split_colons s = [s]"

subsection \<open>Chains of Cosmos\<close>

definition canonicalAddress :: "addr_lib \<Rightarrow> string \<Rightarrow> bytes outcome" where
  "canonicalAddress lib human = e_bind (bech32Decode lib human) (\<lambda>(hrp, ws). bech32FromWords lib ws)"

definition humanAddress :: "addr_lib \<Rightarrow> string \<Rightarrow> bytes \<Rightarrow> string outcome" where
  "humanAddress lib hrp canonical = bech32Encode lib hrp (bech32ToWords lib canonical)"

definition isNativeTerra :: "string \<Rightarrow> bool" where
  "isNativeTerra s \<longleftrightarrow> starts_with ''u'' s \<and> length s = 4"

definition isNativeDenom :: "string \<Rightarrow> bool" where
  "isNativeDenom s \<longleftrightarrow> isNativeTerra s \<or> s = ''uluna''"

definition buildNativeId :: "addr_lib \<Rightarrow> string \<Rightarrow> bytes outcome" where
  "buildNativeId lib denom = e_bind (zeroPad lib (low_bytes denom) 32) (\<lambda>padded. Inr (padded[0 := 1]))"

definition native_denoms :: "(string \<times> string list) list" where
  "native_denoms =
     [(''injective'', [''inj'']), (''xpla'', [''axpla'']), (''sei'', [''usei'']), (''wormchain'', [''uworm'']), (''osmosis'', [''uosmo'']),
      (''cosmoshub'', [''uatom'']), (''evmos'', [''aevmos'', ''atevmos'']), (''kujira'', [''ukuji'']), (''neutron'', [''untrn'']),
      (''celestia'', [''utia'']), (''stargaze'', [''ustars'']), (''seda'', [''aseda'']), (''dymension'', [''adym'']),
      (''provenance'', [''nhash''])]"

definition isNativeCosmWasmDenom :: "int option \<Rightarrow> string \<Rightarrow> bool" where
  "isNativeCosmWasmDenom cid address \<longleftrightarrow>
     (case cid of None \<Rightarrow> False | Some n \<Rightarrow> isTerraChain (ChainNum n) \<and> isNativeDenom address)
     \<or> list_ex (\<lambda>(chain, denoms). cid = CHAIN_ID chain \<and> address \<in> set denoms) native_denoms"

definition buildTokenId :: "addr_lib \<Rightarrow> chain_ref \<Rightarrow> string \<Rightarrow> string" where
  "buildTokenId lib chain address =
     (let cid = coalesceCosmWasmChainId chain
      in (if isNativeCosmWasmDenom cid address then ''01'' else ''00'') @ drop 4 (keccakHex lib (utf8_of address)))"

subsection \<open>Types of Sui and Aptos\<close>

definition isValidSuiAddress :: "addr_lib \<Rightarrow> string \<Rightarrow> bool" where
  "isValidSuiAddress lib address = isValidFullSuiAddress lib (normalizeSuiAddress lib address)"

definition isValidSuiType :: "addr_lib \<Rightarrow> string \<Rightarrow> bool" where
  "isValidSuiType lib type =
     (case split_colons type of [a, m, t] \<Rightarrow> isValidSuiAddress lib a \<and> m \<noteq> [] \<and> t \<noteq> [] | _ \<Rightarrow> False)"

text \<open>The expression \<^verbatim>\<open>/^(0x)?[0-9a-fA-F]+::\w+::\w+$/\<close>: none of its classes holds a colon.\<close>

definition is_word_char :: "char \<Rightarrow> bool" where
  "is_word_char c \<longleftrightarrow>
     (let n = of_char c :: nat in (48 \<le> n \<and> n \<le> 57) \<or> (65 \<le> n \<and> n \<le> 90) \<or> n = 95 \<or> (97 \<le> n \<and> n \<le> 122))"

definition is_hex_char :: "char \<Rightarrow> bool" where
  "is_hex_char c \<longleftrightarrow> digit_val 16 c \<noteq> None"

definition isValidAptosType :: "string \<Rightarrow> bool" where
  "isValidAptosType s =
     (case split_on CHR '':'' s of
        [a, x, m, y, t] \<Rightarrow>
          (let h = (if starts_with ''0x'' a then drop 2 a else a)
           in x = [] \<and> y = [] \<and> h \<noteq> [] \<and> list_all is_hex_char h \<and> m \<noteq> [] \<and> list_all is_word_char m \<and> t \<noteq> [] \<and> list_all is_word_char t)
      | _ \<Rightarrow> False)"

definition getExternalAddressFromType :: "addr_lib \<Rightarrow> string \<Rightarrow> string" where
  "getExternalAddressFromType lib fullyQualifiedType = sha3Hex lib (utf8_of fullyQualifiedType)"

definition coalesceModuleAddress :: "string \<Rightarrow> string" where
  "coalesceModuleAddress s = hd (split_colons s)"

subsection \<open>Conversions: \<^verbatim>\<open>array.ts\<close>\<close>

definition isHexNativeTerra :: "string \<Rightarrow> bool" where
  "isHexNativeTerra h = starts_with ''01'' h"

definition isLikely20ByteCosmwasm :: "string \<Rightarrow> bool" where
  "isLikely20ByteCosmwasm h = starts_with ''000000000000000000000000'' h"

definition nativeTerraHexToDenom :: "addr_lib \<Rightarrow> string \<Rightarrow> string" where
  "nativeTerraHexToDenom lib h = ascii_of (stripZeros lib (hexToUint8Array_sdk (drop 2 h)))"

text \<open>\<^verbatim>\<open>a.slice(-20)\<close>\<close>

definition last20 :: "bytes \<Rightarrow> bytes" where
  "last20 a = drop (length a - 20) a"

definition human_short :: "addr_lib \<Rightarrow> string \<Rightarrow> bytes \<Rightarrow> string outcome" where
  "human_short lib hrp a = humanAddress lib hrp (if isLikely20ByteCosmwasm (to_hex a) then last20 a else a)"

definition unsupported_cosmos :: "(string \<times> string) list" where
  "unsupported_cosmos =
     [(''osmosis'', ''Osmosis''), (''cosmoshub'', ''CosmosHub''), (''evmos'', ''Evmos''), (''kujira'', ''Kujira''), (''neutron'', ''Neutron''),
      (''celestia'', ''Celestia''), (''stargaze'', ''Stargaze''), (''seda'', ''Seda''), (''dymension'', ''Dymension''), (''provenance'', ''Provenance'')]"

definition unsupported_name :: "int option \<Rightarrow> string option" where
  "unsupported_name cid = map_option snd (find (\<lambda>(chain, label). cid = CHAIN_ID chain) unsupported_cosmos)"

text \<open>No chain has the number \<^verbatim>\<open>undefined\<close>, so for an unknown chain every test fails and the last branch throws.\<close>

definition evm_id :: "int option \<Rightarrow> bool" where
  "evm_id cid = (case cid of None \<Rightarrow> False | Some n \<Rightarrow> isEVMChain (ChainNum n))"

definition terra_id :: "int option \<Rightarrow> bool" where
  "terra_id cid = (case cid of None \<Rightarrow> False | Some n \<Rightarrow> isTerraChain (ChainNum n))"

definition show_id :: "int option \<Rightarrow> string" where
  "show_id cid = (case cid of None \<Rightarrow> ''undefined'' | Some n \<Rightarrow> show_int n)"

definition tryUint8ArrayToNative :: "addr_lib \<Rightarrow> bytes \<Rightarrow> chain_ref \<Rightarrow> string outcome" where
  "tryUint8ArrayToNative lib a chain =
     (let cid = coalesceChainId chain; h = to_hex a
      in if evm_id cid then e_bind (hexValue lib a) (\<lambda>v. hexZeroPad lib v 20)
      else if cid = CHAIN_ID ''solana'' \<or> cid = CHAIN_ID ''pythnet'' then publicKeyString lib a
      else if terra_id cid
      then (if isHexNativeTerra h then Inr (nativeTerraHexToDenom lib h)
            else if cid = CHAIN_ID ''terra2'' \<and> \<not> isLikely20ByteCosmwasm h then humanAddress lib ''terra'' a
            else humanAddress lib ''terra'' (last20 a))
      else if cid = CHAIN_ID ''injective'' then human_short lib ''inj'' a
      else if cid = CHAIN_ID ''algorand'' then algorandEncode lib a
      else if cid = CHAIN_ID ''wormchain'' then human_short lib ''wormhole'' a
      else if cid = CHAIN_ID ''xpla'' then human_short lib ''xpla'' a
      else if cid = CHAIN_ID ''sei'' then human_short lib ''sei'' a
      else if cid = CHAIN_ID ''near'' then Inl (mk_error ''uint8ArrayToNative: Use tryHexToNativeStringNear instead.'')
      else case unsupported_name cid of
        Some label \<Rightarrow> Inl (mk_error (''uint8ArrayToNative: '' @ label @ '' not supported yet.''))
      | None \<Rightarrow>
          if cid = CHAIN_ID ''sui'' then Inl (mk_error ''uint8ArrayToNative: Sui not supported yet.'')
          else if cid = CHAIN_ID ''aptos'' then Inl (mk_error ''uint8ArrayToNative: Aptos not supported yet.'')
          else if cid = CHAIN_ID ''unset'' then Inl (mk_error ''uint8ArrayToNative: Chain id unset'')
          else if cid = CHAIN_ID ''btc'' then Inl (mk_error ''uint8ArrayToNative: Btc not supported'')
          else Inl (mk_error (''Don't know how to convert address for chain '' @ show_id cid)))"

definition tryHexToNativeStringNear :: "(string \<Rightarrow> string \<Rightarrow> (bool \<times> string) outcome) \<Rightarrow> string \<Rightarrow> string \<Rightarrow> string outcome" where
  "tryHexToNativeStringNear hashLookup tokenBridge address =
     e_bind (hashLookup tokenBridge address) (\<lambda>(found, value).
     if \<not> found then Inl (mk_error ''Address not found'') else Inr value)"

definition tryHexToNativeString :: "addr_lib \<Rightarrow> string \<Rightarrow> chain_ref \<Rightarrow> string outcome" where
  "tryHexToNativeString lib h c = tryUint8ArrayToNative lib (hexToUint8Array_sdk h) c"

definition hexToNativeAssetStringAlgorand :: "addr_lib \<Rightarrow> string \<Rightarrow> string" where
  "hexToNativeAssetStringAlgorand lib s = show_nat (bigNumber lib (hexToUint8Array_sdk s))"

definition tryHexToNativeAssetString :: "addr_lib \<Rightarrow> string \<Rightarrow> int \<Rightarrow> string outcome" where
  "tryHexToNativeAssetString lib h c =
     (if Some c = CHAIN_ID ''algorand'' then Inr (hexToNativeAssetStringAlgorand lib h) else tryHexToNativeString lib h (ChainNum c))"

text \<open>The deprecated forms: a missing or empty argument and a throw both give \<^verbatim>\<open>undefined\<close>.\<close>

definition or_undefined :: "(string \<Rightarrow> string outcome) \<Rightarrow> string option \<Rightarrow> string option" where
  "or_undefined f h = (case h of None \<Rightarrow> None | Some s \<Rightarrow> if s = [] then None else case f s of Inl e \<Rightarrow> None | Inr r \<Rightarrow> Some r)"

definition hexToNativeAssetString :: "addr_lib \<Rightarrow> string option \<Rightarrow> int \<Rightarrow> string option" where
  "hexToNativeAssetString lib h c = or_undefined (\<lambda>s. tryHexToNativeAssetString lib s c) h"

definition hexToNativeString :: "addr_lib \<Rightarrow> string option \<Rightarrow> chain_ref \<Rightarrow> string option" where
  "hexToNativeString lib h c = or_undefined (\<lambda>s. tryHexToNativeString lib s c) h"

definition uint8ArrayToNative :: "addr_lib \<Rightarrow> bytes \<Rightarrow> int \<Rightarrow> string option" where
  "uint8ArrayToNative lib a chainId = hexToNativeString lib (Some (to_hex a)) (ChainNum chainId)"

definition hex_padded :: "addr_lib \<Rightarrow> bytes \<Rightarrow> nat \<Rightarrow> string outcome" where
  "hex_padded lib b n = e_bind (zeroPad lib b n) (\<lambda>p. Inr (to_hex p))"

definition nativeStringToHexAlgorand :: "addr_lib \<Rightarrow> string \<Rightarrow> string outcome" where
  "nativeStringToHexAlgorand lib s = e_bind (algorandDecode lib s) (\<lambda>k. Inr (to_hex k))"

text \<open>
  For Sui the address itself is checked with \<^verbatim>\<open>isValidSuiAddress\<close> of \<^verbatim>\<open>@mysten/sui.js\<close>, which takes the full form only.
\<close>

definition tryNativeToHexString :: "addr_lib \<Rightarrow> string \<Rightarrow> chain_ref \<Rightarrow> string outcome" where
  "tryNativeToHexString lib address chain =
     (let cid = coalesceChainId chain
      in if evm_id cid then e_bind (arrayify lib False address) (\<lambda>b. hex_padded lib b 32)
      else if cid = CHAIN_ID ''solana'' \<or> cid = CHAIN_ID ''pythnet'' then e_bind (publicKeyBytes lib address) (\<lambda>b. hex_padded lib b 32)
      else if cid = CHAIN_ID ''terra''
      then (if isNativeDenom address then e_bind (hex_padded lib (low_bytes address) 31) (\<lambda>p. Inr (''01'' @ p))
            else e_bind (canonicalAddress lib address) (\<lambda>b. hex_padded lib b 32))
      else if cid = CHAIN_ID ''terra2'' \<or> cid = CHAIN_ID ''injective'' \<or> cid = CHAIN_ID ''xpla'' \<or> cid = CHAIN_ID ''sei''
      then Inr (buildTokenId lib (ChainNum (the cid)) address)
      else if cid = CHAIN_ID ''algorand'' then nativeStringToHexAlgorand lib address
      else if cid = CHAIN_ID ''wormchain'' then e_bind (canonicalAddress lib address) (\<lambda>b. hex_padded lib b 32)
      else if cid = CHAIN_ID ''near'' then e_bind (arrayify lib False (sha256Hex lib (utf8_of address))) (\<lambda>b. Inr (to_hex b))
      else case unsupported_name cid of
        Some label \<Rightarrow> Inl (mk_error (''nativeToHexString: '' @ label @ '' not supported yet.''))
      | None \<Rightarrow>
          if cid = CHAIN_ID ''sui''
          then (if \<not> isValidSuiType lib address \<and> isValidFullSuiAddress lib address
                then e_bind (arrayify lib True address) (\<lambda>b. hex_padded lib b 32)
                else Inl (mk_error ''nativeToHexString: Sui types not supported yet.''))
          else if cid = CHAIN_ID ''btc'' then Inl (mk_error ''nativeToHexString: Btc not supported yet.'')
          else if cid = CHAIN_ID ''aptos''
          then (if isValidAptosType address then Inr (getExternalAddressFromType lib address)
                else e_bind (arrayify lib True address) (\<lambda>b. hex_padded lib b 32))
          else if cid = CHAIN_ID ''unset'' then Inl (mk_error ''nativeToHexString: Chain id unset'')
          else Inl (mk_error (''Don't know how to convert address from chain '' @ show_id cid)))"

definition nativeToHexString :: "addr_lib \<Rightarrow> string option \<Rightarrow> chain_ref \<Rightarrow> string option outcome" where
  "nativeToHexString lib address chain =
     (case address of
        None \<Rightarrow> Inr None
      | Some a \<Rightarrow> if a = [] then Inr None else e_bind (tryNativeToHexString lib a chain) (\<lambda>h. Inr (Some h)))"

definition tryNativeToUint8Array :: "addr_lib \<Rightarrow> string \<Rightarrow> chain_ref \<Rightarrow> bytes outcome" where
  "tryNativeToUint8Array lib address chain =
     (case coalesceChainId chain of
        Some n \<Rightarrow> e_bind (tryNativeToHexString lib address (ChainNum n)) (\<lambda>h. Inr (hexToUint8Array_sdk h))
      | None \<Rightarrow> Inl (mk_error ''Don't know how to convert address from chain undefined''))"

text \<open>\<^verbatim>\<open>new Array(Math.ceil(array.length / size))\<close> throws when the length is not a finite number.\<close>

definition chunks_sdk :: "'a list \<Rightarrow> nat \<Rightarrow> 'a list list outcome" where
  "chunks_sdk xs sz =
     (if sz = 0 then Inl (plain_range_error ''Invalid array length'')
      else Inr (map (\<lambda>index. take sz (drop (index * sz) xs)) [0..<(length xs + sz - 1) div sz]))"

definition textToHexString :: "string \<Rightarrow> string" where
  "textToHexString name = to_hex (low_bytes name)"

definition textToUint8Array :: "string \<Rightarrow> bytes" where
  "textToUint8Array name = low_bytes name"

definition hex_sdk :: "addr_lib \<Rightarrow> string \<Rightarrow> bytes outcome" where
  "hex_sdk lib x = e_bind (hexlifyAny lib True x) (\<lambda>s. Inr (from_hex (drop 2 s)))"

definition ensureHexPrefix :: "string \<Rightarrow> string" where
  "ensureHexPrefix x = (if take 2 x \<noteq> ''0x'' then ''0x'' @ x else x)"

subsection \<open>Assets on Aptos: \<^verbatim>\<open>utils/aptos.ts\<close>\<close>

definition getForeignAssetAddress :: "addr_lib \<Rightarrow> string \<Rightarrow> int \<Rightarrow> string \<Rightarrow> string option outcome" where
  "getForeignAssetAddress lib tokenBridgeAddress originChain originAddress =
     (if Some originChain = CHAIN_ID ''aptos'' then Inr None
      else if originChain < 0 \<or> 65535 < originChain then Inl out_of_range
      else
        e_bind (hexZeroPad lib (ensureHexPrefix tokenBridgeAddress) 32) (\<lambda>b.
        e_bind (hex_sdk lib b) (\<lambda>bridge.
        e_bind (hexZeroPad lib (ensureHexPrefix originAddress) 32) (\<lambda>t.
        e_bind (hex_sdk lib t) (\<lambda>token.
        Inr (Some (sha3Hex lib (bridge @ be_encode 2 (nat originChain) @ low_bytes ''::'' @ token @ [255]))))))))"

definition getAssetFullyQualifiedType :: "addr_lib \<Rightarrow> string \<Rightarrow> int \<Rightarrow> string \<Rightarrow> string option outcome" where
  "getAssetFullyQualifiedType lib tokenBridgeAddress originChain originAddress =
     (if Some originChain = CHAIN_ID ''aptos''
      then Inr (if \<not> isValidAptosType originAddress then None else Some (ensureHexPrefix originAddress))
      else
        e_bind (getForeignAssetAddress lib tokenBridgeAddress originChain originAddress) (\<lambda>r.
        Inr (case r of Some w \<Rightarrow> if w = [] then None else Some (ensureHexPrefix w @ ''::coin::T'') | None \<Rightarrow> None)))"

subsection \<open>The table of chains\<close>

lemma table_entries: "list_all (\<lambda>(name, cid). map_get CHAIN_ID_TO_NAME cid = Some name \<and> map_of CHAINS name = Some cid) CHAINS"
  by code_simp

lemma names_to_ids: "list_all (\<lambda>(cid, name). map_of CHAINS name = Some cid) CHAIN_ID_TO_NAME"
  by code_simp

lemma known_names: "list_all (\<lambda>name. map_of CHAINS name \<noteq> None) (EVMChainNames @ CosmWasmChainNames @ SolanaChainNames @ TerraChainNames)"
  by code_simp

text \<open>
  A name of the table and its number stand for the same chain everywhere: the look-ups are inverse to each other, and each test for a kind of chain gives
  the same answer for both.
\<close>

theorem chain_names_and_ids:
  assumes "map_of CHAINS name = Some cid"
  shows "coalesceChainId (ChainStr name) = Some cid" "coalesceChainId (ChainNum cid) = Some cid"
    "coalesceChainName (ChainNum cid) = Some name" "coalesceChainName (ChainStr name) = Some name"
    "name_in (ChainNum cid) names \<longleftrightarrow> name \<in> set names" "name_in (ChainStr name) names \<longleftrightarrow> name \<in> set names"
proof -
  have "(name, cid) \<in> set CHAINS" using assms by (rule map_of_SomeD)
  then have g: "map_get CHAIN_ID_TO_NAME cid = Some name" using table_entries by (auto simp: list_all_iff)
  show 1: "coalesceChainId (ChainStr name) = Some cid" "coalesceChainId (ChainNum cid) = Some cid"
    using assms g by (simp_all add: coalesceChainId_def)
  show 2: "coalesceChainName (ChainNum cid) = Some name" "coalesceChainName (ChainStr name) = Some name"
    by (simp_all add: coalesceChainName_def toChainName_def 1 g)
  show "name_in (ChainNum cid) names \<longleftrightarrow> name \<in> set names" "name_in (ChainStr name) names \<longleftrightarrow> name \<in> set names"
    by (simp_all add: name_in_def 2)
qed

lemma ids_of_names: "map_get CHAIN_ID_TO_NAME n = Some name \<Longrightarrow> map_of CHAINS name = Some n"
  using names_to_ids by (auto simp: list_all_iff map_get_def dest!: map_of_SomeD)

lemma name_in_cases:
  assumes "name_in chain names"
  obtains n name where "coalesceChainId chain = Some n" "name \<in> set names" "map_of CHAINS name = Some n"
proof -
  from assms obtain name where n: "coalesceChainName chain = Some name" "name \<in> set names" by (auto simp: name_in_def split: option.splits)
  then obtain n where "coalesceChainId chain = Some n" "map_get CHAIN_ID_TO_NAME n = Some name"
    by (auto simp: coalesceChainName_def toChainName_def split: option.splits)
  with n(2) show thesis by (auto intro: that dest: ids_of_names)
qed

lemma evm_id_chain: "isEVMChain chain \<Longrightarrow> evm_id (coalesceChainId chain)"
  unfolding isEVMChain_def by (erule name_in_cases) (simp add: evm_id_def isEVMChain_def chain_names_and_ids(5))

lemma chain_ids:
  "CHAIN_ID ''unset'' = Some 0" "CHAIN_ID ''solana'' = Some 1" "CHAIN_ID ''terra'' = Some 3" "CHAIN_ID ''algorand'' = Some 8"
  "CHAIN_ID ''near'' = Some 15" "CHAIN_ID ''terra2'' = Some 18" "CHAIN_ID ''injective'' = Some 19" "CHAIN_ID ''sui'' = Some 21"
  "CHAIN_ID ''aptos'' = Some 22" "CHAIN_ID ''pythnet'' = Some 26" "CHAIN_ID ''xpla'' = Some 28" "CHAIN_ID ''btc'' = Some 29"
  "CHAIN_ID ''sei'' = Some 32" "CHAIN_ID ''wormchain'' = Some 3104"
  by code_simp+

lemma id_kinds:
  assumes "CHAIN_ID name = Some n"
  shows "evm_id (Some n) \<longleftrightarrow> name \<in> set EVMChainNames" "terra_id (Some n) \<longleftrightarrow> name \<in> set TerraChainNames"
  using chain_names_and_ids(5)[of name n] assms
  by (simp_all add: CHAIN_ID_def evm_id_def terra_id_def isEVMChain_def isTerraChain_def)

lemmas kinds_of = chain_ids[THEN id_kinds(1)] chain_ids[THEN id_kinds(2)]

lemma not_evm:
  "\<not> evm_id (Some 1)" "\<not> evm_id (Some 3)" "\<not> evm_id (Some 8)" "\<not> evm_id (Some 18)" "\<not> evm_id (Some 19)" "\<not> evm_id (Some 26)"
  "\<not> evm_id (Some 28)" "\<not> evm_id (Some 32)" "\<not> evm_id (Some 3104)"
  by (simp_all add: kinds_of EVMChainNames_def)

lemma terra_ids:
  "terra_id (Some 3)" "terra_id (Some 18)" "\<not> terra_id (Some 1)" "\<not> terra_id (Some 8)" "\<not> terra_id (Some 19)" "\<not> terra_id (Some 26)"
  "\<not> terra_id (Some 28)" "\<not> terra_id (Some 32)" "\<not> terra_id (Some 3104)"
  by (simp_all add: kinds_of TerraChainNames_def)

text \<open>The operator \<^verbatim>\<open>in\<close> accepts inherited names: such a string passes for a chain although it is not in the table.\<close>

lemma inherited_name_is_chain: "assertChain (ChainStr ''toString'') = Inr () \<and> ''toString'' \<notin> set (map fst CHAINS)"
  by code_simp

subsection \<open>Addresses are read back\<close>

text \<open>
  Documented behaviour of the third-party code: \<^verbatim>\<open>arrayify\<close> reads hexadecimal bytes after \<^verbatim>\<open>0x\<close>; \<^verbatim>\<open>zeroPad\<close> fills up with zero
  bytes in front; \<^verbatim>\<open>hexValue\<close> prints a number without leading zeros, and \<^verbatim>\<open>hexZeroPad\<close> puts them back up to a width;
  \<^verbatim>\<open>stripZeros\<close> drops leading zero bytes; what base 58, bech32 and \<^verbatim>\<open>algosdk\<close> encode they decode.
\<close>

definition strip0 :: "string \<Rightarrow> string" where
  "strip0 ds = (case dropWhile (\<lambda>c. c = CHR ''0'') ds of [] \<Rightarrow> ''0'' | r \<Rightarrow> r)"

definition addr_lib_ok :: "addr_lib \<Rightarrow> bool" where
  "addr_lib_ok lib \<longleftrightarrow>
     (\<forall>m h. hex_string h \<longrightarrow> arrayify lib m (''0x'' @ h) = Inr (from_hex h))
     \<and> (\<forall>b n. length b \<le> n \<longrightarrow> zeroPad lib b n = Inr (replicate (n - length b) 0 @ b))
     \<and> (\<forall>b. hexValue lib b = Inr (''0x'' @ strip0 (to_hex b)))
     \<and> (\<forall>ds n. length ds \<le> 2 * n \<longrightarrow> hexZeroPad lib (''0x'' @ ds) n = Inr (''0x'' @ pad_start (2 * n) CHR ''0'' ds))
     \<and> (\<forall>b. stripZeros lib b = dropWhile (\<lambda>x. x = 0) b)
     \<and> (\<forall>a b. publicKeyString lib b = Inr a \<longrightarrow> publicKeyBytes lib a = Inr b)
     \<and> (\<forall>hrp ws a. bech32Encode lib hrp ws = Inr a \<longrightarrow> bech32Decode lib a = Inr (hrp, ws))
     \<and> (\<forall>b. bech32FromWords lib (bech32ToWords lib b) = Inr b)
     \<and> (\<forall>a b. algorandEncode lib b = Inr a \<longrightarrow> algorandDecode lib a = Inr b)"

lemma canonical_human: "addr_lib_ok lib \<Longrightarrow> humanAddress lib hrp c = Inr a \<Longrightarrow> canonicalAddress lib a = Inr c"
  by (simp add: addr_lib_ok_def humanAddress_def canonicalAddress_def)

lemma hex_padded_ok: "addr_lib_ok lib \<Longrightarrow> length b \<le> n \<Longrightarrow> hex_padded lib b n = Inr (to_hex (replicate (n - length b) 0 @ b))"
  by (simp add: addr_lib_ok_def hex_padded_def)

lemma bytes_of_hex [simp]: "hexToUint8Array_sdk (to_hex b) = b"
  by (simp add: hex_string_no_prefix)

lemma to_hex_from_hex: "hex_string h \<Longrightarrow> to_hex (from_hex h) = map to_lower h"
proof (induction h rule: from_hex.induct)
  case (1 a b cs)
  then obtain x y where xy: "digit_val 16 a = Some x" "digit_val 16 b = Some y" by (auto simp: hex_string_def)
  have d: "z < 16 \<and> to_lower c = hex_digits ! z" if "digit_val 16 c = Some z" for c z
  proof -
    have "index_of c' ds = Some z \<Longrightarrow> z < length ds \<and> ds ! z = c'" for c' :: char and ds
      by (induction ds arbitrary: z) (auto split: if_splits)
    with that show ?thesis by (force simp: digit_val_def split: option.splits if_splits)
  qed
  define w :: byte where "w = word_of_nat (16 * x + y)"
  have w: "from_hex (a # b # cs) = w # from_hex cs" "unat w = 16 * x + y" using xy d[OF xy(1)] d[OF xy(2)] by (simp_all add: w_def unat_byte_of_nat del: of_nat_add of_nat_mult)
  have "hex_string cs" using 1(2) by (simp add: hex_string_def)
  with 1(1)[OF _ xy] have "to_hex (from_hex cs) = map to_lower cs" by simp
  with w(2) d[OF xy(1)] d[OF xy(2)] show ?case unfolding w(1) by (simp add: to_hex_def hex_of_byte_def)
qed (simp_all add: to_hex_def hex_string_def)

lemma repad:
  assumes "length h = n" and "0 < n"
  shows "pad_start n CHR ''0'' (strip0 (replicate k CHR ''0'' @ h)) = h" "length (strip0 (replicate k CHR ''0'' @ h)) \<le> n"
proof -
  let ?d = "dropWhile (\<lambda>c. c = CHR ''0'') h" and ?t = "takeWhile (\<lambda>c. c = CHR ''0'') h"
  have s: "dropWhile (\<lambda>c. c = CHR ''0'') (replicate k CHR ''0'' @ h) = ?d" by (induction k) simp_all
  have t: "?t = replicate (length ?t) CHR ''0''" by (rule replicate_eqI) (auto dest: set_takeWhileD)
  have h: "h = ?t @ ?d" by simp
  have l: "length ?t + length ?d = n" using assms(1) h by (metis length_append)
  show "length (strip0 (replicate k CHR ''0'' @ h)) \<le> n" using s l assms(2) by (auto simp: strip0_def split: list.splits)
  show "pad_start n CHR ''0'' (strip0 (replicate k CHR ''0'' @ h)) = h"
  proof (cases "?d = []")
    case True
    then have r: "h = replicate n CHR ''0''" using assms(1) by (intro replicate_eqI) auto
    have z: "strip0 (replicate k CHR ''0'' @ h) = ''0''" unfolding strip0_def s True by simp
    obtain m where "n = Suc m" using assms(2) by (cases n) auto
    then have "pad_start n CHR ''0'' ''0'' = replicate n CHR ''0''" by (simp add: pad_start_def replicate_append_same)
    then show ?thesis unfolding z using r by simp
  next
    case False
    then have "strip0 (replicate k CHR ''0'' @ h) = ?d" using s by (auto simp: strip0_def split: list.splits)
    moreover have "n - length ?d = length ?t" using l by simp
    ultimately have "pad_start n CHR ''0'' (strip0 (replicate k CHR ''0'' @ h)) = replicate (length ?t) CHR ''0'' @ ?d"
      by (simp only: pad_start_def)
    also have "\<dots> = h" using t by simp
    finally show ?thesis .
  qed
qed

text \<open>
  \<open>native_form lib chain a b n\<close>: the native address \<open>a\<close> stands for the 32 bytes \<open>b\<close>, and \<open>n\<close> is its canonical spelling, which differs from
  \<open>a\<close> only in the case of hexadecimal digits.  A contract on Wormchain has 32 bytes, and these do not begin with twelve zeros.
\<close>

inductive native_form :: "addr_lib \<Rightarrow> chain_ref \<Rightarrow> string \<Rightarrow> bytes \<Rightarrow> string \<Rightarrow> bool" for lib where
  evm: "isEVMChain chain \<Longrightarrow> hex_string h \<Longrightarrow> length h = 40 \<Longrightarrow>
     native_form lib chain (''0x'' @ h) (replicate 12 0 @ from_hex h) (''0x'' @ map to_lower h)"
| solana: "coalesceChainId chain = CHAIN_ID ''solana'' \<or> coalesceChainId chain = CHAIN_ID ''pythnet'' \<Longrightarrow>
     publicKeyString lib b = Inr a \<Longrightarrow> length b = 32 \<Longrightarrow> native_form lib chain a b a"
| terra_denom: "coalesceChainId chain = CHAIN_ID ''terra'' \<Longrightarrow> isNativeDenom a \<Longrightarrow> list_all (\<lambda>c. of_char c < (128 :: nat)) a \<Longrightarrow>
     native_form lib chain a (1 # replicate (31 - length a) 0 @ low_bytes a) a"
| terra_account: "coalesceChainId chain = CHAIN_ID ''terra'' \<Longrightarrow> \<not> isNativeDenom a \<Longrightarrow> humanAddress lib ''terra'' c = Inr a \<Longrightarrow> length c = 20 \<Longrightarrow>
     native_form lib chain a (replicate 12 0 @ c) a"
| wormchain_account: "coalesceChainId chain = CHAIN_ID ''wormchain'' \<Longrightarrow> humanAddress lib ''wormhole'' c = Inr a \<Longrightarrow> length c = 20 \<Longrightarrow>
     native_form lib chain a (replicate 12 0 @ c) a"
| wormchain_contract: "coalesceChainId chain = CHAIN_ID ''wormchain'' \<Longrightarrow> humanAddress lib ''wormhole'' c = Inr a \<Longrightarrow> length c = 32 \<Longrightarrow>
     take 12 c \<noteq> replicate 12 0 \<Longrightarrow> native_form lib chain a c a"
| algorand: "coalesceChainId chain = CHAIN_ID ''algorand'' \<Longrightarrow> algorandEncode lib b = Inr a \<Longrightarrow> length b = 32 \<Longrightarrow> native_form lib chain a b a"

lemma likely20_iff: "isLikely20ByteCosmwasm (to_hex b) \<longleftrightarrow> take 12 b = replicate 12 0"
proof -
  have "take 24 (to_hex b) = to_hex (take 12 b)"
  proof -
    have "to_hex b = to_hex (take 12 b) @ to_hex (drop 12 b)" by (simp flip: to_hex_append)
    then show ?thesis by (cases "12 \<le> length b") (simp_all add: min_def)
  qed
  moreover have "''000000000000000000000000'' = to_hex (replicate 12 (0 :: byte))" by code_simp
  ultimately show ?thesis
    by (simp add: isLikely20ByteCosmwasm_def starts_with_def) (metis from_hex_to_hex)
qed

lemma to_hex_digit: "to_hex (0 # b) = ''00'' @ to_hex b" "to_hex (1 # b) = ''01'' @ to_hex b"
  by (simp_all add: to_hex_def hex_of_byte_def hex_digits_def)

lemma padded_not_native: "\<not> isHexNativeTerra (to_hex (replicate 12 0 @ c))"
proof -
  have "replicate 12 0 @ c = 0 # replicate 11 0 @ c" for c :: bytes using replicate_Suc[of 11 "0 :: byte"] by simp
  then show ?thesis by (simp add: to_hex_digit isHexNativeTerra_def starts_with_def)
qed

lemma ascii_low_bytes: "list_all (\<lambda>c. of_char c < (128 :: nat)) a \<Longrightarrow> ascii_of (low_bytes a) = a"
  by (induction a) (simp_all add: ascii_of_def low_bytes_def unat_byte_of_nat)

lemma strip_denom:
  assumes "isNativeDenom a"
  shows "dropWhile (\<lambda>x. x = 0) (replicate k 0 @ low_bytes a) = low_bytes a"
proof -
  have "\<exists>r. a = CHR ''u'' # r"
    using assms by (cases a) (auto simp: isNativeDenom_def isNativeTerra_def starts_with_def)
  then obtain r where "a = CHR ''u'' # r" by blast
  then show ?thesis by (induction k) (simp_all add: low_bytes_def)
qed

lemma denom_back:
  assumes "addr_lib_ok lib" "isNativeDenom a" "list_all (\<lambda>c. of_char c < (128 :: nat)) a"
  shows "nativeTerraHexToDenom lib (to_hex (1 # replicate k 0 @ low_bytes a)) = a"
  using assms by (simp add: nativeTerraHexToDenom_def to_hex_digit addr_lib_ok_def strip_denom ascii_low_bytes)

lemmas conv_simps = tryNativeToHexString_def tryHexToNativeString_def tryUint8ArrayToNative_def Let_def chain_ids not_evm terra_ids

lemma take_padded: "take 12 (replicate 12 0 @ c) = replicate 12 (0 :: byte)" and last20_padded: "length c = 20 \<Longrightarrow> last20 (replicate 12 0 @ c) = c"
  by (simp_all add: last20_def)

lemma evm_back:
  assumes "addr_lib_ok lib" "evm_id (coalesceChainId chain)" "hex_string h" "length h = 40"
  shows "tryUint8ArrayToNative lib (replicate 12 0 @ from_hex h) chain = Inr (''0x'' @ map to_lower h)"
proof -
  have "to_hex (replicate 12 0 @ from_hex h) = replicate 24 CHR ''0'' @ map to_lower h"
    using assms(3) by (simp add: to_hex_append to_hex_zeros to_hex_from_hex)
  with repad[of "map to_lower h" 40 24] assms show ?thesis
    by (simp add: tryUint8ArrayToNative_def addr_lib_ok_def)
qed

lemma short_back:
  assumes "humanAddress lib hrp c = Inr a"
    and "b = replicate 12 0 @ c \<and> length c = 20 \<or> b = c \<and> take 12 c \<noteq> replicate 12 0"
  shows "human_short lib hrp b = Inr a"
  using assms by (auto simp: human_short_def likely20_iff take_padded last20_padded)

text \<open>
  An EVM address, a Solana or Pythnet key, a denomination or account of Terra, an account or contract of Wormchain and an Algorand address are turned
  into the 32 bytes they stand for, and these bytes are turned back into the address, in its canonical spelling.
\<close>

theorem address_roundtrip:
  assumes "addr_lib_ok lib" and "native_form lib chain a b n"
  shows "length b = 32 \<and> tryNativeToHexString lib a chain = Inr (to_hex b) \<and> tryHexToNativeString lib (to_hex b) chain = Inr n"
  using assms(2)
proof cases
  case (evm h)
  then have e: "evm_id (coalesceChainId chain)" by (simp add: evm_id_chain)
  have "arrayify lib False a = Inr (from_hex h)" using assms(1) evm by (simp add: addr_lib_ok_def)
  moreover have l: "length (from_hex h) = 20" using evm by (simp add: length_from_hex)
  ultimately show ?thesis
    using e evm evm_back[OF assms(1) e] hex_padded_ok[OF assms(1), of "from_hex h" 32]
    by (simp add: tryNativeToHexString_def tryHexToNativeString_def)
next
  case solana
  then show ?thesis
    using assms(1) hex_padded_ok[OF assms(1), of b 32] by (auto simp: conv_simps addr_lib_ok_def)
next
  case terra_denom
  have l: "length a \<le> 31" using terra_denom(4) by (auto simp: isNativeDenom_def isNativeTerra_def)
  have x: "to_hex b = ''01'' @ to_hex (replicate (31 - length a) 0 @ low_bytes a)" unfolding terra_denom(1) by (rule to_hex_digit)
  have d: "nativeTerraHexToDenom lib (to_hex b) = a" unfolding terra_denom(1) using denom_back[OF assms(1) terra_denom(4,5)] .
  have "tryUint8ArrayToNative lib b chain = Inr a"
    using d x terra_denom(3) by (simp add: tryUint8ArrayToNative_def chain_ids not_evm terra_ids isHexNativeTerra_def starts_with_def)
  moreover have "tryNativeToHexString lib a chain = Inr (to_hex b)"
    using x l terra_denom(3,4) hex_padded_ok[OF assms(1), of "low_bytes a" 31] by (simp add: tryNativeToHexString_def chain_ids not_evm low_bytes_def)
  moreover have "length b = 32" using l by (simp add: terra_denom(1) low_bytes_def)
  ultimately show ?thesis using terra_denom(2) by (simp add: tryHexToNativeString_def)
next
  case (terra_account c)
  then show ?thesis
    using hex_padded_ok[OF assms(1), of c 32] padded_not_native[of c]
    by (simp add: conv_simps canonical_human[OF assms(1)] last20_padded)
next
  case (wormchain_account c)
  then show ?thesis
    using hex_padded_ok[OF assms(1), of c 32] short_back[of lib "''wormhole''" c a b]
    by (simp add: conv_simps canonical_human[OF assms(1)])
next
  case wormchain_contract
  then show ?thesis
    using hex_padded_ok[OF assms(1), of b 32] short_back[of lib "''wormhole''" b a b]
    by (simp add: conv_simps canonical_human[OF assms(1)])
next
  case algorand
  then show ?thesis
    using assms(1) by (simp add: conv_simps addr_lib_ok_def nativeStringToHexAlgorand_def)
qed

definition demo_addr_lib :: addr_lib where
  "demo_addr_lib =
     \<lparr>arrayify = (\<lambda>m s. Inr (from_hex (drop 2 s))), zeroPad = (\<lambda>b n. Inr (replicate (n - length b) 0 @ b)),
      hexValue = (\<lambda>b. Inr (''0x'' @ strip0 (to_hex b))), hexZeroPad = (\<lambda>s n. Inr (''0x'' @ pad_start (2 * n) CHR ''0'' (drop 2 s))),
      hexlifyAny = (\<lambda>m s. Inr s), stripZeros = dropWhile (\<lambda>x. x = 0), keccakHex = (\<lambda>b. ''0x'' @ replicate 64 CHR ''5''),
      sha256Hex = (\<lambda>b. ''0x'' @ replicate 64 CHR ''6''), sha3Hex = (\<lambda>b. replicate 64 CHR ''7''),
      publicKeyBytes = (\<lambda>s. Inr (from_hex s)), publicKeyString = (\<lambda>b. Inr (to_hex b)),
      bech32Decode = (\<lambda>s. Inr (takeWhile (\<lambda>c. c \<noteq> CHR ''1'') s, map of_char (tl (dropWhile (\<lambda>c. c \<noteq> CHR ''1'') s)))),
      bech32Encode = (\<lambda>hrp ws. if list_all (\<lambda>w. w < 256) ws \<and> CHR ''1'' \<notin> set hrp then Inr (hrp @ ''1'' @ map char_of ws) else Inl (mk_error [])),
      bech32FromWords = (\<lambda>ws. Inr (map word_of_nat ws)), bech32ToWords = map unat,
      algorandDecode = (\<lambda>s. Inr (from_hex s)), algorandEncode = (\<lambda>b. Inr (to_hex b)), bigNumber = be_decode,
      normalizeSuiAddress = (\<lambda>s. s), isValidFullSuiAddress = (\<lambda>s. length s = 66)\<rparr>"

lemma demo_bech32:
  assumes "list_all (\<lambda>w. w < 256) ws" and "CHR ''1'' \<notin> set hrp"
  shows "takeWhile (\<lambda>c. c \<noteq> CHR ''1'') (hrp @ ''1'' @ r) = hrp" "tl (dropWhile (\<lambda>c. c \<noteq> CHR ''1'') (hrp @ ''1'' @ r)) = r"
    "map of_char (map char_of ws :: string) = (ws :: nat list)"
proof -
  show "takeWhile (\<lambda>c. c \<noteq> CHR ''1'') (hrp @ ''1'' @ r) = hrp" "tl (dropWhile (\<lambda>c. c \<noteq> CHR ''1'') (hrp @ ''1'' @ r)) = r"
    using assms(2) by (induction hrp) auto
  show "map of_char (map char_of ws :: string) = (ws :: nat list)"
    using assms(1) by (induction ws) simp_all
qed

lemma demo_addr_lib_ok: "addr_lib_ok demo_addr_lib"
  unfolding addr_lib_ok_def demo_addr_lib_def
  by (auto simp: demo_bech32[simplified] comp_def list_all_iff intro!: map_idI split: if_splits)

theorem address_roundtrip_witness:
  "tryNativeToHexString demo_addr_lib (''0x'' @ replicate 40 CHR ''A'') (ChainStr ''ethereum'') = Inr (to_hex (replicate 12 0 @ replicate 20 170))
   \<and> tryHexToNativeString demo_addr_lib (to_hex (replicate 12 0 @ replicate 20 170)) (ChainStr ''ethereum'') = Inr (''0x'' @ replicate 40 CHR ''a'')"
proof -
  have e: "isEVMChain (ChainStr ''ethereum'')" "hex_string (replicate 40 CHR ''A'')" "length (replicate 40 CHR ''A'') = 40" by code_simp+
  have v: "from_hex (replicate 40 CHR ''A'') = replicate 20 170" "map to_lower (replicate 40 CHR ''A'') = replicate 40 CHR ''a''" by code_simp+
  from address_roundtrip[OF demo_addr_lib_ok native_form.evm[OF e]] show ?thesis unfolding v by blast
qed

subsection \<open>Conversions that are not inverse\<close>

text \<open>
  The byte 1 in front marks a denomination, on Terra 2 as well, where contracts have 32 bytes: a contract whose first byte is 1 is taken for a
  denomination.
\<close>

lemma terra2_contract_misread:
  assumes "addr_lib_ok lib"
  shows "tryUint8ArrayToNative lib (1 # c) (ChainStr ''terra2'') = Inr (ascii_of (dropWhile (\<lambda>x. x = 0) c))"
proof -
  have "coalesceChainId (ChainStr ''terra2'') = Some 18" by code_simp
  then show ?thesis
    using assms by (simp add: tryUint8ArrayToNative_def not_evm terra_ids chain_ids to_hex_digit isHexNativeTerra_def starts_with_def
        nativeTerraHexToDenom_def addr_lib_ok_def)
qed

text \<open>
  On Terra 2, Injective, XPLA and Sei an address is converted to a token id, a hash with its first byte replaced; converting that back gives the bech32 form of
  the hash and not the address.
\<close>

lemma injective_address_hashed:
  assumes "keccakHex lib (utf8_of a) = ''0x'' @ to_hex k" and "length k = 32" and "a \<noteq> ''inj''"
  shows "tryNativeToHexString lib a (ChainStr ''injective'') = Inr (to_hex (0 # drop 1 k))"
    "tryHexToNativeString lib (to_hex (0 # drop 1 k)) (ChainStr ''injective'') = human_short lib ''inj'' (0 # drop 1 k)"
proof -
  have c: "coalesceChainId (ChainStr ''injective'') = Some 19" by code_simp
  have w: "coalesceCosmWasmChainId (ChainNum 19) = Some 19" by code_simp
  have "list_ex (\<lambda>(chain, denoms). Some 19 = CHAIN_ID chain \<and> a \<in> set denoms) native_denoms \<longleftrightarrow> a = ''inj''"
    by (simp add: native_denoms_def CHAIN_ID_def CHAINS_def)
  moreover have "\<not> isTerraChain (ChainNum 19)" using terra_ids(5) by (simp add: terra_id_def)
  ultimately have n: "\<not> isNativeCosmWasmDenom (Some 19) a" using assms(3) by (simp add: isNativeCosmWasmDenom_def)
  have "drop 4 (''0x'' @ to_hex k) = to_hex (drop 1 k)" using drop_to_hex[of 1 k] by (simp add: numeral_eq_Suc One_nat_def)
  then show "tryNativeToHexString lib a (ChainStr ''injective'') = Inr (to_hex (0 # drop 1 k))"
    using c w n assms(1) by (simp add: tryNativeToHexString_def chain_ids not_evm buildTokenId_def Let_def to_hex_digit)
  show "tryHexToNativeString lib (to_hex (0 # drop 1 k)) (ChainStr ''injective'') = human_short lib ''inj'' (0 # drop 1 k)"
    using c by (simp add: tryHexToNativeString_def tryUint8ArrayToNative_def chain_ids not_evm terra_ids Let_def)
qed

subsection \<open>Helpers\<close>

lemma module_of_type: "CHR '':'' \<notin> set w \<Longrightarrow> coalesceModuleAddress (w @ ''::'' @ t) = w"
proof -
  assume "CHR '':'' \<notin> set w"
  then have "\<exists>r. split_colons (w @ ''::'' @ t) = w # r"
  proof (induction w)
    case (Cons a w)
    then obtain r where "split_colons (w @ ''::'' @ t) = w # r" by auto
    with Cons.prems show ?case by (cases w) auto
  qed simp
  then show ?thesis by (auto simp: coalesceModuleAddress_def)
qed

lemma chunks_complete:
  assumes "0 < sz"
  shows "\<exists>cs. chunks_sdk xs sz = Inr cs \<and> concat cs = xs \<and> (\<forall>c \<in> set cs. length c \<le> sz)"
proof -
  have "concat (map (\<lambda>i. take sz (drop (i * sz) xs)) [0..<n]) = take (n * sz) xs" for n
  proof (induction n)
    case (Suc n)
    then show ?case by (simp add: take_add add.commute[of sz])
  qed simp
  moreover have "length xs \<le> (length xs + sz - 1) div sz * sz"
  proof -
    let ?m = "length xs + sz - 1"
    have "?m mod sz < sz" using assms by simp
    moreover have "?m = ?m div sz * sz + ?m mod sz" by simp
    ultimately show ?thesis using assms by linarith
  qed
  ultimately show ?thesis using assms by (auto simp: chunks_sdk_def)
qed

end
