(* ===== verification/Mock_Vaa.thy ===== *)
theory Mock_Vaa
  imports Wormhole_Address
begin

section \<open>Mock emitters and guardians: \<^verbatim>\<open>sdk/js/src/mock\<close>\<close>

text \<open>
  The emitters and guardians with which the SDK makes messages in tests: each writes its fields at fixed offsets into a zeroed \<^verbatim>\<open>Buffer\<close>.  An emitter is an
  object with a sequence number that goes up with each message; a subclass is an extended record.  \<^verbatim>\<open>new BN(n.toString()).toBuffer()\<close>, elliptic and
  the conversions of addresses are third-party code or rest on it: the parameters \<open>bnBuffer\<close>, \<open>ec\<close> and \<open>lib\<close>.
\<close>

declare One_nat_def [simp del]

subsection \<open>Writing into a buffer\<close>

text \<open>\<^verbatim>\<open>Buffer.alloc(n)\<close>, and bytes put over those at an offset; what does not fit is cut off.\<close>

definition buf_alloc :: "nat \<Rightarrow> bytes" where
  "buf_alloc n = replicate n 0"

definition overlay :: "nat \<Rightarrow> bytes \<Rightarrow> bytes \<Rightarrow> bytes" where
  "overlay off data buf = take off buf @ take (length buf - off) data @ drop (off + length data) buf"

text \<open>
  \<^verbatim>\<open>writeUInt..BE\<close> throws for a value that does not fit and for a place outside the buffer; \<^verbatim>\<open>write(s, off, "hex")\<close> and
  \<^verbatim>\<open>write(s, off)\<close> throw for an offset outside the buffer, and the latter writes whole characters only.
\<close>

definition buf_write_be :: "nat \<Rightarrow> int \<Rightarrow> nat \<Rightarrow> bytes \<Rightarrow> bytes outcome" where
  "buf_write_be n v off buf =
     (if v < 0 \<or> 256 ^ n \<le> v then Inl (range_error ''The value of \"value\" is out of range.'')
      else if length buf < off + n then Inl out_of_range
      else Inr (overlay off (be_encode n (nat v)) buf))"

definition write_at :: "int \<Rightarrow> bytes \<Rightarrow> bytes \<Rightarrow> bytes outcome" where
  "write_at off data buf = (if off < 0 \<or> int (length buf) < off then Inl out_of_range else Inr (overlay (nat off) data buf))"

definition buf_write_hex :: "string \<Rightarrow> int \<Rightarrow> bytes \<Rightarrow> bytes outcome" where
  "buf_write_hex s off buf = write_at off (from_hex s) buf"

fun fit_chars :: "nat \<Rightarrow> text_t \<Rightarrow> text_t" where
  "fit_chars n [] = []"
| "fit_chars n (c # s) = (if length (utf8_char c) \<le> n then c # fit_chars (n - length (utf8_char c)) s else [])"

definition write_utf8 :: "text_t \<Rightarrow> int \<Rightarrow> bytes \<Rightarrow> bytes outcome" where
  "write_utf8 s off buf = write_at off (utf8_bytes (fit_chars (nat (int (length buf) - off)) s)) buf"

text \<open>
  \<^verbatim>\<open>s.substring(0, n)\<close> cuts between code units; half a character is written as U+FFFD.
\<close>

fun substring16 :: "nat \<Rightarrow> text_t \<Rightarrow> text_t" where
  "substring16 n [] = []"
| "substring16 n (c # s) =
     (if n = 0 then []
      else if c < 0x10000 then c # substring16 (n - 1) s
      else if n = 1 then [0xFFFD]
      else c # substring16 (n - 2) s)"

subsection \<open>Guardians and emitters: \<^verbatim>\<open>wormhole.ts\<close>\<close>

record Guardian =
  guIndex :: int
  guKey :: string

record MockGuardians =
  setIndex :: int
  signers :: "Guardian list"

definition mock_guardians :: "int \<Rightarrow> string list \<Rightarrow> MockGuardians" where
  "mock_guardians i keys = \<lparr>setIndex = i, signers = map (\<lambda>(k, n). \<lparr>guIndex = int n, guKey = k\<rparr>) (zip keys [0..<length keys])\<rparr>"

definition updateGuardianSetIndex :: "int \<Rightarrow> MockGuardians \<Rightarrow> MockGuardians" where
  "updateGuardianSetIndex i g = g\<lparr>setIndex := i\<rparr>"

text \<open>\<open>privateToPublic\<close> and \<open>ec\<close> are elliptic's: the public key of a private one, and \<^verbatim>\<open>r\<close> and \<^verbatim>\<open>s\<close> in hexadecimal with the recovery parameter.\<close>

definition ethPrivateToPublic :: "(bytes \<Rightarrow> bytes) \<Rightarrow> (string \<Rightarrow> string) \<Rightarrow> string \<Rightarrow> bytes" where
  "ethPrivateToPublic keccak256 privateToPublic key = drop 12 (keccak256 (drop 1 (from_hex (privateToPublic key))))"

definition getPublicKeys :: "(bytes \<Rightarrow> bytes) \<Rightarrow> (string \<Rightarrow> string) \<Rightarrow> MockGuardians \<Rightarrow> bytes list" where
  "getPublicKeys keccak256 privateToPublic g = map (\<lambda>x. ethPrivateToPublic keccak256 privateToPublic (guKey x)) (signers g)"

type_synonym elliptic = "string \<Rightarrow> bytes \<Rightarrow> string \<times> string \<times> int"

definition ethSignWithPrivate :: "elliptic \<Rightarrow> string \<Rightarrow> bytes \<Rightarrow> (string \<times> string \<times> int) outcome" where
  "ethSignWithPrivate ec privateKey hash = (if length hash \<noteq> 32 then Inl (mk_error ''hash.length != 32'') else Inr (ec privateKey hash))"

definition write_mock_signature :: "elliptic \<Rightarrow> bytes \<Rightarrow> nat \<Rightarrow> Guardian \<Rightarrow> bytes \<Rightarrow> bytes outcome" where
  "write_mock_signature ec hash start signer buf =
     e_bind (ethSignWithPrivate ec (guKey signer) hash) (\<lambda>(r, s, recoveryParam).
     e_bind (buf_write_be 1 (guIndex signer) start buf) (\<lambda>buf.
     e_bind (buf_write_hex (pad_start 64 CHR ''0'' r) (int (start + 1)) buf) (\<lambda>buf.
     e_bind (buf_write_hex (pad_start 64 CHR ''0'' s) (int (start + 33)) buf) (\<lambda>buf.
     buf_write_be 1 recoveryParam (start + 65) buf))))"

fun write_mock_signatures :: "elliptic \<Rightarrow> bytes \<Rightarrow> nat \<Rightarrow> Guardian list \<Rightarrow> bytes \<Rightarrow> bytes outcome" where
  "write_mock_signatures ec hash start [] buf = Inr buf"
| "write_mock_signatures ec hash start (g # gs) buf =
     e_bind (write_mock_signature ec hash start g buf) (\<lambda>buf. write_mock_signatures ec hash (start + 66) gs buf)"

definition addSignatures :: "elliptic \<Rightarrow> (bytes \<Rightarrow> bytes) \<Rightarrow> bytes \<Rightarrow> int list \<Rightarrow> MockGuardians \<Rightarrow> bytes outcome" where
  "addSignatures ec keccak256 message guardianIndices g =
     (if guardianIndices = [] then Inl (mk_error ''guardianIndices.length == 0'')
      else
        let chosen = filter (\<lambda>x. guIndex x \<in> set guardianIndices) (signers g);
            numSigners = length chosen;
            signedVaa = buf_alloc (6 + 66 * numSigners + length message)
        in e_bind (buf_write_hex (to_hex message) (int (6 + 66 * numSigners)) signedVaa) (\<lambda>buf.
           e_bind (buf_write_be 1 1 0 buf) (\<lambda>buf.
           e_bind (buf_write_be 4 (setIndex g) 1 buf) (\<lambda>buf.
           e_bind (buf_write_be 1 (int numSigners) 5 buf) (\<lambda>buf.
           write_mock_signatures ec (keccak256 (keccak256 message)) 6 chosen buf)))))"

record MockEmitter =
  meChain :: int
  meAddress :: bytes
  meSequence :: int

definition mock_emitter :: "string \<Rightarrow> int \<Rightarrow> int option \<Rightarrow> MockEmitter outcome" where
  "mock_emitter emitter chain startSequence =
     (let address = from_hex emitter
      in if length address \<noteq> 32 then Inl (mk_error ''emitterAddress.length != 32'')
         else Inr \<lparr>meChain = chain, meAddress = address, meSequence = (case startSequence of None \<Rightarrow> 0 | Some s \<Rightarrow> s)\<rparr>)"

definition mock_ethereum_emitter :: "string \<Rightarrow> int option \<Rightarrow> MockEmitter outcome" where
  "mock_ethereum_emitter emitter chain = mock_emitter emitter (case chain of None \<Rightarrow> 2 | Some c \<Rightarrow> c) None"

definition write_message :: "int \<Rightarrow> bytes \<Rightarrow> int \<Rightarrow> int option \<Rightarrow> 'e MockEmitter_scheme \<Rightarrow> bytes outcome" where
  "write_message nonce payload level timestamp e =
     e_bind (buf_write_be 4 (case timestamp of None \<Rightarrow> 0 | Some t \<Rightarrow> t) 0 (buf_alloc (51 + length payload))) (\<lambda>m.
     e_bind (buf_write_be 4 nonce 4 m) (\<lambda>m.
     e_bind (buf_write_be 2 (meChain e) 8 m) (\<lambda>m.
     e_bind (buf_write_hex (to_hex (meAddress e)) 10 m) (\<lambda>m.
     e_bind (buf_write_be 8 (meSequence e) 42 m) (\<lambda>m.
     e_bind (buf_write_be 1 level 50 m) (\<lambda>m.
     buf_write_hex (to_hex payload) 51 m))))))"

definition publishMessage :: "int \<Rightarrow> bytes \<Rightarrow> int \<Rightarrow> int option \<Rightarrow> bool \<Rightarrow> ('e MockEmitter_scheme, bytes) stateful" where
  "publishMessage nonce payload level timestamp uptickSequence e =
     (let e' = (if uptickSequence then e\<lparr>meSequence := dbl (meSequence e + 1)\<rparr> else e)
      in (write_message nonce payload level timestamp e', e'))"

subsection \<open>Governance: \<^verbatim>\<open>governance.ts\<close>\<close>

definition governance_emitter :: "string \<Rightarrow> int option \<Rightarrow> MockEmitter outcome" where
  "governance_emitter emitter startSequence = mock_emitter emitter 1 startSequence"

definition governance_payload :: "text_t \<Rightarrow> bytes \<Rightarrow> int \<Rightarrow> int \<Rightarrow> bytes outcome" where
  "governance_payload moduleName payload act chain =
     e_bind (write_utf8 moduleName (32 - int (utf16_length moduleName)) (buf_alloc 32)) (\<lambda>moduleBytes.
     e_bind (buf_write_hex (to_hex moduleBytes) 0 (buf_alloc (35 + length payload))) (\<lambda>s.
     e_bind (buf_write_be 1 act 32 s) (\<lambda>s.
     e_bind (buf_write_be 2 chain 33 s) (\<lambda>s.
     buf_write_hex (to_hex payload) 35 s))))"

definition publishGovernanceMessage :: "int \<Rightarrow> text_t \<Rightarrow> bytes \<Rightarrow> int \<Rightarrow> int \<Rightarrow> bool \<Rightarrow> ('e MockEmitter_scheme, bytes) stateful" where
  "publishGovernanceMessage timestamp moduleName payload act chain uptick =
     s_bind (s_lift (governance_payload moduleName payload act chain)) (\<lambda>serialized.
     publishMessage 0 serialized 1 (Some timestamp) uptick)"

definition amount_field :: "(int \<Rightarrow> bytes) \<Rightarrow> int \<Rightarrow> nat \<Rightarrow> bytes \<Rightarrow> bytes outcome" where
  "amount_field bnBuffer amount fin buf =
     (let amountBytes = bnBuffer amount in buf_write_hex (to_hex amountBytes) (int fin - int (length amountBytes)) buf)"

definition publishWormholeSetMessageFee :: "(int \<Rightarrow> bytes) \<Rightarrow> int \<Rightarrow> int \<Rightarrow> int \<Rightarrow> bool \<Rightarrow> ('e MockEmitter_scheme, bytes) stateful" where
  "publishWormholeSetMessageFee bnBuffer timestamp chain amount uptick =
     s_bind (s_lift (amount_field bnBuffer amount 32 (buf_alloc 32))) (\<lambda>payload.
     publishGovernanceMessage timestamp (ascii_text ''Core'') payload 3 chain uptick)"

definition publishWormholeTransferFees ::
    "(int \<Rightarrow> bytes) \<Rightarrow> int \<Rightarrow> int \<Rightarrow> int \<Rightarrow> bytes \<Rightarrow> bool \<Rightarrow> ('e MockEmitter_scheme, bytes) stateful" where
  "publishWormholeTransferFees bnBuffer timestamp chain amount recipient uptick =
     s_bind (s_lift (e_bind (amount_field bnBuffer amount 32 (buf_alloc 64)) (buf_write_hex (to_hex recipient) 32))) (\<lambda>payload.
     publishGovernanceMessage timestamp (ascii_text ''Core'') payload 4 chain uptick)"

fun write_keys :: "nat \<Rightarrow> bytes list \<Rightarrow> bytes \<Rightarrow> bytes outcome" where
  "write_keys off [] buf = Inr buf"
| "write_keys off (k # ks) buf = e_bind (buf_write_hex (to_hex k) (int off) buf) (write_keys (off + 20) ks)"

definition publishWormholeGuardianSetUpgrade :: "int \<Rightarrow> int \<Rightarrow> bytes list \<Rightarrow> bool \<Rightarrow> ('e MockEmitter_scheme, bytes) stateful" where
  "publishWormholeGuardianSetUpgrade timestamp newIndex publicKeys uptick =
     s_bind (s_lift
       (e_bind (buf_write_be 4 newIndex 0 (buf_alloc (5 + 20 * length publicKeys))) (\<lambda>p.
        e_bind (buf_write_be 1 (int (length publicKeys)) 4 p) (\<lambda>p.
        write_keys 5 publicKeys p)))) (\<lambda>payload.
     publishGovernanceMessage timestamp (ascii_text ''Core'') payload 2 0 uptick)"

definition contract_payload :: "addr_lib \<Rightarrow> string \<Rightarrow> int \<Rightarrow> bytes outcome" where
  "contract_payload lib contract chain =
     e_bind (tryNativeToHexString lib contract (ChainNum chain)) (\<lambda>h. buf_write_hex h 0 (buf_alloc 32))"

definition register_payload :: "addr_lib \<Rightarrow> int \<Rightarrow> string \<Rightarrow> bytes outcome" where
  "register_payload lib chain address =
     e_bind (buf_write_be 2 chain 0 (buf_alloc 34)) (\<lambda>p.
     e_bind (tryNativeToHexString lib address (ChainNum chain)) (\<lambda>h. buf_write_hex h 2 p))"

definition publishWormholeUpgradeContract :: "addr_lib \<Rightarrow> int \<Rightarrow> int \<Rightarrow> string \<Rightarrow> bool \<Rightarrow> ('e MockEmitter_scheme, bytes) stateful" where
  "publishWormholeUpgradeContract lib timestamp chain contract uptick =
     s_bind (s_lift (contract_payload lib contract chain)) (\<lambda>payload.
     publishGovernanceMessage timestamp (ascii_text ''Core'') payload 1 chain uptick)"

definition publishTokenBridgeRegisterChain :: "addr_lib \<Rightarrow> int \<Rightarrow> int \<Rightarrow> string \<Rightarrow> bool \<Rightarrow> ('e MockEmitter_scheme, bytes) stateful" where
  "publishTokenBridgeRegisterChain lib timestamp chain address uptick =
     s_bind (s_lift (register_payload lib chain address)) (\<lambda>payload.
     publishGovernanceMessage timestamp (ascii_text ''TokenBridge'') payload 1 0 uptick)"

definition publishTokenBridgeUpgradeContract :: "addr_lib \<Rightarrow> int \<Rightarrow> int \<Rightarrow> string \<Rightarrow> bool \<Rightarrow> ('e MockEmitter_scheme, bytes) stateful" where
  "publishTokenBridgeUpgradeContract lib timestamp chain contract uptick =
     s_bind (s_lift (contract_payload lib contract chain)) (\<lambda>payload.
     publishGovernanceMessage timestamp (ascii_text ''TokenBridge'') payload 2 chain uptick)"

definition publishNftBridgeRegisterChain :: "addr_lib \<Rightarrow> int \<Rightarrow> int \<Rightarrow> string \<Rightarrow> bool \<Rightarrow> ('e MockEmitter_scheme, bytes) stateful" where
  "publishNftBridgeRegisterChain lib timestamp chain address uptick =
     s_bind (s_lift (register_payload lib chain address)) (\<lambda>payload.
     publishGovernanceMessage timestamp (ascii_text ''NFTBridge'') payload 1 0 uptick)"

text \<open>The contract of the NFT bridge is converted for the chain of the emitter, not for the one in the message.\<close>

definition publishNftBridgeUpgradeContract :: "addr_lib \<Rightarrow> int \<Rightarrow> int \<Rightarrow> string \<Rightarrow> bool \<Rightarrow> ('e MockEmitter_scheme, bytes) stateful" where
  "publishNftBridgeUpgradeContract lib timestamp chain contract uptick =
     s_bind (s_get meChain) (\<lambda>own.
     s_bind (s_lift (contract_payload lib contract own)) (\<lambda>payload.
     publishGovernanceMessage timestamp (ascii_text ''NFTBridge'') payload 2 chain uptick))"

definition publishWormholeRelayerRegisterChain :: "addr_lib \<Rightarrow> int \<Rightarrow> int \<Rightarrow> string \<Rightarrow> bool \<Rightarrow> ('e MockEmitter_scheme, bytes) stateful" where
  "publishWormholeRelayerRegisterChain lib timestamp chain address uptick =
     s_bind (s_lift (register_payload lib chain address)) (\<lambda>payload.
     publishGovernanceMessage timestamp (ascii_text ''WormholeRelayer'') payload 1 0 uptick)"

definition publishWormholeRelayerUpgradeContract :: "addr_lib \<Rightarrow> int \<Rightarrow> int \<Rightarrow> string \<Rightarrow> bool \<Rightarrow> ('e MockEmitter_scheme, bytes) stateful" where
  "publishWormholeRelayerUpgradeContract lib timestamp chain contract uptick =
     s_bind (s_lift (contract_payload lib contract chain)) (\<lambda>payload.
     publishGovernanceMessage timestamp (ascii_text ''WormholeRelayer'') payload 2 chain uptick)"

definition publishWormholeRelayerSetDefaultDeliveryProvider ::
    "addr_lib \<Rightarrow> int \<Rightarrow> int \<Rightarrow> string \<Rightarrow> bool \<Rightarrow> ('e MockEmitter_scheme, bytes) stateful" where
  "publishWormholeRelayerSetDefaultDeliveryProvider lib timestamp chain provider uptick =
     s_bind (s_lift (contract_payload lib provider chain)) (\<lambda>payload.
     publishGovernanceMessage timestamp (ascii_text ''WormholeRelayer'') payload 3 chain uptick)"

subsection \<open>The token bridge: \<^verbatim>\<open>tokenBridge.ts\<close>\<close>

record MockTokenBridge = MockEmitter +
  mtConsistencyLevel :: int

definition mock_token_bridge :: "string \<Rightarrow> int \<Rightarrow> int \<Rightarrow> int option \<Rightarrow> MockTokenBridge outcome" where
  "mock_token_bridge emitter chain level startSequence =
     e_bind (mock_emitter emitter chain startSequence) (\<lambda>e. Inr (MockEmitter.extend e (MockTokenBridge.fields level)))"

definition publishTokenBridgeMessage :: "bytes \<Rightarrow> int option \<Rightarrow> int option \<Rightarrow> bool \<Rightarrow> (MockTokenBridge, bytes) stateful" where
  "publishTokenBridgeMessage serialized nonce timestamp uptick =
     s_bind (s_get mtConsistencyLevel) (\<lambda>level.
     publishMessage (case nonce of None \<Rightarrow> 0 | Some n \<Rightarrow> n) serialized level timestamp uptick)"

definition attest_payload :: "int \<Rightarrow> string \<Rightarrow> int \<Rightarrow> text_t \<Rightarrow> text_t \<Rightarrow> bytes outcome" where
  "attest_payload chain tokenAddress decs symbol name =
     e_bind (buf_write_be 1 2 0 (buf_alloc 100)) (\<lambda>s.
     let hexlified = from_hex tokenAddress in
     if length hexlified \<noteq> 32 then Inl (mk_error ''tokenAddress must be 32 bytes'')
     else
       e_bind (buf_write_hex (to_hex hexlified) 1 s) (\<lambda>s.
       e_bind (buf_write_be 2 chain 33 s) (\<lambda>s.
       e_bind (buf_write_be 1 decs 35 s) (\<lambda>s.
       e_bind (write_utf8 (substring16 32 symbol) 36 s) (\<lambda>s.
       write_utf8 (substring16 32 name) 68 s)))))"

definition publishAttestMeta ::
    "string \<Rightarrow> int \<Rightarrow> text_t \<Rightarrow> text_t \<Rightarrow> int option \<Rightarrow> int option \<Rightarrow> bool \<Rightarrow> (MockTokenBridge, bytes) stateful" where
  "publishAttestMeta tokenAddress decs symbol name nonce timestamp uptick =
     s_bind (s_get meChain) (\<lambda>chain.
     s_bind (s_lift (attest_payload chain tokenAddress decs symbol name)) (\<lambda>serialized.
     publishTokenBridgeMessage serialized nonce timestamp uptick))"

definition serializeTransferOnly ::
    "(int \<Rightarrow> bytes) \<Rightarrow> bool \<Rightarrow> string \<Rightarrow> int \<Rightarrow> int \<Rightarrow> int \<Rightarrow> string \<Rightarrow> int option \<Rightarrow> bytes option \<Rightarrow> bytes outcome" where
  "serializeTransferOnly bnBuffer withPayload tokenAddress tokenChain amount recipientChain recipient fee fromAddress =
     e_bind (buf_write_be 1 (if withPayload then 3 else 1) 0 (buf_alloc 133)) (\<lambda>s.
     e_bind (amount_field bnBuffer amount 33 s) (\<lambda>s.
     e_bind (buf_write_hex tokenAddress 33 s) (\<lambda>s.
     e_bind (buf_write_be 2 tokenChain 65 s) (\<lambda>s.
     e_bind (buf_write_hex recipient 67 s) (\<lambda>s.
     e_bind (buf_write_be 2 recipientChain 99 s) (\<lambda>s.
     if withPayload
     then (case fromAddress of None \<Rightarrow> Inl (mk_error ''fromAddress === undefined'') | Some f \<Rightarrow> buf_write_hex (to_hex f) 101 s)
     else (case fee of None \<Rightarrow> Inl (mk_error ''fee === undefined'') | Some x \<Rightarrow> amount_field bnBuffer x 133 s)))))))"

definition publishTransferTokens ::
    "(int \<Rightarrow> bytes) \<Rightarrow> string \<Rightarrow> int \<Rightarrow> int \<Rightarrow> int \<Rightarrow> string \<Rightarrow> int \<Rightarrow> int option \<Rightarrow> int option \<Rightarrow> bool \<Rightarrow> (MockTokenBridge, bytes) stateful" where
  "publishTransferTokens bnBuffer tokenAddress tokenChain amount recipientChain recipient fee nonce timestamp uptick =
     s_bind (s_lift (serializeTransferOnly bnBuffer False tokenAddress tokenChain amount recipientChain recipient (Some fee) None)) (\<lambda>serialized.
     publishTokenBridgeMessage serialized nonce timestamp uptick)"

definition publishTransferTokensWithPayload ::
    "(int \<Rightarrow> bytes) \<Rightarrow> string \<Rightarrow> int \<Rightarrow> int \<Rightarrow> int \<Rightarrow> string \<Rightarrow> bytes \<Rightarrow> bytes \<Rightarrow> int option \<Rightarrow> int option \<Rightarrow> bool \<Rightarrow> (MockTokenBridge, bytes) stateful" where
  "publishTransferTokensWithPayload bnBuffer tokenAddress tokenChain amount recipientChain recipient fromAddress payload nonce timestamp uptick =
     s_bind (s_lift (serializeTransferOnly bnBuffer True tokenAddress tokenChain amount recipientChain recipient None (Some fromAddress))) (\<lambda>serialized.
     publishTokenBridgeMessage (serialized @ payload) nonce timestamp uptick)"

definition mock_ethereum_token_bridge :: "addr_lib \<Rightarrow> string \<Rightarrow> int option \<Rightarrow> MockTokenBridge outcome" where
  "mock_ethereum_token_bridge lib emitter startSequence =
     e_bind (tryNativeToHexString lib emitter (ChainNum 2)) (\<lambda>h. mock_token_bridge h 2 15 startSequence)"

definition ethereum_publishAttestMeta ::
    "addr_lib \<Rightarrow> string \<Rightarrow> int \<Rightarrow> text_t option \<Rightarrow> text_t option \<Rightarrow> int option \<Rightarrow> int option \<Rightarrow> bool \<Rightarrow> (MockTokenBridge, bytes) stateful" where
  "ethereum_publishAttestMeta lib tokenAddress decs symbol name nonce timestamp uptick =
     s_bind (s_get meChain) (\<lambda>chain.
     s_bind (s_lift (tryNativeToHexString lib tokenAddress (ChainNum chain))) (\<lambda>h.
     publishAttestMeta h decs (case symbol of None \<Rightarrow> [] | Some s \<Rightarrow> s) (case name of None \<Rightarrow> [] | Some s \<Rightarrow> s) nonce timestamp uptick))"

definition mock_solana_token_bridge :: "addr_lib \<Rightarrow> string \<Rightarrow> MockTokenBridge outcome" where
  "mock_solana_token_bridge lib emitter = e_bind (publicKeyBytes lib emitter) (\<lambda>b. mock_token_bridge (to_hex b) 1 32 None)"

definition solana_publishAttestMeta ::
    "addr_lib \<Rightarrow> string \<Rightarrow> int \<Rightarrow> text_t option \<Rightarrow> text_t option \<Rightarrow> int option \<Rightarrow> int option \<Rightarrow> bool \<Rightarrow> (MockTokenBridge, bytes) stateful" where
  "solana_publishAttestMeta lib mint decs symbol name nonce timestamp uptick =
     s_bind (s_lift (publicKeyBytes lib mint)) (\<lambda>b.
     publishAttestMeta (to_hex b) decs (case symbol of None \<Rightarrow> [] | Some s \<Rightarrow> s) (case name of None \<Rightarrow> [] | Some s \<Rightarrow> s) nonce timestamp uptick)"

subsection \<open>The NFT bridge: \<^verbatim>\<open>nftBridge.ts\<close>\<close>

record MockNftBridge = MockEmitter +
  mnConsistencyLevel :: int

definition mock_nft_bridge :: "string \<Rightarrow> int \<Rightarrow> int \<Rightarrow> MockNftBridge outcome" where
  "mock_nft_bridge emitter chain level =
     e_bind (mock_emitter emitter chain None) (\<lambda>e. Inr (MockEmitter.extend e (MockNftBridge.fields level)))"

definition publishNftBridgeMessage :: "bytes \<Rightarrow> int option \<Rightarrow> int option \<Rightarrow> bool \<Rightarrow> (MockNftBridge, bytes) stateful" where
  "publishNftBridgeMessage serialized nonce timestamp uptick =
     s_bind (s_get mnConsistencyLevel) (\<lambda>level.
     publishMessage (case nonce of None \<Rightarrow> 0 | Some n \<Rightarrow> n) serialized level timestamp uptick)"

definition nft_payload :: "(int \<Rightarrow> bytes) \<Rightarrow> string \<Rightarrow> int \<Rightarrow> text_t \<Rightarrow> text_t \<Rightarrow> int \<Rightarrow> text_t \<Rightarrow> int \<Rightarrow> string \<Rightarrow> bytes outcome" where
  "nft_payload bnBuffer tokenAddress tokenChain name symbol tokenId uri recipientChain recipient =
     (if 200 < utf16_length uri then Inl (mk_error ''uri.length > 200'')
      else
        let uriEnd = 132 + utf16_length uri in
        e_bind (buf_write_be 1 1 0 (buf_alloc (166 + utf16_length uri))) (\<lambda>s.
        e_bind (buf_write_hex tokenAddress 1 s) (\<lambda>s.
        e_bind (buf_write_be 2 tokenChain 33 s) (\<lambda>s.
        e_bind (write_utf8 (substring16 32 symbol) 35 s) (\<lambda>s.
        e_bind (write_utf8 (substring16 32 name) 67 s) (\<lambda>s.
        e_bind (amount_field bnBuffer tokenId 131 s) (\<lambda>s.
        e_bind (buf_write_be 1 (int (utf16_length uri)) 131 s) (\<lambda>s.
        e_bind (write_utf8 uri 132 s) (\<lambda>s.
        e_bind (buf_write_hex recipient (int uriEnd) s) (\<lambda>s.
        buf_write_be 2 recipientChain (uriEnd + 32) s))))))))))"

definition publishTransferNft ::
    "(int \<Rightarrow> bytes) \<Rightarrow> string \<Rightarrow> int \<Rightarrow> text_t \<Rightarrow> text_t \<Rightarrow> int \<Rightarrow> text_t \<Rightarrow> int \<Rightarrow> string \<Rightarrow> int option \<Rightarrow> int option \<Rightarrow> bool \<Rightarrow> (MockNftBridge, bytes) stateful" where
  "publishTransferNft bnBuffer tokenAddress tokenChain name symbol tokenId uri recipientChain recipient nonce timestamp uptick =
     s_bind (s_lift (nft_payload bnBuffer tokenAddress tokenChain name symbol tokenId uri recipientChain recipient)) (\<lambda>serialized.
     publishNftBridgeMessage serialized nonce timestamp uptick)"

definition mock_ethereum_nft_bridge :: "addr_lib \<Rightarrow> string \<Rightarrow> MockNftBridge outcome" where
  "mock_ethereum_nft_bridge lib emitter =
     e_bind (tryNativeToHexString lib emitter (ChainNum 2)) (\<lambda>h. mock_nft_bridge h 2 15)"

definition mock_solana_nft_bridge :: "addr_lib \<Rightarrow> string \<Rightarrow> MockNftBridge outcome" where
  "mock_solana_nft_bridge lib emitter = e_bind (publicKeyBytes lib emitter) (\<lambda>b. mock_nft_bridge (to_hex b) 1 32)"

subsection \<open>Writes over a concatenation of fields\<close>

named_theorems writes \<open>where a write lands in a buffer that is a concatenation of fields\<close>

lemma overlay_skip [writes]: "length a \<le> off \<Longrightarrow> overlay off data (a @ b) = a @ overlay (off - length a) data b"
  by (simp add: overlay_def add.commute)

lemma overlay_inside [writes]: "off + length data \<le> length a \<Longrightarrow> overlay off data (a @ b) = overlay off data a @ b"
  by (simp add: overlay_def)

lemma overlay_zeros [writes]:
  "k + length data \<le> n \<Longrightarrow> overlay k data (buf_alloc n) = buf_alloc k @ data @ buf_alloc (n - k - length data)"
  by (simp add: overlay_def buf_alloc_def min_def)

lemma length_overlay [simp]: "off \<le> length buf \<Longrightarrow> length (overlay off data buf) = length buf"
  by (simp add: overlay_def min_def)

lemma length_buf_alloc [simp]: "length (buf_alloc n) = n"
  by (simp add: buf_alloc_def)

lemma alloc_0 [simp]: "buf_alloc 0 = []"
  by (simp add: buf_alloc_def)

lemma write_be_ok [writes]: "uint_ok n v \<Longrightarrow> off + n \<le> length buf \<Longrightarrow> buf_write_be n v off buf = Inr (overlay off (u_bytes n v) buf)"
  by (simp add: buf_write_be_def uint_ok_def)

lemma write_at_ok [writes]: "0 \<le> off \<Longrightarrow> nat off \<le> length buf \<Longrightarrow> write_at off data buf = Inr (overlay (nat off) data buf)"
  by (auto simp: write_at_def)

lemma write_hex_ok [writes]: "0 \<le> off \<Longrightarrow> nat off \<le> length buf \<Longrightarrow> buf_write_hex (to_hex data) off buf = Inr (overlay (nat off) data buf)"
  by (simp add: buf_write_hex_def write_at_ok)

subsection \<open>The envelope\<close>

definition default0 :: "int option \<Rightarrow> int" where
  "default0 x = (case x of None \<Rightarrow> 0 | Some t \<Rightarrow> t)"

text \<open>The numbers of an emitter fit their fields.\<close>

definition emitter_ok :: "'e MockEmitter_scheme \<Rightarrow> bool" where
  "emitter_ok e \<longleftrightarrow> uint_ok 2 (meChain e) \<and> length (meAddress e) = 32 \<and> uint_ok 8 (meSequence e)"

lemma write_message_bytes:
  assumes "emitter_ok e" "uint_ok 4 (default0 ts)" "uint_ok 4 n" "uint_ok 1 level"
  shows "write_message n payload level ts e =
    Inr (u_bytes 4 (default0 ts) @ u_bytes 4 n @ u_bytes 2 (meChain e) @ meAddress e @ u_bytes 8 (meSequence e) @ u_bytes 1 level @ payload)"
  using assms by (simp add: emitter_ok_def write_message_def writes default0_def[symmetric])

text \<open>What elliptic gives for a signer: at most 64 hexadecimal digits each, and a recovery parameter of one byte.\<close>

definition hex64_ok :: "string \<Rightarrow> bool" where
  "hex64_ok r \<longleftrightarrow> length r \<le> 64 \<and> set r \<subseteq> set hex_digits"

definition signer_ok :: "elliptic \<Rightarrow> bytes \<Rightarrow> Guardian \<Rightarrow> bool" where
  "signer_ok ec hash x \<longleftrightarrow> uint_ok 1 (guIndex x) \<and> (case ec (guKey x) hash of (r, s, p) \<Rightarrow> hex64_ok r \<and> hex64_ok s \<and> uint_ok 1 p)"

definition mock_sig :: "elliptic \<Rightarrow> bytes \<Rightarrow> Guardian \<Rightarrow> VaaSignature" where
  "mock_sig ec hash x =
     (case ec (guKey x) hash of (r, s, p) \<Rightarrow>
        \<lparr>vsGuardianSetIndex = guIndex x,
         vsSignature = pad_start 64 CHR ''0'' r @ pad_start 64 CHR ''0'' s @ to_hex (u_bytes 1 p)\<rparr>)"

lemma hex64:
  assumes "hex64_ok r"
  obtains b where "pad_start 64 CHR ''0'' r = to_hex b" "length b = 32"
proof -
  let ?p = "pad_start 64 CHR ''0'' r"
  have "CHR ''0'' \<in> set hex_digits" by (simp add: hex_digits_def)
  then have d: "set ?p \<subseteq> set hex_digits" and l: "length ?p = 64" using assms by (auto simp: hex64_ok_def pad_start_def)
  have "digit_val 16 c \<noteq> None" if "c \<in> set hex_digits" for c
    using that by (auto simp: in_set_conv_nth digit_val_hex_digit hex_digits_def[THEN arg_cong[of _ _ length]])
  with d l have h: "hex_string ?p" by (auto simp: hex_string_def list_all_iff)
  moreover have "map to_lower ?p = ?p" using d by (intro map_idI to_lower_hex_digits) auto
  ultimately have "?p = to_hex (from_hex ?p)" by (simp add: to_hex_from_hex)
  moreover have "length (from_hex ?p) = 32" using h l by (simp add: length_from_hex)
  ultimately show thesis by (rule that)
qed

lemma write_one_signature:
  assumes "signer_ok ec hash x" "length hash = 32" "length pre = start"
  shows "sig_ok (mock_sig ec hash x)"
    "write_mock_signature ec hash start x (pre @ buf_alloc 66 @ post) = Inr (pre @ sig_bytes (mock_sig ec hash x) @ post)"
proof -
  obtain r s p where e: "ec (guKey x) hash = (r, s, p)" by (cases "ec (guKey x) hash")
  with assms(1) have ok: "uint_ok 1 (guIndex x)" "hex64_ok r" "hex64_ok s" "uint_ok 1 p" by (simp_all add: signer_ok_def)
  obtain rb where rb: "pad_start 64 CHR ''0'' r = to_hex rb" "length rb = 32" using ok(2) by (rule hex64)
  obtain sb where sb: "pad_start 64 CHR ''0'' s = to_hex sb" "length sb = 32" using ok(3) by (rule hex64)
  have v: "vsSignature (mock_sig ec hash x) = to_hex (rb @ sb @ u_bytes 1 p)" "vsGuardianSetIndex (mock_sig ec hash x) = guIndex x"
    by (simp_all add: mock_sig_def e rb sb to_hex_append)
  show "sig_ok (mock_sig ec hash x)" using ok rb(2) sb(2) by (simp add: sig_ok_def v)
  show "write_mock_signature ec hash start x (pre @ buf_alloc 66 @ post) = Inr (pre @ sig_bytes (mock_sig ec hash x) @ post)"
    using ok assms(2,3) rb(2) sb(2)
    by (simp add: write_mock_signature_def ethSignWithPrivate_def e rb(1) sb(1) writes sig_bytes_def v)
qed

lemma alloc_add: "buf_alloc (m + n) = buf_alloc m @ buf_alloc n"
  by (simp add: buf_alloc_def replicate_add)

lemma write_all_signatures:
  assumes "list_all (signer_ok ec hash) gs" "length hash = 32" "length pre = start"
  shows "write_mock_signatures ec hash start gs (pre @ buf_alloc (66 * length gs) @ post) = Inr (pre @ concat (map (\<lambda>x. sig_bytes (mock_sig ec hash x)) gs) @ post)"
  using assms
proof (induction gs arbitrary: start pre)
  case (Cons x gs)
  then have x: "signer_ok ec hash x" by simp
  let ?sig = "sig_bytes (mock_sig ec hash x)"
  have l: "length (pre @ ?sig) = start + 66" using sig_read(3)[OF write_one_signature(1)[OF x Cons.prems(2,3)]] Cons.prems(3) by simp
  have "write_mock_signature ec hash start x (pre @ buf_alloc 66 @ buf_alloc (66 * length gs) @ post) = Inr (pre @ ?sig @ buf_alloc (66 * length gs) @ post)"
    by (rule write_one_signature(2)[OF x Cons.prems(2,3)])
  moreover have "write_mock_signatures ec hash (start + 66) gs (pre @ ?sig @ buf_alloc (66 * length gs) @ post)
      = Inr (pre @ ?sig @ concat (map (\<lambda>x. sig_bytes (mock_sig ec hash x)) gs) @ post)"
    using Cons.IH[OF _ Cons.prems(2) l] Cons.prems(1) by simp
  ultimately show ?case by (simp add: alloc_add)
qed simp

text \<open>The message of a mock emitter as the value the generic serialiser takes; \<open>chosen\<close> are the guardians that sign it.\<close>

definition mock_body :: "'e MockEmitter_scheme \<Rightarrow> int \<Rightarrow> int option \<Rightarrow> int \<Rightarrow> Payload \<Rightarrow> Payload VAA" where
  "mock_body e n ts level p =
     \<lparr>vVersion = 1, vGuardianSetIndex = 0, vSignatures = [], vTimestamp = default0 ts, vNonce = n, vEmitterChain = meChain e,
      vEmitterAddress = ''0x'' @ to_hex (meAddress e), vSequence = meSequence e, vConsistencyLevel = level, vPayload = p\<rparr>"

definition chosen :: "int list \<Rightarrow> MockGuardians \<Rightarrow> Guardian list" where
  "chosen idx g = filter (\<lambda>x. guIndex x \<in> set idx) (signers g)"

definition mock_digest :: "(bytes \<Rightarrow> bytes) \<Rightarrow> Payload VAA \<Rightarrow> bytes" where
  "mock_digest keccak256 v = keccak256 (keccak256 (body_bytes v))"

definition mock_signed :: "elliptic \<Rightarrow> (bytes \<Rightarrow> bytes) \<Rightarrow> int list \<Rightarrow> MockGuardians \<Rightarrow> Payload VAA \<Rightarrow> Payload VAA" where
  "mock_signed ec keccak256 idx g v =
     v\<lparr>vGuardianSetIndex := setIndex g, vSignatures := map (mock_sig ec (mock_digest keccak256 v)) (chosen idx g)\<rparr>"

definition guardians_ok :: "elliptic \<Rightarrow> bytes \<Rightarrow> int list \<Rightarrow> MockGuardians \<Rightarrow> bool" where
  "guardians_ok ec hash idx g \<longleftrightarrow>
     idx \<noteq> [] \<and> length hash = 32 \<and> uint_ok 4 (setIndex g) \<and> length (chosen idx g) < 256 \<and> list_all (signer_ok ec hash) (chosen idx g)"

lemma body_bytes_signed: "body_bytes (mock_signed ec keccak256 idx g v) = body_bytes v"
  by (simp add: body_bytes_def mock_signed_def)

lemma addSignatures_bytes:
  assumes "guardians_ok ec (mock_digest keccak256 v) idx g" and "vVersion v = 1"
  shows "addSignatures ec keccak256 (body_bytes v) idx g = Inr (vaa_bytes (mock_signed ec keccak256 idx g v))"
proof -
  let ?n = "length (chosen idx g)" and ?pre = "u_bytes 1 1 @ u_bytes 4 (setIndex g) @ u_bytes 1 (int (length (chosen idx g)))"
  have ok: "uint_ok 1 (int ?n)" "uint_ok 4 (setIndex g)" "uint_ok 1 1" "idx \<noteq> []" "length (mock_digest keccak256 v) = 32"
    "list_all (signer_ok ec (mock_digest keccak256 v)) (chosen idx g)"
    using assms(1) by (auto simp: guardians_ok_def vaa_parts)
  have z: "buf_alloc (6 + 66 * ?n + length (body_bytes v)) = buf_alloc 6 @ buf_alloc (66 * ?n) @ buf_alloc (length (body_bytes v))"
    by (simp add: alloc_add)
  have "addSignatures ec keccak256 (body_bytes v) idx g =
      write_mock_signatures ec (mock_digest keccak256 v) 6 (chosen idx g) (?pre @ buf_alloc (66 * ?n) @ body_bytes v)"
    using ok unfolding addSignatures_def chosen_def[symmetric] Let_def z mock_digest_def[symmetric]
    by (simp add: writes)
  also have "\<dots> = Inr (?pre @ concat (map (\<lambda>x. sig_bytes (mock_sig ec (mock_digest keccak256 v) x)) (chosen idx g)) @ body_bytes v)"
    by (rule write_all_signatures[OF ok(6,5)]) simp
  also have "\<dots> = Inr (vaa_bytes (mock_signed ec keccak256 idx g v))"
    unfolding vaa_bytes_def body_bytes_signed by (simp add: mock_signed_def assms(2) comp_def)
  finally show ?thesis .
qed

lemma mock_vaa_ok:
  assumes "guardians_ok ec (mock_digest keccak256 v) idx g" "v = mock_body e n ts level p"
    and "emitter_ok e" "uint_ok 4 (default0 ts)" "uint_ok 4 n" "uint_ok 1 level" "payload_ok p"
  shows "vaa_ok (mock_signed ec keccak256 idx g v)"
proof -
  have "list_all sig_ok (map (mock_sig ec (mock_digest keccak256 v)) (chosen idx g))"
    using assms(1) write_one_signature(1)[where pre = "[]"] by (auto simp: guardians_ok_def list_all_iff)
  moreover have "addr_ok (''0x'' @ to_hex (meAddress e))" using assms(3) by (simp add: emitter_ok_def addr_ok_def hex0x_ok_def addr_bytes_def)
  ultimately show ?thesis
    using assms by (simp add: vaa_ok_def mock_signed_def mock_body_def guardians_ok_def emitter_ok_def vaa_parts)
qed

definition after_publish :: "bool \<Rightarrow> 'e MockEmitter_scheme \<Rightarrow> 'e MockEmitter_scheme" where
  "after_publish uptick e = (if uptick then e\<lparr>meSequence := dbl (meSequence e + 1)\<rparr> else e)"

lemma publish_bytes:
  assumes "emitter_ok (after_publish uptick e)" "uint_ok 4 (default0 ts)" "uint_ok 4 n" "uint_ok 1 level"
  shows "publishMessage n (payload_bytes p) level ts uptick e = (Inr (body_bytes (mock_body (after_publish uptick e) n ts level p)), after_publish uptick e)"
  using write_message_bytes[OF assms]
  by (simp add: publishMessage_def Let_def after_publish_def[symmetric] body_bytes_def mock_body_def addr_bytes_def)

subsection \<open>Payloads\<close>

text \<open>Documented behaviour of \<^verbatim>\<open>BN\<close>: \<^verbatim>\<open>toBuffer()\<close> gives the big-endian bytes of the number, no more than it needs.\<close>

definition bn_buffer_ok :: "(int \<Rightarrow> bytes) \<Rightarrow> bool" where
  "bn_buffer_ok bnBuffer \<longleftrightarrow> (\<forall>x. uint_ok 32 x \<longrightarrow> length (bnBuffer x) \<le> 32 \<and> int (be_decode (bnBuffer x)) = x)"

lemma be_decode_zeros: "be_decode (buf_alloc k @ b) = be_decode b"
proof -
  have "foldl (\<lambda>acc b. acc * 256 + unat b) 0 (buf_alloc k) = 0" by (induction k) (simp_all add: buf_alloc_def)
  then show ?thesis by (simp add: be_decode_def)
qed

lemma bn_padded:
  assumes "bn_buffer_ok bnBuffer" "uint_ok 32 x"
  shows "buf_alloc (32 - length (bnBuffer x)) @ bnBuffer x = u_bytes 32 x" "length (bnBuffer x) \<le> 32"
proof -
  show l: "length (bnBuffer x) \<le> 32" using assms by (simp add: bn_buffer_ok_def)
  let ?b = "buf_alloc (32 - length (bnBuffer x)) @ bnBuffer x"
  have "be_decode ?b = nat x" using assms by (auto simp: bn_buffer_ok_def be_decode_zeros)
  with be_encode_decode[of ?b] l show "?b = u_bytes 32 x" by simp
qed

lemma overlay_padded:
  assumes "take (length a) (drop off c) = a"
  shows "overlay (off + length a) b c = overlay off (a @ b) c"
proof -
  have "length a \<le> length c - off" using arg_cong[OF assms, of length] by simp
  with assms show ?thesis by (simp add: overlay_def take_add add.assoc)
qed

lemma amount_field_ok [writes]:
  assumes "bn_buffer_ok bnBuffer" "uint_ok 32 x" "32 \<le> fin" "fin \<le> length buf" "take 32 (drop (fin - 32) buf) = buf_alloc 32"
  shows "amount_field bnBuffer x fin buf = Inr (overlay (fin - 32) (u_bytes 32 x) buf)"
proof -
  let ?b = "bnBuffer x"
  note l = bn_padded[OF assms(1,2)]
  let ?z = "buf_alloc (32 - length ?b)"
  have "take (32 - length ?b) (take 32 (drop (fin - 32) buf)) = ?z" unfolding assms(5) by (simp add: buf_alloc_def min_def)
  then have "take (length ?z) (drop (fin - 32) buf) = ?z" by (simp add: min_def)
  then have "overlay (fin - 32 + length ?z) ?b buf = overlay (fin - 32) (?z @ ?b) buf"
    by (rule overlay_padded)
  moreover have "nat (int fin - int (length ?b)) = fin - 32 + length ?z" using l(2) assms(3) by simp
  ultimately show ?thesis
    using l assms(3,4) by (simp add: amount_field_def buf_write_hex_def write_at_def Let_def)
qed

lemma take_alloc [simp]: "take k (buf_alloc n) = buf_alloc (min k n)" and drop_alloc [simp]: "drop k (buf_alloc n) = buf_alloc (n - k)"
  by (simp_all add: buf_alloc_def)

lemma transfer_payload:
  assumes "bn_buffer_ok bnBuffer" and "payload_ok (PTransfer q)"
  shows "serializeTransferOnly bnBuffer False (to_hex (addr_bytes (tbTokenAddress q))) (tbTokenChain q) (tbAmount q) (tbChain q)
      (to_hex (addr_bytes (tbToAddress q))) (Some (tbFee q)) None = Inr (payload_bytes (PTransfer q))"
  using assms by (simp add: serializeTransferOnly_def writes vaa_parts)

lemma transfer_with_payload:
  assumes "bn_buffer_ok bnBuffer" and "payload_ok (PTransferWithPayload q)"
  shows "\<exists>s. serializeTransferOnly bnBuffer True (to_hex (addr_bytes (twTokenAddress q))) (twTokenChain q) (twAmount q) (twChain q)
      (to_hex (addr_bytes (twToAddress q))) None (Some (addr_bytes (twFromAddress q))) = Inr s
    \<and> s @ addr_bytes (twPayload q) = payload_bytes (PTransferWithPayload q)"
  using assms by (simp add: serializeTransferOnly_def writes vaa_parts)

lemma fit_all: "length (utf8_bytes s) \<le> n \<Longrightarrow> fit_chars n s = s"
  by (induction s arbitrary: n) (auto simp: utf8_bytes_length)

lemma substring_all: "utf16_length s \<le> n \<Longrightarrow> substring16 n s = s"
  by (induction s arbitrary: n) (auto simp: utf16_length_def split: if_splits)

lemma write_utf8_ok [writes]:
  "0 \<le> off \<Longrightarrow> nat off + length (utf8_bytes s) \<le> length buf \<Longrightarrow> write_utf8 s off buf = Inr (overlay (nat off) (utf8_bytes s) buf)"
  by (simp add: write_utf8_def fit_all nat_diff_distrib' write_at_ok)

lemma governance_bytes:
  assumes "text32_ok m" "list_all (\<lambda>c. c < 0x80) m" "uint_ok 1 act" "uint_ok 2 chain"
  shows "governance_payload m payload act chain = Inr (text32 m @ u_bytes 1 act @ u_bytes 2 chain @ payload)"
proof -
  have u: "utf16_length m = length (utf8_bytes m)" using assms(2) by (simp add: lengths_agree_iff)
  have l: "length (utf8_bytes m) \<le> 32" using assms(1) by (simp add: text32_ok_def)
  have "write_utf8 m (32 - int (utf16_length m)) (buf_alloc 32) = Inr (text32 m)"
    using l by (simp add: u writes nat_diff_distrib' text32_def) (simp add: buf_alloc_def)
  with assms l show ?thesis by (simp add: governance_payload_def writes text32_def nat_diff_distrib')
qed

text \<open>The names of a token are aligned to the left, with zero bytes behind.\<close>

definition text_left :: "text_t \<Rightarrow> bytes" where
  "text_left s = utf8_bytes s @ buf_alloc (32 - length (utf8_bytes s))"

lemma text_left_read: "text32_ok s \<Longrightarrow> strip_nul (utf8_text (text_left s)) = s"
  by (simp add: text32_ok_def text_left_def buf_alloc_def name_padded_behind)

lemma length_text_left [simp]: "text32_ok s \<Longrightarrow> length (text_left s) = 32"
  by (simp add: text32_ok_def text_left_def)

lemma substring_text32: "text32_ok s \<Longrightarrow> substring16 32 s = s"
  using utf16_le_utf8[of s] by (intro substring_all) (simp add: text32_ok_def)

lemma write_text_left [writes]:
  assumes "text32_ok s" "0 \<le> off" "nat off + 32 \<le> length buf" "take 32 (drop (nat off) buf) = buf_alloc 32"
  shows "write_utf8 s off buf = Inr (overlay (nat off) (text_left s) buf)"
proof -
  let ?u = "utf8_bytes s" and ?z = "buf_alloc (32 - length (utf8_bytes s))"
  have l: "length ?u \<le> 32" using assms(1) by (simp add: text32_ok_def)
  have "drop (length ?u) (take 32 (drop (nat off) buf)) = ?z" unfolding assms(4) by simp
  then have t: "take (32 - length ?u) (drop (nat off + length ?u) buf) = ?z" by (simp add: drop_take add.commute)
  have e: "32 - length ?u + (nat off + length ?u) = nat off + 32" using l by simp
  have d: "drop (nat off + length ?u) buf = ?z @ drop (nat off + 32) buf"
    using append_take_drop_id[of "32 - length ?u" "drop (nat off + length ?u) buf"] unfolding t drop_drop e by simp
  have "overlay (nat off) ?u buf = overlay (nat off) (text_left s) buf"
    using l assms(3) by (simp add: overlay_def d text_left_def)
  with l assms(2,3) show ?thesis by (simp add: write_utf8_ok)
qed

lemma attest_bytes:
  assumes "payload_ok (PAttestMeta q)"
  shows "attest_payload (atTokenChain q) (to_hex (addr_bytes (atTokenAddress q))) (atDecimals q) (atSymbol q) (atName q) =
    Inr (u_bytes 1 2 @ addr_bytes (atTokenAddress q) @ u_bytes 2 (atTokenChain q) @ u_bytes 1 (atDecimals q) @ text_left (atSymbol q) @ text_left (atName q))"
  using assms by (simp add: attest_payload_def Let_def substring_text32 writes vaa_parts)

lemma nft_bytes:
  assumes "bn_buffer_ok bnBuffer" "payload_ok (PNFTTransfer q)" "list_all (\<lambda>c. c < 0x80) (nbTokenURI q)" "utf16_length (nbTokenURI q) \<le> 200"
  shows "nft_payload bnBuffer (to_hex (addr_bytes (nbTokenAddress q))) (nbTokenChain q) (nbTokenName q) (nbTokenSymbol q) (nbTokenId q) (nbTokenURI q)
      (nbChain q) (to_hex (addr_bytes (nbToAddress q))) =
    Inr (u_bytes 1 1 @ addr_bytes (nbTokenAddress q) @ u_bytes 2 (nbTokenChain q) @ text_left (nbTokenSymbol q) @ text_left (nbTokenName q)
      @ u_bytes 32 (nbTokenId q) @ u_bytes 1 (int (utf16_length (nbTokenURI q))) @ utf8_bytes (nbTokenURI q) @ addr_bytes (nbToAddress q) @ u_bytes 2 (nbChain q))"
proof -
  have u: "utf16_length (nbTokenURI q) = length (utf8_bytes (nbTokenURI q))" using assms(3) by (simp add: lengths_agree_iff)
  with assms show ?thesis by (simp add: nft_payload_def Let_def substring_text32 writes vaa_parts)
qed

subsection \<open>What is published and signed\<close>

lemma signed_mock_message:
  assumes "ethers_ok eth" "emitter_ok e'" "uint_ok 4 (default0 ts)" "uint_ok 4 n" "uint_ok 1 level" "payload_ok p"
    and "v = mock_body e' n ts level p" "guardians_ok ec (mock_digest keccak256 v) idx g" "w = mock_signed ec keccak256 idx g v"
  shows "addSignatures ec keccak256 (body_bytes v) idx g = Inr (vaa_bytes w)" "serialiseVAA eth w = Inr (to_hex (vaa_bytes w))"
    "parseVaa keccak256 (vaa_bytes w) = Inr (as_parsed keccak256 w)" "vaaPayload (as_parsed keccak256 w) = payload_bytes p"
proof -
  have ok: "vaa_ok w" unfolding assms(9) by (rule mock_vaa_ok[OF assms(8,7,2-6)])
  show "addSignatures ec keccak256 (body_bytes v) idx g = Inr (vaa_bytes w)"
    unfolding assms(9) by (rule addSignatures_bytes[OF assms(8)]) (simp add: assms(7) mock_body_def)
  show "serialiseVAA eth w = Inr (to_hex (vaa_bytes w))" "parseVaa keccak256 (vaa_bytes w) = Inr (as_parsed keccak256 w)"
    using serialiseVAA_bytes[OF assms(1) ok] parse_vaa_bytes[OF ok] by simp_all
  show "vaaPayload (as_parsed keccak256 w) = payload_bytes p" by (simp add: as_parsed_def assms(7,9) mock_signed_def mock_body_def)
qed

text \<open>The call that publishes a transfer with given contents.\<close>

fun publish_transfer :: "(int \<Rightarrow> bytes) \<Rightarrow> Payload \<Rightarrow> int option \<Rightarrow> int option \<Rightarrow> bool \<Rightarrow> (MockTokenBridge, bytes) stateful" where
  "publish_transfer bnBuffer (PTransfer q) n ts uptick =
     publishTransferTokens bnBuffer (to_hex (addr_bytes (tbTokenAddress q))) (tbTokenChain q) (tbAmount q) (tbChain q)
       (to_hex (addr_bytes (tbToAddress q))) (tbFee q) n ts uptick"
| "publish_transfer bnBuffer (PTransferWithPayload q) n ts uptick =
     publishTransferTokensWithPayload bnBuffer (to_hex (addr_bytes (twTokenAddress q))) (twTokenChain q) (twAmount q) (twChain q)
       (to_hex (addr_bytes (twToAddress q))) (addr_bytes (twFromAddress q)) (addr_bytes (twPayload q)) n ts uptick"
| "publish_transfer bnBuffer p n ts uptick = s_throw (mk_error [])"

lemma token_bridge_message:
  "publishTokenBridgeMessage b n ts uptick e = publishMessage (default0 n) b (mtConsistencyLevel e) ts uptick e"
  by (simp add: publishTokenBridgeMessage_def default0_def)

lemma publish_transfer_message:
  assumes "bn_buffer_ok bnBuffer" "payload_ok p" "as_transfer p = Some t"
  shows "publish_transfer bnBuffer p n ts uptick e = publishMessage (default0 n) (payload_bytes p) (mtConsistencyLevel e) ts uptick e"
proof -
  consider (plain) q where "p = PTransfer q" | (extra) q where "p = PTransferWithPayload q"
    using assms(3) by (cases p) auto
  then show ?thesis
  proof cases
    case plain
    with transfer_payload[OF assms(1), of q] assms(2) show ?thesis
      by (simp only: publish_transfer.simps publishTransferTokens_def) (simp add: token_bridge_message)
  next
    case extra
    with transfer_with_payload[OF assms(1), of q] assms(2) obtain s where
      "serializeTransferOnly bnBuffer True (to_hex (addr_bytes (twTokenAddress q))) (twTokenChain q) (twAmount q) (twChain q)
        (to_hex (addr_bytes (twToAddress q))) None (Some (addr_bytes (twFromAddress q))) = Inr s"
      "s @ addr_bytes (twPayload q) = payload_bytes p" by blast
    with extra show ?thesis by (simp only: publish_transfer.simps publishTransferTokensWithPayload_def) (simp add: token_bridge_message)
  qed
qed

text \<open>
  The mock token bridge with its guardians and the generic serialiser, written independently of each other, agree: publishing a transfer, with or without a
  payload, and signing it gives exactly the bytes the serialiser gives for the same message, and the parser reads every field of it back.  The sequence number has gone
  up by one.
\<close>

theorem mock_transfer_serialised:
  assumes "ethers_ok eth" "bn_ok bn" "bn_buffer_ok bnBuffer"
    and "e' = after_publish uptick e" "emitter_ok e'" "uint_ok 1 (mtConsistencyLevel e)" "uint_ok 4 (default0 n)" "uint_ok 4 (default0 ts)"
    and "payload_ok p" "as_transfer p = Some t" "v = mock_body e' (default0 n) ts (mtConsistencyLevel e) p"
    and "guardians_ok ec (mock_digest keccak256 v) idx g"
  shows "\<exists>vaa. publish_transfer bnBuffer p n ts uptick e = (Inr (body_bytes v), e')
     \<and> addSignatures ec keccak256 (body_bytes v) idx g = Inr vaa
     \<and> serialiseVAA eth (mock_signed ec keccak256 idx g v) = Inr (to_hex vaa)
     \<and> parseTokenTransferVaa keccak256 bn vaa = Inr (as_parsed keccak256 (mock_signed ec keccak256 idx g v), t)"
proof -
  have "publish_transfer bnBuffer p n ts uptick e = (Inr (body_bytes v), e')"
    unfolding publish_transfer_message[OF assms(3,9,10)] assms(4,11) using assms(4-8) by (intro publish_bytes) simp_all
  moreover note signed_mock_message[OF assms(1,5,8,7,6,9,11,12) refl]
  moreover have "parseTokenTransferPayload bn (payload_bytes p) = Inr t" using parse_transfer[OF assms(2,9,10)] .
  ultimately show ?thesis by (simp add: parseTokenTransferVaa_def)
qed

definition demo_bn_buffer :: "int \<Rightarrow> bytes" where
  "demo_bn_buffer x = (let d = dropWhile (\<lambda>b. b = 0) (u_bytes 32 x) in if d = [] then [0] else d)"

lemma be_decode_strip: "be_decode (dropWhile (\<lambda>b. b = 0) bs) = be_decode bs"
proof -
  have "takeWhile (\<lambda>b. b = 0) bs = buf_alloc (length (takeWhile (\<lambda>b. b = 0) bs))"
    unfolding buf_alloc_def by (rule replicate_eqI) (auto dest: set_takeWhileD)
  then show ?thesis using be_decode_zeros takeWhile_dropWhile_id by metis
qed

lemma demo_bn_buffer_ok: "bn_buffer_ok demo_bn_buffer"
proof -
  have "length (demo_bn_buffer x) \<le> 32 \<and> int (be_decode (demo_bn_buffer x)) = x" if "uint_ok 32 x" for x
  proof -
    let ?u = "u_bytes 32 x"
    have "length (dropWhile (\<lambda>b. b = 0) ?u) \<le> 32" using length_dropWhile_le[of _ ?u] by simp
    moreover have "be_decode (dropWhile (\<lambda>b. b = 0) ?u) = nat x"
      using uint_nat[OF that] by (simp add: be_decode_strip be_decode_encode del: be_encode.simps)
    moreover have "be_decode [0] = 0" by (simp add: be_decode_def)
    ultimately show ?thesis
      using that by (cases "dropWhile (\<lambda>b. b = 0) ?u = []") (simp_all add: demo_bn_buffer_def Let_def uint_ok_def del: dropWhile_eq_Nil_conv)
  qed
  then show ?thesis by (simp add: bn_buffer_ok_def)
qed

definition demo_token_bridge :: MockTokenBridge where
  "demo_token_bridge = \<lparr>meChain = 2, meAddress = replicate 32 5, meSequence = 41, mtConsistencyLevel = 15\<rparr>"

definition demo_mock_transfer :: Payload where
  "demo_mock_transfer =
     PTransfer \<lparr>tbAmount = 1000, tbTokenAddress = demo_address, tbTokenChain = 2, tbToAddress = demo_address, tbChain = 21, tbFee = 0\<rparr>"

definition demo_mock_guardians :: MockGuardians where
  "demo_mock_guardians = mock_guardians 3 [''k0'', ''k1'']"

definition demo_ec :: elliptic where
  "demo_ec key hash = (''abc'', ''7'', 1)"

definition demo_hash32 :: "bytes \<Rightarrow> bytes" where
  "demo_hash32 b = replicate 32 9"

lemma demo_mock_ok:
  "emitter_ok (after_publish True demo_token_bridge)" "uint_ok 1 (mtConsistencyLevel demo_token_bridge)" "uint_ok 4 (default0 None)"
  "payload_ok demo_mock_transfer" "guardians_ok demo_ec (replicate 32 9) [1] demo_mock_guardians"
  "meSequence (after_publish True demo_token_bridge) = 42"
  using demo_address_ok
  by (simp_all add: emitter_ok_def after_publish_def demo_token_bridge_def uint_ok_def max_safe_def default0_def demo_mock_transfer_def
      guardians_ok_def chosen_def demo_mock_guardians_def mock_guardians_def signer_ok_def demo_ec_def hex64_ok_def hex_digits_def upt_rec)

theorem mock_transfer_serialised_witness:
  "\<exists>vaa v t. fst (publish_transfer demo_bn_buffer demo_mock_transfer None None True demo_token_bridge) = Inr (body_bytes v)
     \<and> vSequence v = 42 \<and> addSignatures demo_ec demo_hash32 (body_bytes v) [1] demo_mock_guardians = Inr vaa
     \<and> parseTokenTransferVaa demo_hash32 be_decode vaa = Inr (as_parsed demo_hash32 (mock_signed demo_ec demo_hash32 [1] demo_mock_guardians v), t)
     \<and> ttAmount t = 1000"
proof -
  obtain t where t: "as_transfer demo_mock_transfer = Some t" "ttAmount t = 1000" by (simp add: demo_mock_transfer_def)
  let ?v = "mock_body (after_publish True demo_token_bridge) (default0 None) None (mtConsistencyLevel demo_token_bridge) demo_mock_transfer"
  have g: "guardians_ok demo_ec (mock_digest demo_hash32 ?v) [1] demo_mock_guardians"
    using demo_mock_ok(5) by (simp add: mock_digest_def demo_hash32_def)
  have "vSequence ?v = 42" using demo_mock_ok(6) by (simp add: mock_body_def)
  with mock_transfer_serialised[OF demo_ethers_ok be_decode_bn_ok demo_bn_buffer_ok refl demo_mock_ok(1,2,3,3,4) t(1) refl g] t(2)
  show ?thesis by fastforce
qed

subsection \<open>Governance messages\<close>

text \<open>
  \<open>gov_order lib ts uptick p op\<close>: the call \<open>op\<close> orders what the payload \<open>p\<close> describes, with the address given in the native form of its chain.
\<close>

inductive gov_order :: "addr_lib \<Rightarrow> int \<Rightarrow> bool \<Rightarrow> Payload \<Rightarrow> ('e MockEmitter_scheme, bytes) stateful \<Rightarrow> bool" for lib ts uptick where
  guardian_set: "gsuChain q = 0 \<Longrightarrow> list_all (\<lambda>h. length (from_hex h) = 20) (newGuardianSet q) \<Longrightarrow>
     gov_order lib ts uptick (PGuardianSetUpgrade q)
       (publishWormholeGuardianSetUpgrade ts (newGuardianSetIndex q) (map from_hex (newGuardianSet q)) uptick)"
| core_upgrade: "tryNativeToHexString lib a (ChainNum (cuChain q)) = Inr (to_hex (addr_bytes (cuAddress q))) \<Longrightarrow>
     gov_order lib ts uptick (PCoreContractUpgrade q) (publishWormholeUpgradeContract lib ts (cuChain q) a uptick)"
| token_upgrade: "tryNativeToHexString lib a (ChainNum (cuChain q)) = Inr (to_hex (addr_bytes (cuAddress q))) \<Longrightarrow>
     gov_order lib ts uptick (PPortalContractUpgrade TokenBridge q) (publishTokenBridgeUpgradeContract lib ts (cuChain q) a uptick)"
| token_register: "rcChain q = 0 \<Longrightarrow> tryNativeToHexString lib a (ChainNum (rcEmitterChain q)) = Inr (to_hex (addr_bytes (rcEmitterAddress q))) \<Longrightarrow>
     gov_order lib ts uptick (PPortalRegisterChain TokenBridge q) (publishTokenBridgeRegisterChain lib ts (rcEmitterChain q) a uptick)"
| nft_register: "rcChain q = 0 \<Longrightarrow> tryNativeToHexString lib a (ChainNum (rcEmitterChain q)) = Inr (to_hex (addr_bytes (rcEmitterAddress q))) \<Longrightarrow>
     gov_order lib ts uptick (PPortalRegisterChain NFTBridge q) (publishNftBridgeRegisterChain lib ts (rcEmitterChain q) a uptick)"

lemma write_all_keys:
  "list_all (\<lambda>k. length k = 20) ks \<Longrightarrow> length pre = off \<Longrightarrow> write_keys off ks (pre @ buf_alloc (20 * length ks)) = Inr (pre @ concat ks)"
proof (induction ks arbitrary: off pre)
  case (Cons k ks)
  then have "write_keys (off + 20) ks ((pre @ k) @ buf_alloc (20 * length ks)) = Inr ((pre @ k) @ concat ks)" by (intro Cons.IH) simp_all
  with Cons.prems show ?case by (simp add: writes alloc_add)
qed simp

lemma ascii_names [simp]:
  "list_all (\<lambda>c. c < 0x80) (ascii_text ''Core'')" "list_all (\<lambda>c. c < 0x80) (ascii_text ''TokenBridge'')" "list_all (\<lambda>c. c < 0x80) (ascii_text ''NFTBridge'')"
  by (simp_all add: ascii_text_def)

lemma bridge_names_ok: "text32_ok (ascii_text ''TokenBridge'')" "text32_ok (ascii_text ''NFTBridge'')"
  using names_ok(2)[of TokenBridge] names_ok(2)[of NFTBridge] by simp_all

lemma governance_message:
  assumes "text32_ok m" "list_all (\<lambda>c. c < 0x80) m" "uint_ok 1 act" "uint_ok 2 chain"
  shows "publishGovernanceMessage ts m payload act chain uptick e =
    publishMessage 0 (text32 m @ u_bytes 1 act @ u_bytes 2 chain @ payload) 1 (Some ts) uptick e"
  by (simp add: publishGovernanceMessage_def governance_bytes[OF assms])

lemma contract_bytes:
  "tryNativeToHexString lib a (ChainNum c) = Inr (to_hex b) \<Longrightarrow> length b = 32 \<Longrightarrow> contract_payload lib a c = Inr b"
  by (simp add: contract_payload_def writes)

lemma register_bytes:
  "tryNativeToHexString lib a (ChainNum c) = Inr (to_hex b) \<Longrightarrow> length b = 32 \<Longrightarrow> uint_ok 2 c \<Longrightarrow> register_payload lib c a = Inr (u_bytes 2 c @ b)"
  by (simp add: register_payload_def writes)

lemma zero_uint: "uint_ok n 0"
  by (simp add: uint_ok_def)

lemma gov_order_message:
  assumes "gov_order lib ts uptick p op" and "payload_ok p"
  shows "op e = publishMessage 0 (payload_bytes p) 1 (Some ts) uptick e"
  using assms
proof cases
  case (guardian_set q)
  let ?ks = "map from_hex (newGuardianSet q)"
  have n: "uint_ok 4 (newGuardianSetIndex q)" "uint_ok 1 (int (length ?ks))" using assms(2) guardian_set by (simp_all add: vaa_parts)
  have "write_keys 5 ?ks ((u_bytes 4 (newGuardianSetIndex q) @ u_bytes 1 (int (length ?ks))) @ buf_alloc (20 * length ?ks))
      = Inr ((u_bytes 4 (newGuardianSetIndex q) @ u_bytes 1 (int (length ?ks))) @ concat ?ks)"
    using guardian_set by (intro write_all_keys) (simp_all add: list_all_iff)
  with n guardian_set show ?thesis
    by (simp add: publishWormholeGuardianSetUpgrade_def writes alloc_add governance_message names_ok vaa_parts zero_uint)
next
  case core_upgrade
  with assms(2) show ?thesis
    by (simp add: publishWormholeUpgradeContract_def contract_bytes governance_message names_ok vaa_parts)
next
  case token_upgrade
  with assms(2) show ?thesis
    by (simp add: publishTokenBridgeUpgradeContract_def contract_bytes governance_message bridge_names_ok vaa_parts)
next
  case token_register
  with assms(2) show ?thesis
    by (simp add: publishTokenBridgeRegisterChain_def register_bytes governance_message bridge_names_ok vaa_parts zero_uint)
next
  case nft_register
  with assms(2) show ?thesis
    by (simp add: publishNftBridgeRegisterChain_def register_bytes governance_message bridge_names_ok vaa_parts zero_uint)
qed

text \<open>
  The same holds for governance: an order published by the mock emitter, with the address of a contract in the native form of its chain, and signed by the mock
  guardians is byte for byte what the generic serialiser writes, and the governance parser reads back module, action, chain and contents.
\<close>

theorem mock_governance_serialised:
  assumes "ethers_ok eth" "gov_order lib ts uptick p op" "payload_ok p" "as_governance p = Some o'"
    and "e' = after_publish uptick e" "emitter_ok e'" "uint_ok 4 ts" "v = mock_body e' 0 (Some ts) 1 p"
    and "guardians_ok ec (mock_digest keccak256 v) idx g"
  shows "\<exists>vaa. op e = (Inr (body_bytes v), e') \<and> addSignatures ec keccak256 (body_bytes v) idx g = Inr vaa
     \<and> serialiseVAA eth (mock_signed ec keccak256 idx g v) = Inr (to_hex vaa)
     \<and> parseGovernanceVaa keccak256 vaa = Inr (as_parsed keccak256 (mock_signed ec keccak256 idx g v), o')"
proof -
  have ts: "uint_ok 4 (default0 (Some ts))" using assms(7) by (simp add: default0_def)
  have "op e = (Inr (body_bytes v), e')"
    unfolding gov_order_message[OF assms(2,3)] assms(5,8)
    using publish_bytes[OF assms(6)[unfolded assms(5)] ts zero_uint small_uints(1)] by simp
  moreover note signed_mock_message[OF assms(1,6) ts zero_uint small_uints(1) assms(3,8,9) refl]
  moreover have "parseGovernancePayload (payload_bytes p) = Inr o'" using parse_governance[OF assms(3,4)] .
  ultimately show ?thesis by (simp add: parseGovernanceVaa_def)
qed

definition demo_gov_emitter :: MockEmitter where
  "demo_gov_emitter = \<lparr>meChain = 1, meAddress = replicate 32 4, meSequence = 6\<rparr>"

definition demo_upgrade :: ContractUpgrade where
  "demo_upgrade = \<lparr>cuChain = 2, cuAddress = ''0x'' @ to_hex (replicate 12 0 @ replicate 20 170)\<rparr>"

theorem mock_governance_serialised_witness:
  "\<exists>vaa v. fst (publishTokenBridgeUpgradeContract demo_addr_lib 1700000000 2 (''0x'' @ replicate 40 CHR ''A'') True demo_gov_emitter) = Inr (body_bytes v)
     \<and> addSignatures demo_ec demo_hash32 (body_bytes v) [0] demo_mock_guardians = Inr vaa
     \<and> map_sum id (orderPayload \<circ> snd) (parseGovernanceVaa demo_hash32 vaa) = Inr (replicate 12 0 @ replicate 20 170)"
proof -
  let ?p = "PPortalContractUpgrade TokenBridge demo_upgrade" and ?e = "after_publish True demo_gov_emitter"
  let ?v = "mock_body ?e 0 (Some 1700000000) 1 ?p"
  have a: "addr_bytes (cuAddress demo_upgrade) = replicate 12 0 @ replicate 20 170" by (simp add: demo_upgrade_def addr_bytes_def)
  have "tryNativeToHexString demo_addr_lib (''0x'' @ replicate 40 CHR ''A'') (ChainNum 2) = Inr (to_hex (addr_bytes (cuAddress demo_upgrade)))"
    unfolding a by code_simp
  then have o: "gov_order demo_addr_lib 1700000000 True ?p (publishTokenBridgeUpgradeContract demo_addr_lib 1700000000 2 (''0x'' @ replicate 40 CHR ''A'') True)"
    using token_upgrade[of demo_addr_lib "''0x'' @ replicate 40 CHR ''A''" demo_upgrade] by (simp add: demo_upgrade_def)
  have p: "payload_ok ?p" by (simp add: demo_upgrade_def uint_ok_def addr_ok_def hex0x_ok_def addr_bytes_def)
  have e: "emitter_ok ?e" "uint_ok 4 1700000000" by (simp_all add: emitter_ok_def after_publish_def demo_gov_emitter_def uint_ok_def max_safe_def)
  have "guardians_ok demo_ec (replicate 32 9) [0] demo_mock_guardians"
    by (simp add: guardians_ok_def chosen_def demo_mock_guardians_def mock_guardians_def signer_ok_def demo_ec_def hex64_ok_def hex_digits_def upt_rec uint_ok_def)
  then have g: "guardians_ok demo_ec (mock_digest demo_hash32 ?v) [0] demo_mock_guardians" by (simp add: mock_digest_def demo_hash32_def)
  obtain o' where o': "as_governance ?p = Some o'" "orderPayload o' = replicate 12 0 @ replicate 20 170" using a by simp
  from mock_governance_serialised[OF demo_ethers_ok o p o'(1) refl e refl g] obtain vaa where
    "fst (publishTokenBridgeUpgradeContract demo_addr_lib 1700000000 2 (''0x'' @ replicate 40 CHR ''A'') True demo_gov_emitter) = Inr (body_bytes ?v)"
    "addSignatures demo_ec demo_hash32 (body_bytes ?v) [0] demo_mock_guardians = Inr vaa"
    "parseGovernanceVaa demo_hash32 vaa = Inr (as_parsed demo_hash32 (mock_signed demo_ec demo_hash32 [0] demo_mock_guardians ?v), o')" by auto
  with o'(2) show ?thesis by (intro exI[of _ vaa] exI[of _ ?v]) simp
qed

text \<open>
  The order to upgrade the NFT bridge converts the address for the chain of the governance emitter, Solana, while its siblings convert it for the chain the
  order is for: for a contract on Ethereum it throws what the base 58 decoder throws.
\<close>

lemma nft_upgrade_wrong_chain:
  assumes "publicKeyBytes lib a = Inl err" and "meChain e = 1"
  shows "publishNftBridgeUpgradeContract lib ts 2 a uptick e = (Inl err, e)"
proof -
  have "coalesceChainId (ChainNum 1) = Some 1" by code_simp
  then have "tryNativeToHexString lib a (ChainNum 1) = Inl err" using assms(1) by (simp add: tryNativeToHexString_def chain_ids not_evm Let_def)
  with assms(2) show ?thesis by (simp add: publishNftBridgeUpgradeContract_def contract_payload_def)
qed

subsection \<open>Names and URIs\<close>

text \<open>An attestation and an NFT transfer with an ASCII URI are read back by their parsers, although the names are aligned to the left.\<close>

lemma attest_parses:
  assumes "payload_ok (PAttestMeta q)" "as_meta (PAttestMeta q) = Some m"
  shows "\<exists>b. attest_payload (atTokenChain q) (to_hex (addr_bytes (atTokenAddress q))) (atDecimals q) (atSymbol q) (atName q) = Inr b
    \<and> parseAttestMetaPayload b = Inr m"
  using assms by (auto simp: attest_bytes parseAttestMetaPayload_def payload_attest_meta_def layout vaa_parts text_left_read)

lemma nft_parses:
  assumes "bn_buffer_ok bnBuffer" "bn_ok bn" "payload_ok (PNFTTransfer q)" "as_nft (PNFTTransfer q) = Some t" "utf16_length (nbTokenURI q) \<le> 200"
  shows "\<exists>b. nft_payload bnBuffer (to_hex (addr_bytes (nbTokenAddress q))) (nbTokenChain q) (nbTokenName q) (nbTokenSymbol q) (nbTokenId q)
      (nbTokenURI q) (nbChain q) (to_hex (addr_bytes (nbToAddress q))) = Inr b \<and> parseNftTransferPayload bn b = Inr t"
proof -
  have a: "list_all (\<lambda>c. c < 0x80) (nbTokenURI q)" using assms(4) by (auto split: if_splits)
  then have "utf16_length (nbTokenURI q) = length (utf8_bytes (nbTokenURI q))" by (simp add: lengths_agree_iff)
  with a assms show ?thesis
    by (auto simp: nft_bytes[OF assms(1,3) a assms(5)] parseNftTransferPayload_def nft_payload_transfer_def Let_def layout vaa_parts
        text_left_read bn_read[OF assms(2)])
qed

text \<open>
  Names are cut to 32 code units, which may be more than 32 bytes: the rest of a longer symbol stays in the field of an empty name, and the rest of a longer name
  in the field of the token id, of which only the last bytes are overwritten.
\<close>

lemma overlay_Nil [writes]: "overlay off [] buf = buf"
  by (simp add: overlay_def)

lemma utf8_bytes_Nil: "utf8_bytes [] = []"
  by (simp add: utf8_bytes_def)

lemma symbol_runs_into_name:
  assumes "length token = 32" "uint_ok 2 chain" "uint_ok 1 d" "utf16_length s \<le> 32" "32 < length (utf8_bytes s)" "length (utf8_bytes s) \<le> 64"
  shows "\<exists>b. attest_payload chain (to_hex token) d s [] = Inr b \<and> subarray b 68 100 = drop 32 (utf8_bytes s) @ buf_alloc (64 - length (utf8_bytes s))"
proof -
  let ?b = "u_bytes 1 2 @ token @ u_bytes 2 chain @ u_bytes 1 d @ utf8_bytes s @ buf_alloc (64 - length (utf8_bytes s))"
  have "attest_payload chain (to_hex token) d s [] = Inr ?b"
    using assms by (simp add: attest_payload_def Let_def substring_all writes vaa_parts utf8_bytes_Nil)
  moreover have "subarray ?b 68 100 = drop 32 (utf8_bytes s) @ buf_alloc (64 - length (utf8_bytes s))"
    using assms by (simp add: subarray_def min_def)
  ultimately show ?thesis by blast
qed

lemma name_runs_into_token_id:
  assumes "length token = 32" "uint_ok 2 chain" "utf16_length s \<le> 32" "32 < length (utf8_bytes s)" "length recipient = 32" "uint_ok 2 toChain"
    and "length (utf8_bytes s) + length (bnBuffer tid) \<le> 64"
  shows "\<exists>b. nft_payload bnBuffer (to_hex token) chain s [] tid [] toChain (to_hex recipient) = Inr b
    \<and> subarray b 99 131 = drop 32 (utf8_bytes s) @ buf_alloc (64 - length (utf8_bytes s) - length (bnBuffer tid)) @ bnBuffer tid"
proof -
  let ?u = "utf8_bytes s" and ?l = "length (bnBuffer tid)"
  let ?b = "u_bytes 1 1 @ token @ u_bytes 2 chain @ buf_alloc 32 @ ?u @ buf_alloc (64 - length ?u - ?l) @ bnBuffer tid @ u_bytes 1 0 @ recipient @ u_bytes 2 toChain"
  have n: "nat (131 - int ?l) = 131 - ?l" by simp
  have m: "67 + length ?u \<le> 131 - ?l" using assms(7) by simp
  have "nft_payload bnBuffer (to_hex token) chain s [] tid [] toChain (to_hex recipient) = Inr ?b"
    using assms m by (simp add: nft_payload_def utf16_length_def[of "[]"] Let_def substring_all amount_field_def n writes vaa_parts utf8_bytes_Nil zero_uint add.commute)
  moreover have "subarray ?b 99 131 = drop 32 ?u @ buf_alloc (64 - length ?u - ?l) @ bnBuffer tid"
    using assms by (auto simp: subarray_def min_def intro: arg_cong[where f = buf_alloc])
  ultimately show ?thesis by blast
qed

text \<open>The generic serialiser aligns the names of a token to the right, so the two writers give different messages, with different digests, for the same attestation.\<close>

lemma attest_writers_differ:
  assumes "payload_ok (PAttestMeta q)" "atSymbol q \<noteq> []" "length (utf8_bytes (atSymbol q)) < 32"
  shows "attest_payload (atTokenChain q) (to_hex (addr_bytes (atTokenAddress q))) (atDecimals q) (atSymbol q) (atName q) \<noteq> Inr (payload_bytes (PAttestMeta q))"
proof -
  obtain c r where s: "atSymbol q = c # r" "c \<noteq> 0" "scalar c" using assms(1,2) by (cases "atSymbol q") (auto simp: text32_ok_def)
  then have "map unat (utf8_bytes (atSymbol q)) = utf8_char c @ concat (map utf8_char r)"
    using assms(1) unat_utf8_bytes[of "atSymbol q"] by (simp add: text32_ok_def)
  moreover have "\<exists>x xs. utf8_char c = x # xs \<and> x \<noteq> 0" using s(2) by (auto simp: utf8_char_def)
  ultimately obtain b bs where u: "utf8_bytes (atSymbol q) = b # bs" "unat b \<noteq> 0" by (cases "utf8_bytes (atSymbol q)") auto
  have "text_left (atSymbol q) ! 0 \<noteq> text32 (atSymbol q) ! 0"
    using u assms(3) by (auto simp: text_left_def text32_def nth_append)
  then have "text_left (atSymbol q) \<noteq> text32 (atSymbol q)" by metis
  with assms(1) show ?thesis by (auto simp: attest_bytes vaa_parts)
qed

end
