(* ===== verification/Big_Varint.thy ===== *)
theory Big_Varint
  imports Buffers
begin

section \<open>Variable-length integers: \<^verbatim>\<open>sdk/js/src/algorand/BigVarint.ts\<close>\<close>

text \<open>
  Integers of any size in groups of seven bits, the lowest first, as the templates of Wormhole's programs on Algorand hold them.  The encoder writes into a buffer that may be given,
  from an offset on, and returns the view of all that follows the offset.
\<close>

declare One_nat_def [simp del]

subsection \<open>Encoding and decoding\<close>

fun encodingLength_loop :: "nat \<Rightarrow> nat" where
  "encodingLength_loop v = (if 0x80 \<le> v then Suc (encodingLength_loop (v div 128)) else 0)"

declare encodingLength_loop.simps [simp del]

definition encodingLength :: "nat \<Rightarrow> nat" where
  "encodingLength v = encodingLength_loop v + 1"

fun varint_loop :: "nat \<Rightarrow> bytes" where
  "varint_loop i = (if 0x7F < i then word_of_nat (i mod 128 + 128) # varint_loop (i div 128) else [word_of_nat i])"

declare varint_loop.simps [simp del]

definition varint_encode :: "int \<Rightarrow> bytes option \<Rightarrow> nat \<Rightarrow> bytes outcome" where
  "varint_encode i buffer byteOffset =
     (if i < 0 then Inl (plain_range_error ''value must be unsigned'')
      else
        let byteLength = encodingLength (nat i); buf = (case buffer of None \<Rightarrow> replicate byteLength 0 | Some b \<Rightarrow> b)
        in if length buf < byteOffset + byteLength then Inl (plain_range_error ''the buffer is too small to encode the number at the offset'')
           else let bs = varint_loop (nat i) in Inr (bs @ drop (length bs) (drop byteOffset buf)))"

definition varint_encodeHex :: "int \<Rightarrow> bytes option \<Rightarrow> nat \<Rightarrow> string outcome" where
  "varint_encodeHex i buffer byteOffset = e_bind (varint_encode i buffer byteOffset) (\<lambda>b. Inr (to_hex b))"

text \<open>\<open>sh\<close> is the number of bytes read so far; the loop ends after a byte below 128.\<close>

fun varint_read :: "bytes \<Rightarrow> nat \<Rightarrow> nat \<Rightarrow> nat outcome" where
  "varint_read [] sh acc = Inl (plain_range_error ''offset out of range'')"
| "varint_read (b # bs) sh acc =
     (let acc' = acc + unat b mod 128 * 2 ^ (sh * 7) in if 0x80 \<le> unat b then varint_read bs (Suc sh) acc' else Inr acc')"

definition varint_decode :: "bytes \<Rightarrow> nat \<Rightarrow> nat outcome" where
  "varint_decode bs offset = varint_read (drop offset bs) 0 0"

subsection \<open>The bytes are read back\<close>

lemma length_varint: "length (varint_loop v) = encodingLength v"
proof (induction v rule: varint_loop.induct)
  case (1 i)
  then show ?case
    by (simp add: varint_loop.simps[of i] encodingLength_def encodingLength_loop.simps[of i])
qed

lemma encodingLength_pos: "0 < encodingLength v"
  by (simp add: encodingLength_def)

lemma varint_read_loop: "varint_read (varint_loop v @ rest) sh acc = Inr (acc + v * 2 ^ (sh * 7))"
proof (induction v arbitrary: sh acc rule: varint_loop.induct)
  case (1 i)
  show ?case
  proof (cases "0x7F < i")
    case True
    have m: "i mod 128 + 128 < 256" using mod_less_divisor[of 128 i] by linarith
    define b :: byte where "b = word_of_nat (i mod 128 + 128)"
    have u: "unat b = i mod 128 + 128" using m by (simp add: b_def unat_byte_of_nat del: of_nat_add)
    have "i = i div 128 * 128 + i mod 128" by simp
    then have "i * 2 ^ (sh * 7) = i div 128 * 128 * 2 ^ (sh * 7) + i mod 128 * 2 ^ (sh * 7)" by (metis distrib_right)
    moreover have "(2 :: nat) ^ (Suc sh * 7) = 128 * 2 ^ (sh * 7)" by (simp add: power_add)
    moreover have "varint_loop i = b # varint_loop (i div 128)" using True by (simp add: varint_loop.simps[of i] b_def)
    ultimately show ?thesis using "1.IH"[OF True, of "Suc sh"] u by (simp add: Let_def mult.assoc del: mult_Suc)
  next
    case False
    then have "unat (word_of_nat i :: byte) = i" by (simp add: unat_byte_of_nat)
    with False show ?thesis by (simp add: varint_loop.simps[of i])
  qed
qed

text \<open>
  Whatever unsigned integer is encoded, in a fresh buffer or in one that has room for it, is decoded from the start of the returned view; the rest of the view is what the
  buffer held, and a fresh buffer has exactly the announced length.
\<close>

theorem varint_roundtrip:
  assumes "0 \<le> i" and "case buffer of None \<Rightarrow> off = 0 | Some b \<Rightarrow> off + encodingLength (nat i) \<le> length b"
  shows "\<exists>r. varint_encode i buffer off = Inr r \<and> varint_decode r 0 = Inr (nat i)
    \<and> drop (encodingLength (nat i)) r = (case buffer of None \<Rightarrow> [] | Some b \<Rightarrow> drop (off + encodingLength (nat i)) b)"
  using assms by (cases buffer) (auto simp: varint_encode_def Let_def length_varint varint_decode_def varint_read_loop
      varint_read_loop[where rest = "[]", simplified] add.commute)

text \<open>Encoding fails exactly for a negative number and for a buffer without room.\<close>

lemma varint_encode_errors:
  "(\<exists>err. varint_encode i buffer off = Inl err) \<longleftrightarrow>
     i < 0 \<or> (case buffer of None \<Rightarrow> 0 < off | Some b \<Rightarrow> length b < off + encodingLength (nat i))"
  by (cases buffer) (auto simp: varint_encode_def Let_def)

end
