(* ===== verification/Algorand_Vaa.thy ===== *)
theory Algorand_Vaa
  imports Wormhole_Address Base64 Big_Varint
begin

section \<open>Submitting a message on Algorand: \<^verbatim>\<open>sdk/js/src/algorand\<close>\<close>

text \<open>
  A second parser of signed messages, which also looks into the payload, the accounts that Wormhole's programs on Algorand keep their state in, and the group of
  transactions that has the signatures of a message verified, a few in each.  The node, \<^verbatim>\<open>algosdk\<close> and the hash are third-party code: the fields of \<open>algod\<close> are
  the answers of the node during one submission, and \<open>newFee\<close> is the fee \<^verbatim>\<open>algosdk\<close> gives a new transaction.
\<close>

declare One_nat_def [simp del]

subsection \<open>The parser\<close>

text \<open>\<^verbatim>\<open>readIntBE\<close> reads a signed number.\<close>

definition to_signed :: "nat \<Rightarrow> nat \<Rightarrow> int" where
  "to_signed n u = (if 2 * u < 256 ^ n then int u else int u - 256 ^ n)"

definition read_int :: "nat \<Rightarrow> bytes \<Rightarrow> int \<Rightarrow> int outcome" where
  "read_int n buf off =
     (if off < 0 then Inl out_of_range else e_bind (read_be n buf (nat off)) (\<lambda>u. Inr (to_signed n u)))"

abbreviation extract3 :: "bytes \<Rightarrow> nat \<Rightarrow> nat \<Rightarrow> bytes" where
  "extract3 buf start sz \<equiv> subarray buf start (start + sz)"

record AlgVAA =
  avVersion :: int
  avIndex :: int
  avSiglen :: int
  avSignatures :: "bytes option"
  avSigs :: "bytes list"
  avDigest :: bytes
  avTimestamp :: int
  avNonce :: int
  avChainRaw :: string
  avChain :: int
  avEmitter :: string
  avSequence :: nat
  avConsistency :: int
  avMeta :: string
  avModule :: "bytes option"
  avAction :: "int option"
  avTargetChain :: "int option"
  avEmitterChainID :: "int option"
  avTargetEmitter :: "bytes option"
  avNewContract :: "bytes option"
  avNewGuardianSetIndex :: "int option"
  avType :: "int option"
  avContract :: "string option"
  avFromChain :: "int option"
  avDecimals :: "int option"
  avSymbol :: "bytes option"
  avName :: "bytes option"
  avTokenId :: "bytes option"
  avAmount :: "bytes option"
  avToAddress :: "bytes option"
  avToChain :: "int option"
  avFee :: "bytes option"
  avFromAddress :: "bytes option"
  avPayload :: "bytes option"
  avBody :: "bytes option"
  avUri :: "text_t option"

text \<open>
  The header.  With a number of signatures that reads as negative the body would start before the buffer, and the first read there throws.
\<close>

definition alg_header :: "bytes \<Rightarrow> (AlgVAA \<times> nat) outcome" where
  "alg_header vaa =
     e_bind (read_int 1 vaa 0) (\<lambda>ver.
     e_bind (read_int 4 vaa 1) (\<lambda>index.
     e_bind (read_int 1 vaa 5) (\<lambda>siglen.
     if siglen < 0 then Inl out_of_range
     else
       let n = nat siglen; off = n * 66 + 6 in
       e_bind (read_int 4 vaa (int off)) (\<lambda>ts.
       e_bind (read_int 4 vaa (int (off + 4))) (\<lambda>no.
       e_bind (read_int 2 vaa (int (off + 8))) (\<lambda>ch.
       e_bind (read_be 8 vaa (off + 42)) (\<lambda>sq.
       e_bind (read_int 1 vaa (int (off + 50))) (\<lambda>co.
       Inr (\<lparr>avVersion = ver, avIndex = index, avSiglen = siglen, avSignatures = (if n \<noteq> 0 then Some (extract3 vaa 6 (n * 66)) else None),
             avSigs = map (\<lambda>i. extract3 vaa (6 + i * 66) 66) [0..<n], avDigest = drop off vaa, avTimestamp = ts, avNonce = no,
             avChainRaw = to_hex (extract3 vaa (off + 8) 2), avChain = ch, avEmitter = to_hex (extract3 vaa (off + 10) 32), avSequence = sq,
             avConsistency = co, avMeta = ''Unknown'', avModule = None, avAction = None, avTargetChain = None, avEmitterChainID = None,
             avTargetEmitter = None, avNewContract = None, avNewGuardianSetIndex = None, avType = None, avContract = None, avFromChain = None,
             avDecimals = None, avSymbol = None, avName = None, avTokenId = None, avAmount = None, avToAddress = None, avToChain = None,
             avFee = None, avFromAddress = None, avPayload = None, avBody = None, avUri = None\<rparr>, off + 51)))))))))"

definition token_bridge_module :: bytes where
  "token_bridge_module = from_hex ''000000000000000000000000000000000000000000546f6b656e427269646765''"

definition core_module :: bytes where
  "core_module = from_hex ''00000000000000000000000000000000000000000000000000000000436f7265''"

definition alg_governance :: "bytes \<Rightarrow> AlgVAA \<times> nat \<Rightarrow> (AlgVAA \<times> nat) outcome" where
  "alg_governance vaa = (\<lambda>(ret, off).
     if extract3 vaa off 32 = token_bridge_module
     then
       e_bind (read_int 1 vaa (int (off + 32))) (\<lambda>act.
       let r = ret\<lparr>avMeta := ''TokenBridge'', avModule := Some (extract3 vaa off 32), avAction := Some act\<rparr>; o1 = off + 33 in
       if act = 1
       then
         e_bind (read_int 2 vaa (int o1)) (\<lambda>tc.
         e_bind (read_int 2 vaa (int (o1 + 2))) (\<lambda>ec.
         Inr (r\<lparr>avMeta := ''TokenBridge RegisterChain'', avTargetChain := Some tc, avEmitterChainID := Some ec,
                avTargetEmitter := Some (extract3 vaa (o1 + 4) 32)\<rparr>, o1 + 36)))
       else if act = 2
       then
         e_bind (read_int 2 vaa (int o1)) (\<lambda>tc.
         Inr (r\<lparr>avMeta := ''TokenBridge UpgradeContract'', avTargetChain := Some tc, avNewContract := Some (extract3 vaa (o1 + 2) 32)\<rparr>, o1 + 34))
       else Inr (r, o1))
     else if extract3 vaa off 32 = core_module
     then
       e_bind (read_int 1 vaa (int (off + 32))) (\<lambda>act.
       e_bind (read_int 2 vaa (int (off + 33))) (\<lambda>tc.
       e_bind (read_int 4 vaa (int (off + 35))) (\<lambda>idx.
       Inr (ret\<lparr>avMeta := ''CoreGovernance'', avModule := Some (extract3 vaa off 32), avAction := Some act, avTargetChain := Some tc,
                avNewGuardianSetIndex := Some idx\<rparr>, off + 35))))
     else Inr (ret, off))"

definition alg_attest :: "bytes \<Rightarrow> AlgVAA \<times> nat \<Rightarrow> (AlgVAA \<times> nat) outcome" where
  "alg_attest vaa = (\<lambda>(ret, off).
     if length (drop off vaa) \<noteq> 100 then Inr (ret, off)
     else e_bind (read_int 1 vaa (int off)) (\<lambda>ty.
       if ty \<noteq> 2 then Inr (ret, off)
       else
         e_bind (read_int 2 vaa (int (off + 33))) (\<lambda>fc.
         e_bind (read_int 1 vaa (int (off + 35))) (\<lambda>d.
         Inr (ret\<lparr>avMeta := ''TokenBridge Attest'', avType := Some ty, avContract := Some (to_hex (extract3 vaa (off + 1) 32)), avFromChain := Some fc,
                  avDecimals := Some d, avSymbol := Some (extract3 vaa (off + 36) 32), avName := Some (extract3 vaa (off + 68) 32)\<rparr>, off + 68)))))"

definition alg_transfer :: "bytes \<Rightarrow> AlgVAA \<times> nat \<Rightarrow> (AlgVAA \<times> nat) outcome" where
  "alg_transfer vaa = (\<lambda>(ret, off).
     if length (drop off vaa) \<noteq> 133 then Inr (ret, off)
     else e_bind (read_int 1 vaa (int off)) (\<lambda>ty.
       if ty \<noteq> 1 then Inr (ret, off)
       else
         e_bind (read_int 2 vaa (int (off + 65))) (\<lambda>fc.
         e_bind (read_int 2 vaa (int (off + 99))) (\<lambda>tc.
         Inr (ret\<lparr>avMeta := ''TokenBridge Transfer'', avType := Some ty, avAmount := Some (extract3 vaa (off + 1) 32),
                  avContract := Some (to_hex (extract3 vaa (off + 33) 32)), avFromChain := Some fc, avToAddress := Some (extract3 vaa (off + 67) 32),
                  avToChain := Some tc, avFee := Some (extract3 vaa (off + 101) 32)\<rparr>, off + 101)))))"

definition alg_with_payload :: "bytes \<Rightarrow> AlgVAA \<times> nat \<Rightarrow> AlgVAA outcome" where
  "alg_with_payload vaa = (\<lambda>(ret, off).
     if length vaa \<le> off then Inr ret
     else e_bind (read_int 1 vaa (int off)) (\<lambda>ty.
       if ty \<noteq> 3 then Inr ret
       else
         e_bind (read_int 2 vaa (int (off + 65))) (\<lambda>fc.
         e_bind (read_int 2 vaa (int (off + 99))) (\<lambda>tc.
         Inr (ret\<lparr>avMeta := ''TokenBridge Transfer With Payload'', avType := Some ty, avAmount := Some (extract3 vaa (off + 1) 32),
                  avContract := Some (to_hex (extract3 vaa (off + 33) 32)), avFromChain := Some fc, avToAddress := Some (extract3 vaa (off + 67) 32),
                  avToChain := Some tc, avFromAddress := Some (extract3 vaa (off + 101) 32), avPayload := Some (drop (off + 133) vaa)\<rparr>)))))"

definition parseVAAAlgorand :: "bytes \<Rightarrow> AlgVAA outcome" where
  "parseVAAAlgorand vaa =
     e_bind (alg_header vaa) (\<lambda>h.
     e_bind (alg_governance vaa h) (\<lambda>(ret, off).
     e_bind (alg_attest vaa (ret\<lparr>avBody := Some (drop off vaa)\<rparr>, off)) (\<lambda>r.
     e_bind (alg_transfer vaa r) (alg_with_payload vaa))))"

definition parseNFTAlgorand :: "bytes \<Rightarrow> AlgVAA outcome" where
  "parseNFTAlgorand vaa =
     e_bind (parseVAAAlgorand vaa) (\<lambda>ret.
     let arr = (case avBody ret of Some b \<Rightarrow> b | None \<Rightarrow> []) in
     e_bind (read_be 1 arr 0) (\<lambda>act.
     e_bind (read_be 2 arr 33) (\<lambda>fc.
     e_bind (read_be 1 arr 131) (\<lambda>uri_len.
     let target = 132 + uri_len in
     e_bind (read_be 2 arr (target + 32)) (\<lambda>tc.
     Inr (ret\<lparr>avAction := Some (int act), avContract := Some (to_hex (subarray arr 1 33)), avFromChain := Some (int fc), avSymbol := Some (subarray arr 35 67),
              avName := Some (subarray arr 67 99), avTokenId := Some (subarray arr 99 131), avUri := Some (strip_nul (utf8_text (subarray arr 132 target))),
              avToAddress := Some (subarray arr target (target + 32)), avToChain := Some (int tc)\<rparr>))))))"

subsection \<open>Accounts: \<^verbatim>\<open>TmplSig.ts\<close>, \<^verbatim>\<open>accountExists\<close>, \<^verbatim>\<open>optin\<close>\<close>

record PopulateData =
  pdAppId :: int
  pdAppAddress :: string
  pdAddrIdx :: int
  pdEmitterId :: string

text \<open>\<^verbatim>\<open>BigInt(s.length / 2)\<close> throws when the length is odd.\<close>

definition half_length :: "string \<Rightarrow> int outcome" where
  "half_length s = (if even (length s) then Inr (int (length s div 2)) else Inl (plain_range_error ''The number cannot be converted to a BigInt because it is not an integer''))"

definition populate :: "PopulateData \<Rightarrow> bytes outcome" where
  "populate data =
     e_bind (varint_encodeHex (pdAddrIdx data) None 0) (\<lambda>idx.
     e_bind (e_bind (half_length (pdEmitterId data)) (\<lambda>n. varint_encodeHex n None 0)) (\<lambda>elen.
     e_bind (varint_encodeHex (pdAppId data) None 0) (\<lambda>app.
     e_bind (e_bind (half_length (pdAppAddress data)) (\<lambda>n. varint_encodeHex n None 0)) (\<lambda>alen.
     Inr (hexToUint8Array_sdk
       (''0620010181'' @ idx @ ''4880'' @ elen @ pdEmitterId data @ ''483110810612443119221244311881'' @ app @ ''1244312080'' @ alen @ pdAppAddress data
        @ ''124431018100124431093203124431153203124422''))))))"

datatype alg_body =
    AlgPayment string string int
  | AlgOptIn string int string
  | AlgAppCall "bytes list" "string list" int string

record algod =
  localApps :: "string \<Rightarrow> (int \<times> (string \<times> string) list option) list option outcome"
  logicSigAddress :: "bytes \<Rightarrow> string"
  applicationAddress :: "int \<Rightarrow> string"
  decodeAddress :: "string \<Rightarrow> bytes"
  newFee :: "alg_body \<Rightarrow> int"

definition safeBigIntToNumber :: "int \<Rightarrow> int outcome" where
  "safeBigIntToNumber b = (if b < - 9007199254740991 \<or> 9007199254740991 < b then Inl (mk_error ''integer is unsafe'') else Inr b)"

definition getEmitterAddressAlgorand :: "algod \<Rightarrow> int \<Rightarrow> string" where
  "getEmitterAddressAlgorand c appId = to_hex (decodeAddress c (applicationAddress c appId))"

text \<open>
  The cache of \<^verbatim>\<open>accountExists\<close> is a set of arrays, compared by reference: each array is a new object, so a test with a fresh one finds nothing.
  An entry is the array's reference with its contents; \<open>fresh\<close> is the reference of the array made for the test.
\<close>

type_synonym exists_cache = "(nat \<times> int \<times> string) list"

definition cache_has :: "nat \<Rightarrow> exists_cache \<Rightarrow> bool" where
  "cache_has ref cache = (ref \<in> set (map fst cache))"

definition fresh :: "exists_cache \<Rightarrow> nat" where
  "fresh cache = Suc (Max (insert 0 (set (map fst cache))))"

fun note_apps :: "int \<Rightarrow> string \<Rightarrow> (int \<times> 'a) list \<Rightarrow> bool \<Rightarrow> exists_cache \<Rightarrow> bool \<times> exists_cache" where
  "note_apps appId acct [] ret cache = (ret, cache)"
| "note_apps appId acct ((i, s) # apps) ret cache =
     (if i = appId then note_apps appId acct apps True (cache @ [(fresh cache, appId, acct)]) else note_apps appId acct apps ret cache)"

definition accountExists :: "algod \<Rightarrow> int \<Rightarrow> string \<Rightarrow> exists_cache \<Rightarrow> bool \<times> exists_cache" where
  "accountExists c appId acct cache =
     (if cache_has (fresh cache) cache then (True, cache)
      else case localApps c acct of
             Inl e \<Rightarrow> (False, cache)
           | Inr None \<Rightarrow> (False, cache)
           | Inr (Some als) \<Rightarrow> note_apps appId acct als False cache)"

definition calcLogicSigAccount :: "algod \<Rightarrow> int \<Rightarrow> int \<Rightarrow> string \<Rightarrow> exists_cache \<Rightarrow> (string \<times> bool) outcome \<times> exists_cache" where
  "calcLogicSigAccount c appId appIndex emitterId cache =
     (case populate \<lparr>pdAppId = appId, pdAppAddress = getEmitterAddressAlgorand c appId, pdAddrIdx = appIndex, pdEmitterId = emitterId\<rparr> of
        Inl e \<Rightarrow> (Inl e, cache)
      | Inr code \<Rightarrow>
          (let sigAddr = logicSigAddress c code in case accountExists c appId sigAddr cache of (b, cache') \<Rightarrow> (Inr (sigAddr, b), cache')))"

record alg_tx =
  atBody :: alg_body
  atFee :: int
  atSigner :: "string option"

definition optin :: "algod \<Rightarrow> string \<Rightarrow> int \<Rightarrow> int \<Rightarrow> string \<Rightarrow> exists_cache \<Rightarrow> (string \<times> alg_tx list) outcome \<times> exists_cache" where
  "optin c sender appId appIndex emitterId cache =
     (case calcLogicSigAccount c appId appIndex emitterId cache of
        (Inl e, cache') \<Rightarrow> (Inl e, cache')
      | (Inr (sigAddr, doesExist), cache') \<Rightarrow>
          if doesExist then (Inr (sigAddr, []), cache')
          else case safeBigIntToNumber appId of
                 Inl e \<Rightarrow> (Inl e, cache')
               | Inr n \<Rightarrow>
                   (Inr (sigAddr,
                      [\<lparr>atBody = AlgPayment sender sigAddr 1002000, atFee = newFee c (AlgPayment sender sigAddr 1002000) * 2, atSigner = None\<rparr>,
                       \<lparr>atBody = AlgOptIn sigAddr n (applicationAddress c appId), atFee = 0, atSigner = Some sigAddr\<rparr>]),
                    cache' @ [(fresh cache', appId, sigAddr)]))"

subsection \<open>State kept in an account\<close>

text \<open>
  Keys are compared as text with the option \<^verbatim>\<open>numeric\<close>: \<open>key_le\<close> orders numerals by value, those with a minus sign before the others.
\<close>

definition key_le :: "int \<Rightarrow> int \<Rightarrow> bool" where
  "key_le a b \<longleftrightarrow> (a < 0 \<and> 0 \<le> b) \<or> ((a < 0 \<longleftrightarrow> b < 0) \<and> \<bar>a\<bar> \<le> \<bar>b\<bar>)"

fun insert_key :: "int \<Rightarrow> int list \<Rightarrow> int list" where
  "insert_key k [] = [k]"
| "insert_key k (x # xs) = (if key_le x k then x # insert_key k xs else k # x # xs)"

definition sort_keys :: "int list \<Rightarrow> int list" where
  "sort_keys ks = foldl (\<lambda>acc k. insert_key k acc) [] ks"

fun collect_values :: "(string \<times> string) list \<Rightarrow> int list \<Rightarrow> (int, bytes) js_map_t \<Rightarrow> (int list \<times> (int, bytes) js_map_t) outcome" where
  "collect_values [] sk vals = Inr (sk, vals)"
| "collect_values ((key64, val64) # kvs) sk vals =
     (let k = from_base64 key64; v = from_base64 val64 in
      e_bind (read_int 1 k 0) (\<lambda>key.
      if k = low_bytes ''meta'' then collect_values kvs sk vals
      else if v \<noteq> replicate 127 0 then collect_values kvs (sk @ [key]) (map_set key v vals)
      else collect_values kvs sk vals))"

definition decodeLocalState :: "algod \<Rightarrow> int \<Rightarrow> string \<Rightarrow> bytes outcome" where
  "decodeLocalState c appId address =
     e_bind (localApps c address) (\<lambda>apps.
     case apps of
       None \<Rightarrow> Inl (type_error ''ai.apps-local-state is not iterable'')
     | Some als \<Rightarrow>
         (case find (\<lambda>(i, s). i = appId) als of
            Some (i, Some state) \<Rightarrow>
              e_bind (collect_values state [] []) (\<lambda>(sk, vals).
              Inr (concat (map (\<lambda>k. case map_get vals k of Some v \<Rightarrow> v | None \<Rightarrow> []) (sort_keys sk))))
          | _ \<Rightarrow> Inr []))"

subsection \<open>The group of transactions: \<^verbatim>\<open>submitVAAHeader\<close>\<close>

definition MAX_BITS :: nat where
  "MAX_BITS = 8 * (127 * 15)"

definition MAX_SIGS_PER_TXN :: nat where
  "MAX_SIGS_PER_TXN = 6"

definition BSIZE :: nat where
  "BSIZE = 66 * MAX_SIGS_PER_TXN"

text \<open>The keys of the guardians in the state follow a byte with their number; \<^verbatim>\<open>keySet.set\<close> leaves zeros where a key is cut short.\<close>

definition guardian_key :: "bytes \<Rightarrow> byte \<Rightarrow> bytes" where
  "guardian_key keys idx = subarray keys (unat idx * 20 + 1) ((unat idx + 1) * 20 + 1)"

definition key_set :: "bytes \<Rightarrow> bytes \<Rightarrow> bytes" where
  "key_set keys sigs =
     concat (map (\<lambda>i. let k = guardian_key keys (sigs ! (i * 66)) in k @ replicate (20 - length k) 0) [0..<length sigs div 66])"

definition sig_batches :: "bytes \<Rightarrow> nat \<Rightarrow> bytes list" where
  "sig_batches signatures numTxns =
     filter (\<lambda>s. 66 \<le> length s) (map (\<lambda>nt. take BSIZE (drop (nt * BSIZE) signatures)) [0..<numTxns])"

definition ALGO_VERIFY_HASH :: string where
  "ALGO_VERIFY_HASH = ''EZATROXX2HISIRZDRGXW4LRQ46Z6IUJYYIHU3PJGP7P5IQDPKVX42N767A''"

record SubmitVAAState =
  svMap :: AlgVAA
  svAccounts :: "string list"
  svTxs :: "alg_tx list"
  svGuardianAddr :: string

definition verify_tx :: "algod \<Rightarrow> bytes \<Rightarrow> bytes \<Rightarrow> string list \<Rightarrow> int \<Rightarrow> string \<Rightarrow> bytes \<Rightarrow> alg_tx" where
  "verify_tx c keys digest accts bridge lsaAddr sigs =
     \<lparr>atBody = AlgAppCall [low_bytes ''verifySigs'', sigs, key_set keys sigs, digest] accts bridge ALGO_VERIFY_HASH, atFee = 0, atSigner = Some lsaAddr\<rparr>"

definition header_txs :: "algod \<Rightarrow> (bytes \<Rightarrow> bytes) \<Rightarrow> string \<Rightarrow> AlgVAA \<Rightarrow> bytes \<Rightarrow> bytes \<Rightarrow> string list \<Rightarrow> int \<Rightarrow> string \<Rightarrow> alg_tx list outcome" where
  "header_txs c keccak256 lsaAddr parsed vaa keys accts bridgeId sender =
     (let numTxns = nat (avSiglen parsed) div MAX_SIGS_PER_TXN + 1; digest = keccak256 (keccak256 (avDigest parsed))
      in case avSignatures parsed of
           None \<Rightarrow> Inl (type_error ''Cannot read properties of undefined (reading 'slice')'')
         | Some sigs \<Rightarrow>
             e_bind (safeBigIntToNumber bridgeId) (\<lambda>bridge.
             Inr (map (verify_tx c keys digest accts bridge lsaAddr) (sig_batches sigs numTxns)
               @ [let body = AlgAppCall [low_bytes ''verifyVAA'', vaa] accts bridge sender
                  in \<lparr>atBody = body, atFee = newFee c body * (1 + int numTxns), atSigner = None\<rparr>])))"

definition submitVAAHeader ::
    "algod \<Rightarrow> (bytes \<Rightarrow> bytes) \<Rightarrow> string \<Rightarrow> int \<Rightarrow> bytes \<Rightarrow> string \<Rightarrow> int \<Rightarrow> exists_cache \<Rightarrow> SubmitVAAState outcome \<times> exists_cache" where
  "submitVAAHeader c keccak256 lsaAddr bridgeId vaa sender appid =
     s_bind (s_lift (parseVAAAlgorand vaa)) (\<lambda>parsed.
     s_bind (optin c sender appid (int (avSequence parsed div MAX_BITS)) (avChainRaw parsed @ avEmitter parsed)) (\<lambda>(seqAddr, seqTxs).
     s_bind (optin c sender bridgeId (avIndex parsed) (textToHexString ''guardian'')) (\<lambda>(guardianAddr, guardianTxs).
     s_bind (s_lift (decodeLocalState c bridgeId guardianAddr)) (\<lambda>keys.
     s_bind (s_lift (header_txs c keccak256 lsaAddr parsed vaa keys [seqAddr, guardianAddr] bridgeId sender)) (\<lambda>txs.
     s_return \<lparr>svMap = parsed, svAccounts = [seqAddr, guardianAddr], svTxs = seqTxs @ guardianTxs @ txs, svGuardianAddr = guardianAddr\<rparr>)))))"

subsection \<open>The two parsers agree\<close>

lemma read_be_drop: "off \<le> length d \<Longrightarrow> read_be n (drop off d) k = read_be n d (off + k)"
  by (auto simp: read_be_def add.assoc add.commute)

lemma read_int_at: "read_be n d off = Inr u \<Longrightarrow> read_int n d (int off) = Inr (to_signed n u)"
  by (simp add: read_int_def)

lemma read_byte: "off < length d \<Longrightarrow> read_be 1 d off = Inr (unat (d ! off))"
  by (simp add: read_be_def take_Suc_conv_app_nth One_nat_def be_decode_def hd_drop_conv_nth take_Suc)

lemma subarray_drop: "subarray (drop off d) a b = subarray d (off + a) (off + b)"
  by (simp add: subarray_def add.commute)

lemma signed_byte: "x < 128 \<Longrightarrow> to_signed 1 x = int x"
  by (simp add: to_signed_def)

text \<open>The parts of a message that parses, at their places in the buffer.\<close>

lemma parsed_parts:
  assumes "parseVaa keccak256 d = Inr v" and "off = 6 + 66 * unat (d ! 5)"
  shows "read_be 4 d 1 = Inr (guardianSetIndex v)" "read_be 4 d off = Inr (vaaTimestamp v)" "read_be 4 d (off + 4) = Inr (vaaNonce v)"
    "read_be 2 d (off + 8) = Inr (emitterChain v)" "read_be 8 d (off + 42) = Inr (vaaSequence v)" "emitterAddress v = subarray d (off + 10) (off + 42)"
    "consistencyLevel v = buf_at d (off + 50)" "vaaPayload v = drop (off + 51) d" "vaaVersion v = buf_at d 0" "off + 50 \<le> length d"
proof -
  note p = parsed_signatures[OF assms(1)]
  have body: "vaa_body_of d = drop off d" and l: "off \<le> length d" using p(3,5) by (simp_all add: assms(2))
  show "off + 50 \<le> length d" using p(5) by (simp add: assms(2))
  have "buf_at (drop off d) 50 = buf_at d (off + 50)" using l by (auto simp: buf_at_def)
  then show "read_be 4 d 1 = Inr (guardianSetIndex v)" "read_be 4 d off = Inr (vaaTimestamp v)" "read_be 4 d (off + 4) = Inr (vaaNonce v)"
    "read_be 2 d (off + 8) = Inr (emitterChain v)" "read_be 8 d (off + 42) = Inr (vaaSequence v)" "emitterAddress v = subarray d (off + 10) (off + 42)"
    "consistencyLevel v = buf_at d (off + 50)" "vaaPayload v = drop (off + 51) d" "vaaVersion v = buf_at d 0"
    using assms(1) unfolding parseVaa_def Let_def body
    by (auto simp: e_bind_Inr_iff read_be_drop[OF l] subarray_drop add.commute)
qed

definition header_agrees :: "bytes \<Rightarrow> ParsedVaa \<Rightarrow> byte \<Rightarrow> AlgVAA \<Rightarrow> bool" where
  "header_agrees d v level r \<longleftrightarrow>
     avIndex r = to_signed 4 (guardianSetIndex v) \<and> avSiglen r = int (length (guardianSignatures v)) \<and> avTimestamp r = to_signed 4 (vaaTimestamp v)
     \<and> avNonce r = to_signed 4 (vaaNonce v) \<and> avChain r = to_signed 2 (emitterChain v) \<and> avEmitter r = to_hex (emitterAddress v)
     \<and> avSequence r = vaaSequence v \<and> avConsistency r = to_signed 1 (unat level) \<and> avDigest r = vaa_body_of d
     \<and> map Some (map hd (avSigs r)) = map gsIndex (guardianSignatures v) \<and> map tl (avSigs r) = map gsSignature (guardianSignatures v)"

lemma alg_header_agrees:
  assumes "parseVaa keccak256 d = Inr v" "consistencyLevel v = Some level" "unat (d ! 5) < 128"
  shows "\<exists>r. alg_header d = Inr (r, 57 + 66 * unat (d ! 5)) \<and> header_agrees d v level r \<and> avMeta r = ''Unknown''"
proof -
  let ?n = "unat (d ! 5)" and ?off = "66 * unat (d ! 5) + 6"
  note p = parsed_signatures[OF assms(1)]
  note q = parsed_parts[OF assms(1), of ?off, unfolded add.commute[of 6], OF refl]
  have len: "?off + 50 < length d" and lv: "level = d ! (?off + 50)" using q(7) assms(2) by (auto simp: buf_at_def split: if_splits)
  have "0 < length d" "5 < length d" using p(4) by linarith+
  from read_int_at[OF read_byte[OF this(1)]] read_int_at[OF read_byte[OF this(2)]] read_int_at[OF read_byte[OF len]]
  have b: "read_int 1 d 0 = Inr (to_signed 1 (unat (d ! 0)))" "read_int 1 d 5 = Inr (int ?n)"
      "read_int 1 d (int (?off + 50)) = Inr (to_signed 1 (unat level))"
    using assms(3) lv by (simp_all add: signed_byte)
  have i: "read_int 4 d 1 = Inr (to_signed 4 (guardianSetIndex v))" using read_int_at[OF q(1)] by simp
  have sg: "subarray d (6 + i * 66) (6 + i * 66 + 66) = d ! (6 + i * 66) # gsSignature (read_signature d i)
      \<and> gsIndex (read_signature d i) = Some (d ! (6 + i * 66))" if "i < ?n" for i
  proof -
    have "6 + i * 66 < length d" using that len by simp
    then have "drop (6 + i * 66) d = d ! (6 + i * 66) # drop (Suc (6 + i * 66)) d" by (rule Cons_nth_drop_Suc[symmetric])
    moreover have "take 66 (d ! (6 + i * 66) # drop (Suc (6 + i * 66)) d) = d ! (6 + i * 66) # take 65 (drop (Suc (6 + i * 66)) d)"
      by (simp add: take_Cons')
    ultimately show ?thesis using that len by (simp add: subarray_def read_signature_def Let_def buf_at_def)
  qed
  obtain r where r: "alg_header d = Inr (r, 57 + 66 * ?n)" "avIndex r = to_signed 4 (guardianSetIndex v)" "avSiglen r = int ?n"
      "avTimestamp r = to_signed 4 (vaaTimestamp v)" "avNonce r = to_signed 4 (vaaNonce v)" "avChain r = to_signed 2 (emitterChain v)"
      "avEmitter r = to_hex (emitterAddress v)" "avSequence r = vaaSequence v" "avConsistency r = to_signed 1 (unat level)" "avDigest r = drop ?off d"
      "avSigs r = map (\<lambda>i. subarray d (6 + i * 66) (6 + i * 66 + 66)) [0..<?n]" "avMeta r = ''Unknown''"
    using i b q read_int_at[OF q(2)] read_int_at[OF q(3)] read_int_at[OF q(4)]
    by (simp add: alg_header_def Let_def mult.commute)
  have "map Some (map hd (avSigs r)) = map gsIndex (guardianSignatures v)" "map tl (avSigs r) = map gsSignature (guardianSignatures v)"
    unfolding r(11) p(1) map_map by (rule map_cong[OF refl]; use sg in simp)+
  with r p show ?thesis by (auto simp: header_agrees_def add.commute)
qed

lemma modules_start: "token_bridge_module ! 0 = 0" "core_module ! 0 = 0"
  by code_simp+

lemma not_a_module:
  assumes "read_be 1 d off = Inr u" "u \<noteq> 0"
  shows "extract3 d off 32 \<noteq> token_bridge_module" "extract3 d off 32 \<noteq> core_module"
proof -
  have l: "off < length d" using assms(1) by (simp add: read_be_def split: if_splits)
  then have "u = unat (d ! off)" using assms(1) by (simp add: read_byte)
  moreover have "extract3 d off 32 ! 0 = d ! off" using l by (simp add: subarray_def)
  ultimately show "extract3 d off 32 \<noteq> token_bridge_module" "extract3 d off 32 \<noteq> core_module"
    using assms(2) modules_start by (metis unsigned_0)+
qed

lemma transfer_reads:
  assumes "parseTokenTransferPayload bn (drop off d) = Inr t" "off \<le> length d"
  shows "read_be 1 d off = Inr (ttPayloadType t)" "read_be 2 d (off + 65) = Inr (ttTokenChain t)" "read_be 2 d (off + 99) = Inr (ttToChain t)"
    "ttPayloadType t = 1 \<or> ttPayloadType t = 3" "bn (extract3 d (off + 1) 32) = ttAmount t" "extract3 d (off + 33) 32 = ttTokenAddress t"
    "extract3 d (off + 67) 32 = ttTo t" "ttFee t = (if ttPayloadType t = 1 then Some (bn (extract3 d (off + 101) 32)) else None)"
    "ttFromAddress t = (if ttPayloadType t = 3 then Some (extract3 d (off + 101) 32) else None)" "tokenTransferPayload t = drop (off + 133) d"
  using assms
  by (auto simp: parseTokenTransferPayload_def payload_transfer_def payload_transfer_with_payload_def e_bind_Inr_iff read_be_drop subarray_drop
      add.commute split: if_splits)

definition transfer_agrees :: "(bytes \<Rightarrow> nat) \<Rightarrow> TokenTransfer \<Rightarrow> AlgVAA \<Rightarrow> bool" where
  "transfer_agrees bn t r \<longleftrightarrow>
     avType r = Some (int (ttPayloadType t)) \<and> map_option bn (avAmount r) = Some (ttAmount t) \<and> avContract r = Some (to_hex (ttTokenAddress t))
     \<and> avFromChain r = Some (to_signed 2 (ttTokenChain t)) \<and> avToAddress r = Some (ttTo t) \<and> avToChain r = Some (to_signed 2 (ttToChain t))
     \<and> (ttPayloadType t = 1 \<longrightarrow> avMeta r = ''TokenBridge Transfer'' \<and> map_option bn (avFee r) = ttFee t)
     \<and> (ttPayloadType t = 3 \<longrightarrow> avMeta r = ''TokenBridge Transfer With Payload'' \<and> avFromAddress r = ttFromAddress t
          \<and> avPayload r = Some (tokenTransferPayload t))"

lemma signed_small: "to_signed 1 1 = 1" "to_signed 1 3 = 3" "to_signed n 0 = 0"
  by (simp_all add: to_signed_def)

lemma signed_three: "u < 256 \<Longrightarrow> to_signed 1 u = 3 \<longleftrightarrow> u = 3"
  by (auto simp: to_signed_def)

lemma after_header_transfer:
  assumes "parseTokenTransferPayload bn (drop off d) = Inr t" "off \<le> length d" "ttPayloadType t = 1" "length (drop off d) = 133" "d ! (off + 101) \<noteq> 3"
    and "alg_header d = Inr (h, off)"
  shows "\<exists>r. parseVAAAlgorand d = Inr r \<and> transfer_agrees bn t r \<and> (\<forall>d v level. header_agrees d v level h \<longrightarrow> header_agrees d v level r)"
proof -
  note x = transfer_reads[OF assms(1,2)]
  note ri = read_int_at[OF x(1)] read_int_at[OF x(2)] read_int_at[OF x(3)]
  have o: "off + 101 < length d" using assms(4) by simp
  note rb = read_int_at[OF read_byte[OF o]]
  have "unat (d ! (off + 101)) \<noteq> 3" using assms(5) by (metis of_nat_numeral word_of_nat_unat)
  have "to_signed 1 (unat (d ! (off + 101))) \<noteq> 3"
    using signed_three[OF unat_byte_less] \<open>unat (d ! (off + 101)) \<noteq> 3\<close> by simp
  with x ri rb o assms(3,4,6) not_a_module[OF x(1)] show ?thesis
    by (simp add: parseVAAAlgorand_def alg_governance_def alg_attest_def alg_transfer_def alg_with_payload_def signed_small transfer_agrees_def header_agrees_def)
qed

lemma after_header_with_payload:
  assumes "parseTokenTransferPayload bn (drop off d) = Inr t" "off \<le> length d" "ttPayloadType t = 3"
    and "alg_header d = Inr (h, off)"
  shows "\<exists>r. parseVAAAlgorand d = Inr r \<and> transfer_agrees bn t r \<and> (\<forall>d v level. header_agrees d v level h \<longrightarrow> header_agrees d v level r)"
proof -
  note x = transfer_reads[OF assms(1,2)]
  note ri = read_int_at[OF x(1)] read_int_at[OF x(2)] read_int_at[OF x(3)]
  have "off < length d" using x(1) by (simp add: read_be_def split: if_splits)
  with x ri assms(3,4) not_a_module[OF x(1)] show ?thesis
    by (simp add: parseVAAAlgorand_def alg_governance_def alg_attest_def alg_transfer_def alg_with_payload_def signed_small transfer_agrees_def header_agrees_def)
qed

text \<open>
  C39.  The parser of the Algorand code and the one of the rest of the SDK agree on token transfers: whatever transfer the latter accepts, of at most 127
  signatures, the former reads with the same guardians and signatures, emitter, sequence number, amount, addresses and payload, and with the same numbers as far as a
  signed reading gives them.  A plain transfer has exactly 133 bytes of payload, and its fee must not begin with the byte 3.
\<close>

theorem alg_transfer_parse_agrees:
  assumes "parseTokenTransferVaa keccak256 bn d = Inr (v, t)" "unat (d ! 5) < 128" "consistencyLevel v = Some level"
    and "ttPayloadType t = 1 \<longrightarrow> length (vaaPayload v) = 133 \<and> vaaPayload v ! 101 \<noteq> 3"
  shows "\<exists>r. parseVAAAlgorand d = Inr r \<and> header_agrees d v level r \<and> transfer_agrees bn t r"
proof -
  let ?off = "57 + 66 * unat (d ! 5)"
  have v: "parseVaa keccak256 d = Inr v" and t: "parseTokenTransferPayload bn (vaaPayload v) = Inr t"
    using assms(1) by (auto simp: parseTokenTransferVaa_def e_bind_Inr_iff)
  note q = parsed_parts[OF v refl]
  have p: "vaaPayload v = drop ?off d" using q(8) by simp
  have l: "?off \<le> length d" using q(7) assms(3) by (auto simp: buf_at_def split: if_splits)
  obtain h where h: "alg_header d = Inr (h, ?off)" "header_agrees d v level h" using alg_header_agrees[OF v assms(3,2)] by blast
  have "ttPayloadType t = 1 \<or> ttPayloadType t = 3" using transfer_reads(4)[OF t[unfolded p] l] .
  then show ?thesis
  proof
    assume 1: "ttPayloadType t = 1"
    then have "length (drop ?off d) = 133" "d ! (?off + 101) \<noteq> 3" using assms(4) l by (auto simp: p)
    from after_header_transfer[OF t[unfolded p] l 1 this h(1)] h(2) show ?thesis by blast
  next
    assume 3: "ttPayloadType t = 3"
    from after_header_with_payload[OF t[unfolded p] l 3 h(1)] h(2) show ?thesis by blast
  qed
qed

lemma demo_alg_input:
  "parseTokenTransferVaa (\<lambda>b. b) be_decode (vaa_bytes demo_transfer) = Inr (as_parsed (\<lambda>b. b) demo_transfer, the (as_transfer (vPayload demo_transfer)))"
  "unat (vaa_bytes demo_transfer ! 5) < 128" "consistencyLevel (as_parsed (\<lambda>b. b) demo_transfer) = Some 15"
  "length (vaaPayload (as_parsed (\<lambda>b. b) demo_transfer)) = 133 \<and> vaaPayload (as_parsed (\<lambda>b. b) demo_transfer) ! 101 \<noteq> 3"
  "ttPayloadType (the (as_transfer (vPayload demo_transfer))) = 1" "vaaSequence (as_parsed (\<lambda>b. b) demo_transfer) = 10 ^ 12"
proof -
  let ?v = "as_parsed (\<lambda>b. b) demo_transfer"
  have pl: "vaaPayload ?v = payload_bytes (vPayload demo_transfer)" by (simp add: as_parsed_def)
  have p: "payload_ok (vPayload demo_transfer)" using demo_transfer_ok by (simp add: vaa_ok_def)
  have "as_transfer (vPayload demo_transfer) = Some (the (as_transfer (vPayload demo_transfer)))" by (simp add: demo_transfer_def)
  from parse_transfer[OF be_decode_bn_ok p this]
  show "parseTokenTransferVaa (\<lambda>b. b) be_decode (vaa_bytes demo_transfer) = Inr (?v, the (as_transfer (vPayload demo_transfer)))"
    using parse_vaa_bytes[OF demo_transfer_ok] by (simp add: parseTokenTransferVaa_def pl)
  have "buf_at (vaa_bytes demo_transfer) 5 = Some 1" by (simp add: vaa_bytes_def demo_transfer_def layout)
  then show "unat (vaa_bytes demo_transfer ! 5) < 128" by (simp add: buf_at_def split: if_splits)
  have "length (addr_bytes demo_address) = 32" using demo_address_ok by (simp add: addr_ok_def)
  moreover have "be_encode 32 7 ! 0 = 0" by code_simp
  ultimately show "length (vaaPayload ?v) = 133 \<and> vaaPayload ?v ! 101 \<noteq> 3" unfolding pl by (simp add: demo_transfer_def nth_append)
qed (simp_all add: as_parsed_def demo_transfer_def)

theorem alg_transfer_parse_agrees_witness:
  "\<exists>r. parseVAAAlgorand (vaa_bytes demo_transfer) = Inr r \<and> avMeta r = ''TokenBridge Transfer'' \<and> avSequence r = 10 ^ 12"
proof -
  obtain r where "parseVAAAlgorand (vaa_bytes demo_transfer) = Inr r" "header_agrees (vaa_bytes demo_transfer) (as_parsed (\<lambda>b. b) demo_transfer) 15 r"
      "transfer_agrees be_decode (the (as_transfer (vPayload demo_transfer))) r"
    using alg_transfer_parse_agrees[OF demo_alg_input(1-3)] demo_alg_input(4) by blast
  with demo_alg_input(5,6) show ?thesis by (auto simp: header_agrees_def transfer_agrees_def)
qed

lemma demo_alg_parse:
  "\<exists>p. parseVAAAlgorand (vaa_bytes demo_transfer) = Inr p \<and> header_agrees (vaa_bytes demo_transfer) (as_parsed (\<lambda>b. b) demo_transfer) 15 p"
proof -
  let ?d = "vaa_bytes demo_transfer" and ?t = "the (as_transfer (vPayload demo_transfer))" and ?v = "as_parsed (\<lambda>b. b) demo_transfer"
  note v = parse_vaa_bytes[OF demo_transfer_ok, of "\<lambda>b. b"]
  note q = parsed_parts[OF v refl]
  let ?off = "57 + 66 * unat (?d ! 5)"
  obtain h where h: "alg_header ?d = Inr (h, ?off)" "header_agrees ?d ?v 15 h" using alg_header_agrees[OF v demo_alg_input(3,2)] by blast
  have p: "vaaPayload ?v = drop ?off ?d" using q(8) by simp
  have l: "?off \<le> length ?d" using q(7) demo_alg_input(3) by (auto simp: buf_at_def split: if_splits)
  have t: "parseTokenTransferPayload be_decode (drop ?off ?d) = Inr ?t"
    using demo_alg_input(1) v by (simp add: parseTokenTransferVaa_def e_bind_Inr_iff p)
  have "length (drop ?off ?d) = 133" "?d ! (?off + 101) \<noteq> 3" using demo_alg_input(4) l unfolding p by simp_all
  from after_header_transfer[OF t l demo_alg_input(5) this h(1)] h(2) show ?thesis by blast
qed

text \<open>
  The consistency level 200 of an EVM message (instant finality) reads as a negative number, and so does the nonce of half of all messages.
\<close>

lemma signed_readings: "to_signed 1 200 = - 56" "2 ^ 31 \<le> u \<Longrightarrow> u < 2 ^ 32 \<Longrightarrow> to_signed 4 u < 0"
  by (simp_all add: to_signed_def)

text \<open>
  After an attestation the parser goes on at the name of the token as if a payload began there: with a name that begins with the byte 3 it reads past the
  end and throws.
\<close>

lemma attest_name_three:
  assumes "alg_header d = Inr (h, off)" "length (drop off d) = 100" "d ! off = 2" "d ! (off + 68) = 3"
  shows "parseVAAAlgorand d = Inl out_of_range"
proof -
  have l: "off < length d" "off + 68 < length d" "off + 35 < length d" using assms(2) by simp_all
  note rb = read_int_at[OF read_byte[OF l(1)]] read_int_at[OF read_byte[OF l(2)]] read_int_at[OF read_byte[OF l(3)]]
  have t: "to_signed 1 2 = 2" "to_signed 1 3 = 3" by (simp_all add: to_signed_def)
  have "read_be 1 d off = Inr 2" using read_byte[OF l(1)] assms(3) by simp
  note nm = not_a_module[OF this]
  have "off + 33 + 2 \<le> length d" using assms(2) by simp
  then obtain fc where fc: "read_be 2 d (off + 33) = Inr fc" by (simp add: read_be_def)
  have e: "read_int 2 d (int (off + 68 + 65)) = Inl out_of_range" using assms(2) by (simp add: read_int_def read_be_def nat_add_distrib)
  show ?thesis
    using assms rb t nm read_int_at[OF fc] e l
    by (simp add: parseVAAAlgorand_def alg_governance_def alg_attest_def alg_transfer_def alg_with_payload_def)
qed

subsection \<open>Accounts\<close>

lemma fresh_not_cached: "\<not> cache_has (fresh cache) cache"
proof
  assume "cache_has (fresh cache) cache"
  then have "fresh cache \<in> set (map fst cache)" by (simp add: cache_has_def)
  then have "fresh cache \<le> Max (insert 0 (set (map fst cache)))" by (intro Max_ge) auto
  then show False by (simp add: fresh_def)
qed

lemma note_apps_answer: "fst (note_apps appId acct apps ret cache) \<longleftrightarrow> ret \<or> appId \<in> fst ` set apps"
  by (induction appId acct apps ret cache rule: note_apps.induct) auto

text \<open>The cache never answers: whether an account exists is asked of the node each time, even for one that was just found.\<close>

lemma cache_never_hits:
  "fst (accountExists c appId acct cache) \<longleftrightarrow> (\<exists>als. localApps c acct = Inr (Some als) \<and> appId \<in> fst ` set als)"
  by (auto simp: accountExists_def fresh_not_cached note_apps_answer split: sum.splits option.splits)

text \<open>
  The comment on \<^verbatim>\<open>populate\<close> asks for an emitter with the prefix \<^verbatim>\<open>0x\<close>.  With it the program is cut off there, and is the same for every application.
\<close>

lemma varint_hex: "0 \<le> i \<Longrightarrow> varint_encodeHex i None 0 = Inr (to_hex (varint_loop (nat i)))"
  by (simp add: varint_encodeHex_def varint_encode_def Let_def length_varint)

lemma prefixed_emitter_truncates:
  assumes "0 \<le> pdAddrIdx data" "0 \<le> pdAppId data" "even (length (pdAppAddress data))" "pdEmitterId data = ''0x'' @ e" "even (length e)"
  shows "populate data = Inr (from_hex ''0620010181'' @ varint_loop (nat (pdAddrIdx data)) @ from_hex ''4880'' @ varint_loop (length e div 2 + 1))"
proof -
  let ?p = "''0620010181'' @ to_hex (varint_loop (nat (pdAddrIdx data))) @ ''4880'' @ to_hex (varint_loop (length e div 2 + 1))"
  have h: "hex_string ''0620010181'' = True" "hex_string ''4880'' = True" by code_simp+
  have p: "hex_string ?p" using h by (intro hex_string_append) simp_all
  have "nat (int ((length e + 2) div 2)) = length e div 2 + 1" by simp
  then have "populate data = Inr (hexToUint8Array_sdk (?p @ ''0x'' @ e @ ''483110810612443119221244311881'' @ to_hex (varint_loop (nat (pdAppId data)))
      @ ''1244312080'' @ to_hex (varint_loop (length (pdAppAddress data) div 2)) @ pdAppAddress data @ ''124431018100124431093203124431153203124422''))"
    using assms by (simp add: populate_def half_length_def varint_hex)
  also have "hexToUint8Array_sdk (?p @ ''0x'' @ r) = from_hex ?p" for r
  proof -
    have "\<not> starts_with ''0x'' (?p @ ''0x'' @ r)" by (simp add: starts_with_def)
    moreover have "from_hex (''0x'' @ r) = []" by (simp add: digit_val_def to_lower_def hex_digits_def split: option.splits)
    ultimately show ?thesis unfolding hexToUint8Array_sdk_def using from_hex_append[OF p, of "''0x'' @ r"] by simp
  qed
  also have "from_hex ?p = from_hex ''0620010181'' @ varint_loop (nat (pdAddrIdx data)) @ from_hex ''4880'' @ varint_loop (length e div 2 + 1)"
    using h by (simp only: from_hex_append hex_string_to_hex from_hex_to_hex simp_thms)
  finally show ?thesis .
qed

subsection \<open>Verifying the signatures\<close>

lemma concat_filter_empty: "(\<And>x. x \<in> set xs \<Longrightarrow> \<not> P x \<Longrightarrow> x = []) \<Longrightarrow> concat (filter P xs) = concat xs"
  by (induction xs) auto

lemma concat_slices: "concat (map (\<lambda>i. take k (drop (i * k) xs)) [0..<n]) = take (n * k) xs"
proof (induction n)
  case (Suc n)
  then show ?case by (simp add: take_add add.commute[of k])
qed simp

lemma batch_length:
  assumes "length sigs = 66 * n"
  shows "\<exists>m. length (take BSIZE (drop (nt * BSIZE) sigs)) = 66 * m"
proof -
  have "length (take BSIZE (drop (nt * BSIZE) sigs)) = 66 * min (n - nt * 6) 6"
    using assms by (simp add: BSIZE_def MAX_SIGS_PER_TXN_def min_def; linarith)
  then show ?thesis by blast
qed

text \<open>
  The batches put together are the signatures of the message, in order, with no empty batch and at most six signatures in each.
\<close>

lemma batches_cover:
  assumes "length sigs = 66 * n" and "numTxns = n div MAX_SIGS_PER_TXN + 1"
  shows "concat (sig_batches sigs numTxns) = sigs" "length (sig_batches sigs numTxns) \<le> numTxns"
    "s \<in> set (sig_batches sigs numTxns) \<Longrightarrow> \<exists>m. 1 \<le> m \<and> m \<le> MAX_SIGS_PER_TXN \<and> length s = 66 * m"
proof -
  let ?bs = "map (\<lambda>nt. take BSIZE (drop (nt * BSIZE) sigs)) [0..<numTxns]"
  have "x = []" if x: "x \<in> set ?bs" "\<not> 66 \<le> length x" for x
  proof -
    have "\<exists>m. length x = 66 * m" using x(1) batch_length[OF assms(1)] by (auto simp del: length_take)
    then obtain m where "length x = 66 * m" by blast
    with x(2) show ?thesis by (cases m) simp_all
  qed
  then have "concat (sig_batches sigs numTxns) = concat ?bs" unfolding sig_batches_def by (rule concat_filter_empty)
  also have "\<dots> = take (numTxns * BSIZE) sigs" by (rule concat_slices)
  also have "\<dots> = sigs"
  proof -
    have "n < 6 * (n div 6 + 1)" using dividend_less_times_div[of 6 n] by simp
    then show ?thesis using assms by (simp add: BSIZE_def MAX_SIGS_PER_TXN_def)
  qed
  finally show "concat (sig_batches sigs numTxns) = sigs" .
  show "length (sig_batches sigs numTxns) \<le> numTxns" using length_filter_le[of _ ?bs] by (simp add: sig_batches_def)
  assume "s \<in> set (sig_batches sigs numTxns)"
  then obtain nt where s: "s = take BSIZE (drop (nt * BSIZE) sigs)" "66 \<le> length s" by (auto simp: sig_batches_def)
  obtain m where m: "length s = 66 * m" using batch_length[OF assms(1), of nt] unfolding s(1)[symmetric] by blast
  have "length s \<le> 66 * MAX_SIGS_PER_TXN" using s(1) by (simp add: BSIZE_def)
  with s(2) m show "\<exists>m. 1 \<le> m \<and> m \<le> MAX_SIGS_PER_TXN \<and> length s = 66 * m" by (intro exI[of _ m]) simp
qed

lemma key_set_append:
  assumes "length a = 66 * m"
  shows "key_set keys (a @ b) = key_set keys a @ key_set keys b"
proof -
  define k where "k = (\<lambda>s i. let k = guardian_key keys (s ! (i * 66)) in k @ replicate (20 - length k) 0)"
  have n: "length (a @ b) div 66 = m + length b div 66" "length a div 66 = m" using assms by simp_all
  have "(a @ b) ! (i * 66) = a ! (i * 66)" if "i < m" for i using that assms by (simp add: nth_append)
  then have "k (a @ b) i = k a i" if "i < m" for i using that by (simp add: k_def)
  then have 1: "map (k (a @ b)) [0..<m] = map (k a) [0..<m]" by simp
  have "(m + i) * 66 = length a + i * 66" for i using assms by simp
  then have "k (a @ b) (m + i) = k b i" for i by (simp add: k_def nth_append_length_plus)
  then have 2: "map (k (a @ b)) [m..<m + length b div 66] = map (k b) [0..<length b div 66]" by (intro nth_equalityI) simp_all
  have "map (k (a @ b)) [0..<m + length b div 66] = map (k a) [0..<m] @ map (k b) [0..<length b div 66]"
    unfolding upt_add_eq_append[OF le0] map_append 1 2 ..
  moreover have "key_set keys s = concat (map (k s) [0..<length s div 66])" for s by (simp add: key_set_def k_def)
  ultimately show ?thesis by (simp only: n concat_append)
qed

lemma key_set_concat: "list_all (\<lambda>x. 66 dvd length x) bs \<Longrightarrow> concat (map (key_set keys) bs) = key_set keys (concat bs)"
proof (induction bs)
  case Nil
  then show ?case by (simp add: key_set_def)
next
  case (Cons a bs)
  then obtain m where "length a = 66 * m" by (auto elim: dvdE)
  with Cons show ?case by (simp add: key_set_append)
qed

lemma header_signatures:
  assumes "alg_header vaa = Inr (h, off)" "0 < avSiglen h"
  shows "\<exists>sigs. avSignatures h = Some sigs \<and> length sigs = 66 * nat (avSiglen h)"
proof -
  obtain n where n: "n = nat (avSiglen h)" by blast
  have r: "read_be 8 vaa (n * 66 + 6 + 42) = Inr (avSequence h)" "avSignatures h = (if n \<noteq> 0 then Some (extract3 vaa 6 (n * 66)) else None)"
    using assms(1) unfolding alg_header_def e_bind_Inr_iff Let_def n by (auto simp: e_bind_Inr_iff Let_def split: if_splits)
  have "n * 66 + 6 \<le> length vaa" using r(1) by (simp add: read_be_def split: if_splits)
  moreover have "n \<noteq> 0" using assms(2) n by simp
  ultimately show ?thesis using r(2) n by (simp add: length_subarray)
qed

lemma parse_keeps_header:
  assumes "parseVAAAlgorand vaa = Inr p"
  shows "\<exists>h off. alg_header vaa = Inr (h, off) \<and> avSignatures p = avSignatures h \<and> avSiglen p = avSiglen h"
proof -
  obtain h o1 g o2 a o3 t o4 where s: "alg_header vaa = Inr (h, o1)" "alg_governance vaa (h, o1) = Inr (g, o2)"
    "alg_attest vaa (g\<lparr>avBody := Some (drop o2 vaa)\<rparr>, o2) = Inr (a, o3)" "alg_transfer vaa (a, o3) = Inr (t, o4)" "alg_with_payload vaa (t, o4) = Inr p"
    using assms by (auto simp: parseVAAAlgorand_def e_bind_Inr_iff)
  have "avSignatures g = avSignatures h \<and> avSiglen g = avSiglen h" using s(2) by (auto simp: alg_governance_def e_bind_Inr_iff Let_def split: if_splits)
  moreover have "avSignatures a = avSignatures g \<and> avSiglen a = avSiglen g" using s(3) by (auto simp: alg_attest_def e_bind_Inr_iff split: if_splits)
  moreover have "avSignatures t = avSignatures a \<and> avSiglen t = avSiglen a" using s(4) by (auto simp: alg_transfer_def e_bind_Inr_iff split: if_splits)
  moreover have "avSignatures p = avSignatures t \<and> avSiglen p = avSiglen t" using s(5) by (auto simp: alg_with_payload_def e_bind_Inr_iff split: if_splits)
  ultimately show ?thesis using s(1) by auto
qed

definition call_arg :: "nat \<Rightarrow> alg_tx \<Rightarrow> bytes" where
  "call_arg i tx = (case atBody tx of AlgAppCall args accts app sender \<Rightarrow> args ! i | _ \<Rightarrow> [])"

lemma verify_tx_args: "call_arg 1 (verify_tx c keys dg accts b lsa s) = s" "call_arg 2 (verify_tx c keys dg accts b lsa s) = key_set keys s"
    "atFee (verify_tx c keys dg accts b lsa s) = 0"
  by (simp_all add: call_arg_def verify_tx_def One_nat_def)

text \<open>
  A parsed message with signatures is verified by a group of transactions in which every signature appears exactly once, in order and at most six in a transaction, each
  next to the key that the state of the guardian set has for the guardian it names, and the fee of the last transaction pays the minimum for the whole group, since those of the
  verifying program pay none.
\<close>

theorem header_group:
  assumes "parseVAAAlgorand vaa = Inr p" "0 < avSiglen p" "safeBigIntToNumber bridge = Inr b" "\<And>body. newFee c body = f" "0 \<le> f"
  shows "\<exists>sigs txs final. header_txs c keccak256 lsa p vaa keys accts bridge sender = Inr (txs @ [final]) \<and> avSignatures p = Some sigs
    \<and> concat (map (call_arg 1) txs) = sigs \<and> concat (map (call_arg 2) txs) = key_set keys sigs
    \<and> (\<forall>tx \<in> set txs. length (call_arg 1 tx) \<le> 66 * 6) \<and> f * int (length (txs @ [final])) \<le> sum_list (map atFee (txs @ [final]))"
proof -
  obtain h off where h: "alg_header vaa = Inr (h, off)" "avSignatures p = avSignatures h" "avSiglen p = avSiglen h"
    using parse_keeps_header[OF assms(1)] by blast
  obtain sigs where s: "avSignatures p = Some sigs" "length sigs = 66 * nat (avSiglen p)"
    using header_signatures[OF h(1)] assms(2) h(2,3) by auto
  let ?n = "nat (avSiglen p) div MAX_SIGS_PER_TXN + 1" and ?dg = "keccak256 (keccak256 (avDigest p))"
  let ?bs = "sig_batches sigs ?n" and ?v = "verify_tx c keys ?dg accts b lsa"
  let ?body = "AlgAppCall [low_bytes ''verifyVAA'', vaa] accts b sender"
  let ?final = "\<lparr>atBody = ?body, atFee = f * (1 + int ?n), atSigner = None\<rparr>"
  note cov = batches_cover[OF s(2) refl]
  have "header_txs c keccak256 lsa p vaa keys accts bridge sender = Inr (map ?v ?bs @ [?final])"
    by (simp add: header_txs_def Let_def s(1) assms(3,4))
  moreover have "concat (map (call_arg 1) (map ?v ?bs)) = sigs" "concat (map (call_arg 2) (map ?v ?bs)) = key_set keys sigs"
  proof -
    show "concat (map (call_arg 1) (map ?v ?bs)) = sigs" using cov(1) by (simp add: verify_tx_args comp_def)
    have "list_all (\<lambda>x. 66 dvd length x) ?bs" using cov(3) unfolding list_all_iff by (metis dvd_triv_left)
    from key_set_concat[OF this] show "concat (map (call_arg 2) (map ?v ?bs)) = key_set keys sigs" by (simp add: verify_tx_args comp_def cov(1))
  qed
  moreover have "\<forall>tx \<in> set (map ?v ?bs). length (call_arg 1 tx) \<le> 66 * 6" using cov(3) by (fastforce simp: verify_tx_args MAX_SIGS_PER_TXN_def)
  moreover have "f * int (length (map ?v ?bs @ [?final])) \<le> sum_list (map atFee (map ?v ?bs @ [?final]))"
  proof -
    have "sum_list (map atFee (map ?v ?bs)) = 0" by (simp add: verify_tx_args comp_def)
    moreover have "1 + int (length ?bs) \<le> 1 + int ?n" using cov(2) by linarith
    then have "f * (1 + int (length ?bs)) \<le> f * (1 + int ?n)" using assms(5) by (rule mult_left_mono)
    ultimately show ?thesis by simp
  qed
  ultimately show ?thesis using s(1) by blast
qed

definition demo_algod :: algod where
  "demo_algod = \<lparr>localApps = (\<lambda>a. Inr None), logicSigAddress = to_hex, applicationAddress = show_int, decodeAddress = low_bytes, newFee = (\<lambda>b. 1000)\<rparr>"

theorem header_group_witness:
  "\<exists>p sigs txs final. parseVAAAlgorand (vaa_bytes demo_transfer) = Inr p
     \<and> header_txs demo_algod (\<lambda>b. b) ''L'' p (vaa_bytes demo_transfer) (replicate 100 1) [] 86525623 ''S'' = Inr (txs @ [final])
     \<and> concat (map (call_arg 1) txs) = sigs \<and> length sigs = 66"
proof -
  obtain p where p: "parseVAAAlgorand (vaa_bytes demo_transfer) = Inr p" "header_agrees (vaa_bytes demo_transfer) (as_parsed (\<lambda>b. b) demo_transfer) 15 p"
    using demo_alg_parse by blast
  have n: "avSiglen p = 1" using p(2) by (simp add: header_agrees_def as_parsed_def demo_transfer_def)
  obtain h off where h: "alg_header (vaa_bytes demo_transfer) = Inr (h, off)" "avSignatures p = avSignatures h" "avSiglen p = avSiglen h"
    using parse_keeps_header[OF p(1)] by blast
  obtain sigs where s: "avSignatures p = Some sigs" "length sigs = 66" using header_signatures[OF h(1)] h n by auto
  have "safeBigIntToNumber 86525623 = Inr 86525623" by (simp add: safeBigIntToNumber_def)
  from header_group[OF p(1) _ this, of demo_algod 1000] n s p(1) show ?thesis by (fastforce simp: demo_algod_def)
qed

end
