(* ===== verification/Spec2Isabelle.thy ===== *)
theory Spec2Isabelle
  imports Js_Prelude Buffers Rpc_Client Keeper_Types Keeper_Config Price_Monitor Indexer Keeper_Loop Tx_Builder Dashboard_Api
    Sui_Pyth Pyth_Accumulator Query_Binary Query_Eth Query_Solana Query_Envelope Js_Float Stream_View Stream_Actions Dashboard_View
    Unicode_Text Wormhole_Vaa Vaa_Serialise Vaa_Roundtrip Price_Pusher Sui_Pusher
    Base64 Repair_Vaa Relayer_Structs Solana_Tx Price_Schema Price_Service
    Solana_Receiver Solana_Pusher Evm_Pusher Aptos_Pusher Injective_Pusher Near_Pusher
    Wormhole_Address Mock_Vaa Big_Varint Algorand_Vaa
begin

text \<open>
  \<^bold>\<open>Peach: the keeper, the frontend's stream logic and the SDK code they build on\<close>

  Peach streams SUI payments and hedges them: a stream has a strike, and when the Pyth price crosses it the keeper sells
  the stream's SUI in tranches.  The on-chain part is written in Move.  The TypeScript around it is what this development models.

  \<^bold>\<open>The parts and how they interact.\<close>

  \<^item> The \<^emph>\<open>keeper\<close> (\<^verbatim>\<open>src/apps/keeper/src\<close>) is a process with a timer.  It polls Hermes for a price (\<^verbatim>\<open>price-monitor.ts\<close>),
    mirrors the streams of the chain in a registry (\<^verbatim>\<open>indexer.ts\<close>), and in each tick (\<^verbatim>\<open>keeper.ts\<close>) starts a hedge for each stream in
    breach and a claim for each matured one.  A hedge or claim builds a transaction that first updates the price feed on Sui
    (\<^verbatim>\<open>tx-builder.ts\<close>, which calls the Pyth SDK's \<^verbatim>\<open>SuiPythClient\<close>), signs it and sends it through the pool of RPC endpoints (\<^verbatim>\<open>rpc-client.ts\<close>).
    \<^verbatim>\<open>dashboard.ts\<close> serves its state over HTTP, \<^verbatim>\<open>config.ts\<close> reads the environment.
  \<^item> The \<^emph>\<open>frontend\<close> (\<^verbatim>\<open>src/apps/frontend/src\<close>) lists an account's streams, shows what has accrued, and creates, claims and cancels streams.
  \<^item> The \<^emph>\<open>Pyth SDK\<close> (\<^verbatim>\<open>src/packages/pyth_sdk\<close>) has the Sui client, the binary format of the price updates, the client of the price
    service with its web socket, and the price pusher, a second process, which subscribes to that service and keeps the feeds on a chain fresh.
    Its utilities for Solana batch instructions into transactions and send them.
  \<^item> The \<^emph>\<open>Wormhole SDK\<close> (\<^verbatim>\<open>src/packages/wormhole_sdk\<close>) has the cross-chain queries, the format of the signed messages (VAAs) in
    which Pyth's updates are carried, the repair of their signatures after a change of guardians, the messages of its relayer, the conversion of
    addresses between chains, the emitters with which tests make messages, and a client for Algorand with a parser of its own.

  \<^bold>\<open>Theories.\<close>

  \<^item> \<open>Js_Prelude\<close>: what the sources use of TypeScript: integers in a \<^verbatim>\<open>number\<close> (rounded above \<open>2^53\<close>), \<^verbatim>\<open>bigint\<close>, strings, JSON values, \<^verbatim>\<open>Map\<close> and
    \<^verbatim>\<open>Set\<close> in insertion order, thrown errors as \<open>Inl\<close>, and a state monad with errors.  The locale \<open>js_map\<close> holds the laws of a \<^verbatim>\<open>Map\<close>.
    \<open>Js_Float\<close>: fractional \<^verbatim>\<open>number\<close>s, correctly rounded to 53 bits, without overflow or subnormals.  \<open>Buffers\<close>: \<^verbatim>\<open>Buffer\<close> and hexadecimal.
    \<open>Unicode_Text\<close>: UTF-8 decoding and encoding.  \<open>Base64\<close>: the encoding of VAAs in JSON.
  \<^item> \<open>Rpc_Client\<close> (\<^verbatim>\<open>rpc-client.ts\<close>): the record of the pool, selection, rotation, failure marks, \<^verbatim>\<open>execute\<close> with its timeouts and backoff, health checks.
    Shown: the invariant of the pool, what \<^verbatim>\<open>execute\<close> returns, that it fails over, bounds of the sleeps.  The locale \<open>rpc_executor\<close> is what clients rely on.
  \<^item> \<open>Keeper_Types\<close>, \<open>Keeper_Config\<close> (\<^verbatim>\<open>types.ts\<close>, \<^verbatim>\<open>config.ts\<close>): the records, and loading the configuration with its errors.
  \<^item> \<open>Price_Monitor\<close> (\<^verbatim>\<open>price-monitor.ts\<close>): Hermes answers, normalisation to eight decimals with its accuracy, breach detection against its contract.
  \<^item> \<open>Indexer\<close> (\<^verbatim>\<open>indexer.ts\<close>): the registry is a map to objects in an explicit store, since ticks keep objects across an \<^verbatim>\<open>await\<close>.
    Shown: the invariant, the discovery loop ends and is complete, a refresh mirrors the chain.  The locale \<open>stream_registry\<close> is its interface.
  \<^item> \<open>Keeper_Loop\<close> (\<^verbatim>\<open>keeper.ts\<close>): ticks cut at their \<^verbatim>\<open>await\<close>s into steps of \<open>keeper_step\<close>, with refreshes, registrations and timers in between.
    Shown: claims exclude each other, the registry stays well-formed, what a settled hedge does, and the races the code does have.
  \<^item> \<open>Sui_Pyth\<close> (\<^verbatim>\<open>client.ts\<close> of the Sui SDK): the transaction commands of a price update.  \<open>linear_run\<close> follows the values that Move does not let drop through the commands, by the
    declarations of the Move functions (\<open>move_signatures\<close>): the verified VAA, the price vectors and the coins.  Shown: each is consumed once, by a command after the one that makes
    it, and exactly the objects of the requested feeds are updated.  \<open>Pyth_Accumulator\<close>: the parser of accumulator messages with its inverse.
  \<^item> \<open>Tx_Builder\<close> (\<^verbatim>\<open>tx-builder.ts\<close>): the hedge and claim transactions and the pipeline that submits them.  Building works on the commands so far and on what it has handed to a node
    meanwhile, since a failed price update creates the feed in a transaction of its own.  Shown: everything that one hedge submits, and when the transaction is valid.
  \<^item> \<open>Dashboard_Api\<close> (\<^verbatim>\<open>dashboard.ts\<close>): every route.
  \<^item> \<open>Stream_View\<close>, \<open>Stream_Actions\<close> (the frontend's pages): accrual, fee tier, list of streams; create, claim and cancel with their amounts.
    \<open>Dashboard_View\<close>: the overview with its figures, and the log and graph of a stream; the log is complete and in order, and the badge of the graph differs from the keeper at the strike.
  \<^item> \<open>Query_Binary\<close>, \<open>Query_Eth\<close>, \<open>Query_Solana\<close>, \<open>Query_Envelope\<close> (\<^verbatim>\<open>js-query\<close>): reader and writer, every request and response class, round trips built from
    interpretations of the locale \<open>codec\<close>; \<open>byte_sink\<close> is the interface of the writer.
  \<^item> \<open>Wormhole_Vaa\<close>, \<open>Vaa_Serialise\<close>, \<open>Vaa_Roundtrip\<close> (\<^verbatim>\<open>sdk/js/src/vaa\<close>): the parsers, the serialisers, and that they fit each other.
  \<^item> \<open>Price_Pusher\<close>, \<open>Sui_Pusher\<close> (\<^verbatim>\<open>apps/price_pusher\<close>): listeners, update condition and rounds; the pool of gas coins, merging and splitting,
    parallel sending.  The locale \<open>price_listener\<close> is the interface of both listeners.
  \<^item> \<open>Repair_Vaa\<close> (\<^verbatim>\<open>sdk/js/src/utils/repairVaa.ts\<close>): which signatures survive, when there are enough, and that the result parses with the same body.
  \<^item> \<open>Relayer_Structs\<close> (\<^verbatim>\<open>sdk/js/src/relayer/structs.ts\<close>): parsers against the format of the contract, packers against the parsers, and the one pair that does not fit.
  \<^item> \<open>Solana_Tx\<close> (\<^verbatim>\<open>solana_utils/src\<close>): batching is complete, the estimated size bounds the serialised one, sending with a limit ends.
  \<^item> \<open>Price_Schema\<close> (\<^verbatim>\<open>price_service/sdk\<close>): the schema interpreter accepts exactly the described shapes; writing and reading back.
  \<^item> \<open>Price_Service\<close> (\<^verbatim>\<open>price_service/client\<close>): web sockets, the objects that own them and the suspended tasks as one state with the step relation \<open>conn_step\<close>.
    Events are the public methods, \<^verbatim>\<open>startWebSocket\<close> included, the network and the timers.  Shown: no socket leaks and no subscription is lost, under conditions on the
    user alone that are necessary, recovery from every state, dispatch of updates; and the orders of events that do leak a socket or lose a subscription.
  \<^item> \<open>Solana_Receiver\<close> (\<^verbatim>\<open>pyth_solana_receiver/src\<close>): the instructions that post an update, and the builder that collects them.  Shown: which instructions
    these are and in which order, and that their accounts and arguments pass the checks that the Rust programs under \<^verbatim>\<open>target_chains/solana\<close> make on them (\<open>update_price_feed_checks\<close>
    and the address derivations beside it; the merkle proof and the signatures are data of the message and are not checked); a message with fewer signatures is read as the same.
  \<^item> \<open>Solana_Pusher\<close>, \<open>Evm_Pusher\<close>, \<open>Aptos_Pusher\<close>, \<open>Injective_Pusher\<close>, \<open>Near_Pusher\<close> (\<^verbatim>\<open>apps/price_pusher/src\<close>): the pushers for the other chains.  Shown: bundles cover
    an update, the price of every replacement of a pending transaction, account numbers are consecutive, no push is lost, messages are independent; and the
    orders of answers in which a number is used twice or a push does not return.
  \<^item> \<open>Wormhole_Address\<close> (\<^verbatim>\<open>sdk/js/src/utils\<close>): the table of chains and the conversions of addresses, which are read back; \<open>Mock_Vaa\<close> (\<^verbatim>\<open>sdk/js/src/mock\<close>): emitters and guardians, whose
    signed messages are byte for byte those of the serialiser; \<open>Big_Varint\<close>, \<open>Algorand_Vaa\<close> (\<^verbatim>\<open>sdk/js/src/algorand\<close>): variable-length integers with their round trip, a second parser that agrees
    with the first one on transfers, and the group of transactions that verifies a message.
  \<^item> This theory: the properties that span the indexer and the price monitor, and the price service client and the pusher's listener.

  \<^bold>\<open>Parameters.\<close>  Third-party code is an argument of the definitions that use it: the Sui node and its client, Hermes, the file system, the HTTP
  server, the wallet, bcs, keccak256, elliptic, ethers, BN, bs58, bech32, \<^verbatim>\<open>algosdk\<close>, YAML and Joi, axios, the web socket, and the clients of the chains (Solana's web3.js and anchor,
  web3, \<^verbatim>\<open>near-api-js\<close>, those of Aptos and Injective).  A function \<open>nat \<Rightarrow> \<dots>\<close> stands for its successive
  answers.  What a theorem needs of one is a named hypothesis, such as \<open>faithful_env\<close>, with a witness.

  \<^bold>\<open>Loops.\<close>  There is no fuel.  Loops over data are structural; loops that wait for an outside answer (\<open>discover_loop\<close>, \<open>get_coins_loop\<close>, \<open>merge_loop\<close>, \<open>confirm_loop\<close>) and
  \<open>chunkArray\<close> with an arbitrary size are \<open>partial_function (option)\<close>, and their termination is a theorem under the condition it needs.  The interleaving
  of asynchronous code is a step relation: \<open>rpc_step\<close>, \<open>keeper_step\<close>, \<open>pusher_step\<close>, \<open>gas_step\<close>, \<open>conn_step\<close>, \<open>aptos_step\<close>, \<open>inj_step\<close>.

  \<^bold>\<open>Not modelled.\<close>  The Move contracts and the Rust programs (other languages; of them only the fee tiers, the declarations of the called functions and the checks on
  the accounts of an update are stated, as references), rendering and animation of the
  frontend, logging, the keeper's entry point, the descriptions \<^verbatim>\<open>generic.ts\<close> hands to the package \<^verbatim>\<open>binary-parser\<close>, the command lines of the pushers, the submission of a message on Algorand beyond its header, the tables of
  contract addresses, and the contracts,
  governance tools and SDKs for other chains that both SDK directories vendor.
\<close>

section \<open>From the chain to a hedge\<close>

text \<open>What the state of a stream on the chain calls for at a price with eight decimals.\<close>

definition called_for :: "int \<Rightarrow> int \<Rightarrow> OnChainStream \<Rightarrow> hedge_action \<Rightarrow> bool" where
  "called_for now p oc a \<longleftrightarrow>
     (ocSui oc \<noteq> 0 \<or> ocUsdc oc \<noteq> 0) \<and> ocStrikePrice oc \<noteq> 0
     \<and> ((ocHedgeDirection oc = 0 \<and> p < int (ocStrikePrice oc)) \<or> (ocHedgeDirection oc = 1 \<and> int (ocStrikePrice oc) < p))
     \<and> (case a of
          Initiate \<Rightarrow> ocLiquidationStatus oc = 0
        | ExecuteTranche \<Rightarrow> ocLiquidationStatus oc = 1 \<and> int (ocLastTranche oc + ocTwapInterval oc) \<le> now
            \<and> ocTranchesExecuted oc < (if ocTwapTranches oc = 0 then 5 else ocTwapTranches oc))"

lemma called_for_mirror:
  assumes "int (ocLastTranche oc + ocTwapInterval oc) \<le> max_safe"
  shows "called_for now p oc a \<longleftrightarrow>
     (ocSui oc \<noteq> 0 \<or> ocUsdc oc \<noteq> 0) \<and> strike_crossed p (mirror sid oc) \<and> due now (mirror sid oc) a"
proof -
  have "dbl (int (ocLastTranche oc)) = int (ocLastTranche oc)" "dbl (int (ocTwapInterval oc)) = int (ocTwapInterval oc)"
    "dbl (int (ocLastTranche oc) + int (ocTwapInterval oc)) = int (ocLastTranche oc) + int (ocTwapInterval oc)"
    using assms by simp_all
  then show ?thesis
    by (cases a) (auto simp: called_for_def mirror_def strike_crossed.simps due.simps)
qed

text \<open>A stream is detected exactly when its entry in the registry is in breach.\<close>

lemma registered_objects:
  assumes "idx_inv x"
  shows "(\<exists>r \<in> set (map_values (streams x)). object_at x r = s \<and> streamId s = sid) \<longleftrightarrow> look x sid = Some s"
proof
  assume "\<exists>r \<in> set (map_values (streams x)). object_at x r = s \<and> streamId s = sid"
  then obtain i r where ir: "(i, r) \<in> set (streams x)" "object_at x r = s" "streamId s = sid" by (auto simp: map_values_def)
  then have g: "map_get (streams x) i = Some r" using map_get_wf[OF idx_inv_wf[OF assms]] by blast
  then have "look x i = Some s" by (simp add: look_def ir)
  moreover from this have "i = sid" using reg.get_id[OF assms] ir(3) by blast
  ultimately show "look x sid = Some s" by simp
next
  assume l: "look x sid = Some s"
  then obtain r where r: "map_get (streams x) sid = Some r" "object_at x r = s" by (auto simp: look_def)
  then have "(sid, r) \<in> set (streams x)" using map_get_wf[OF idx_inv_wf[OF assms]] by blast
  then have "r \<in> set (map_values (streams x))" by (force simp: map_values_def)
  with r(2) show "\<exists>r \<in> set (map_values (streams x)). object_at x r = s \<and> streamId s = sid"
    using reg.get_id[OF assms l] by blast
qed

lemma detected_iff:
  assumes "idx_inv x" and "latestPrice m = Some pd"
  shows "(\<exists>b \<in> set (detectBreaches now (object_at x) (streams x) m).
            streamId (object_at x (breachStream b)) = sid \<and> action b = a) \<longleftrightarrow>
         (\<exists>s. look x sid = Some s \<and> strike_crossed (price pd) s \<and> due now s a)"
proof -
  have "b \<in> set (collect_breaches now p d rs) \<longleftrightarrow>
      breachStream b \<in> set rs \<and> currentPrice b = p \<and> breach_action now p (d (breachStream b)) = Some (action b)"
    for p d rs and b :: "nat BreachDetection"
    by (induction rs) (auto split: option.splits)
  then have "b \<in> set (detectBreaches now (object_at x) (streams x) m) \<longleftrightarrow>
      breachStream b \<in> set (map_values (streams x)) \<and> currentPrice b = price pd
      \<and> strike_crossed (price pd) (object_at x (breachStream b)) \<and> due now (object_at x (breachStream b)) (action b)" for b
    using assms(2) by (simp add: detectBreaches_def breach_action_iff)
  note mem = this
  have "(\<exists>b \<in> set (detectBreaches now (object_at x) (streams x) m).
            streamId (object_at x (breachStream b)) = sid \<and> action b = a) \<longleftrightarrow>
      (\<exists>r \<in> set (map_values (streams x)). streamId (object_at x r) = sid
         \<and> strike_crossed (price pd) (object_at x r) \<and> due now (object_at x r) a)" (is "?L \<longleftrightarrow> ?R")
  proof
    assume ?L
    then show ?R by (auto simp: mem)
  next
    assume ?R
    then obtain r where "r \<in> set (map_values (streams x))" "streamId (object_at x r) = sid"
      "strike_crossed (price pd) (object_at x r)" "due now (object_at x r) a" by blast
    then show ?L by (intro bexI[of _ "\<lparr>breachStream = r, currentPrice = price pd, action = a\<rparr>"]) (simp_all add: mem)
  qed
  also have "\<dots> \<longleftrightarrow> (\<exists>s. look x sid = Some s \<and> strike_crossed (price pd) s \<and> due now s a)"
    unfolding registered_objects[OF assms(1), symmetric] by blast
  finally show ?thesis .
qed

text \<open>
  C2.  The indexer and the price monitor together: after a refresh against a node that answers from the chain, a breach of a stream that
  the chain knows is detected exactly when the stream was monitored or is named in the events and its object on the chain
  calls for that action: it holds funds, has a strike, the price has crossed it, and the hedge is either not begun or
  active with a tranche due and left.  A stream whose strike is zero is therefore never hedged.
\<close>

theorem refresh_then_detect:
  assumes "idx_inv x" and "chain_ok chain" and "faithful_env chain env"
    and "discoverStreamsFromEvents (queryEvents env) = Some evs"
    and "latestPrice m = Some pd"
    and "\<forall>sid oc. chain sid = Some oc \<longrightarrow> int (ocLastTranche oc + ocTwapInterval oc) \<le> max_safe"
  shows "\<exists>x'. refreshAll env x = Some x' \<and>
     (\<forall>sid oc a. chain sid = Some oc \<longrightarrow>
        ((\<exists>b \<in> set (detectBreaches now (object_at x') (streams x') m).
            streamId (object_at x' (breachStream b)) = sid \<and> action b = a) \<longleftrightarrow>
         (look x sid \<noteq> None \<or> sid \<in> set evs) \<and> called_for now (price pd) oc a))"
proof -
  from refreshAll_reconciles[OF assms(1-4)] obtain x' where x': "refreshAll env x = Some x'" "idx_inv x'"
    "\<And>sid. look x' sid = (case look x sid of Some s \<Rightarrow> reconcile chain sid (Some s)
       | None \<Rightarrow> if sid \<in> set evs then reconcile chain sid (Some (emptyStreamState sid)) else None)" by blast
  have "look x' sid = (if (look x sid \<noteq> None \<or> sid \<in> set evs) \<and> (ocSui oc \<noteq> 0 \<or> ocUsdc oc \<noteq> 0) then Some (mirror sid oc) else None)"
    if "chain sid = Some oc" for sid oc
    using that by (auto simp: x'(3) reconcile_def split: option.splits)
  then have "(\<exists>s. look x' sid = Some s \<and> strike_crossed (price pd) s \<and> due now s a) \<longleftrightarrow>
      (look x sid \<noteq> None \<or> sid \<in> set evs) \<and> called_for now (price pd) oc a" if "chain sid = Some oc" for sid oc a
    using that by (auto simp: called_for_mirror[OF assms(6)[rule_format, OF that], of _ _ _ sid])
  then show ?thesis using x'(1) detected_iff[OF x'(2) assms(5)] by blast
qed

definition low_price :: PriceData where
  "low_price = \<lparr>price = 300000000, publishTime = Num 1700000000, confidence = 90000\<rparr>"

definition low_monitor :: PriceMonitor where
  "low_monitor = (price_monitor_new demo_keeper_config)\<lparr>latestPrice := Some low_price\<rparr>"

theorem refresh_then_detect_witness:
  "\<exists>x'. refreshAll demo_idx_env demo_indexer = Some x' \<and>
     (\<exists>b \<in> set (detectBreaches 0 (object_at x') (streams x') low_monitor).
        streamId (object_at x' (breachStream b)) = ''s1'' \<and> action b = Initiate)"
proof -
  have "\<forall>sid oc. demo_chain sid = Some oc \<longrightarrow> int (ocLastTranche oc + ocTwapInterval oc) \<le> max_safe"
    by (auto simp: demo_chain_def demo_on_chain_def max_safe_def split: if_splits)
  note safe = this
  have "latestPrice low_monitor = Some low_price" by (simp add: low_monitor_def)
  from refresh_then_detect[OF demo_indexer_facts(1,4,5) demo_discover this safe]
  obtain x' where x': "refreshAll demo_idx_env demo_indexer = Some x'"
    "\<And>sid oc a. demo_chain sid = Some oc \<Longrightarrow>
       ((\<exists>b \<in> set (detectBreaches 0 (object_at x') (streams x') low_monitor).
           streamId (object_at x' (breachStream b)) = sid \<and> action b = a) \<longleftrightarrow>
        (look demo_indexer sid \<noteq> None \<or> sid \<in> set [''s1'', ''s2'']) \<and> called_for 0 (price low_price) oc a)"
    by blast
  have "demo_chain ''s1'' = Some demo_on_chain" "called_for 0 (price low_price) demo_on_chain Initiate"
    by (simp_all add: demo_chain_def called_for_def demo_on_chain_def low_price_def)
  with x' show ?thesis by (metis list.set_intros(1))
qed

section \<open>From the price service to the pusher\<close>

text \<open>
  The listener of the pusher is callback \<open>c\<close> of the connection.  \<open>deliver\<close> runs it for those of the recorded calls that are its own, at a clock
  reading in milliseconds.
\<close>

definition deliver :: "int \<Rightarrow> nat \<Rightarrow> (nat \<times> PriceFeed) list \<Rightarrow> PythPriceListener \<Rightarrow> PythPriceListener" where
  "deliver nowMs c calls l = fold (\<lambda>(g, f) l. if g = c then onNewPriceFeed nowMs f l else l) calls l"

lemma deliver_same:
  assumes "getPriceNoOlderThan nowMs 60 f = Some p"
  shows "pl_getLatestPriceInfo (deliver nowMs c (map (\<lambda>g. (g, f)) gs) l) i =
    (if c \<in> set gs \<and> i = feedId f then Some (info_of_price p) else pl_getLatestPriceInfo l i)"
proof (induction gs arbitrary: l)
  case (Cons g gs)
  then show ?case
    using assms by (auto simp: deliver_def onNewPriceFeed_def pl_getLatestPriceInfo_def pl_set_def)
qed (simp add: deliver_def)

text \<open>
  C3.  From the wire to the pusher: when the listener has subscribed to its feeds, a message with an update of one of them whose price is at most a
  minute away from the clock makes exactly that price the latest one the controller reads for the feed, and changes no other.
\<close>

theorem update_reaches_controller:
  assumes "parse d = Inr m" "own_prop ''type'' m = JStr ''price_update''" "feed_shape (own_prop ''price_feed'' m)"
    and "f = feed_from (own_prop ''price_feed'' m)" "feedId f \<in> set (map removeLeading0xIfExists (plIds l))"
    and "\<bar>nowMs div 1000 - prPublishTime (feedPrice f)\<bar> \<le> 60"
    and "w' = conn_onMessage parse tx d (subscribe_rest (plIds l) c w)"
  shows "pl_getLatestPriceInfo (deliver nowMs c (drop (length (cbCalls w)) (cbCalls w')) l) i =
    (if i = feedId f then Some (info_of_price (feedPrice f)) else pl_getLatestPriceInfo l i)"
proof -
  have "cbCalls w' = cbCalls w @ map (\<lambda>g. (g, f)) (set_add c (callbacks_of w (feedId f)))"
    using message_calls[of parse d m, OF assms(1-3)] assms(4,5) by (simp add: assms(7) callbacks_subscribe)
  moreover have "getPriceNoOlderThan nowMs 60 f = Some (feedPrice f)"
    using assms(6) by (simp add: getPriceNoOlderThan_def getPriceUnchecked_def Let_def)
  ultimately show ?thesis
    by (simp add: deliver_same)
qed

theorem update_reaches_controller_witness:
  "pl_getLatestPriceInfo
     (deliver 120000 7
       (cbCalls (conn_onMessage (\<lambda>d. Inr demo_update) (envText demo_conn_env) [] (subscribe_rest [''0xab''] 7 (conn_new None))))
       (pyth_listener_new [\<lparr>itemId = ''0xab'', itemAlias = ''AB''\<rparr>])) ''ab'' =
   Some \<lparr>infoPrice = ''42'', infoConf = ''1'', infoPublishTime = Num 100\<rparr>"
proof -
  let ?f = "feed_from (own_prop ''price_feed'' demo_update)" and ?l = "pyth_listener_new [\<lparr>itemId = ''0xab'', itemAlias = ''AB''\<rparr>]"
  have u: "own_prop ''type'' demo_update = JStr ''price_update''" "feed_shape (own_prop ''price_feed'' demo_update)" by code_simp+
  have i: "feedId ?f \<in> set (map removeLeading0xIfExists (plIds ?l))" by code_simp
  have t: "\<bar>120000 div 1000 - prPublishTime (feedPrice ?f)\<bar> \<le> 60" by code_simp
  have v: "feedId ?f = ''ab''" "info_of_price (feedPrice ?f) = \<lparr>infoPrice = ''42'', infoConf = ''1'', infoPublishTime = Num 100\<rparr>"
    "plIds ?l = [''0xab'']" "cbCalls (conn_new None) = []"
    by code_simp+
  show ?thesis
    using update_reaches_controller[of "\<lambda>d. Inr demo_update" "[]" demo_update, OF refl u refl i t refl, where tx = "envText demo_conn_env" and c = 7 and w = "conn_new None" and i = "''ab''"]
    by (simp only: v if_True simp_thms list.size drop0)
qed

end
